(* ===== verification/Errors.thy ===== *)
theory Errors
  imports Main
begin

text \<open>
  The errors of the SDK (\<^verbatim>\<open>sdk/src/errors/errors.ts\<close>): the four enumerations of error
  codes, and one type \<open>js_error\<close> for everything a modelled function can throw. A
  \<^verbatim>\<open>WhirlpoolsError\<close> keeps its code; its message and stack are not modelled. The other
  constructors stand for the plain \<^verbatim>\<open>Error\<close>, the failed \<^verbatim>\<open>tiny-invariant\<close>, the failed assertion
  inside \<^verbatim>\<open>bn.js\<close>, the \<^verbatim>\<open>TypeError\<close> of reading a property of \<^verbatim>\<open>undefined\<close>, an error raised by a
  package the SDK calls, and a loop that never ends (a model-only value: the theorems
  show where it cannot occur).
\<close>

datatype MathErrorCode =
    MultiplicationOverflow
  | MulDivOverflow
  | MultiplicationShiftRightOverflow
  | DivideByZero

datatype TokenErrorCode = TokenMaxExceeded | TokenMinSubceeded

datatype SwapErrorCode =
    InvalidDevFeePercentage
  | InvalidSqrtPriceLimitDirection
  | SqrtPriceOutOfBounds
  | ZeroTradableAmount
  | AmountOutBelowMinimum
  | AmountInAboveMaximum
  | TickArrayCrossingAboveMax
  | TickArrayIndexNotInitialized
  | TickArraySequenceInvalid

datatype RouteQueryErrorCode = RouteDoesNotExist | TradeAmountTooHigh | ZeroInputAmount | General

datatype WhirlpoolsErrorCode =
    MathError MathErrorCode
  | TokenError TokenErrorCode
  | SwapError SwapErrorCode
  | RouteQueryError RouteQueryErrorCode

datatype js_error =
    WhirlpoolsError "WhirlpoolsErrorCode option"
  | PlainError
  | InvariantError
  | BnAssertion
  | TypeError
  | PackageError
  | NonTermination

text \<open>\<^verbatim>\<open>e instanceof WhirlpoolsError && e.errorCode === code\<close>\<close>

fun isWhirlpoolsErrorCode :: "js_error \<Rightarrow> WhirlpoolsErrorCode \<Rightarrow> bool" where
  "isWhirlpoolsErrorCode (WhirlpoolsError (Some c)) code \<longleftrightarrow> c = code"
| "isWhirlpoolsErrorCode _ code \<longleftrightarrow> False"

text \<open>A throw with a code of each enumeration.\<close>

abbreviation math_error :: "MathErrorCode \<Rightarrow> js_error" where
  "math_error c \<equiv> WhirlpoolsError (Some (MathError c))"

abbreviation token_error :: "TokenErrorCode \<Rightarrow> js_error" where
  "token_error c \<equiv> WhirlpoolsError (Some (TokenError c))"

abbreviation swap_error :: "SwapErrorCode \<Rightarrow> js_error" where
  "swap_error c \<equiv> WhirlpoolsError (Some (SwapError c))"

end
