(* ===== verification/Prelude.thy ===== *)
theory Prelude
  imports Errors "HOL-Library.Signed_Division" "HOL-Library.While_Combinator"
begin

text \<open>
  What the components share. \<open>'a res\<close> is the result of a function that may throw, \<open>bindE\<close>
  its sequencing, \<open>while_res\<close> a \<^verbatim>\<open>while\<close> loop whose body may throw. Numbers: a \<^verbatim>\<open>BN\<close> is an
  unbounded integer and is modelled as \<open>int\<close>; its division and remainder truncate
  towards zero and fail an assertion on a zero divisor, its shifts and its bitwise
  conjunction fail an assertion on a negative operand. A JavaScript \<^verbatim>\<open>number\<close> that the
  code only uses for integers (tick indices, fee rates, lengths) is an \<open>int\<close> too: all
  values stay far below \<open>2 ^ 53\<close>. \<open>rdiv\<close> is division rounded up or down; the arithmetic
  of every component is reduced to its two Galois connections.
\<close>

unbundle bit_operations_syntax

named_theorems bn_simps \<open>closed forms of bn.js operations on non-negative operands\<close>
named_theorems res_iffs \<open>inversion of a successful result\<close>

subsection \<open>Results\<close>

type_synonym 'a res = "js_error + 'a"

definition bindE :: "'a res \<Rightarrow> ('a \<Rightarrow> 'b res) \<Rightarrow> 'b res" where
  "bindE m f = (case m of Inl e \<Rightarrow> Inl e | Inr x \<Rightarrow> f x)"

lemma bindE_simps [simp]:
  "bindE (Inl e) f = Inl e"
  "bindE (Inr x) f = f x"
  by (simp_all add: bindE_def)

lemma bindE_cong [fundef_cong]:
  "m = m' \<Longrightarrow> (\<And>x. m' = Inr x \<Longrightarrow> f x = f' x) \<Longrightarrow> bindE m f = bindE m' f'"
  by (cases m') auto

lemma bindE_weak_cong: "m = m' \<Longrightarrow> bindE m f = bindE m' f"
  by simp

lemma bindE_eq_Inr [res_iffs]: "bindE m f = Inr y \<longleftrightarrow> (\<exists>x. m = Inr x \<and> f x = Inr y)"
  by (cases m) auto

lemma bindE_eq_Inl: "bindE m f = Inl e \<longleftrightarrow> m = Inl e \<or> (\<exists>x. m = Inr x \<and> f x = Inl e)"
  by (cases m) auto

lemma bindE_assoc: "bindE (bindE m f) g = bindE m (\<lambda>x. bindE (f x) g)"
  by (cases m) auto

lemma if_Inl_eq_Inr [res_iffs]:
  "(if b then Inl e else m) = Inr y \<longleftrightarrow> \<not> b \<and> m = Inr y"
  "(if b then m else Inl e) = Inr y \<longleftrightarrow> b \<and> m = Inr y"
  by auto

text \<open>The results of a list of computations, in order, stopping at the first error.\<close>

fun mapE :: "('a \<Rightarrow> 'b res) \<Rightarrow> 'a list \<Rightarrow> 'b list res" where
  "mapE f [] = Inr []"
| "mapE f (x # xs) = bindE (f x) (\<lambda>y. bindE (mapE f xs) (\<lambda>ys. Inr (y # ys)))"

text \<open>A loop that changes a state, stopping at the first error.\<close>

primrec foldE :: "('a \<Rightarrow> 's \<Rightarrow> 's res) \<Rightarrow> 'a list \<Rightarrow> 's \<Rightarrow> 's res" where
  "foldE f [] s = Inr s"
| "foldE f (x # xs) s = bindE (f x s) (foldE f xs)"

lemma foldE_inv:
  assumes "foldE f xs s = Inr t" "P s"
    and "\<And>x s s'. x \<in> set xs \<Longrightarrow> P s \<Longrightarrow> f x s = Inr s' \<Longrightarrow> P s'"
  shows "P t"
  using assms by (induction xs arbitrary: s) (auto simp: bindE_eq_Inr)

lemma foldE_error:
  assumes "foldE f xs s = Inl e" "\<And>x s. x \<in> set xs \<Longrightarrow> f x s = Inl e \<Longrightarrow> Q"
  shows Q
  using assms by (induction xs arbitrary: s) (auto simp: bindE_eq_Inl)

lemma mapE_cong [fundef_cong]:
  "xs = ys \<Longrightarrow> (\<And>x. x \<in> set ys \<Longrightarrow> f x = g x) \<Longrightarrow> mapE f xs = mapE g ys"
  by (induction ys arbitrary: xs) (auto intro!: bindE_cong)

lemma mapE_list_all2:
  assumes "mapE f xs = Inr ys" "\<And>x y. x \<in> set xs \<Longrightarrow> f x = Inr y \<Longrightarrow> P x y"
  shows "list_all2 P xs ys"
  using assms by (induction xs arbitrary: ys) (auto simp: bindE_eq_Inr)

lemma mapE_Inr_length: "mapE f xs = Inr ys \<Longrightarrow> length ys = length xs"
  by (induction xs arbitrary: ys) (auto simp: bindE_eq_Inr)

subsection \<open>Loops\<close>

text \<open>
  \<open>while_res c b s\<close> runs \<^verbatim>\<open>while (c) b\<close> from the state \<open>s\<close>. A body that throws ends the
  loop with the error; a loop that never ends is \<open>NonTermination\<close>.
\<close>

definition while_res :: "('s \<Rightarrow> bool) \<Rightarrow> ('s \<Rightarrow> 's res) \<Rightarrow> 's \<Rightarrow> 's res" where
  "while_res c b s =
     (case while_option (\<lambda>r. case r of Inl e \<Rightarrow> False | Inr t \<Rightarrow> c t) (\<lambda>r. bindE r b) (Inr s) of
        None \<Rightarrow> Inl NonTermination
      | Some r \<Rightarrow> r)"

lemma while_res_unfold [code]:
  "while_res c b s = (if c s then bindE (b s) (while_res c b) else Inr s)"
proof (cases "c s")
  case True
  show ?thesis
  proof (cases "b s")
    case (Inl e)
    with True show ?thesis
      unfolding while_res_def
      by (subst while_option_unfold, simp) (subst while_option_unfold, simp)
  next
    case (Inr t)
    with True show ?thesis
      unfolding while_res_def by (subst while_option_unfold) simp
  qed
next
  case False
  then show ?thesis
    unfolding while_res_def by (subst while_option_unfold) simp
qed

text \<open>Total correctness: an invariant and a measure give the end of the loop.\<close>

lemma while_res_total:
  fixes m :: "'s \<Rightarrow> nat"
  assumes "I s"
    and step: "\<And>t t'. I t \<Longrightarrow> c t \<Longrightarrow> b t = Inr t' \<Longrightarrow> I t' \<and> m t' < m t"
    and err: "\<And>t e. I t \<Longrightarrow> c t \<Longrightarrow> b t = Inl e \<Longrightarrow> Q (Inl e)"
    and fin: "\<And>t. I t \<Longrightarrow> \<not> c t \<Longrightarrow> Q (Inr t)"
  shows "Q (while_res c b s)"
  using \<open>I s\<close>
proof (induction "m s" arbitrary: s rule: less_induct)
  case less
  show ?case
  proof (cases "c s")
    case False
    with less.prems fin show ?thesis by (subst while_res_unfold) simp
  next
    case True
    show ?thesis
    proof (cases "b s")
      case (Inl e)
      with True less.prems err show ?thesis by (subst while_res_unfold) simp
    next
      case (Inr t)
      with step [OF less.prems True] less.hyps have "Q (while_res c b t)" by blast
      with True Inr show ?thesis by (subst while_res_unfold) simp
    qed
  qed
qed

text \<open>Partial correctness: what a loop that returned has kept.\<close>

lemma while_res_invariant:
  assumes ret: "while_res c b s = Inr t" and "I s"
    and step: "\<And>u u'. I u \<Longrightarrow> c u \<Longrightarrow> b u = Inr u' \<Longrightarrow> I u'"
  shows "I t \<and> \<not> c t"
proof -
  let ?c = "\<lambda>r. case r of Inl e \<Rightarrow> False | Inr t \<Rightarrow> c t"
  let ?b = "\<lambda>r. bindE r b"
  from ret obtain w: "while_option ?c ?b (Inr s) = Some (Inr t)"
    unfolding while_res_def by (auto split: option.splits)
  have "case (Inr t :: 'a res) of Inl e \<Rightarrow> True | Inr u \<Rightarrow> I u"
    by (rule while_option_rule [OF _ w])
      (use \<open>I s\<close> step in \<open>auto split: sum.splits simp: bindE_def\<close>)
  moreover have "\<not> c t"
    using while_option_stop [OF w] by simp
  ultimately show ?thesis by simp
qed

text \<open>A computation that does not hang: it returns or throws.\<close>

named_theorems ends_intros \<open>computations that return or throw\<close>

definition ends :: "'a res \<Rightarrow> bool" where
  "ends r \<longleftrightarrow> r \<noteq> Inl NonTermination"

lemma ends_simps [simp]: "ends (Inr x)" "ends (Inl e) \<longleftrightarrow> e \<noteq> NonTermination"
  by (simp_all add: ends_def)

lemma ends_bindE [ends_intros]: "ends m \<Longrightarrow> (\<And>x. m = Inr x \<Longrightarrow> ends (f x)) \<Longrightarrow> ends (bindE m f)"
  by (cases m) (auto simp: ends_def)

lemma ends_if [ends_intros]: "(b \<Longrightarrow> ends x) \<Longrightarrow> (\<not> b \<Longrightarrow> ends y) \<Longrightarrow> ends (if b then x else y)"
  by simp

lemma ends_mapE: "(\<And>x. x \<in> set xs \<Longrightarrow> ends (f x)) \<Longrightarrow> ends (mapE f xs)"
  by (induction xs) (auto intro!: ends_intros)

subsection \<open>Arithmetic of bn.js\<close>

definition bn_div :: "int \<Rightarrow> int \<Rightarrow> int res" where
  "bn_div a b = (if b = 0 then Inl BnAssertion else Inr (a sdiv b))"

definition bn_mod :: "int \<Rightarrow> int \<Rightarrow> int res" where
  "bn_mod a b = (if b = 0 then Inl BnAssertion else Inr (a smod b))"

definition bn_shln :: "int \<Rightarrow> nat \<Rightarrow> int res" where
  "bn_shln a k = (if a < 0 then Inl BnAssertion else Inr (a * 2 ^ k))"

definition bn_shrn :: "int \<Rightarrow> nat \<Rightarrow> int res" where
  "bn_shrn a k = (if a < 0 then Inl BnAssertion else Inr (a div 2 ^ k))"

definition bn_and :: "int \<Rightarrow> int \<Rightarrow> int res" where
  "bn_and a b = (if a < 0 \<or> b < 0 then Inl BnAssertion else Inr (a AND b))"

lemma sdiv_nonneg: "0 \<le> a \<Longrightarrow> 0 < b \<Longrightarrow> a sdiv b = a div (b :: int)"
  by (cases "a = 0") (simp_all add: signed_divide_int_def)

lemma smod_nonneg: "0 \<le> a \<Longrightarrow> 0 < b \<Longrightarrow> a smod b = a mod (b :: int)"
  by (cases "a = 0") (simp_all add: signed_modulo_int_def)

lemma bn_nonneg [bn_simps]:
  "0 \<le> a \<Longrightarrow> 0 < b \<Longrightarrow> bn_div a b = Inr (a div b)"
  "0 \<le> a \<Longrightarrow> 0 < b \<Longrightarrow> bn_mod a b = Inr (a mod b)"
  "0 \<le> a \<Longrightarrow> bn_shln a k = Inr (a * 2 ^ k)"
  "0 \<le> a \<Longrightarrow> bn_shrn a k = Inr (a div 2 ^ k)"
  "0 \<le> a \<Longrightarrow> 0 \<le> b \<Longrightarrow> bn_and a b = Inr (a AND b)"
  by (auto simp: bn_div_def bn_mod_def bn_shln_def bn_shrn_def bn_and_def sdiv_nonneg smod_nonneg)

lemma bn_eq_Inr [res_iffs]:
  "bn_div a b = Inr r \<longleftrightarrow> b \<noteq> 0 \<and> r = a sdiv b"
  "bn_mod a b = Inr r \<longleftrightarrow> b \<noteq> 0 \<and> r = a smod b"
  "bn_shln a k = Inr r \<longleftrightarrow> 0 \<le> a \<and> r = a * 2 ^ k"
  "bn_shrn a k = Inr r \<longleftrightarrow> 0 \<le> a \<and> r = a div 2 ^ k"
  by (auto simp: bn_div_def bn_mod_def bn_shln_def bn_shrn_def)

lemma bn_ends [simp]:
  "ends (bn_div a b)" "ends (bn_mod a b)" "ends (bn_shln a k)" "ends (bn_shrn a k)" "ends (bn_and a b)"
  by (simp_all add: bn_div_def bn_mod_def bn_shln_def bn_shrn_def bn_and_def)

lemma AND_mask_eq_mod: "(a :: int) AND (2 ^ k - 1) = a mod 2 ^ k"
  by (simp add: mask_eq_exp_minus_1 [symmetric] take_bit_eq_mask [symmetric] take_bit_eq_mod)

subsection \<open>Rounded division\<close>

definition rdiv :: "bool \<Rightarrow> int \<Rightarrow> int \<Rightarrow> int" where
  "rdiv up a b = (if up \<and> a mod b \<noteq> 0 then a div b + 1 else a div b)"

lemma le_div_iff_int: "0 < b \<Longrightarrow> k \<le> a div b \<longleftrightarrow> k * b \<le> (a :: int)"
proof
  assume b: "0 < b" and "k \<le> a div b"
  then have "k * b \<le> (a div b) * b" by simp
  also have "\<dots> \<le> a" using b by (simp add: minus_mod_eq_div_mult [symmetric])
  finally show "k * b \<le> a" .
next
  assume b: "0 < b" and "k * b \<le> a"
  then have "(k * b) div b \<le> a div b" by (intro zdiv_mono1)
  with b show "k \<le> a div b" by simp
qed

lemma le_rdiv_down_iff: "0 < b \<Longrightarrow> k \<le> rdiv False a b \<longleftrightarrow> k * b \<le> a"
  by (simp add: rdiv_def le_div_iff_int)

lemma rdiv_up_eq_neg: "0 < b \<Longrightarrow> rdiv True a b = - ((- a) div b)"
  by (simp add: rdiv_def zdiv_zminus1_eq_if)

lemma rdiv_up_le_iff: "0 < b \<Longrightarrow> rdiv True a b \<le> k \<longleftrightarrow> a \<le> k * b"
  using le_div_iff_int [of b "- k" "- a"] by (simp add: rdiv_up_eq_neg) linarith

lemma rdiv_bounds:
  assumes "0 < b"
  shows "rdiv False a b * b \<le> a" "a < (rdiv False a b + 1) * b"
    "a \<le> rdiv True a b * b" "(rdiv True a b - 1) * b < a"
  using le_rdiv_down_iff [OF assms, of "rdiv False a b" a]
    le_rdiv_down_iff [OF assms, of "rdiv False a b + 1" a]
    rdiv_up_le_iff [OF assms, of a "rdiv True a b"]
    rdiv_up_le_iff [OF assms, of a "rdiv True a b - 1"]
  by auto

lemma rdiv_nonneg: "0 < b \<Longrightarrow> 0 \<le> a \<Longrightarrow> 0 \<le> rdiv up a b"
  by (auto simp: rdiv_def pos_imp_zdiv_nonneg_iff)

lemma rdiv_down_le_up: "0 < b \<Longrightarrow> rdiv False a b \<le> rdiv up a b"
  by (auto simp: rdiv_def)

lemma rdiv_mono: "0 < b \<Longrightarrow> a \<le> a' \<Longrightarrow> rdiv up a b \<le> rdiv up a' b"
  by (cases up)
    (use rdiv_bounds [of b a'] rdiv_bounds [of b a] in
      \<open>auto simp: rdiv_up_le_iff le_rdiv_down_iff intro: order_trans\<close>)

lemma rdiv_zero [simp]: "rdiv up 0 b = 0"
  by (simp add: rdiv_def)

end
