(* ===== verification/Constants.thy ===== *)
theory Constants
  imports Prelude
begin

text \<open>
  The protocol constants (\<^verbatim>\<open>sdk/src/types/public/constants.ts\<close>,
  \<^verbatim>\<open>sdk/src/utils/math/constants.ts\<close>). Square-root prices are Q64.64 fixed-point numbers.
  \<open>U64_MAX\<close> is the constant of that name the SDK imports: the largest 64-bit unsigned
  integer.
\<close>

definition ORCA_SUPPORTED_TICK_SPACINGS :: "int list" where
  "ORCA_SUPPORTED_TICK_SPACINGS = [1, 2, 4, 8, 16, 64, 128, 256]"

definition NUM_REWARDS :: nat where "NUM_REWARDS = 3"

definition MAX_TICK_INDEX :: int where "MAX_TICK_INDEX = 443636"

definition MIN_TICK_INDEX :: int where "MIN_TICK_INDEX = - 443636"

definition MAX_SQRT_PRICE :: int where "MAX_SQRT_PRICE = 79226673515401279992447579055"

definition MIN_SQRT_PRICE :: int where "MIN_SQRT_PRICE = 4295048016"

definition TICK_ARRAY_SIZE :: int where "TICK_ARRAY_SIZE = 88"

definition POSITION_BUNDLE_SIZE :: int where "POSITION_BUNDLE_SIZE = 256"

definition MAX_SWAP_TICK_ARRAYS :: nat where "MAX_SWAP_TICK_ARRAYS = 3"

definition PROTOCOL_FEE_RATE_MUL_VALUE :: int where "PROTOCOL_FEE_RATE_MUL_VALUE = 10000"

definition FEE_RATE_MUL_VALUE :: int where "FEE_RATE_MUL_VALUE = 1000000"

definition U64_MAX :: int where "U64_MAX = 2 ^ 64 - 1"

definition U64 :: int where "U64 = U64_MAX + 1"

lemmas constant_defs = ORCA_SUPPORTED_TICK_SPACINGS_def NUM_REWARDS_def MAX_TICK_INDEX_def
  MIN_TICK_INDEX_def MAX_SQRT_PRICE_def MIN_SQRT_PRICE_def TICK_ARRAY_SIZE_def
  POSITION_BUNDLE_SIZE_def MAX_SWAP_TICK_ARRAYS_def PROTOCOL_FEE_RATE_MUL_VALUE_def
  FEE_RATE_MUL_VALUE_def U64_MAX_def U64_def

end
