(* ===== verification/Packages.thy ===== *)
theory Packages
  imports Constants
begin

text \<open>
  The packages the SDK calls and this repository does not contain. Each is a record of
  the functions the code uses, passed as an argument to the definitions that use it, and a
  predicate that states the documented behaviour the theorems rely on. The \<open>_ref\<close> records
  are concrete instances, used by the witnesses.

  \<open>math_util\<close> is \<^verbatim>\<open>MathUtil\<close> of \<^verbatim>\<open>@orca-so/common-sdk\<close>: dropping the 64 fraction bits of a
  Q64.64 number, division rounded up, a shift by 64 bits rounded up (only known to be the
  floor or the floor plus one), and subtraction modulo \<open>2 ^ 128\<close>.
\<close>

record math_util =
  fromX64_BN :: "int \<Rightarrow> int res"
  divRoundUp :: "int \<Rightarrow> int \<Rightarrow> int res"
  shiftRightRoundUp :: "int \<Rightarrow> int res"
  subUnderflowU128 :: "int \<Rightarrow> int \<Rightarrow> int res"

definition shift_up_near :: "int \<Rightarrow> int res \<Rightarrow> bool" where
  "shift_up_near n r \<longleftrightarrow> r = Inr (n div 2 ^ 64) \<or> r = Inr (n div 2 ^ 64 + 1)"

definition math_util_ok :: "math_util \<Rightarrow> bool" where
  "math_util_ok mu \<longleftrightarrow>
     (\<forall>n \<ge> 0. fromX64_BN mu n = Inr (n div 2 ^ 64)) \<and>
     (\<forall>n \<ge> 0. \<forall>d > 0. divRoundUp mu n d = Inr (rdiv True n d)) \<and>
     (\<forall>n \<ge> 0. shift_up_near n (shiftRightRoundUp mu n)) \<and>
     (\<forall>a b. 0 \<le> a \<longrightarrow> a < 2 ^ 128 \<longrightarrow> 0 \<le> b \<longrightarrow> b < 2 ^ 128 \<longrightarrow>
        subUnderflowU128 mu a b = Inr ((a - b) mod 2 ^ 128))"

lemma math_util_okD:
  assumes "math_util_ok mu"
  shows "0 \<le> n \<Longrightarrow> fromX64_BN mu n = Inr (n div 2 ^ 64)"
    and "0 \<le> n \<Longrightarrow> 0 < d \<Longrightarrow> divRoundUp mu n d = Inr (rdiv True n d)"
    and "0 \<le> n \<Longrightarrow> shift_up_near n (shiftRightRoundUp mu n)"
    and "0 \<le> a \<Longrightarrow> a < 2 ^ 128 \<Longrightarrow> 0 \<le> b \<Longrightarrow> b < 2 ^ 128 \<Longrightarrow>
      subUnderflowU128 mu a b = Inr ((a - b) mod 2 ^ 128)"
  using assms by (auto simp: math_util_ok_def)

definition math_util_ref :: math_util where
  "math_util_ref =
     \<lparr>fromX64_BN = (\<lambda>n. bn_shrn n 64),
      divRoundUp = (\<lambda>n d. if d = 0 then Inl BnAssertion else Inr (rdiv True n d)),
      shiftRightRoundUp = (\<lambda>n. Inr (rdiv True n (2 ^ 64))),
      subUnderflowU128 = (\<lambda>a b. Inr ((a - b) mod 2 ^ 128))\<rparr>"

lemma math_util_ref_ok: "math_util_ok math_util_ref"
  by (auto simp: math_util_ok_def math_util_ref_def shift_up_near_def rdiv_def bn_simps)

text \<open>
  \<^verbatim>\<open>Percentage\<close> of \<^verbatim>\<open>@orca-so/common-sdk\<close> is a pair of \<^verbatim>\<open>BN\<close> fields. A public key is only
  compared for equality, or passed on; it is its base-58 text.
\<close>

record percentage =
  numerator :: int
  denominator :: int

type_synonym pubkey = string

end
