(* ===== verification/Accounts.thy ===== *)
theory Accounts
  imports Packages
begin

text \<open>
  The account data the SDK reads (\<^verbatim>\<open>sdk/src/types/public/anchor-types.ts\<close>), as records. A
  field's prefix names its account: \<open>wc_\<close> a configuration, \<open>ft_\<close> a fee tier, \<open>wp_\<close> a whirlpool, \<open>wri_\<close> its reward slots, \<open>ta_\<close> a
  tick array, \<open>tick_\<close> a tick, \<open>pos_\<close> a position, \<open>pri_\<close> its reward slots.
\<close>

record WhirlpoolsConfigData =
  wc_feeAuthority :: pubkey
  wc_collectProtocolFeesAuthority :: pubkey
  wc_rewardEmissionsSuperAuthority :: pubkey
  wc_defaultFeeRate :: int
  wc_defaultProtocolFeeRate :: int

record FeeTierData =
  ft_whirlpoolsConfig :: pubkey
  ft_tickSpacing :: int
  ft_defaultFeeRate :: int

record WhirlpoolRewardInfoData =
  wri_mint :: pubkey
  wri_vault :: pubkey
  wri_authority :: pubkey
  wri_emissionsPerSecondX64 :: int
  wri_growthGlobalX64 :: int

record WhirlpoolData =
  wp_whirlpoolsConfig :: pubkey
  wp_whirlpoolBump :: "int list"
  wp_feeRate :: int
  wp_protocolFeeRate :: int
  wp_liquidity :: int
  wp_sqrtPrice :: int
  wp_tickCurrentIndex :: int
  wp_protocolFeeOwedA :: int
  wp_protocolFeeOwedB :: int
  wp_tokenMintA :: pubkey
  wp_tokenVaultA :: pubkey
  wp_feeGrowthGlobalA :: int
  wp_tokenMintB :: pubkey
  wp_tokenVaultB :: pubkey
  wp_feeGrowthGlobalB :: int
  wp_rewardLastUpdatedTimestamp :: int
  wp_rewardInfos :: "WhirlpoolRewardInfoData list"
  wp_tickSpacing :: int

record TickData =
  tick_initialized :: bool
  tick_liquidityNet :: int
  tick_liquidityGross :: int
  tick_feeGrowthOutsideA :: int
  tick_feeGrowthOutsideB :: int
  tick_rewardGrowthsOutside :: "int list"

record TickArrayData =
  ta_whirlpool :: pubkey
  ta_startTickIndex :: int
  ta_ticks :: "TickData list"

record PositionRewardInfoData =
  pri_growthInsideCheckpoint :: int
  pri_amountOwed :: int

record PositionData =
  pos_whirlpool :: pubkey
  pos_positionMint :: pubkey
  pos_liquidity :: int
  pos_tickLowerIndex :: int
  pos_tickUpperIndex :: int
  pos_feeGrowthCheckpointA :: int
  pos_feeOwedA :: int
  pos_feeGrowthCheckpointB :: int
  pos_feeOwedB :: int
  pos_rewardInfos :: "PositionRewardInfoData list"

record PositionBundleData =
  pb_positionBundleMint :: pubkey
  pb_positionBitmap :: "int list"

text \<open>A tick that no position uses, as a tick array stores it.\<close>

definition empty_tick :: TickData where
  "empty_tick = \<lparr>tick_initialized = False, tick_liquidityNet = 0, tick_liquidityGross = 0,
     tick_feeGrowthOutsideA = 0, tick_feeGrowthOutsideB = 0, tick_rewardGrowthsOutside = [0, 0, 0]\<rparr>"

end
