(* ===== verification/Spl_Token.thy ===== *)
theory Spl_Token
  imports Accounts Prelude
begin

text \<open>
  Mints, and the part of \<^verbatim>\<open>@solana/spl-token\<close> the SDK calls. \<open>mint_info\<close> is
  \<^verbatim>\<open>MintWithTokenProgram\<close>, a mint with the program that owns it. \<open>spl_token\<close> holds the calls as
  parameters: reading the extensions of a mint, the transfer fee of an epoch and the fee of
  an amount. \<open>spl_token_ok\<close> states the documented fee: the rate in basis points, rounded up and
  capped by the maximum fee.
\<close>

record mint_info =
  mi_address :: pubkey
  mi_decimals :: int
  mi_freezeAuthority :: "pubkey option"
  mi_tlvData :: "int list"
  mi_tokenProgram :: pubkey

record TransferFee =
  tf_maximumFee :: int
  tf_transferFeeBasisPoints :: int

datatype ExtensionType =
    TransferFeeConfig
  | TokenMetadata
  | MetadataPointer
  | ConfidentialTransferMint
  | ConfidentialTransferFeeConfig
  | PermanentDelegate
  | TransferHook
  | MintCloseAuthority
  | DefaultAccountState
  | NonTransferable
  | OtherExtension int

datatype AccountState = Uninitialized | Initialized | Frozen

record AccountMeta =
  meta_pubkey :: pubkey
  meta_isSigner :: bool
  meta_isWritable :: bool

text \<open>\<open>'c\<close> is the type of the transfer fee configurations, which the code only passes on.\<close>

record 'c spl_token =
  TOKEN_PROGRAM_ID :: pubkey
  TOKEN_2022_PROGRAM_ID :: pubkey
  NATIVE_MINT_2022 :: pubkey
  getTransferFeeConfig :: "mint_info \<Rightarrow> 'c option"
  getEpochFee :: "'c \<Rightarrow> int \<Rightarrow> TransferFee"
  calculateFee :: "TransferFee \<Rightarrow> int \<Rightarrow> int"
  getTransferHook :: "mint_info \<Rightarrow> pubkey option"
  addExtraAccountMetas :: "AccountMeta list \<Rightarrow> pubkey \<Rightarrow> pubkey \<Rightarrow> pubkey \<Rightarrow> pubkey \<Rightarrow> pubkey \<Rightarrow> int
    \<Rightarrow> AccountMeta list res"
  getExtensionTypes :: "int list \<Rightarrow> ExtensionType list"
  getDefaultAccountState :: "mint_info \<Rightarrow> AccountState option"

text \<open>The fee of a transfer, and the fees a mint can carry: basis points up to 10000.\<close>

definition fee_of :: "TransferFee \<Rightarrow> int \<Rightarrow> int" where
  "fee_of fee amount = min (tf_maximumFee fee) (rdiv True (amount * tf_transferFeeBasisPoints fee) 10000)"

definition transfer_fee_ok :: "TransferFee \<Rightarrow> bool" where
  "transfer_fee_ok fee \<longleftrightarrow> 0 \<le> tf_maximumFee fee \<and> 0 \<le> tf_transferFeeBasisPoints fee
     \<and> tf_transferFeeBasisPoints fee \<le> 10000"

definition spl_token_ok :: "'c spl_token \<Rightarrow> bool" where
  "spl_token_ok spl \<longleftrightarrow>
     (\<forall>fee amount. transfer_fee_ok fee \<longrightarrow> 0 \<le> amount \<longrightarrow> calculateFee spl fee amount = fee_of fee amount) \<and>
     (\<forall>mint config epoch. getTransferFeeConfig spl mint = Some config \<longrightarrow> transfer_fee_ok (getEpochFee spl config epoch))"

text \<open>An instance in which every mint of the second program takes \<open>1 %\<close>, at most 5000.\<close>

definition spl_token_ref :: "TransferFee spl_token" where
  "spl_token_ref = \<lparr>TOKEN_PROGRAM_ID = ''token'', TOKEN_2022_PROGRAM_ID = ''token2022'',
     NATIVE_MINT_2022 = ''native2022'',
     getTransferFeeConfig = (\<lambda>mint. if mi_tokenProgram mint = ''token2022''
       then Some \<lparr>tf_maximumFee = 5000, tf_transferFeeBasisPoints = 100\<rparr> else None),
     getEpochFee = (\<lambda>config epoch. config),
     calculateFee = fee_of,
     getTransferHook = (\<lambda>mint. None),
     addExtraAccountMetas = (\<lambda>metas _ _ _ _ _ _. Inr metas),
     getExtensionTypes = (\<lambda>_. []),
     getDefaultAccountState = (\<lambda>_. None)\<rparr>"

lemma spl_token_ref_ok: "spl_token_ok spl_token_ref"
  by (auto simp: spl_token_ok_def spl_token_ref_def transfer_fee_ok_def)

definition example_mint :: "string \<Rightarrow> string \<Rightarrow> mint_info" where
  "example_mint address program = \<lparr>mi_address = address, mi_decimals = 6, mi_freezeAuthority = None,
     mi_tlvData = [], mi_tokenProgram = program\<rparr>"

text \<open>The key whose 32 bytes are zero, which marks an unused field.\<close>

definition PublicKey_default :: pubkey where
  "PublicKey_default = replicate 32 (CHR ''1'')"

end
