(* ===== verification/Token_Extension.thy ===== *)
theory Token_Extension
  imports Spl_Token
begin

text \<open>
  Transfer fees and transfer hooks (\<^verbatim>\<open>sdk/src/utils/public/token-extension-util.ts\<close>). A mint
  with a transfer fee keeps a part of every transfer: \<open>calculateTransferFeeExcludedAmount\<close>
  takes the fee off a gross amount, \<open>calculateTransferFeeIncludedAmount\<close> finds the gross
  amount whose net is given. The two inner functions of the file carry the prefix \<open>fee_\<close>.
  The theorem of this theory: the second is an exact inverse of the first and least.
  A pool's mints and the epoch are the records of the contexts; a fetched mint that is
  missing (the \<^verbatim>\<open>!\<close> of the source) is outside the model.
\<close>

record TransferFeeIncludedAmount =
  tfi_amount :: int
  tfi_fee :: int

record TransferFeeExcludedAmount =
  tfe_amount :: int
  tfe_fee :: int

record TokenExtensionContextForPool =
  tec_currentEpoch :: int
  tec_tokenMintWithProgramA :: mint_info
  tec_tokenMintWithProgramB :: mint_info

record TokenExtensionContext = TokenExtensionContextForPool +
  tec_rewardTokenMintsWithProgram :: "mint_info option list"

definition defaultTokenMintWithProgram :: "'c spl_token \<Rightarrow> mint_info" where
  "defaultTokenMintWithProgram spl = \<lparr>mi_address = PublicKey_default, mi_decimals = 0,
     mi_freezeAuthority = None, mi_tlvData = [], mi_tokenProgram = TOKEN_PROGRAM_ID spl\<rparr>"

definition NO_TOKEN_EXTENSION_CONTEXT :: "'c spl_token \<Rightarrow> TokenExtensionContext" where
  "NO_TOKEN_EXTENSION_CONTEXT spl = \<lparr>tec_currentEpoch = 0,
     tec_tokenMintWithProgramA = defaultTokenMintWithProgram spl,
     tec_tokenMintWithProgramB = defaultTokenMintWithProgram spl,
     tec_rewardTokenMintsWithProgram = [Some (defaultTokenMintWithProgram spl),
       Some (defaultTokenMintWithProgram spl), Some (defaultTokenMintWithProgram spl)]\<rparr>"

subsection \<open>Transfer fees\<close>

definition ceilDivBN :: "int \<Rightarrow> int \<Rightarrow> int res" where
  "ceilDivBN num denom = bn_div (num + (denom - 1)) denom"

definition fee_calculateTransferFeeIncludedAmount ::
    "TransferFee \<Rightarrow> int \<Rightarrow> TransferFeeIncludedAmount res" where
  "fee_calculateTransferFeeIncludedAmount transferFee amount =
     (let ONE_IN_BASIS_POINTS = 10000;
          maxFeeBN = tf_maximumFee transferFee in
      if tf_transferFeeBasisPoints transferFee = 0
      then Inr \<lparr>tfi_amount = amount, tfi_fee = 0\<rparr>
      else if amount = 0
      then Inr \<lparr>tfi_amount = amount, tfi_fee = 0\<rparr>
      else if tf_transferFeeBasisPoints transferFee = ONE_IN_BASIS_POINTS
      then (if amount + maxFeeBN > U64_MAX then Inl PlainError
            else Inr \<lparr>tfi_amount = amount + maxFeeBN, tfi_fee = maxFeeBN\<rparr>)
      else
        let num = amount * ONE_IN_BASIS_POINTS;
            denom = ONE_IN_BASIS_POINTS - tf_transferFeeBasisPoints transferFee in
        bindE (ceilDivBN num denom) (\<lambda>rawFeeIncludedAmount.
        let result = (if rawFeeIncludedAmount - amount \<ge> maxFeeBN
              then \<lparr>tfi_amount = amount + maxFeeBN, tfi_fee = maxFeeBN\<rparr>
              else \<lparr>tfi_amount = rawFeeIncludedAmount, tfi_fee = rawFeeIncludedAmount - amount\<rparr>) in
        if tfi_amount result > U64_MAX then Inl PlainError else Inr result))"

definition fee_calculateTransferFeeExcludedAmount ::
    "'c spl_token \<Rightarrow> TransferFee \<Rightarrow> int \<Rightarrow> TransferFeeExcludedAmount" where
  "fee_calculateTransferFeeExcludedAmount spl transferFee amount =
     (let fee = calculateFee spl transferFee amount in
      \<lparr>tfe_amount = amount - fee, tfe_fee = fee\<rparr>)"

definition calculateTransferFeeIncludedAmount ::
    "'c spl_token \<Rightarrow> int \<Rightarrow> mint_info \<Rightarrow> int \<Rightarrow> TransferFeeIncludedAmount res" where
  "calculateTransferFeeIncludedAmount spl transferFeeExcludedAmount tokenInfo currentEpoch =
     (case getTransferFeeConfig spl tokenInfo of
        None \<Rightarrow> Inr \<lparr>tfi_amount = transferFeeExcludedAmount, tfi_fee = 0\<rparr>
      | Some config \<Rightarrow>
          let transferFee = getEpochFee spl config currentEpoch in
          fee_calculateTransferFeeIncludedAmount transferFee transferFeeExcludedAmount)"

definition calculateTransferFeeExcludedAmount ::
    "'c spl_token \<Rightarrow> int \<Rightarrow> mint_info \<Rightarrow> int \<Rightarrow> TransferFeeExcludedAmount" where
  "calculateTransferFeeExcludedAmount spl transferFeeIncludedAmount tokenInfo currentEpoch =
     (case getTransferFeeConfig spl tokenInfo of
        None \<Rightarrow> \<lparr>tfe_amount = transferFeeIncludedAmount, tfe_fee = 0\<rparr>
      | Some config \<Rightarrow>
          let transferFee = getEpochFee spl config currentEpoch in
          fee_calculateTransferFeeExcludedAmount spl transferFee transferFeeIncludedAmount)"

subsection \<open>Contexts\<close>

definition isRewardInitialized :: "WhirlpoolRewardInfoData \<Rightarrow> bool" where
  "isRewardInitialized rewardInfo \<longleftrightarrow>
     PublicKey_default \<noteq> wri_mint rewardInfo \<and> PublicKey_default \<noteq> wri_vault rewardInfo"

text \<open>
  \<open>getMintInfos\<close> and \<open>epoch\<close> stand for the fetcher's two calls. Reading a reward slot that does
  not exist is a \<open>TypeError\<close>.
\<close>

definition buildTokenExtensionContext ::
    "(pubkey list \<Rightarrow> pubkey \<Rightarrow> mint_info) \<Rightarrow> int \<Rightarrow> WhirlpoolData \<Rightarrow> TokenExtensionContext res" where
  "buildTokenExtensionContext getMintInfos epoch whirlpoolData =
     (let mintA = wp_tokenMintA whirlpoolData;
          mintB = wp_tokenMintB whirlpoolData;
          rewards = wp_rewardInfos whirlpoolData;
          tokenMintWithProgram = getMintInfos ([mintA, mintB] @ map wri_mint (filter isRewardInitialized rewards));
          reward = (\<lambda>i. if i < length rewards
            then Inr (if isRewardInitialized (rewards ! i)
                      then Some (tokenMintWithProgram (wri_mint (rewards ! i))) else None)
            else Inl TypeError) in
      bindE (mapE reward [0, 1, 2]) (\<lambda>rewardMints.
      Inr \<lparr>tec_currentEpoch = epoch,
           tec_tokenMintWithProgramA = tokenMintWithProgram mintA,
           tec_tokenMintWithProgramB = tokenMintWithProgram mintB,
           tec_rewardTokenMintsWithProgram = rewardMints\<rparr>))"

definition buildTokenExtensionContextForPool ::
    "(pubkey list \<Rightarrow> pubkey \<Rightarrow> mint_info) \<Rightarrow> int \<Rightarrow> pubkey \<Rightarrow> pubkey \<Rightarrow> TokenExtensionContextForPool" where
  "buildTokenExtensionContextForPool getMintInfos epoch tokenMintA tokenMintB =
     (let tokenMintWithProgram = getMintInfos [tokenMintA, tokenMintB] in
      \<lparr>tec_currentEpoch = epoch,
       tec_tokenMintWithProgramA = tokenMintWithProgram tokenMintA,
       tec_tokenMintWithProgramB = tokenMintWithProgram tokenMintB\<rparr>)"

definition isV2IxRequiredPool ::
    "'c spl_token \<Rightarrow> 'a TokenExtensionContextForPool_scheme \<Rightarrow> bool" where
  "isV2IxRequiredPool spl tokenExtensionCtx \<longleftrightarrow>
     mi_tokenProgram (tec_tokenMintWithProgramA tokenExtensionCtx) = TOKEN_2022_PROGRAM_ID spl \<or>
     mi_tokenProgram (tec_tokenMintWithProgramB tokenExtensionCtx) = TOKEN_2022_PROGRAM_ID spl"

definition isV2IxRequiredReward :: "'c spl_token \<Rightarrow> TokenExtensionContext \<Rightarrow> nat \<Rightarrow> bool" where
  "isV2IxRequiredReward spl tokenExtensionCtx rewardIndex \<longleftrightarrow>
     (if rewardIndex < length (tec_rewardTokenMintsWithProgram tokenExtensionCtx)
      then case tec_rewardTokenMintsWithProgram tokenExtensionCtx ! rewardIndex of
             None \<Rightarrow> False
           | Some mint \<Rightarrow> mi_tokenProgram mint = TOKEN_2022_PROGRAM_ID spl
      else False)"

subsection \<open>Transfer hooks\<close>

text \<open>The extra accounts are what \<open>addExtraAccountMetas\<close> appends to the first five.\<close>

definition getExtraAccountMetasForTransferHook ::
    "'c spl_token \<Rightarrow> mint_info \<Rightarrow> pubkey \<Rightarrow> pubkey \<Rightarrow> pubkey \<Rightarrow> AccountMeta list option res" where
  "getExtraAccountMetasForTransferHook spl tokenMintWithProgram source destination owner =
     (case getTransferHook spl tokenMintWithProgram of
        None \<Rightarrow> Inr None
      | Some programId \<Rightarrow>
          let key = (\<lambda>k. \<lparr>meta_pubkey = k, meta_isSigner = False, meta_isWritable = False\<rparr>);
              keys = map key [source, mi_address tokenMintWithProgram, destination, owner, owner] in
          bindE (addExtraAccountMetas spl keys programId source (mi_address tokenMintWithProgram)
                   destination owner 0) (\<lambda>keys.
          let extraAccountMetas = drop 5 keys in
          Inr (if length extraAccountMetas > 0 then Some extraAccountMetas else None)))"

definition getExtraAccountMetasForTransferHookForPool ::
    "'c spl_token \<Rightarrow> 'a TokenExtensionContextForPool_scheme \<Rightarrow> pubkey \<Rightarrow> pubkey \<Rightarrow> pubkey \<Rightarrow>
     pubkey \<Rightarrow> pubkey \<Rightarrow> pubkey \<Rightarrow> (AccountMeta list option \<times> AccountMeta list option) res" where
  "getExtraAccountMetasForTransferHookForPool spl tokenExtensionCtx sourceA destinationA ownerA
     sourceB destinationB ownerB =
     bindE (getExtraAccountMetasForTransferHook spl (tec_tokenMintWithProgramA tokenExtensionCtx)
              sourceA destinationA ownerA) (\<lambda>tokenTransferHookAccountsA.
     bindE (getExtraAccountMetasForTransferHook spl (tec_tokenMintWithProgramB tokenExtensionCtx)
              sourceB destinationB ownerB) (\<lambda>tokenTransferHookAccountsB.
     Inr (tokenTransferHookAccountsA, tokenTransferHookAccountsB)))"


subsection \<open>The two directions of a transfer fee\<close>

definition gross_of :: "TransferFee \<Rightarrow> int \<Rightarrow> int" where
  "gross_of fee x =
     (let b = tf_transferFeeBasisPoints fee; m = tf_maximumFee fee in
      if b = 0 \<or> x = 0 then x
      else if b = 10000 then x + m
      else min (x + m) (rdiv True (x * 10000) (10000 - b)))"

lemma ceilDivBN_eq: "0 \<le> num \<Longrightarrow> 0 < denom \<Longrightarrow> ceilDivBN num denom = Inr (rdiv True num denom)"
proof -
  assume a: "0 \<le> num" "0 < denom"
  have "(num + (denom - 1)) div denom = rdiv True num denom"
  proof (rule antisym)
    have "(num + (denom - 1)) div denom * denom \<le> num + (denom - 1)"
      using le_div_iff_int [OF a(2)] by blast
    then have "((num + (denom - 1)) div denom - 1) * denom < num" by (simp add: algebra_simps)
    then show "(num + (denom - 1)) div denom \<le> rdiv True num denom"
      using rdiv_up_le_iff [OF a(2), of num "(num + (denom - 1)) div denom - 1"] by linarith
    have "num < ((num + (denom - 1)) div denom + 1) * denom - (denom - 1)"
      using le_div_iff_int [OF a(2), of "(num + (denom - 1)) div denom + 1" "num + (denom - 1)"] by linarith
    then show "rdiv True num denom \<le> (num + (denom - 1)) div denom"
      by (simp add: rdiv_up_le_iff [OF a(2)] algebra_simps)
  qed
  with a show ?thesis by (simp add: ceilDivBN_def bn_nonneg)
qed

lemma included_eq:
  assumes "transfer_fee_ok fee" "0 \<le> x"
  shows "fee_calculateTransferFeeIncludedAmount fee x =
    (if tf_transferFeeBasisPoints fee \<noteq> 0 \<and> x \<noteq> 0 \<and> gross_of fee x > U64_MAX then Inl PlainError
     else Inr \<lparr>tfi_amount = gross_of fee x, tfi_fee = gross_of fee x - x\<rparr>)"
  using assms ceilDivBN_eq [of "x * 10000" "10000 - tf_transferFeeBasisPoints fee"]
  by (auto simp: fee_calculateTransferFeeIncludedAmount_def gross_of_def Let_def transfer_fee_ok_def min_def)

lemma fee_step:
  assumes "transfer_fee_ok fee" "g \<le> h"
  shows "h - fee_of fee h \<ge> g - fee_of fee g"
proof -
  define b where "b = tf_transferFeeBasisPoints fee"
  have b: "0 \<le> b" "b \<le> 10000" using assms(1) by (simp_all add: transfer_fee_ok_def b_def)
  have "g * b \<le> rdiv True (g * b) 10000 * 10000" using rdiv_bounds(3) [of 10000 "g * b"] by simp
  moreover have "(h - g) * b \<le> (h - g) * 10000" using assms(2) b by (intro mult_left_mono) auto
  ultimately have "rdiv True (h * b) 10000 \<le> rdiv True (g * b) 10000 + (h - g)"
    by (subst rdiv_up_le_iff) (simp_all add: algebra_simps)
  with assms(2) show ?thesis by (auto simp: fee_of_def b_def [symmetric])
qed

lemma gross_bounds:
  assumes "transfer_fee_ok fee" "0 \<le> x"
  shows "x \<le> gross_of fee x"
    and "fee_of fee (gross_of fee x) = gross_of fee x - x"
    and "0 \<le> g \<Longrightarrow> g < gross_of fee x \<Longrightarrow> g - fee_of fee g < x"
proof -
  define b m where "b = tf_transferFeeBasisPoints fee" and "m = tf_maximumFee fee"
  have ok: "0 \<le> b" "b \<le> 10000" "0 \<le> m" using assms(1) by (simp_all add: transfer_fee_ok_def b_def m_def)
  have fee: "fee_of fee a = min m (rdiv True (a * b) 10000)" for a by (simp add: fee_of_def b_def m_def)
  note up = rdiv_up_le_iff [of 10000]
  have all: "x \<le> gross_of fee x \<and> fee_of fee (gross_of fee x) = gross_of fee x - x \<and>
      (x = 0 \<and> gross_of fee x = 0 \<or> gross_of fee x - 1 - fee_of fee (gross_of fee x - 1) < x)"
  proof (cases "b = 0 \<or> x = 0")
    case True
    then have "rdiv True (x * b) 10000 = 0" by auto
    moreover have "b = 0 \<Longrightarrow> 0 \<le> fee_of fee (x - 1)" using ok by (simp add: fee)
    ultimately show ?thesis using True ok by (auto simp: gross_of_def b_def [symmetric] m_def [symmetric] fee Let_def)
  next
    case False
    then have x: "0 < x" and b: "0 < b" using assms ok by auto
    show ?thesis
    proof (cases "b = 10000")
      case True
      then have "gross_of fee x = x + m" using False by (simp add: gross_of_def b_def [symmetric] m_def [symmetric])
      moreover have "fee_of fee a = min m a" for a by (simp add: fee True rdiv_def)
      ultimately show ?thesis using x ok by (auto simp: min_def)
    next
      case False
      then have d: "0 < 10000 - b" using ok by simp
      define r where "r = rdiv True (x * 10000) (10000 - b)"
      have r: "x * 10000 \<le> r * (10000 - b)" "(r - 1) * (10000 - b) < x * 10000"
        using rdiv_bounds(3,4) [OF d, of "x * 10000"] by (simp_all add: r_def)
      have gross: "gross_of fee x = min (x + m) r"
        using False x b by (simp add: gross_of_def b_def [symmetric] m_def [symmetric] r_def)
      define g where "g = min (x + m) r"
      have "x \<le> r"
      proof (rule ccontr)
        assume "\<not> x \<le> r"
        then have "r * (10000 - b) < x * (10000 - b)" using d by (intro mult_strict_right_mono) auto
        also have "\<dots> \<le> x * 10000" using x b by (intro mult_left_mono) auto
        finally show False using r(1) by simp
      qed
      then have xg: "x \<le> g" using ok by (simp add: g_def)
      have g1: "(g - 1) * (10000 - b) < x * 10000"
      proof -
        have "(g - 1) * (10000 - b) \<le> (r - 1) * (10000 - b)" using d by (intro mult_right_mono) (auto simp: g_def)
        with r(2) show ?thesis by simp
      qed
      then have fee1: "g - x \<le> rdiv True ((g - 1) * b) 10000" "g - x \<le> rdiv True (g * b) 10000"
        using up [of "(g - 1) * b" "g - x - 1"] up [of "g * b" "g - x - 1"] b by (auto simp: algebra_simps)
      have "g - x \<le> m" by (simp add: g_def)
      moreover have "g = x + m \<or> rdiv True (g * b) 10000 \<le> g - x"
      proof (cases "g = r")
        case True
        with r(1) show ?thesis by (subst up) (simp_all add: algebra_simps)
      qed (auto simp: g_def)
      ultimately show ?thesis
        using fee1 xg unfolding gross g_def [symmetric] fee by linarith
    qed
  qed
  then show "x \<le> gross_of fee x" "fee_of fee (gross_of fee x) = gross_of fee x - x" by simp_all
  assume "0 \<le> g" "g < gross_of fee x"
  then have "\<not> (x = 0 \<and> gross_of fee x = 0)" and "g \<le> gross_of fee x - 1" by auto
  from this(1) fee_step [OF assms(1) this(2)] all show "g - fee_of fee g < x" by linarith
qed

lemma fee_bounds:
  assumes "transfer_fee_ok fee" "0 \<le> g"
  shows "0 \<le> fee_of fee g" "fee_of fee g \<le> g"
proof -
  have "rdiv True (g * tf_transferFeeBasisPoints fee) 10000 \<le> g"
    using assms by (subst rdiv_up_le_iff) (auto simp: transfer_fee_ok_def intro: mult_left_mono)
  with assms show "0 \<le> fee_of fee g" "fee_of fee g \<le> g"
    by (auto simp: fee_of_def transfer_fee_ok_def intro!: rdiv_nonneg)
qed

text \<open>The same at the level of a mint, with or without a fee.\<close>

lemma excluded_facts:
  assumes "spl_token_ok spl" "0 \<le> g"
  shows "0 \<le> tfe_amount (calculateTransferFeeExcludedAmount spl g mint epoch)"
    "0 \<le> tfe_fee (calculateTransferFeeExcludedAmount spl g mint epoch)"
    "tfe_amount (calculateTransferFeeExcludedAmount spl g mint epoch) +
     tfe_fee (calculateTransferFeeExcludedAmount spl g mint epoch) = g"
  using assms fee_bounds [of _ g]
  by (auto simp: calculateTransferFeeExcludedAmount_def fee_calculateTransferFeeExcludedAmount_def
      spl_token_ok_def Let_def split: option.splits)

lemma included_facts:
  assumes spl: "spl_token_ok spl" and x: "0 \<le> x"
  shows "case calculateTransferFeeIncludedAmount spl x mint epoch of
      Inl e \<Rightarrow> e = PlainError \<and>
        (\<forall>g. 0 \<le> g \<and> g \<le> U64_MAX \<longrightarrow> tfe_amount (calculateTransferFeeExcludedAmount spl g mint epoch) < x)
    | Inr r \<Rightarrow> x \<le> tfi_amount r \<and>
        calculateTransferFeeExcludedAmount spl (tfi_amount r) mint epoch = \<lparr>tfe_amount = x, tfe_fee = tfi_fee r\<rparr> \<and>
        (\<forall>g. 0 \<le> g \<and> g < tfi_amount r \<longrightarrow> tfe_amount (calculateTransferFeeExcludedAmount spl g mint epoch) < x)"
proof (cases "getTransferFeeConfig spl mint")
  case None
  with x show ?thesis
    by (simp add: calculateTransferFeeIncludedAmount_def calculateTransferFeeExcludedAmount_def)
next
  case (Some config)
  define fee where "fee = getEpochFee spl config epoch"
  have ok: "transfer_fee_ok fee" using spl Some by (simp add: spl_token_ok_def fee_def)
  have calc: "calculateFee spl fee a = fee_of fee a" if "0 \<le> a" for a
    using spl ok that by (simp add: spl_token_ok_def)
  have inc: "calculateTransferFeeIncludedAmount spl x mint epoch = fee_calculateTransferFeeIncludedAmount fee x"
    by (simp add: calculateTransferFeeIncludedAmount_def Some fee_def)
  have exc: "calculateTransferFeeExcludedAmount spl g mint epoch =
      \<lparr>tfe_amount = g - fee_of fee g, tfe_fee = fee_of fee g\<rparr>" if "0 \<le> g" for g
    using calc [OF that]
    by (simp add: calculateTransferFeeExcludedAmount_def fee_calculateTransferFeeExcludedAmount_def Some fee_def Let_def)
  note g = gross_bounds [OF ok x]
  have "0 \<le> gross_of fee x" using g(1) x by simp
  note exc_gross = exc [OF this, unfolded g(2)]
  have low: "tfe_amount (calculateTransferFeeExcludedAmount spl k mint epoch) < x"
    if "0 \<le> k" "k < gross_of fee x" for k
    using g(3) [OF that] by (simp add: exc [OF that(1)])
  show ?thesis
    unfolding inc included_eq [OF ok x] using g(1) exc_gross low by (auto split: if_splits)
qed

lemma excluded_mono:
  assumes "spl_token_ok spl" "0 \<le> g" "g \<le> h"
  shows "tfe_amount (calculateTransferFeeExcludedAmount spl g mint epoch)
    \<le> tfe_amount (calculateTransferFeeExcludedAmount spl h mint epoch)"
  using assms fee_step [of _ g h]
  by (auto simp: calculateTransferFeeExcludedAmount_def fee_calculateTransferFeeExcludedAmount_def
      spl_token_ok_def Let_def split: option.splits)

text \<open>The gross amount for what is left of an amount after its fee is not more than that amount.\<close>

lemma included_le:
  assumes "spl_token_ok spl" "0 \<le> x" "0 \<le> g" "x \<le> tfe_amount (calculateTransferFeeExcludedAmount spl g mint epoch)"
    and "calculateTransferFeeIncludedAmount spl x mint epoch = Inr r"
  shows "0 \<le> tfi_amount r \<and> tfi_amount r \<le> g"
  using included_facts [OF assms(1,2), of mint epoch] assms by (auto simp: not_le [symmetric])

lemma included_error:
  assumes "spl_token_ok spl" "0 \<le> x" "calculateTransferFeeIncludedAmount spl x mint epoch = Inl e"
  shows "e = PlainError"
  using included_facts [OF assms(1,2), of mint epoch] assms by simp

lemma included_mono:
  assumes "spl_token_ok spl" "0 \<le> x" "x \<le> y" "calculateTransferFeeIncludedAmount spl x mint epoch = Inr r"
    and "calculateTransferFeeIncludedAmount spl y mint epoch = Inr r'"
  shows "0 \<le> tfi_amount r \<and> tfi_amount r \<le> tfi_amount r'"
proof -
  have "y \<le> tfi_amount r'" "tfe_amount (calculateTransferFeeExcludedAmount spl (tfi_amount r') mint epoch) = y"
    using included_facts [OF assms(1), of y mint epoch] assms by auto
  with assms show ?thesis by (intro included_le) auto
qed

text \<open>
  C12: adding the transfer fee is exact and least. The gross amount it returns leaves exactly
  the requested net amount once the fee is taken off again, with the fee it reports, and every
  smaller gross amount leaves less; it throws only when no 64-bit amount would be enough.
\<close>

theorem transfer_fee_round_trip:
  assumes "spl_token_ok spl" "0 \<le> x"
  shows "case calculateTransferFeeIncludedAmount spl x mint epoch of
      Inl e \<Rightarrow> e = PlainError \<and>
        (\<forall>g. 0 \<le> g \<and> g \<le> U64_MAX \<longrightarrow> tfe_amount (calculateTransferFeeExcludedAmount spl g mint epoch) < x)
    | Inr r \<Rightarrow> x \<le> tfi_amount r \<and>
        calculateTransferFeeExcludedAmount spl (tfi_amount r) mint epoch = \<lparr>tfe_amount = x, tfe_fee = tfi_fee r\<rparr> \<and>
        (\<forall>g. 0 \<le> g \<and> g < tfi_amount r \<longrightarrow> tfe_amount (calculateTransferFeeExcludedAmount spl g mint epoch) < x)"
  using assms by (rule included_facts)

lemma example_included:
  "calculateTransferFeeIncludedAmount spl_token_ref 9900 (example_mint ''m'' ''token2022'') 7 =
     Inr \<lparr>tfi_amount = 10000, tfi_fee = 100\<rparr>"
  by code_simp

theorem transfer_fee_round_trip_witness:
  "calculateTransferFeeExcludedAmount spl_token_ref 10000 (example_mint ''m'' ''token2022'') 7 =
     \<lparr>tfe_amount = 9900, tfe_fee = 100\<rparr>"
  using transfer_fee_round_trip [OF spl_token_ref_ok, of 9900 "example_mint ''m'' ''token2022''" 7] example_included
  by simp

end
