(* ===== verification/Tick_Utils.thy ===== *)
theory Tick_Utils
  imports Accounts
begin

text \<open>
  Ticks and tick arrays (\<^verbatim>\<open>sdk/src/utils/public/tick-utils.ts\<close>). A tick spacing is
  positive. \<^verbatim>\<open>Math.floor(a / b)\<close> of integers is \<open>div\<close>, \<^verbatim>\<open>a % b\<close> is the remainder of the
  division truncated towards zero, \<open>smod\<close>. The lemmas show that the start index is the
  aligned start of the array that holds the tick, that the two searches return the nearest
  initialized tick, and what the full range of a spacing is.
\<close>

definition tickIndexToInnerIndex :: "int \<Rightarrow> int \<Rightarrow> int \<Rightarrow> int" where
  "tickIndexToInnerIndex startTickIndex tickIndex tickSpacing =
     (tickIndex - startTickIndex) div tickSpacing"

definition innerIndexToTickIndex :: "int \<Rightarrow> int \<Rightarrow> int \<Rightarrow> int" where
  "innerIndexToTickIndex startTickIndex tickArrayIndex tickSpacing =
     startTickIndex + tickArrayIndex * tickSpacing"

definition getOffsetIndex :: "int \<Rightarrow> int \<Rightarrow> int \<Rightarrow> int" where
  "getOffsetIndex tickIndex arrayStartIndex tickSpacing =
     (tickIndex - arrayStartIndex) div tickSpacing"

definition getStartTickIndex :: "int \<Rightarrow> int \<Rightarrow> int \<Rightarrow> int res" where
  "getStartTickIndex tickIndex tickSpacing offset =
     (let realIndex = tickIndex div tickSpacing div TICK_ARRAY_SIZE;
          startTickIndex = (realIndex + offset) * tickSpacing * TICK_ARRAY_SIZE;
          ticksInArray = TICK_ARRAY_SIZE * tickSpacing;
          minTickIndex = MIN_TICK_INDEX - ((MIN_TICK_INDEX smod ticksInArray) + ticksInArray) in
      if \<not> startTickIndex \<ge> minTickIndex then Inl InvariantError
      else if \<not> startTickIndex \<le> MAX_TICK_INDEX then Inl InvariantError
      else Inr startTickIndex)"

definition getInitializableTickIndex :: "int \<Rightarrow> int \<Rightarrow> int" where
  "getInitializableTickIndex tickIndex tickSpacing = tickIndex - (tickIndex smod tickSpacing)"

definition getNextInitializableTickIndex :: "int \<Rightarrow> int \<Rightarrow> int" where
  "getNextInitializableTickIndex tickIndex tickSpacing =
     getInitializableTickIndex tickIndex tickSpacing + tickSpacing"

definition getPrevInitializableTickIndex :: "int \<Rightarrow> int \<Rightarrow> int" where
  "getPrevInitializableTickIndex tickIndex tickSpacing =
     getInitializableTickIndex tickIndex tickSpacing - tickSpacing"

datatype TickSearchDirection = Left | Right

definition increment :: "TickSearchDirection \<Rightarrow> int" where
  "increment searchDirection = (if searchDirection = Right then 1 else - 1)"

text \<open>The \<^verbatim>\<open>while\<close> loop of \<^verbatim>\<open>findInitializedTick\<close>, from a position in the array.\<close>

function findInitializedTick_loop ::
    "TickArrayData \<Rightarrow> int \<Rightarrow> TickSearchDirection \<Rightarrow> int \<Rightarrow> int option" where
  "findInitializedTick_loop account tickSpacing searchDirection i =
     (if i \<ge> 0 \<and> i < int (length (ta_ticks account))
      then if tick_initialized (ta_ticks account ! nat i)
           then Some (innerIndexToTickIndex (ta_startTickIndex account) i tickSpacing)
           else findInitializedTick_loop account tickSpacing searchDirection
                  (i + increment searchDirection)
      else None)"
  by pat_completeness auto
termination
  by (relation "measure (\<lambda>(account, tickSpacing, searchDirection, i).
        if searchDirection = Right then nat (int (length (ta_ticks account)) - i) else nat (i + 1))")
    (auto simp: increment_def)

declare findInitializedTick_loop.simps [simp del]

definition findInitializedTick ::
    "TickArrayData \<Rightarrow> int \<Rightarrow> int \<Rightarrow> TickSearchDirection \<Rightarrow> int option" where
  "findInitializedTick account currentTickIndex tickSpacing searchDirection =
     (let currentTickArrayIndex =
            tickIndexToInnerIndex (ta_startTickIndex account) currentTickIndex tickSpacing in
      findInitializedTick_loop account tickSpacing searchDirection
        (if searchDirection = Right then currentTickArrayIndex + increment searchDirection
         else currentTickArrayIndex))"

definition findPreviousInitializedTickIndex :: "TickArrayData \<Rightarrow> int \<Rightarrow> int \<Rightarrow> int option" where
  "findPreviousInitializedTickIndex account currentTickIndex tickSpacing =
     findInitializedTick account currentTickIndex tickSpacing Left"

definition tu_findNextInitializedTickIndex :: "TickArrayData \<Rightarrow> int \<Rightarrow> int \<Rightarrow> int option" where
  "tu_findNextInitializedTickIndex account currentTickIndex tickSpacing =
     findInitializedTick account currentTickIndex tickSpacing Right"

definition checkTickInBounds :: "int \<Rightarrow> bool" where
  "checkTickInBounds tick \<longleftrightarrow> tick \<le> MAX_TICK_INDEX \<and> tick \<ge> MIN_TICK_INDEX"

definition isTickInitializable :: "int \<Rightarrow> int \<Rightarrow> bool" where
  "isTickInitializable tick tickSpacing \<longleftrightarrow> tick smod tickSpacing = 0"

definition invertTick :: "int \<Rightarrow> int" where
  "invertTick tick = - tick"

text \<open>\<^verbatim>\<open>Math.ceil(a / b)\<close> is \<open>- ((- a) div b)\<close>.\<close>

definition getFullRangeTickIndex :: "int \<Rightarrow> int \<times> int" where
  "getFullRangeTickIndex tickSpacing =
     (- ((- MIN_TICK_INDEX) div tickSpacing) * tickSpacing,
      (MAX_TICK_INDEX div tickSpacing) * tickSpacing)"

definition isFullRange :: "int \<Rightarrow> int \<Rightarrow> int \<Rightarrow> bool" where
  "isFullRange tickSpacing tickLowerIndex tickUpperIndex \<longleftrightarrow>
     (case getFullRangeTickIndex tickSpacing of (min_index, max_index) \<Rightarrow>
        tickLowerIndex = min_index \<and> tickUpperIndex = max_index)"

definition getTickFromArray :: "TickArrayData \<Rightarrow> int \<Rightarrow> int \<Rightarrow> TickData res" where
  "getTickFromArray tickArray tickIndex tickSpacing =
     (let realIndex = tickIndexToInnerIndex (ta_startTickIndex tickArray) tickIndex tickSpacing in
      if realIndex \<ge> 0 \<and> realIndex < int (length (ta_ticks tickArray))
      then Inr (ta_ticks tickArray ! nat realIndex)
      else Inl InvariantError)"

definition getUninitializedArrays :: "TickArrayData option list \<Rightarrow> nat list" where
  "getUninitializedArrays tickArrays =
     [i. (i, value) \<leftarrow> enumerate 0 tickArrays, value = None]"

subsection \<open>Alignment\<close>

lemma smod_neg: "0 < m \<Longrightarrow> 0 \<le> a \<Longrightarrow> (- a) smod m = - (a mod (m :: int))"
  by (cases "a = 0") (simp_all add: signed_modulo_int_def signed_divide_int_def
      minus_div_mult_eq_mod [symmetric] sgn_mult)

lemma isTickInitializable_iff: "0 < ts \<Longrightarrow> isTickInitializable t ts \<longleftrightarrow> ts dvd t"
  using smod_neg [of ts "- t"] smod_nonneg [of t ts]
  by (cases "0 \<le> t") (auto simp: isTickInitializable_def dvd_eq_mod_eq_0 [symmetric] simp del: dvd_eq_mod_eq_0)

text \<open>The array of a tick: the aligned block of \<open>88 * tickSpacing\<close> ticks it lies in.\<close>

definition array_start :: "int \<Rightarrow> int \<Rightarrow> int" where
  "array_start t ts = t div (ts * TICK_ARRAY_SIZE) * (ts * TICK_ARRAY_SIZE)"

lemma array_start_bounds:
  assumes "0 < ts"
  shows "array_start t ts \<le> t" "t < array_start t ts + ts * TICK_ARRAY_SIZE"
    "ts * TICK_ARRAY_SIZE dvd array_start t ts"
proof -
  have "0 < ts * TICK_ARRAY_SIZE" using assms by (simp add: TICK_ARRAY_SIZE_def)
  then show "array_start t ts \<le> t" "t < array_start t ts + ts * TICK_ARRAY_SIZE"
    "ts * TICK_ARRAY_SIZE dvd array_start t ts"
    using pos_mod_bound [of "ts * TICK_ARRAY_SIZE" t] pos_mod_sign [of "ts * TICK_ARRAY_SIZE" t]
    by (auto simp: array_start_def minus_mod_eq_div_mult [symmetric] simp del: pos_mod_bound pos_mod_sign)
qed

lemma array_start_unique:
  assumes "0 < ts" "ts * TICK_ARRAY_SIZE dvd s" "s \<le> t" "t < s + ts * TICK_ARRAY_SIZE"
  shows "array_start t ts = s"
proof -
  let ?m = "ts * TICK_ARRAY_SIZE"
  from assms(2) obtain k where s: "s = ?m * k" ..
  have m: "0 < ?m" using assms(1) by (simp add: TICK_ARRAY_SIZE_def)
  have "t div ?m = k"
    by (rule int_div_pos_eq [of _ _ _ "t - s"]) (use assms m s in auto)
  then show ?thesis by (simp add: array_start_def s)
qed

lemma getStartTickIndex_eq:
  assumes "0 < ts"
  shows "getStartTickIndex t ts offset =
    (let s = array_start t ts + offset * (ts * TICK_ARRAY_SIZE) in
     if array_start MIN_TICK_INDEX ts \<le> s \<and> s \<le> MAX_TICK_INDEX then Inr s else Inl InvariantError)"
proof -
  let ?m = "ts * TICK_ARRAY_SIZE"
  have m: "0 < ?m" using assms by (simp add: TICK_ARRAY_SIZE_def)
  have t: "t div ts div TICK_ARRAY_SIZE = t div ?m"
    using assms by (simp add: zdiv_zmult2_eq TICK_ARRAY_SIZE_def)
  have odd: "443636 mod ?m \<noteq> 0"
  proof
    assume "443636 mod ?m = 0"
    then have "?m dvd 443636" by (rule mod_0_imp_dvd)
    moreover have "8 dvd ?m" by (simp add: TICK_ARRAY_SIZE_def)
    ultimately have "8 dvd (443636 :: int)" by (rule dvd_trans [rotated])
    then show False by simp
  qed
  have "MIN_TICK_INDEX - (MIN_TICK_INDEX smod (TICK_ARRAY_SIZE * ts) + TICK_ARRAY_SIZE * ts)
      = array_start MIN_TICK_INDEX ts"
  proof -
    have "MIN_TICK_INDEX smod ?m = - (443636 mod ?m)"
      using smod_neg [OF m, of 443636] by (simp add: MIN_TICK_INDEX_def)
    moreover have "MIN_TICK_INDEX mod ?m = ?m - 443636 mod ?m"
      using zmod_zminus1_eq_if [of 443636 ?m] odd by (simp add: MIN_TICK_INDEX_def)
    moreover have "array_start MIN_TICK_INDEX ts = MIN_TICK_INDEX - MIN_TICK_INDEX mod ?m"
      by (simp add: array_start_def minus_mod_eq_div_mult)
    ultimately show ?thesis by (simp add: mult.commute)
  qed
  then show ?thesis
    by (auto simp: getStartTickIndex_def t Let_def array_start_def algebra_simps)
qed

text \<open>An aligned start is at or after the first one exactly when its array ends past the minimum.\<close>

lemma array_start_le_iff:
  assumes "0 < ts" "TICK_ARRAY_SIZE * ts dvd s"
  shows "array_start t ts \<le> s \<longleftrightarrow> t < s + TICK_ARRAY_SIZE * ts"
proof -
  let ?m = "ts * TICK_ARRAY_SIZE"
  from assms(2) obtain k where "s = TICK_ARRAY_SIZE * ts * k" ..
  then have s: "s = ?m * k" by (simp add: mult_ac)
  have m: "0 < ?m" using assms(1) by (simp add: TICK_ARRAY_SIZE_def)
  have "array_start t ts \<le> s \<longleftrightarrow> \<not> k + 1 \<le> t div ?m"
    by (simp only: array_start_def s mult.commute [of _ ?m] mult_le_cancel_left_pos [OF m]) linarith
  also have "\<dots> \<longleftrightarrow> \<not> (k + 1) * ?m \<le> t" using le_div_iff_int [OF m] by simp
  finally show ?thesis by (simp add: s algebra_simps linorder_not_le)
qed

lemma array_start_mono: "0 < ts \<Longrightarrow> t \<le> u \<Longrightarrow> array_start t ts \<le> array_start u ts"
  by (simp add: array_start_def zdiv_mono1 TICK_ARRAY_SIZE_def)

lemma getStartTickIndex_in_bounds:
  assumes "0 < ts" "checkTickInBounds t"
  shows "getStartTickIndex t ts 0 = Inr (array_start t ts)"
  using assms array_start_mono [of ts MIN_TICK_INDEX t] array_start_bounds(1) [of ts t]
  by (auto simp: getStartTickIndex_eq checkTickInBounds_def Let_def)

lemma inner_index_round_trip:
  assumes "0 < ts"
  shows "tickIndexToInnerIndex s (innerIndexToTickIndex s i ts) ts = i"
    "ts dvd t - s \<Longrightarrow> innerIndexToTickIndex s (tickIndexToInnerIndex s t ts) ts = t"
  using assms by (auto simp: tickIndexToInnerIndex_def innerIndexToTickIndex_def)

subsection \<open>The search in one array\<close>

text \<open>The tick indices an array's initialized ticks stand for.\<close>

definition initialized_ticks :: "TickArrayData \<Rightarrow> int \<Rightarrow> int set" where
  "initialized_ticks account ts =
     (\<lambda>i. innerIndexToTickIndex (ta_startTickIndex account) i ts) `
       {i. 0 \<le> i \<and> i < int (length (ta_ticks account)) \<and> tick_initialized (ta_ticks account ! nat i)}"

lemma finite_initialized_ticks: "finite (initialized_ticks account ts)"
  unfolding initialized_ticks_def
  by (rule finite_imageI, rule finite_subset [of _ "{0..int (length (ta_ticks account))}"]) auto

lemma initialized_ticks_memI:
  "0 \<le> i \<Longrightarrow> i < int (length (ta_ticks account)) \<Longrightarrow> tick_initialized (ta_ticks account ! nat i) \<Longrightarrow>
     innerIndexToTickIndex (ta_startTickIndex account) i ts \<in> initialized_ticks account ts"
  by (auto simp: initialized_ticks_def)

lemma innerIndexToTickIndex_less: "0 < ts \<Longrightarrow>
    innerIndexToTickIndex s i ts < innerIndexToTickIndex s j ts \<longleftrightarrow> i < j"
  "0 < ts \<Longrightarrow> innerIndexToTickIndex s i ts \<le> innerIndexToTickIndex s j ts \<longleftrightarrow> i \<le> j"
  by (simp_all add: innerIndexToTickIndex_def)

text \<open>The extreme element of a set, if it has one.\<close>

definition least_of :: "int set \<Rightarrow> int option" where
  "least_of S = (if S = {} then None else Some (Min S))"

definition greatest_of :: "int set \<Rightarrow> int option" where
  "greatest_of S = (if S = {} then None else Some (Max S))"

lemma least_ofI: "finite S \<Longrightarrow> x \<in> S \<Longrightarrow> (\<And>y. y \<in> S \<Longrightarrow> x \<le> y) \<Longrightarrow> least_of S = Some x"
  by (auto simp: least_of_def intro: Min_eqI)

lemma greatest_ofI: "finite S \<Longrightarrow> x \<in> S \<Longrightarrow> (\<And>y. y \<in> S \<Longrightarrow> y \<le> x) \<Longrightarrow> greatest_of S = Some x"
  by (auto simp: greatest_of_def intro: Max_eqI)

text \<open>From a position of the array on, the loop finds the nearest initialized tick.\<close>

lemma loop_right:
  assumes "0 < ts" "0 \<le> i"
  shows "findInitializedTick_loop account ts Right i =
    least_of {t \<in> initialized_ticks account ts.
      innerIndexToTickIndex (ta_startTickIndex account) i ts \<le> t}"
  using \<open>0 \<le> i\<close>
proof (induction "nat (int (length (ta_ticks account)) - i)" arbitrary: i rule: less_induct)
  case less
  let ?ix = "\<lambda>k. innerIndexToTickIndex (ta_startTickIndex account) k ts"
  let ?n = "int (length (ta_ticks account))"
  consider "i \<ge> ?n" | "i < ?n" "tick_initialized (ta_ticks account ! nat i)"
    | "i < ?n" "\<not> tick_initialized (ta_ticks account ! nat i)" by linarith
  then show ?case
  proof cases
    case 1
    then have "{t \<in> initialized_ticks account ts. ?ix i \<le> t} = {}"
      using assms(1) by (auto simp: initialized_ticks_def innerIndexToTickIndex_less)
    with 1 show ?thesis by (simp add: findInitializedTick_loop.simps least_of_def)
  next
    case 2
    then have "least_of {t \<in> initialized_ticks account ts. ?ix i \<le> t} = Some (?ix i)"
      using less.prems by (intro least_ofI) (auto simp: finite_initialized_ticks initialized_ticks_memI)
    with 2 less.prems show ?thesis by (simp add: findInitializedTick_loop.simps)
  next
    case 3
    then have "i \<le> k \<longleftrightarrow> i + 1 \<le> k" if "tick_initialized (ta_ticks account ! nat k)" for k
      using that by (cases "k = i") auto
    then have "{t \<in> initialized_ticks account ts. ?ix i \<le> t} = {t \<in> initialized_ticks account ts. ?ix (i + 1) \<le> t}"
      using assms(1) by (auto simp: initialized_ticks_def innerIndexToTickIndex_less)
    with 3 less.prems less.hyps [of "i + 1"] show ?thesis
      by (subst findInitializedTick_loop.simps) (simp add: increment_def)
  qed
qed

lemma loop_left:
  assumes "0 < ts" "i < int (length (ta_ticks account))"
  shows "findInitializedTick_loop account ts Left i =
    greatest_of {t \<in> initialized_ticks account ts.
      t \<le> innerIndexToTickIndex (ta_startTickIndex account) i ts}"
  using assms(2)
proof (induction "nat (i + 1)" arbitrary: i rule: less_induct)
  case less
  let ?ix = "\<lambda>k. innerIndexToTickIndex (ta_startTickIndex account) k ts"
  consider "i < 0" | "0 \<le> i" "tick_initialized (ta_ticks account ! nat i)"
    | "0 \<le> i" "\<not> tick_initialized (ta_ticks account ! nat i)" by linarith
  then show ?case
  proof cases
    case 1
    then have "{t \<in> initialized_ticks account ts. t \<le> ?ix i} = {}"
      using assms(1) by (auto simp: initialized_ticks_def innerIndexToTickIndex_less)
    with 1 show ?thesis by (simp add: findInitializedTick_loop.simps greatest_of_def)
  next
    case 2
    then have "greatest_of {t \<in> initialized_ticks account ts. t \<le> ?ix i} = Some (?ix i)"
      using less.prems by (intro greatest_ofI) (auto simp: finite_initialized_ticks initialized_ticks_memI)
    with 2 less.prems show ?thesis by (simp add: findInitializedTick_loop.simps)
  next
    case 3
    then have "k \<le> i \<longleftrightarrow> k \<le> i - 1" if "tick_initialized (ta_ticks account ! nat k)" for k
      using that by (cases "k = i") auto
    then have "{t \<in> initialized_ticks account ts. t \<le> ?ix i} = {t \<in> initialized_ticks account ts. t \<le> ?ix (i - 1)}"
      using assms(1) by (auto simp: initialized_ticks_def innerIndexToTickIndex_less)
    with 3 less.prems less.hyps [of "i - 1"] show ?thesis
      by (subst findInitializedTick_loop.simps) (simp add: increment_def)
  qed
qed

text \<open>
  A tick of an array whose start is \<open>s\<close> lies at or above an array position, or below it,
  exactly when the position's inner index does.
\<close>

lemma innerIndexToTickIndex_le_iff:
  assumes "0 < ts"
  shows "innerIndexToTickIndex s i ts \<le> t \<longleftrightarrow> i \<le> tickIndexToInnerIndex s t ts"
  using le_div_iff_int [OF assms, of i "t - s"]
  by (auto simp: tickIndexToInnerIndex_def innerIndexToTickIndex_def)

lemma tu_findNextInitializedTickIndex_eq:
  assumes "0 < ts" "ta_startTickIndex account - ts \<le> t"
  shows "tu_findNextInitializedTickIndex account t ts =
    least_of {u \<in> initialized_ticks account ts. t < u}"
proof -
  let ?s = "ta_startTickIndex account"
  have "{u \<in> initialized_ticks account ts. t < u} = {u \<in> initialized_ticks account ts.
      innerIndexToTickIndex ?s (tickIndexToInnerIndex ?s t ts + 1) ts \<le> u}"
    using innerIndexToTickIndex_le_iff [OF assms(1), of ?s _ t] assms(1)
    by (force simp: initialized_ticks_def innerIndexToTickIndex_less linorder_not_le [symmetric])
  moreover have "0 \<le> tickIndexToInnerIndex ?s t ts + 1"
    using innerIndexToTickIndex_le_iff [OF assms(1), of ?s "- 1" t] assms(2)
    by (simp add: innerIndexToTickIndex_def)
  ultimately show ?thesis
    using loop_right [OF assms(1)]
    by (simp add: tu_findNextInitializedTickIndex_def findInitializedTick_def Let_def increment_def)
qed

lemma findPreviousInitializedTickIndex_eq:
  assumes "0 < ts" "t < ta_startTickIndex account + int (length (ta_ticks account)) * ts"
  shows "findPreviousInitializedTickIndex account t ts =
    greatest_of {u \<in> initialized_ticks account ts. u \<le> t}"
proof -
  let ?s = "ta_startTickIndex account"
  have "{u \<in> initialized_ticks account ts. u \<le> t} = {u \<in> initialized_ticks account ts.
      u \<le> innerIndexToTickIndex ?s (tickIndexToInnerIndex ?s t ts) ts}"
    using innerIndexToTickIndex_le_iff [OF assms(1), of ?s _ t] assms(1)
    by (force simp: initialized_ticks_def innerIndexToTickIndex_less)
  moreover have "tickIndexToInnerIndex ?s t ts < int (length (ta_ticks account))"
    using innerIndexToTickIndex_le_iff [OF assms(1), of ?s "int (length (ta_ticks account))" t] assms(2)
    by (simp add: innerIndexToTickIndex_def)
  ultimately show ?thesis
    using loop_left [OF assms(1)]
    by (simp add: findPreviousInitializedTickIndex_def findInitializedTick_def Let_def increment_def)
qed

lemma getTickFromArray_eq:
  assumes "0 < ts" "ta_startTickIndex account \<le> t"
    "t < ta_startTickIndex account + int (length (ta_ticks account)) * ts"
  shows "getTickFromArray account t ts =
    Inr (ta_ticks account ! nat (tickIndexToInnerIndex (ta_startTickIndex account) t ts))"
proof -
  let ?s = "ta_startTickIndex account"
  have "0 \<le> tickIndexToInnerIndex ?s t ts \<and> tickIndexToInnerIndex ?s t ts < int (length (ta_ticks account))"
    using innerIndexToTickIndex_le_iff [OF assms(1), of ?s 0 t]
      innerIndexToTickIndex_le_iff [OF assms(1), of ?s "int (length (ta_ticks account))" t] assms(2,3)
    by (auto simp: innerIndexToTickIndex_def)
  then show ?thesis by (simp add: getTickFromArray_def Let_def)
qed

subsection \<open>The full range\<close>

lemma getFullRangeTickIndex_bounds:
  assumes "0 < ts"
  shows "fst (getFullRangeTickIndex ts) = - snd (getFullRangeTickIndex ts)"
    "ts dvd t \<Longrightarrow> checkTickInBounds t \<longleftrightarrow>
      fst (getFullRangeTickIndex ts) \<le> t \<and> t \<le> snd (getFullRangeTickIndex ts)"
proof -
  show "fst (getFullRangeTickIndex ts) = - snd (getFullRangeTickIndex ts)"
    by (simp add: getFullRangeTickIndex_def MIN_TICK_INDEX_def MAX_TICK_INDEX_def)
  assume "ts dvd t"
  then obtain k where t: "t = ts * k" ..
  have "t \<le> 443636 \<longleftrightarrow> k \<le> 443636 div ts" "- t \<le> 443636 \<longleftrightarrow> - k \<le> 443636 div ts"
    using le_div_iff_int [OF assms, of k 443636] le_div_iff_int [OF assms, of "- k" 443636]
    by (simp_all add: t mult.commute)
  moreover have "- (443636 div ts) * ts \<le> t \<longleftrightarrow> - k \<le> 443636 div ts"
    "t \<le> (443636 div ts) * ts \<longleftrightarrow> k \<le> 443636 div ts"
    using assms mult_le_cancel_right_pos [OF assms, of "- (443636 div ts)" k]
    by (auto simp: t mult.commute)
  ultimately show "checkTickInBounds t \<longleftrightarrow>
      fst (getFullRangeTickIndex ts) \<le> t \<and> t \<le> snd (getFullRangeTickIndex ts)"
    by (auto simp: checkTickInBounds_def getFullRangeTickIndex_def MIN_TICK_INDEX_def MAX_TICK_INDEX_def)
qed

subsection \<open>Properties\<close>

text \<open>
  For every tick in bounds \<open>getStartTickIndex\<close> returns the one multiple of
  \<open>88 * tickSpacing\<close> whose array holds the tick; with an offset it returns the neighbour
  that many arrays away, or fails its invariant when that array is outside the bounds.
\<close>

theorem getStartTickIndex_correct:
  assumes "0 < ts" "checkTickInBounds t"
  shows "\<exists>s. getStartTickIndex t ts 0 = Inr s \<and> s \<le> t \<and> t < s + TICK_ARRAY_SIZE * ts
    \<and> (TICK_ARRAY_SIZE * ts) dvd s
    \<and> getStartTickIndex t ts k =
        (if MIN_TICK_INDEX < s + k * (TICK_ARRAY_SIZE * ts) + TICK_ARRAY_SIZE * ts
            \<and> s + k * (TICK_ARRAY_SIZE * ts) \<le> MAX_TICK_INDEX
         then Inr (s + k * (TICK_ARRAY_SIZE * ts)) else Inl InvariantError)"
proof (intro exI conjI)
  let ?s = "array_start t ts" and ?m = "TICK_ARRAY_SIZE * ts"
  show "getStartTickIndex t ts 0 = Inr ?s" using assms by (rule getStartTickIndex_in_bounds)
  show "?s \<le> t" "t < ?s + ?m" "?m dvd ?s"
    using array_start_bounds [OF assms(1)] by (simp_all add: mult.commute)
  have "array_start MIN_TICK_INDEX ts \<le> ?s + k * ?m \<longleftrightarrow> MIN_TICK_INDEX < ?s + k * ?m + ?m"
    by (rule array_start_le_iff [OF assms(1)]) (use \<open>?m dvd ?s\<close> in simp)
  then show "getStartTickIndex t ts k =
      (if MIN_TICK_INDEX < ?s + k * ?m + ?m \<and> ?s + k * ?m \<le> MAX_TICK_INDEX
       then Inr (?s + k * ?m) else Inl InvariantError)"
    using getStartTickIndex_eq [OF assms(1), of t k] by (simp add: Let_def mult.commute [of ts])
qed

theorem getStartTickIndex_correct_witness:
  "\<exists>s. getStartTickIndex (- 28416) 64 0 = Inr s \<and> s \<le> - 28416 \<and> - 28416 < s + TICK_ARRAY_SIZE * 64"
proof -
  have "checkTickInBounds (- 28416)"
    by (simp add: checkTickInBounds_def MIN_TICK_INDEX_def MAX_TICK_INDEX_def)
  from getStartTickIndex_correct [of 64, OF _ this, of 0] show ?thesis by auto
qed

text \<open>
  C37: Within one tick array the searches are exact: from a tick of the array,
  \<open>findNextInitializedTickIndex\<close> returns the least initialized tick strictly above it and
  \<open>findPreviousInitializedTickIndex\<close> the greatest one at or below it, and null exactly when
  there is none.
\<close>

theorem find_initialized_tick_exact:
  assumes "0 < ts" "ta_startTickIndex account \<le> t"
    "t < ta_startTickIndex account + int (length (ta_ticks account)) * ts"
  shows "tu_findNextInitializedTickIndex account t ts =
      least_of {u \<in> initialized_ticks account ts. t < u}
    \<and> findPreviousInitializedTickIndex account t ts =
      greatest_of {u \<in> initialized_ticks account ts. u \<le> t}"
  using assms tu_findNextInitializedTickIndex_eq [of ts account t]
    findPreviousInitializedTickIndex_eq [of ts t account] by simp

theorem find_initialized_tick_exact_witness:
  "let account = \<lparr>ta_whirlpool = ''pool'', ta_startTickIndex = - 128,
        ta_ticks = [empty_tick, empty_tick \<lparr>tick_initialized := True\<rparr>]\<rparr> in
   findPreviousInitializedTickIndex account (- 1) 64 = Some (- 64)
   \<and> greatest_of {u \<in> initialized_ticks account 64. u \<le> - 1} = Some (- 64)"
proof -
  define account where "account = \<lparr>ta_whirlpool = ''pool'', ta_startTickIndex = - 128,
        ta_ticks = [empty_tick, empty_tick \<lparr>tick_initialized := True\<rparr>]\<rparr>"
  have "findPreviousInitializedTickIndex account (- 1) 64 = Some (- 64)"
    unfolding account_def by code_simp
  moreover from find_initialized_tick_exact [of 64 account "- 1"]
  have "findPreviousInitializedTickIndex account (- 1) 64 =
      greatest_of {u \<in> initialized_ticks account 64. u \<le> - 1}"
    by (simp add: account_def)
  ultimately show ?thesis by (simp add: account_def [symmetric] Let_def)
qed

text \<open>
  The full range of a spacing is symmetric, and it is the widest one: a tick of the
  spacing is in bounds exactly when it lies in the full range, whose ends are ticks of the
  spacing themselves.
\<close>

theorem full_range_is_widest:
  assumes "0 < ts" "isTickInitializable t ts"
  shows "case getFullRangeTickIndex ts of (lo, hi) \<Rightarrow>
    lo = - hi \<and> isTickInitializable lo ts \<and> isTickInitializable hi ts
    \<and> (checkTickInBounds t \<longleftrightarrow> lo \<le> t \<and> t \<le> hi) \<and> isFullRange ts lo hi"
  using assms getFullRangeTickIndex_bounds(1) [of ts] getFullRangeTickIndex_bounds(2) [of ts t]
  by (simp add: isTickInitializable_iff isFullRange_def split: prod.split)
    (simp add: getFullRangeTickIndex_def)

theorem full_range_is_widest_witness:
  "getFullRangeTickIndex 64 = (- 443584, 443584) \<and> \<not> checkTickInBounds 443648"
  using full_range_is_widest [of 64 443648]
  by (simp add: isTickInitializable_iff getFullRangeTickIndex_def MIN_TICK_INDEX_def MAX_TICK_INDEX_def)

end
