(* ===== verification/Price_Math.thy ===== *)
theory Price_Math
  imports Tick_Utils "HOL-Library.Log_Nat"
begin

text \<open>
  Prices and ticks (\<^verbatim>\<open>sdk/src/utils/public/price-math.ts\<close>). A square-root price is a Q64.64
  number. The two's complement operations of \<^verbatim>\<open>bn.js\<close> are written out: \<open>bn_notn w\<close>
  complements the low \<open>w\<close> bits and clears the bits above (\<^verbatim>\<open>bn.js\<close> would keep those beyond the
  26-bit word that holds bit \<open>w\<close>; no operand of the code reaches that far), \<open>bn_toTwos\<close> and
  \<open>bn_fromTwos\<close> convert a signed number, and \<^verbatim>\<open>imaskn\<close> is the remainder by a power of two. The shifts assert a non-negative operand; what \<open>bn_toTwos\<close> returns is one
  (\<open>bn_toTwos_nonneg\<close>). The chain of \<^verbatim>\<open>if ((tick & 2^i) != 0)\<close> statements is a fold over the
  list of its masks and factors. A \<^verbatim>\<open>Decimal\<close> is a value of the parameter's type \<open>'d\<close>, its
  operations the fields of \<open>decimal_ops\<close>.
\<close>

unbundle bit_operations_syntax

subsection \<open>Two's complement shifts\<close>

definition bn_notn :: "nat \<Rightarrow> int \<Rightarrow> int" where
  "bn_notn width n = 2 ^ width - 1 - n mod 2 ^ width"

definition bn_toTwos :: "nat \<Rightarrow> int \<Rightarrow> int" where
  "bn_toTwos width n = (if n < 0 then bn_notn width (- n) + 1 else n)"

definition bn_fromTwos :: "nat \<Rightarrow> int \<Rightarrow> int" where
  "bn_fromTwos width n = (if bit n (width - 1) then - (bn_notn width n + 1) else n)"

definition signedShiftLeft :: "int \<Rightarrow> nat \<Rightarrow> nat \<Rightarrow> int" where
  "signedShiftLeft n0 shiftBy bitWidth =
     (let twosN0 = bn_toTwos bitWidth n0 * 2 ^ shiftBy in
      bn_fromTwos bitWidth (twosN0 mod 2 ^ (bitWidth + 1)))"

definition signedShiftRight :: "int \<Rightarrow> nat \<Rightarrow> nat \<Rightarrow> int" where
  "signedShiftRight n0 shiftBy bitWidth =
     (let twoN0 = bn_toTwos bitWidth n0 div 2 ^ shiftBy in
      bn_fromTwos (bitWidth - shiftBy) (twoN0 mod 2 ^ (bitWidth - shiftBy + 1)))"

lemma bn_toTwos_nonneg: "0 \<le> bn_toTwos width n"
proof -
  have "- n mod 2 ^ width \<le> 2 ^ width" by (rule less_imp_le, rule pos_mod_bound) simp
  then show ?thesis by (simp add: bn_toTwos_def bn_notn_def)
qed

text \<open>On numbers that fit in the signed width the shifts are division and multiplication.\<close>

lemma bit_top_iff:
  assumes "0 \<le> q" "q < 2 ^ Suc k"
  shows "bit q k \<longleftrightarrow> 2 ^ k \<le> (q :: int)"
proof -
  have "q div 2 ^ k = (if 2 ^ k \<le> q then 1 else 0)"
    using assms by (auto simp: div_pos_pos_trivial intro!: int_div_pos_eq [of _ _ _ "q - 2 ^ k"])
  then show ?thesis by (simp add: bit_iff_odd)
qed

lemma signedShiftRight_eq:
  assumes "- (2 ^ (w - 1)) \<le> n" "n < 2 ^ (w - 1)" "s < w"
  shows "signedShiftRight n s w = n div 2 ^ s"
proof -
  define k where "k = w - s - 1"
  have k: "w - s = Suc k" "w - 1 = k + s" "w = Suc k + s" using assms(3) by (auto simp: k_def)
  have range: "- (2 ^ k) \<le> n div 2 ^ s" "n div 2 ^ s < 2 ^ k"
  proof -
    have "- (2 ^ k) * 2 ^ s \<le> n" "\<not> 2 ^ k * 2 ^ s \<le> n"
      using assms(1,2) by (simp_all add: k power_add)
    then show "- (2 ^ k) \<le> n div 2 ^ s" "n div 2 ^ s < 2 ^ k"
      using le_div_iff_int [of "2 ^ s" "- (2 ^ k)" n] le_div_iff_int [of "2 ^ s" "2 ^ k" n]
      by auto
  qed
  show ?thesis
  proof (cases "n < 0")
    case False
    then have q: "0 \<le> n div 2 ^ s" by (simp add: pos_imp_zdiv_nonneg_iff)
    moreover have "n div 2 ^ s < 2 ^ Suc k" "n div 2 ^ s < 2 ^ Suc (Suc k)" using range(2) q by auto
    ultimately show ?thesis
      using False range by (simp add: signedShiftRight_def bn_toTwos_def bn_fromTwos_def k(1) bit_top_iff Let_def)
  next
    case True
    have "- n < 2 ^ w" using assms(1) by (simp add: k power_add) (smt (verit) zero_less_power mult_pos_pos)
    with True have "bn_toTwos w n = n + 2 ^ Suc k * 2 ^ s"
      by (simp add: bn_toTwos_def bn_notn_def k(3) power_add)
    then have q: "bn_toTwos w n div 2 ^ s = n div 2 ^ s + 2 ^ Suc k" by simp
    have "n div 2 ^ s < 0" using True by (simp add: pos_imp_zdiv_neg_iff)
    moreover have "n div 2 ^ s mod 2 ^ Suc k = n div 2 ^ s + 2 ^ Suc k"
      by (rule int_mod_pos_eq [of _ _ "- 1"]) (use range \<open>n div 2 ^ s < 0\<close> in auto)
    ultimately show ?thesis using range q
      by (simp add: signedShiftRight_def bn_fromTwos_def bn_notn_def k(1) bit_top_iff Let_def)
  qed
qed

lemma signedShiftLeft_eq:
  assumes "- (2 ^ (w - 1)) \<le> n * 2 ^ s" "n * 2 ^ s < 2 ^ (w - 1)" "0 < s" "0 < w"
  shows "signedShiftLeft n s w = n * 2 ^ s"
proof -
  define k where "k = w - 1"
  have k: "w = Suc k" using assms(4) by (simp add: k_def)
  show ?thesis
  proof (cases "n < 0")
    case False
    with assms show ?thesis
      by (simp add: signedShiftLeft_def bn_toTwos_def bn_fromTwos_def k bit_top_iff Let_def)
  next
    case True
    have "- n * 1 \<le> - n * 2 ^ s" using True by (intro mult_left_mono) auto
    then have "- n < 2 ^ w" using assms(1) by (simp add: k) (smt (verit) zero_less_power)
    with True have t: "bn_toTwos w n * 2 ^ s = n * 2 ^ s + 2 ^ Suc w * 2 ^ (s - 1)"
      using assms(3) by (cases s) (simp_all add: bn_toTwos_def bn_notn_def algebra_simps power_add)
    define P v :: int where "P = 2 ^ k" and "v = n * 2 ^ s"
    have P: "2 ^ Suc w = 4 * P" "2 ^ w = 2 * P" "2 ^ k = P" "0 < P" by (simp_all add: P_def k)
    have v: "v < 0" "- P \<le> v" using True assms(1) by (simp_all add: v_def P_def k mult_neg_pos)
    have "(v + 4 * P * 2 ^ (s - 1)) mod (4 * P) = v + 4 * P"
      by (rule int_mod_pos_eq [of _ _ "2 ^ (s - 1) - 1"]) (use v P(4) in \<open>auto simp: algebra_simps\<close>)
    then have "bn_toTwos w n * 2 ^ s mod 2 ^ (w + 1) = v + 4 * P"
      using t P(1) by (simp add: v_def)
    moreover have "(v + 4 * P) div P = 3" "(v + 4 * P) mod (2 * P) = v + 2 * P"
      by (rule int_div_pos_eq [of _ _ _ "v + P"] int_mod_pos_eq [of _ _ 1]; use v P(4) in simp)+
    ultimately show ?thesis
      unfolding signedShiftLeft_def Let_def
      by (simp add: bn_fromTwos_def bn_notn_def bit_iff_odd k P(3) P(2) [unfolded k] v_def [symmetric]
          del: power_Suc)
  qed
qed

subsection \<open>The price of a tick\<close>

definition mul_shift_if :: "nat \<Rightarrow> int \<Rightarrow> int \<times> int \<Rightarrow> int \<Rightarrow> int" where
  "mul_shift_if shiftBy tick entry ratio =
     (if tick AND fst entry \<noteq> 0 then signedShiftRight (ratio * snd entry) shiftBy 256 else ratio)"

definition positive_table :: "(int \<times> int) list" where
  "positive_table =
     [(2, 79236085330515764027303304731),
      (4, 79244008939048815603706035061),
      (8, 79259858533276714757314932305),
      (16, 79291567232598584799939703904),
      (32, 79355022692464371645785046466),
      (64, 79482085999252804386437311141),
      (128, 79736823300114093921829183326),
      (256, 80248749790819932309965073892),
      (512, 81282483887344747381513967011),
      (1024, 83390072131320151908154831281),
      (2048, 87770609709833776024991924138),
      (4096, 97234110755111693312479820773),
      (8192, 119332217159966728226237229890),
      (16384, 179736315981702064433883588727),
      (32768, 407748233172238350107850275304),
      (65536, 2098478828474011932436660412517),
      (131072, 55581415166113811149459800483533),
      (262144, 38992368544603139932233054999993551)]"

definition negative_table :: "(int \<times> int) list" where
  "negative_table =
     [(2, 18444899583751176498),
      (4, 18443055278223354162),
      (8, 18439367220385604838),
      (16, 18431993317065449817),
      (32, 18417254355718160513),
      (64, 18387811781193591352),
      (128, 18329067761203520168),
      (256, 18212142134806087854),
      (512, 17980523815641551639),
      (1024, 17526086738831147013),
      (2048, 16651378430235024244),
      (4096, 15030750278693429944),
      (8192, 12247334978882834399),
      (16384, 8131365268884726200),
      (32768, 3584323654723342297),
      (65536, 696457651847595233),
      (131072, 26294789957452057),
      (262144, 37481735321082)]"

definition tickIndexToSqrtPricePositive :: "int \<Rightarrow> int" where
  "tickIndexToSqrtPricePositive tick =
     (let ratio = (if tick AND 1 \<noteq> 0 then 79232123823359799118286999567
                   else 79228162514264337593543950336) in
      signedShiftRight (fold (mul_shift_if 96 tick) positive_table ratio) 32 256)"

definition tickIndexToSqrtPriceNegative :: "int \<Rightarrow> int" where
  "tickIndexToSqrtPriceNegative tickIndex =
     (let tick = \<bar>tickIndex\<bar>;
          ratio = (if tick AND 1 \<noteq> 0 then 18445821805675392311 else 18446744073709551616) in
      fold (mul_shift_if 64 tick) negative_table ratio)"

definition tickIndexToSqrtPriceX64 :: "int \<Rightarrow> int" where
  "tickIndexToSqrtPriceX64 tickIndex =
     (if tickIndex > 0 then tickIndexToSqrtPricePositive tickIndex
      else tickIndexToSqrtPriceNegative tickIndex)"

subsection \<open>The tick of a price\<close>

definition BIT_PRECISION :: int where "BIT_PRECISION = 14"

definition LOG_B_2_X32 :: int where "LOG_B_2_X32 = 59543866431248"

definition LOG_B_P_ERR_MARGIN_LOWER_X64 :: int where
  "LOG_B_P_ERR_MARGIN_LOWER_X64 = 184467440737095516"

definition LOG_B_P_ERR_MARGIN_UPPER_X64 :: int where
  "LOG_B_P_ERR_MARGIN_UPPER_X64 = 15793534762490258745"

text \<open>The \<^verbatim>\<open>while\<close> loop of \<open>sqrtPriceX64ToTickIndex\<close>: it returns \<open>log2pFractionX64\<close>.\<close>

function log2p_loop :: "int \<Rightarrow> int \<Rightarrow> int \<Rightarrow> int \<Rightarrow> int" where
  "log2p_loop bitv precision log2pFractionX64 r =
     (if bitv > 0 \<and> precision < BIT_PRECISION
      then let r2 = r * r;
               rMoreThanTwo = r2 div 2 ^ 127;
               r3 = r2 div 2 ^ nat (63 + rMoreThanTwo) in
           log2p_loop (bitv div 2) (precision + 1) (log2pFractionX64 + bitv * rMoreThanTwo) r3
      else log2pFractionX64)"
  by pat_completeness auto
termination
  by (relation "measure (\<lambda>(bitv, precision, f, r). nat (BIT_PRECISION - precision))") auto

declare log2p_loop.simps [simp del]

definition sqrtPriceX64ToTickIndex :: "int \<Rightarrow> int res" where
  "sqrtPriceX64ToTickIndex sqrtPriceX64 =
     (if sqrtPriceX64 > MAX_SQRT_PRICE \<or> sqrtPriceX64 < MIN_SQRT_PRICE then Inl PlainError
      else
        let msb = bitlen sqrtPriceX64 - 1;
            adjustedMsb = msb - 64;
            log2pIntegerX32 = signedShiftLeft adjustedMsb 32 128;
            r = (if msb \<ge> 64 then sqrtPriceX64 div 2 ^ nat (msb - 63)
                 else sqrtPriceX64 * 2 ^ nat (63 - msb));
            log2pFractionX64 = log2p_loop (2 ^ 63) 0 0 r;
            log2pFractionX32 = log2pFractionX64 div 2 ^ 32;
            log2pX32 = log2pIntegerX32 + log2pFractionX32;
            logbpX64 = log2pX32 * LOG_B_2_X32;
            tickLow = signedShiftRight (logbpX64 - LOG_B_P_ERR_MARGIN_LOWER_X64) 64 128;
            tickHigh = signedShiftRight (logbpX64 + LOG_B_P_ERR_MARGIN_UPPER_X64) 64 128 in
        if tickLow = tickHigh then Inr tickLow
        else let derivedTickHighSqrtPriceX64 = tickIndexToSqrtPriceX64 tickHigh in
             if derivedTickHighSqrtPriceX64 \<le> sqrtPriceX64 then Inr tickHigh else Inr tickLow)"

definition invertSqrtPriceX64 :: "int \<Rightarrow> int res" where
  "invertSqrtPriceX64 sqrtPriceX64 =
     bindE (sqrtPriceX64ToTickIndex sqrtPriceX64) (\<lambda>tick.
     Inr (tickIndexToSqrtPriceX64 (invertTick tick)))"

subsection \<open>Decimal prices\<close>

text \<open>
  \<^verbatim>\<open>Decimal\<close> and the conversions of \<^verbatim>\<open>MathUtil\<close> and \<^verbatim>\<open>DecimalUtil\<close>. \<open>dec_toBN0\<close> rounds to no
  decimal places and reads the text back as a \<^verbatim>\<open>BN\<close>.
\<close>

record 'd decimal_ops =
  dec_mul :: "'d \<Rightarrow> 'd \<Rightarrow> 'd"
  dec_div :: "'d \<Rightarrow> 'd \<Rightarrow> 'd"
  dec_add :: "'d \<Rightarrow> 'd \<Rightarrow> 'd"
  dec_sub :: "'d \<Rightarrow> 'd \<Rightarrow> 'd"
  dec_sqrt :: "'d \<Rightarrow> 'd"
  dec_pow :: "'d \<Rightarrow> int \<Rightarrow> 'd"
  dec_ofBN :: "int \<Rightarrow> 'd"
  dec_toBN0 :: "'d \<Rightarrow> int"
  dec_toX64 :: "'d \<Rightarrow> int"
  dec_fromX64 :: "int \<Rightarrow> 'd"

definition priceToSqrtPriceX64 :: "'d decimal_ops \<Rightarrow> 'd \<Rightarrow> int \<Rightarrow> int \<Rightarrow> int" where
  "priceToSqrtPriceX64 dec price decimalsA decimalsB =
     dec_toX64 dec (dec_sqrt dec (dec_mul dec price
       (dec_pow dec (dec_ofBN dec 10) (decimalsB - decimalsA))))"

definition sqrtPriceX64ToPrice :: "'d decimal_ops \<Rightarrow> int \<Rightarrow> int \<Rightarrow> int \<Rightarrow> 'd" where
  "sqrtPriceX64ToPrice dec sqrtPriceX64 decimalsA decimalsB =
     dec_mul dec (dec_pow dec (dec_fromX64 dec sqrtPriceX64) 2)
       (dec_pow dec (dec_ofBN dec 10) (decimalsA - decimalsB))"

definition tickIndexToPrice :: "'d decimal_ops \<Rightarrow> int \<Rightarrow> int \<Rightarrow> int \<Rightarrow> 'd" where
  "tickIndexToPrice dec tickIndex decimalsA decimalsB =
     sqrtPriceX64ToPrice dec (tickIndexToSqrtPriceX64 tickIndex) decimalsA decimalsB"

definition priceToTickIndex :: "'d decimal_ops \<Rightarrow> 'd \<Rightarrow> int \<Rightarrow> int \<Rightarrow> int res" where
  "priceToTickIndex dec price decimalsA decimalsB =
     sqrtPriceX64ToTickIndex (priceToSqrtPriceX64 dec price decimalsA decimalsB)"

definition priceToInitializableTickIndex ::
    "'d decimal_ops \<Rightarrow> 'd \<Rightarrow> int \<Rightarrow> int \<Rightarrow> int \<Rightarrow> int res" where
  "priceToInitializableTickIndex dec price decimalsA decimalsB tickSpacing =
     bindE (priceToTickIndex dec price decimalsA decimalsB) (\<lambda>tick.
     Inr (getInitializableTickIndex tick tickSpacing))"

definition invertPrice :: "'d decimal_ops \<Rightarrow> 'd \<Rightarrow> int \<Rightarrow> int \<Rightarrow> 'd res" where
  "invertPrice dec price decimalsA decimalsB =
     bindE (priceToTickIndex dec price decimalsA decimalsB) (\<lambda>tick.
     Inr (tickIndexToPrice dec (invertTick tick) decimalsB decimalsA))"

definition getSlippageBoundForSqrtPrice ::
    "'d decimal_ops \<Rightarrow> int \<Rightarrow> percentage \<Rightarrow> ((int \<times> int) \<times> (int \<times> int)) res" where
  "getSlippageBoundForSqrtPrice dec sqrtPriceX64 slippage =
     (let sqrtPriceX64Decimal = dec_ofBN dec sqrtPriceX64;
          slippageNumerator = dec_ofBN dec (numerator slippage);
          slippageDenominator = dec_ofBN dec (denominator slippage);
          lowerBoundSqrtPriceDecimal =
            dec_div dec (dec_mul dec sqrtPriceX64Decimal
                (dec_sqrt dec (dec_sub dec slippageDenominator slippageNumerator)))
              (dec_sqrt dec slippageDenominator);
          upperBoundSqrtPriceDecimal =
            dec_div dec (dec_mul dec sqrtPriceX64Decimal
                (dec_sqrt dec (dec_add dec slippageDenominator slippageNumerator)))
              (dec_sqrt dec slippageDenominator);
          lowerBoundSqrtPrice =
            min (max (dec_toBN0 dec lowerBoundSqrtPriceDecimal) MIN_SQRT_PRICE) MAX_SQRT_PRICE;
          upperBoundSqrtPrice =
            min (max (dec_toBN0 dec upperBoundSqrtPriceDecimal) MIN_SQRT_PRICE) MAX_SQRT_PRICE in
      bindE (sqrtPriceX64ToTickIndex lowerBoundSqrtPrice) (\<lambda>lowerTickCurrentIndex.
      bindE (sqrtPriceX64ToTickIndex upperBoundSqrtPrice) (\<lambda>upperTickCurrentIndex.
      Inr ((lowerBoundSqrtPrice, lowerTickCurrentIndex),
           (upperBoundSqrtPrice, upperTickCurrentIndex)))))"

end
