(* ===== verification/Price_Curve.thy ===== *)
theory Price_Curve
  imports Price_Math
begin

text \<open>
  The table-driven price of a tick against the curve it stands for. Tick \<open>t\<close> is the price
  \<open>1.0001 ^ t\<close>, so its square-root price is \<open>2 ^ 64 * tick_base ^ t\<close> with \<open>tick_base\<close> the square
  root of \<open>1.0001\<close>. Each factor of a table is checked against a certified interval of the
  power it approximates, the intervals obtained by repeated squaring, and the error of the
  fold is bounded by induction on the table. Closeness gives strict monotonicity.
\<close>

subsection \<open>Certified powers\<close>

definition tick_base :: real where "tick_base = sqrt (10001 / 10000)"

text \<open>
  Scaled by \<open>2 ^ 128\<close>: \<open>factors_ok S lo up cs i\<close> says that the entries of \<open>cs\<close> are
  \<open>(2 ^ i, c)\<close>, \<open>(2 ^ (i + 1), c')\<close> and so on, with each factor within a relative \<open>10 ^ -12\<close> of
  \<open>S\<close> times the power, when \<open>lo\<close> and \<open>up\<close> enclose the first power.
\<close>

fun factors_ok :: "int \<Rightarrow> int \<Rightarrow> int \<Rightarrow> (int \<times> int) list \<Rightarrow> nat \<Rightarrow> bool" where
  "factors_ok S lo up [] i \<longleftrightarrow> True"
| "factors_ok S lo up ((m, c) # cs) i \<longleftrightarrow>
     m = 2 ^ i \<and> 0 < c \<and> c < 2 ^ 115 \<and>
     c * 10 ^ 12 * 2 ^ 128 \<le> S * lo * (10 ^ 12 + 1) \<and>
     S * up * (10 ^ 12 - 1) \<le> c * 10 ^ 12 * 2 ^ 128 \<and>
     factors_ok S (lo * lo div 2 ^ 128) (- ((- (up * up)) div 2 ^ 128)) cs (Suc i)"

definition encloses :: "int \<Rightarrow> int \<Rightarrow> real \<Rightarrow> bool" where
  "encloses lo up x \<longleftrightarrow> 0 \<le> lo \<and> real_of_int lo \<le> x * 2 ^ 128 \<and> x * 2 ^ 128 \<le> real_of_int up"

lemma int_div_real_bounds:
  assumes "0 < b"
  shows "real_of_int (a div b) \<le> a / b" "a / b < real_of_int (a div b) + 1"
proof -
  have "a div b * b \<le> a" "a < (a div b + 1) * b"
    using le_div_iff_int [OF assms, of "a div b" a] le_div_iff_int [OF assms, of "a div b + 1" a]
    by auto
  then have "real_of_int (a div b * b) \<le> real_of_int a" "real_of_int a < real_of_int ((a div b + 1) * b)"
    by (simp_all only: of_int_le_iff of_int_less_iff)
  with assms show "real_of_int (a div b) \<le> a / b" "a / b < real_of_int (a div b) + 1"
    by (simp_all add: field_simps)
qed

lemma encloses_square:
  assumes "encloses lo up x" "0 \<le> x"
  shows "encloses (lo * lo div 2 ^ 128) (- ((- (up * up)) div 2 ^ 128)) (x * x)"
proof -
  from assms have l: "0 \<le> lo" "lo \<le> x * 2 ^ 128" "x * 2 ^ 128 \<le> up" by (auto simp: encloses_def)
  have "real_of_int (lo * lo) \<le> (x * 2 ^ 128) * (x * 2 ^ 128)"
    unfolding of_int_mult by (rule mult_mono) (use l assms(2) in auto)
  moreover have "(x * 2 ^ 128) * (x * 2 ^ 128) \<le> real_of_int (up * up)"
    unfolding of_int_mult by (rule mult_mono) (use l assms(2) in auto)
  moreover have "real_of_int (lo * lo div 2 ^ 128) \<le> real_of_int (lo * lo) / 2 ^ 128"
    "real_of_int (- (up * up) div 2 ^ 128) \<le> real_of_int (- (up * up)) / 2 ^ 128"
    using int_div_real_bounds(1) [of "2 ^ 128" "lo * lo"] int_div_real_bounds(1) [of "2 ^ 128" "- (up * up)"]
    by simp_all
  moreover have "0 \<le> lo * lo div 2 ^ 128" by (simp add: pos_imp_zdiv_nonneg_iff)
  ultimately show ?thesis
    by (simp add: encloses_def field_simps)
qed

lemma tick_base_bounds: "1.00004999 < tick_base" "tick_base < 1.00005" "tick_base * tick_base = 1.0001"
proof -
  show "1.00004999 < tick_base" unfolding tick_base_def by (rule real_less_rsqrt) (simp add: power2_eq_square)
  show "tick_base < 1.00005" unfolding tick_base_def by (rule real_less_lsqrt) (simp_all add: power2_eq_square)
  show "tick_base * tick_base = 1.0001" by (simp add: tick_base_def)
qed

lemma tick_base_pos: "0 < tick_base" "1 < tick_base"
  using tick_base_bounds by simp_all

lemma encloses_base:
  "encloses 340299380613952818054172298683778356828 340299380613952818054172298683778356829 tick_base"
proof -
  have "340299380613952818054172298683778356828 / 2 ^ 128 \<le> tick_base"
    unfolding tick_base_def by (rule real_le_rsqrt) (simp add: power2_eq_square)
  moreover have "tick_base \<le> 340299380613952818054172298683778356829 / 2 ^ 128"
    unfolding tick_base_def by (rule real_le_lsqrt) (simp_all add: power2_eq_square)
  ultimately show ?thesis by (simp add: encloses_def field_simps)
qed

lemma encloses_inverse_base:
  "encloses 340265354078544963557816517032075149313 340265354078544963557816517032075149314 (1 / tick_base)"
proof -
  have eq: "1 / tick_base = sqrt (10000 / 10001)" by (simp add: tick_base_def real_sqrt_divide)
  have "340265354078544963557816517032075149313 / 2 ^ 128 \<le> 1 / tick_base"
    unfolding eq by (rule real_le_rsqrt) (simp add: power2_eq_square)
  moreover have "1 / tick_base \<le> 340265354078544963557816517032075149314 / 2 ^ 128"
    unfolding eq by (rule real_le_lsqrt) (simp_all add: power2_eq_square)
  ultimately show ?thesis by (simp add: encloses_def field_simps)
qed

text \<open>The two ladders of factors, with the first one the code puts in the initial ratio.\<close>

definition positive_ladder :: "(int \<times> int) list" where
  "positive_ladder = (1, 79232123823359799118286999567) # positive_table"

definition negative_ladder :: "(int \<times> int) list" where
  "negative_ladder = (1, 18445821805675392311) # negative_table"

lemma positive_ladder_ok:
  "factors_ok (2 ^ 96) 340299380613952818054172298683778356828 340299380613952818054172298683778356829
     positive_ladder 0"
  by code_simp

lemma negative_ladder_ok:
  "factors_ok (2 ^ 64) 340265354078544963557816517032075149313 340265354078544963557816517032075149314
     negative_ladder 0"
  by code_simp

subsection \<open>The error of the fold\<close>

text \<open>
  After the first \<open>i\<close> entries the ratio is near \<open>S * X ^ m\<close>: each factor costs a relative
  \<open>10 ^ -12\<close>, each shift rounds down by less than one, and what earlier roundings lost
  grows with the later factors.
\<close>

abbreviation eps :: real where "eps \<equiv> 1 / 10 ^ 12"

definition near :: "real \<Rightarrow> real \<Rightarrow> nat \<Rightarrow> nat \<Rightarrow> int \<Rightarrow> bool" where
  "near S X i m r \<longleftrightarrow> 0 \<le> r \<and>
     (1 - eps) ^ i * S * X ^ m - 2 * real i * max 1 (X ^ m) \<le> r \<and>
     r \<le> (1 + eps) ^ i * S * X ^ m"

lemma max_power_mult:
  fixes X :: real
  assumes "0 < X"
  shows "max 1 (X ^ m) * X ^ k \<le> max 1 (X ^ (m + k))"
proof (cases "1 \<le> X")
  case True
  then show ?thesis by (simp add: power_add max_def one_le_power)
next
  case False
  with assms have "X ^ m \<le> 1" "X ^ k \<le> 1" by (auto intro: power_le_one)
  then show ?thesis by (simp add: max_def)
qed

lemma near_skip:
  assumes "near S X i m r" "0 < X" "0 < S"
  shows "near S X (Suc i) m r"
proof -
  have "(1 - eps) ^ Suc i * (S * X ^ m) \<le> (1 - eps) ^ i * (S * X ^ m)"
    using assms by (intro mult_right_mono) auto
  moreover have "(1 + eps) ^ i * (S * X ^ m) \<le> (1 + eps) ^ Suc i * (S * X ^ m)"
    using assms by (intro mult_right_mono) auto
  ultimately show ?thesis
    using assms(1) by (auto simp: near_def algebra_simps max_def)
qed

lemma near_step:
  assumes near: "near (2 ^ s) X i m r" and X: "0 < X" and s: "s < 256" and i: "i \<le> 19"
    and c: "0 < c" "c < 2 ^ 115" "(1 - eps) * 2 ^ s * X ^ k \<le> c" "c \<le> (1 + eps) * 2 ^ s * X ^ k"
    and big: "(1 + eps) ^ i * 2 ^ s * X ^ m \<le> 2 ^ 139"
  shows "near (2 ^ s) X (Suc i) (m + k) (signedShiftRight (r * c) s 256)"
proof -
  define S A l x where "S = (2 ^ s :: real)" and "A = (1 - eps) ^ i * S * X ^ m"
    and "l = max 1 (X ^ m)" and "x = X ^ k"
  have pos: "0 < S" "0 \<le> A" "1 \<le> l" "0 < x" using X by (auto simp: S_def A_def l_def x_def)
  have r: "0 \<le> r" "A - 2 * real i * l \<le> r" "r \<le> (1 + eps) ^ i * S * X ^ m"
    using near by (auto simp: near_def S_def A_def l_def)
  have c': "(1 - eps) * x \<le> c / S" "c / S \<le> (1 + eps) * x"
    using c(3,4) pos(1) by (simp_all add: S_def x_def field_simps)
  have "real_of_int r \<le> real_of_int (2 ^ 139)" using r(3) big by (simp add: S_def)
  then have "r \<le> 2 ^ 139" by (simp only: of_int_le_iff)
  then have "r * c < 2 ^ 255" using c(1,2) r(1) by (intro le_less_trans [OF mult_mono [of r "2 ^ 139" c "2 ^ 115"]]) auto
  then have q: "signedShiftRight (r * c) s 256 = r * c div 2 ^ s"
    using r(1) c(1) s by (intro signedShiftRight_eq) (auto intro: order_trans [OF _ mult_nonneg_nonneg])
  note bounds = int_div_real_bounds [of "2 ^ s" "r * c"]
  have "real_of_int (r * c div 2 ^ s) \<le> r * (c / S)"
    using bounds(1) by (simp add: S_def)
  also have "\<dots> \<le> ((1 + eps) ^ i * S * X ^ m) * ((1 + eps) * x)"
    using r c' pos c(1) by (intro mult_mono) auto
  finally have upper: "real_of_int (r * c div 2 ^ s) \<le> (1 + eps) ^ Suc i * S * X ^ (m + k)"
    by (simp add: x_def power_add algebra_simps)
  have l': "l * x \<le> max 1 (X ^ (m + k))" using max_power_mult [OF X, of m k] by (simp add: l_def x_def)
  define e y M Q where "e = eps" and "y = c / S" and "M = max 1 (X ^ (m + k))" and "Q = real_of_int (r * c div 2 ^ s)"
  have y: "(1 - e) * x \<le> y" "y \<le> (1 + e) * x" "0 \<le> y" and "1 \<le> M" "l * x \<le> M"
    using c' l' pos(1) c(1) by (simp_all add: y_def M_def e_def)
  have "r * y - 1 \<le> Q" using bounds(2) by (simp add: y_def Q_def S_def)
  moreover have "(A - 2 * real i * l) * y \<le> r * y" using r(2) y(3) by (rule mult_right_mono)
  moreover have "A * ((1 - e) * x) \<le> A * y" using y(1) pos by (intro mult_left_mono) auto
  moreover have "2 * real i * l * y \<le> 2 * real i * l * ((1 + e) * x)"
    using y(2) pos by (intro mult_left_mono) auto
  moreover have "2 * real i * (1 + e) * (l * x) \<le> 2 * real i * (1 + e) * M"
    using \<open>l * x \<le> M\<close> by (intro mult_left_mono) (auto simp: e_def)
  moreover have "2 * real i * (1 + e) * M + 1 \<le> 2 * real (Suc i) * M"
  proof -
    have "2 * real i * e * M \<le> 1 * M"
      using i \<open>1 \<le> M\<close> by (intro mult_right_mono) (auto simp: e_def)
    then have "2 * real i * M + 2 * real i * e * M + 1 \<le> 2 * real i * M + M + M"
      using \<open>1 \<le> M\<close> by linarith
    then show ?thesis by (simp add: algebra_simps)
  qed
  ultimately have "A * ((1 - e) * x) - 2 * real (Suc i) * M \<le> Q"
    using \<open>1 \<le> M\<close> by (simp add: algebra_simps)
  then have "(1 - eps) ^ Suc i * S * X ^ (m + k) - 2 * real (Suc i) * max 1 (X ^ (m + k))
      \<le> real_of_int (r * c div 2 ^ s)"
    by (simp add: A_def x_def M_def Q_def e_def power_add mult_ac)
  with upper show ?thesis
    using r(1) c(1) by (simp add: near_def q S_def pos_imp_zdiv_nonneg_iff)
qed

lemma AND_power_iff: "int n AND 2 ^ i \<noteq> 0 \<longleftrightarrow> bit n i"
  by (simp add: and_exp_eq_0_iff_not_bit bit_of_nat_iff_bit)

lemma mod_power_Suc: "n mod 2 ^ Suc i = n mod 2 ^ i + (if bit n i then 2 ^ i else 0)" for n :: nat
  using take_bit_Suc_from_most [of i n] by (simp add: take_bit_eq_mod)

lemma near_fold:
  assumes X: "0 < X" and s: "s < 256"
    and big: "\<And>m. m < 2 ^ 19 \<Longrightarrow> (1 + eps) ^ 19 * 2 ^ s * X ^ m \<le> 2 ^ 139"
  shows "factors_ok (2 ^ s) lo up cs i \<Longrightarrow> encloses lo up (X ^ (2 ^ i)) \<Longrightarrow>
    near (2 ^ s) X i (n mod 2 ^ i) r \<Longrightarrow> i + length cs \<le> 19 \<Longrightarrow>
    near (2 ^ s) X (i + length cs) (n mod 2 ^ (i + length cs)) (fold (mul_shift_if s (int n)) cs r)"
proof (induction cs arbitrary: i lo up r)
  case Nil
  then show ?case by simp
next
  case (Cons e cs)
  obtain m c where e: "e = (m, c)" by (cases e)
  let ?x = "X ^ (2 ^ i)"
  from Cons.prems(1) e have m: "m = 2 ^ i" and c: "0 < c" "c < 2 ^ 115"
    and cl: "c * 10 ^ 12 * 2 ^ 128 \<le> 2 ^ s * lo * (10 ^ 12 + 1)"
    and cu: "2 ^ s * up * (10 ^ 12 - 1) \<le> c * 10 ^ 12 * 2 ^ 128"
    and rest: "factors_ok (2 ^ s) (lo * lo div 2 ^ 128) (- ((- (up * up)) div 2 ^ 128)) cs (Suc i)"
    by auto
  have lo: "real_of_int lo \<le> ?x * 2 ^ 128" and up: "?x * 2 ^ 128 \<le> real_of_int up"
    using Cons.prems(2) by (auto simp: encloses_def)
  have next_enclosed: "encloses (lo * lo div 2 ^ 128) (- ((- (up * up)) div 2 ^ 128)) (X ^ (2 ^ Suc i))"
    using encloses_square [OF Cons.prems(2)] X by (simp add: power_add [symmetric] mult_2)
  have "real_of_int c * 10 ^ 12 * 2 ^ 128 \<le> 2 ^ s * real_of_int lo * (10 ^ 12 + 1)"
    using cl [folded of_int_le_iff [where 'a = real]] by simp
  also have "\<dots> \<le> 2 ^ s * (?x * 2 ^ 128) * (10 ^ 12 + 1)"
    using lo Cons.prems(2) X by (intro mult_mono) (auto simp: encloses_def)
  finally have c_up: "c \<le> (1 + eps) * 2 ^ s * ?x" by (simp add: field_simps)
  have "2 ^ s * (?x * 2 ^ 128) * (10 ^ 12 - 1) \<le> 2 ^ s * real_of_int up * (10 ^ 12 - 1)"
    using up X order_trans [OF _ up, of 0] by (intro mult_mono) auto
  also have "\<dots> \<le> real_of_int c * 10 ^ 12 * 2 ^ 128"
    using cu [folded of_int_le_iff [where 'a = real]] by simp
  finally have c_lo: "(1 - eps) * 2 ^ s * ?x \<le> c" by (simp add: field_simps)
  have "near (2 ^ s) X (Suc i) (n mod 2 ^ Suc i) (mul_shift_if s (int n) e r)"
  proof (cases "bit n i")
    case True
    have "(1 + eps) ^ i * (2 ^ s * X ^ (n mod 2 ^ i)) \<le> (1 + eps) ^ 19 * (2 ^ s * X ^ (n mod 2 ^ i))"
      using Cons.prems(4) X by (intro mult_right_mono power_increasing) auto
    also have "\<dots> \<le> 2 ^ 139"
    proof -
      have "n mod 2 ^ i < 2 ^ i" by simp
      also have "(2 :: nat) ^ i \<le> 2 ^ 19" using Cons.prems(4) by (intro power_increasing) auto
      finally show ?thesis using big by (simp add: mult.assoc)
    qed
    finally have "(1 + eps) ^ i * 2 ^ s * X ^ (n mod 2 ^ i) \<le> 2 ^ 139" by (simp add: mult.assoc)
    from near_step [OF Cons.prems(3) X s _ c c_lo c_up this] True Cons.prems(4)
    show ?thesis by (simp add: mul_shift_if_def e m AND_power_iff mod_power_Suc del: power_Suc)
  next
    case False
    with near_skip [OF Cons.prems(3) X] show ?thesis
      by (simp add: mul_shift_if_def e m AND_power_iff mod_power_Suc del: power_Suc)
  qed
  from Cons.IH [OF rest next_enclosed this] Cons.prems(4) show ?case by (simp add: e)
qed

subsection \<open>The price of a tick is on the curve\<close>

definition curve :: "int \<Rightarrow> real" where
  "curve t = 2 ^ 64 * tick_base powr t"

lemma curve_pos: "0 < curve t"
  using tick_base_pos by (simp add: curve_def)

lemma curve_nat: "curve (int n) = 2 ^ 64 * tick_base ^ n" "curve (- int n) = 2 ^ 64 * (1 / tick_base) ^ n"
  using tick_base_pos by (simp_all add: curve_def powr_realpow powr_minus power_one_over divide_simps)

lemma curve_add: "curve (t + k) = curve t * tick_base powr k"
  by (simp add: curve_def powr_add)

lemma ladder_start:
  assumes "0 \<le> c0" "c0 < 2 ^ 115" "s \<le> 96"
  shows "mul_shift_if s t (1, c0) (2 ^ s) = (if t AND 1 \<noteq> 0 then c0 else 2 ^ s)"
proof -
  have "2 ^ s * c0 \<le> 2 ^ 96 * 2 ^ 115"
    using assms by (intro mult_mono power_increasing) auto
  then have "signedShiftRight (2 ^ s * c0) s 256 = c0"
    using assms by (subst signedShiftRight_eq) (auto intro: order_trans [OF _ mult_nonneg_nonneg])
  then show ?thesis by (simp add: mul_shift_if_def)
qed

lemma negative_as_fold:
  "tickIndexToSqrtPriceNegative t = fold (mul_shift_if 64 \<bar>t\<bar>) negative_ladder (2 ^ 64)"
  using ladder_start [of 18445821805675392311 64 "\<bar>t\<bar>"]
  by (simp add: tickIndexToSqrtPriceNegative_def negative_ladder_def)

lemma positive_as_fold:
  "tickIndexToSqrtPricePositive t =
     signedShiftRight (fold (mul_shift_if 96 t) positive_ladder (2 ^ 96)) 32 256"
  using ladder_start [of 79232123823359799118286999567 96 t]
  by (simp add: tickIndexToSqrtPricePositive_def positive_ladder_def)

lemma eps_powers: "(1 + eps) ^ 19 \<le> 1 + 1 / 10 ^ 10 / 2" "1 - 1 / 10 ^ 10 / 2 \<le> (1 - eps) ^ 19"
  by (simp_all add: power_divide)

lemma ladder_near:
  assumes "0 < X" "s < 256" "\<And>m. m < 2 ^ 19 \<Longrightarrow> (1 + eps) ^ 19 * 2 ^ s * X ^ m \<le> 2 ^ 139"
    and "factors_ok (2 ^ s) lo up cs 0" "encloses lo up X" "length cs = 19" "n < 2 ^ 19"
  shows "near (2 ^ s) X 19 n (fold (mul_shift_if s (int n)) cs (2 ^ s))"
  using near_fold [OF assms(1-4), of n "2 ^ s"] assms(5-7) by (simp add: near_def)

lemma ladder_lengths: "length negative_ladder = 19" "length positive_ladder = 19"
  by (simp_all add: negative_ladder_def positive_ladder_def negative_table_def positive_table_def)

lemma tick_base_power_bound:
  assumes "m < 2 ^ 19"
  shows "tick_base ^ m \<le> 3 ^ 27"
proof -
  have "tick_base \<le> exp (1 / 20000)"
    using tick_base_bounds(2) exp_ge_add_one_self [of "1 / 20000 :: real"] by simp
  then have "tick_base ^ m \<le> exp (1 / 20000) ^ m" using tick_base_pos by (intro power_mono) auto
  also have "\<dots> = exp (real m * (1 / 20000))" by (simp add: exp_of_nat_mult [symmetric])
  also have "\<dots> \<le> exp 27"
  proof -
    have "real m \<le> 524288" using assms by simp
    then show ?thesis by simp
  qed
  also have "exp 27 = exp (1 :: real) ^ 27" by (simp add: exp_of_nat_mult [symmetric])
  also have "\<dots> \<le> 3 ^ 27" using exp_le by (intro power_mono) auto
  finally show ?thesis .
qed

lemma price_near_curve:
  assumes "\<bar>t\<bar> < 2 ^ 19"
  shows "(1 - 1 / 10 ^ 10) * curve t - 40 \<le> tickIndexToSqrtPriceX64 t"
    "tickIndexToSqrtPriceX64 t \<le> (1 + 1 / 10 ^ 10) * curve t"
proof -
  have "(1 - 1 / 10 ^ 10) * curve t - 40 \<le> tickIndexToSqrtPriceX64 t \<and>
    tickIndexToSqrtPriceX64 t \<le> (1 + 1 / 10 ^ 10) * curve t"
  proof (cases "0 < t")
    case True
    define n where "n = nat t"
    have t: "t = int n" "n < 2 ^ 19" using True assms by (auto simp: n_def)
    define r where "r = fold (mul_shift_if 96 t) positive_ladder (2 ^ 96)"
    have "(1 + eps) ^ 19 * 2 ^ 96 * tick_base ^ m \<le> 2 ^ 139" if "m < 2 ^ 19" for m
    proof -
      have "(1 + eps) ^ 19 * 2 ^ 96 * tick_base ^ m \<le> (11 / 10 * 2 ^ 96) * 3 ^ 27"
        by (intro mult_mono tick_base_power_bound that)
          (use tick_base_pos in \<open>simp_all add: power_divide\<close>)
      then show ?thesis by simp
    qed
    then have near: "near (2 ^ 96) tick_base 19 n r"
      unfolding r_def t(1) using tick_base_pos positive_ladder_ok encloses_base ladder_lengths t(2)
      by (intro ladder_near) auto
    have one: "1 \<le> tick_base ^ n" using tick_base_pos by (simp add: one_le_power)
    have bounds: "0 \<le> r" "((1 - eps) ^ 19 * 2 ^ 96 - 38) * tick_base ^ n \<le> r"
      "r \<le> (1 + eps) ^ 19 * 2 ^ 96 * tick_base ^ n"
      using near one by (auto simp: near_def max_def algebra_simps)
    note bounds(3)
    also have "(1 + eps) ^ 19 * 2 ^ 96 * tick_base ^ n \<le> (11 / 10 * 2 ^ 96) * 3 ^ 27"
      by (intro mult_mono tick_base_power_bound t(2))
        (use tick_base_pos in \<open>simp_all add: power_divide\<close>)
    finally have "real_of_int r \<le> real_of_int (2 ^ 150)" by simp
    then have "r \<le> 2 ^ 150" by (simp only: of_int_le_iff)
    then have "signedShiftRight r 32 256 = r div 2 ^ 32"
      using bounds(1) by (intro signedShiftRight_eq) auto
    then have f: "tickIndexToSqrtPriceX64 t = r div 2 ^ 32"
      using True unfolding tickIndexToSqrtPriceX64_def positive_as_fold r_def by (simp only: if_True)
    define V q where "V = tick_base ^ n" and "q = real_of_int (r div 2 ^ 32)"
    have q: "q \<le> r / 2 ^ 32" "r / 2 ^ 32 < q + 1"
      using int_div_real_bounds [of "2 ^ 32" r] by (simp_all add: q_def)
    have "(1 - 1 / 10 ^ 10) * 2 ^ 96 * V \<le> ((1 - eps) ^ 19 * 2 ^ 96 - 38) * V"
      using one eps_powers by (intro mult_right_mono) (simp_all add: V_def)
    with bounds(2) have lo: "(1 - 1 / 10 ^ 10) * 2 ^ 96 * V \<le> r" by (simp only: V_def)
    have "(1 + eps) ^ 19 * 2 ^ 96 * V \<le> (1 + 1 / 10 ^ 10) * 2 ^ 96 * V"
      using one eps_powers by (intro mult_right_mono) (simp_all add: V_def)
    with bounds(3) have hi: "r \<le> (1 + 1 / 10 ^ 10) * 2 ^ 96 * V" by (simp only: V_def)
    show ?thesis
      unfolding f q_def [symmetric] unfolding t(1) curve_nat V_def [symmetric] using q lo hi by simp
  next
    case False
    define n where "n = nat (- t)"
    have t: "t = - int n" "n < 2 ^ 19" "\<bar>t\<bar> = int n" using False assms by (auto simp: n_def)
    let ?X = "1 / tick_base"
    have X: "0 < ?X" "?X \<le> 1" using tick_base_pos by auto
    have le1: "?X ^ m \<le> 1" for m using X by (intro power_le_one) auto
    have "(1 + eps) ^ 19 * 2 ^ 64 * ?X ^ m \<le> 2 ^ 139" for m
      by (rule order_trans [OF mult_mono [OF mult_right_mono [OF eps_powers(1)] le1 [of m]]])
        (use X in simp_all)
    from ladder_near [OF X(1) _ this negative_ladder_ok encloses_inverse_base ladder_lengths(1) t(2)]
    have "near (2 ^ 64) ?X 19 n (tickIndexToSqrtPriceNegative t)"
      unfolding negative_as_fold t(3) by simp
    then have near: "near (2 ^ 64) ?X 19 n (tickIndexToSqrtPriceX64 t)"
      using False by (simp add: tickIndexToSqrtPriceX64_def)
    define V where "V = ?X ^ n"
    have V: "0 \<le> V" "max 1 V = 1" using X le1 [of n] by (simp_all add: V_def)
    have "(1 - 1 / 10 ^ 10) * 2 ^ 64 * V \<le> (1 - eps) ^ 19 * 2 ^ 64 * V"
      "(1 + eps) ^ 19 * 2 ^ 64 * V \<le> (1 + 1 / 10 ^ 10) * 2 ^ 64 * V"
      using V(1) eps_powers by (intro mult_right_mono; simp)+
    moreover have "(1 - eps) ^ 19 * 2 ^ 64 * V - 2 * real 19 * 1 \<le> tickIndexToSqrtPriceX64 t"
      "tickIndexToSqrtPriceX64 t \<le> (1 + eps) ^ 19 * 2 ^ 64 * V"
      using near V(2) unfolding near_def V_def by metis+
    ultimately have "(1 - 1 / 10 ^ 10) * 2 ^ 64 * V - 2 * real 19 * 1 \<le> tickIndexToSqrtPriceX64 t"
      "tickIndexToSqrtPriceX64 t \<le> (1 + 1 / 10 ^ 10) * 2 ^ 64 * V"
      by linarith+
    then show ?thesis
      unfolding t(1) curve_nat V_def [symmetric] by simp
  qed
  then show "(1 - 1 / 10 ^ 10) * curve t - 40 \<le> tickIndexToSqrtPriceX64 t"
    "tickIndexToSqrtPriceX64 t \<le> (1 + 1 / 10 ^ 10) * curve t" by auto
qed

subsection \<open>Increasing prices\<close>

text \<open>
  What the clients of the tick price use: it increases strictly, so that it preserves and
  reflects the order of ticks, and at most one tick interval holds a price.
\<close>

locale price_curve =
  fixes price :: "int \<Rightarrow> int" and lo hi :: int
  assumes price_step: "lo \<le> t \<Longrightarrow> t < hi \<Longrightarrow> price t < price (t + 1)"
begin

lemma price_less:
  assumes "lo \<le> s" "s < t" "t \<le> hi"
  shows "price s < price t"
  using assms(2,3)
proof (induction t rule: int_gr_induct)
  case base
  then show ?case using price_step [of s] assms(1) by simp
next
  case (step t)
  then show ?case using price_step [of t] assms(1) by (auto intro: less_trans)
qed

lemma price_less_iff:
  "lo \<le> s \<Longrightarrow> s \<le> hi \<Longrightarrow> lo \<le> t \<Longrightarrow> t \<le> hi \<Longrightarrow> price s < price t \<longleftrightarrow> s < t"
  using price_less [of s t] price_less [of t s] by (cases s t rule: linorder_cases) auto

lemma price_le_iff:
  "lo \<le> s \<Longrightarrow> s \<le> hi \<Longrightarrow> lo \<le> t \<Longrightarrow> t \<le> hi \<Longrightarrow> price s \<le> price t \<longleftrightarrow> s \<le> t"
  using price_less_iff [of t s] by auto

lemma price_inj: "inj_on price {lo..hi}"
  using price_le_iff by (intro inj_onI order_antisym) (metis atLeastAtMost_iff order_refl)+

lemma tick_interval_unique:
  assumes "lo \<le> s" "s < hi" "lo \<le> t" "t < hi"
    and "price s \<le> p" "p < price (s + 1)" "price t \<le> p" "p < price (t + 1)"
  shows "s = t"
proof (rule ccontr)
  assume "s \<noteq> t"
  then consider "s + 1 \<le> t" | "t + 1 \<le> s" by linarith
  then show False
    using price_le_iff [of "s + 1" t] price_le_iff [of "t + 1" s] assms by cases auto
qed

end

lemma price_at_ends:
  "tickIndexToSqrtPriceX64 MIN_TICK_INDEX = MIN_SQRT_PRICE"
  "tickIndexToSqrtPriceX64 MAX_TICK_INDEX = MAX_SQRT_PRICE"
  "tickIndexToSqrtPriceX64 (- 524287) = 76162531"
  by code_simp+

lemma curve_mono: "s \<le> t \<Longrightarrow> curve s \<le> curve t"
  using tick_base_pos by (simp add: curve_def powr_mono)

lemma curve_Suc: "curve (t + 1) = curve t * tick_base"
  using tick_base_pos curve_add [of t 1] by simp

lemma curve_lower:
  "- (2 ^ 19) < t \<Longrightarrow> 7 * 10 ^ 7 \<le> curve t"
  "MIN_TICK_INDEX \<le> t \<Longrightarrow> 4295048015 \<le> curve t"
proof -
  assume "- (2 ^ 19) < t"
  then have "curve (- 524287) \<le> curve t" by (intro curve_mono) simp
  moreover have "7 * 10 ^ 7 \<le> curve (- 524287)"
    using price_near_curve(2) [of "- 524287"] by (simp add: price_at_ends)
  ultimately show "7 * 10 ^ 7 \<le> curve t" by simp
next
  assume "MIN_TICK_INDEX \<le> t"
  then have "curve MIN_TICK_INDEX \<le> curve t" by (rule curve_mono)
  moreover have "4295048015 \<le> curve MIN_TICK_INDEX"
    using price_near_curve(2) [of MIN_TICK_INDEX] unfolding price_at_ends
    by (simp add: MIN_TICK_INDEX_def MIN_SQRT_PRICE_def)
  ultimately show "4295048015 \<le> curve t" by simp
qed

interpretation tick_price: price_curve tickIndexToSqrtPriceX64 "- 524287" 524287
proof unfold_locales
  fix t :: int
  assume t: "- 524287 \<le> t" "t < 524287"
  have V: "7 * 10 ^ 7 \<le> curve t" using t(1) by (intro curve_lower) simp
  have "(1 - 1 / 10 ^ 10) * (curve t * 1.00004999) \<le> (1 - 1 / 10 ^ 10) * (curve t * tick_base)"
    using tick_base_bounds curve_pos [of t] by (intro mult_left_mono) auto
  then have "(1 - 1 / 10 ^ 10) * (curve t * 1.00004999) - 40 \<le> tickIndexToSqrtPriceX64 (t + 1)"
    using order_trans [OF diff_right_mono price_near_curve(1) [of "t + 1"]] t
    unfolding curve_Suc by (simp add: abs_less_iff)
  moreover have "tickIndexToSqrtPriceX64 t \<le> (1 + 1 / 10 ^ 10) * curve t"
    using price_near_curve(2) [of t] t by simp
  moreover have "(1 + 1 / 10 ^ 10) * curve t < (1 - 1 / 10 ^ 10) * (curve t * 1.00004999) - 40"
    using V by simp
  ultimately have "real_of_int (tickIndexToSqrtPriceX64 t) < real_of_int (tickIndexToSqrtPriceX64 (t + 1))"
    by linarith
  then show "tickIndexToSqrtPriceX64 t < tickIndexToSqrtPriceX64 (t + 1)" by simp
qed

lemma price_in_bounds:
  assumes "checkTickInBounds t"
  shows "MIN_SQRT_PRICE \<le> tickIndexToSqrtPriceX64 t" "tickIndexToSqrtPriceX64 t \<le> MAX_SQRT_PRICE"
  using assms tick_price.price_le_iff [of MIN_TICK_INDEX t] tick_price.price_le_iff [of t MAX_TICK_INDEX]
  by (auto simp: price_at_ends checkTickInBounds_def MIN_TICK_INDEX_def MAX_TICK_INDEX_def
      simp flip: price_at_ends)

end
