(* ===== verification/Price_Inverse.thy ===== *)
theory Price_Inverse
  imports Price_Curve
begin

text \<open>
  The tick of a price. \<open>sqrtPriceX64ToTickIndex\<close> computes fourteen bits of the binary
  logarithm of the price by repeated squaring, converts it to a logarithm to the base
  \<open>tick_base\<close> and rounds it down with a margin on both sides; when the two roundings
  differ it compares the price of the upper tick. The lemmas bound each error (the
  truncated squarings, the missing bits, the constant \<open>LOG_B_2_X32\<close>) and show that the
  margins cover them, so that the result is the exact inverse of the tick price.
\<close>

subsection \<open>The binary logarithm\<close>

lemma log2_truncation:
  assumes "2 ^ 63 \<le> (r :: int)" "r \<le> (y :: real)" "y < r + 1"
  shows "log 2 (r / 2 ^ 63) \<le> log 2 (y / 2 ^ 63)"
    "log 2 (y / 2 ^ 63) < log 2 (r / 2 ^ 63) + 1 / 2 ^ 62"
proof -
  have "real_of_int (2 ^ 63) \<le> r" using assms(1) by (simp only: of_int_le_iff)
  then have r: "0 < real_of_int r" "1 / r \<le> 1 / 2 ^ 63" by (auto simp: field_simps)
  then have "0 < y" using assms(2) by linarith
  then show "log 2 (r / 2 ^ 63) \<le> log 2 (y / 2 ^ 63)"
    using r assms(2) by (simp add: log_le_cancel_iff field_simps)
  have "log 2 (y / 2 ^ 63) - log 2 (r / 2 ^ 63) = ln (y / r) / ln 2"
    using r \<open>0 < y\<close> by (simp add: log_divide) (simp add: log_def ln_div diff_divide_distrib)
  also have "\<dots> < (1 / 2 ^ 63) / ln 2"
  proof (rule divide_strict_right_mono)
    have "y / r = 1 + (y - r) / r" using r by (simp add: field_simps)
    then have "ln (y / r) \<le> (y - r) / r"
      using ln_add_one_self_le_self [of "(y - r) / r"] r assms(2) by simp
    also have "\<dots> < 1 / r" using r assms(3) by (intro divide_strict_right_mono) auto
    finally show "ln (y / r) < 1 / 2 ^ 63" using r(2) by linarith
  qed simp
  also have "\<dots> \<le> (1 / 2 ^ 63) / (1 / 2)"
  proof (rule divide_left_mono)
    show "1 / 2 \<le> ln (2 :: real)" using ln_le_minus_one [of "1 / 2 :: real"] by (simp add: ln_div)
  qed auto
  finally show "log 2 (y / 2 ^ 63) < log 2 (r / 2 ^ 63) + 1 / 2 ^ 62" by simp
qed

text \<open>One iteration: the next bit of the logarithm, and the remainder of the squared ratio.\<close>

lemma log2_squaring:
  fixes r :: int
  assumes "2 ^ 63 \<le> r" "r < 2 ^ 64"
  defines "mb \<equiv> r * r div 2 ^ 127"
  defines "r' \<equiv> r * r div 2 ^ nat (63 + mb)"
  shows "mb = 0 \<or> mb = 1" "2 ^ 63 \<le> r'" "r' < 2 ^ 64"
    "mb + log 2 (r' / 2 ^ 63) \<le> 2 * log 2 (r / 2 ^ 63)"
    "2 * log 2 (r / 2 ^ 63) < mb + log 2 (r' / 2 ^ 63) + 1 / 2 ^ 62"
proof -
  have sq: "2 ^ 126 \<le> r * r" "r * r < 2 ^ 128"
    using mult_mono [of "2 ^ 63" r "2 ^ 63" r] mult_strict_mono [of r "2 ^ 64" r "2 ^ 64"] assms(1,2)
    by auto
  have "mb < 2" "0 \<le> mb" using le_div_iff_int [of "2 ^ 127" 2 "r * r"] sq
    by (auto simp: mb_def pos_imp_zdiv_nonneg_iff)
  then show mb: "mb = 0 \<or> mb = 1" by auto
  have mb_sq: "if mb = 0 then r * r < 2 ^ 127 else 2 ^ 127 \<le> r * r"
    using le_div_iff_int [of "2 ^ 127" 1 "r * r"] mb by (auto simp: mb_def)
  have e: "nat (63 + mb) = 63 + nat mb" using mb by auto
  have pow: "(2 :: real) ^ nat (63 + mb) = 2 ^ 63 * 2 ^ nat mb" by (simp add: e power_add)
  show r': "2 ^ 63 \<le> r'" "r' < 2 ^ 64"
    using le_div_iff_int [of "2 ^ nat (63 + mb)" "2 ^ 63" "r * r"]
      le_div_iff_int [of "2 ^ nat (63 + mb)" "2 ^ 64" "r * r"] mb mb_sq sq
    by (auto simp: r'_def)
  define y where "y = real_of_int (r * r) / 2 ^ nat (63 + mb)"
  have y: "r' \<le> y" "y < r' + 1"
    using int_div_real_bounds [of "2 ^ nat (63 + mb)" "r * r"] by (simp_all add: r'_def y_def)
  have pos: "0 < real_of_int r" using assms(1) by simp
  define a where "a = r / 2 ^ 63"
  have "0 < a" using pos by (simp add: a_def)
  have "y / 2 ^ 63 = a * a / 2 ^ nat mb"
    by (simp add: y_def pow a_def)
  then have "log 2 (y / 2 ^ 63) = log 2 a + log 2 a - log 2 (2 ^ nat mb)"
    using \<open>0 < a\<close> by (simp add: log_mult log_divide)
  moreover have "log 2 (2 ^ nat mb) = real_of_int mb" using mb by auto
  ultimately have "2 * log 2 (r / 2 ^ 63) = mb + log 2 (y / 2 ^ 63)" by (simp add: a_def)
  with log2_truncation [OF r'(1) y]
  show "mb + log 2 (r' / 2 ^ 63) \<le> 2 * log 2 (r / 2 ^ 63)"
    "2 * log 2 (r / 2 ^ 63) < mb + log 2 (r' / 2 ^ 63) + 1 / 2 ^ 62" by auto
qed

text \<open>The loop with \<open>k\<close> iterations to go.\<close>

lemma log2p_loop_bounds:
  fixes r :: int
  assumes "k \<le> 14" "2 ^ 63 \<le> r" "r < 2 ^ 64"
  shows "\<exists>d. log2p_loop (2 ^ (49 + k)) (14 - int k) f r = f + d \<and> 0 \<le> d \<and>
    real_of_int d \<le> log 2 (r / 2 ^ 63) * 2 ^ (50 + k) \<and>
    log 2 (r / 2 ^ 63) * 2 ^ (50 + k) < d + 2 ^ 50 + 2 ^ (49 + k) / 2 ^ 60"
  using assms
proof (induction k arbitrary: r f)
  case 0
  have "real_of_int (2 ^ 63) \<le> r" "r < real_of_int (2 ^ 64)"
    using 0(2,3) by (simp_all only: of_int_le_iff of_int_less_iff)
  then have "1 \<le> r / 2 ^ 63" "r / 2 ^ 63 < 2" by simp_all
  then have "0 \<le> log 2 (r / 2 ^ 63)" "log 2 (r / 2 ^ 63) < 1" by auto
  then show ?case by (intro exI [of _ 0]) (simp add: log2p_loop.simps BIT_PRECISION_def)
next
  case (Suc k)
  define mb r' where "mb = r * r div 2 ^ 127" and "r' = r * r div 2 ^ nat (63 + mb)"
  note sq = log2_squaring [OF Suc.prems(2,3), folded mb_def, folded r'_def]
  let ?x = "log 2 (r / 2 ^ 63)" and ?x' = "log 2 (r' / 2 ^ 63)"
  from Suc.IH [OF _ sq(2,3), of "f + 2 ^ (50 + k) * mb"] Suc.prems(1) obtain d where
    d: "log2p_loop (2 ^ (49 + k)) (14 - int k) (f + 2 ^ (50 + k) * mb) r' = f + 2 ^ (50 + k) * mb + d"
    "0 \<le> d" "real_of_int d \<le> ?x' * 2 ^ (50 + k)"
    "?x' * 2 ^ (50 + k) < d + 2 ^ 50 + 2 ^ (49 + k) / 2 ^ 60"
    by auto
  have half: "2 ^ (50 + k) div 2 = (2 :: int) ^ (49 + k)" by (simp add: power_add)
  have "log2p_loop (2 ^ (49 + Suc k)) (14 - int (Suc k)) f r
      = log2p_loop (2 ^ (49 + k)) (14 - int k) (f + 2 ^ (50 + k) * mb) r'"
    using Suc.prems(1) half
    by (subst log2p_loop.simps) (simp add: BIT_PRECISION_def Let_def mb_def r'_def del: power_Suc)
  with d(1) have loop: "log2p_loop (2 ^ (49 + Suc k)) (14 - int (Suc k)) f r
      = f + (2 ^ (50 + k) * mb + d)" by simp
  have "(mb + ?x') * 2 ^ (50 + k) \<le> (2 * ?x) * 2 ^ (50 + k)"
    using sq(4) by (intro mult_right_mono) auto
  moreover have "(2 * ?x) * 2 ^ (50 + k) < (mb + ?x' + 1 / 2 ^ 62) * 2 ^ (50 + k)"
    using sq(5) by (intro mult_strict_right_mono) auto
  ultimately show ?case
    using d(2-4) sq(1) by (intro exI [of _ "2 ^ (50 + k) * mb + d"] conjI loop)
      (auto simp: power_add algebra_simps)
qed

text \<open>The logarithm of the price, in 32 fraction bits.\<close>

lemma msb_bounds:
  assumes "MIN_SQRT_PRICE \<le> p" "p \<le> MAX_SQRT_PRICE"
  defines "msb \<equiv> bitlen p - 1"
  shows "2 ^ nat msb \<le> p" "p < 2 ^ (nat msb + 1)" "32 \<le> msb" "msb < 96"
proof -
  have p: "2 ^ 32 \<le> p" "p < 2 ^ 96" using assms(1,2) by (simp_all add: MIN_SQRT_PRICE_def MAX_SQRT_PRICE_def)
  have b: "\<not> bitlen p \<le> 32" "bitlen p \<le> 96" using p by (auto simp: bitlen_le_iff_power)
  then show "32 \<le> msb" "msb < 96" by (auto simp: msb_def)
  then have "nat (bitlen p) = nat msb + 1" by (simp add: msb_def)
  with bitlen_bounds [of p] p show "2 ^ nat msb \<le> p" "p < 2 ^ (nat msb + 1)"
    by (simp_all add: msb_def)
qed

lemma normalized_price:
  assumes "MIN_SQRT_PRICE \<le> p" "p \<le> MAX_SQRT_PRICE"
  defines "msb \<equiv> bitlen p - 1"
  defines "r \<equiv> (if msb \<ge> 64 then p div 2 ^ nat (msb - 63) else p * 2 ^ nat (63 - msb))"
  shows "(2 :: int) ^ 63 \<le> r" "r < (2 :: int) ^ 64"
    "log 2 (r / 2 ^ 63) \<le> log 2 (p / 2 ^ 64) - (real_of_int msb - 64)"
    "log 2 (p / 2 ^ 64) - (real_of_int msb - 64) < log 2 (r / 2 ^ 63) + 1 / 2 ^ 62"
proof -
  note m = msb_bounds [OF assms(1,2), folded msb_def]
  define n where "n = nat msb"
  have n: "msb = int n" "32 \<le> n" "n < 96" using m(3,4) by (auto simp: n_def)
  define y where "y = real_of_int p / 2 ^ n * 2 ^ 63"
  have r: "(2 :: int) ^ 63 \<le> r \<and> r < (2 :: int) ^ 64 \<and> r \<le> y \<and> y < r + 1"
  proof (cases "msb \<ge> 64")
    case True
    define k where "k = nat (msb - 63)"
    have k: "n = 63 + k" using True by (simp add: k_def n_def)
    have "2 ^ 63 \<le> p div 2 ^ k" "\<not> 2 ^ 64 \<le> p div 2 ^ k"
      using m(1,2) by (simp_all add: le_div_iff_int n_def [symmetric] k power_add)
    moreover have "r = p div 2 ^ k" using True by (simp add: r_def k_def)
    ultimately show ?thesis
      using int_div_real_bounds [of "2 ^ k" p] by (simp add: y_def k power_add)
  next
    case False
    define k where "k = nat (63 - msb)"
    have k: "n + k = 63" "n + 1 + k = 64" using False n by (simp_all add: k_def)
    have e: "(2 :: int) ^ 63 = 2 ^ n * 2 ^ k" "(2 :: real) ^ 63 = 2 ^ n * 2 ^ k"
      "(2 :: int) ^ 64 = 2 ^ (n + 1) * 2 ^ k"
      by (simp_all only: power_add [symmetric] k)
    have rp: "r = p * 2 ^ k" using False by (simp add: r_def k_def)
    have "2 ^ n * 2 ^ k \<le> p * 2 ^ k" "p * 2 ^ k < 2 ^ (n + 1) * 2 ^ k"
      using m(1,2) by (simp_all add: n_def)
    moreover have "y = real_of_int r" unfolding y_def e(2) rp by simp
    ultimately show ?thesis unfolding e rp by simp
  qed
  then show "(2 :: int) ^ 63 \<le> r" "r < (2 :: int) ^ 64" by auto
  have "0 < p" using assms(1) by (simp add: MIN_SQRT_PRICE_def)
  then have eq: "log 2 (y / 2 ^ 63) = log 2 (p / 2 ^ 64) - (real_of_int msb - 64)"
    using log_pow_cancel [of 2 64] by (simp add: y_def log_divide n(1) log_nat_power)
  have "(2 :: int) ^ 63 \<le> r" "real_of_int r \<le> y" "y < real_of_int (r + 1)" using r by auto
  note log2_truncation [OF this]
  from this show "log 2 (r / 2 ^ 63) \<le> log 2 (p / 2 ^ 64) - (real_of_int msb - 64)"
    "log 2 (p / 2 ^ 64) - (real_of_int msb - 64) < log 2 (r / 2 ^ 63) + 1 / 2 ^ 62"
    by (simp_all only: eq)
qed

lemma log2p_X32_bounds:
  assumes "MIN_SQRT_PRICE \<le> p" "p \<le> MAX_SQRT_PRICE"
  defines "msb \<equiv> bitlen p - 1"
  defines "r \<equiv> (if msb \<ge> 64 then p div 2 ^ nat (msb - 63) else p * 2 ^ nat (63 - msb))"
  defines "G \<equiv> signedShiftLeft (msb - 64) 32 128 + log2p_loop (2 ^ 63) 0 0 r div 2 ^ 32"
  shows "\<bar>G\<bar> \<le> 33 * 2 ^ 32" "G / 2 ^ 32 \<le> log 2 (p / 2 ^ 64)"
    "log 2 (p / 2 ^ 64) < G / 2 ^ 32 + 1 / 2 ^ 14 + 1 / 2 ^ 31"
proof -
  note m = msb_bounds [OF assms(1,2), folded msb_def]
  note norm = normalized_price [OF assms(1,2), folded msb_def, folded r_def]
  let ?x = "log 2 (r / 2 ^ 63)"
  define F where "F = log2p_loop (2 ^ 63) 0 0 r"
  from log2p_loop_bounds [of 14 r 0] norm(1,2) have F: "0 \<le> F" "real_of_int F \<le> ?x * 2 ^ 64"
    "?x * 2 ^ 64 < F + 2 ^ 50 + 2 ^ 63 / 2 ^ 60" by (auto simp: F_def)
  have "real_of_int r < real_of_int (2 ^ 64)" using norm(2) by (simp only: of_int_less_iff)
  then have "r / 2 ^ 63 < 2" by simp
  moreover have "0 < real_of_int r" using norm(1) by simp
  ultimately have "?x < 1" by simp
  with F(2) have "real_of_int F < real_of_int (2 ^ 64)" by simp
  then have "F < 2 ^ 64" by (simp only: of_int_less_iff)
  then have D: "0 \<le> F div 2 ^ 32" "F div 2 ^ 32 < 2 ^ 32"
    using F(1) le_div_iff_int [of "2 ^ 32" "2 ^ 32" F] by (auto simp: pos_imp_zdiv_nonneg_iff)
  have Dr: "real_of_int (F div 2 ^ 32) \<le> F / 2 ^ 32" "F / 2 ^ 32 < real_of_int (F div 2 ^ 32) + 1"
    using int_div_real_bounds [of "2 ^ 32" F] by simp_all
  have G: "G = (msb - 64) * 2 ^ 32 + F div 2 ^ 32"
    using m(3,4) by (simp add: G_def F_def signedShiftLeft_eq)
  show "\<bar>G\<bar> \<le> 33 * 2 ^ 32" using D m(3,4) by (simp add: G abs_le_iff)
  have "G / 2 ^ 32 = (msb - 64) + (F div 2 ^ 32) / 2 ^ 32" by (simp add: G add_divide_distrib)
  with Dr F norm(3,4)
  show "G / 2 ^ 32 \<le> log 2 (p / 2 ^ 64)" "log 2 (p / 2 ^ 64) < G / 2 ^ 32 + 1 / 2 ^ 14 + 1 / 2 ^ 31"
    by (simp_all add: field_simps)
qed

subsection \<open>The base of the ticks\<close>

lemma ln_base_bounds: "49995 / 10 ^ 9 \<le> ln tick_base" "ln tick_base \<le> 1 / 20000"
proof -
  have "ln tick_base + ln tick_base = ln (1 + 1 / 10000)"
    using tick_base_pos ln_mult [of tick_base tick_base]
    by (subst (asm) tick_base_bounds(3)) simp
  moreover have "(1 / 10000 :: real) - (1 / 10000)\<^sup>2 \<le> ln (1 + 1 / 10000)"
    by (rule ln_one_plus_pos_lower_bound) auto
  moreover have "ln (1 + 1 / 10000 :: real) \<le> 1 / 10000"
    by (rule ln_add_one_self_le_self) simp
  ultimately show "49995 / 10 ^ 9 \<le> ln tick_base" "ln tick_base \<le> 1 / 20000"
    by (simp_all add: power2_eq_square)
qed

text \<open>\<open>LOG_B_2_X32\<close> is the logarithm of two to this base, to four decimal places.\<close>

definition log_b_2 :: real where "log_b_2 = ln 2 / ln tick_base"

lemma log_b_2_bounds:
  "LOG_B_2_X32 / 2 ^ 32 - 1 / 20000 \<le> log_b_2" "log_b_2 \<le> LOG_B_2_X32 / 2 ^ 32 + 1 / 20000"
proof -
  have f: "tickIndexToSqrtPriceX64 13863 = 36892313634263738403" by code_simp
  let ?V = "tick_base powr 13863"
  have V: "36892313634263738403 \<le> (1 + 1 / 10 ^ 10) * (2 ^ 64 * ?V)"
    "(1 - 1 / 10 ^ 10) * (2 ^ 64 * ?V) - 40 \<le> 36892313634263738403"
    using price_near_curve [of 13863] by (simp_all add: f curve_def)
  have split: "tick_base powr (13863 + y) = ?V * exp (y * ln tick_base)" for y
    using tick_base_pos by (simp add: powr_def exp_add [symmetric] distrib_right)
  have pos: "0 < ln tick_base" using ln_base_bounds(1) by simp
  define d where "d = LOG_B_2_X32 / 2 ^ 32 - 13863"
  have d: "636 / 1000 \<le> d" "d \<le> 637 / 1000" by (simp_all add: d_def LOG_B_2_X32_def)
  have "2 \<le> tick_base powr (13863 + (d + 1 / 20000))"
  proof -
    have "(d + 1 / 20000) * (49995 / 10 ^ 9) \<le> (d + 1 / 20000) * ln tick_base"
      using ln_base_bounds(1) d by (intro mult_left_mono) auto
    then have "1 + (d + 1 / 20000) * (49995 / 10 ^ 9) \<le> exp ((d + 1 / 20000) * ln tick_base)"
      using exp_ge_add_one_self [of "(d + 1 / 20000) * ln tick_base"] by linarith
    then have "?V * (1 + (d + 1 / 20000) * (49995 / 10 ^ 9)) \<le> tick_base powr (13863 + (d + 1 / 20000))"
      unfolding split by (intro mult_left_mono) auto
    moreover have "2 \<le> ?V * (1 + (d + 1 / 20000) * (49995 / 10 ^ 9))"
      using V(1) by (simp add: d_def LOG_B_2_X32_def)
    ultimately show ?thesis by linarith
  qed
  then have "ln 2 \<le> ln (tick_base powr (13863 + (d + 1 / 20000)))"
    using tick_base_pos by (subst ln_le_cancel_iff) auto
  then show "log_b_2 \<le> LOG_B_2_X32 / 2 ^ 32 + 1 / 20000"
    using pos tick_base_pos by (simp add: log_b_2_def d_def ln_powr divide_le_eq add.commute)
  have "tick_base powr (13863 + (d - 1 / 20000)) \<le> 2"
  proof -
    let ?w = "(d - 1 / 20000) * (1 / 20000)"
    have "exp ((d - 1 / 20000) * ln tick_base) \<le> exp ?w"
      using ln_base_bounds(2) d by (simp add: mult_left_mono)
    also have "\<dots> \<le> 1 + ?w + ?w\<^sup>2"
      by (rule exp_bound) (simp_all add: d_def LOG_B_2_X32_def)
    finally have "tick_base powr (13863 + (d - 1 / 20000)) \<le> ?V * (1 + ?w + ?w\<^sup>2)"
      unfolding split by (intro mult_left_mono) auto
    also have "\<dots> \<le> 2"
      using V(2) by (simp add: d_def LOG_B_2_X32_def power2_eq_square)
    finally show ?thesis .
  qed
  then have "ln (tick_base powr (13863 + (d - 1 / 20000))) \<le> ln 2"
    using tick_base_pos by (subst ln_le_cancel_iff) auto
  then show "LOG_B_2_X32 / 2 ^ 32 - 1 / 20000 \<le> log_b_2"
    using pos tick_base_pos by (simp add: log_b_2_def d_def ln_powr le_divide_eq)
qed

subsection \<open>The margins cover the errors\<close>

text \<open>The exact position of a price among the ticks.\<close>

definition tick_pos :: "int \<Rightarrow> real" where
  "tick_pos p = log 2 (p / 2 ^ 64) * log_b_2"

lemma tick_pos_price:
  assumes "0 < p"
  shows "2 ^ 64 * tick_base powr tick_pos p = real_of_int p"
proof -
  have "0 < ln tick_base" using ln_base_bounds(1) by simp
  then have "tick_pos p * ln tick_base = ln (p / 2 ^ 64)"
    by (simp add: tick_pos_def log_b_2_def log_def)
  then have "tick_base powr tick_pos p = p / 2 ^ 64"
    using assms tick_base_pos by (simp add: powr_def)
  then show ?thesis by simp
qed

lemma tick_pos_estimates:
  assumes "\<bar>G\<bar> \<le> 33 * 2 ^ 32" "G / 2 ^ 32 \<le> log 2 (p / 2 ^ 64)"
    "log 2 (p / 2 ^ 64) < G / 2 ^ 32 + 1 / 2 ^ 14 + 1 / 2 ^ 31"
  shows "(G * LOG_B_2_X32) / 2 ^ 64 - 1 / 100 + 6 / 1000 \<le> tick_pos p"
    "tick_pos p + 5 / 1000 \<le> (G * LOG_B_2_X32) / 2 ^ 64 + 85616 / 100000"
proof -
  define g K where "g = real_of_int G / 2 ^ 32" and "K = LOG_B_2_X32 / 2 ^ 32"
  have K: "K - 1 / 20000 \<le> log_b_2" "log_b_2 \<le> K + 1 / 20000" "0 \<le> log_b_2" "K < 13864"
    using log_b_2_bounds by (simp_all add: K_def LOG_B_2_X32_def)
  have "\<bar>real_of_int G\<bar> \<le> real_of_int (33 * 2 ^ 32)"
    using assms(1) by (simp only: of_int_abs [symmetric] of_int_le_iff)
  then have g: "\<bar>g\<bar> \<le> 33" by (simp add: g_def abs_le_iff)
  have gK: "(G * LOG_B_2_X32) / 2 ^ 64 = g * K" by (simp add: g_def K_def)
  have "\<bar>log_b_2 - K\<bar> \<le> 1 / 20000" using K by (simp only: abs_le_iff) linarith
  with g have "\<bar>g * (log_b_2 - K)\<bar> \<le> 33 * (1 / 20000)"
    unfolding abs_mult by (intro mult_mono) auto
  then have "g * (log_b_2 - K) \<le> 33 / 20000" "- (33 / 20000) \<le> g * (log_b_2 - K)"
    by (simp_all only: abs_le_iff) linarith+
  then have err: "g * K - 33 / 20000 \<le> g * log_b_2" "g * log_b_2 \<le> g * K + 33 / 20000"
    by (simp_all add: algebra_simps)
  have "g * log_b_2 \<le> tick_pos p"
    using assms(2) K(3) unfolding tick_pos_def g_def by (rule mult_right_mono)
  with err show "(G * LOG_B_2_X32) / 2 ^ 64 - 1 / 100 + 6 / 1000 \<le> tick_pos p"
    unfolding gK by simp
  have "tick_pos p \<le> (g + 1 / 2 ^ 14 + 1 / 2 ^ 31) * log_b_2"
    using assms(3) K(3) unfolding tick_pos_def g_def by (intro mult_right_mono) auto
  also have "\<dots> = g * log_b_2 + (1 / 2 ^ 14 + 1 / 2 ^ 31) * log_b_2" by (simp add: algebra_simps)
  also have "(1 / 2 ^ 14 + 1 / 2 ^ 31) * log_b_2 \<le> (1 / 2 ^ 14 + 1 / 2 ^ 31) * (K + 1 / 20000)"
    using K(2) by (intro mult_left_mono) auto
  also have "\<dots> \<le> 84619 / 100000" by (simp add: K_def LOG_B_2_X32_def)
  finally show "tick_pos p + 5 / 1000 \<le> (G * LOG_B_2_X32) / 2 ^ 64 + 85616 / 100000"
    using err unfolding gK by simp
qed

lemma powr_gap: "1 + 24 / 10 ^ 8 \<le> tick_base powr (5 / 1000)"
proof -
  have "1 + 24 / 10 ^ 8 \<le> 1 + (5 / 1000) * ln tick_base" using ln_base_bounds(1) by simp
  also have "\<dots> \<le> exp ((5 / 1000) * ln tick_base)" by (rule exp_ge_add_one_self)
  finally show ?thesis using tick_base_pos by (simp add: powr_def)
qed

text \<open>A tick half a hundredth below the position has a price below; one as far above, a price above.\<close>

lemma price_below:
  assumes "MIN_SQRT_PRICE \<le> p" "t + 5 / 1000 \<le> tick_pos p" "\<bar>t\<bar> < 2 ^ 19"
  shows "tickIndexToSqrtPriceX64 t \<le> p"
proof -
  have p: "0 < p" using assms(1) by (simp add: MIN_SQRT_PRICE_def)
  have "curve t * (1 + 24 / 10 ^ 8) \<le> curve t * tick_base powr (5 / 1000)"
    using powr_gap curve_pos [of t] by (intro mult_left_mono) auto
  also have "\<dots> = 2 ^ 64 * tick_base powr (t + 5 / 1000)" by (simp add: curve_def powr_add)
  also have "\<dots> \<le> 2 ^ 64 * tick_base powr tick_pos p"
    using assms(2) tick_base_pos by (intro mult_left_mono powr_mono) auto
  finally have "curve t * (1 + 24 / 10 ^ 8) \<le> p" by (simp only: tick_pos_price [OF p])
  moreover have "tickIndexToSqrtPriceX64 t \<le> (1 + 1 / 10 ^ 10) * curve t"
    by (rule price_near_curve) fact
  ultimately have "real_of_int (tickIndexToSqrtPriceX64 t) \<le> p" using curve_pos [of t] by simp
  then show ?thesis by simp
qed

lemma price_above:
  assumes "MIN_SQRT_PRICE \<le> p" "tick_pos p + 5 / 1000 \<le> t" "\<bar>t\<bar> < 2 ^ 19"
  shows "p < tickIndexToSqrtPriceX64 t"
proof -
  have p: "0 < p" using assms(1) by (simp add: MIN_SQRT_PRICE_def)
  have p': "4295048016 \<le> real_of_int p" using assms(1) by (simp add: MIN_SQRT_PRICE_def)
  have "p * (1 + 24 / 10 ^ 8) \<le> p * tick_base powr (5 / 1000)"
    using powr_gap p by (intro mult_left_mono) auto
  also have "\<dots> = 2 ^ 64 * tick_base powr (tick_pos p + 5 / 1000)"
    by (simp add: powr_add tick_pos_price [OF p, symmetric])
  also have "\<dots> \<le> curve t"
    unfolding curve_def using assms(2) tick_base_pos by (intro mult_left_mono powr_mono) auto
  finally have "p * (1 + 24 / 10 ^ 8) \<le> curve t" .
  moreover have "(1 - 1 / 10 ^ 10) * curve t - 40 \<le> tickIndexToSqrtPriceX64 t"
    by (rule price_near_curve) fact
  ultimately have "real_of_int p < tickIndexToSqrtPriceX64 t" using p' by simp
  then show ?thesis by simp
qed

text \<open>Rounding the scaled logarithm down with the two margins.\<close>

lemma margins:
  fixes L :: int
  assumes "\<bar>L\<bar> \<le> 33 * 2 ^ 32 * LOG_B_2_X32"
  defines "low \<equiv> signedShiftRight (L - LOG_B_P_ERR_MARGIN_LOWER_X64) 64 128"
    and "high \<equiv> signedShiftRight (L + LOG_B_P_ERR_MARGIN_UPPER_X64) 64 128"
  shows "real_of_int low \<le> L / 2 ^ 64 - 1 / 100 + 1 / 10 ^ 15"
    "L / 2 ^ 64 + 85616 / 100000 < real_of_int (high + 1)"
    "low \<le> high" "high \<le> low + 1" "- 500000 < low" "high < 500000"
proof -
  have L: "\<bar>L\<bar> \<le> 33 * 2 ^ 32 * 59543866431248" using assms(1) by (simp add: LOG_B_2_X32_def)
  then have L': "L \<le> 33 * 2 ^ 32 * 59543866431248" "- (33 * 2 ^ 32 * 59543866431248) \<le> L"
    by (auto simp: abs_le_iff)
  have low: "low = (L - LOG_B_P_ERR_MARGIN_LOWER_X64) div 2 ^ 64"
    and high: "high = (L + LOG_B_P_ERR_MARGIN_UPPER_X64) div 2 ^ 64"
    using L' by (simp_all add: low_def high_def signedShiftRight_eq
        LOG_B_P_ERR_MARGIN_LOWER_X64_def LOG_B_P_ERR_MARGIN_UPPER_X64_def)
  show "real_of_int low \<le> L / 2 ^ 64 - 1 / 100 + 1 / 10 ^ 15"
    using int_div_real_bounds(1) [of "2 ^ 64" "L - LOG_B_P_ERR_MARGIN_LOWER_X64"]
    by (simp add: low LOG_B_P_ERR_MARGIN_LOWER_X64_def field_simps)
  show "L / 2 ^ 64 + 85616 / 100000 < real_of_int (high + 1)"
    using int_div_real_bounds(2) [of "2 ^ 64" "L + LOG_B_P_ERR_MARGIN_UPPER_X64"]
    by (simp add: high LOG_B_P_ERR_MARGIN_UPPER_X64_def field_simps)
  show "low \<le> high"
    unfolding low high
    by (rule zdiv_mono1) (simp_all add: LOG_B_P_ERR_MARGIN_LOWER_X64_def LOG_B_P_ERR_MARGIN_UPPER_X64_def)
  have "(L + LOG_B_P_ERR_MARGIN_UPPER_X64) div 2 ^ 64
      \<le> (L - LOG_B_P_ERR_MARGIN_LOWER_X64 + 2 ^ 64) div 2 ^ 64"
    by (rule zdiv_mono1) (simp_all add: LOG_B_P_ERR_MARGIN_LOWER_X64_def LOG_B_P_ERR_MARGIN_UPPER_X64_def)
  then show "high \<le> low + 1" unfolding low high by simp
  show "- 500000 < low"
    using le_div_iff_int [of "2 ^ 64" "- 499999" "L - LOG_B_P_ERR_MARGIN_LOWER_X64"] L'
    by (simp add: low LOG_B_P_ERR_MARGIN_LOWER_X64_def)
  show "high < 500000"
    using le_div_iff_int [of "2 ^ 64" 500000 "L + LOG_B_P_ERR_MARGIN_UPPER_X64"] L'
    by (simp add: high LOG_B_P_ERR_MARGIN_UPPER_X64_def)
qed

text \<open>
  The result of \<open>sqrtPriceX64ToTickIndex\<close>: the tick whose price interval holds the price. Its
  definition is cut in two at the scaled logarithm.
\<close>

definition scaled_log :: "int \<Rightarrow> int" where
  "scaled_log p =
     (let msb = bitlen p - 1;
          r = (if msb \<ge> 64 then p div 2 ^ nat (msb - 63) else p * 2 ^ nat (63 - msb)) in
      (signedShiftLeft (msb - 64) 32 128 + log2p_loop (2 ^ 63) 0 0 r div 2 ^ 32) * LOG_B_2_X32)"

lemma sqrtPriceX64ToTickIndex_split:
  assumes "MIN_SQRT_PRICE \<le> p" "p \<le> MAX_SQRT_PRICE"
  defines "low \<equiv> signedShiftRight (scaled_log p - LOG_B_P_ERR_MARGIN_LOWER_X64) 64 128"
    and "high \<equiv> signedShiftRight (scaled_log p + LOG_B_P_ERR_MARGIN_UPPER_X64) 64 128"
  shows "sqrtPriceX64ToTickIndex p =
    Inr (if low = high then low else if tickIndexToSqrtPriceX64 high \<le> p then high else low)"
  using assms(1,2) by (simp add: sqrtPriceX64ToTickIndex_def scaled_log_def low_def high_def Let_def)

lemma sqrtPriceX64ToTickIndex_interval:
  assumes "MIN_SQRT_PRICE \<le> p" "p \<le> MAX_SQRT_PRICE"
  obtains t where "sqrtPriceX64ToTickIndex p = Inr t" "checkTickInBounds t"
    "tickIndexToSqrtPriceX64 t \<le> p" "p < tickIndexToSqrtPriceX64 (t + 1)"
proof -
  define low high where
    "low = signedShiftRight (scaled_log p - LOG_B_P_ERR_MARGIN_LOWER_X64) 64 128" and
    "high = signedShiftRight (scaled_log p + LOG_B_P_ERR_MARGIN_UPPER_X64) 64 128"
  define G where "G = (let msb = bitlen p - 1;
          r = (if msb \<ge> 64 then p div 2 ^ nat (msb - 63) else p * 2 ^ nat (63 - msb)) in
      signedShiftLeft (msb - 64) 32 128 + log2p_loop (2 ^ 63) 0 0 r div 2 ^ 32)"
  have G: "\<bar>G\<bar> \<le> 33 * 2 ^ 32" "G / 2 ^ 32 \<le> log 2 (p / 2 ^ 64)"
    "log 2 (p / 2 ^ 64) < G / 2 ^ 32 + 1 / 2 ^ 14 + 1 / 2 ^ 31"
    using log2p_X32_bounds [OF assms] by (simp_all only: G_def Let_def)
  have L: "scaled_log p = G * LOG_B_2_X32" by (simp add: scaled_log_def G_def Let_def)
  have "\<bar>scaled_log p\<bar> \<le> 33 * 2 ^ 32 * LOG_B_2_X32"
    unfolding L abs_mult using G(1) by (intro mult_mono) (auto simp: LOG_B_2_X32_def)
  note m = margins [OF this, folded low_def high_def]
  note e = tick_pos_estimates [OF G]
  have below: "tickIndexToSqrtPriceX64 low \<le> p"
    using m e(1) by (intro price_below assms(1)) (simp_all add: L abs_less_iff)
  have above: "p < tickIndexToSqrtPriceX64 (high + 1)"
    using m e(2) by (intro price_above assms(1)) (simp_all add: L abs_less_iff)
  define t where "t = (if low = high then low else if tickIndexToSqrtPriceX64 high \<le> p then high else low)"
  have t: "tickIndexToSqrtPriceX64 t \<le> p" "p < tickIndexToSqrtPriceX64 (t + 1)"
    "- 500000 < t" "t < 500000"
  proof -
    consider "high = low" | "high = low + 1" using m(3,4) by linarith
    then show "tickIndexToSqrtPriceX64 t \<le> p" "p < tickIndexToSqrtPriceX64 (t + 1)"
      "- 500000 < t" "t < 500000"
      using below above m(5,6) by (cases; simp add: t_def split: if_splits)+
  qed
  have "tickIndexToSqrtPriceX64 MIN_TICK_INDEX < tickIndexToSqrtPriceX64 (t + 1)"
    "tickIndexToSqrtPriceX64 t \<le> tickIndexToSqrtPriceX64 MAX_TICK_INDEX"
    using t assms by (simp_all add: price_at_ends)
  then have "checkTickInBounds t"
    using t(3,4) tick_price.price_less_iff [of MIN_TICK_INDEX "t + 1"] tick_price.price_le_iff [of t MAX_TICK_INDEX]
    by (simp add: checkTickInBounds_def MIN_TICK_INDEX_def MAX_TICK_INDEX_def)
  with t(1,2) that [of t] show thesis
    using sqrtPriceX64ToTickIndex_split [OF assms, folded low_def high_def, folded t_def] by simp
qed

text \<open>The interval determines the result, and every price in range has one.\<close>

lemma sqrtPriceX64ToTickIndex_iff:
  assumes "MIN_SQRT_PRICE \<le> p" "p \<le> MAX_SQRT_PRICE"
  shows "sqrtPriceX64ToTickIndex p = Inr t \<longleftrightarrow>
    checkTickInBounds t \<and> tickIndexToSqrtPriceX64 t \<le> p \<and> p < tickIndexToSqrtPriceX64 (t + 1)"
proof -
  obtain u where u: "sqrtPriceX64ToTickIndex p = Inr u" "checkTickInBounds u"
    "tickIndexToSqrtPriceX64 u \<le> p" "p < tickIndexToSqrtPriceX64 (u + 1)"
    by (rule sqrtPriceX64ToTickIndex_interval [OF assms])
  have "t = u" if "checkTickInBounds t" "tickIndexToSqrtPriceX64 t \<le> p" "p < tickIndexToSqrtPriceX64 (t + 1)"
    using that u(2-4) tick_price.tick_interval_unique [of t u p]
    by (simp add: checkTickInBounds_def MIN_TICK_INDEX_def MAX_TICK_INDEX_def)
  with u show ?thesis by auto
qed

lemma sqrtPriceX64ToTickIndex_of_tick:
  assumes "checkTickInBounds t"
  shows "sqrtPriceX64ToTickIndex (tickIndexToSqrtPriceX64 t) = Inr t"
  using assms price_in_bounds [OF assms] tick_price.price_step [of t]
  by (simp add: sqrtPriceX64ToTickIndex_iff)
    (simp add: checkTickInBounds_def MIN_TICK_INDEX_def MAX_TICK_INDEX_def)

lemma sqrtPriceX64ToTickIndex_mono:
  assumes "sqrtPriceX64ToTickIndex p = Inr s" "sqrtPriceX64ToTickIndex q = Inr t" "p \<le> q"
  shows "s \<le> t"
proof -
  have range: "MIN_SQRT_PRICE \<le> p" "q \<le> MAX_SQRT_PRICE" "MIN_SQRT_PRICE \<le> q" "p \<le> MAX_SQRT_PRICE"
    using assms by (auto simp: sqrtPriceX64ToTickIndex_def split: if_splits)
  with assms(1,2) have "tickIndexToSqrtPriceX64 s < tickIndexToSqrtPriceX64 (t + 1)"
    "checkTickInBounds s" "checkTickInBounds t"
    using assms(3) by (auto simp: sqrtPriceX64ToTickIndex_iff)
  then show ?thesis
    using tick_price.price_less_iff [of s "t + 1"]
    by (simp add: checkTickInBounds_def MIN_TICK_INDEX_def MAX_TICK_INDEX_def)
qed

subsection \<open>Properties\<close>

text \<open>
  C10: The table-driven price of every tick in bounds is the curve
  \<open>2 ^ 64 * sqrt (1.0001) ^ t\<close> to a relative error of at most \<open>10 ^ -8\<close>.
\<close>

theorem tick_price_on_curve:
  assumes "checkTickInBounds t"
  shows "\<bar>tickIndexToSqrtPriceX64 t - 2 ^ 64 * sqrt 1.0001 powr t\<bar>
    \<le> 1 / 10 ^ 8 * (2 ^ 64 * sqrt 1.0001 powr t)"
proof -
  have t: "\<bar>t\<bar> < 2 ^ 19" "MIN_TICK_INDEX \<le> t"
    using assms by (auto simp: checkTickInBounds_def MIN_TICK_INDEX_def MAX_TICK_INDEX_def)
  have "tick_base = sqrt 1.0001" by (simp add: tick_base_def)
  then have c: "2 ^ 64 * sqrt 1.0001 powr t = curve t" by (simp add: curve_def)
  show ?thesis
    unfolding c using price_near_curve [OF t(1)] curve_lower(2) [OF t(2)] by (intro abs_leI) simp_all
qed

theorem tick_price_on_curve_witness:
  "\<bar>real_of_int 79226673515401279992447579055 - 2 ^ 64 * sqrt 1.0001 powr 443636\<bar>
    \<le> 1 / 10 ^ 8 * (2 ^ 64 * sqrt 1.0001 powr 443636)"
  using tick_price_on_curve [of MAX_TICK_INDEX] unfolding price_at_ends
  by (simp add: checkTickInBounds_def MIN_TICK_INDEX_def MAX_TICK_INDEX_def MAX_SQRT_PRICE_def)

text \<open>
  C38: The price of a tick is strictly increasing over the ticks in bounds, and its values
  at the two ends are the constants \<open>MIN_SQRT_PRICE\<close> and \<open>MAX_SQRT_PRICE\<close>.
\<close>

theorem tick_price_strict_mono:
  assumes "checkTickInBounds s" "checkTickInBounds t"
  shows "(tickIndexToSqrtPriceX64 s < tickIndexToSqrtPriceX64 t \<longleftrightarrow> s < t)
    \<and> tickIndexToSqrtPriceX64 MIN_TICK_INDEX = MIN_SQRT_PRICE
    \<and> tickIndexToSqrtPriceX64 MAX_TICK_INDEX = MAX_SQRT_PRICE"
  using assms tick_price.price_less_iff [of s t]
  by (simp add: price_at_ends) (simp add: checkTickInBounds_def MIN_TICK_INDEX_def MAX_TICK_INDEX_def)

theorem tick_price_strict_mono_witness:
  "tickIndexToSqrtPriceX64 (- 28417) < tickIndexToSqrtPriceX64 (- 28416)"
  using tick_price_strict_mono [of "- 28417" "- 28416"]
  by (simp add: checkTickInBounds_def MIN_TICK_INDEX_def MAX_TICK_INDEX_def)

text \<open>
  C2: \<open>sqrtPriceX64ToTickIndex\<close> is exact. For every price in range it returns the one tick
  in bounds whose price is at most the given one while the next tick's is above it; outside
  the range it throws. The fourteen bits of logarithm and the two margins never decide
  wrongly.
\<close>

theorem tick_of_price_exact:
  "if MIN_SQRT_PRICE \<le> p \<and> p \<le> MAX_SQRT_PRICE
   then \<exists>t. sqrtPriceX64ToTickIndex p = Inr t \<and> checkTickInBounds t
     \<and> tickIndexToSqrtPriceX64 t \<le> p \<and> p < tickIndexToSqrtPriceX64 (t + 1)
   else sqrtPriceX64ToTickIndex p = Inl PlainError"
proof (cases "MIN_SQRT_PRICE \<le> p \<and> p \<le> MAX_SQRT_PRICE")
  case True
  then show ?thesis by (auto intro: sqrtPriceX64ToTickIndex_interval)
next
  case False
  then have "p > MAX_SQRT_PRICE \<or> p < MIN_SQRT_PRICE" by auto
  with False show ?thesis by (simp only: sqrtPriceX64ToTickIndex_def if_True if_False)
qed

text \<open>
  C11: Tick to price and back is the identity on the ticks in bounds, and inverting the
  price of a tick gives the price of the opposite tick.
\<close>

theorem tick_price_round_trip:
  assumes "checkTickInBounds t"
  shows "sqrtPriceX64ToTickIndex (tickIndexToSqrtPriceX64 t) = Inr t
    \<and> invertSqrtPriceX64 (tickIndexToSqrtPriceX64 t) = Inr (tickIndexToSqrtPriceX64 (- t))"
  using sqrtPriceX64ToTickIndex_of_tick [OF assms] by (simp add: invertSqrtPriceX64_def invertTick_def)

theorem tick_price_round_trip_witness:
  "sqrtPriceX64ToTickIndex (tickIndexToSqrtPriceX64 (- 28416)) = Inr (- 28416)"
  using tick_price_round_trip [of "- 28416"]
  by (simp add: checkTickInBounds_def MIN_TICK_INDEX_def MAX_TICK_INDEX_def)

text \<open>
  Whatever the decimal arithmetic returns, the slippage bounds of a price are prices
  in range, each with its exact tick, and the function never throws.
\<close>

theorem slippage_bounds_in_range:
  "\<exists>lower lowerTick upper upperTick.
     getSlippageBoundForSqrtPrice dec p slippage = Inr ((lower, lowerTick), (upper, upperTick))
     \<and> MIN_SQRT_PRICE \<le> lower \<and> lower \<le> MAX_SQRT_PRICE
     \<and> MIN_SQRT_PRICE \<le> upper \<and> upper \<le> MAX_SQRT_PRICE
     \<and> tickIndexToSqrtPriceX64 lowerTick \<le> lower \<and> lower < tickIndexToSqrtPriceX64 (lowerTick + 1)
     \<and> tickIndexToSqrtPriceX64 upperTick \<le> upper \<and> upper < tickIndexToSqrtPriceX64 (upperTick + 1)"
proof -
  have clamp: "MIN_SQRT_PRICE \<le> min (max x MIN_SQRT_PRICE) MAX_SQRT_PRICE"
    "min (max x MIN_SQRT_PRICE) MAX_SQRT_PRICE \<le> MAX_SQRT_PRICE" for x
    by (simp_all add: MIN_SQRT_PRICE_def MAX_SQRT_PRICE_def)
  obtain x y where eq: "getSlippageBoundForSqrtPrice dec p slippage =
      (let lower = min (max x MIN_SQRT_PRICE) MAX_SQRT_PRICE;
           upper = min (max y MIN_SQRT_PRICE) MAX_SQRT_PRICE in
       bindE (sqrtPriceX64ToTickIndex lower) (\<lambda>l.
       bindE (sqrtPriceX64ToTickIndex upper) (\<lambda>u. Inr ((lower, l), (upper, u)))))"
    unfolding getSlippageBoundForSqrtPrice_def Let_def by fast
  obtain l where l: "sqrtPriceX64ToTickIndex (min (max x MIN_SQRT_PRICE) MAX_SQRT_PRICE) = Inr l"
    "tickIndexToSqrtPriceX64 l \<le> min (max x MIN_SQRT_PRICE) MAX_SQRT_PRICE"
    "min (max x MIN_SQRT_PRICE) MAX_SQRT_PRICE < tickIndexToSqrtPriceX64 (l + 1)"
    by (rule sqrtPriceX64ToTickIndex_interval [OF clamp])
  obtain u where u: "sqrtPriceX64ToTickIndex (min (max y MIN_SQRT_PRICE) MAX_SQRT_PRICE) = Inr u"
    "tickIndexToSqrtPriceX64 u \<le> min (max y MIN_SQRT_PRICE) MAX_SQRT_PRICE"
    "min (max y MIN_SQRT_PRICE) MAX_SQRT_PRICE < tickIndexToSqrtPriceX64 (u + 1)"
    by (rule sqrtPriceX64ToTickIndex_interval [OF clamp])
  show ?thesis
    unfolding eq Let_def l(1) u(1) bindE_simps
    by (intro exI conjI) (rule refl clamp l(2,3) u(2,3))+
qed

end
