(* ===== verification/Position_Util.thy ===== *)
theory Position_Util
  imports Price_Inverse
begin

text \<open>
  Positions and their amounts (\<^verbatim>\<open>sdk/src/utils/position-util.ts\<close> and
  \<^verbatim>\<open>sdk/src/utils/swap-utils.ts\<close>): where a price lies with respect to a range, the liquidity an
  amount of one token gives over a range, and the amounts a liquidity is worth. Names that
  the file shares with \<^verbatim>\<open>token-math.ts\<close> and \<^verbatim>\<open>public/types.ts\<close> carry the prefix \<open>pu_\<close>. The
  lemmas relate the two position statuses and show that an amount turned into liquidity and
  back never grows.
\<close>

subsection \<open>Next prices\<close>

definition getLowerSqrtPriceFromTokenA :: "math_util \<Rightarrow> int \<Rightarrow> int \<Rightarrow> int \<Rightarrow> int res" where
  "getLowerSqrtPriceFromTokenA mu amount liquidity sqrtPriceX64 =
     bindE (bn_shln (liquidity * sqrtPriceX64) 64) (\<lambda>numerator.
     bindE (bn_shln liquidity 64) (\<lambda>shifted.
     let denominator = shifted + amount * sqrtPriceX64 in
     divRoundUp mu numerator denominator))"

definition getUpperSqrtPriceFromTokenA :: "math_util \<Rightarrow> int \<Rightarrow> int \<Rightarrow> int \<Rightarrow> int res" where
  "getUpperSqrtPriceFromTokenA mu amount liquidity sqrtPriceX64 =
     bindE (bn_shln (liquidity * sqrtPriceX64) 64) (\<lambda>numerator.
     bindE (bn_shln liquidity 64) (\<lambda>shifted.
     let denominator = shifted - amount * sqrtPriceX64 in
     divRoundUp mu numerator denominator))"

definition getLowerSqrtPriceFromTokenB :: "math_util \<Rightarrow> int \<Rightarrow> int \<Rightarrow> int \<Rightarrow> int res" where
  "getLowerSqrtPriceFromTokenB mu amount liquidity sqrtPriceX64 =
     bindE (bn_shln amount 64) (\<lambda>shifted.
     bindE (divRoundUp mu shifted liquidity) (\<lambda>delta.
     Inr (sqrtPriceX64 - delta)))"

definition getUpperSqrtPriceFromTokenB :: "int \<Rightarrow> int \<Rightarrow> int \<Rightarrow> int res" where
  "getUpperSqrtPriceFromTokenB amount liquidity sqrtPriceX64 =
     bindE (bn_shln amount 64) (\<lambda>shifted.
     bindE (bn_div shifted liquidity) (\<lambda>delta.
     Inr (sqrtPriceX64 + delta)))"

subsection \<open>Position status\<close>

datatype pu_SwapDirection = pu_AtoB | pu_BtoA

datatype AmountSpecified = Input | Output

datatype PositionStatus = BelowRange | InRange | AboveRange

definition getPositionStatus :: "int \<Rightarrow> int \<Rightarrow> int \<Rightarrow> PositionStatus" where
  "getPositionStatus tickCurrentIndex tickLowerIndex tickUpperIndex =
     (if tickCurrentIndex < tickLowerIndex then BelowRange
      else if tickCurrentIndex < tickUpperIndex then InRange
      else AboveRange)"

definition getStrictPositionStatus :: "int \<Rightarrow> int \<Rightarrow> int \<Rightarrow> PositionStatus" where
  "getStrictPositionStatus sqrtPriceX64 tickLowerIndex tickUpperIndex =
     (let sqrtPriceLowerX64 = tickIndexToSqrtPriceX64 tickLowerIndex;
          sqrtPriceUpperX64 = tickIndexToSqrtPriceX64 tickUpperIndex in
      if sqrtPriceX64 \<le> sqrtPriceLowerX64 then BelowRange
      else if sqrtPriceX64 \<ge> sqrtPriceUpperX64 then AboveRange
      else InRange)"

subsection \<open>Slippage, liquidity and amounts\<close>

definition pu_adjustForSlippage :: "int \<Rightarrow> percentage \<Rightarrow> bool \<Rightarrow> int res" where
  "pu_adjustForSlippage n slippage adjustUp =
     (if adjustUp
      then bn_div (n * (denominator slippage + numerator slippage)) (denominator slippage)
      else bn_div (n * denominator slippage) (denominator slippage + numerator slippage))"

definition adjustAmountForSlippage :: "int \<Rightarrow> int \<Rightarrow> percentage \<Rightarrow> AmountSpecified \<Rightarrow> int res" where
  "adjustAmountForSlippage amountIn amountOut slippage amountSpecified =
     (if amountSpecified = Input
      then bn_div (amountOut * denominator slippage) (denominator slippage + numerator slippage)
      else bn_div (amountIn * (denominator slippage + numerator slippage)) (denominator slippage))"

definition getLiquidityFromTokenA :: "math_util \<Rightarrow> int \<Rightarrow> int \<Rightarrow> int \<Rightarrow> bool \<Rightarrow> int res" where
  "getLiquidityFromTokenA mu amount sqrtPriceLowerX64 sqrtPriceUpperX64 roundUp =
     bindE (bn_div (amount * sqrtPriceLowerX64 * sqrtPriceUpperX64) (sqrtPriceUpperX64 - sqrtPriceLowerX64))
       (\<lambda>result. if roundUp then shiftRightRoundUp mu result else bn_shrn result 64)"

definition getLiquidityFromTokenB :: "math_util \<Rightarrow> int \<Rightarrow> int \<Rightarrow> int \<Rightarrow> bool \<Rightarrow> int res" where
  "getLiquidityFromTokenB mu amount sqrtPriceLowerX64 sqrtPriceUpperX64 roundUp =
     bindE (bn_shln amount 64) (\<lambda>numerator.
     let denominator = sqrtPriceUpperX64 - sqrtPriceLowerX64 in
     if roundUp then divRoundUp mu numerator denominator else bn_div numerator denominator)"

definition orderSqrtPrice :: "int \<Rightarrow> int \<Rightarrow> int \<times> int" where
  "orderSqrtPrice sqrtPrice0X64 sqrtPrice1X64 =
     (if sqrtPrice0X64 < sqrtPrice1X64 then (sqrtPrice0X64, sqrtPrice1X64)
      else (sqrtPrice1X64, sqrtPrice0X64))"

definition getTokenAFromLiquidity :: "math_util \<Rightarrow> int \<Rightarrow> int \<Rightarrow> int \<Rightarrow> bool \<Rightarrow> int res" where
  "getTokenAFromLiquidity mu liquidity sqrtPrice0X64 sqrtPrice1X64 roundUp =
     (let (sqrtPriceLowerX64, sqrtPriceUpperX64) = orderSqrtPrice sqrtPrice0X64 sqrtPrice1X64 in
      bindE (bn_shln (liquidity * (sqrtPriceUpperX64 - sqrtPriceLowerX64)) 64) (\<lambda>numerator.
      let denominator = sqrtPriceUpperX64 * sqrtPriceLowerX64 in
      if roundUp then divRoundUp mu numerator denominator else bn_div numerator denominator))"

definition getTokenBFromLiquidity :: "math_util \<Rightarrow> int \<Rightarrow> int \<Rightarrow> int \<Rightarrow> bool \<Rightarrow> int res" where
  "getTokenBFromLiquidity mu liquidity sqrtPrice0X64 sqrtPrice1X64 roundUp =
     (let (sqrtPriceLowerX64, sqrtPriceUpperX64) = orderSqrtPrice sqrtPrice0X64 sqrtPrice1X64;
          result = liquidity * (sqrtPriceUpperX64 - sqrtPriceLowerX64) in
      if roundUp then shiftRightRoundUp mu result else bn_shrn result 64)"

definition pu_getAmountFixedDelta ::
    "math_util \<Rightarrow> int \<Rightarrow> int \<Rightarrow> int \<Rightarrow> AmountSpecified \<Rightarrow> pu_SwapDirection \<Rightarrow> int res" where
  "pu_getAmountFixedDelta mu currentSqrtPriceX64 targetSqrtPriceX64 liquidity amountSpecified swapDirection =
     (if (amountSpecified = Input) = (swapDirection = pu_AtoB)
      then getTokenAFromLiquidity mu liquidity currentSqrtPriceX64 targetSqrtPriceX64 (amountSpecified = Input)
      else getTokenBFromLiquidity mu liquidity currentSqrtPriceX64 targetSqrtPriceX64 (amountSpecified = Input))"

definition pu_getAmountUnfixedDelta ::
    "math_util \<Rightarrow> int \<Rightarrow> int \<Rightarrow> int \<Rightarrow> AmountSpecified \<Rightarrow> pu_SwapDirection \<Rightarrow> int res" where
  "pu_getAmountUnfixedDelta mu currentSqrtPriceX64 targetSqrtPriceX64 liquidity amountSpecified swapDirection =
     (if (amountSpecified = Input) = (swapDirection = pu_AtoB)
      then getTokenBFromLiquidity mu liquidity currentSqrtPriceX64 targetSqrtPriceX64 (amountSpecified = Output)
      else getTokenAFromLiquidity mu liquidity currentSqrtPriceX64 targetSqrtPriceX64 (amountSpecified = Output))"

definition pu_getNextSqrtPrice ::
    "math_util \<Rightarrow> int \<Rightarrow> int \<Rightarrow> int \<Rightarrow> AmountSpecified \<Rightarrow> pu_SwapDirection \<Rightarrow> int res" where
  "pu_getNextSqrtPrice mu sqrtPriceX64 liquidity amount amountSpecified swapDirection =
     (if amountSpecified = Input \<and> swapDirection = pu_AtoB
      then getLowerSqrtPriceFromTokenA mu amount liquidity sqrtPriceX64
      else if amountSpecified = Output \<and> swapDirection = pu_BtoA
      then getUpperSqrtPriceFromTokenA mu amount liquidity sqrtPriceX64
      else if amountSpecified = Input \<and> swapDirection = pu_BtoA
      then getUpperSqrtPriceFromTokenB amount liquidity sqrtPriceX64
      else getLowerSqrtPriceFromTokenB mu amount liquidity sqrtPriceX64)"


subsection \<open>Closed forms\<close>

lemma getLiquidityFromTokenA_eq:
  assumes "math_util_ok mu" "0 \<le> amount" "0 < lower" "lower < upper"
  shows "getLiquidityFromTokenA mu amount lower upper False =
    Inr (amount * lower * upper div (upper - lower) div 2 ^ 64)"
proof -
  have n: "0 \<le> amount * lower * upper" using assms by simp
  moreover have "0 \<le> amount * lower * upper div (upper - lower)" using assms n by (simp add: pos_imp_zdiv_nonneg_iff)
  ultimately show ?thesis using assms by (simp add: getLiquidityFromTokenA_def bn_nonneg)
qed

lemma getLiquidityFromTokenB_eq:
  assumes "math_util_ok mu" "0 \<le> amount" "lower < upper"
  shows "getLiquidityFromTokenB mu amount lower upper up = Inr (rdiv up (amount * 2 ^ 64) (upper - lower))"
  using assms math_util_okD(2) [of mu "amount * 2 ^ 64" "upper - lower"]
  by (simp add: getLiquidityFromTokenB_def bn_nonneg rdiv_def Let_def)

lemma getTokenAFromLiquidity_eq:
  assumes "math_util_ok mu" "0 \<le> L" "0 < p" "0 < q"
  shows "getTokenAFromLiquidity mu L p q up = Inr (rdiv up (L * \<bar>q - p\<bar> * 2 ^ 64) (p * q))"
proof -
  have "0 < p * q" "0 \<le> L * \<bar>q - p\<bar> * 2 ^ 64" "0 \<le> L * \<bar>q - p\<bar>" using assms by simp_all
  then show ?thesis
    using assms math_util_okD(2) [of mu "L * \<bar>q - p\<bar> * 2 ^ 64" "p * q"]
    by (auto simp: getTokenAFromLiquidity_def orderSqrtPrice_def bn_nonneg rdiv_def mult.commute abs_if Let_def)
qed

lemma getTokenBFromLiquidity_eq:
  assumes "math_util_ok mu" "0 \<le> L"
  shows "getTokenBFromLiquidity mu L p q False = Inr (L * \<bar>q - p\<bar> div 2 ^ 64)"
    and "getTokenBFromLiquidity mu L p q True \<in> {Inr (L * \<bar>q - p\<bar> div 2 ^ 64), Inr (L * \<bar>q - p\<bar> div 2 ^ 64 + 1)}"
proof -
  have "0 \<le> L * \<bar>q - p\<bar>" using assms by simp
  moreover have "L * (snd (orderSqrtPrice p q) - fst (orderSqrtPrice p q)) = L * \<bar>q - p\<bar>"
    by (simp add: orderSqrtPrice_def)
  ultimately show "getTokenBFromLiquidity mu L p q False = Inr (L * \<bar>q - p\<bar> div 2 ^ 64)"
    "getTokenBFromLiquidity mu L p q True \<in> {Inr (L * \<bar>q - p\<bar> div 2 ^ 64), Inr (L * \<bar>q - p\<bar> div 2 ^ 64 + 1)}"
    using math_util_okD(3) [OF assms(1), of "L * \<bar>q - p\<bar>"]
    by (auto simp: getTokenBFromLiquidity_def case_prod_beta Let_def bn_nonneg shift_up_near_def)
qed

text \<open>Turning the liquidity of an amount back into an amount does not exceed it.\<close>

lemma token_a_back:
  assumes "math_util_ok mu" "0 < p" "p < q" "0 \<le> L" "L * (q - p) * 2 ^ 64 \<le> amount * p * q"
  shows "\<exists>a. getTokenAFromLiquidity mu L p q up = Inr a \<and> 0 \<le> a \<and> a \<le> amount"
proof -
  have "rdiv up (L * \<bar>q - p\<bar> * 2 ^ 64) (p * q) \<le> rdiv True (L * \<bar>q - p\<bar> * 2 ^ 64) (p * q)"
    using assms rdiv_down_le_up [of "p * q" "L * \<bar>q - p\<bar> * 2 ^ 64" True] by (cases up) simp_all
  also have "\<dots> \<le> amount" using assms by (subst rdiv_up_le_iff) (simp_all add: algebra_simps)
  finally show ?thesis
    using assms rdiv_nonneg [of "p * q" "L * \<bar>q - p\<bar> * 2 ^ 64" up] by (simp add: getTokenAFromLiquidity_eq)
qed

lemma token_b_back:
  assumes "math_util_ok mu" "p < q" "0 \<le> L" "L * (q - p) \<le> amount * 2 ^ 64"
  shows "\<exists>b. getTokenBFromLiquidity mu L p q up = Inr b \<and> 0 \<le> b \<and> b \<le> (if up then amount + 1 else amount)"
proof -
  have "L * \<bar>q - p\<bar> div 2 ^ 64 \<le> amount * 2 ^ 64 div 2 ^ 64"
    using assms by (intro zdiv_mono1) auto
  then have "L * \<bar>q - p\<bar> div 2 ^ 64 \<le> amount" by simp
  moreover have "0 \<le> L * \<bar>q - p\<bar> div 2 ^ 64" using assms by (simp add: pos_imp_zdiv_nonneg_iff)
  ultimately show ?thesis using getTokenBFromLiquidity_eq [OF assms(1,3), of p q] by (cases up) auto
qed

lemma liquidity_a_bound:
  assumes "0 \<le> amount" "0 < p" "p < (q :: int)"
  shows "amount * p * q div (q - p) div 2 ^ 64 * (q - p) * 2 ^ 64 \<le> amount * p * q"
proof -
  have "amount * p * q div (q - p) div 2 ^ 64 = amount * p * q div ((q - p) * 2 ^ 64)"
    by (rule zdiv_zmult2_eq [symmetric]) simp
  moreover have "amount * p * q div ((q - p) * 2 ^ 64) * ((q - p) * 2 ^ 64) \<le> amount * p * q"
    using assms by (subst le_div_iff_int [symmetric]) simp_all
  ultimately show ?thesis by (simp add: mult.assoc)
qed

lemma tick_of_price_less_iff:
  assumes "sqrtPriceX64ToTickIndex p = Inr t" "checkTickInBounds s"
  shows "t < s \<longleftrightarrow> p < tickIndexToSqrtPriceX64 s"
proof -
  have "MIN_SQRT_PRICE \<le> p" "p \<le> MAX_SQRT_PRICE"
    using assms by (auto simp: sqrtPriceX64ToTickIndex_def split: if_splits)
  from assms(1) [unfolded sqrtPriceX64ToTickIndex_iff [OF this]] assms(2)
  show ?thesis
    using tick_price.price_le_iff [of "t + 1" s] tick_price.price_le_iff [of s t]
    by (cases "t < s") (auto simp: checkTickInBounds_def MIN_TICK_INDEX_def MAX_TICK_INDEX_def)
qed

subsection \<open>Properties\<close>

text \<open>
  the two statuses of a position agree: the status by the tick of a price is the status
  by the price itself, except that a price exactly at the lower end counts as below the range
  in the second.
\<close>

theorem position_status_agrees:
  assumes "sqrtPriceX64ToTickIndex p = Inr t" "checkTickInBounds lower" "checkTickInBounds upper" "lower < upper"
  shows "getStrictPositionStatus p lower upper =
    (if p = tickIndexToSqrtPriceX64 lower then BelowRange else getPositionStatus t lower upper)"
proof -
  have less: "t < s \<longleftrightarrow> p < tickIndexToSqrtPriceX64 s" if "checkTickInBounds s" for s
    using tick_of_price_less_iff [OF assms(1) that] .
  have "tickIndexToSqrtPriceX64 lower < tickIndexToSqrtPriceX64 upper"
    using assms by (subst tick_price.price_less_iff) (auto simp: checkTickInBounds_def MIN_TICK_INDEX_def MAX_TICK_INDEX_def)
  then show ?thesis
    using less [OF assms(2)] less [OF assms(3)]
    by (auto simp: getStrictPositionStatus_def getPositionStatus_def Let_def)
qed


theorem position_status_agrees_witness:
  "getStrictPositionStatus (tickIndexToSqrtPriceX64 0) 0 64 = BelowRange
    \<and> getStrictPositionStatus (tickIndexToSqrtPriceX64 5) 0 64 = InRange"
proof -
  have b: "checkTickInBounds 0" "checkTickInBounds 5" "checkTickInBounds 64"
    by (simp_all add: checkTickInBounds_def MIN_TICK_INDEX_def MAX_TICK_INDEX_def)
  have "tickIndexToSqrtPriceX64 0 < tickIndexToSqrtPriceX64 5"
    by (subst tick_price.price_less_iff) (simp_all add: MIN_TICK_INDEX_def MAX_TICK_INDEX_def)
  then show ?thesis
    using position_status_agrees [OF sqrtPriceX64ToTickIndex_of_tick [OF b(1)] b(1,3)]
      position_status_agrees [OF sqrtPriceX64ToTickIndex_of_tick [OF b(2)] b(1,3)]
    by (simp add: getPositionStatus_def)
qed

end
