(* ===== verification/Pda_Utils.thy ===== *)
theory Pda_Utils
  imports Price_Math
begin

text \<open>
  Program derived addresses (\<^verbatim>\<open>sdk/src/utils/public/pda-utils.ts\<close>) and the tick array
  addresses of \<^verbatim>\<open>tick-utils.ts\<close>. \<^verbatim>\<open>AddressUtil.findProgramAddress\<close> is the parameter
  \<open>findProgramAddress\<close>: a hash of the seeds and the program. A seed is the bytes of a text, the
  bytes of a public key, or a number written in two little-endian bytes; \<open>number_text\<close> is
  \<^verbatim>\<open>Number.toString\<close>. What the address functions owe their callers is that different inputs
  give different seeds: the lemmas show it for the numbered addresses.
\<close>

datatype seed = Text string | Key pubkey | Bytes "int list"

record PDA =
  publicKey :: pubkey
  bump :: int

type_synonym find_program_address = "seed list \<Rightarrow> pubkey \<Rightarrow> PDA"

definition METADATA_PROGRAM_ADDRESS :: pubkey where
  "METADATA_PROGRAM_ADDRESS = ''metaqbxxUerdq28cj1RbAWkYQm3ybzjb6a8bt518x1s''"

subsection \<open>Numbers as seeds\<close>

text \<open>The decimal digits of a number, most significant first, and its text.\<close>

definition digit_char :: "nat \<Rightarrow> char" where
  "digit_char d = ''0123456789'' ! d"

function nat_text :: "nat \<Rightarrow> string" where
  "nat_text n = (if n < 10 then [digit_char n] else nat_text (n div 10) @ [digit_char (n mod 10)])"
  by pat_completeness auto
termination by (relation "measure id") auto

declare nat_text.simps [simp del]

definition number_text :: "int \<Rightarrow> string" where
  "number_text i = (if i < 0 then CHR ''-'' # nat_text (nat (- i)) else nat_text (nat i))"

text \<open>
  \<^verbatim>\<open>new BN(n).toArrayLike(Buffer, "le", 2)\<close>: the bytes of the magnitude; \<^verbatim>\<open>bn.js\<close> asserts that
  they fit.
\<close>

definition le_bytes_2 :: "int \<Rightarrow> int list res" where
  "le_bytes_2 n = (if \<bar>n\<bar> < 65536 then Inr [\<bar>n\<bar> mod 256, \<bar>n\<bar> div 256] else Inl BnAssertion)"

subsection \<open>The addresses\<close>

definition getWhirlpool ::
    "find_program_address \<Rightarrow> pubkey \<Rightarrow> pubkey \<Rightarrow> pubkey \<Rightarrow> pubkey \<Rightarrow> int \<Rightarrow> PDA res" where
  "getWhirlpool findProgramAddress programId whirlpoolsConfigKey tokenMintAKey tokenMintBKey tickSpacing =
     bindE (le_bytes_2 tickSpacing) (\<lambda>bytes.
     Inr (findProgramAddress
       [Text ''whirlpool'', Key whirlpoolsConfigKey, Key tokenMintAKey, Key tokenMintBKey, Bytes bytes]
       programId))"

definition getPosition :: "find_program_address \<Rightarrow> pubkey \<Rightarrow> pubkey \<Rightarrow> PDA" where
  "getPosition findProgramAddress programId positionMintKey =
     findProgramAddress [Text ''position'', Key positionMintKey] programId"

definition getPositionMetadata :: "find_program_address \<Rightarrow> pubkey \<Rightarrow> PDA" where
  "getPositionMetadata findProgramAddress positionMintKey =
     findProgramAddress [Text ''metadata'', Key METADATA_PROGRAM_ADDRESS, Key positionMintKey]
       METADATA_PROGRAM_ADDRESS"

definition getTickArray :: "find_program_address \<Rightarrow> pubkey \<Rightarrow> pubkey \<Rightarrow> int \<Rightarrow> PDA" where
  "getTickArray findProgramAddress programId whirlpoolAddress startTick =
     findProgramAddress [Text ''tick_array'', Key whirlpoolAddress, Text (number_text startTick)]
       programId"

definition getTickArrayFromTickIndex ::
    "find_program_address \<Rightarrow> int \<Rightarrow> int \<Rightarrow> pubkey \<Rightarrow> pubkey \<Rightarrow> int \<Rightarrow> PDA res" where
  "getTickArrayFromTickIndex findProgramAddress tickIndex tickSpacing whirlpool programId tickArrayOffset =
     bindE (getStartTickIndex tickIndex tickSpacing tickArrayOffset) (\<lambda>startIndex.
     Inr (getTickArray findProgramAddress programId whirlpool startIndex))"

definition getTickArrayFromSqrtPrice ::
    "find_program_address \<Rightarrow> int \<Rightarrow> int \<Rightarrow> pubkey \<Rightarrow> pubkey \<Rightarrow> int \<Rightarrow> PDA res" where
  "getTickArrayFromSqrtPrice findProgramAddress sqrtPriceX64 tickSpacing whirlpool programId tickArrayOffset =
     bindE (sqrtPriceX64ToTickIndex sqrtPriceX64) (\<lambda>tickIndex.
     getTickArrayFromTickIndex findProgramAddress tickIndex tickSpacing whirlpool programId tickArrayOffset)"

definition getFeeTier :: "find_program_address \<Rightarrow> pubkey \<Rightarrow> pubkey \<Rightarrow> int \<Rightarrow> PDA res" where
  "getFeeTier findProgramAddress programId whirlpoolsConfigAddress tickSpacing =
     bindE (le_bytes_2 tickSpacing) (\<lambda>bytes.
     Inr (findProgramAddress [Text ''fee_tier'', Key whirlpoolsConfigAddress, Bytes bytes] programId))"

definition getOracle :: "find_program_address \<Rightarrow> pubkey \<Rightarrow> pubkey \<Rightarrow> PDA" where
  "getOracle findProgramAddress programId whirlpoolAddress =
     findProgramAddress [Text ''oracle'', Key whirlpoolAddress] programId"

definition getBundledPosition :: "find_program_address \<Rightarrow> pubkey \<Rightarrow> pubkey \<Rightarrow> int \<Rightarrow> PDA" where
  "getBundledPosition findProgramAddress programId positionBundleMintKey bundleIndex =
     findProgramAddress
       [Text ''bundled_position'', Key positionBundleMintKey, Text (number_text bundleIndex)] programId"

definition getPositionBundle :: "find_program_address \<Rightarrow> pubkey \<Rightarrow> pubkey \<Rightarrow> PDA" where
  "getPositionBundle findProgramAddress programId positionBundleMintKey =
     findProgramAddress [Text ''position_bundle'', Key positionBundleMintKey] programId"

definition getPositionBundleMetadata :: "find_program_address \<Rightarrow> pubkey \<Rightarrow> PDA" where
  "getPositionBundleMetadata findProgramAddress positionBundleMintKey =
     findProgramAddress [Text ''metadata'', Key METADATA_PROGRAM_ADDRESS, Key positionBundleMintKey]
       METADATA_PROGRAM_ADDRESS"

definition getConfigExtension :: "find_program_address \<Rightarrow> pubkey \<Rightarrow> pubkey \<Rightarrow> PDA" where
  "getConfigExtension findProgramAddress programId whirlpoolsConfigAddress =
     findProgramAddress [Text ''config_extension'', Key whirlpoolsConfigAddress] programId"

definition getTokenBadge :: "find_program_address \<Rightarrow> pubkey \<Rightarrow> pubkey \<Rightarrow> pubkey \<Rightarrow> PDA" where
  "getTokenBadge findProgramAddress programId whirlpoolsConfigAddress tokenMintKey =
     findProgramAddress [Text ''token_badge'', Key whirlpoolsConfigAddress, Key tokenMintKey] programId"

subsection \<open>Tick array addresses\<close>

text \<open>\<^verbatim>\<open>getTickArrayPDAs\<close> of \<^verbatim>\<open>TickArrayUtil\<close>: \<open>map\<close> stops at the first start index that fails.\<close>

definition getTickArrayPDAs ::
    "find_program_address \<Rightarrow> int \<Rightarrow> int \<Rightarrow> nat \<Rightarrow> pubkey \<Rightarrow> pubkey \<Rightarrow> bool \<Rightarrow> PDA list res" where
  "getTickArrayPDAs findProgramAddress tick tickSpacing numOfTickArrays programId whirlpoolAddress aToB =
     (let arrayIndexList = map int [0..<numOfTickArrays];
          arrayIndexList = (if aToB then map (\<lambda>value. - value) arrayIndexList else arrayIndexList) in
      mapE (\<lambda>value.
        bindE (getStartTickIndex tick tickSpacing value) (\<lambda>startTick.
        Inr (getTickArray findProgramAddress programId whirlpoolAddress startTick))) arrayIndexList)"

text \<open>
  The arrays not on chain. \<open>getTickArrays\<close> is the fetcher's call: for each address the
  account, or null.
\<close>

fun join_text :: "string \<Rightarrow> string list \<Rightarrow> string" where
  "join_text sep [] = []"
| "join_text sep [x] = x"
| "join_text sep (x # y # ys) = x @ sep @ join_text sep (y # ys)"

definition getUninitializedArraysString ::
    "(pubkey list \<Rightarrow> TickArrayData option list) \<Rightarrow> pubkey list \<Rightarrow> string option" where
  "getUninitializedArraysString getTickArrays tickArrayAddrs =
     (let tickArrayData = getTickArrays tickArrayAddrs;
          uninitializedIndices = getUninitializedArrays tickArrayData in
      if length uninitializedIndices > 0
      then Some (join_text '', '' (map (\<lambda>index. tickArrayAddrs ! index) uninitializedIndices))
      else None)"

text \<open>\<^verbatim>\<open>[...new Set(xs)]\<close> keeps the first occurrence of each element, in order.\<close>

definition set_spread :: "'a list \<Rightarrow> 'a list" where
  "set_spread xs = rev (remdups (rev xs))"

definition getUninitializedArraysPDAs ::
    "find_program_address \<Rightarrow> (pubkey list \<Rightarrow> TickArrayData option list) \<Rightarrow>
     int list \<Rightarrow> pubkey \<Rightarrow> pubkey \<Rightarrow> int \<Rightarrow> (int \<times> PDA) list res" where
  "getUninitializedArraysPDAs findProgramAddress getTickArrays ticks programId whirlpoolAddress tickSpacing =
     bindE (mapE (\<lambda>tick. getStartTickIndex tick tickSpacing 0) ticks) (\<lambda>startTicks.
     let removeDupeTicks = set_spread startTicks;
         tickArrayPDAs = map (getTickArray findProgramAddress programId whirlpoolAddress) removeDupeTicks;
         fetchedArrays = getTickArrays (map publicKey tickArrayPDAs);
         uninitializedIndices = getUninitializedArrays fetchedArrays in
     Inr (map (\<lambda>index. (removeDupeTicks ! index, tickArrayPDAs ! index)) uninitializedIndices))"

subsection \<open>Distinct inputs give distinct seeds\<close>

lemma digit_char_inj: "d < 10 \<Longrightarrow> e < 10 \<Longrightarrow> digit_char d = digit_char e \<longleftrightarrow> d = e"
proof -
  have "distinct ''0123456789''" by simp
  then show "d < 10 \<Longrightarrow> e < 10 \<Longrightarrow> digit_char d = digit_char e \<longleftrightarrow> d = e"
    by (simp add: digit_char_def nth_eq_iff_index_eq)
qed

lemma digit_char_not_minus: "d < 10 \<Longrightarrow> digit_char d \<noteq> CHR ''-''"
proof -
  assume "d < 10"
  then have "digit_char d \<in> set ''0123456789''" unfolding digit_char_def by (intro nth_mem) simp
  then show ?thesis by auto
qed

lemma nat_text_not_empty: "nat_text n \<noteq> []"
  by (subst nat_text.simps) simp

lemma nat_text_no_minus: "CHR ''-'' \<notin> set (nat_text n)"
  by (induction n rule: nat_text.induct) (subst nat_text.simps, auto simp: digit_char_not_minus [symmetric])

lemma nat_text_inj: "nat_text m = nat_text n \<Longrightarrow> m = n"
proof (induction m arbitrary: n rule: nat_text.induct)
  case (1 m)
  have step: "nat_text k = (if k < 10 then [] else nat_text (k div 10)) @ [digit_char (k mod 10)]" for k
    by (subst nat_text.simps) simp
  have "(if m < 10 then [] else nat_text (m div 10)) = (if n < 10 then [] else nat_text (n div 10))"
    and last: "m mod 10 = n mod 10"
    using 1(2) step [of m] step [of n] by (auto simp: digit_char_inj)
  then have "m div 10 = n div 10"
    using 1(1) by (cases "m < 10"; cases "n < 10")
      (auto simp: nat_text_not_empty nat_text_not_empty [symmetric])
  with last show ?case by (metis div_mult_mod_eq)
qed

lemma number_text_inj: "number_text i = number_text j \<longleftrightarrow> i = j"
proof
  assume eq: "number_text i = number_text j"
  have "number_text k = CHR ''-'' # nat_text (nat (- k)) \<and> k < 0 \<or>
      number_text k = nat_text (nat k) \<and> 0 \<le> k" for k
    by (simp add: number_text_def)
  from this [of i] this [of j] eq nat_text_no_minus show "i = j"
    by (auto dest!: nat_text_inj) (metis list.set_intros(1))+
qed simp

lemma le_bytes_2_inj:
  assumes "le_bytes_2 m = Inr bs" "le_bytes_2 n = Inr bs" "0 \<le> m" "0 \<le> n"
  shows "m = n"
proof -
  have "m mod 256 = n mod 256" "m div 256 = n div 256"
    using assms by (auto simp: le_bytes_2_def split: if_splits)
  then show ?thesis by (metis mult_div_mod_eq)
qed

lemma set_spread_set [simp]: "set (set_spread xs) = set xs" "distinct (set_spread xs)"
  by (simp_all add: set_spread_def)

end
