(* ===== verification/Pool_Utils.thy ===== *)
theory Pool_Utils
  imports Token_Extension Position_Util Pda_Utils
begin

text \<open>
  Pools (\<^verbatim>\<open>sdk/src/utils/public/pool-utils.ts\<close>, with \<^verbatim>\<open>types.ts\<close> and \<^verbatim>\<open>utils/constants.ts\<close>): token
  types, fee rates, the order of two mints, token amounts of a liquidity and back, the
  quote token of a pair, and which tokens a pool accepts. The bytes of a key are the
  parameter \<open>toBuffer\<close>; \<open>decimal_round\<close> adds to the \<^verbatim>\<open>Decimal\<close> operations those this file calls.
\<close>

datatype SwapDirection = AtoB | BtoA

datatype TokenType = TokenA | TokenB

record TokenAmounts =
  tokenA :: int
  tokenB :: int

definition getTokenType :: "WhirlpoolData \<Rightarrow> pubkey \<Rightarrow> TokenType option" where
  "getTokenType pool mint =
     (if wp_tokenMintA pool = mint then Some TokenA
      else if wp_tokenMintB pool = mint then Some TokenB
      else None)"

definition getFeeRate :: "int \<Rightarrow> percentage" where
  "getFeeRate feeRate = \<lparr>numerator = feeRate, denominator = 1000000\<rparr>"

definition getProtocolFeeRate :: "int \<Rightarrow> percentage" where
  "getProtocolFeeRate protocolFeeRate = \<lparr>numerator = protocolFeeRate, denominator = 10000\<rparr>"

subsection \<open>The order of mints\<close>

text \<open>\<^verbatim>\<open>Buffer.compare\<close>: the sign of the lexicographic comparison of two byte arrays.\<close>

fun buffer_compare :: "int list \<Rightarrow> int list \<Rightarrow> int" where
  "buffer_compare [] [] = 0"
| "buffer_compare [] (y # ys) = - 1"
| "buffer_compare (x # xs) [] = 1"
| "buffer_compare (x # xs) (y # ys) =
     (if x < y then - 1 else if y < x then 1 else buffer_compare xs ys)"

definition compareMints :: "(pubkey \<Rightarrow> int list) \<Rightarrow> pubkey \<Rightarrow> pubkey \<Rightarrow> int" where
  "compareMints toBuffer mintX mintY = buffer_compare (toBuffer mintX) (toBuffer mintY)"

definition orderMints :: "(pubkey \<Rightarrow> int list) \<Rightarrow> pubkey \<Rightarrow> pubkey \<Rightarrow> pubkey \<times> pubkey" where
  "orderMints toBuffer mintX mintY =
     (if compareMints toBuffer mintX mintY < 0 then (mintX, mintY) else (mintY, mintX))"

definition TOKEN_MINTS :: "(string \<times> pubkey) list" where
  "TOKEN_MINTS =
     [(''USDC'', ''EPjFWdd5AufqSSqeM2qN1xzybapC8G4wEGGkZwyTDt1v''),
      (''SOL'', ''So11111111111111111111111111111111111111112''),
      (''USDT'', ''Es9vMFrzaCERmJfrF4H2FYD4KCoNkY11McCe8BenwNYB''),
      (''USDH'', ''USDH1SM1ojwWUga67PGrgFWUHibbjqMvuMaDkRJTgkX''),
      (''mSOL'', ''mSoLzYCxHdYgdzU16g5QSh3i5K3z3KZK7ytfqcJm7So''),
      (''stSOL'', ''7dHbWXmci3dT8UFYWYZweBLXgycu7Y3iL6trKn1Y7ARj'')]"

definition QUOTE_TOKENS :: "(pubkey \<times> int) list" where
  "QUOTE_TOKENS = map (\<lambda>(name, p). (the (map_of TOKEN_MINTS name), p))
     [(''USDT'', 100), (''USDC'', 90), (''USDH'', 80), (''SOL'', 70), (''mSOL'', 60), (''stSOL'', 50)]"

definition DEFAULT_QUOTE_PRIORITY :: int where "DEFAULT_QUOTE_PRIORITY = 0"

definition getQuoteTokenPriority :: "pubkey \<Rightarrow> int" where
  "getQuoteTokenPriority mint =
     (case map_of QUOTE_TOKENS mint of
        Some value \<Rightarrow> if value \<noteq> 0 then value else DEFAULT_QUOTE_PRIORITY
      | None \<Rightarrow> DEFAULT_QUOTE_PRIORITY)"

definition sortByQuotePriority :: "pubkey \<Rightarrow> pubkey \<Rightarrow> int" where
  "sortByQuotePriority mintLeft mintRight = getQuoteTokenPriority mintLeft - getQuoteTokenPriority mintRight"

text \<open>A stable sort of two elements swaps them when the comparison is positive.\<close>

definition toBaseQuoteOrder :: "pubkey \<Rightarrow> pubkey \<Rightarrow> pubkey \<times> pubkey" where
  "toBaseQuoteOrder tokenMintAKey tokenMintBKey =
     (if sortByQuotePriority tokenMintAKey tokenMintBKey > 0 then (tokenMintBKey, tokenMintAKey)
      else (tokenMintAKey, tokenMintBKey))"

subsection \<open>Amounts and liquidity\<close>

record 'd decimal_round =
  dr_ops :: "'d decimal_ops"
  toX64_Decimal :: "'d \<Rightarrow> 'd"
  fromX64_Decimal :: "'d \<Rightarrow> 'd"
  dr_ceil :: "'d \<Rightarrow> int"
  dr_floor :: "'d \<Rightarrow> int"

definition getTokenAmountsFromLiquidity ::
    "'d decimal_round \<Rightarrow> int \<Rightarrow> int \<Rightarrow> int \<Rightarrow> int \<Rightarrow> bool \<Rightarrow> TokenAmounts" where
  "getTokenAmountsFromLiquidity dr liquidity currentSqrtPrice lowerSqrtPrice upperSqrtPrice round_up =
     (let dec = dr_ops dr;
          L = dec_ofBN dec liquidity;
          currentPrice = dec_ofBN dec currentSqrtPrice;
          lowerPrice = dec_ofBN dec lowerSqrtPrice;
          upperPrice = dec_ofBN dec upperSqrtPrice;
          (a, b) =
            (if currentSqrtPrice < lowerSqrtPrice
             then (dec_div dec (dec_mul dec (toX64_Decimal dr L) (dec_sub dec upperPrice lowerPrice))
                     (dec_mul dec lowerPrice upperPrice),
                   dec_ofBN dec 0)
             else if currentSqrtPrice < upperSqrtPrice
             then (dec_div dec (dec_mul dec (toX64_Decimal dr L) (dec_sub dec upperPrice currentPrice))
                     (dec_mul dec currentPrice upperPrice),
                   fromX64_Decimal dr (dec_mul dec L (dec_sub dec currentPrice lowerPrice)))
             else (dec_ofBN dec 0,
                   fromX64_Decimal dr (dec_mul dec L (dec_sub dec upperPrice lowerPrice)))) in
      if round_up then \<lparr>tokenA = dr_ceil dr a, tokenB = dr_ceil dr b\<rparr>
      else \<lparr>tokenA = dr_floor dr a, tokenB = dr_floor dr b\<rparr>)"

definition estLiquidityForTokenA :: "math_util \<Rightarrow> int \<Rightarrow> int \<Rightarrow> int \<Rightarrow> int res" where
  "estLiquidityForTokenA mu sqrtPrice1 sqrtPrice2 tokenAmount =
     (let lowerSqrtPriceX64 = min sqrtPrice1 sqrtPrice2;
          upperSqrtPriceX64 = max sqrtPrice1 sqrtPrice2 in
      bindE (fromX64_BN mu (tokenAmount * upperSqrtPriceX64 * lowerSqrtPriceX64)) (\<lambda>num.
      let dem = upperSqrtPriceX64 - lowerSqrtPriceX64 in
      bn_div num dem))"

definition estLiquidityForTokenB :: "int \<Rightarrow> int \<Rightarrow> int \<Rightarrow> int res" where
  "estLiquidityForTokenB sqrtPrice1 sqrtPrice2 tokenAmount =
     (let lowerSqrtPriceX64 = min sqrtPrice1 sqrtPrice2;
          upperSqrtPriceX64 = max sqrtPrice1 sqrtPrice2;
          delta = upperSqrtPriceX64 - lowerSqrtPriceX64 in
      bindE (bn_shln tokenAmount 64) (\<lambda>shifted. bn_div shifted delta))"

definition estimateLiquidityFromTokenAmounts ::
    "math_util \<Rightarrow> int \<Rightarrow> int \<Rightarrow> int \<Rightarrow> TokenAmounts \<Rightarrow> int res" where
  "estimateLiquidityFromTokenAmounts mu currTick lowerTick upperTick tokenAmount =
     (if upperTick < lowerTick then Inl PlainError
      else
        let currSqrtPrice = tickIndexToSqrtPriceX64 currTick;
            lowerSqrtPrice = tickIndexToSqrtPriceX64 lowerTick;
            upperSqrtPrice = tickIndexToSqrtPriceX64 upperTick in
        if currTick \<ge> upperTick then estLiquidityForTokenB upperSqrtPrice lowerSqrtPrice (tokenB tokenAmount)
        else if currTick < lowerTick
        then estLiquidityForTokenA mu lowerSqrtPrice upperSqrtPrice (tokenA tokenAmount)
        else
          bindE (estLiquidityForTokenA mu currSqrtPrice upperSqrtPrice (tokenA tokenAmount))
            (\<lambda>estLiquidityAmountA.
          bindE (estLiquidityForTokenB currSqrtPrice lowerSqrtPrice (tokenB tokenAmount))
            (\<lambda>estLiquidityAmountB.
          Inr (min estLiquidityAmountA estLiquidityAmountB))))"

definition toTokenAmount :: "int \<Rightarrow> int \<Rightarrow> TokenAmounts" where
  "toTokenAmount a b = \<lparr>tokenA = a, tokenB = b\<rparr>"

subsection \<open>Supported tokens\<close>

text \<open>The loop over the extensions of a mint; \<open>badge\<close> is whether its token badge exists.\<close>

fun extensions_supported :: "'c spl_token \<Rightarrow> mint_info \<Rightarrow> bool \<Rightarrow> ExtensionType list \<Rightarrow> bool res" where
  "extensions_supported spl mint badge [] = Inr True"
| "extensions_supported spl mint badge (extension # extensions) =
     (case extension of
        TransferFeeConfig \<Rightarrow> extensions_supported spl mint badge extensions
      | TokenMetadata \<Rightarrow> extensions_supported spl mint badge extensions
      | MetadataPointer \<Rightarrow> extensions_supported spl mint badge extensions
      | ConfidentialTransferMint \<Rightarrow> extensions_supported spl mint badge extensions
      | ConfidentialTransferFeeConfig \<Rightarrow> extensions_supported spl mint badge extensions
      | PermanentDelegate \<Rightarrow> if \<not> badge then Inr False else extensions_supported spl mint badge extensions
      | TransferHook \<Rightarrow> if \<not> badge then Inr False else extensions_supported spl mint badge extensions
      | MintCloseAuthority \<Rightarrow> if \<not> badge then Inr False else extensions_supported spl mint badge extensions
      | DefaultAccountState \<Rightarrow>
          if \<not> badge then Inr False
          else (case getDefaultAccountState spl mint of
                  None \<Rightarrow> Inl TypeError
                | Some state \<Rightarrow>
                    if state \<noteq> Initialized then Inr False
                    else extensions_supported spl mint badge extensions)
      | NonTransferable \<Rightarrow> Inr False
      | OtherExtension _ \<Rightarrow> Inr False)"

text \<open>
  \<open>getMintInfo\<close> and \<open>getTokenBadge\<close> are the fetcher's calls; a token badge that exists is
  \<open>True\<close>, as the code only tests for null.
\<close>

definition isSupportedToken ::
    "'c spl_token \<Rightarrow> find_program_address \<Rightarrow> (pubkey \<Rightarrow> mint_info option) \<Rightarrow> (pubkey \<Rightarrow> bool) \<Rightarrow>
     pubkey \<Rightarrow> pubkey \<Rightarrow> pubkey \<Rightarrow> bool res" where
  "isSupportedToken spl findProgramAddress getMintInfo tokenBadgeExists programId whirlpoolsConfig tokenMintKey =
     (case getMintInfo tokenMintKey of
        None \<Rightarrow> Inl InvariantError
      | Some mintWithTokenProgram \<Rightarrow>
          if mi_tokenProgram mintWithTokenProgram = TOKEN_PROGRAM_ID spl then Inr True
          else if mi_address mintWithTokenProgram = NATIVE_MINT_2022 spl then Inr False
          else
            let tokenBadgePda = getTokenBadge findProgramAddress programId whirlpoolsConfig tokenMintKey;
                isTokenBadgeInitialized = tokenBadgeExists (publicKey tokenBadgePda) in
            if mi_freezeAuthority mintWithTokenProgram \<noteq> None \<and> \<not> isTokenBadgeInitialized then Inr False
            else extensions_supported spl mintWithTokenProgram isTokenBadgeInitialized
              (getExtensionTypes spl (mi_tlvData mintWithTokenProgram)))"


subsection \<open>Estimated liquidity\<close>

lemma estLiquidityForTokenA_eq:
  assumes "math_util_ok mu" "0 \<le> amount" "0 < p" "p < q"
  shows "estLiquidityForTokenA mu p q amount = Inr (amount * p * q div 2 ^ 64 div (q - p))"
proof -
  have n: "0 \<le> amount * q * p" using assms by simp
  then have "0 \<le> amount * q * p div 2 ^ 64" by (simp add: pos_imp_zdiv_nonneg_iff)
  then show ?thesis
    using assms math_util_okD(1) [OF assms(1) n] by (simp add: estLiquidityForTokenA_def bn_nonneg Let_def mult.commute mult.left_commute)
qed

lemma estLiquidityForTokenB_eq:
  assumes "0 \<le> amount"
  shows "estLiquidityForTokenB p q amount = (if p = q then Inl BnAssertion else Inr (amount * 2 ^ 64 div \<bar>q - p\<bar>))"
proof (cases "p = q")
  case True
  with assms show ?thesis by (simp add: estLiquidityForTokenB_def bn_shln_def bn_div_def Let_def)
next
  case False
  have "max p q - min p q = \<bar>q - p\<bar>" by simp
  with False assms show ?thesis by (simp add: estLiquidityForTokenB_def bn_nonneg Let_def del: max_min_same)
qed

text \<open>A liquidity that a side can afford: the amounts between two prices, rounded for the pool.\<close>

definition affords_A :: "math_util \<Rightarrow> int \<Rightarrow> int \<Rightarrow> int \<Rightarrow> int \<Rightarrow> bool" where
  "affords_A mu L p q amount \<longleftrightarrow> (\<exists>a. getTokenAFromLiquidity mu L p q True = Inr a \<and> 0 \<le> a \<and> a \<le> amount)"

definition affords_B :: "math_util \<Rightarrow> int \<Rightarrow> int \<Rightarrow> int \<Rightarrow> int \<Rightarrow> bool" where
  "affords_B mu L p q amount \<longleftrightarrow> (\<exists>b. getTokenBFromLiquidity mu L p q False = Inr b \<and> 0 \<le> b \<and> b \<le> amount)"

lemma affords_A_le:
  assumes mu: "math_util_ok mu" and n: "0 \<le> amount" "0 < p" "p < q"
    and L: "0 \<le> L" "L \<le> amount * p * q div 2 ^ 64 div (q - p)"
  shows "affords_A mu L p q amount"
proof -
  let ?d = "(q - p) * 2 ^ 64"
  have "L \<le> amount * p * q div ?d" using L(2) n zdiv_zmult2_eq [of "q - p" "amount * p * q" "2 ^ 64"]
    by (simp only: mult.commute [of "q - p"])
  then have "L * (q - p) * 2 ^ 64 \<le> amount * p * q"
    using n by (subst (asm) le_div_iff_int) (simp_all add: mult.assoc)
  then show ?thesis using token_a_back [OF mu n(2,3) L(1)] by (simp add: affords_A_def)
qed

lemma affords_B_le:
  assumes mu: "math_util_ok mu" and n: "0 \<le> amount" "p < q" and L: "0 \<le> L" "L \<le> amount * 2 ^ 64 div (q - p)"
  shows "affords_B mu L p q amount"
proof -
  have "L * (q - p) \<le> amount * 2 ^ 64" using n L by (subst le_div_iff_int [symmetric]) simp_all
  then show ?thesis using token_b_back [OF mu n(2) L(1), of amount False] by (simp add: affords_B_def)
qed

lemma affords_same:
  assumes "math_util_ok mu" "0 \<le> L" "0 < p" "0 \<le> amount"
  shows "affords_A mu L p p amount" "affords_B mu L p p amount"
  using assms by (simp_all add: affords_A_def affords_B_def getTokenAFromLiquidity_eq getTokenBFromLiquidity_eq)

lemma estimate_cases:
  assumes mu: "math_util_ok mu" and n: "0 \<le> tokenA amounts" "0 \<le> tokenB amounts"
    and b: "checkTickInBounds cur" "checkTickInBounds lower" "checkTickInBounds upper" "lower < upper"
  defines "price \<equiv> tickIndexToSqrtPriceX64"
  shows "case estimateLiquidityFromTokenAmounts mu cur lower upper amounts of
      Inl e \<Rightarrow> e = BnAssertion \<and> cur = lower
    | Inr L \<Rightarrow> cur \<noteq> lower \<and> 0 \<le> L \<and>
        affords_A mu L (price (max lower (min cur upper))) (price upper) (tokenA amounts) \<and>
        affords_B mu L (price lower) (price (max lower (min cur upper))) (tokenB amounts)"
proof -
  have less: "price s < price t \<longleftrightarrow> s < t" if "checkTickInBounds s" "checkTickInBounds t" for s t
    using that tick_price.price_less_iff [of s t]
    by (simp add: price_def checkTickInBounds_def MIN_TICK_INDEX_def MAX_TICK_INDEX_def)
  have pos: "0 < price t" if "checkTickInBounds t" for t
    using price_in_bounds(1) [OF that] by (simp add: price_def MIN_SQRT_PRICE_def)
  have range: "price lower < price upper" using less b by simp
  note A = estLiquidityForTokenA_eq [OF mu n(1)] and B = estLiquidityForTokenB_eq [OF n(2)]
  have LA: "0 \<le> tokenA amounts * p * q div 2 ^ 64 div (q - p)" if "0 < p" "p < q" for p q
    using that n by (simp add: pos_imp_zdiv_nonneg_iff)
  have LB: "0 \<le> tokenB amounts * 2 ^ 64 div (q - p)" if "p < q" for p q
    using that n by (simp add: pos_imp_zdiv_nonneg_iff)
  consider "upper \<le> cur" | "cur < lower" | "cur = lower" | "lower < cur" "cur < upper" by linarith
  then show ?thesis
  proof cases
    case 1
    then have "estimateLiquidityFromTokenAmounts mu cur lower upper amounts =
        Inr (tokenB amounts * 2 ^ 64 div (price upper - price lower))"
      using b(4) range by (simp add: estimateLiquidityFromTokenAmounts_def B price_def)
    with 1 b LB [OF range] range show ?thesis
      by (auto intro!: affords_same affords_B_le mu n pos)
  next
    case 2
    then have "estimateLiquidityFromTokenAmounts mu cur lower upper amounts =
        Inr (tokenA amounts * price lower * price upper div 2 ^ 64 div (price upper - price lower))"
      using b(4) range pos [OF b(2)] by (simp add: estimateLiquidityFromTokenAmounts_def A price_def)
    with 2 b LA [OF pos [OF b(2)] range] range show ?thesis
      by (auto intro!: affords_same affords_A_le mu n pos)
  next
    case 3
    then have "estimateLiquidityFromTokenAmounts mu cur lower upper amounts = Inl BnAssertion"
      using b(4) range pos [OF b(2)] by (simp add: estimateLiquidityFromTokenAmounts_def A B price_def)
    with 3 show ?thesis by simp
  next
    case 4
    have r: "price cur < price upper" "price lower < price cur" using 4 less b by simp_all
    let ?A = "tokenA amounts * price cur * price upper div 2 ^ 64 div (price upper - price cur)"
    let ?B = "tokenB amounts * 2 ^ 64 div (price cur - price lower)"
    have "estimateLiquidityFromTokenAmounts mu cur lower upper amounts = Inr (min ?A ?B)"
      using 4 b(4) r pos [OF b(1)] by (simp add: estimateLiquidityFromTokenAmounts_def A B price_def Let_def)
    moreover have "0 \<le> min ?A ?B" using LA [OF pos [OF b(1)] r(1)] LB [OF r(2)] by simp
    moreover have "max lower (min cur upper) = cur" using 4 by simp
    ultimately show ?thesis
      using 4 r by (auto intro!: affords_A_le affords_B_le mu n pos b)
  qed
qed

text \<open>
  C21: the estimated liquidity is affordable: the token amounts it is worth over the range,
  at the current tick's price, do not exceed the amounts it was estimated from. The one case
  in which the function throws is a current tick equal to the lower tick, where it divides by
  a zero price difference.
\<close>

theorem estimated_liquidity_affordable:
  assumes "math_util_ok mu" "0 \<le> tokenA amounts" "0 \<le> tokenB amounts"
    and "checkTickInBounds cur" "checkTickInBounds lower" "checkTickInBounds upper" "lower < upper"
  shows "case estimateLiquidityFromTokenAmounts mu cur lower upper amounts of
      Inl e \<Rightarrow> e = BnAssertion \<and> cur = lower
    | Inr L \<Rightarrow> cur \<noteq> lower \<and> 0 \<le> L \<and>
        affords_A mu L (tickIndexToSqrtPriceX64 (max lower (min cur upper))) (tickIndexToSqrtPriceX64 upper) (tokenA amounts) \<and>
        affords_B mu L (tickIndexToSqrtPriceX64 lower) (tickIndexToSqrtPriceX64 (max lower (min cur upper))) (tokenB amounts)"
  by (rule estimate_cases [OF assms])

theorem estimated_liquidity_affordable_witness:
  "\<exists>L. estimateLiquidityFromTokenAmounts math_util_ref 100 0 64 (toTokenAmount 5 1000) = Inr L
     \<and> affords_B math_util_ref L (tickIndexToSqrtPriceX64 0) (tickIndexToSqrtPriceX64 64) 1000"
proof -
  have "checkTickInBounds 0" "checkTickInBounds 64" "checkTickInBounds 100"
    by (simp_all add: checkTickInBounds_def MIN_TICK_INDEX_def MAX_TICK_INDEX_def)
  then show ?thesis
    using estimated_liquidity_affordable [OF math_util_ref_ok, of "toTokenAmount 5 1000" 100 0 64]
    by (auto simp: toTokenAmount_def split: sum.splits)
qed

text \<open>
  a token that is not owned by the first token program is supported exactly when it is
  not the wrapped native mint, a freeze authority comes with a token badge, and every
  extension is allowed: five kinds always, four with a badge (a default account state must be
  \<open>Initialized\<close>), and no other.
\<close>

definition extension_allowed :: "'c spl_token \<Rightarrow> mint_info \<Rightarrow> bool \<Rightarrow> ExtensionType \<Rightarrow> bool" where
  "extension_allowed spl mint badge ext \<longleftrightarrow>
     ext \<in> {TransferFeeConfig, TokenMetadata, MetadataPointer, ConfidentialTransferMint, ConfidentialTransferFeeConfig} \<or>
     badge \<and> ext \<in> {PermanentDelegate, TransferHook, MintCloseAuthority} \<or>
     badge \<and> ext = DefaultAccountState \<and> getDefaultAccountState spl mint = Some Initialized"

lemma extensions_supported_eq:
  assumes "DefaultAccountState \<in> set exts \<longrightarrow> getDefaultAccountState spl mint \<noteq> None"
  shows "extensions_supported spl mint badge exts = Inr (\<forall>ext \<in> set exts. extension_allowed spl mint badge ext)"
  using assms
  by (induction exts) (auto simp: extension_allowed_def split: ExtensionType.splits option.splits)

theorem supported_token_iff:
  assumes "getMintInfo key = Some mint" "mi_tokenProgram mint \<noteq> TOKEN_PROGRAM_ID spl"
    and "DefaultAccountState \<in> set (getExtensionTypes spl (mi_tlvData mint)) \<longrightarrow> getDefaultAccountState spl mint \<noteq> None"
  shows "isSupportedToken spl fpa getMintInfo badgeExists programId config key =
    Inr (let badge = badgeExists (publicKey (getTokenBadge fpa programId config key)) in
      mi_address mint \<noteq> NATIVE_MINT_2022 spl \<and> (mi_freezeAuthority mint = None \<or> badge) \<and>
      (\<forall>ext \<in> set (getExtensionTypes spl (mi_tlvData mint)). extension_allowed spl mint badge ext))"
  using assms by (auto simp: isSupportedToken_def extensions_supported_eq Let_def)

theorem supported_token_iff_witness:
  "isSupportedToken spl_token_ref (\<lambda>_ _. \<lparr>publicKey = ''badge'', bump = 255\<rparr>)
     (\<lambda>k. Some (example_mint k ''token2022'')) (\<lambda>_. False) ''program'' ''config'' ''mint'' = Inr True"
  using supported_token_iff [of "\<lambda>k. Some (example_mint k ''token2022'')" "''mint''" "example_mint ''mint'' ''token2022''" spl_token_ref]
  by (simp add: example_mint_def spl_token_ref_def Let_def)

end
