(* ===== verification/Tick_Sequence.thy ===== *)
theory Tick_Sequence
  imports Tick_Utils
begin

text \<open>
  The tick arrays of a swap (\<^verbatim>\<open>sdk/src/quotes/swap/tick-array-index.ts\<close> and
  \<^verbatim>\<open>tick-array-sequence.ts\<close>). The class \<^verbatim>\<open>TickArraySequence\<close> is the record of its fields; a
  method that sets \<^verbatim>\<open>touchedArrays\<close> returns the updated record with its result. The lemmas
  number the ticks of a spacing consecutively (\<open>ta_of n\<close> is tick \<open>n * tickSpacing\<close>) and show
  that the search walks these numbers in its direction, touches the arrays it passes, and
  stops at the first initialized tick or at the end of the sequence.
\<close>

subsection \<open>Tick array index\<close>

record TickArrayIndex =
  tai_arrayIndex :: int
  tai_offsetIndex :: int
  tai_tickSpacing :: int

definition new_TickArrayIndex :: "int \<Rightarrow> int \<Rightarrow> int \<Rightarrow> TickArrayIndex res" where
  "new_TickArrayIndex arrayIndex offsetIndex tickSpacing =
     (if offsetIndex \<ge> TICK_ARRAY_SIZE then Inl PlainError
      else if offsetIndex < 0 then Inl PlainError
      else if tickSpacing < 0 then Inl PlainError
      else Inr \<lparr>tai_arrayIndex = arrayIndex, tai_offsetIndex = offsetIndex,
                tai_tickSpacing = tickSpacing\<rparr>)"

definition fromTickIndex :: "int \<Rightarrow> int \<Rightarrow> TickArrayIndex res" where
  "fromTickIndex index tickSpacing =
     (let arrayIndex = index div tickSpacing div TICK_ARRAY_SIZE;
          offsetIndex = (index smod (tickSpacing * TICK_ARRAY_SIZE)) div tickSpacing;
          offsetIndex = (if offsetIndex < 0 then TICK_ARRAY_SIZE + offsetIndex else offsetIndex) in
      new_TickArrayIndex arrayIndex offsetIndex tickSpacing)"

definition toTickIndex :: "TickArrayIndex \<Rightarrow> int" where
  "toTickIndex this =
     tai_arrayIndex this * TICK_ARRAY_SIZE * tai_tickSpacing this
     + tai_offsetIndex this * tai_tickSpacing this"

definition toNextInitializableTickIndex :: "TickArrayIndex \<Rightarrow> TickArrayIndex res" where
  "toNextInitializableTickIndex this =
     fromTickIndex (toTickIndex this + tai_tickSpacing this) (tai_tickSpacing this)"

definition toPrevInitializableTickIndex :: "TickArrayIndex \<Rightarrow> TickArrayIndex res" where
  "toPrevInitializableTickIndex this =
     fromTickIndex (toTickIndex this - tai_tickSpacing this) (tai_tickSpacing this)"

subsection \<open>Tick array sequence\<close>

record TickArray =
  tarr_address :: pubkey
  tarr_data :: "TickArrayData option"

text \<open>An \<^verbatim>\<open>InitializedTickArray\<close> is an address with its data.\<close>

record TickArraySequence =
  seq_sequence :: "(pubkey \<times> TickArrayData) list"
  seq_touchedArrays :: "bool list"
  seq_startArrayIndex :: int
  seq_tickSpacing :: int
  seq_aToB :: bool

fun initialized_prefix :: "TickArray list \<Rightarrow> (pubkey \<times> TickArrayData) list" where
  "initialized_prefix [] = []"
| "initialized_prefix (tickArray # rest) =
     (case tarr_data tickArray of
        None \<Rightarrow> []
      | Some data \<Rightarrow> (tarr_address tickArray, data) # initialized_prefix rest)"

definition new_TickArraySequence ::
    "TickArray list \<Rightarrow> int \<Rightarrow> bool \<Rightarrow> TickArraySequence res" where
  "new_TickArraySequence tickArrays tickSpacing aToB =
     (if tickArrays = [] \<or> tarr_data (hd tickArrays) = None then Inl PlainError
      else
        let sequence = initialized_prefix tickArrays in
        bindE (fromTickIndex (ta_startTickIndex (snd (hd sequence))) tickSpacing) (\<lambda>start.
        Inr \<lparr>seq_sequence = sequence, seq_touchedArrays = replicate (length sequence) False,
             seq_startArrayIndex = tai_arrayIndex start, seq_tickSpacing = tickSpacing,
             seq_aToB = aToB\<rparr>))"

definition checkIfIndexIsInTickArrayRange :: "TickArraySequence \<Rightarrow> int \<Rightarrow> int \<Rightarrow> bool" where
  "checkIfIndexIsInTickArrayRange this startTick tickIndex \<longleftrightarrow>
     (let upperBound = startTick + seq_tickSpacing this * TICK_ARRAY_SIZE in
      tickIndex \<ge> startTick \<and> tickIndex < upperBound)"

definition isValidTickArray0 :: "TickArraySequence \<Rightarrow> int \<Rightarrow> bool" where
  "isValidTickArray0 this tickCurrentIndex \<longleftrightarrow>
     (let shift = (if seq_aToB this then 0 else seq_tickSpacing this);
          tickArray = snd (hd (seq_sequence this)) in
      checkIfIndexIsInTickArrayRange this (ta_startTickIndex tickArray) (tickCurrentIndex + shift))"

definition getNumOfTouchedArrays :: "TickArraySequence \<Rightarrow> nat" where
  "getNumOfTouchedArrays this = length (filter (\<lambda>val. val) (seq_touchedArrays this))"

definition getTouchedArrays :: "TickArraySequence \<Rightarrow> nat \<Rightarrow> pubkey list" where
  "getTouchedArrays this minArraySize =
     (let result = map (\<lambda>(touched, address, data). address)
            (filter (\<lambda>(touched, address, data). touched)
              (zip (seq_touchedArrays this) (seq_sequence this))) in
      if length result = 0 then []
      else
        let sizeDiff = int minArraySize - int (length result) in
        if sizeDiff > 0 then result @ replicate (nat sizeDiff) (last result) else result)"

definition getLocalArrayIndex :: "TickArraySequence \<Rightarrow> int \<Rightarrow> int" where
  "getLocalArrayIndex this arrayIndex =
     (if seq_aToB this then seq_startArrayIndex this - arrayIndex
      else arrayIndex - seq_startArrayIndex this)"

definition isArrayIndexInBounds :: "TickArraySequence \<Rightarrow> TickArrayIndex \<Rightarrow> bool" where
  "isArrayIndexInBounds this index \<longleftrightarrow>
     (let localArrayIndex = getLocalArrayIndex this (tai_arrayIndex index);
          seqLength = int (length (seq_sequence this)) in
      localArrayIndex \<ge> 0 \<and> localArrayIndex < seqLength)"

text \<open>
  \<^verbatim>\<open>getTick\<close>. Every element of the sequence has its data, so the branch for a missing array
  is not reachable. A tick array with too few ticks yields \<^verbatim>\<open>undefined\<close>, whose first use by
  the callers is a \<^verbatim>\<open>TypeError\<close>.
\<close>

definition seq_touch :: "TickArraySequence \<Rightarrow> nat \<Rightarrow> TickArraySequence" where
  "seq_touch this k = this\<lparr>seq_touchedArrays := (seq_touchedArrays this)[k := True]\<rparr>"

definition getTick :: "TickArraySequence \<Rightarrow> int \<Rightarrow> (TickData \<times> TickArraySequence) res" where
  "getTick this index =
     bindE (fromTickIndex index (seq_tickSpacing this)) (\<lambda>targetTaIndex.
     if \<not> isArrayIndexInBounds this targetTaIndex then Inl PlainError
     else
       let localArrayIndex = nat (getLocalArrayIndex this (tai_arrayIndex targetTaIndex));
           tickArray = snd (seq_sequence this ! localArrayIndex);
           this' = seq_touch this localArrayIndex in
       if \<not> checkIfIndexIsInTickArrayRange this' (ta_startTickIndex tickArray) index
       then Inl (swap_error TickArraySequenceInvalid)
       else if nat (tai_offsetIndex targetTaIndex) < length (ta_ticks tickArray)
            then Inr (ta_ticks tickArray ! nat (tai_offsetIndex targetTaIndex), this')
            else Inl TypeError)"

text \<open>
  \<^verbatim>\<open>findNextInitializedTickIndex\<close>. The state of its loop is the sequence, the current index
  and what a \<^verbatim>\<open>return\<close> inside the loop has returned.
\<close>

type_synonym find_state = "TickArraySequence \<times> TickArrayIndex \<times> (int \<times> TickData) option"

definition find_cond :: "find_state \<Rightarrow> bool" where
  "find_cond s = (case s of (this, currTaIndex, found) \<Rightarrow>
     found = None \<and> isArrayIndexInBounds this currTaIndex)"

definition find_body :: "find_state \<Rightarrow> find_state res" where
  "find_body s = (case s of (this, currTaIndex, found) \<Rightarrow>
     bindE (getTick this (toTickIndex currTaIndex)) (\<lambda>(currTickData, this').
     if tick_initialized currTickData
     then Inr (this', currTaIndex, Some (toTickIndex currTaIndex, currTickData))
     else
       bindE (if seq_aToB this' then toPrevInitializableTickIndex currTaIndex
              else toNextInitializableTickIndex currTaIndex) (\<lambda>currTaIndex'.
       Inr (this', currTaIndex', None))))"

definition findNextInitializedTickIndex ::
    "TickArraySequence \<Rightarrow> int \<Rightarrow> ((int \<times> TickData option) \<times> TickArraySequence) res" where
  "findNextInitializedTickIndex this currIndex =
     (let searchIndex = (if seq_aToB this then currIndex else currIndex + seq_tickSpacing this) in
      bindE (fromTickIndex searchIndex (seq_tickSpacing this)) (\<lambda>currTaIndex.
      if \<not> isArrayIndexInBounds this currTaIndex then Inl (swap_error TickArraySequenceInvalid)
      else
        bindE (while_res find_cond find_body (this, currTaIndex, None)) (\<lambda>(this', currTaIndex', found).
        case found of
          Some (nextIndex, nextTickData) \<Rightarrow> Inr ((nextIndex, Some nextTickData), this')
        | None \<Rightarrow>
            let lastIndexInArray =
                  max (min (if seq_aToB this' then toTickIndex currTaIndex' + seq_tickSpacing this'
                            else toTickIndex currTaIndex' - 1) MAX_TICK_INDEX) MIN_TICK_INDEX in
            Inr ((lastIndexInArray, None), this'))))"

subsection \<open>Tick numbers\<close>

text \<open>The index of the tick with number \<open>n\<close>, that is of tick \<open>n * ts\<close>.\<close>

definition ta_of :: "int \<Rightarrow> int \<Rightarrow> TickArrayIndex" where
  "ta_of ts n = \<lparr>tai_arrayIndex = n div TICK_ARRAY_SIZE, tai_offsetIndex = n mod TICK_ARRAY_SIZE,
     tai_tickSpacing = ts\<rparr>"

lemma toTickIndex_ta_of: "toTickIndex (ta_of ts n) = n * ts"
  by (simp add: toTickIndex_def ta_of_def) (simp only: distrib_right [symmetric] div_mult_mod_eq)

lemma fromTickIndex_eq:
  assumes "0 < ts"
  shows "fromTickIndex i ts = Inr (ta_of ts (i div ts))"
proof -
  let ?m = "ts * TICK_ARRAY_SIZE" and ?S = TICK_ARRAY_SIZE
  have m: "0 < ?m" using assms by (simp add: TICK_ARRAY_SIZE_def)
  have S: "0 < ?S" by (simp add: TICK_ARRAY_SIZE_def)
  have inner: "(i mod ?m) div ts = (i div ts) mod ?S"
  proof -
    have "i mod ?m = ts * ((i div ts) mod ?S) + i mod ts"
      using assms by (simp add: mod_mult2_eq' TICK_ARRAY_SIZE_def zmod_zmult2_eq)
    with assms show ?thesis by simp
  qed
  let ?o = "(i smod ?m) div ts"
  have "(if ?o < 0 then ?S + ?o else ?o) = (i div ts) mod ?S"
  proof (cases "0 \<le> i")
    case True
    then have "i smod ?m = i mod ?m" using m by (rule smod_nonneg)
    moreover have "0 \<le> (i div ts) mod ?S" using S by simp
    ultimately show ?thesis using inner by simp
  next
    case False
    then have neg: "i smod ?m = - ((- i) mod ?m)" using smod_neg [OF m, of "- i"] by simp
    show ?thesis
    proof (cases "i mod ?m = 0")
      case True
      then show ?thesis using neg inner by (simp add: zmod_zminus1_eq_if)
    next
      case nz: False
      then have s: "i smod ?m = i mod ?m - ?S * ts"
        using neg zmod_zminus1_eq_if [of i ?m] by (simp add: mult.commute)
      have "?o = (i mod ?m) div ts - ?S"
        unfolding s using assms by (simp add: diff_conv_add_uminus [of _ "?S * ts"] del: add_uminus_conv_diff mult_minus_left flip: mult_minus_left)
      moreover have "(i div ts) mod ?S < ?S" using S by simp
      ultimately show ?thesis using inner by simp
    qed
  qed
  moreover have "0 \<le> (i div ts) mod ?S" "(i div ts) mod ?S < ?S" using S by simp_all
  ultimately show ?thesis
    using assms by (simp add: fromTickIndex_def new_TickArrayIndex_def ta_of_def Let_def)
qed

lemma ta_of_neighbours:
  assumes "0 < ts"
  shows "toNextInitializableTickIndex (ta_of ts n) = Inr (ta_of ts (n + 1))"
    "toPrevInitializableTickIndex (ta_of ts n) = Inr (ta_of ts (n - 1))"
proof -
  have "n * ts + ts = (n + 1) * ts" "n * ts - ts = (n - 1) * ts" by (simp_all add: algebra_simps)
  with assms show "toNextInitializableTickIndex (ta_of ts n) = Inr (ta_of ts (n + 1))"
    "toPrevInitializableTickIndex (ta_of ts n) = Inr (ta_of ts (n - 1))"
    unfolding toNextInitializableTickIndex_def toPrevInitializableTickIndex_def toTickIndex_ta_of
    by (simp_all only: fromTickIndex_eq [OF assms] ta_of_def TickArrayIndex.simps) simp_all
qed

subsection \<open>Well-formed sequences\<close>

text \<open>
  What a sequence of arrays of one pool, fetched in the direction of the swap, satisfies:
  the arrays are full and adjacent, and only ticks in bounds are initialized.
\<close>

definition seq_dir :: "TickArraySequence \<Rightarrow> int" where
  "seq_dir this = (if seq_aToB this then - 1 else 1)"

definition seq_local :: "TickArraySequence \<Rightarrow> int \<Rightarrow> int" where
  "seq_local this n = getLocalArrayIndex this (n div TICK_ARRAY_SIZE)"

definition seq_in :: "TickArraySequence \<Rightarrow> int \<Rightarrow> bool" where
  "seq_in this n \<longleftrightarrow> 0 \<le> seq_local this n \<and> seq_local this n < int (length (seq_sequence this))"

definition seq_tick :: "TickArraySequence \<Rightarrow> int \<Rightarrow> TickData" where
  "seq_tick this n =
     ta_ticks (snd (seq_sequence this ! nat (seq_local this n))) ! nat (n mod TICK_ARRAY_SIZE)"

definition seq_init :: "TickArraySequence \<Rightarrow> int \<Rightarrow> bool" where
  "seq_init this n \<longleftrightarrow> seq_in this n \<and> tick_initialized (seq_tick this n)"

definition seq_wf :: "TickArraySequence \<Rightarrow> bool" where
  "seq_wf this \<longleftrightarrow>
     0 < seq_tickSpacing this \<and>
     length (seq_touchedArrays this) = length (seq_sequence this) \<and>
     (\<forall>k < length (seq_sequence this).
        int (length (ta_ticks (snd (seq_sequence this ! k)))) = TICK_ARRAY_SIZE \<and>
        ta_startTickIndex (snd (seq_sequence this ! k)) =
          (seq_startArrayIndex this + seq_dir this * int k) * (seq_tickSpacing this * TICK_ARRAY_SIZE)) \<and>
     (\<forall>n. seq_init this n \<longrightarrow> checkTickInBounds (n * seq_tickSpacing this))"

text \<open>Two states of the same sequence: only \<^verbatim>\<open>touchedArrays\<close> changes.\<close>

definition same_seq :: "TickArraySequence \<Rightarrow> TickArraySequence \<Rightarrow> bool" where
  "same_seq this this' \<longleftrightarrow>
     this' = this\<lparr>seq_touchedArrays := seq_touchedArrays this'\<rparr> \<and>
     length (seq_touchedArrays this') = length (seq_touchedArrays this)"

definition touched_set :: "TickArraySequence \<Rightarrow> int set" where
  "touched_set this = {int k | k. k < length (seq_touchedArrays this) \<and> seq_touchedArrays this ! k}"

lemma same_seq_refl [simp]: "same_seq this this"
  by (simp add: same_seq_def)

lemma same_seq_trans: "same_seq a b \<Longrightarrow> same_seq b c \<Longrightarrow> same_seq a c"
  by (cases a; cases b; cases c) (simp add: same_seq_def)

lemma same_seq_fields:
  assumes "same_seq this this'"
  shows "seq_sequence this' = seq_sequence this" "seq_startArrayIndex this' = seq_startArrayIndex this"
    "seq_tickSpacing this' = seq_tickSpacing this" "seq_aToB this' = seq_aToB this"
    "length (seq_touchedArrays this') = length (seq_touchedArrays this)"
  using assms by (cases this; cases this'; simp add: same_seq_def)+

lemma same_seq_defs:
  assumes "same_seq this this'"
  shows "seq_dir this' = seq_dir this" "seq_local this' = seq_local this" "seq_in this' = seq_in this"
    "seq_tick this' = seq_tick this" "seq_init this' = seq_init this" "seq_wf this' \<longleftrightarrow> seq_wf this"
    "isArrayIndexInBounds this' = isArrayIndexInBounds this"
  using same_seq_fields [OF assms]
  by (auto simp: seq_dir_def seq_local_def seq_in_def seq_tick_def seq_init_def seq_wf_def fun_eq_iff
      getLocalArrayIndex_def isArrayIndexInBounds_def)

lemma seq_touch_same: "same_seq this (seq_touch this k)"
  by (simp add: same_seq_def seq_touch_def)

lemma seq_touch_set:
  "k < length (seq_touchedArrays this) \<Longrightarrow> touched_set (seq_touch this k) = insert (int k) (touched_set this)"
  by (auto simp: touched_set_def seq_touch_def nth_list_update)

lemma seq_in_bounds: "isArrayIndexInBounds this (ta_of ts n) \<longleftrightarrow> seq_in this n"
  by (simp add: isArrayIndexInBounds_def seq_in_def seq_local_def ta_of_def Let_def)

text \<open>In a well-formed sequence a tick whose array is there is read, and its array touched.\<close>

lemma getTick_eq:
  assumes wf: "seq_wf this" and i: "n = i div seq_tickSpacing this" and "in": "seq_in this n"
  shows "getTick this i = Inr (seq_tick this n, seq_touch this (nat (seq_local this n)))"
proof -
  let ?ts = "seq_tickSpacing this" and ?k = "nat (seq_local this n)" and ?S = TICK_ARRAY_SIZE
  have ts: "0 < ?ts" using wf by (simp add: seq_wf_def)
  have k: "?k < length (seq_sequence this)" "int ?k = seq_local this n"
    using "in" by (auto simp: seq_in_def)
  have "seq_startArrayIndex this + seq_dir this * seq_local this n = n div ?S"
    by (simp add: seq_dir_def seq_local_def getLocalArrayIndex_def)
  then have start: "ta_startTickIndex (snd (seq_sequence this ! ?k)) = array_start i ?ts"
    and len: "int (length (ta_ticks (snd (seq_sequence this ! ?k)))) = ?S"
    using wf k ts by (simp_all add: seq_wf_def array_start_def i zdiv_zmult2_eq TICK_ARRAY_SIZE_def)
  have "nat (n mod ?S) < length (ta_ticks (snd (seq_sequence this ! ?k)))"
    using len by (simp add: TICK_ARRAY_SIZE_def nat_less_iff)
  with start array_start_bounds [OF ts, of i] "in" show ?thesis
    using ts by (simp add: getTick_def fromTickIndex_eq i [symmetric] seq_in_bounds Let_def seq_tick_def
        checkIfIndexIsInTickArrayRange_def seq_touch_def)
      (simp add: ta_of_def seq_local_def)
qed

lemma getTick_out: "0 < seq_tickSpacing this \<Longrightarrow> \<not> seq_in this (i div seq_tickSpacing this) \<Longrightarrow>
    getTick this i = Inl PlainError"
  by (simp add: getTick_def fromTickIndex_eq seq_in_bounds)

subsection \<open>The search\<close>

text \<open>How many ticks the search may still visit from number \<open>n\<close>.\<close>

definition seq_left :: "TickArraySequence \<Rightarrow> int \<Rightarrow> nat" where
  "seq_left this n =
     (if seq_aToB this
      then nat (n + 1 - (seq_startArrayIndex this - int (length (seq_sequence this)) + 1) * TICK_ARRAY_SIZE)
      else nat ((seq_startArrayIndex this + int (length (seq_sequence this))) * TICK_ARRAY_SIZE - n))"

lemma seq_in_iff:
  "seq_in this n \<longleftrightarrow>
     (if seq_aToB this
      then (seq_startArrayIndex this - int (length (seq_sequence this)) + 1) * TICK_ARRAY_SIZE \<le> n
        \<and> n < (seq_startArrayIndex this + 1) * TICK_ARRAY_SIZE
      else seq_startArrayIndex this * TICK_ARRAY_SIZE \<le> n
        \<and> n < (seq_startArrayIndex this + int (length (seq_sequence this))) * TICK_ARRAY_SIZE)"
proof -
  have S: "0 < TICK_ARRAY_SIZE" by (simp add: TICK_ARRAY_SIZE_def)
  show ?thesis
    using le_div_iff_int [OF S, of "seq_startArrayIndex this - int (length (seq_sequence this)) + 1" n]
      le_div_iff_int [OF S, of "seq_startArrayIndex this + 1" n]
      le_div_iff_int [OF S, of "seq_startArrayIndex this" n]
      le_div_iff_int [OF S, of "seq_startArrayIndex this + int (length (seq_sequence this))" n]
    by (auto simp: seq_in_def seq_local_def getLocalArrayIndex_def)
qed

lemma seq_left_less: "seq_in this n \<Longrightarrow> seq_left this (n + seq_dir this) < seq_left this n"
  by (auto simp: seq_in_iff seq_left_def seq_dir_def)

text \<open>The numbers from \<open>n\<close> on in the direction of the search, up to and including the \<open>j\<close>-th.\<close>

definition walk :: "TickArraySequence \<Rightarrow> int \<Rightarrow> nat \<Rightarrow> int" where
  "walk this n j = n + seq_dir this * int j"

lemma walk_simps: "walk this n 0 = n" "walk this n (Suc j) = walk this (n + seq_dir this) j"
  by (simp_all add: walk_def algebra_simps)

text \<open>What the loop from number \<open>n\<close> has done when it ends after \<open>j\<close> steps.\<close>

definition find_result ::
    "TickArraySequence \<Rightarrow> int \<Rightarrow> nat \<Rightarrow> TickArraySequence \<Rightarrow> (int \<times> TickData) option \<Rightarrow> bool" where
  "find_result this n j this' found \<longleftrightarrow>
     same_seq this this' \<and>
     (\<forall>i < j. seq_in this (walk this n i) \<and> \<not> seq_init this (walk this n i)) \<and>
     (seq_in this (walk this n j) \<longleftrightarrow> seq_init this (walk this n j)) \<and>
     found = (if seq_init this (walk this n j)
       then Some (walk this n j * seq_tickSpacing this, seq_tick this (walk this n j)) else None) \<and>
     touched_set this' = touched_set this \<union>
       seq_local this ` {m. \<exists>i \<le> j. m = walk this n i \<and> seq_in this m}"

lemma find_loop:
  "seq_wf this \<Longrightarrow> \<exists>j this' found.
     while_res find_cond find_body (this, ta_of (seq_tickSpacing this) n, None) =
       Inr (this', ta_of (seq_tickSpacing this) (walk this n j), found) \<and>
     find_result this n j this' found"
proof (induction "seq_left this n" arbitrary: this n rule: less_induct)
  case less
  let ?ts = "seq_tickSpacing this"
  have ts: "0 < ?ts" using less.prems by (simp add: seq_wf_def)
  show ?case
  proof (cases "seq_in this n")
    case False
    then have "while_res find_cond find_body (this, ta_of ?ts n, None) = Inr (this, ta_of ?ts n, None)"
      by (subst while_res_unfold) (simp add: find_cond_def seq_in_bounds)
    with False show ?thesis
      by (intro exI [of _ 0] exI [of _ this] exI [of _ None]) (auto simp: find_result_def walk_simps seq_init_def)
  next
    case True
    define this1 where "this1 = seq_touch this (nat (seq_local this n))"
    have same1: "same_seq this this1" by (simp add: this1_def seq_touch_same)
    note d = same_seq_defs [OF same1] same_seq_fields [OF same1]
    have touched1: "touched_set this1 = insert (seq_local this n) (touched_set this)"
      using True less.prems seq_touch_set [of "nat (seq_local this n)" this]
      by (auto simp: this1_def seq_in_def seq_wf_def)
    have get: "getTick this (n * ?ts) = Inr (seq_tick this n, this1)"
      using getTick_eq [OF less.prems _ True] ts by (simp add: this1_def)
    have cond: "find_cond (this, ta_of ?ts n, None)" using True by (simp add: find_cond_def seq_in_bounds)
    show ?thesis
    proof (cases "tick_initialized (seq_tick this n)")
      case init: True
      then have "while_res find_cond find_body (this, ta_of ?ts n, None) =
          Inr (this1, ta_of ?ts n, Some (n * ?ts, seq_tick this n))"
        using cond
        by (subst while_res_unfold) (simp add: find_body_def toTickIndex_ta_of get, subst while_res_unfold,
            simp add: find_cond_def)
      with True init same1 touched1 show ?thesis
        by (intro exI [of _ 0] exI [of _ this1] exI [of _ "Some (n * ?ts, seq_tick this n)"])
          (auto simp: find_result_def walk_simps seq_init_def)
    next
      case no_init: False
      have step: "while_res find_cond find_body (this, ta_of ?ts n, None) =
          while_res find_cond find_body (this1, ta_of (seq_tickSpacing this1) (n + seq_dir this1), None)"
        using cond no_init ts
        by (subst while_res_unfold)
          (simp add: find_body_def toTickIndex_ta_of get ta_of_neighbours d seq_dir_def)
      have "seq_left this1 = seq_left this" by (simp add: seq_left_def fun_eq_iff d)
      then have smaller: "seq_left this1 (n + seq_dir this1) < seq_left this n"
        using seq_left_less [OF True] by (simp only: d)
      have "seq_wf this1" using less.prems d by simp
      from less.hyps [OF smaller this] obtain j this' found where
        run: "while_res find_cond find_body (this1, ta_of (seq_tickSpacing this1) (n + seq_dir this1), None) =
           Inr (this', ta_of (seq_tickSpacing this1) (walk this1 (n + seq_dir this1) j), found)" and
        res: "find_result this1 (n + seq_dir this1) j this' found" by blast
      have w: "walk this1 = walk this" by (simp add: walk_def fun_eq_iff d)
      note res = res [unfolded find_result_def w d, folded walk_simps(2)]
      have visited: "{m. \<exists>i \<le> Suc j. m = walk this n i \<and> seq_in this m} =
          insert n {m. \<exists>i \<le> j. m = walk this n (Suc i) \<and> seq_in this m}"
      proof -
        have "(\<exists>i \<le> Suc j. P i) \<longleftrightarrow> P 0 \<or> (\<exists>i \<le> j. P (Suc i))" for P
          by (metis Suc_le_mono le0 not0_implies_Suc)
        with True show ?thesis by (auto simp: walk_simps(1))
      qed
      have "find_result this n (Suc j) this' found"
        unfolding find_result_def visited
      proof (intro conjI allI impI)
        show "same_seq this this'" using res same1 same_seq_trans by blast
        fix i assume "i < Suc j"
        moreover have "\<forall>i < j. seq_in this (walk this n (Suc i)) \<and> \<not> seq_init this (walk this n (Suc i))"
          using res by blast
        moreover have "seq_in this (walk this n 0)" "\<not> seq_init this (walk this n 0)"
          using True no_init by (simp_all add: walk_simps(1) seq_init_def)
        ultimately show "seq_in this (walk this n i)" "\<not> seq_init this (walk this n i)"
          by (cases i; blast)+
      next
        show "touched_set this' = touched_set this \<union> seq_local this `
            insert n {m. \<exists>i \<le> j. m = walk this n (Suc i) \<and> seq_in this m}"
          using res unfolding touched1 by simp
      qed (use res in blast)+
      moreover have "while_res find_cond find_body (this, ta_of ?ts n, None) =
          Inr (this', ta_of ?ts (walk this n (Suc j)), found)"
        using step run by (simp only: w d walk_simps(2))
      ultimately show ?thesis by blast
    qed
  qed
qed

text \<open>
  The search in terms of tick indices: \<open>seq_ticks\<close> are the initialized ticks of the
  sequence, \<open>search_start\<close> the number the search begins with.
\<close>

definition seq_ticks :: "TickArraySequence \<Rightarrow> int set" where
  "seq_ticks this = (\<lambda>n. n * seq_tickSpacing this) ` {n. seq_init this n}"

definition search_start :: "TickArraySequence \<Rightarrow> int \<Rightarrow> int" where
  "search_start this cur =
     (if seq_aToB this then cur div seq_tickSpacing this else cur div seq_tickSpacing this + 1)"

definition ticks_ahead :: "TickArraySequence \<Rightarrow> int \<Rightarrow> int set" where
  "ticks_ahead this cur = {t \<in> seq_ticks this. if seq_aToB this then t \<le> cur else cur < t}"

definition nearest :: "TickArraySequence \<Rightarrow> int set \<Rightarrow> int option" where
  "nearest this S = (if seq_aToB this then greatest_of S else least_of S)"

text \<open>The tick index the search returns when no initialized tick is ahead.\<close>

definition last_index :: "TickArraySequence \<Rightarrow> int" where
  "last_index this =
     max (min (if seq_aToB this
               then (seq_startArrayIndex this - int (length (seq_sequence this)) + 1) * TICK_ARRAY_SIZE
                      * seq_tickSpacing this
               else (seq_startArrayIndex this + int (length (seq_sequence this))) * TICK_ARRAY_SIZE
                      * seq_tickSpacing this - 1)
           MAX_TICK_INDEX) MIN_TICK_INDEX"

lemma le_mult_iff: "0 < ts \<Longrightarrow> n * ts \<le> (t :: int) \<longleftrightarrow> n \<le> t div ts"
  by (simp add: le_div_iff_int)

lemma ticks_ahead_eq:
  assumes "0 < seq_tickSpacing this"
  shows "ticks_ahead this cur = (\<lambda>n. n * seq_tickSpacing this) `
    {n. seq_init this n \<and> (if seq_aToB this then n \<le> search_start this cur else search_start this cur \<le> n)}"
  using le_mult_iff [OF assms, of _ cur]
  by (auto simp: ticks_ahead_def seq_ticks_def search_start_def linorder_not_le [symmetric] add1_zle_eq)

lemma finite_seq_init: "finite {n. seq_init this n}"
proof (rule finite_subset)
  show "{n. seq_init this n} \<subseteq> {(seq_startArrayIndex this - int (length (seq_sequence this)) + 1) * TICK_ARRAY_SIZE
      ..(seq_startArrayIndex this + 1) * TICK_ARRAY_SIZE}
     \<union> {seq_startArrayIndex this * TICK_ARRAY_SIZE
      ..(seq_startArrayIndex this + int (length (seq_sequence this))) * TICK_ARRAY_SIZE}"
    by (auto simp: seq_init_def seq_in_iff split: if_splits)
qed simp

lemma search_number:
  assumes "0 < seq_tickSpacing this"
  shows "fromTickIndex (if seq_aToB this then cur else cur + seq_tickSpacing this) (seq_tickSpacing this) =
    Inr (ta_of (seq_tickSpacing this) (search_start this cur))"
proof -
  have "(cur + seq_tickSpacing this) div seq_tickSpacing this = cur div seq_tickSpacing this + 1"
    using assms by (subst div_add_self2) auto
  then show ?thesis using assms by (simp only: fromTickIndex_eq search_start_def split: if_split) simp
qed

lemma find_next_out:
  assumes "0 < seq_tickSpacing this" "\<not> seq_in this (search_start this cur)"
  shows "findNextInitializedTickIndex this cur = Inl (swap_error TickArraySequenceInvalid)"
  using assms
  by (simp add: findNextInitializedTickIndex_def search_number seq_in_bounds)

text \<open>A number ahead of the start and before the walk's end is on the walk.\<close>

lemma on_walk:
  assumes "seq_in this m" "if seq_aToB this then m \<le> n else n \<le> m"
    and "if seq_aToB this then n - int j < m else m < n + int j"
  obtains i where "i < j" "m = walk this n i"
proof
  show "nat \<bar>m - n\<bar> < j" "m = walk this n (nat \<bar>m - n\<bar>)"
    using assms(2,3) by (auto simp: walk_def seq_dir_def split: if_splits)
qed

lemma walk_end:
  assumes "seq_in this n" "\<not> seq_in this (walk this n j)"
    and "\<And>i. i < j \<Longrightarrow> seq_in this (walk this n i)"
  shows "walk this n j =
    (if seq_aToB this then (seq_startArrayIndex this - int (length (seq_sequence this)) + 1) * TICK_ARRAY_SIZE - 1
     else (seq_startArrayIndex this + int (length (seq_sequence this))) * TICK_ARRAY_SIZE)"
proof -
  obtain i where j: "j = Suc i" using assms(1,2) by (cases j) (auto simp: walk_simps)
  then have "seq_in this (walk this n i)" using assms(3) by simp
  moreover have "walk this n j = walk this n i + seq_dir this" by (simp add: j walk_def algebra_simps)
  ultimately show ?thesis using assms(2) by (auto simp: seq_in_iff seq_dir_def split: if_splits)
qed

lemma find_next_in:
  assumes wf: "seq_wf this" and "in": "seq_in this (search_start this cur)"
  obtains this' nextIndex nextTickData where
    "findNextInitializedTickIndex this cur = Inr ((nextIndex, nextTickData), this')"
    "same_seq this this'" "touched_set this \<subseteq> touched_set this'"
    "case nearest this (ticks_ahead this cur) of
       Some t \<Rightarrow> nextIndex = t \<and> nextTickData = Some (seq_tick this (t div seq_tickSpacing this))
     | None \<Rightarrow> nextIndex = last_index this \<and> nextTickData = None"
proof -
  let ?ts = "seq_tickSpacing this" and ?n = "search_start this cur"
  have ts: "0 < ?ts" using wf by (simp add: seq_wf_def)
  from find_loop [OF wf, of ?n] obtain j this' found where
    run: "while_res find_cond find_body (this, ta_of ?ts ?n, None) = Inr (this', ta_of ?ts (walk this ?n j), found)"
    and res: "find_result this ?n j this' found" by blast
  have same: "same_seq this this'" using res by (simp add: find_result_def)
  note d = same_seq_fields [OF same]
  have start: "fromTickIndex (if seq_aToB this then cur else cur + ?ts) ?ts = Inr (ta_of ?ts ?n)"
    by (rule search_number [OF ts])
  have before: "seq_in this (walk this ?n i) \<and> \<not> seq_init this (walk this ?n i)" if "i < j" for i
    using res that unfolding find_result_def by blast
  define cand where
    "cand = {m. seq_init this m \<and> (if seq_aToB this then m \<le> ?n else ?n \<le> m)}"
  have fin: "finite cand" unfolding cand_def by (rule finite_subset [OF _ finite_seq_init [of this]]) auto
  have ahead: "ticks_ahead this cur = (\<lambda>n. n * ?ts) ` cand"
    by (simp add: ticks_ahead_eq [OF ts] cand_def)
  have beyond: "if seq_aToB this then m \<le> walk this ?n j else walk this ?n j \<le> m" if "m \<in> cand" for m
  proof (rule ccontr)
    assume "\<not> ?thesis"
    then have "if seq_aToB this then ?n - int j < m else m < ?n + int j"
      by (simp add: walk_def seq_dir_def split: if_splits)
    moreover have m: "seq_in this m" "if seq_aToB this then m \<le> ?n else ?n \<le> m" "seq_init this m"
      using that by (auto simp: cand_def seq_init_def)
    ultimately obtain i where "i < j" "m = walk this ?n i" using on_walk [OF m(1,2)] by blast
    with before m(3) show False by blast
  qed
  show thesis
  proof (cases "seq_init this (walk this ?n j)")
    case True
    then have found: "found = Some (walk this ?n j * ?ts, seq_tick this (walk this ?n j))"
      using res by (simp add: find_result_def)
    have "walk this ?n j \<in> cand" using True by (simp add: cand_def walk_def seq_dir_def)
    then have near: "nearest this (ticks_ahead this cur) = Some (walk this ?n j * ?ts)"
    proof (cases "seq_aToB this")
      case True
      then have "m * ?ts \<le> walk this ?n j * ?ts" if "m \<in> cand" for m
        using beyond [OF that] ts by (simp add: mult_right_mono)
      with True \<open>walk this ?n j \<in> cand\<close> fin show ?thesis
        unfolding nearest_def ahead if_P [OF True] by (intro greatest_ofI) blast+
    next
      case False
      then have "walk this ?n j * ?ts \<le> m * ?ts" if "m \<in> cand" for m
        using beyond [OF that] ts by (simp add: mult_right_mono)
      with False \<open>walk this ?n j \<in> cand\<close> fin show ?thesis
        unfolding nearest_def ahead if_not_P [OF False] by (intro least_ofI) blast+
    qed
    show thesis
    proof (rule that [of "walk this ?n j * ?ts" "Some (seq_tick this (walk this ?n j))" this', OF _ same])
      show "findNextInitializedTickIndex this cur =
          Inr ((walk this ?n j * ?ts, Some (seq_tick this (walk this ?n j))), this')"
        using start "in" run by (simp add: findNextInitializedTickIndex_def seq_in_bounds found)
      show "touched_set this \<subseteq> touched_set this'" using res unfolding find_result_def by blast
    qed (use near ts in simp)
  next
    case False
    then have found: "found = None" and out: "\<not> seq_in this (walk this ?n j)"
      using res by (auto simp: find_result_def)
    note w = walk_end [OF "in" out]
    have "cand = {}"
    proof (rule ccontr)
      assume "cand \<noteq> {}"
      then obtain m where m: "m \<in> cand" by auto
      then have "seq_in this m" by (simp add: cand_def seq_init_def)
      with beyond [OF m] w before show False by (auto simp: seq_in_iff split: if_splits)
    qed
    then have near: "nearest this (ticks_ahead this cur) = None"
      by (simp add: nearest_def ahead greatest_of_def least_of_def)
    have last: "max (min (if seq_aToB this then walk this ?n j * ?ts + ?ts else walk this ?n j * ?ts - 1)
        MAX_TICK_INDEX) MIN_TICK_INDEX = last_index this"
      using w before by (simp add: last_index_def algebra_simps)
    show thesis
    proof (rule that [of "last_index this" None this', OF _ same])
      show "findNextInitializedTickIndex this cur = Inr ((last_index this, None), this')"
        using start "in" run
        by (simp add: findNextInitializedTickIndex_def seq_in_bounds found d toTickIndex_ta_of last cong: if_cong)
      show "touched_set this \<subseteq> touched_set this'" using res unfolding find_result_def by blast
    qed (use near in simp)
  qed
qed

text \<open>
  What the swap relies on: the next tick lies ahead and in bounds, no initialized tick is
  passed over, and a tick that is read there as initialized is one (except that the clamped
  maximum index may share its slot with the tick below).
\<close>

lemma same_seq_search:
  assumes "same_seq this this'"
  shows "seq_ticks this' = seq_ticks this" "search_start this' = search_start this"
    "ticks_ahead this' = ticks_ahead this" "nearest this' = nearest this" "last_index this' = last_index this"
  using same_seq_fields [OF assms] same_seq_defs [OF assms]
  by (simp_all add: seq_ticks_def search_start_def ticks_ahead_def nearest_def last_index_def fun_eq_iff)

lemma finite_ticks: "finite (seq_ticks this)" "finite (ticks_ahead this cur)"
  by (simp_all add: seq_ticks_def ticks_ahead_def finite_seq_init)

lemma nearest_Some:
  assumes "nearest this S = Some t" "finite S"
  shows "t \<in> S" "u \<in> S \<Longrightarrow> if seq_aToB this then u \<le> t else t \<le> u"
  using assms by (auto simp: nearest_def greatest_of_def least_of_def split: if_splits intro!: Max_in Min_in)

lemma nearest_None: "nearest this S = None \<longleftrightarrow> S = {}"
  by (auto simp: nearest_def greatest_of_def least_of_def)

lemma last_index_facts:
  assumes wf: "seq_wf this" and "in": "seq_in this (search_start this cur)"
    and cur: "if seq_aToB this then MIN_TICK_INDEX \<le> cur \<and> cur \<le> MAX_TICK_INDEX
      else MIN_TICK_INDEX - 1 \<le> cur \<and> cur < MAX_TICK_INDEX"
  shows "checkTickInBounds (last_index this)"
    "if seq_aToB this then last_index this \<le> cur else cur < last_index this"
    "\<not> seq_aToB this \<Longrightarrow> last_index this = MAX_TICK_INDEX \<or>
       cur < last_index this div seq_tickSpacing this * seq_tickSpacing this"
proof -
  let ?ts = "seq_tickSpacing this"
  define hi where "hi = (seq_startArrayIndex this + int (length (seq_sequence this))) * TICK_ARRAY_SIZE"
  define lo where "lo = (seq_startArrayIndex this - int (length (seq_sequence this)) + 1) * TICK_ARRAY_SIZE"
  have ts: "0 < ?ts" using wf by (simp add: seq_wf_def)
  show bounds: "checkTickInBounds (last_index this)"
    by (auto simp: checkTickInBounds_def last_index_def MIN_TICK_INDEX_def MAX_TICK_INDEX_def)
  have down: "last_index this = max (min (lo * ?ts) MAX_TICK_INDEX) MIN_TICK_INDEX" "lo * ?ts \<le> cur"
    if "seq_aToB this"
  proof -
    show "last_index this = max (min (lo * ?ts) MAX_TICK_INDEX) MIN_TICK_INDEX"
      using that by (simp add: last_index_def lo_def)
    show "lo * ?ts \<le> cur" using "in" that ts by (simp add: seq_in_iff search_start_def lo_def le_mult_iff)
  qed
  have up: "last_index this = max (min (hi * ?ts - 1) MAX_TICK_INDEX) MIN_TICK_INDEX"
    "cur < (hi - 1) * ?ts" "(hi - 1) * ?ts \<le> hi * ?ts - 1"
    if "\<not> seq_aToB this"
  proof -
    show "last_index this = max (min (hi * ?ts - 1) MAX_TICK_INDEX) MIN_TICK_INDEX"
      using that by (simp add: last_index_def hi_def)
    have "\<not> hi - 1 \<le> cur div ?ts" using "in" that by (simp add: seq_in_iff search_start_def hi_def)
    then show "cur < (hi - 1) * ?ts" using le_mult_iff [OF ts, of "hi - 1" cur] by simp
    show "(hi - 1) * ?ts \<le> hi * ?ts - 1" using ts by (simp add: algebra_simps)
  qed
  show "if seq_aToB this then last_index this \<le> cur else cur < last_index this"
    using down up cur by (auto simp: max_def min_def)
  assume a: "\<not> seq_aToB this"
  show "last_index this = MAX_TICK_INDEX \<or> cur < last_index this div ?ts * ?ts"
  proof (cases "last_index this = hi * ?ts - 1")
    case True
    have "(hi * ?ts - 1) div ?ts = hi - 1"
      by (rule int_div_pos_eq [of _ _ _ "?ts - 1"]) (use ts in \<open>auto simp: algebra_simps\<close>)
    with True up(2) [OF a] show ?thesis by simp
  next
    case False
    with up [OF a] cur a show ?thesis by (auto simp: max_def min_def split: if_splits)
  qed
qed

lemma next_tick_facts:
  assumes wf: "seq_wf this" and "in": "seq_in this (search_start this cur)"
    and cur: "if seq_aToB this then MIN_TICK_INDEX \<le> cur \<and> cur \<le> MAX_TICK_INDEX
      else MIN_TICK_INDEX - 1 \<le> cur \<and> cur < MAX_TICK_INDEX"
    and nx: "case nearest this (ticks_ahead this cur) of Some t \<Rightarrow> nx = t | None \<Rightarrow> nx = last_index this"
  shows "checkTickInBounds nx" "if seq_aToB this then nx \<le> cur else cur < nx"
    "t \<in> seq_ticks this \<Longrightarrow> if seq_aToB this then t \<le> cur \<longrightarrow> t \<le> nx else cur < t \<longrightarrow> nx \<le> t"
    "seq_init this (nx div seq_tickSpacing this) \<Longrightarrow> nx \<in> seq_ticks this \<or> \<not> seq_aToB this \<and> nx = MAX_TICK_INDEX"
proof -
  let ?ts = "seq_tickSpacing this"
  have ts: "0 < ?ts" using wf by (simp add: seq_wf_def)
  have "checkTickInBounds nx \<and> (if seq_aToB this then nx \<le> cur else cur < nx) \<and>
    (\<forall>t \<in> seq_ticks this. if seq_aToB this then t \<le> cur \<longrightarrow> t \<le> nx else cur < t \<longrightarrow> nx \<le> t) \<and>
    (seq_init this (nx div ?ts) \<longrightarrow> nx \<in> seq_ticks this \<or> \<not> seq_aToB this \<and> nx = MAX_TICK_INDEX)"
  proof (cases "nearest this (ticks_ahead this cur)")
    case (Some t)
    note near = nearest_Some [OF Some finite_ticks(2)]
    have "nx = t" using nx Some by simp
    moreover have "checkTickInBounds t"
      using near(1) wf by (auto simp: ticks_ahead_def seq_ticks_def seq_wf_def)
    ultimately show ?thesis using near by (auto simp: ticks_ahead_def)
  next
    case None
    then have nx: "nx = last_index this" using nx by simp
    have empty: "ticks_ahead this cur = {}" using None by (simp add: nearest_None)
    note last = last_index_facts [OF wf "in" cur, folded nx]
    have no: "\<forall>t \<in> seq_ticks this. if seq_aToB this then cur < t else t \<le> cur"
      using empty by (auto simp: ticks_ahead_def)
    have "nx div ?ts * ?ts \<le> nx" using ts by (simp add: le_mult_iff)
    moreover have "nx div ?ts * ?ts \<in> seq_ticks this" if "seq_init this (nx div ?ts)"
      using that by (auto simp: seq_ticks_def)
    ultimately show ?thesis using last no by (cases "seq_aToB this") fastforce+
  qed
  then show "checkTickInBounds nx" "if seq_aToB this then nx \<le> cur else cur < nx"
    "t \<in> seq_ticks this \<Longrightarrow> if seq_aToB this then t \<le> cur \<longrightarrow> t \<le> nx else cur < t \<longrightarrow> nx \<le> t"
    "seq_init this (nx div ?ts) \<Longrightarrow> nx \<in> seq_ticks this \<or> \<not> seq_aToB this \<and> nx = MAX_TICK_INDEX"
    by blast+
qed

subsection \<open>A fresh sequence\<close>

text \<open>
  What the fetched arrays of a pool satisfy: the first is there, each one that is there is
  full and starts where the direction of the swap says, and only ticks in bounds are
  initialized.
\<close>

definition tick_arrays_ok :: "TickArray list \<Rightarrow> int \<Rightarrow> bool \<Rightarrow> bool" where
  "tick_arrays_ok tickArrays ts aToB \<longleftrightarrow>
     0 < ts \<and> tickArrays \<noteq> [] \<and> tarr_data (hd tickArrays) \<noteq> None \<and>
     (let sequence = initialized_prefix tickArrays;
          start = ta_startTickIndex (snd (hd sequence)) in
      (ts * TICK_ARRAY_SIZE) dvd start \<and>
      (\<forall>k \<in> {0..<length sequence}.
         int (length (ta_ticks (snd (sequence ! k)))) = TICK_ARRAY_SIZE \<and>
         ta_startTickIndex (snd (sequence ! k)) =
           start + (if aToB then - 1 else 1) * int k * (ts * TICK_ARRAY_SIZE) \<and>
         (\<forall>j \<in> {0..<length (ta_ticks (snd (sequence ! k)))}.
            tick_initialized (ta_ticks (snd (sequence ! k)) ! j) \<longrightarrow>
            checkTickInBounds (ta_startTickIndex (snd (sequence ! k)) + int j * ts))))"

lemma initialized_prefix_Cons:
  "tickArrays \<noteq> [] \<Longrightarrow> tarr_data (hd tickArrays) \<noteq> None \<Longrightarrow> initialized_prefix tickArrays \<noteq> []"
  by (cases tickArrays) auto

lemma new_TickArraySequence_wf:
  assumes "tick_arrays_ok tickArrays ts aToB"
  obtains this where "new_TickArraySequence tickArrays ts aToB = Inr this" "seq_wf this"
    "touched_set this = {}" "seq_sequence this = initialized_prefix tickArrays"
    "seq_tickSpacing this = ts" "seq_aToB this = aToB"
    "seq_startArrayIndex this =
       ta_startTickIndex (snd (hd (initialized_prefix tickArrays))) div (ts * TICK_ARRAY_SIZE)"
proof -
  let ?seq = "initialized_prefix tickArrays" and ?S = TICK_ARRAY_SIZE
  let ?start = "ta_startTickIndex (snd (hd ?seq))"
  have ok: "0 < ts" "tickArrays \<noteq> []" "tarr_data (hd tickArrays) \<noteq> None" "(ts * ?S) dvd ?start"
    using assms by (auto simp: tick_arrays_ok_def Let_def)
  have full: "int (length (ta_ticks (snd (?seq ! k)))) = ?S" and
    starts: "ta_startTickIndex (snd (?seq ! k)) =
       ?start + (if aToB then - 1 else 1) * int k * (ts * ?S)" and
    bounds: "\<And>j. j < length (ta_ticks (snd (?seq ! k))) \<Longrightarrow> tick_initialized (ta_ticks (snd (?seq ! k)) ! j) \<Longrightarrow>
       checkTickInBounds (ta_startTickIndex (snd (?seq ! k)) + int j * ts)"
    if "k < length ?seq" for k
    using assms that unfolding tick_arrays_ok_def Let_def by (metis atLeastLessThan_iff le0)+
  define this where "this = \<lparr>seq_sequence = ?seq, seq_touchedArrays = replicate (length ?seq) False,
       seq_startArrayIndex = ?start div (ts * ?S), seq_tickSpacing = ts, seq_aToB = aToB\<rparr>"
  have new: "new_TickArraySequence tickArrays ts aToB = Inr this"
    using ok by (simp add: new_TickArraySequence_def fromTickIndex_eq ta_of_def this_def zdiv_zmult2_eq
        TICK_ARRAY_SIZE_def Let_def)
  have start: "?start = seq_startArrayIndex this * (ts * ?S)" using ok(4) by (simp add: this_def)
  have starts': "ta_startTickIndex (snd (?seq ! k)) =
      (seq_startArrayIndex this + seq_dir this * int k) * (ts * ?S)" if "k < length ?seq" for k
    unfolding starts [OF that] start by (simp add: seq_dir_def this_def algebra_simps)
  have "seq_wf this"
    unfolding seq_wf_def
  proof (intro conjI allI impI)
    fix n assume n: "seq_init this n"
    define k j where "k = nat (seq_local this n)" and "j = nat (n mod ?S)"
    have k: "k < length ?seq" "int k = seq_local this n"
      using n by (auto simp: seq_init_def seq_in_def k_def this_def)
    have j: "j < length (ta_ticks (snd (?seq ! k)))" "int j = n mod ?S"
      using full [OF k(1)] by (simp_all add: j_def TICK_ARRAY_SIZE_def nat_less_iff)
    have "tick_initialized (ta_ticks (snd (?seq ! k)) ! j)"
      using n by (simp add: seq_init_def seq_tick_def k_def j_def this_def)
    from bounds [OF k(1) j(1) this] have "checkTickInBounds (ta_startTickIndex (snd (?seq ! k)) + int j * ts)" .
    moreover have "seq_startArrayIndex this + seq_dir this * seq_local this n = n div ?S"
      by (simp add: seq_dir_def seq_local_def getLocalArrayIndex_def)
    then have "ta_startTickIndex (snd (?seq ! k)) + int j * ts = n div ?S * ?S * ts + n mod ?S * ts"
      unfolding starts' [OF k(1)] k(2) j(2) by (simp add: algebra_simps)
    then have "ta_startTickIndex (snd (?seq ! k)) + int j * ts = n * ts"
      by (simp only: distrib_right [symmetric] div_mult_mod_eq)
    ultimately show "checkTickInBounds (n * seq_tickSpacing this)" by (simp add: this_def)
  qed (use ok full starts' in \<open>auto simp: this_def\<close>)
  moreover have "touched_set this = {}" by (auto simp: touched_set_def this_def)
  ultimately show thesis using new by (intro that [of this]) (simp_all add: this_def)
qed

subsection \<open>Properties\<close>

text \<open>
  \<open>fromTickIndex\<close> never throws for a positive spacing, its offset is inside an array, and
  converting back gives the tick of the spacing at or below the index: the index itself
  exactly when it is initializable.
\<close>

theorem tick_array_index_round_trip:
  assumes "0 < ts"
  shows "\<exists>x. fromTickIndex i ts = Inr x
    \<and> 0 \<le> tai_offsetIndex x \<and> tai_offsetIndex x < TICK_ARRAY_SIZE
    \<and> toTickIndex x \<le> i \<and> i < toTickIndex x + ts
    \<and> (toTickIndex x = i \<longleftrightarrow> isTickInitializable i ts)"
proof (intro exI conjI)
  show "fromTickIndex i ts = Inr (ta_of ts (i div ts))" using assms by (rule fromTickIndex_eq)
  show "0 \<le> tai_offsetIndex (ta_of ts (i div ts))" "tai_offsetIndex (ta_of ts (i div ts)) < TICK_ARRAY_SIZE"
    by (simp_all add: ta_of_def TICK_ARRAY_SIZE_def)
  have "i mod ts < ts" "0 \<le> i mod ts" using assms by simp_all
  then show "toTickIndex (ta_of ts (i div ts)) \<le> i" "i < toTickIndex (ta_of ts (i div ts)) + ts"
    unfolding toTickIndex_ta_of minus_mod_eq_div_mult [symmetric] by linarith+
  show "toTickIndex (ta_of ts (i div ts)) = i \<longleftrightarrow> isTickInitializable i ts"
    unfolding toTickIndex_ta_of isTickInitializable_iff [OF assms]
    by (metis dvd_div_mult_self dvd_triv_right)
qed

theorem tick_array_index_round_trip_witness:
  "\<exists>x. fromTickIndex (- 5633) 64 = Inr x \<and> toTickIndex x = - 5696"
proof -
  from tick_array_index_round_trip [of 64 "- 5633"] obtain x where "fromTickIndex (- 5633) 64 = Inr x" by auto
  moreover have "fromTickIndex (- 5633) 64 =
      Inr \<lparr>tai_arrayIndex = - 2, tai_offsetIndex = 87, tai_tickSpacing = 64\<rparr>" by code_simp
  ultimately show ?thesis by (intro exI [of _ x]) (auto simp: toTickIndex_def TICK_ARRAY_SIZE_def)
qed

text \<open>
  C3: Over adjacent arrays the search of a swap is exact: if the array of its first tick is
  in the sequence it returns the nearest initialized tick (at or below the current tick going
  down, strictly above it going up) with its data, or the clamped last index of the sequence
  when there is none; otherwise it throws \<open>TickArraySequenceInvalid\<close>. It always ends, and
  only adds to the touched arrays.
\<close>

theorem find_next_nearest:
  assumes "seq_wf this"
  shows "if seq_in this (search_start this cur)
    then \<exists>nx d this'. findNextInitializedTickIndex this cur = Inr ((nx, d), this')
      \<and> same_seq this this' \<and> touched_set this \<subseteq> touched_set this'
      \<and> (case nearest this (ticks_ahead this cur) of
           Some t \<Rightarrow> nx = t \<and> d = Some (seq_tick this (t div seq_tickSpacing this))
         | None \<Rightarrow> nx = last_index this \<and> d = None)
    else findNextInitializedTickIndex this cur = Inl (swap_error TickArraySequenceInvalid)"
proof (cases "seq_in this (search_start this cur)")
  case True
  obtain this' nx d where "findNextInitializedTickIndex this cur = Inr ((nx, d), this')"
    "same_seq this this'" "touched_set this \<subseteq> touched_set this'"
    "case nearest this (ticks_ahead this cur) of
       Some t \<Rightarrow> nx = t \<and> d = Some (seq_tick this (t div seq_tickSpacing this))
     | None \<Rightarrow> nx = last_index this \<and> d = None"
    by (rule find_next_in [OF assms True])
  with True show ?thesis by (simp only: if_True) blast
next
  case False
  with assms find_next_out show ?thesis by (simp add: seq_wf_def)
qed

text \<open>
  A pool of spacing 64 around price 1 whose liquidity changes at the ticks \<open>-128\<close>, \<open>0\<close> and
  \<open>64\<close>, with its arrays in the two directions.
\<close>

definition example_array :: "int \<Rightarrow> (nat \<times> int) list \<Rightarrow> TickArrayData" where
  "example_array start ticks =
     \<lparr>ta_whirlpool = ''pool'', ta_startTickIndex = start,
      ta_ticks = map (\<lambda>i. case map_of ticks i of
          None \<Rightarrow> empty_tick
        | Some net \<Rightarrow> empty_tick\<lparr>tick_initialized := True, tick_liquidityNet := net,
            tick_liquidityGross := \<bar>net\<bar>\<rparr>) [0..<88]\<rparr>"

definition example_arrays :: "bool \<Rightarrow> TickArray list" where
  "example_arrays aToB =
     (let low = \<lparr>tarr_address = ''low'', tarr_data = Some (example_array (- 5632) [(86, 2 ^ 64)])\<rparr>;
          high = \<lparr>tarr_address = ''high'', tarr_data = Some (example_array 0 [(0, 2 ^ 64), (1, - (2 ^ 65))])\<rparr>;
          missing = \<lparr>tarr_address = ''missing'', tarr_data = None\<rparr> in
      if aToB then [high, low, missing] else [low, high, missing])"

lemma all_less_two: "(\<forall>k \<in> {..<Suc (Suc 0)}. P k) \<longleftrightarrow> P 0 \<and> P (Suc 0)"
  by (auto simp: less_Suc_eq)

lemma example_array_ticks:
  "length (ta_ticks (example_array start ticks)) = 88"
  "j < 88 \<Longrightarrow> tick_initialized (ta_ticks (example_array start ticks) ! j) \<longleftrightarrow> map_of ticks j \<noteq> None"
  "ta_startTickIndex (example_array start ticks) = start"
  by (auto simp: example_array_def empty_tick_def split: option.splits)

lemma example_arrays_prefix:
  "initialized_prefix (example_arrays aToB) =
     (if aToB then [(''high'', example_array 0 [(0, 2 ^ 64), (1, - (2 ^ 65))]), (''low'', example_array (- 5632) [(86, 2 ^ 64)])]
      else [(''low'', example_array (- 5632) [(86, 2 ^ 64)]), (''high'', example_array 0 [(0, 2 ^ 64), (1, - (2 ^ 65))])])"
  by (simp add: example_arrays_def Let_def)

lemma example_arrays_ok: "tick_arrays_ok (example_arrays aToB) 64 aToB"
  unfolding tick_arrays_ok_def example_arrays_prefix Let_def
  by (cases aToB; simp add: example_arrays_def Let_def example_array_ticks TICK_ARRAY_SIZE_def
      atLeast0LessThan all_less_two checkTickInBounds_def MAX_TICK_INDEX_def MIN_TICK_INDEX_def)

theorem find_next_nearest_witness:
  "\<exists>this. new_TickArraySequence (example_arrays True) 64 True = Inr this
     \<and> (\<exists>nx d this'. findNextInitializedTickIndex this 63 = Inr ((nx, d), this') \<and> same_seq this this')"
proof -
  obtain this where new: "new_TickArraySequence (example_arrays True) 64 True = Inr this" "seq_wf this"
    "seq_tickSpacing this = 64" "seq_aToB this" "seq_startArrayIndex this =
       ta_startTickIndex (snd (hd (initialized_prefix (example_arrays True)))) div (64 * TICK_ARRAY_SIZE)"
    "seq_sequence this = initialized_prefix (example_arrays True)"
    by (rule new_TickArraySequence_wf [OF example_arrays_ok [of True]]) auto
  then have "seq_in this (search_start this 63)"
    by (simp add: seq_in_iff search_start_def example_arrays_prefix example_array_ticks TICK_ARRAY_SIZE_def)
  with find_next_nearest [OF new(2), of 63] new(1) show ?thesis by auto
qed

text \<open>
  \<open>getTouchedArrays\<close> is empty when nothing was touched; otherwise it holds the addresses
  of the touched arrays in the order of the sequence, padded with the last of them to the
  requested size, so its length is the larger of the two.
\<close>

theorem touched_arrays_padded:
  assumes "length (seq_touchedArrays this) = length (seq_sequence this)"
  shows "if touched_set this = {} then getTouchedArrays this m = []
    else length (getTouchedArrays this m) = max m (getNumOfTouchedArrays this)
      \<and> set (getTouchedArrays this m) = {fst (seq_sequence this ! nat k) | k. k \<in> touched_set this}"
proof -
  let ?z = "zip (seq_touchedArrays this) (seq_sequence this)"
  define result where "result = map (\<lambda>(t, a, d). a) (filter (\<lambda>(t, a, d). t) ?z)"
  have len: "length result = getNumOfTouchedArrays this"
  proof -
    have "length (filter (\<lambda>(t, a, d). t) (zip ts xs)) = length (filter (\<lambda>v. v) ts)"
      if "length ts = length xs" for ts and xs :: "('a \<times> 'b) list"
      using that by (induction ts xs rule: list_induct2) auto
    with assms show ?thesis by (simp add: result_def getNumOfTouchedArrays_def)
  qed
  have set: "set result = {fst (seq_sequence this ! nat k) | k. k \<in> touched_set this}"
    using assms by (auto simp: result_def touched_set_def set_zip image_iff) (metis fst_conv nat_int prod.exhaust_sel)+
  have empty: "result = [] \<longleftrightarrow> touched_set this = {}" using set by (auto simp flip: set_empty)
  have get: "getTouchedArrays this m =
      (if result = [] then [] else if length result < m then result @ replicate (m - length result) (last result) else result)"
    by (auto simp: getTouchedArrays_def result_def [symmetric] Let_def nat_diff_distrib)
  show ?thesis
  proof (cases "result = []")
    case True
    with get empty show ?thesis by simp
  next
    case False
    then have "length (getTouchedArrays this m) = max m (length result)"
      "set (getTouchedArrays this m) = set result"
      unfolding get by (auto split: if_splits)
    with False empty len set show ?thesis by simp
  qed
qed

theorem touched_arrays_padded_witness:
  "length (getTouchedArrays \<lparr>seq_sequence = [(''high'', example_array 0 []), (''low'', example_array (- 5632) [])],
      seq_touchedArrays = [True, True], seq_startArrayIndex = 0, seq_tickSpacing = 64, seq_aToB = True\<rparr> 3) = 3"
proof -
  let ?q = "\<lparr>seq_sequence = [(''high'', example_array 0 []), (''low'', example_array (- 5632) [])],
      seq_touchedArrays = [True, True], seq_startArrayIndex = 0, seq_tickSpacing = 64, seq_aToB = True\<rparr>"
  have "int 0 \<in> touched_set ?q" unfolding touched_set_def by fastforce
  then have "touched_set ?q \<noteq> {}" by blast
  with touched_arrays_padded [of ?q 3] show ?thesis by (simp add: getNumOfTouchedArrays_def)
qed

end
