(* ===== verification/Bit_Math.thy ===== *)
theory Bit_Math
  imports Packages
begin

text \<open>
  \<^verbatim>\<open>BitMath\<close> (\<^verbatim>\<open>sdk/src/utils/math/bit-math.ts\<close>): multiplication and division of unsigned
  integers with a bit limit on the product, as the on-chain program computes them. The
  lemmas reduce every operation to \<open>rdiv\<close> under its limit.
\<close>

subsection \<open>The operations\<close>

definition isOverLimit :: "int \<Rightarrow> nat \<Rightarrow> bool" where
  "isOverLimit n0 limit \<longleftrightarrow> n0 > 2 ^ limit - 1"

definition bm_mul :: "int \<Rightarrow> int \<Rightarrow> nat \<Rightarrow> int res" where
  "bm_mul n0 n1 limit =
     (let result = n0 * n1
      in if isOverLimit result limit then Inl (math_error MultiplicationOverflow)
         else Inr result)"

definition mulDivRoundUpIf :: "int \<Rightarrow> int \<Rightarrow> int \<Rightarrow> bool \<Rightarrow> nat \<Rightarrow> int res" where
  "mulDivRoundUpIf n0 n1 d roundUp limit =
     (if d = 0 then Inl (math_error DivideByZero)
      else bindE (bm_mul n0 n1 limit) (\<lambda>p.
           bindE (bn_div p d) (\<lambda>n.
           bindE (bn_mod p d) (\<lambda>r.
             Inr (if roundUp \<and> r > 0 then n + 1 else n)))))"

definition mulDiv :: "int \<Rightarrow> int \<Rightarrow> int \<Rightarrow> nat \<Rightarrow> int res" where
  "mulDiv n0 n1 d limit = mulDivRoundUpIf n0 n1 d False limit"

definition mulDivRoundUp :: "int \<Rightarrow> int \<Rightarrow> int \<Rightarrow> nat \<Rightarrow> int res" where
  "mulDivRoundUp n0 n1 d limit = mulDivRoundUpIf n0 n1 d True limit"

text \<open>
  The round-up test of the shifted product reads the low 64 bits of the shifted
  \<^emph>\<open>result\<close>, not of the product.
\<close>

definition checked_mul_shift_right_round_up_if ::
    "math_util \<Rightarrow> int \<Rightarrow> int \<Rightarrow> bool \<Rightarrow> nat \<Rightarrow> int res" where
  "checked_mul_shift_right_round_up_if mu n0 n1 roundUp limit =
     (if n0 = 0 \<or> n1 = 0 then Inr 0
      else bindE (bm_mul n0 n1 limit) (\<lambda>p.
        if isOverLimit p limit then Inl (math_error MultiplicationShiftRightOverflow)
        else bindE (fromX64_BN mu p) (\<lambda>result.
             bindE (if roundUp then bindE (bn_and result U64_MAX) (\<lambda>low. Inr (low > 0))
                    else Inr False) (\<lambda>shouldRound.
             if shouldRound \<and> result = U64_MAX then Inl (math_error MultiplicationOverflow)
             else Inr (if shouldRound then result + 1 else result)))))"

definition checked_mul_shift_right :: "math_util \<Rightarrow> int \<Rightarrow> int \<Rightarrow> nat \<Rightarrow> int res" where
  "checked_mul_shift_right mu n0 n1 limit =
     checked_mul_shift_right_round_up_if mu n0 n1 False limit"

definition divRoundUpIf :: "int \<Rightarrow> int \<Rightarrow> bool \<Rightarrow> int res" where
  "divRoundUpIf n d roundUp =
     (if d = 0 then Inl (math_error DivideByZero)
      else bindE (bn_div n d) (\<lambda>q.
           bindE (bn_mod n d) (\<lambda>r.
             Inr (if roundUp \<and> r > 0 then q + 1 else q))))"

definition bm_divRoundUp :: "int \<Rightarrow> int \<Rightarrow> int res" where
  "bm_divRoundUp n d = divRoundUpIf n d True"

subsection \<open>Closed forms on unsigned operands\<close>

lemma isOverLimit_iff [bn_simps]: "isOverLimit n limit \<longleftrightarrow> 2 ^ limit \<le> n"
  by (auto simp: isOverLimit_def)

lemma bm_mul_eq [bn_simps]:
  "bm_mul a b limit =
     (if a * b < 2 ^ limit then Inr (a * b) else Inl (math_error MultiplicationOverflow))"
  by (auto simp: bm_mul_def Let_def isOverLimit_iff)

lemma divRoundUpIf_eq [bn_simps]:
  "0 \<le> n \<Longrightarrow> 0 < d \<Longrightarrow> divRoundUpIf n d up = Inr (rdiv up n d)"
  by (auto simp: divRoundUpIf_def rdiv_def bn_simps order_less_le)

lemma bm_divRoundUp_eq [bn_simps]: "0 \<le> n \<Longrightarrow> 0 < d \<Longrightarrow> bm_divRoundUp n d = Inr (rdiv True n d)"
  by (simp add: bm_divRoundUp_def bn_simps)

lemma mulDivRoundUpIf_eq [bn_simps]:
  assumes "0 \<le> a * b" "0 < d"
  shows "mulDivRoundUpIf a b d up limit =
    (if a * b < 2 ^ limit then Inr (rdiv up (a * b) d) else Inl (math_error MultiplicationOverflow))"
  using assms by (auto simp: mulDivRoundUpIf_def rdiv_def bn_simps order_less_le)

lemma mulDiv_eq_Inr:
  "0 \<le> a * b \<Longrightarrow> 0 < d \<Longrightarrow>
     mulDiv a b d limit = Inr r \<longleftrightarrow> a * b < 2 ^ limit \<and> r = rdiv False (a * b) d"
  by (auto simp: mulDiv_def bn_simps)

lemma mulDivRoundUp_eq_Inr:
  "0 \<le> a * b \<Longrightarrow> 0 < d \<Longrightarrow>
     mulDivRoundUp a b d limit = Inr r \<longleftrightarrow> a * b < 2 ^ limit \<and> r = rdiv True (a * b) d"
  by (auto simp: mulDivRoundUp_def bn_simps)

text \<open>What the shifted product is rounded to: one more exactly when the low word of the floor is set.\<close>

definition shift_round :: "bool \<Rightarrow> int \<Rightarrow> int" where
  "shift_round up p = (if up \<and> p div 2 ^ 64 mod 2 ^ 64 \<noteq> 0 then p div 2 ^ 64 + 1 else p div 2 ^ 64)"

lemma AND_U64_MAX: "(a :: int) AND U64_MAX = a mod 2 ^ 64"
  by (simp add: U64_MAX_def AND_mask_eq_mod del: power_numeral)

lemma checked_mul_shift_right_eq:
  assumes mu: "math_util_ok mu" and "0 \<le> a" "0 \<le> b"
  shows "checked_mul_shift_right_round_up_if mu a b up limit =
    (if 2 ^ limit \<le> a * b then Inl (math_error MultiplicationOverflow)
     else if up \<and> a * b div 2 ^ 64 = U64_MAX then Inl (math_error MultiplicationOverflow)
     else Inr (shift_round up (a * b)))"
proof (cases "a = 0 \<or> b = 0")
  case True
  then show ?thesis
    by (auto simp: checked_mul_shift_right_round_up_if_def shift_round_def U64_MAX_def)
next
  case False
  with assms have p: "0 < a * b" by simp
  then have q: "0 \<le> a * b div 2 ^ 64" by (simp add: pos_imp_zdiv_nonneg_iff)
  have u: "0 \<le> U64_MAX" by (simp add: U64_MAX_def)
  have m: "0 < a * b div 2 ^ 64 mod 2 ^ 64 \<longleftrightarrow> a * b div 2 ^ 64 mod 2 ^ 64 \<noteq> 0"
    by (simp add: order_less_le)
  show ?thesis
    using False p q u
    by (simp add: checked_mul_shift_right_round_up_if_def bn_simps math_util_okD [OF mu]
        AND_U64_MAX m shift_round_def linorder_not_le [symmetric]) (auto simp: U64_MAX_def)
qed

end
