(* ===== verification/Token_Math.thy ===== *)
theory Token_Math
  imports Bit_Math
begin

text \<open>
  Token amounts and prices (\<^verbatim>\<open>sdk/src/utils/math/token-math.ts\<close>): the amount of each token
  between two square-root prices at a liquidity, the price reached by moving an amount of
  one token, and slippage. The lemmas give each function's closed form with \<open>rdiv\<close> and the
  inequalities that make a price step and an amount delta inverse to each other.
\<close>

subsection \<open>The functions\<close>

definition toIncreasingPriceOrder :: "int \<Rightarrow> int \<Rightarrow> int \<times> int" where
  "toIncreasingPriceOrder sqrtPrice0 sqrtPrice1 =
     (if sqrtPrice0 > sqrtPrice1 then (sqrtPrice1, sqrtPrice0) else (sqrtPrice0, sqrtPrice1))"

definition getAmountDeltaA :: "int \<Rightarrow> int \<Rightarrow> int \<Rightarrow> bool \<Rightarrow> int res" where
  "getAmountDeltaA currSqrtPrice targetSqrtPrice currLiquidity roundUp =
     (let (sqrtPriceLower, sqrtPriceUpper) = toIncreasingPriceOrder currSqrtPrice targetSqrtPrice;
          sqrtPriceDiff = sqrtPriceUpper - sqrtPriceLower
      in bindE (bn_shln (currLiquidity * sqrtPriceDiff) 64) (\<lambda>num.
         let den = sqrtPriceLower * sqrtPriceUpper
         in bindE (bn_div num den) (\<lambda>quotient.
            bindE (bn_mod num den) (\<lambda>remainder.
            let result = (if roundUp \<and> \<not> remainder = 0 then quotient + 1 else quotient)
            in if result > U64_MAX then Inl (token_error TokenMaxExceeded) else Inr result))))"

definition getAmountDeltaB :: "math_util \<Rightarrow> int \<Rightarrow> int \<Rightarrow> int \<Rightarrow> bool \<Rightarrow> int res" where
  "getAmountDeltaB mu currSqrtPrice targetSqrtPrice currLiquidity roundUp =
     (let (sqrtPriceLower, sqrtPriceUpper) = toIncreasingPriceOrder currSqrtPrice targetSqrtPrice;
          sqrtPriceDiff = sqrtPriceUpper - sqrtPriceLower
      in checked_mul_shift_right_round_up_if mu currLiquidity sqrtPriceDiff roundUp 128)"

definition getNextSqrtPriceFromARoundUp :: "int \<Rightarrow> int \<Rightarrow> int \<Rightarrow> bool \<Rightarrow> int res" where
  "getNextSqrtPriceFromARoundUp sqrtPrice currLiquidity amount amountSpecifiedIsInput =
     (if amount = 0 then Inr sqrtPrice
      else
        bindE (bm_mul sqrtPrice amount 256) (\<lambda>p.
        bindE (bindE (bm_mul currLiquidity sqrtPrice 256) (\<lambda>x. bn_shln x 64)) (\<lambda>num.
        if isOverLimit num 256 then Inl (math_error MultiplicationOverflow)
        else
          bindE (bn_shln currLiquidity 64) (\<lambda>currLiquidityShiftLeft.
          if \<not> amountSpecifiedIsInput \<and> currLiquidityShiftLeft \<le> p
          then Inl (math_error DivideByZero)
          else
            let den = (if amountSpecifiedIsInput then currLiquidityShiftLeft + p
                       else currLiquidityShiftLeft - p)
            in bindE (bm_divRoundUp num den) (\<lambda>price.
               if price < MIN_SQRT_PRICE then Inl (token_error TokenMinSubceeded)
               else if price > MAX_SQRT_PRICE then Inl (token_error TokenMaxExceeded)
               else Inr price)))))"

definition getNextSqrtPriceFromBRoundDown :: "int \<Rightarrow> int \<Rightarrow> int \<Rightarrow> bool \<Rightarrow> int res" where
  "getNextSqrtPriceFromBRoundDown sqrtPrice currLiquidity amount amountSpecifiedIsInput =
     bindE (bn_shln amount 64) (\<lambda>amountX64.
     bindE (divRoundUpIf amountX64 currLiquidity (\<not> amountSpecifiedIsInput)) (\<lambda>delta.
       Inr (if amountSpecifiedIsInput then sqrtPrice + delta else sqrtPrice - delta)))"

definition getNextSqrtPrice :: "int \<Rightarrow> int \<Rightarrow> int \<Rightarrow> bool \<Rightarrow> bool \<Rightarrow> int res" where
  "getNextSqrtPrice sqrtPrice currLiquidity amount amountSpecifiedIsInput aToB =
     (if amountSpecifiedIsInput = aToB
      then getNextSqrtPriceFromARoundUp sqrtPrice currLiquidity amount amountSpecifiedIsInput
      else getNextSqrtPriceFromBRoundDown sqrtPrice currLiquidity amount amountSpecifiedIsInput)"

definition adjustForSlippage :: "int \<Rightarrow> percentage \<Rightarrow> bool \<Rightarrow> int res" where
  "adjustForSlippage n slippage adjustUp =
     (if adjustUp
      then bn_div (n * (denominator slippage + numerator slippage)) (denominator slippage)
      else bn_div (n * denominator slippage) (denominator slippage + numerator slippage))"

subsection \<open>Closed forms\<close>

text \<open>Token A between two prices, as the exact quotient \<open>L |p - q| 2^64 / (p q)\<close> rounded.\<close>

definition delta_a :: "bool \<Rightarrow> int \<Rightarrow> int \<Rightarrow> int \<Rightarrow> int" where
  "delta_a up L p q = rdiv up (L * \<bar>p - q\<bar> * 2 ^ 64) (p * q)"

lemma getAmountDeltaA_eq:
  assumes "0 \<le> L" "0 < p" "0 < q"
  shows "getAmountDeltaA p q L up =
    (if delta_a up L p q > U64_MAX then Inl (token_error TokenMaxExceeded)
     else Inr (delta_a up L p q))"
proof -
  have "0 < q * p" "0 \<le> L * \<bar>p - q\<bar>" using assms by simp_all
  then show ?thesis
    using assms
    by (auto simp: getAmountDeltaA_def toIncreasingPriceOrder_def bn_simps rdiv_def delta_a_def
        Let_def abs_if mult.commute [of q p])
qed

lemma getAmountDeltaB_eq:
  assumes "math_util_ok mu" "0 \<le> L"
  shows "getAmountDeltaB mu p q L up =
    (let a = L * \<bar>p - q\<bar>
     in if 2 ^ 128 \<le> a \<or> (up \<and> a div 2 ^ 64 = U64_MAX)
        then Inl (math_error MultiplicationOverflow)
        else Inr (shift_round up a))"
  using assms
  by (auto simp: getAmountDeltaB_def toIncreasingPriceOrder_def Let_def abs_if
      checked_mul_shift_right_eq)

text \<open>The price reached by token A, \<open>L p 2^64 / (L 2^64 \<plusminus> p a)\<close> rounded up.\<close>

definition next_price_a :: "bool \<Rightarrow> int \<Rightarrow> int \<Rightarrow> int \<Rightarrow> int" where
  "next_price_a inp p L a =
     rdiv True (L * p * 2 ^ 64) (if inp then L * 2 ^ 64 + p * a else L * 2 ^ 64 - p * a)"

lemma getNextSqrtPriceFromARoundUp_Inr:
  assumes "0 \<le> L" "0 < p" "0 < a" "0 < L \<or> \<not> inp"
    and ret: "getNextSqrtPriceFromARoundUp p L a inp = Inr r"
  shows "r = next_price_a inp p L a" "MIN_SQRT_PRICE \<le> r" "r \<le> MAX_SQRT_PRICE"
    "inp \<or> p * a < L * 2 ^ 64"
proof -
  let ?den = "if inp then L * 2 ^ 64 + p * a else L * 2 ^ 64 - p * a"
  have pos: "0 < p * a" "0 \<le> L * p" using assms by simp_all
  from ret pos assms(1,3) have *: "bindE (bm_divRoundUp (L * p * 2 ^ 64) ?den) (\<lambda>price.
      if price < MIN_SQRT_PRICE then Inl (token_error TokenMinSubceeded)
      else if price > MAX_SQRT_PRICE then Inl (token_error TokenMaxExceeded)
      else Inr price) = Inr r" and inp: "inp \<or> p * a < L * 2 ^ 64"
    by (auto simp: getNextSqrtPriceFromARoundUp_def bn_simps Let_def bindE_eq_Inr
        split: if_splits)
  have "0 < ?den" using inp pos assms(1) by (auto simp: add_nonneg_pos)
  with * pos show "r = next_price_a inp p L a" "MIN_SQRT_PRICE \<le> r" "r \<le> MAX_SQRT_PRICE"
    by (auto simp: bn_simps next_price_a_def split: if_splits)
  from inp show "inp \<or> p * a < L * 2 ^ 64" .
qed

lemma getNextSqrtPriceFromBRoundDown_eq:
  assumes "0 < L" "0 \<le> a"
  shows "getNextSqrtPriceFromBRoundDown p L a inp =
    Inr (if inp then p + rdiv False (a * 2 ^ 64) L else p - rdiv True (a * 2 ^ 64) L)"
  using assms by (auto simp: getNextSqrtPriceFromBRoundDown_def bn_simps)

subsection \<open>A price step and the amount between its ends\<close>

text \<open>Paying in \<open>a\<close> of token A lowers the price, by no more than \<open>a\<close> pays for.\<close>

lemma next_price_a_in:
  assumes "0 < L" "0 < p" "0 \<le> a"
  shows "0 < next_price_a True p L a" "next_price_a True p L a \<le> p"
    "delta_a True L p (next_price_a True p L a) \<le> a"
proof -
  let ?d = "L * 2 ^ 64 + p * a"
  let ?r = "next_price_a True p L a"
  have d: "0 < ?d" using assms by (simp add: add_pos_nonneg)
  have up: "L * p * 2 ^ 64 \<le> ?r * ?d"
    using rdiv_bounds(3) [OF d] by (simp add: next_price_a_def)
  have "0 < L * p * 2 ^ 64" using assms by simp
  with up have "0 < ?r * ?d" by linarith
  with d show r: "0 < ?r" by (simp add: zero_less_mult_iff)
  have "L * p * 2 ^ 64 \<le> p * ?d" using assms by (simp add: algebra_simps)
  then show le: "?r \<le> p" using rdiv_up_le_iff [OF d] by (simp add: next_price_a_def)
  from up have "L * (p - ?r) * 2 ^ 64 \<le> a * (p * ?r)" by (simp add: algebra_simps)
  with r le assms show "delta_a True L p ?r \<le> a"
    by (simp add: delta_a_def rdiv_up_le_iff)
qed

text \<open>Taking out \<open>a\<close> of token A raises the price enough to cover \<open>a\<close>.\<close>

lemma next_price_a_out:
  assumes "0 < L" "0 < p" "0 \<le> a" "p * a < L * 2 ^ 64"
  shows "p \<le> next_price_a False p L a" "a \<le> delta_a False L p (next_price_a False p L a)"
proof -
  let ?d = "L * 2 ^ 64 - p * a"
  let ?r = "next_price_a False p L a"
  have d: "0 < ?d" using assms by simp
  have up: "L * p * 2 ^ 64 \<le> ?r * ?d"
    using rdiv_bounds(3) [OF d] by (simp add: next_price_a_def)
  have "p * ?d \<le> L * p * 2 ^ 64" using assms by (simp add: algebra_simps)
  with up have "p * ?d \<le> ?r * ?d" by linarith
  with d show le: "p \<le> ?r" by simp
  from up have "a * (p * ?r) \<le> L * (?r - p) * 2 ^ 64" by (simp add: algebra_simps)
  with le assms show "a \<le> delta_a False L p ?r"
    by (simp add: delta_a_def le_rdiv_down_iff abs_minus_commute)
qed

text \<open>Token B: the step moves the price by \<open>a 2^64 / L\<close>, rounded down going in, up going out.\<close>

lemma next_price_b_in:
  assumes "0 < L" "0 \<le> a"
  shows "0 \<le> rdiv False (a * 2 ^ 64) L" "L * rdiv False (a * 2 ^ 64) L \<le> a * 2 ^ 64"
    "shift_round up (L * rdiv False (a * 2 ^ 64) L) \<le> a + 1"
proof -
  let ?d = "rdiv False (a * 2 ^ 64) L"
  show "0 \<le> ?d" using assms by (simp add: rdiv_nonneg)
  show le: "L * ?d \<le> a * 2 ^ 64"
    using rdiv_bounds(1) [OF assms(1), of "a * 2 ^ 64"] by (simp add: mult.commute)
  then have "L * ?d div 2 ^ 64 \<le> a * 2 ^ 64 div 2 ^ 64" by (rule zdiv_mono1) simp
  then show "shift_round up (L * ?d) \<le> a + 1" by (simp add: shift_round_def)
qed

lemma next_price_b_out:
  assumes "0 < L" "0 \<le> a"
  shows "0 \<le> rdiv True (a * 2 ^ 64) L" "a \<le> shift_round False (L * rdiv True (a * 2 ^ 64) L)"
proof -
  let ?d = "rdiv True (a * 2 ^ 64) L"
  show "0 \<le> ?d" using assms by (simp add: rdiv_nonneg)
  have "a * 2 ^ 64 \<le> L * ?d"
    using rdiv_bounds(3) [OF assms(1), of "a * 2 ^ 64"] by (simp add: mult.commute)
  then show "a \<le> shift_round False (L * ?d)" by (simp add: shift_round_def le_div_iff_int)
qed

subsection \<open>Slippage\<close>

lemma adjustForSlippage_eq:
  assumes "0 \<le> n" "0 \<le> numerator s" "0 < denominator s"
  shows "adjustForSlippage n s up =
    Inr (if up then n * (denominator s + numerator s) div denominator s
         else n * denominator s div (denominator s + numerator s))"
  using assms by (simp add: adjustForSlippage_def bn_simps)

lemma adjustForSlippage_bounds:
  assumes "0 \<le> n" "0 \<le> numerator s" "0 < denominator s" "adjustForSlippage n s up = Inr r"
  shows "up \<Longrightarrow> n \<le> r" "\<not> up \<Longrightarrow> 0 \<le> r \<and> r \<le> n"
proof -
  let ?d = "denominator s" let ?m = "numerator s"
  assume up
  with assms have "r = n * (?d + ?m) div ?d" by (simp add: adjustForSlippage_eq)
  moreover have "n * ?d \<le> n * (?d + ?m)" using assms by (simp add: mult_left_mono)
  ultimately show "n \<le> r" using assms by (simp add: le_div_iff_int)
next
  let ?d = "denominator s" let ?m = "numerator s"
  assume "\<not> up"
  with assms have r: "r = n * ?d div (?d + ?m)" by (simp add: adjustForSlippage_eq)
  have "n * ?d \<le> n * (?d + ?m)" using assms by (simp add: mult_left_mono)
  then have "n * ?d div (?d + ?m) \<le> n * (?d + ?m) div (?d + ?m)"
    using assms by (intro zdiv_mono1) auto
  with r assms show "0 \<le> r \<and> r \<le> n" by (simp add: pos_imp_zdiv_nonneg_iff)
qed

end
