(* ===== verification/Swap_Utils.thy ===== *)
theory Swap_Utils
  imports Pool_Utils Tick_Sequence Token_Math
begin

text \<open>
  Swap parameters (\<^verbatim>\<open>sdk/src/utils/public/swap-utils.ts\<close>, the types of
  \<^verbatim>\<open>sdk/src/instructions/swap-ix.ts\<close>): default limits, the direction of a trade, the tick arrays
  a trade may cross and how they are fetched in one batch, slippage, and the accounts of a
  swap. The fetcher's \<^verbatim>\<open>getTickArrays\<close> is a parameter: for each address the account, or null.
  The lemmas show that the batch gives each request its own arrays, and which arrays those are.
\<close>

text \<open>A tick array that was never touched is \<^verbatim>\<open>undefined\<close>, hence the option.\<close>

record SwapInput =
  si_amount :: int
  si_otherAmountThreshold :: int
  si_sqrtPriceLimit :: int
  si_amountSpecifiedIsInput :: bool
  si_aToB :: bool
  si_tickArray0 :: "pubkey option"
  si_tickArray1 :: "pubkey option"
  si_tickArray2 :: "pubkey option"

record SwapParams =
  sp_input :: SwapInput
  sp_whirlpool :: pubkey
  sp_tokenOwnerAccountA :: pubkey
  sp_tokenOwnerAccountB :: pubkey
  sp_tokenVaultA :: pubkey
  sp_tokenVaultB :: pubkey
  sp_oracle :: pubkey
  sp_tokenAuthority :: pubkey

record TickArrayRequest =
  tar_whirlpoolAddress :: pubkey
  tar_aToB :: bool
  tar_tickCurrentIndex :: int
  tar_tickSpacing :: int

definition getDefaultSqrtPriceLimit :: "bool \<Rightarrow> int" where
  "getDefaultSqrtPriceLimit aToB = (if aToB then MIN_SQRT_PRICE else MAX_SQRT_PRICE)"

definition getDefaultOtherAmountThreshold :: "bool \<Rightarrow> int" where
  "getDefaultOtherAmountThreshold amountSpecifiedIsInput = (if amountSpecifiedIsInput then 0 else U64_MAX)"

definition getSwapDirection :: "WhirlpoolData \<Rightarrow> pubkey \<Rightarrow> bool \<Rightarrow> SwapDirection option" where
  "getSwapDirection pool swapTokenMint swapTokenIsInput =
     (case getTokenType pool swapTokenMint of
        None \<Rightarrow> None
      | Some tokenType \<Rightarrow> Some (if (tokenType = TokenA) = swapTokenIsInput then AtoB else BtoA))"

subsection \<open>Tick arrays\<close>

text \<open>The loop: the rounds left, the offset, and the addresses found; it stops at the first error.\<close>

primrec tick_array_keys_loop ::
    "find_program_address \<Rightarrow> int \<Rightarrow> int \<Rightarrow> bool \<Rightarrow> pubkey \<Rightarrow> pubkey \<Rightarrow> nat \<Rightarrow> int \<Rightarrow> pubkey list \<Rightarrow> pubkey list" where
  "tick_array_keys_loop fpa tick tickSpacing aToB programId whirlpoolAddress 0 offset tickArrayAddresses =
     tickArrayAddresses"
| "tick_array_keys_loop fpa tick tickSpacing aToB programId whirlpoolAddress (Suc n) offset tickArrayAddresses =
     (case getStartTickIndex tick tickSpacing offset of
        Inl e \<Rightarrow> tickArrayAddresses
      | Inr startIndex \<Rightarrow>
          let pda = getTickArray fpa programId whirlpoolAddress startIndex in
          tick_array_keys_loop fpa tick tickSpacing aToB programId whirlpoolAddress n
            (if aToB then offset - 1 else offset + 1) (tickArrayAddresses @ [publicKey pda]))"

definition getTickArrayPublicKeys ::
    "find_program_address \<Rightarrow> int \<Rightarrow> int \<Rightarrow> bool \<Rightarrow> pubkey \<Rightarrow> pubkey \<Rightarrow> pubkey list" where
  "getTickArrayPublicKeys fpa tickCurrentIndex tickSpacing aToB programId whirlpoolAddress =
     (let shift = (if aToB then 0 else tickSpacing) in
      tick_array_keys_loop fpa (tickCurrentIndex + shift) tickSpacing aToB programId whirlpoolAddress
        MAX_SWAP_TICK_ARRAYS 0 [])"

text \<open>The addresses of all requests in one list, and the slice of each request.\<close>

definition batch_request ::
    "find_program_address \<Rightarrow> pubkey \<Rightarrow> TickArrayRequest \<Rightarrow> pubkey list \<times> (nat \<times> nat) list \<Rightarrow>
     pubkey list \<times> (nat \<times> nat) list" where
  "batch_request fpa programId request = (\<lambda>(addresses, requestToIndices).
     let requestAddresses = getTickArrayPublicKeys fpa (tar_tickCurrentIndex request)
           (tar_tickSpacing request) (tar_aToB request) programId (tar_whirlpoolAddress request) in
     (addresses @ requestAddresses,
      requestToIndices @ [(length addresses, length addresses + length requestAddresses)]))"

definition slice :: "nat \<Rightarrow> nat \<Rightarrow> 'a list \<Rightarrow> 'a list" where
  "slice start end xs = take (end - start) (drop start xs)"

definition getBatchTickArrays ::
    "find_program_address \<Rightarrow> (pubkey list \<Rightarrow> TickArrayData option list) \<Rightarrow> pubkey \<Rightarrow>
     TickArrayRequest list \<Rightarrow> TickArray list list" where
  "getBatchTickArrays fpa getTickArrays programId tickArrayRequests =
     (let (addresses, requestToIndices) = fold (batch_request fpa programId) tickArrayRequests ([], []);
          data = getTickArrays addresses in
      map (\<lambda>(start, end).
        let addressSlice = slice start end addresses;
            dataSlice = slice start end data in
        map (\<lambda>index. \<lparr>tarr_address = addressSlice ! index,
            tarr_data = (if index < length dataSlice then dataSlice ! index else None)\<rparr>)
          [0..<length addressSlice]) requestToIndices)"

definition getTickArrays ::
    "find_program_address \<Rightarrow> (pubkey list \<Rightarrow> TickArrayData option list) \<Rightarrow> int \<Rightarrow> int \<Rightarrow> bool \<Rightarrow>
     pubkey \<Rightarrow> pubkey \<Rightarrow> TickArray list" where
  "getTickArrays fpa fetchTickArrays tickCurrentIndex tickSpacing aToB programId whirlpoolAddress =
     hd (getBatchTickArrays fpa fetchTickArrays programId
       [\<lparr>tar_whirlpoolAddress = whirlpoolAddress, tar_aToB = aToB,
         tar_tickCurrentIndex = tickCurrentIndex, tar_tickSpacing = tickSpacing\<rparr>])"

subsection \<open>Swap parameters\<close>

text \<open>The pair of \<^verbatim>\<open>amount\<close> and \<^verbatim>\<open>otherAmountThreshold\<close>.\<close>

definition calculateSwapAmountsFromQuote ::
    "int \<Rightarrow> int \<Rightarrow> int \<Rightarrow> percentage \<Rightarrow> bool \<Rightarrow> (int \<times> int) res" where
  "calculateSwapAmountsFromQuote amount estAmountIn estAmountOut slippageTolerance amountSpecifiedIsInput =
     (if amountSpecifiedIsInput
      then bindE (adjustForSlippage estAmountOut slippageTolerance False) (\<lambda>t. Inr (amount, t))
      else bindE (adjustForSlippage estAmountIn slippageTolerance True) (\<lambda>t. Inr (amount, t)))"

definition getSwapParamsFromQuoteKeys ::
    "find_program_address \<Rightarrow> pubkey \<Rightarrow> 'a SwapInput_scheme \<Rightarrow> pubkey \<Rightarrow> pubkey \<Rightarrow> pubkey \<Rightarrow> pubkey \<Rightarrow>
     pubkey \<Rightarrow> pubkey \<Rightarrow> SwapParams" where
  "getSwapParamsFromQuoteKeys fpa programId quote whirlpool tokenVaultA tokenVaultB inputTokenATA
     outputTokenATA wallet =
     (let aToB = si_aToB quote;
          oraclePda = getOracle fpa programId whirlpool in
      \<lparr>sp_input = SwapInput.truncate quote, sp_whirlpool = whirlpool,
       sp_tokenOwnerAccountA = (if aToB then inputTokenATA else outputTokenATA),
       sp_tokenOwnerAccountB = (if aToB then outputTokenATA else inputTokenATA),
       sp_tokenVaultA = tokenVaultA, sp_tokenVaultB = tokenVaultB,
       sp_oracle = publicKey oraclePda, sp_tokenAuthority = wallet\<rparr>)"

text \<open>A \<^verbatim>\<open>Whirlpool\<close> object is its address and its data.\<close>

definition getSwapParamsFromQuote ::
    "find_program_address \<Rightarrow> pubkey \<Rightarrow> 'a SwapInput_scheme \<Rightarrow> pubkey \<times> WhirlpoolData \<Rightarrow> pubkey \<Rightarrow> pubkey \<Rightarrow>
     pubkey \<Rightarrow> SwapParams" where
  "getSwapParamsFromQuote fpa programId quote whirlpool inputTokenATA outputTokenATA wallet =
     (let (address, data) = whirlpool in
      getSwapParamsFromQuoteKeys fpa programId quote address (wp_tokenVaultA data) (wp_tokenVaultB data)
        inputTokenATA outputTokenATA wallet)"


subsection \<open>Fetching in a batch\<close>

lemma slice_append: "end \<le> length xs \<Longrightarrow> slice start end (xs @ ys) = slice start end xs"
  by (simp add: slice_def)

lemma slice_last: "slice (length xs) (length xs + length ys) (xs @ ys) = ys"
  by (simp add: slice_def)

lemma length_slice: "end \<le> length xs \<Longrightarrow> length (slice start end xs) = end - start"
  by (simp add: slice_def)

lemma slice_map: "slice start end (map f xs) = map f (slice start end xs)"
  by (simp add: slice_def take_map drop_map)

lemma batch_fold:
  assumes "fold (batch_request fpa programId) requests (A, I) = (A', I')" "\<forall>(s, e) \<in> set I. e \<le> length A"
  shows "map (\<lambda>(s, e). slice s e A') I' = map (\<lambda>(s, e). slice s e A) I @
      map (\<lambda>r. getTickArrayPublicKeys fpa (tar_tickCurrentIndex r) (tar_tickSpacing r) (tar_aToB r) programId
        (tar_whirlpoolAddress r)) requests"
    and "\<forall>(s, e) \<in> set I'. e \<le> length A'"
  using assms
proof (induction requests arbitrary: A I)
  case Nil
  { case 1 then show ?case by simp }
  { case 2 then show ?case by simp }
next
  case (Cons r requests)
  let ?k = "getTickArrayPublicKeys fpa (tar_tickCurrentIndex r) (tar_tickSpacing r) (tar_aToB r) programId
    (tar_whirlpoolAddress r)"
  have step: "batch_request fpa programId r (A, I) = (A @ ?k, I @ [(length A, length A + length ?k)])" for A I
    by (simp add: batch_request_def Let_def)
  have old: "map (\<lambda>(s, e). slice s e (A @ ?k)) I = map (\<lambda>(s, e). slice s e A) I"
    if "\<forall>(s, e) \<in> set I. e \<le> length A" for A I
    using that by (auto simp: slice_append)
  have inv: "\<forall>(s, e) \<in> set (I @ [(length A, length A + length ?k)]). e \<le> length (A @ ?k)"
    if "\<forall>(s, e) \<in> set I. e \<le> length A" for A I
    using that by auto
  { case 1
    then have "fold (batch_request fpa programId) requests
        (A @ ?k, I @ [(length A, length A + length ?k)]) = (A', I')" by (simp add: step)
    from Cons.IH(1) [OF this inv [OF 1(2)]] show ?case by (simp add: old [OF 1(2)] slice_last) }
  { case 2
    then have "fold (batch_request fpa programId) requests
        (A @ ?k, I @ [(length A, length A + length ?k)]) = (A', I')" by (simp add: step)
    from Cons.IH(2) [OF this inv [OF 2(2)]] show ?case . }
qed

lemma batch_pointwise:
  assumes "\<And>keys. fetch keys = map f keys"
  shows "getBatchTickArrays fpa fetch programId requests =
    map (\<lambda>r. map (\<lambda>k. \<lparr>tarr_address = k, tarr_data = f k\<rparr>)
      (getTickArrayPublicKeys fpa (tar_tickCurrentIndex r) (tar_tickSpacing r) (tar_aToB r) programId
        (tar_whirlpoolAddress r))) requests"
proof -
  obtain A I where fold: "fold (batch_request fpa programId) requests ([], []) = (A, I)" by fastforce
  note b = batch_fold [OF fold, simplified]
  have one: "map (\<lambda>index. \<lparr>tarr_address = ks ! index,
      tarr_data = (if index < length (map f ks) then map f ks ! index else None)\<rparr>) [0..<length ks]
    = map (\<lambda>k. \<lparr>tarr_address = k, tarr_data = f k\<rparr>) ks" for ks
    by (rule nth_equalityI) simp_all
  have "getBatchTickArrays fpa fetch programId requests =
      map (\<lambda>(s, e). map (\<lambda>k. \<lparr>tarr_address = k, tarr_data = f k\<rparr>) (slice s e A)) I"
    unfolding getBatchTickArrays_def fold Let_def prod.case assms slice_map one ..
  also have "\<dots> = map (map (\<lambda>k. \<lparr>tarr_address = k, tarr_data = f k\<rparr>)) (map (\<lambda>(s, e). slice s e A) I)"
    by (simp add: case_prod_beta)
  also have "\<dots> = map (map (\<lambda>k. \<lparr>tarr_address = k, tarr_data = f k\<rparr>))
      (map (\<lambda>r. getTickArrayPublicKeys fpa (tar_tickCurrentIndex r) (tar_tickSpacing r) (tar_aToB r) programId
        (tar_whirlpoolAddress r)) requests)"
    by (simp only: b(1))
  finally show ?thesis by simp
qed

lemma tick_array_keys_loop_eq:
  fixes t ts :: int
  assumes "0 < ts"
  defines "start \<equiv> \<lambda>i. array_start t ts + i * (ts * TICK_ARRAY_SIZE)"
  defines "okk \<equiv> \<lambda>i. array_start MIN_TICK_INDEX ts \<le> start i \<and> start i \<le> MAX_TICK_INDEX"
  shows "tick_array_keys_loop fpa t ts aToB programId whirlpool n i acc =
    acc @ map (\<lambda>k. publicKey (getTickArray fpa programId whirlpool (start (i + (if aToB then - 1 else 1) * int k))))
      (takeWhile (\<lambda>k. okk (i + (if aToB then - 1 else 1) * int k)) [0..<n])"
proof (induction n arbitrary: i acc)
  case (Suc n)
  define d :: int where "d = (if aToB then - 1 else 1)"
  have next_i: "(if aToB then i - 1 else i + 1) = i + d" by (simp add: d_def)
  have upt: "[0..<Suc n] = 0 # map Suc [0..<n]" by (simp add: upt_conv_Cons map_Suc_upt del: upt_Suc)
  have shift: "i + d + d * int k = i + d * int (Suc k)" for k by (simp add: algebra_simps)
  have get: "getStartTickIndex t ts i = (if okk i then Inr (start i) else Inl InvariantError)"
    by (simp add: getStartTickIndex_eq [OF assms(1)] Let_def start_def okk_def)
  note IH = Suc.IH [folded d_def, of "i + d"]
  show ?case
  proof (cases "okk i")
    case True
    then show ?thesis
      unfolding upt d_def [symmetric] tick_array_keys_loop.simps get next_i
      by (simp add: IH shift takeWhile_map o_def del: upt_Suc of_nat_Suc)
  next
    case False
    then show ?thesis unfolding upt by (simp add: get del: upt_Suc)
  qed
qed simp

text \<open>
  C20: one batch request is as good as many: over a fetcher that answers address by address,
  \<open>getBatchTickArrays\<close> gives each request the tick arrays of its own addresses, in order.
\<close>

theorem batch_tick_arrays_separate:
  assumes "\<And>keys. fetch keys = map f keys"
  shows "getBatchTickArrays fpa fetch programId requests =
    map (\<lambda>r. map (\<lambda>k. \<lparr>tarr_address = k, tarr_data = f k\<rparr>)
      (getTickArrayPublicKeys fpa (tar_tickCurrentIndex r) (tar_tickSpacing r) (tar_aToB r) programId
        (tar_whirlpoolAddress r))) requests"
  using assms by (rule batch_pointwise)

text \<open>
  the tick arrays of a swap are the array that holds the tick the search starts from
  (the current tick, or one spacing above it going up) and its neighbours in the direction of
  the trade, at most three, ending where the tick range ends.
\<close>

theorem swap_tick_arrays_in_order:
  assumes "0 < ts"
  shows "getTickArrayPublicKeys fpa cur ts aToB programId whirlpool =
    (let start = (\<lambda>k. array_start (cur + (if aToB then 0 else ts)) ts
           + (if aToB then - 1 else 1) * int k * (ts * TICK_ARRAY_SIZE)) in
     map (\<lambda>k. publicKey (getTickArray fpa programId whirlpool (start k)))
       (takeWhile (\<lambda>k. MIN_TICK_INDEX < start k + ts * TICK_ARRAY_SIZE \<and> start k \<le> MAX_TICK_INDEX) [0..<3]))"
proof -
  have first: "array_start MIN_TICK_INDEX ts \<le> array_start t ts + i * (ts * TICK_ARRAY_SIZE) \<longleftrightarrow>
      MIN_TICK_INDEX < array_start t ts + i * (ts * TICK_ARRAY_SIZE) + ts * TICK_ARRAY_SIZE" for i t
    using array_start_bounds(3) [OF assms, of t]
    by (subst array_start_le_iff [OF assms]) (simp_all add: mult.commute)
  show ?thesis
    unfolding getTickArrayPublicKeys_def MAX_SWAP_TICK_ARRAYS_def Let_def tick_array_keys_loop_eq [OF assms] first
    by simp
qed

text \<open>A fetcher and a derivation of addresses for the witnesses.\<close>

definition example_fpa :: find_program_address where
  "example_fpa seeds programId = \<lparr>publicKey = concat (map (\<lambda>s. case s of Text t \<Rightarrow> t | Key k \<Rightarrow> k | Bytes b \<Rightarrow> []) seeds),
     bump = 255\<rparr>"

theorem batch_tick_arrays_separate_witness:
  "getBatchTickArrays example_fpa (map (\<lambda>k. None)) ''program''
     [\<lparr>tar_whirlpoolAddress = ''pool'', tar_aToB = True, tar_tickCurrentIndex = 0, tar_tickSpacing = 64\<rparr>]
   = [map (\<lambda>k. \<lparr>tarr_address = k, tarr_data = None\<rparr>) (getTickArrayPublicKeys example_fpa 0 64 True ''program'' ''pool'')]"
  using batch_tick_arrays_separate [of "map (\<lambda>k. None)" "\<lambda>k. None" example_fpa "''program''"
    "[\<lparr>tar_whirlpoolAddress = ''pool'', tar_aToB = True, tar_tickCurrentIndex = 0, tar_tickSpacing = 64\<rparr>]"] by simp

theorem swap_tick_arrays_in_order_witness:
  "getTickArrayPublicKeys example_fpa 0 64 True ''program'' ''pool'' =
     map (\<lambda>start. publicKey (getTickArray example_fpa ''program'' ''pool'' start)) [0, - 5632, - 11264]"
  using swap_tick_arrays_in_order [of 64 example_fpa 0 True "''program''" "''pool''"]
  by (simp add: array_start_def TICK_ARRAY_SIZE_def MIN_TICK_INDEX_def MAX_TICK_INDEX_def numeral_3_eq_3)

end
