(* ===== verification/Swap_Math.thy ===== *)
theory Swap_Math
  imports Token_Math
begin

text \<open>
  One step of a swap (\<^verbatim>\<open>sdk/src/utils/math/swap-math.ts\<close>): from the current price towards a
  target price at constant liquidity, spending at most the remaining amount. The lemmas
  show what a step that returns has done: the price stays between its start and its
  target, the step never exceeds the remaining amount, and a step that stops short of its
  target has used the remaining amount up.
\<close>

record SwapStep =
  step_amountIn :: int
  step_amountOut :: int
  step_nextPrice :: int
  step_feeAmount :: int

definition sm_getAmountFixedDelta ::
    "math_util \<Rightarrow> int \<Rightarrow> int \<Rightarrow> int \<Rightarrow> bool \<Rightarrow> bool \<Rightarrow> int res" where
  "sm_getAmountFixedDelta mu currSqrtPrice targetSqrtPrice currLiquidity
       amountSpecifiedIsInput aToB =
     (if aToB = amountSpecifiedIsInput
      then getAmountDeltaA currSqrtPrice targetSqrtPrice currLiquidity amountSpecifiedIsInput
      else getAmountDeltaB mu currSqrtPrice targetSqrtPrice currLiquidity amountSpecifiedIsInput)"

definition sm_getAmountUnfixedDelta ::
    "math_util \<Rightarrow> int \<Rightarrow> int \<Rightarrow> int \<Rightarrow> bool \<Rightarrow> bool \<Rightarrow> int res" where
  "sm_getAmountUnfixedDelta mu currSqrtPrice targetSqrtPrice currLiquidity
       amountSpecifiedIsInput aToB =
     (if aToB = amountSpecifiedIsInput
      then getAmountDeltaB mu currSqrtPrice targetSqrtPrice currLiquidity (\<not> amountSpecifiedIsInput)
      else getAmountDeltaA currSqrtPrice targetSqrtPrice currLiquidity (\<not> amountSpecifiedIsInput))"

definition computeSwapStep ::
    "math_util \<Rightarrow> int \<Rightarrow> int \<Rightarrow> int \<Rightarrow> int \<Rightarrow> int \<Rightarrow> bool \<Rightarrow> bool \<Rightarrow> SwapStep res" where
  "computeSwapStep mu amountRemaining feeRate currLiquidity currSqrtPrice targetSqrtPrice
       amountSpecifiedIsInput aToB =
     bindE (sm_getAmountFixedDelta mu currSqrtPrice targetSqrtPrice currLiquidity
              amountSpecifiedIsInput aToB) (\<lambda>initialFixedDelta.
     bindE (if amountSpecifiedIsInput
            then mulDiv amountRemaining (FEE_RATE_MUL_VALUE - feeRate) FEE_RATE_MUL_VALUE 128
            else Inr amountRemaining) (\<lambda>amountCalc.
     bindE (if amountCalc \<ge> initialFixedDelta then Inr targetSqrtPrice
            else getNextSqrtPrice currSqrtPrice currLiquidity amountCalc
                   amountSpecifiedIsInput aToB) (\<lambda>nextSqrtPrice.
     let isMaxSwap = (nextSqrtPrice = targetSqrtPrice) in
     bindE (sm_getAmountUnfixedDelta mu currSqrtPrice nextSqrtPrice currLiquidity
              amountSpecifiedIsInput aToB) (\<lambda>amountUnfixedDelta.
     bindE (if \<not> isMaxSwap
            then sm_getAmountFixedDelta mu currSqrtPrice nextSqrtPrice currLiquidity
                   amountSpecifiedIsInput aToB
            else Inr initialFixedDelta) (\<lambda>amountFixedDelta.
     let amountIn = (if amountSpecifiedIsInput then amountFixedDelta else amountUnfixedDelta);
         amountOut0 = (if amountSpecifiedIsInput then amountUnfixedDelta else amountFixedDelta);
         amountOut = (if \<not> amountSpecifiedIsInput \<and> amountOut0 > amountRemaining
                      then amountRemaining else amountOut0) in
     bindE (if amountSpecifiedIsInput \<and> \<not> isMaxSwap then Inr (amountRemaining - amountIn)
            else mulDivRoundUp amountIn feeRate (FEE_RATE_MUL_VALUE - feeRate) 128) (\<lambda>feeAmount.
     Inr \<lparr>step_amountIn = amountIn, step_amountOut = amountOut,
          step_nextPrice = nextSqrtPrice, step_feeAmount = feeAmount\<rparr>))))))"

subsection \<open>What a step that returns has done\<close>

text \<open>The inputs the swap loop passes: unsigned amounts, a fee below 100%, a target ahead.\<close>

definition step_pre :: "int \<Rightarrow> int \<Rightarrow> int \<Rightarrow> int \<Rightarrow> int \<Rightarrow> bool \<Rightarrow> bool" where
  "step_pre rem fee L p t aToB \<longleftrightarrow>
     0 \<le> rem \<and> 0 \<le> fee \<and> fee < FEE_RATE_MUL_VALUE \<and> 0 \<le> L \<and> 0 < p \<and> 0 < t \<and>
     (if aToB then t \<le> p else p \<le> t)"

text \<open>
  The fixed token's amount between two prices, as a pure function: token A when direction
  and fixed side agree, token B otherwise; rounded up on the input side.
\<close>

definition fixed_delta :: "int \<Rightarrow> int \<Rightarrow> int \<Rightarrow> bool \<Rightarrow> bool \<Rightarrow> int" where
  "fixed_delta p t L inp aToB =
     (if aToB = inp then delta_a inp L p t else shift_round inp (L * \<bar>p - t\<bar>))"

definition unfixed_delta :: "int \<Rightarrow> int \<Rightarrow> int \<Rightarrow> bool \<Rightarrow> bool \<Rightarrow> int" where
  "unfixed_delta p t L inp aToB =
     (if aToB = inp then shift_round (\<not> inp) (L * \<bar>p - t\<bar>) else delta_a (\<not> inp) L p t)"

lemma shift_round_nonneg: "0 \<le> x \<Longrightarrow> 0 \<le> shift_round up x"
  by (simp add: shift_round_def pos_imp_zdiv_nonneg_iff)

lemma delta_a_nonneg: "0 \<le> L \<Longrightarrow> 0 < p \<Longrightarrow> 0 < q \<Longrightarrow> 0 \<le> delta_a up L p q"
  by (simp add: delta_a_def rdiv_nonneg)

lemma fixed_delta_nonneg: "0 \<le> L \<Longrightarrow> 0 < p \<Longrightarrow> 0 < t \<Longrightarrow> 0 \<le> fixed_delta p t L inp aToB"
  by (simp add: fixed_delta_def delta_a_nonneg shift_round_nonneg)

lemma unfixed_delta_nonneg: "0 \<le> L \<Longrightarrow> 0 < p \<Longrightarrow> 0 < t \<Longrightarrow> 0 \<le> unfixed_delta p t L inp aToB"
  by (simp add: unfixed_delta_def delta_a_nonneg shift_round_nonneg)

lemma fixed_delta_Inr:
  assumes "math_util_ok mu" "0 \<le> L" "0 < p" "0 < t"
    and "sm_getAmountFixedDelta mu p t L inp aToB = Inr d"
  shows "d = fixed_delta p t L inp aToB"
  using assms
  by (auto simp: sm_getAmountFixedDelta_def fixed_delta_def getAmountDeltaA_eq
      getAmountDeltaB_eq Let_def split: if_splits)

lemma unfixed_delta_Inr:
  assumes "math_util_ok mu" "0 \<le> L" "0 < p" "0 < t"
    and "sm_getAmountUnfixedDelta mu p t L inp aToB = Inr d"
  shows "d = unfixed_delta p t L inp aToB"
  using assms
  by (auto simp: sm_getAmountUnfixedDelta_def unfixed_delta_def getAmountDeltaA_eq
      getAmountDeltaB_eq Let_def split: if_splits)

text \<open>No liquidity, no amount: a step that stops short has liquidity.\<close>

lemma fixed_delta_no_liquidity: "fixed_delta p t 0 inp aToB = 0"
  by (simp add: fixed_delta_def delta_a_def shift_round_def)

text \<open>
  A step that cannot reach the target ends at a price strictly before or at the target,
  its fixed amount is within the budget (one unit more for token B going in, where the
  rounding of the product reads the wrong word) and covers the budget going out.
\<close>

lemma short_step_a_in:
  assumes "0 < L" "0 < p" "0 < t" "t \<le> p" "0 \<le> a" "a < delta_a True L p t"
  shows "t < next_price_a True p L a"
proof -
  have "\<not> L * (p - t) * 2 ^ 64 \<le> a * (p * t)"
    using assms rdiv_up_le_iff [of "p * t" "L * (p - t) * 2 ^ 64" a] by (simp add: delta_a_def)
  then have "t * (L * 2 ^ 64 + p * a) < L * p * 2 ^ 64" by (simp add: algebra_simps)
  moreover have "0 < L * 2 ^ 64 + p * a" using assms by (simp add: add_pos_nonneg)
  ultimately show ?thesis
    using rdiv_up_le_iff [of "L * 2 ^ 64 + p * a" "L * p * 2 ^ 64" t]
    by (simp add: next_price_a_def linorder_not_le [symmetric])
qed

lemma short_step_a_out:
  assumes "0 < L" "0 < p" "0 < t" "p \<le> t" "0 \<le> a" "a < delta_a False L p t"
    and "p * a < L * 2 ^ 64"
  shows "next_price_a False p L a \<le> t"
proof -
  have "a \<le> delta_a False L p t" using assms by simp
  then have "a * (p * t) \<le> L * (t - p) * 2 ^ 64"
    using assms by (simp add: delta_a_def le_rdiv_down_iff abs_minus_commute)
  then have "L * p * 2 ^ 64 \<le> t * (L * 2 ^ 64 - p * a)" by (simp add: algebra_simps)
  with assms show ?thesis by (simp add: next_price_a_def rdiv_up_le_iff)
qed

lemma short_step_b_in:
  assumes "0 < L" "p \<le> t" "0 \<le> a" "a < shift_round True (L * (t - p))"
  shows "p + rdiv False (a * 2 ^ 64) L \<le> t"
proof -
  have "a \<le> L * (t - p) div 2 ^ 64" using assms(4) by (auto simp: shift_round_def split: if_splits)
  then have "a * 2 ^ 64 \<le> L * (t - p)" by (simp add: le_div_iff_int)
  moreover have "L * rdiv False (a * 2 ^ 64) L \<le> a * 2 ^ 64"
    by (rule next_price_b_in) fact+
  ultimately have "L * rdiv False (a * 2 ^ 64) L \<le> L * (t - p)" by linarith
  with assms(1) have "rdiv False (a * 2 ^ 64) L \<le> t - p" by simp
  then show ?thesis by simp
qed

lemma short_step_b_out:
  assumes "0 < L" "t \<le> p" "0 \<le> a" "a < shift_round False (L * (p - t))"
  shows "t \<le> p - rdiv True (a * 2 ^ 64) L"
proof -
  have "a \<le> L * (p - t) div 2 ^ 64" using assms(4) by (simp add: shift_round_def)
  then have "a * 2 ^ 64 \<le> (p - t) * L" by (simp add: le_div_iff_int mult.commute)
  with assms(1) have "rdiv True (a * 2 ^ 64) L \<le> p - t" by (simp add: rdiv_up_le_iff)
  then show ?thesis by simp
qed

text \<open>The four cases together. \<open>b_slack\<close> is the unit token B may exceed the budget by going in.\<close>

definition b_slack :: "bool \<Rightarrow> bool \<Rightarrow> int" where
  "b_slack inp aToB = (if inp \<and> \<not> aToB then 1 else 0)"

definition toward :: "bool \<Rightarrow> int \<Rightarrow> int \<Rightarrow> int \<Rightarrow> bool" where
  "toward aToB p r t \<longleftrightarrow> (if aToB then t \<le> r \<and> r \<le> p else p \<le> r \<and> r \<le> t)"

lemma short_step:
  assumes L: "0 \<le> L" and p: "0 < p" "0 < t" "if aToB then t \<le> p else p \<le> t"
    and a: "0 \<le> a" "a < fixed_delta p t L inp aToB"
    and ret: "getNextSqrtPrice p L a inp aToB = Inr r"
  shows "toward aToB p r t" "0 < r"
    "inp \<Longrightarrow> fixed_delta p r L inp aToB \<le> a + b_slack inp aToB"
    "\<not> inp \<Longrightarrow> a \<le> fixed_delta p r L inp aToB"
proof -
  have L: "0 < L" using L a fixed_delta_no_liquidity [of p t inp aToB] by (cases "L = 0") auto
  have *: "toward aToB p r t \<and> 0 < r \<and> (inp \<longrightarrow> fixed_delta p r L inp aToB \<le> a + b_slack inp aToB)
      \<and> (\<not> inp \<longrightarrow> a \<le> fixed_delta p r L inp aToB)"
  proof (cases "inp = aToB")
    case True
    show ?thesis
    proof (cases "a = 0")
      case zero: True
      with ret True have "r = p"
        by (simp add: getNextSqrtPrice_def getNextSqrtPriceFromARoundUp_def)
      with p zero True show ?thesis
        by (simp add: toward_def fixed_delta_def delta_a_def b_slack_def)
    next
      case False
      with a have "0 < a" by simp
      from ret True have ret': "getNextSqrtPriceFromARoundUp p L a inp = Inr r"
        by (simp add: getNextSqrtPrice_def)
      have r: "r = next_price_a inp p L a" "inp \<or> p * a < L * 2 ^ 64"
        using getNextSqrtPriceFromARoundUp_Inr [OF _ _ _ _ ret'] L p \<open>0 < a\<close> by auto
      have d: "a < delta_a inp L p t" using a True by (simp add: fixed_delta_def)
      show ?thesis
      proof (cases inp)
        case True
        with r d L p a \<open>inp = aToB\<close> show ?thesis
          using next_price_a_in [of L p a] short_step_a_in [of L p t a]
          by (simp add: toward_def fixed_delta_def b_slack_def)
      next
        case False
        with r d L p a \<open>inp = aToB\<close> show ?thesis
          using next_price_a_out [of L p a] short_step_a_out [of L p t a]
          by (simp add: toward_def fixed_delta_def)
      qed
    qed
  next
    case False
    with ret have ret': "getNextSqrtPriceFromBRoundDown p L a inp = Inr r"
      by (auto simp: getNextSqrtPrice_def)
    show ?thesis
    proof (cases inp)
      case True
      with False ret' L p a show ?thesis
        using next_price_b_in(1,2) [of L a] next_price_b_in(3) [of L a True] short_step_b_in [of L p t a]
        by (auto simp: getNextSqrtPriceFromBRoundDown_eq toward_def fixed_delta_def b_slack_def
            abs_minus_commute)
    next
      case out: False
      with False ret' L p a show ?thesis
        using next_price_b_out [of L a] short_step_b_out [of L t p a]
        by (auto simp: getNextSqrtPriceFromBRoundDown_eq toward_def fixed_delta_def)
    qed
  qed
  show "toward aToB p r t" "0 < r"
    "inp \<Longrightarrow> fixed_delta p r L inp aToB \<le> a + b_slack inp aToB"
    "\<not> inp \<Longrightarrow> a \<le> fixed_delta p r L inp aToB"
    using * by blast+
qed

subsection \<open>The step, inverted\<close>

text \<open>The budget before and after the fee.\<close>

definition net_amount :: "int \<Rightarrow> int \<Rightarrow> bool \<Rightarrow> int" where
  "net_amount rem fee inp =
     (if inp then rdiv False (rem * (FEE_RATE_MUL_VALUE - fee)) FEE_RATE_MUL_VALUE else rem)"

definition fee_on :: "int \<Rightarrow> int \<Rightarrow> int" where
  "fee_on fee amt = rdiv True (amt * fee) (FEE_RATE_MUL_VALUE - fee)"

lemma net_amount_Inr:
  assumes "step_pre rem fee L p t aToB"
    and "(if inp then mulDiv rem (FEE_RATE_MUL_VALUE - fee) FEE_RATE_MUL_VALUE 128 else Inr rem) = Inr c"
  shows "c = net_amount rem fee inp" "0 \<le> c"
  using assms mulDiv_eq_Inr [of rem "FEE_RATE_MUL_VALUE - fee" FEE_RATE_MUL_VALUE 128 c]
  by (auto simp: step_pre_def net_amount_def FEE_RATE_MUL_VALUE_def rdiv_nonneg split: if_splits)

text \<open>Where the step's price ends, with its fixed amount against the net budget.\<close>

lemma step_price:
  assumes pre: "step_pre rem fee L p t aToB" and c: "0 \<le> c"
    and ret: "(if c \<ge> fixed_delta p t L inp aToB then Inr t
      else getNextSqrtPrice p L c inp aToB) = Inr np"
  shows "toward aToB p np t" "0 < np"
    "inp \<Longrightarrow> np \<noteq> t \<Longrightarrow> fixed_delta p np L inp aToB \<le> c + b_slack inp aToB"
    "inp \<Longrightarrow> np = t \<Longrightarrow> fixed_delta p t L inp aToB \<le> c + b_slack inp aToB"
    "\<not> inp \<Longrightarrow> np \<noteq> t \<Longrightarrow> c \<le> fixed_delta p np L inp aToB"
proof -
  have P: "0 \<le> L" "0 < p" "0 < t" "if aToB then t \<le> p else p \<le> t"
    using pre by (auto simp: step_pre_def)
  have "toward aToB p np t \<and> 0 < np \<and>
    (inp \<longrightarrow> fixed_delta p np L inp aToB \<le> c + b_slack inp aToB) \<and>
    (\<not> inp \<longrightarrow> np \<noteq> t \<longrightarrow> c \<le> fixed_delta p np L inp aToB)"
  proof (cases "c \<ge> fixed_delta p t L inp aToB")
    case True
    with ret P show ?thesis by (auto simp: toward_def b_slack_def split: if_splits)
  next
    case False
    with ret have "getNextSqrtPrice p L c inp aToB = Inr np" by simp
    from short_step [OF P c _ this] False show ?thesis by (cases inp) auto
  qed
  then show "toward aToB p np t" "0 < np"
    "inp \<Longrightarrow> np \<noteq> t \<Longrightarrow> fixed_delta p np L inp aToB \<le> c + b_slack inp aToB"
    "inp \<Longrightarrow> np = t \<Longrightarrow> fixed_delta p t L inp aToB \<le> c + b_slack inp aToB"
    "\<not> inp \<Longrightarrow> np \<noteq> t \<Longrightarrow> c \<le> fixed_delta p np L inp aToB"
    by auto
qed

lemma computeSwapStep_Inr:
  assumes mu: "math_util_ok mu" and pre: "step_pre rem fee L p t aToB"
    and ret: "computeSwapStep mu rem fee L p t inp aToB = Inr s"
  defines "np \<equiv> step_nextPrice s"
  shows "toward aToB p np t" "0 < np"
    "step_amountIn s = (if inp then fixed_delta p np L inp aToB else unfixed_delta p np L inp aToB)"
    "step_amountOut s = (if inp then unfixed_delta p np L inp aToB
       else min rem (fixed_delta p np L inp aToB))"
    "step_feeAmount s = (if inp \<and> np \<noteq> t then rem - step_amountIn s
       else fee_on fee (step_amountIn s))"
    "inp \<Longrightarrow> step_amountIn s \<le> net_amount rem fee True + b_slack inp aToB"
    "\<not> inp \<Longrightarrow> np \<noteq> t \<Longrightarrow> step_amountOut s = rem"
proof -
  have P: "0 \<le> rem" "0 \<le> L" "0 < p" "0 < t" "0 \<le> fee" "fee < FEE_RATE_MUL_VALUE"
    using pre by (auto simp: step_pre_def)
  from ret obtain d0 c unf d f np' where
    d0: "sm_getAmountFixedDelta mu p t L inp aToB = Inr d0" and
    c: "(if inp then mulDiv rem (FEE_RATE_MUL_VALUE - fee) FEE_RATE_MUL_VALUE 128 else Inr rem) = Inr c" and
    np': "(if c \<ge> d0 then Inr t else getNextSqrtPrice p L c inp aToB) = Inr np'" and
    unf: "sm_getAmountUnfixedDelta mu p np' L inp aToB = Inr unf" and
    d: "(if \<not> np' = t then sm_getAmountFixedDelta mu p np' L inp aToB else Inr d0) = Inr d" and
    f: "(if inp \<and> \<not> np' = t then Inr (rem - (if inp then d else unf))
         else mulDivRoundUp (if inp then d else unf) fee (FEE_RATE_MUL_VALUE - fee) 128) = Inr f" and
    s': "Inr \<lparr>step_amountIn = if inp then d else unf,
              step_amountOut = if \<not> inp \<and> (if inp then unf else d) > rem then rem
                               else if inp then unf else d,
              step_nextPrice = np', step_feeAmount = f\<rparr> = (Inr s :: SwapStep res)"
    unfolding computeSwapStep_def bindE_eq_Inr Let_def by blast
  from s' have s: "s = \<lparr>step_amountIn = if inp then d else unf,
             step_amountOut = if inp then unf else min rem d,
             step_nextPrice = np', step_feeAmount = f\<rparr>"
    by (cases inp) (auto simp: min_def)
  note fx = fixed_delta_Inr [OF mu \<open>0 \<le> L\<close> \<open>0 < p\<close>]
  have d0': "d0 = fixed_delta p t L inp aToB" by (rule fx [OF \<open>0 < t\<close> d0])
  have c': "c = net_amount rem fee inp" "0 \<le> c" using net_amount_Inr [OF pre c] by auto
  note price = step_price [OF pre c'(2) np' [unfolded d0']]
  have np: "np = np'" by (simp add: np_def s)
  have unf': "unf = unfixed_delta p np L inp aToB"
    using unfixed_delta_Inr [OF mu \<open>0 \<le> L\<close> \<open>0 < p\<close> price(2) unf] np by simp
  have d': "d = fixed_delta p np L inp aToB"
    using d fx [OF price(2)] np d0' by (auto split: if_splits)
  have nn: "0 \<le> (if inp then d else unf)"
    using P price(2) fixed_delta_nonneg unfixed_delta_nonneg d' unf' np by simp
  show "toward aToB p np t" "0 < np" using price np by auto
  show "step_amountIn s = (if inp then fixed_delta p np L inp aToB else unfixed_delta p np L inp aToB)"
    "step_amountOut s = (if inp then unfixed_delta p np L inp aToB
       else min rem (fixed_delta p np L inp aToB))"
    using d' unf' by (auto simp: s)
  show "step_feeAmount s = (if inp \<and> np \<noteq> t then rem - step_amountIn s
       else fee_on fee (step_amountIn s))"
    using f np nn P by (auto simp: s mulDivRoundUp_eq_Inr fee_on_def split: if_splits)
  show "inp \<Longrightarrow> step_amountIn s \<le> net_amount rem fee True + b_slack inp aToB"
    using price(3,4) c' d' np by (cases "np = t") (auto simp: s)
  show "\<not> inp \<Longrightarrow> np \<noteq> t \<Longrightarrow> step_amountOut s = rem"
    using price(5) c' d' np by (auto simp: s net_amount_def)
qed

text \<open>The fee on an amount within the net budget fits in what the fee took off the budget.\<close>

lemma fee_on_budget:
  assumes "0 \<le> fee" "fee < FEE_RATE_MUL_VALUE" "amt \<le> net_amount rem fee True"
  shows "amt + fee_on fee amt \<le> rem"
    "amt * fee \<le> (rem - amt) * (FEE_RATE_MUL_VALUE - fee)"
proof -
  have "amt * FEE_RATE_MUL_VALUE \<le> rem * (FEE_RATE_MUL_VALUE - fee)"
    using assms(3) by (simp add: net_amount_def le_rdiv_down_iff FEE_RATE_MUL_VALUE_def)
  then show *: "amt * fee \<le> (rem - amt) * (FEE_RATE_MUL_VALUE - fee)"
    by (simp add: algebra_simps)
  with assms have "fee_on fee amt \<le> rem - amt" by (simp add: fee_on_def rdiv_up_le_iff)
  then show "amt + fee_on fee amt \<le> rem" by simp
qed

lemma fee_on_full: "fee < FEE_RATE_MUL_VALUE \<Longrightarrow> amt * fee \<le> fee_on fee amt * (FEE_RATE_MUL_VALUE - fee)"
  using rdiv_bounds(3) [of "FEE_RATE_MUL_VALUE - fee" "amt * fee"] by (simp add: fee_on_def)

text \<open>One unit over the net budget costs at most two over the whole, for fees up to one half.\<close>

lemma fee_on_budget_slack:
  assumes "0 \<le> fee" "2 * fee \<le> FEE_RATE_MUL_VALUE" "amt \<le> net_amount rem fee True + 1"
  shows "amt + fee_on fee amt \<le> rem + 2"
proof -
  have M: "fee < FEE_RATE_MUL_VALUE" using assms by (simp add: FEE_RATE_MUL_VALUE_def)
  have "(amt - 1) * fee \<le> (rem - (amt - 1)) * (FEE_RATE_MUL_VALUE - fee)"
    by (rule fee_on_budget(2)) (use assms M in auto)
  then have "amt * fee \<le> (rem - (amt - 1)) * (FEE_RATE_MUL_VALUE - fee) + fee"
    by (simp add: algebra_simps)
  also have "\<dots> \<le> (rem - amt + 2) * (FEE_RATE_MUL_VALUE - fee)"
    using assms(2) by (simp add: algebra_simps)
  finally have "fee_on fee amt \<le> rem - amt + 2"
    using M by (simp add: fee_on_def rdiv_up_le_iff)
  then show ?thesis by simp
qed

text \<open>The rounded amounts against the exact ones.\<close>

lemma delta_a_in_covers:
  "0 < p \<Longrightarrow> 0 < q \<Longrightarrow> L * \<bar>p - q\<bar> * 2 ^ 64 \<le> delta_a True L p q * (p * q)"
  using rdiv_bounds(3) [of "p * q" "L * \<bar>p - q\<bar> * 2 ^ 64"] by (simp add: delta_a_def)

lemma delta_a_out_within:
  "0 < p \<Longrightarrow> 0 < q \<Longrightarrow> x \<le> delta_a False L p q \<Longrightarrow> x * (p * q) \<le> L * \<bar>p - q\<bar> * 2 ^ 64"
  by (simp add: delta_a_def le_rdiv_down_iff)

lemma delta_b_out_within: "shift_round False x * 2 ^ 64 \<le> x"
  using le_div_iff_int [of "2 ^ 64" "x div 2 ^ 64" x] by (simp add: shift_round_def)

lemma delta_b_in_near: "x < (shift_round True x + 1) * 2 ^ 64"
  using le_div_iff_int [of "2 ^ 64" "x div 2 ^ 64 + 1" x] by (auto simp: shift_round_def)

text \<open>The contract of a step, which the swap loop uses.\<close>

lemma step_budget:
  assumes "math_util_ok mu" "step_pre rem fee L p t aToB" "2 * fee \<le> FEE_RATE_MUL_VALUE"
    and "computeSwapStep mu rem fee L p t inp aToB = Inr s"
  shows "if \<not> inp then step_amountOut s \<le> rem
         else if aToB then step_amountIn s + step_feeAmount s \<le> rem
         else step_amountIn s + step_feeAmount s \<le> rem + 2"
proof -
  note step = computeSwapStep_Inr [OF assms(1,2,4)]
  have fee: "0 \<le> fee" "fee < FEE_RATE_MUL_VALUE" using assms(2) by (auto simp: step_pre_def)
  show ?thesis
  proof (cases "inp \<and> step_nextPrice s = t")
    case False
    with step(4,5) show ?thesis by auto
  next
    case True
    with step(5,6) fee assms(3) show ?thesis
      using fee_on_budget(1) [OF fee, of "step_amountIn s" rem]
        fee_on_budget_slack [OF fee(1) assms(3), of "step_amountIn s" rem]
      by (auto simp: b_slack_def)
  qed
qed

lemma step_fee:
  assumes "math_util_ok mu" "step_pre rem fee L p t aToB" "aToB \<or> \<not> inp"
    and "computeSwapStep mu rem fee L p t inp aToB = Inr s"
  shows "step_amountIn s * fee \<le> step_feeAmount s * (FEE_RATE_MUL_VALUE - fee)"
proof -
  note step = computeSwapStep_Inr [OF assms(1,2,4)]
  have fee: "0 \<le> fee" "fee < FEE_RATE_MUL_VALUE" using assms(2) by (auto simp: step_pre_def)
  from step(5,6) assms(3) show ?thesis
    using fee_on_budget(2) [OF fee, of "step_amountIn s" rem] fee_on_full [OF fee(2)]
    by (auto simp: b_slack_def)
qed

lemma step_rounding:
  assumes "math_util_ok mu" "step_pre rem fee L p t aToB"
    and "computeSwapStep mu rem fee L p t inp aToB = Inr s"
  defines "np \<equiv> step_nextPrice s"
  shows "if aToB
         then L * (p - np) * 2 ^ 64 \<le> step_amountIn s * (p * np)
              \<and> step_amountOut s * 2 ^ 64 \<le> L * (p - np)
         else L * (np - p) < (step_amountIn s + 1) * 2 ^ 64
              \<and> step_amountOut s * (p * np) \<le> L * (np - p) * 2 ^ 64"
proof -
  note step = computeSwapStep_Inr [OF assms(1-3)]
  have P: "0 \<le> L" "0 < p" "0 < np" using assms(2) step(2) by (auto simp: step_pre_def np_def)
  show ?thesis
  proof (cases aToB)
    case True
    with step(1) P(2) have "\<bar>p - np\<bar> = p - np" by (simp add: toward_def np_def)
    with True P step(3,4) show ?thesis
      using delta_a_in_covers [of p np L] delta_b_out_within [of "L * (p - np)"]
      by (auto simp: fixed_delta_def unfixed_delta_def np_def [symmetric] min_def)
  next
    case False
    with step(1) P(2) have "\<bar>p - np\<bar> = np - p" by (simp add: toward_def np_def)
    with False P step(3,4) show ?thesis
      using delta_a_out_within [of p np "step_amountOut s" L] delta_b_in_near [of "L * (np - p)"]
      by (auto simp: fixed_delta_def unfixed_delta_def np_def [symmetric] min_def)
  qed
qed

lemma step_nonneg:
  assumes "math_util_ok mu" "step_pre rem fee L p t aToB"
    and "computeSwapStep mu rem fee L p t inp aToB = Inr s"
  shows "0 \<le> step_amountIn s" "0 \<le> step_amountOut s"
proof -
  note step = computeSwapStep_Inr [OF assms]
  have "0 \<le> rem" "0 \<le> L" "0 < p" using assms(2) by (auto simp: step_pre_def)
  with step(2) have "0 \<le> fixed_delta p (step_nextPrice s) L inp aToB" "0 \<le> unfixed_delta p (step_nextPrice s) L inp aToB"
    by (simp_all add: fixed_delta_nonneg unfixed_delta_nonneg)
  with step(3,4) \<open>0 \<le> rem\<close> show "0 \<le> step_amountIn s" "0 \<le> step_amountOut s" by (auto split: if_splits)
qed

text \<open>Selling token A, a step pays at most what the input is worth at any price from the start up.\<close>

lemma step_value:
  assumes "math_util_ok mu" "step_pre rem fee L p t aToB" and aToB
    and "computeSwapStep mu rem fee L p t inp aToB = Inr s" "p \<le> p0"
  shows "step_amountOut s * 2 ^ 128 \<le> step_amountIn s * (p0 * p0)"
proof -
  note step = computeSwapStep_Inr [OF assms(1,2,4)]
  have "step_amountOut s * 2 ^ 64 * 2 ^ 64 \<le> L * (p - step_nextPrice s) * 2 ^ 64"
    "L * (p - step_nextPrice s) * 2 ^ 64 \<le> step_amountIn s * (p * step_nextPrice s)"
    using step_rounding [OF assms(1,2,4)] assms(3) by simp_all
  moreover have "step_amountIn s * (p * step_nextPrice s) \<le> step_amountIn s * (p0 * p0)"
    using step_nonneg [OF assms(1,2,4)] step(1,2) assms(2,3,5)
    by (intro mult_left_mono mult_mono) (auto simp: toward_def step_pre_def)
  ultimately show ?thesis by simp
qed

text \<open>A step returns or throws an error of its arithmetic.\<close>

lemma mulDiv_ends: "ends (mulDivRoundUpIf a b d up limit)" "ends (mulDiv a b d limit)" "ends (mulDivRoundUp a b d limit)"
  by (auto simp: mulDiv_def mulDivRoundUp_def mulDivRoundUpIf_def bm_mul_def Let_def intro!: ends_intros)

lemma delta_ends:
  assumes "math_util_ok mu" "0 \<le> L" "0 < p" "0 < t"
  shows "ends (sm_getAmountFixedDelta mu p t L inp aToB)" "ends (sm_getAmountUnfixedDelta mu p t L inp aToB)"
  using assms
  by (auto simp: sm_getAmountFixedDelta_def sm_getAmountUnfixedDelta_def getAmountDeltaA_eq
      getAmountDeltaB_eq Let_def)

lemma getNextSqrtPrice_ends: "ends (getNextSqrtPrice p L a inp aToB)"
  by (auto simp: getNextSqrtPrice_def getNextSqrtPriceFromARoundUp_def getNextSqrtPriceFromBRoundDown_def
      bm_mul_def divRoundUpIf_def bm_divRoundUp_def Let_def intro!: ends_intros split: prod.splits)

lemma computeSwapStep_ends:
  assumes mu: "math_util_ok mu" and pre: "step_pre rem fee L p t aToB"
  shows "ends (computeSwapStep mu rem fee L p t inp aToB)"
proof -
  have P: "0 \<le> L" "0 < p" "0 < t" using pre by (auto simp: step_pre_def)
  note d = delta_ends [OF mu \<open>0 \<le> L\<close> \<open>0 < p\<close>]
  have np: "0 < np"
    if c: "(if inp then mulDiv rem (FEE_RATE_MUL_VALUE - fee) FEE_RATE_MUL_VALUE 128 else Inr rem) = Inr c"
      and d0: "sm_getAmountFixedDelta mu p t L inp aToB = Inr d0"
      and n: "(if c \<ge> d0 then Inr t else getNextSqrtPrice p L c inp aToB) = Inr np" for c d0 np
    using step_price(2) [OF pre net_amount_Inr(2) [OF pre c]] n fixed_delta_Inr [OF mu P d0] by simp
  show ?thesis
    unfolding computeSwapStep_def Let_def
    by (intro ends_intros d mulDiv_ends getNextSqrtPrice_ends P) (auto intro: np split: if_splits)
qed

subsection \<open>Example steps\<close>

text \<open>Steps of a pool at price 1 (\<open>2 ^ 64\<close>), with a target a thousandth away.\<close>

lemma step_example_pre:
  "step_pre 1000 3000 (2 ^ 64) (2 ^ 64) (2 ^ 64 - 2 ^ 54) True"
  "step_pre 1000 3000 (2 ^ 64) (2 ^ 64) (2 ^ 64 + 2 ^ 54) False"
  by (simp_all add: step_pre_def FEE_RATE_MUL_VALUE_def)

lemma step_example_a_in:
  "computeSwapStep math_util_ref 1000 3000 (2 ^ 64) (2 ^ 64) (2 ^ 64 - 2 ^ 54) True True =
     Inr \<lparr>step_amountIn = 997, step_amountOut = 996,
          step_nextPrice = 18446744073709550620, step_feeAmount = 3\<rparr>"
  by code_simp

lemma step_example_b_in:
  "computeSwapStep math_util_ref 1000 3000 (2 ^ 64) (2 ^ 64) (2 ^ 64 + 2 ^ 54) True False =
     Inr \<lparr>step_amountIn = 998, step_amountOut = 996,
          step_nextPrice = 18446744073709552613, step_feeAmount = 2\<rparr>"
  by code_simp

lemma step_example_b_out:
  "computeSwapStep math_util_ref 1000 3000 (2 ^ 64) (2 ^ 64) (2 ^ 64 + 2 ^ 54) False False =
     Inr \<lparr>step_amountIn = 1002, step_amountOut = 1000,
          step_nextPrice = 18446744073709552617, step_feeAmount = 4\<rparr>"
  by code_simp

subsection \<open>Properties\<close>

text \<open>
  C7: The price of a step never leaves the interval from the current price to the target:
  it moves in the direction of the trade and does not pass the target.
\<close>

theorem step_price_between:
  assumes "math_util_ok mu" "step_pre rem fee L p t aToB"
    and "computeSwapStep mu rem fee L p t inp aToB = Inr s"
  shows "if aToB then t \<le> step_nextPrice s \<and> step_nextPrice s \<le> p
         else p \<le> step_nextPrice s \<and> step_nextPrice s \<le> t"
  using computeSwapStep_Inr(1) [OF assms] by (simp add: toward_def split: if_splits)

theorem step_price_between_witness:
  "18446744073709551616 - 2 ^ 54 \<le> (18446744073709550620 :: int)
     \<and> (18446744073709550620 :: int) \<le> 2 ^ 64"
  using step_price_between [OF math_util_ref_ok step_example_pre(1) step_example_a_in] by simp

text \<open>
  C8: A step stays within the amount it was given. Selling token A, input and fee fit in
  the remaining amount; selling token B they may exceed it by at most two units (the
  rounding test of the shift reads the wrong word) for any fee up to one half; buying, the
  output is at most the remaining amount.
\<close>

theorem step_within_budget:
  assumes "math_util_ok mu" "step_pre rem fee L p t aToB" "2 * fee \<le> FEE_RATE_MUL_VALUE"
    and "computeSwapStep mu rem fee L p t inp aToB = Inr s"
  shows "if \<not> inp then step_amountOut s \<le> rem
         else if aToB then step_amountIn s + step_feeAmount s \<le> rem
         else step_amountIn s + step_feeAmount s \<le> rem + 2"
  using assms by (rule step_budget)

theorem step_within_budget_witness: "(998 :: int) + 2 \<le> 1000 + 2"
  using step_within_budget [OF math_util_ref_ok step_example_pre(2) _ step_example_b_in]
  by (simp add: FEE_RATE_MUL_VALUE_def)

text \<open>
  A step that ends before its target price has used its whole budget: input plus fee
  is exactly the remaining amount, or the output is.
\<close>

theorem step_short_uses_all:
  assumes "math_util_ok mu" "step_pre rem fee L p t aToB"
    and "computeSwapStep mu rem fee L p t inp aToB = Inr s"
    and "step_nextPrice s \<noteq> t"
  shows "(if inp then step_amountIn s + step_feeAmount s else step_amountOut s) = rem"
  using computeSwapStep_Inr(5,7) [OF assms(1-3)] assms(4) by simp

theorem step_short_uses_all_witness: "(997 :: int) + 3 = 1000"
  using step_short_uses_all [OF math_util_ref_ok step_example_pre(1) step_example_a_in] by simp

text \<open>
  The fee of a step is never less than the fee rate's share of what the trader pays,
  when token A is sold or the output is fixed: \<open>amountIn * fee \<le> feeAmount * (10^6 - fee)\<close>.
\<close>

theorem step_fee_full:
  assumes "math_util_ok mu" "step_pre rem fee L p t aToB" "aToB \<or> \<not> inp"
    and "computeSwapStep mu rem fee L p t inp aToB = Inr s"
  shows "step_amountIn s * fee \<le> step_feeAmount s * (FEE_RATE_MUL_VALUE - fee)"
  using assms by (rule step_fee)

theorem step_fee_full_witness:
  "(1002 :: int) * 3000 \<le> 4 * (FEE_RATE_MUL_VALUE - 3000)"
  using step_fee_full [OF math_util_ref_ok step_example_pre(2) _ step_example_b_out] by simp




end
