(* ===== verification/Swap_Loop.thy ===== *)
theory Swap_Loop
  imports Swap_Manager
begin

text \<open>
  The swap loop, verified. \<open>swap_ok\<close> is what a pool, its fetched tick arrays and the arguments
  satisfy; \<open>swap_inv\<close> is the invariant of the loop and \<open>swap_measure\<close> its measure. A pass of
  the loop that ends short of its target has used the amount up, one that ends at the limit
  stops, and every other one moves the tick index on, so the loop ends.
\<close>

text \<open>The liquidity after the initialized ticks between the pool's tick and \<open>cur\<close> are crossed.\<close>

definition crossed :: "TickArraySequence \<Rightarrow> int \<Rightarrow> int \<Rightarrow> int set" where
  "crossed q cur0 cur =
     {t \<in> seq_ticks q. if seq_aToB q then cur < t \<and> t \<le> cur0 else cur0 < t \<and> t \<le> cur}"

definition net_at :: "TickArraySequence \<Rightarrow> int \<Rightarrow> int" where
  "net_at q t = tick_liquidityNet (seq_tick q (t div seq_tickSpacing q))"

definition liquidity_at :: "TickArraySequence \<Rightarrow> WhirlpoolData \<Rightarrow> int \<Rightarrow> int" where
  "liquidity_at q pool cur =
     wp_liquidity pool + (if seq_aToB q then - 1 else 1) *
       (\<Sum>t \<in> crossed q (wp_tickCurrentIndex pool) cur. net_at q t)"

text \<open>
  A price belongs to a tick index: it lies between the prices of the index and the next one.
  The upper end is allowed, as after a downward crossing.
\<close>

definition price_at_tick :: "int \<Rightarrow> int \<Rightarrow> bool" where
  "price_at_tick p cur \<longleftrightarrow> MIN_TICK_INDEX - 1 \<le> cur \<and> cur \<le> MAX_TICK_INDEX \<and>
     MIN_SQRT_PRICE \<le> p \<and> p \<le> MAX_SQRT_PRICE \<and>
     tickIndexToSqrtPriceX64 cur \<le> p \<and> p \<le> tickIndexToSqrtPriceX64 (cur + 1)"

definition swap_ok ::
    "math_util \<Rightarrow> WhirlpoolData \<Rightarrow> TickArraySequence \<Rightarrow> int \<Rightarrow> int \<Rightarrow> bool \<Rightarrow> bool" where
  "swap_ok mu pool q amount limit aToB \<longleftrightarrow>
     math_util_ok mu \<and> seq_wf q \<and> seq_aToB q = aToB \<and>
     0 \<le> wp_feeRate pool \<and> wp_feeRate pool < 2 ^ 16 \<and>
     price_at_tick (wp_sqrtPrice pool) (wp_tickCurrentIndex pool) \<and>
     (\<forall>cur. 0 \<le> liquidity_at q pool cur) \<and>
     0 \<le> amount \<and> MIN_SQRT_PRICE \<le> limit \<and> limit \<le> MAX_SQRT_PRICE \<and>
     (if aToB then limit \<le> wp_sqrtPrice pool else wp_sqrtPrice pool \<le> limit)"

text \<open>What the trader has paid and received, whichever of the two is specified.\<close>

definition paid :: "bool \<Rightarrow> int \<Rightarrow> swap_state \<Rightarrow> int" where
  "paid inp amount s = (if inp then amount - amountRemaining s else amountCalculated s)"

definition received :: "bool \<Rightarrow> int \<Rightarrow> swap_state \<Rightarrow> int" where
  "received inp amount s = (if inp then amountCalculated s else amount - amountRemaining s)"

definition amounts_inv :: "WhirlpoolData \<Rightarrow> int \<Rightarrow> bool \<Rightarrow> bool \<Rightarrow> swap_state \<Rightarrow> bool" where
  "amounts_inv pool amount inp aToB s \<longleftrightarrow>
     - 2 \<le> amountRemaining s \<and> amountRemaining s \<le> amount + 0 \<and> 0 \<le> amountCalculated s \<and>
     (aToB \<or> \<not> inp \<longrightarrow> 0 \<le> amountRemaining s \<and>
        paid inp amount s * wp_feeRate pool \<le> totalFeeAmount s * FEE_RATE_MUL_VALUE) \<and>
     (aToB \<longrightarrow> received inp amount s * 2 ^ 128
        \<le> (paid inp amount s - totalFeeAmount s) * (wp_sqrtPrice pool * wp_sqrtPrice pool))"

definition swap_inv ::
    "WhirlpoolData \<Rightarrow> TickArraySequence \<Rightarrow> int \<Rightarrow> int \<Rightarrow> bool \<Rightarrow> bool \<Rightarrow> swap_state \<Rightarrow> bool" where
  "swap_inv pool q amount limit inp aToB s \<longleftrightarrow>
     same_seq q (tickSequence s) \<and> touched_set q \<subseteq> touched_set (tickSequence s) \<and>
     price_at_tick (currSqrtPrice s) (currTickIndex s) \<and>
     toward aToB (wp_sqrtPrice pool) (currSqrtPrice s) limit \<and>
     amounts_inv pool amount inp aToB s \<and>
     (swap_cond limit s \<longrightarrow>
        (if aToB then currTickIndex s \<le> wp_tickCurrentIndex pool
         else wp_tickCurrentIndex pool \<le> currTickIndex s) \<and>
        currLiquidity s = liquidity_at q pool (currTickIndex s))"

definition swap_measure :: "int \<Rightarrow> bool \<Rightarrow> swap_state \<Rightarrow> nat" where
  "swap_measure limit aToB s =
     (if swap_cond limit s
      then Suc (nat (if aToB then currTickIndex s - MIN_TICK_INDEX + 1 else MAX_TICK_INDEX - currTickIndex s))
      else 0)"

lemma swap_init_inv:
  assumes "swap_ok mu pool q amount limit aToB"
  shows "swap_inv pool q amount limit inp aToB (swap_init pool q amount aToB)"
proof -
  have "crossed q (wp_tickCurrentIndex pool) (wp_tickCurrentIndex pool) = {}"
    by (auto simp: crossed_def split: if_splits)
  with assms show ?thesis
    by (auto simp: swap_ok_def swap_inv_def swap_init_def amounts_inv_def toward_def liquidity_at_def
        paid_def received_def)
qed

subsection \<open>One pass of the loop\<close>

text \<open>The price of the next tick lies ahead of a price of the current one.\<close>

lemma next_price_ahead:
  assumes "price_at_tick p cur" "checkTickInBounds nx" "if aToB then nx \<le> cur else cur < nx"
  shows "if aToB then tickIndexToSqrtPriceX64 nx \<le> p else p \<le> tickIndexToSqrtPriceX64 nx"
  using assms tick_price.price_le_iff [of nx cur] tick_price.price_le_iff [of "cur + 1" nx]
  by (auto simp: price_at_tick_def checkTickInBounds_def MIN_TICK_INDEX_def MAX_TICK_INDEX_def split: if_splits)

text \<open>While the loop runs, the current index is inside the ticks the search may start from.\<close>

lemma cur_inside:
  assumes "price_at_tick p cur" "toward aToB p0 p limit" "p \<noteq> limit"
    "MIN_SQRT_PRICE \<le> limit" "limit \<le> MAX_SQRT_PRICE"
  shows "if aToB then MIN_TICK_INDEX \<le> cur \<and> cur \<le> MAX_TICK_INDEX
    else MIN_TICK_INDEX - 1 \<le> cur \<and> cur < MAX_TICK_INDEX"
proof (cases aToB)
  case True
  have "cur \<noteq> MIN_TICK_INDEX - 1"
  proof
    assume "cur = MIN_TICK_INDEX - 1"
    then have "p \<le> MIN_SQRT_PRICE" using assms(1) by (simp add: price_at_tick_def price_at_ends)
    with True assms show False by (simp add: toward_def)
  qed
  with True assms(1) show ?thesis by (simp add: price_at_tick_def)
next
  case False
  have "cur \<noteq> MAX_TICK_INDEX"
  proof
    assume "cur = MAX_TICK_INDEX"
    then have "MAX_SQRT_PRICE \<le> p" using assms(1) by (simp add: price_at_tick_def price_at_ends)
    with False assms show False by (simp add: toward_def)
  qed
  with False assms(1) show ?thesis by (simp add: price_at_tick_def)
qed

text \<open>What one pass has done, when it does not throw.\<close>

definition pass_target :: "int \<Rightarrow> bool \<Rightarrow> int \<Rightarrow> int" where
  "pass_target limit aToB nx =
     (if aToB then max limit (tickIndexToSqrtPriceX64 nx) else min limit (tickIndexToSqrtPriceX64 nx))"

definition same_amounts :: "swap_state \<Rightarrow> swap_state \<Rightarrow> bool" where
  "same_amounts s s' \<longleftrightarrow> amountRemaining s' = amountRemaining s \<and>
     amountCalculated s' = amountCalculated s \<and> totalFeeAmount s' = totalFeeAmount s"

definition swap_pass ::
    "math_util \<Rightarrow> WhirlpoolData \<Rightarrow> int \<Rightarrow> bool \<Rightarrow> bool \<Rightarrow> swap_state \<Rightarrow> int \<Rightarrow> SwapStep \<Rightarrow> swap_state \<Rightarrow> bool" where
  "swap_pass mu pool limit inp aToB s nx st s' \<longleftrightarrow>
     computeSwapStep mu (amountRemaining s) (wp_feeRate pool) (currLiquidity s) (currSqrtPrice s)
       (pass_target limit aToB nx) inp aToB = Inr st \<and>
     same_amounts (apply_step inp st s) s' \<and>
     currSqrtPrice s' = step_nextPrice st \<and>
     same_seq (tickSequence s) (tickSequence s') \<and>
     touched_set (tickSequence s) \<subseteq> touched_set (tickSequence s') \<and>
     (if step_nextPrice st = tickIndexToSqrtPriceX64 nx
      then currTickIndex s' = (if aToB then nx - 1 else nx) \<and>
        seq_in (tickSequence s) (nx div seq_tickSpacing (tickSequence s)) \<and>
        currLiquidity s' = (if seq_init (tickSequence s) (nx div seq_tickSpacing (tickSequence s))
          then currLiquidity s + (if aToB then - 1 else 1) * net_at (tickSequence s) nx
          else currLiquidity s)
      else sqrtPriceX64ToTickIndex (step_nextPrice st) = Inr (currTickIndex s'))"

lemma move_tick_Inr:
  assumes wf: "seq_wf (tickSequence s)"
    and ret: "move_tick aToB nx (tickIndexToSqrtPriceX64 nx) np s = Inr s3"
  shows "same_amounts s s3 \<and> same_seq (tickSequence s) (tickSequence s3) \<and>
     touched_set (tickSequence s) \<subseteq> touched_set (tickSequence s3) \<and>
     (if np = tickIndexToSqrtPriceX64 nx
      then currTickIndex s3 = (if aToB then nx - 1 else nx) \<and>
        seq_in (tickSequence s) (nx div seq_tickSpacing (tickSequence s)) \<and>
        currLiquidity s3 = (if seq_init (tickSequence s) (nx div seq_tickSpacing (tickSequence s))
          then currLiquidity s + (if aToB then - 1 else 1) * net_at (tickSequence s) nx
          else currLiquidity s)
      else sqrtPriceX64ToTickIndex np = Inr (currTickIndex s3))"
proof (cases "np = tickIndexToSqrtPriceX64 nx")
  case False
  with ret show ?thesis by (auto simp: move_tick_def bindE_eq_Inr same_amounts_def)
next
  case True
  let ?q = "tickSequence s" and ?n = "nx div seq_tickSpacing (tickSequence s)"
  have ts: "0 < seq_tickSpacing ?q" using wf by (simp add: seq_wf_def)
  have "seq_in ?q ?n"
  proof (rule ccontr)
    assume "\<not> ?thesis"
    from getTick_out [OF ts this] ret True show False by (simp add: move_tick_def)
  qed
  note get = getTick_eq [OF wf refl this]
  let ?k = "nat (seq_local ?q ?n)"
  have k: "?k < length (seq_touchedArrays ?q)"
    using \<open>seq_in ?q ?n\<close> wf by (auto simp: seq_in_def seq_wf_def)
  from ret True have s3: "s3 = s\<lparr>tickSequence := seq_touch ?q ?k,
      currLiquidity := (if tick_initialized (seq_tick ?q ?n)
        then calculateNextLiquidity (tick_liquidityNet (seq_tick ?q ?n)) (currLiquidity s) aToB
        else currLiquidity s),
      currTickIndex := (if aToB then nx - 1 else nx)\<rparr>"
    by (simp add: move_tick_def get)
  show ?thesis
    using True \<open>seq_in ?q ?n\<close> seq_touch_set [OF k] seq_touch_same [of ?q ?k]
    by (simp add: s3 same_amounts_def calculateNextLiquidity_def net_at_def seq_init_def) auto
qed

lemma apply_step_simps:
  "tickSequence (apply_step inp st s) = tickSequence s"
  "currLiquidity (apply_step inp st s) = currLiquidity s"
  "currTickIndex (apply_step inp st s) = currTickIndex s"
  "same_amounts (apply_step inp st (s\<lparr>tickSequence := q\<rparr>)) s' = same_amounts (apply_step inp st s) s'"
  by (simp_all add: apply_step_def same_amounts_def)

lemma swap_body_Inr:
  assumes wf: "seq_wf (tickSequence s)" and dir: "seq_aToB (tickSequence s) = aToB"
    and cur: "if aToB then MIN_TICK_INDEX \<le> currTickIndex s \<and> currTickIndex s \<le> MAX_TICK_INDEX
      else MIN_TICK_INDEX - 1 \<le> currTickIndex s \<and> currTickIndex s < MAX_TICK_INDEX"
    and ret: "swap_body mu pool limit inp aToB s = Inr s'"
  obtains nx st where "swap_pass mu pool limit inp aToB s nx st s'"
    "case nearest (tickSequence s) (ticks_ahead (tickSequence s) (currTickIndex s)) of
       Some t \<Rightarrow> nx = t | None \<Rightarrow> nx = last_index (tickSequence s)"
    "seq_in (tickSequence s) (search_start (tickSequence s) (currTickIndex s))"
proof -
  let ?q = "tickSequence s" and ?cur = "currTickIndex s"
  have ts: "0 < seq_tickSpacing ?q" using wf by (simp add: seq_wf_def)
  have "in": "seq_in ?q (search_start ?q ?cur)"
  proof (rule ccontr)
    assume "\<not> ?thesis"
    from find_next_out [OF ts this] ret show False by (simp add: swap_body_def)
  qed
  obtain q' nx nd where find: "findNextInitializedTickIndex ?q ?cur = Inr ((nx, nd), q')"
    "same_seq ?q q'" "touched_set ?q \<subseteq> touched_set q'"
    "case nearest ?q (ticks_ahead ?q ?cur) of
       Some t \<Rightarrow> nx = t \<and> nd = Some (seq_tick ?q (t div seq_tickSpacing ?q))
     | None \<Rightarrow> nx = last_index ?q \<and> nd = None"
    by (rule find_next_in [OF wf "in"])
  note d = same_seq_defs [OF find(2)] same_seq_fields [OF find(2)]
  from ret find(1) obtain st pf fg s3 where
    st: "computeSwapStep mu (amountRemaining s) (wp_feeRate pool) (currLiquidity s) (currSqrtPrice s)
       (pass_target limit aToB nx) inp aToB = Inr st" and
    mv: "move_tick aToB nx (tickIndexToSqrtPriceX64 nx) (step_nextPrice st)
      ((apply_step inp st (s\<lparr>tickSequence := q'\<rparr>))\<lparr>currProtocolFee := pf, currFeeGrowthGlobalInput := fg\<rparr>) = Inr s3" and
    s': "s' = s3\<lparr>currSqrtPrice := step_nextPrice st\<rparr>"
    by (auto simp: swap_body_def getNextSqrtPrices_def Let_def bindE_eq_Inr pass_target_def split: prod.splits if_splits)
  let ?s2 = "(apply_step inp st (s\<lparr>tickSequence := q'\<rparr>))\<lparr>currProtocolFee := pf, currFeeGrowthGlobalInput := fg\<rparr>"
  have q2: "tickSequence ?s2 = q'" "currLiquidity ?s2 = currLiquidity s" by (simp_all add: apply_step_simps)
  have sm: "same_amounts ?s2 s3 \<longleftrightarrow> same_amounts (apply_step inp st s) s3"
    by (simp add: apply_step_def same_amounts_def)
  have wf2: "seq_wf (tickSequence ?s2)" using wf d by (simp add: apply_step_simps)
  have net: "net_at q' = net_at ?q" by (simp add: fun_eq_iff net_at_def d)
  note m = move_tick_Inr [OF wf2 mv, unfolded q2 sm d net]
  have "swap_pass mu pool limit inp aToB s nx st s'"
    unfolding swap_pass_def s'
    using st m same_seq_trans [OF find(2), of "tickSequence s3"] find(3)
    by (auto simp: same_amounts_def split: if_splits)
  moreover have "case nearest ?q (ticks_ahead ?q ?cur) of Some t \<Rightarrow> nx = t | None \<Rightarrow> nx = last_index ?q"
    using find(4) by (auto split: option.splits)
  ultimately show thesis using "in" by (rule that)
qed

subsection \<open>The invariant is kept and the measure falls\<close>

text \<open>The situation of a pass: the loop runs, and a pass to the nearest tick was made.\<close>

definition pass_ok ::
    "math_util \<Rightarrow> WhirlpoolData \<Rightarrow> TickArraySequence \<Rightarrow> int \<Rightarrow> int \<Rightarrow> bool \<Rightarrow> bool \<Rightarrow>
     swap_state \<Rightarrow> int \<Rightarrow> SwapStep \<Rightarrow> swap_state \<Rightarrow> bool" where
  "pass_ok mu pool q amount limit inp aToB s nx st s' \<longleftrightarrow>
     swap_ok mu pool q amount limit aToB \<and> swap_inv pool q amount limit inp aToB s \<and>
     swap_cond limit s \<and> swap_pass mu pool limit inp aToB s nx st s' \<and>
     (case nearest q (ticks_ahead q (currTickIndex s)) of Some t \<Rightarrow> nx = t | None \<Rightarrow> nx = last_index q) \<and>
     seq_in q (search_start q (currTickIndex s))"

lemma pass_cur:
  assumes "swap_ok mu pool q amount limit aToB" "swap_inv pool q amount limit inp aToB s" "swap_cond limit s"
  shows "if aToB then MIN_TICK_INDEX \<le> currTickIndex s \<and> currTickIndex s \<le> MAX_TICK_INDEX
      else MIN_TICK_INDEX - 1 \<le> currTickIndex s \<and> currTickIndex s < MAX_TICK_INDEX"
  using cur_inside [of "currSqrtPrice s" "currTickIndex s" aToB "wp_sqrtPrice pool" limit] assms
  by (auto simp: swap_ok_def swap_inv_def swap_cond_def)

lemma swap_body_pass:
  assumes ok: "swap_ok mu pool q amount limit aToB" and inv: "swap_inv pool q amount limit inp aToB s"
    and cond: "swap_cond limit s" and ret: "swap_body mu pool limit inp aToB s = Inr s'"
  obtains nx st where "pass_ok mu pool q amount limit inp aToB s nx st s'"
proof -
  have same: "same_seq q (tickSequence s)" using inv by (simp add: swap_inv_def)
  note d = same_seq_defs [OF same] same_seq_fields [OF same] same_seq_search [OF same]
  have "seq_wf (tickSequence s)" "seq_aToB (tickSequence s) = aToB"
    using ok d by (simp_all add: swap_ok_def)
  from swap_body_Inr [OF this pass_cur [OF ok inv cond] ret] obtain nx st where
    "swap_pass mu pool limit inp aToB s nx st s'"
    "case nearest (tickSequence s) (ticks_ahead (tickSequence s) (currTickIndex s)) of
       Some t \<Rightarrow> nx = t | None \<Rightarrow> nx = last_index (tickSequence s)"
    "seq_in (tickSequence s) (search_start (tickSequence s) (currTickIndex s))" by metis
  then have "pass_ok mu pool q amount limit inp aToB s nx st s'"
    using ok inv cond unfolding d by (simp add: pass_ok_def)
  then show thesis by (rule that)
qed

lemma pass_next:
  assumes "pass_ok mu pool q amount limit inp aToB s nx st s'"
  shows "checkTickInBounds nx" "if aToB then nx \<le> currTickIndex s else currTickIndex s < nx"
    "t \<in> seq_ticks q \<Longrightarrow> if aToB then t \<le> currTickIndex s \<longrightarrow> t \<le> nx else currTickIndex s < t \<longrightarrow> nx \<le> t"
    "seq_init q (nx div seq_tickSpacing q) \<Longrightarrow> nx \<in> seq_ticks q \<or> \<not> aToB \<and> nx = MAX_TICK_INDEX"
proof -
  have a: "seq_wf q" "seq_aToB q = aToB" using assms by (auto simp: pass_ok_def swap_ok_def)
  have "if seq_aToB q then MIN_TICK_INDEX \<le> currTickIndex s \<and> currTickIndex s \<le> MAX_TICK_INDEX
      else MIN_TICK_INDEX - 1 \<le> currTickIndex s \<and> currTickIndex s < MAX_TICK_INDEX"
  proof -
    have "swap_ok mu pool q amount limit aToB" "swap_inv pool q amount limit inp aToB s" "swap_cond limit s"
      using assms by (simp_all add: pass_ok_def)
    then show ?thesis unfolding a(2) by (rule pass_cur)
  qed
  note f = next_tick_facts [OF a(1) _ this, unfolded a(2)]
  show "checkTickInBounds nx" "if aToB then nx \<le> currTickIndex s else currTickIndex s < nx"
    "t \<in> seq_ticks q \<Longrightarrow> if aToB then t \<le> currTickIndex s \<longrightarrow> t \<le> nx else currTickIndex s < t \<longrightarrow> nx \<le> t"
    "seq_init q (nx div seq_tickSpacing q) \<Longrightarrow> nx \<in> seq_ticks q \<or> \<not> aToB \<and> nx = MAX_TICK_INDEX"
    using assms f unfolding pass_ok_def by blast+
qed

lemma pass_step_pre:
  assumes "pass_ok mu pool q amount limit inp aToB s nx st s'"
  shows "step_pre (amountRemaining s) (wp_feeRate pool) (currLiquidity s) (currSqrtPrice s)
    (pass_target limit aToB nx) aToB"
proof -
  have ok: "swap_ok mu pool q amount limit aToB" and inv: "swap_inv pool q amount limit inp aToB s"
    and cond: "swap_cond limit s" using assms by (auto simp: pass_ok_def)
  have "0 \<le> currLiquidity s" using ok inv cond by (auto simp: swap_ok_def swap_inv_def)
  moreover have "price_at_tick (currSqrtPrice s) (currTickIndex s)" using inv by (simp add: swap_inv_def)
  from next_price_ahead [OF this pass_next(1,2) [OF assms]]
  have "if aToB then pass_target limit aToB nx \<le> currSqrtPrice s else currSqrtPrice s \<le> pass_target limit aToB nx"
    using inv by (auto simp: pass_target_def swap_inv_def toward_def)
  moreover have "0 < pass_target limit aToB nx"
    using ok price_in_bounds(1) [OF pass_next(1) [OF assms]]
    by (auto simp: pass_target_def swap_ok_def MIN_SQRT_PRICE_def)
  ultimately show ?thesis
    using ok inv cond
    by (auto simp: step_pre_def swap_ok_def swap_inv_def swap_cond_def price_at_tick_def
        MIN_SQRT_PRICE_def FEE_RATE_MUL_VALUE_def)
qed

lemma pass_price:
  assumes pass: "pass_ok mu pool q amount limit inp aToB s nx st s'"
  shows "toward aToB (wp_sqrtPrice pool) (currSqrtPrice s') limit"
    "price_at_tick (currSqrtPrice s') (currTickIndex s')"
proof -
  have ok: "swap_ok mu pool q amount limit aToB" and inv: "swap_inv pool q amount limit inp aToB s"
    and p: "swap_pass mu pool limit inp aToB s nx st s'" using pass by (auto simp: pass_ok_def)
  have mu: "math_util_ok mu" using ok by (simp add: swap_ok_def)
  note step = computeSwapStep_Inr [OF mu pass_step_pre [OF pass] p [unfolded swap_pass_def, THEN conjunct1]]
  have np: "currSqrtPrice s' = step_nextPrice st" using p by (simp add: swap_pass_def)
  have "toward aToB (wp_sqrtPrice pool) (currSqrtPrice s) limit" using inv by (simp add: swap_inv_def)
  with step(1) show t: "toward aToB (wp_sqrtPrice pool) (currSqrtPrice s') limit"
    by (auto simp: toward_def pass_target_def np split: if_splits)
  have range: "MIN_SQRT_PRICE \<le> step_nextPrice st" "step_nextPrice st \<le> MAX_SQRT_PRICE"
    using t ok by (auto simp: toward_def swap_ok_def price_at_tick_def np split: if_splits)
  show "price_at_tick (currSqrtPrice s') (currTickIndex s')"
  proof (cases "step_nextPrice st = tickIndexToSqrtPriceX64 nx")
    case True
    then have "currTickIndex s' = (if aToB then nx - 1 else nx)" using p by (simp add: swap_pass_def)
    moreover have "tickIndexToSqrtPriceX64 (nx - 1) < tickIndexToSqrtPriceX64 nx"
      "tickIndexToSqrtPriceX64 nx < tickIndexToSqrtPriceX64 (nx + 1)"
      using pass_next(1) [OF pass] tick_price.price_less_iff [of "nx - 1" nx] tick_price.price_less_iff [of nx "nx + 1"]
      by (simp_all add: checkTickInBounds_def MIN_TICK_INDEX_def MAX_TICK_INDEX_def)
    ultimately show ?thesis
      using True range pass_next(1) [OF pass] by (simp add: price_at_tick_def np checkTickInBounds_def)
  next
    case False
    then have "sqrtPriceX64ToTickIndex (step_nextPrice st) = Inr (currTickIndex s')"
      using p by (simp add: swap_pass_def)
    with range show ?thesis
      by (auto simp: sqrtPriceX64ToTickIndex_iff price_at_tick_def np checkTickInBounds_def)
  qed
qed

text \<open>If the loop goes on, the step reached its tick.\<close>

lemma pass_goes_on:
  assumes pass: "pass_ok mu pool q amount limit inp aToB s nx st s'" and cond': "swap_cond limit s'"
  shows "step_nextPrice st = tickIndexToSqrtPriceX64 nx"
proof -
  have ok: "swap_ok mu pool q amount limit aToB"
    and p: "swap_pass mu pool limit inp aToB s nx st s'" using pass by (auto simp: pass_ok_def)
  have mu: "math_util_ok mu" using ok by (simp add: swap_ok_def)
  note step = computeSwapStep_Inr [OF mu pass_step_pre [OF pass] p [unfolded swap_pass_def, THEN conjunct1]]
  have np: "currSqrtPrice s' = step_nextPrice st" using p by (simp add: swap_pass_def)
  have rem: "amountRemaining s' = (if inp then amountRemaining s - step_amountIn st - step_feeAmount st
      else amountRemaining s - step_amountOut st)"
    using p by (simp add: swap_pass_def same_amounts_def apply_step_def)
  have "step_nextPrice st = pass_target limit aToB nx"
  proof (rule ccontr)
    assume "\<not> ?thesis"
    then have "amountRemaining s' = 0" using rem step(5,7) by (cases inp) simp_all
    with cond' show False by (simp add: swap_cond_def)
  qed
  with cond' show ?thesis
    by (auto simp: pass_target_def swap_cond_def np max_def min_def split: if_splits)
qed

lemma pass_liquidity:
  assumes pass: "pass_ok mu pool q amount limit inp aToB s nx st s'" and cond': "swap_cond limit s'"
  shows "currTickIndex s' = (if aToB then nx - 1 else nx)"
    "currLiquidity s' = liquidity_at q pool (currTickIndex s')"
    "if aToB then currTickIndex s' \<le> wp_tickCurrentIndex pool else wp_tickCurrentIndex pool \<le> currTickIndex s'"
proof -
  have ok: "swap_ok mu pool q amount limit aToB" and inv: "swap_inv pool q amount limit inp aToB s"
    and p: "swap_pass mu pool limit inp aToB s nx st s'" and cond: "swap_cond limit s"
    using pass by (auto simp: pass_ok_def)
  note reach = pass_goes_on [OF pass cond']
  have np: "currSqrtPrice s' = step_nextPrice st" using p by (simp add: swap_pass_def)
  let ?n = "nx div seq_tickSpacing q" and ?cur0 = "wp_tickCurrentIndex pool"
  have a: "seq_wf q" "seq_aToB q = aToB" "0 < seq_tickSpacing q" using ok by (auto simp: swap_ok_def seq_wf_def)
  have same: "same_seq q (tickSequence s)" using inv by (simp add: swap_inv_def)
  note d = same_seq_defs [OF same] same_seq_fields [OF same] same_seq_search [OF same]
  have net: "net_at (tickSequence s) = net_at q" by (simp add: fun_eq_iff net_at_def d)
  show cur': "currTickIndex s' = (if aToB then nx - 1 else nx)"
    using p reach by (simp add: swap_pass_def)
  have cur: "if aToB then currTickIndex s \<le> ?cur0 else ?cur0 \<le> currTickIndex s"
    and L: "currLiquidity s = liquidity_at q pool (currTickIndex s)"
    using inv cond by (auto simp: swap_inv_def)
  show "if aToB then currTickIndex s' \<le> ?cur0 else ?cur0 \<le> currTickIndex s'"
    using cur cur' pass_next(2) [OF pass] by (auto split: if_splits)
  have tick_iff: "seq_init q ?n \<longleftrightarrow> nx \<in> seq_ticks q"
  proof
    assume "seq_init q ?n"
    moreover have "\<not> (\<not> aToB \<and> nx = MAX_TICK_INDEX)"
    proof
      assume "\<not> aToB \<and> nx = MAX_TICK_INDEX"
      then have "MAX_SQRT_PRICE \<le> limit" "\<not> aToB"
        using reach pass_price(1) [OF pass] by (auto simp: toward_def np price_at_ends)
      with ok cond' reach \<open>\<not> aToB \<and> nx = MAX_TICK_INDEX\<close> show False
        by (simp add: swap_ok_def swap_cond_def np price_at_ends)
    qed
    ultimately show "nx \<in> seq_ticks q" using pass_next(4) [OF pass] by blast
  qed (use a(3) in \<open>auto simp: seq_ticks_def\<close>)
  have crossed: "crossed q ?cur0 (currTickIndex s') =
      (if nx \<in> seq_ticks q then insert nx else id) (crossed q ?cur0 (currTickIndex s))"
  proof -
    have "(if aToB then currTickIndex s' < t \<and> t \<le> ?cur0 else ?cur0 < t \<and> t \<le> currTickIndex s') \<longleftrightarrow>
        t = nx \<or> (if aToB then currTickIndex s < t \<and> t \<le> ?cur0 else ?cur0 < t \<and> t \<le> currTickIndex s)"
      if "t \<in> seq_ticks q" for t
      using pass_next(2) [OF pass] pass_next(3) [OF pass that] cur unfolding cur'
      by (cases aToB) (simp_all, linarith+)
    then have "crossed q ?cur0 (currTickIndex s') = {t \<in> seq_ticks q. t = nx \<or>
        (if aToB then currTickIndex s < t \<and> t \<le> ?cur0 else ?cur0 < t \<and> t \<le> currTickIndex s)}"
      unfolding crossed_def a(2) by (intro Collect_cong conj_cong refl)
    also have "\<dots> = (if nx \<in> seq_ticks q then insert nx else id) (crossed q ?cur0 (currTickIndex s))"
      unfolding crossed_def a(2) by (simp, intro conjI impI set_eqI) auto
    finally show ?thesis .
  qed
  have "nx \<notin> crossed q ?cur0 (currTickIndex s)"
    using pass_next(2) [OF pass] by (auto simp: crossed_def a(2) split: if_splits)
  moreover have "finite (crossed q ?cur0 (currTickIndex s))"
    by (rule finite_subset [OF _ finite_ticks(1) [of q]]) (auto simp: crossed_def)
  ultimately have "(\<Sum>t \<in> crossed q ?cur0 (currTickIndex s'). net_at q t) =
      (\<Sum>t \<in> crossed q ?cur0 (currTickIndex s). net_at q t) + (if nx \<in> seq_ticks q then net_at q nx else 0)"
    unfolding crossed by simp
  moreover have "currLiquidity s' = currLiquidity s +
      (if nx \<in> seq_ticks q then (if aToB then - 1 else 1) * net_at q nx else 0)"
    using p reach tick_iff by (simp add: swap_pass_def d net)
  ultimately show "currLiquidity s' = liquidity_at q pool (currTickIndex s')"
    unfolding L by (simp add: liquidity_at_def a(2) algebra_simps)
qed

lemma pass_amounts:
  assumes pass: "pass_ok mu pool q amount limit inp aToB s nx st s'"
  shows "amounts_inv pool amount inp aToB s'"
proof -
  have ok: "swap_ok mu pool q amount limit aToB" and inv: "swap_inv pool q amount limit inp aToB s"
    and p: "swap_pass mu pool limit inp aToB s nx st s'" and cond: "swap_cond limit s"
    using pass by (auto simp: pass_ok_def)
  define p0 M fee where "p0 = wp_sqrtPrice pool" and "M = FEE_RATE_MUL_VALUE" and "fee = wp_feeRate pool"
  have mu: "math_util_ok mu" and fee: "0 \<le> fee" "2 * fee \<le> FEE_RATE_MUL_VALUE"
    using ok by (auto simp: swap_ok_def FEE_RATE_MUL_VALUE_def fee_def)
  note pre = pass_step_pre [OF pass] and st = p [unfolded swap_pass_def, THEN conjunct1]
  note facts = computeSwapStep_Inr [OF mu pre st] and nonneg = step_nonneg [OF mu pre st]
  note budget = step_budget [OF mu pre fee(2) [unfolded fee_def] st]
  have old: "amounts_inv pool amount inp aToB s" using inv by (simp add: swap_inv_def)
  have rem: "0 < amountRemaining s" using cond by (simp add: swap_cond_def)
  define i out f where "i = step_amountIn st" and "out = step_amountOut st" and "f = step_feeAmount st"
  have s': "amountRemaining s' = (if inp then amountRemaining s - i - f else amountRemaining s - out)"
    "amountCalculated s' = (if inp then amountCalculated s + out else amountCalculated s + i + f)"
    "totalFeeAmount s' = totalFeeAmount s + f"
    using p by (simp_all add: swap_pass_def same_amounts_def apply_step_def i_def out_def f_def)
  have pr: "paid inp amount s' = paid inp amount s + (i + f)"
    "received inp amount s' = received inp amount s + out"
    by (simp_all add: paid_def received_def s')
  have if_nonneg: "0 \<le> i + f"
  proof (cases "inp \<and> step_nextPrice st \<noteq> pass_target limit aToB nx")
    case True
    with facts(5) rem show ?thesis by (simp add: i_def f_def)
  next
    case False
    then have "f = fee_on fee i" using facts(5) by (auto simp: i_def f_def fee_def)
    moreover have "fee < FEE_RATE_MUL_VALUE" using fee by (simp add: FEE_RATE_MUL_VALUE_def)
    ultimately have "0 \<le> f" using nonneg(1) fee(1) by (simp add: fee_on_def rdiv_nonneg i_def)
    with nonneg(1) show ?thesis by (simp add: i_def)
  qed
  have fees: "(i + f) * fee \<le> f * M" if "aToB \<or> \<not> inp"
    using step_fee [OF mu pre that st] by (simp add: i_def f_def fee_def M_def algebra_simps)
  have val: "out * 2 ^ 128 \<le> i * (p0 * p0)" if "aToB"
  proof -
    have "currSqrtPrice s \<le> p0" using inv that by (simp add: swap_inv_def toward_def p0_def)
    from step_value [OF mu pre that st this] show ?thesis by (simp add: i_def out_def)
  qed
  show ?thesis
    unfolding amounts_inv_def
  proof (intro conjI impI)
    show "- 2 \<le> amountRemaining s'" "amountRemaining s' \<le> amount + 0" "0 \<le> amountCalculated s'"
      using budget nonneg if_nonneg old rem by (auto simp: s' i_def out_def f_def amounts_inv_def split: if_splits)
    show "0 \<le> amountRemaining s'" if "aToB \<or> \<not> inp"
      using budget that by (auto simp: s' i_def out_def f_def split: if_splits)
    show "paid inp amount s' * wp_feeRate pool \<le> totalFeeAmount s' * FEE_RATE_MUL_VALUE" if "aToB \<or> \<not> inp"
      using fees [OF that] old that
      by (simp add: amounts_inv_def pr s'(3) fee_def [symmetric] M_def [symmetric] distrib_right)
    show "received inp amount s' * 2 ^ 128
        \<le> (paid inp amount s' - totalFeeAmount s') * (wp_sqrtPrice pool * wp_sqrtPrice pool)" if "aToB"
      using val [OF that] old that
      by (simp add: amounts_inv_def pr s'(3) p0_def [symmetric] algebra_simps)
  qed
qed

lemma pass_inv:
  assumes "pass_ok mu pool q amount limit inp aToB s nx st s'"
  shows "swap_inv pool q amount limit inp aToB s'"
proof -
  have inv: "swap_inv pool q amount limit inp aToB s"
    and p: "swap_pass mu pool limit inp aToB s nx st s'" using assms by (auto simp: pass_ok_def)
  have "same_seq q (tickSequence s')" "touched_set q \<subseteq> touched_set (tickSequence s')"
    using inv p same_seq_trans unfolding swap_inv_def swap_pass_def by blast+
  with pass_price [OF assms] pass_amounts [OF assms] pass_liquidity [OF assms]
  show ?thesis unfolding swap_inv_def by blast
qed

lemma pass_measure:
  assumes pass: "pass_ok mu pool q amount limit inp aToB s nx st s'"
  shows "swap_measure limit aToB s' < swap_measure limit aToB s"
proof (cases "swap_cond limit s'")
  case True
  have ok: "swap_ok mu pool q amount limit aToB" "swap_inv pool q amount limit inp aToB s" "swap_cond limit s"
    using pass by (auto simp: pass_ok_def)
  from pass_liquidity(1) [OF pass True] pass_next(2) [OF pass] pass_cur [OF ok] True ok(3) show ?thesis
    by (auto simp: swap_measure_def split: if_splits)
next
  case False
  then show ?thesis using pass by (simp add: swap_measure_def pass_ok_def)
qed

text \<open>A loop that starts from a state of the invariant ends, or throws what a pass throws.\<close>

lemma swap_loop_total:
  assumes ok: "swap_ok mu pool q amount limit aToB"
    and err: "\<And>s e. swap_inv pool q amount limit inp aToB s \<Longrightarrow> swap_cond limit s \<Longrightarrow>
      swap_body mu pool limit inp aToB s = Inl e \<Longrightarrow> Q (Inl e)"
    and fin: "\<And>s. swap_inv pool q amount limit inp aToB s \<Longrightarrow> \<not> swap_cond limit s \<Longrightarrow> Q (Inr s)"
  shows "Q (while_res (swap_cond limit) (swap_body mu pool limit inp aToB) (swap_init pool q amount aToB))"
proof (rule while_res_total [where I = "swap_inv pool q amount limit inp aToB" and m = "swap_measure limit aToB"])
  show "swap_inv pool q amount limit inp aToB (swap_init pool q amount aToB)"
    using ok by (rule swap_init_inv)
  fix s s'
  assume "swap_inv pool q amount limit inp aToB s" "swap_cond limit s"
    "swap_body mu pool limit inp aToB s = Inr s'"
  then obtain nx st where "pass_ok mu pool q amount limit inp aToB s nx st s'"
    by (rule swap_body_pass [OF ok])
  then show "swap_inv pool q amount limit inp aToB s' \<and> swap_measure limit aToB s' < swap_measure limit aToB s"
    by (intro conjI) (rule pass_inv pass_measure, assumption)+
qed (use err fin in blast)+

lemma swap_body_ends:
  assumes ok: "swap_ok mu pool q amount limit aToB" and inv: "swap_inv pool q amount limit inp aToB s"
    and cond: "swap_cond limit s"
  shows "ends (swap_body mu pool limit inp aToB s)"
proof -
  let ?q = "tickSequence s" and ?cur = "currTickIndex s"
  have same: "same_seq q ?q" using inv by (simp add: swap_inv_def)
  note d = same_seq_defs [OF same] same_seq_fields [OF same] same_seq_search [OF same]
  have wf: "seq_wf q" and aToB: "seq_aToB q = aToB" and ts: "0 < seq_tickSpacing ?q" and mu: "math_util_ok mu"
    using ok d by (auto simp: swap_ok_def seq_wf_def)
  have wf': "seq_wf ?q" using wf d by simp
  have get: "ends (getTick q' i)" if "same_seq ?q q'" for q' i
  proof -
    note d' = same_seq_defs [OF that] same_seq_fields [OF that]
    have "seq_wf q'" "0 < seq_tickSpacing q'" using wf' ts d' by simp_all
    then show ?thesis
      using getTick_eq [of q' _ i, OF _ refl] getTick_out [of q' i]
      by (cases "seq_in q' (i div seq_tickSpacing q')") simp_all
  qed
  have tick: "ends (sqrtPriceX64ToTickIndex np)" for np
    by (simp add: sqrtPriceX64ToTickIndex_def Let_def)
  have fees: "ends (calculateFees f r l pf g)" for f r l pf g
    by (auto simp: calculateFees_def calculateProtocolFee_def intro!: ends_intros split: prod.splits)
  have move: "ends (move_tick aToB nx ntp np s2)" if "same_seq ?q (tickSequence s2)" for nx ntp np s2
    using that by (auto simp: move_tick_def intro!: ends_intros get tick split: prod.splits)
  show ?thesis
  proof (cases "seq_in ?q (search_start ?q ?cur)")
    case False
    then show ?thesis using find_next_out [OF ts] by (simp add: swap_body_def)
  next
    case True
    obtain q' nx nd where find: "findNextInitializedTickIndex ?q ?cur = Inr ((nx, nd), q')" "same_seq ?q q'"
      "case nearest ?q (ticks_ahead ?q ?cur) of
         Some t \<Rightarrow> nx = t \<and> nd = Some (seq_tick ?q (t div seq_tickSpacing ?q))
       | None \<Rightarrow> nx = last_index ?q \<and> nd = None"
      by (rule find_next_in [OF wf' True])
    have nx: "case nearest q (ticks_ahead q ?cur) of Some t \<Rightarrow> nx = t | None \<Rightarrow> nx = last_index q"
      using find(3) unfolding d by (auto split: option.splits)
    have "if seq_aToB q then MIN_TICK_INDEX \<le> ?cur \<and> ?cur \<le> MAX_TICK_INDEX
        else MIN_TICK_INDEX - 1 \<le> ?cur \<and> ?cur < MAX_TICK_INDEX"
      unfolding aToB by (rule pass_cur [OF ok inv cond])
    note nxt = next_tick_facts [OF wf True [unfolded d] this nx, unfolded aToB]
    have "price_at_tick (currSqrtPrice s) ?cur" using inv by (simp add: swap_inv_def)
    note ahead = next_price_ahead [OF this nxt(1,2)]
    have "step_pre (amountRemaining s) (wp_feeRate pool) (currLiquidity s) (currSqrtPrice s)
      (pass_target limit aToB nx) aToB"
      using ok inv cond ahead price_in_bounds(1) [OF nxt(1)]
      by (auto simp: step_pre_def swap_ok_def swap_inv_def swap_cond_def price_at_tick_def toward_def
          pass_target_def MIN_SQRT_PRICE_def FEE_RATE_MUL_VALUE_def)
    from computeSwapStep_ends [OF mu this]
    show ?thesis
      unfolding swap_body_def find(1) bindE_simps prod.case getNextSqrtPrices_def Let_def
      by (intro ends_intros)
        (auto simp: pass_target_def apply_step_simps find(2) intro!: ends_intros fees move split: prod.splits)
  qed
qed

subsection \<open>An example pool\<close>

text \<open>A pool at price 1 over the example arrays, with liquidity \<open>2 ^ 65\<close> between the ticks 0 and 64.\<close>

definition example_pool :: WhirlpoolData where
  "example_pool = \<lparr>wp_whirlpoolsConfig = ''config'', wp_whirlpoolBump = [255], wp_feeRate = 3000,
     wp_protocolFeeRate = 300, wp_liquidity = 2 ^ 65, wp_sqrtPrice = 2 ^ 64, wp_tickCurrentIndex = 0,
     wp_protocolFeeOwedA = 0, wp_protocolFeeOwedB = 0, wp_tokenMintA = ''mintA'', wp_tokenVaultA = ''vaultA'',
     wp_feeGrowthGlobalA = 0, wp_tokenMintB = ''mintB'', wp_tokenVaultB = ''vaultB'', wp_feeGrowthGlobalB = 0,
     wp_rewardLastUpdatedTimestamp = 0, wp_rewardInfos = [], wp_tickSpacing = 64\<rparr>"

definition example_sequence :: "bool \<Rightarrow> TickArraySequence" where
  "example_sequence aToB = \<lparr>seq_sequence = initialized_prefix (example_arrays aToB),
     seq_touchedArrays = [False, False], seq_startArrayIndex = (if aToB then 0 else - 1),
     seq_tickSpacing = 64, seq_aToB = aToB\<rparr>"

lemma example_sequence_new:
  "new_TickArraySequence (example_arrays aToB) 64 aToB = Inr (example_sequence aToB)"
  by (cases aToB) (simp_all add: new_TickArraySequence_def example_arrays_def new_TickArrayIndex_def Let_def example_sequence_def
      example_array_ticks TICK_ARRAY_SIZE_def fromTickIndex_def signed_modulo_int_def)

lemma example_sequence_wf: "seq_wf (example_sequence aToB)"
proof -
  have "seq_wf this" if "new_TickArraySequence (example_arrays aToB) 64 aToB = Inr this" for this
    using new_TickArraySequence_wf [OF example_arrays_ok [of aToB]] that by auto
  then show ?thesis using example_sequence_new by blast
qed


lemma example_sequence_init: "seq_init (example_sequence True) n \<longleftrightarrow> n \<in> {- 2, 0, 1}"
proof (cases "seq_in (example_sequence True) n")
  case False
  then show ?thesis by (auto simp: seq_init_def seq_in_def seq_local_def getLocalArrayIndex_def example_sequence_def example_arrays_prefix TICK_ARRAY_SIZE_def)
next
  case True
  then have "n div 88 = 0 \<or> n div 88 = - 1"
    by (auto simp: seq_in_def seq_local_def getLocalArrayIndex_def example_sequence_def example_arrays_prefix TICK_ARRAY_SIZE_def)
  moreover have "n = 88 * (n div 88) + n mod 88" "0 \<le> n mod 88" "n mod 88 < 88" by simp_all
  ultimately show ?thesis
    using True by (auto simp: seq_init_def seq_tick_def seq_local_def getLocalArrayIndex_def example_sequence_def example_arrays_prefix TICK_ARRAY_SIZE_def
      example_array_ticks nat_eq_iff split: if_splits) presburger+
qed

lemma price_of_zero: "tickIndexToSqrtPriceX64 0 = 2 ^ 64"
  by code_simp

lemma example_swap_ok: "swap_ok math_util_ref example_pool (example_sequence True) 1000000 MIN_SQRT_PRICE True"
proof -
  let ?q = "example_sequence True"
  have f: "seq_aToB ?q" "seq_tickSpacing ?q = 64" by (simp_all add: example_sequence_def)
  have "{n. seq_init ?q n} = {- 2, 0, 1}" by (auto simp: example_sequence_init)
  then have ticks: "seq_ticks ?q = {- 128, 0, 64}" by (simp add: seq_ticks_def f)
  have net: "net_at ?q (- 128) = 2 ^ 64" "net_at ?q 0 = 2 ^ 64" "net_at ?q 64 = - (2 ^ 65)"
    by (simp_all add: net_at_def seq_tick_def seq_local_def getLocalArrayIndex_def example_sequence_def
        example_arrays_def Let_def example_array_def TICK_ARRAY_SIZE_def nat_eq_iff)
  have "0 \<le> liquidity_at ?q example_pool cur" for cur
  proof -
    have "crossed ?q 0 cur \<subseteq> {- 128, 0}" by (auto simp: crossed_def f ticks)
    then have "(\<Sum>t \<in> crossed ?q 0 cur. net_at ?q t) \<le> (\<Sum>t \<in> {- 128, 0}. net_at ?q t)"
      by (intro sum_mono2) (auto simp: net)
    then show ?thesis by (simp add: liquidity_at_def f example_pool_def net)
  qed
  moreover have "price_at_tick (2 ^ 64) 0"
    using tick_price.price_less_iff [of 0 1] price_of_zero
    by (simp add: price_at_tick_def MIN_TICK_INDEX_def MAX_TICK_INDEX_def MIN_SQRT_PRICE_def MAX_SQRT_PRICE_def)
  ultimately show ?thesis
    by (simp add: swap_ok_def math_util_ref_ok example_sequence_wf f example_pool_def MIN_SQRT_PRICE_def MAX_SQRT_PRICE_def)
qed


subsection \<open>The result of a swap\<close>

text \<open>What holds of every state in which the loop stops holds of the result.\<close>

lemma computeSwap_rule:
  assumes ok: "swap_ok mu pool q amount limit aToB"
    and fin: "\<And>s. swap_inv pool q amount limit inp aToB s \<Longrightarrow> \<not> swap_cond limit s \<Longrightarrow>
      Q (\<lparr>sr_amountA = (if aToB then paid inp amount s else received inp amount s),
          sr_amountB = (if aToB then received inp amount s else paid inp amount s),
          sr_nextTickIndex = currTickIndex s, sr_nextSqrtPrice = currSqrtPrice s,
          sr_totalFeeAmount = totalFeeAmount s\<rparr>) (tickSequence s)"
  shows "case computeSwap mu pool q amount limit inp aToB of
      Inl e \<Rightarrow> e \<noteq> NonTermination | Inr (r, q') \<Rightarrow> Q r q'"
proof -
  let ?P = "\<lambda>w. case bindE w (\<lambda>s.
      let (amountA, amountB) = calculateEstTokens amount (amountRemaining s) (amountCalculated s) aToB inp in
      Inr (\<lparr>sr_amountA = amountA, sr_amountB = amountB, sr_nextTickIndex = currTickIndex s,
        sr_nextSqrtPrice = currSqrtPrice s, sr_totalFeeAmount = totalFeeAmount s\<rparr>, tickSequence s)) of
      Inl e \<Rightarrow> e \<noteq> NonTermination | Inr (r, q') \<Rightarrow> Q r q'"
  have "?P (while_res (swap_cond limit) (swap_body mu pool limit inp aToB) (swap_init pool q amount aToB))"
  proof (rule swap_loop_total [OF ok, where inp = inp])
    fix s e
    assume "swap_inv pool q amount limit inp aToB s" "swap_cond limit s" "swap_body mu pool limit inp aToB s = Inl e"
    then have "ends (Inl e :: swap_state res)" using swap_body_ends [OF ok] by metis
    then show "?P (Inl e)" by simp
  next
    fix s
    assume "swap_inv pool q amount limit inp aToB s" "\<not> swap_cond limit s"
    from fin [OF this] show "?P (Inr s)"
      by (cases aToB; cases inp) (simp_all add: calculateEstTokens_def paid_def received_def)
  qed
  then show ?thesis by (simp add: computeSwap_def)
qed

text \<open>
  C1: the swap loop ends: on a pool with its tick arrays, \<open>computeSwap\<close> returns a result or
  throws, however many ticks the trade crosses.
\<close>

theorem computeSwap_terminates:
  assumes "swap_ok mu pool q amount limit aToB"
  shows "ends (computeSwap mu pool q amount limit inp aToB)"
proof -
  have "case computeSwap mu pool q amount limit inp aToB of Inl e \<Rightarrow> e \<noteq> NonTermination | Inr (r, q') \<Rightarrow> True"
    using computeSwap_rule [OF assms, where Q = "\<lambda>_ _. True"] by simp
  then show ?thesis by (auto simp: ends_def split: sum.splits)
qed

theorem computeSwap_terminates_witness:
  "ends (computeSwap math_util_ref example_pool (example_sequence True) 1000000 MIN_SQRT_PRICE True True)"
  by (rule computeSwap_terminates [OF example_swap_ok])

text \<open>
  C5: a swap that returns ends where it should: the price lies between the pool's price and
  the limit, the tick index is one the price belongs to, and the loop stopped for a reason:
  the price is at the limit, or the specified amount is used up.
\<close>

theorem computeSwap_stops_at_limit:
  assumes "swap_ok mu pool q amount limit aToB"
  shows "case computeSwap mu pool q amount limit inp aToB of Inl e \<Rightarrow> e \<noteq> NonTermination
    | Inr (r, q') \<Rightarrow> toward aToB (wp_sqrtPrice pool) (sr_nextSqrtPrice r) limit
        \<and> price_at_tick (sr_nextSqrtPrice r) (sr_nextTickIndex r)
        \<and> (sr_nextSqrtPrice r = limit \<or> amount \<le> (if inp = aToB then sr_amountA r else sr_amountB r))
        \<and> same_seq q q' \<and> touched_set q \<subseteq> touched_set q'"
  by (rule computeSwap_rule [OF assms])
    (auto simp: swap_inv_def swap_cond_def paid_def received_def)

theorem computeSwap_stops_at_limit_witness:
  "case computeSwap math_util_ref example_pool (example_sequence True) 1000000 MIN_SQRT_PRICE True True of
     Inl e \<Rightarrow> e \<noteq> NonTermination
   | Inr (r, q') \<Rightarrow> MIN_SQRT_PRICE \<le> sr_nextSqrtPrice r \<and> sr_nextSqrtPrice r \<le> 2 ^ 64
       \<and> (sr_nextSqrtPrice r = MIN_SQRT_PRICE \<or> 1000000 \<le> sr_amountA r)"
  using computeSwap_stops_at_limit [OF example_swap_ok, of True]
  by (auto simp: toward_def example_pool_def split: sum.splits)



end
