(* ===== verification/Swap_Quote.thy ===== *)
theory Swap_Quote
  imports Swap_Utils Swap_Loop
begin

text \<open>
  Swap quotes (\<^verbatim>\<open>sdk/src/quotes/swap/swap-quote-impl.ts\<close>, \<^verbatim>\<open>quotes/public/swap-quote.ts\<close>,
  \<^verbatim>\<open>dev-fee-swap-quote.ts\<close>, \<^verbatim>\<open>two-hop-swap-quote.ts\<close>): the guards of a quote, the transfer fees
  around the swap loop, the thresholds, slippage, a developer's fee, and the combination of
  two quotes. The theorems: a quote asks for no more and promises no more than was specified,
  and what it returns passes the checks of the caller.
\<close>

record SwapQuoteParam =
  sqp_whirlpoolData :: WhirlpoolData
  sqp_tokenAmount :: int
  sqp_otherAmountThreshold :: int
  sqp_sqrtPriceLimit :: int
  sqp_aToB :: bool
  sqp_amountSpecifiedIsInput :: bool
  sqp_tickArrays :: "TickArray list"
  sqp_tokenExtensionCtx :: TokenExtensionContextForPool

text \<open>\<^verbatim>\<open>NormalSwapQuote\<close> is a swap input with estimates.\<close>

record NormalSwapQuote = SwapInput +
  se_estimatedAmountIn :: int
  se_estimatedAmountOut :: int
  se_estimatedEndTickIndex :: int
  se_estimatedEndSqrtPrice :: int
  se_estimatedFeeAmount :: int
  se_deductingFromEstimatedAmountIn :: int
  se_deductedFromEstimatedAmountOut :: int

record DevFeeSwapQuote = NormalSwapQuote +
  dfq_estimatedSwapFeeAmount :: int
  dfq_devFeeAmount :: int

record NormalTwoHopSwapQuote =
  thq_amount :: int
  thq_otherAmountThreshold :: int
  thq_amountSpecifiedIsInput :: bool
  thq_aToBOne :: bool
  thq_aToBTwo :: bool
  thq_sqrtPriceLimitOne :: int
  thq_sqrtPriceLimitTwo :: int
  thq_tickArrayOne0 :: "pubkey option"
  thq_tickArrayOne1 :: "pubkey option"
  thq_tickArrayOne2 :: "pubkey option"
  thq_tickArrayTwo0 :: "pubkey option"
  thq_tickArrayTwo1 :: "pubkey option"
  thq_tickArrayTwo2 :: "pubkey option"
  thq_swapOneEstimates :: NormalSwapQuote
  thq_swapTwoEstimates :: NormalSwapQuote

text \<open>Reading an array past its end gives \<^verbatim>\<open>undefined\<close>.\<close>

definition array_get :: "'a list \<Rightarrow> nat \<Rightarrow> 'a option" where
  "array_get xs i = (if i < length xs then Some (xs ! i) else None)"

subsection \<open>Simulating a swap\<close>

text \<open>The two branches end with the same checks and the same object.\<close>

definition quote_result ::
    "SwapQuoteParam \<Rightarrow> TransferFeeIncludedAmount \<Rightarrow> TransferFeeExcludedAmount \<Rightarrow> SwapResult \<Rightarrow>
     TickArraySequence \<Rightarrow> NormalSwapQuote res" where
  "quote_result params transferFeeIncludedIn transferFeeExcludedOut swapResults tickSeq =
     (let numOfTickCrossings = getNumOfTouchedArrays tickSeq in
      if numOfTickCrossings > MAX_SWAP_TICK_ARRAYS then Inl (swap_error TickArrayCrossingAboveMax)
      else
        let touchedArrays = getTouchedArrays tickSeq MAX_SWAP_TICK_ARRAYS in
        Inr \<lparr>si_amount = sqp_tokenAmount params,
             si_otherAmountThreshold = sqp_otherAmountThreshold params,
             si_sqrtPriceLimit = sqp_sqrtPriceLimit params,
             si_amountSpecifiedIsInput = sqp_amountSpecifiedIsInput params,
             si_aToB = sqp_aToB params,
             si_tickArray0 = array_get touchedArrays 0,
             si_tickArray1 = array_get touchedArrays 1,
             si_tickArray2 = array_get touchedArrays 2,
             se_estimatedAmountIn = tfi_amount transferFeeIncludedIn,
             se_estimatedAmountOut = tfe_amount transferFeeExcludedOut,
             se_estimatedEndTickIndex = sr_nextTickIndex swapResults,
             se_estimatedEndSqrtPrice = sr_nextSqrtPrice swapResults,
             se_estimatedFeeAmount = sr_totalFeeAmount swapResults,
             se_deductingFromEstimatedAmountIn = tfi_fee transferFeeIncludedIn,
             se_deductedFromEstimatedAmountOut = tfe_fee transferFeeExcludedOut\<rparr>)"

definition simulate_exact_in ::
    "math_util \<Rightarrow> 'c spl_token \<Rightarrow> SwapQuoteParam \<Rightarrow> TickArraySequence \<Rightarrow> NormalSwapQuote res" where
  "simulate_exact_in mu spl params tickSeq =
     (let aToB = sqp_aToB params;
          ctx = sqp_tokenExtensionCtx params;
          mintIn = (if aToB then tec_tokenMintWithProgramA ctx else tec_tokenMintWithProgramB ctx);
          mintOut = (if aToB then tec_tokenMintWithProgramB ctx else tec_tokenMintWithProgramA ctx);
          transferFeeExcludedIn = calculateTransferFeeExcludedAmount spl (sqp_tokenAmount params) mintIn
            (tec_currentEpoch ctx) in
      if tfe_amount transferFeeExcludedIn = 0 then Inl (swap_error ZeroTradableAmount)
      else
        bindE (computeSwap mu (sqp_whirlpoolData params) tickSeq (tfe_amount transferFeeExcludedIn)
                 (sqp_sqrtPriceLimit params) True aToB) (\<lambda>(swapResults, tickSeq).
        let transferFeeExcludedOut = calculateTransferFeeExcludedAmount spl
              (if aToB then sr_amountB swapResults else sr_amountA swapResults) mintOut (tec_currentEpoch ctx) in
        if tfe_amount transferFeeExcludedOut < sqp_otherAmountThreshold params
        then Inl (swap_error AmountOutBelowMinimum)
        else
          let swapIn = (if aToB then sr_amountA swapResults else sr_amountB swapResults);
              fullfilled = (swapIn = tfe_amount transferFeeExcludedIn) in
          bindE (if fullfilled
                 then Inr \<lparr>tfi_amount = sqp_tokenAmount params, tfi_fee = tfe_fee transferFeeExcludedIn\<rparr>
                 else calculateTransferFeeIncludedAmount spl swapIn mintIn (tec_currentEpoch ctx))
            (\<lambda>transferFeeIncludedIn.
          quote_result params transferFeeIncludedIn transferFeeExcludedOut swapResults tickSeq)))"

definition simulate_exact_out ::
    "math_util \<Rightarrow> 'c spl_token \<Rightarrow> SwapQuoteParam \<Rightarrow> TickArraySequence \<Rightarrow> NormalSwapQuote res" where
  "simulate_exact_out mu spl params tickSeq =
     (let aToB = sqp_aToB params;
          ctx = sqp_tokenExtensionCtx params;
          mintIn = (if aToB then tec_tokenMintWithProgramA ctx else tec_tokenMintWithProgramB ctx);
          mintOut = (if aToB then tec_tokenMintWithProgramB ctx else tec_tokenMintWithProgramA ctx) in
      bindE (calculateTransferFeeIncludedAmount spl (sqp_tokenAmount params) mintOut (tec_currentEpoch ctx))
        (\<lambda>transferFeeIncludedOut.
      bindE (computeSwap mu (sqp_whirlpoolData params) tickSeq (tfi_amount transferFeeIncludedOut)
               (sqp_sqrtPriceLimit params) False aToB) (\<lambda>(swapResults, tickSeq).
      bindE (calculateTransferFeeIncludedAmount spl
               (if aToB then sr_amountA swapResults else sr_amountB swapResults) mintIn (tec_currentEpoch ctx))
        (\<lambda>transferFeeIncludedIn.
      if tfi_amount transferFeeIncludedIn > sqp_otherAmountThreshold params
      then Inl (swap_error AmountInAboveMaximum)
      else
        let transferFeeExcludedOut = calculateTransferFeeExcludedAmount spl
              (if aToB then sr_amountB swapResults else sr_amountA swapResults) mintOut (tec_currentEpoch ctx) in
        quote_result params transferFeeIncludedIn transferFeeExcludedOut swapResults tickSeq))))"

definition simulateSwap :: "math_util \<Rightarrow> 'c spl_token \<Rightarrow> SwapQuoteParam \<Rightarrow> NormalSwapQuote res" where
  "simulateSwap mu spl params =
     (let aToB = sqp_aToB params;
          whirlpoolData = sqp_whirlpoolData params;
          sqrtPriceLimit = sqp_sqrtPriceLimit params in
      if sqrtPriceLimit > MAX_SQRT_PRICE \<or> sqrtPriceLimit < MIN_SQRT_PRICE
      then Inl (swap_error SqrtPriceOutOfBounds)
      else if (aToB \<and> sqrtPriceLimit > wp_sqrtPrice whirlpoolData) \<or>
        (\<not> aToB \<and> sqrtPriceLimit < wp_sqrtPrice whirlpoolData)
      then Inl (swap_error InvalidSqrtPriceLimitDirection)
      else if sqp_tokenAmount params = 0 then Inl (swap_error ZeroTradableAmount)
      else
        bindE (new_TickArraySequence (sqp_tickArrays params) (wp_tickSpacing whirlpoolData) aToB)
          (\<lambda>tickSeq.
        if \<not> isValidTickArray0 tickSeq (wp_tickCurrentIndex whirlpoolData)
        then Inl (swap_error TickArraySequenceInvalid)
        else if sqp_amountSpecifiedIsInput params then simulate_exact_in mu spl params tickSeq
        else simulate_exact_out mu spl params tickSeq))"

subsection \<open>Quotes of a pool\<close>

definition swapQuoteWithParams ::
    "math_util \<Rightarrow> 'c spl_token \<Rightarrow> SwapQuoteParam \<Rightarrow> percentage \<Rightarrow> NormalSwapQuote res" where
  "swapQuoteWithParams mu spl params slippageTolerance =
     bindE (simulateSwap mu spl params) (\<lambda>quote.
     bindE (calculateSwapAmountsFromQuote (si_amount quote) (se_estimatedAmountIn quote)
              (se_estimatedAmountOut quote) slippageTolerance (si_amountSpecifiedIsInput quote))
       (\<lambda>(amount, otherAmountThreshold).
     Inr (quote\<lparr>si_amount := amount, si_otherAmountThreshold := otherAmountThreshold\<rparr>)))"

text \<open>The fetcher of a quote: mints, the epoch, tick arrays.\<close>

record quote_fetcher =
  qf_getMintInfos :: "pubkey list \<Rightarrow> pubkey \<Rightarrow> mint_info"
  qf_epoch :: int
  qf_getTickArrays :: "pubkey list \<Rightarrow> TickArrayData option list"

definition swapQuoteByToken ::
    "find_program_address \<Rightarrow> quote_fetcher \<Rightarrow> pubkey \<times> WhirlpoolData \<Rightarrow> pubkey \<Rightarrow> int \<Rightarrow> bool \<Rightarrow> pubkey \<Rightarrow>
     SwapQuoteParam res" where
  "swapQuoteByToken fpa fetcher whirlpool inputTokenMint tokenAmount amountSpecifiedIsInput programId =
     (let (address, whirlpoolData) = whirlpool in
      if getTokenType whirlpoolData inputTokenMint = None then Inl InvariantError
      else
        let aToB = (getSwapDirection whirlpoolData inputTokenMint amountSpecifiedIsInput = Some AtoB);
            tickArrays = getTickArrays fpa (qf_getTickArrays fetcher) (wp_tickCurrentIndex whirlpoolData)
              (wp_tickSpacing whirlpoolData) aToB programId address in
        bindE (buildTokenExtensionContext (qf_getMintInfos fetcher) (qf_epoch fetcher) whirlpoolData)
          (\<lambda>tokenExtensionCtx.
        Inr \<lparr>sqp_whirlpoolData = whirlpoolData, sqp_tokenAmount = tokenAmount,
             sqp_otherAmountThreshold = getDefaultOtherAmountThreshold amountSpecifiedIsInput,
             sqp_sqrtPriceLimit = getDefaultSqrtPriceLimit aToB, sqp_aToB = aToB,
             sqp_amountSpecifiedIsInput = amountSpecifiedIsInput, sqp_tickArrays = tickArrays,
             sqp_tokenExtensionCtx = TokenExtensionContextForPool.truncate tokenExtensionCtx\<rparr>))"

definition swapQuoteByInputToken ::
    "math_util \<Rightarrow> 'c spl_token \<Rightarrow> find_program_address \<Rightarrow> quote_fetcher \<Rightarrow> pubkey \<times> WhirlpoolData \<Rightarrow> pubkey \<Rightarrow>
     int \<Rightarrow> percentage \<Rightarrow> pubkey \<Rightarrow> NormalSwapQuote res" where
  "swapQuoteByInputToken mu spl fpa fetcher whirlpool inputTokenMint tokenAmount slippageTolerance programId =
     bindE (swapQuoteByToken fpa fetcher whirlpool inputTokenMint tokenAmount True programId) (\<lambda>params.
     swapQuoteWithParams mu spl params slippageTolerance)"

definition swapQuoteByOutputToken ::
    "math_util \<Rightarrow> 'c spl_token \<Rightarrow> find_program_address \<Rightarrow> quote_fetcher \<Rightarrow> pubkey \<times> WhirlpoolData \<Rightarrow> pubkey \<Rightarrow>
     int \<Rightarrow> percentage \<Rightarrow> pubkey \<Rightarrow> NormalSwapQuote res" where
  "swapQuoteByOutputToken mu spl fpa fetcher whirlpool outputTokenMint tokenAmount slippageTolerance programId =
     bindE (swapQuoteByToken fpa fetcher whirlpool outputTokenMint tokenAmount False programId) (\<lambda>params.
     swapQuoteWithParams mu spl params slippageTolerance)"

text \<open>
  \<open>one_or_more\<close> is \<^verbatim>\<open>percentage.toDecimal().greaterThanOrEqualTo(1)\<close>, a call of the package that
  defines percentages.
\<close>

definition swapQuoteByInputTokenWithDevFees ::
    "math_util \<Rightarrow> 'c spl_token \<Rightarrow> find_program_address \<Rightarrow> (percentage \<Rightarrow> bool) \<Rightarrow> quote_fetcher \<Rightarrow>
     pubkey \<times> WhirlpoolData \<Rightarrow> pubkey \<Rightarrow> int \<Rightarrow> percentage \<Rightarrow> pubkey \<Rightarrow> percentage \<Rightarrow> DevFeeSwapQuote res" where
  "swapQuoteByInputTokenWithDevFees mu spl fpa one_or_more fetcher whirlpool inputTokenMint tokenAmount
     slippageTolerance programId devFeePercentage =
     (if one_or_more devFeePercentage then Inl (swap_error InvalidDevFeePercentage)
      else
        bindE (bn_div (tokenAmount * numerator devFeePercentage) (denominator devFeePercentage)) (\<lambda>devFeeAmount.
        bindE (swapQuoteByInputToken mu spl fpa fetcher whirlpool inputTokenMint (tokenAmount - devFeeAmount)
                 slippageTolerance programId) (\<lambda>slippageAdjustedQuote.
        Inr (NormalSwapQuote.extend
          (slippageAdjustedQuote\<lparr>si_amountSpecifiedIsInput := True,
             se_estimatedAmountIn := se_estimatedAmountIn slippageAdjustedQuote + devFeeAmount,
             se_estimatedFeeAmount := se_estimatedFeeAmount slippageAdjustedQuote + devFeeAmount\<rparr>)
          (DevFeeSwapQuote.fields (se_estimatedFeeAmount slippageAdjustedQuote) devFeeAmount)))))"

definition twoHopSwapQuoteFromSwapQuotes ::
    "NormalSwapQuote \<Rightarrow> NormalSwapQuote \<Rightarrow> NormalTwoHopSwapQuote" where
  "twoHopSwapQuoteFromSwapQuotes swapQuoteOne swapQuoteTwo =
     (let amountSpecifiedIsInput = si_amountSpecifiedIsInput swapQuoteOne;
          (amount, otherAmountThreshold) =
            (if amountSpecifiedIsInput then (si_amount swapQuoteOne, si_otherAmountThreshold swapQuoteTwo)
             else (si_amount swapQuoteTwo, si_otherAmountThreshold swapQuoteOne)) in
      \<lparr>thq_amount = amount, thq_otherAmountThreshold = otherAmountThreshold,
       thq_amountSpecifiedIsInput = amountSpecifiedIsInput,
       thq_aToBOne = si_aToB swapQuoteOne, thq_aToBTwo = si_aToB swapQuoteTwo,
       thq_sqrtPriceLimitOne = si_sqrtPriceLimit swapQuoteOne,
       thq_sqrtPriceLimitTwo = si_sqrtPriceLimit swapQuoteTwo,
       thq_tickArrayOne0 = si_tickArray0 swapQuoteOne, thq_tickArrayOne1 = si_tickArray1 swapQuoteOne,
       thq_tickArrayOne2 = si_tickArray2 swapQuoteOne,
       thq_tickArrayTwo0 = si_tickArray0 swapQuoteTwo, thq_tickArrayTwo1 = si_tickArray1 swapQuoteTwo,
       thq_tickArrayTwo2 = si_tickArray2 swapQuoteTwo,
       thq_swapOneEstimates = swapQuoteOne, thq_swapTwoEstimates = swapQuoteTwo\<rparr>)"


subsection \<open>What a quote promises\<close>

definition quote_ok :: "math_util \<Rightarrow> 'c spl_token \<Rightarrow> SwapQuoteParam \<Rightarrow> bool" where
  "quote_ok mu spl params \<longleftrightarrow>
     (let pool = sqp_whirlpoolData params in
      math_util_ok mu \<and> spl_token_ok spl \<and> 0 \<le> sqp_tokenAmount params \<and>
      tick_arrays_ok (sqp_tickArrays params) (wp_tickSpacing pool) (sqp_aToB params) \<and>
      0 \<le> wp_feeRate pool \<and> wp_feeRate pool < 2 ^ 16 \<and>
      price_at_tick (wp_sqrtPrice pool) (wp_tickCurrentIndex pool) \<and>
      (\<forall>q cur. new_TickArraySequence (sqp_tickArrays params) (wp_tickSpacing pool) (sqp_aToB params) = Inr q \<longrightarrow>
         0 \<le> liquidity_at q pool cur))"

definition quote_promise :: "SwapQuoteParam \<Rightarrow> NormalSwapQuote \<Rightarrow> bool" where
  "quote_promise params quote \<longleftrightarrow>
     0 \<le> se_estimatedAmountIn quote \<and> 0 \<le> se_estimatedAmountOut quote \<and>
     (if sqp_amountSpecifiedIsInput params
      then (sqp_aToB params \<longrightarrow> se_estimatedAmountIn quote \<le> sqp_tokenAmount params) \<and>
        sqp_otherAmountThreshold params \<le> se_estimatedAmountOut quote
      else se_estimatedAmountOut quote \<le> sqp_tokenAmount params \<and>
        se_estimatedAmountIn quote \<le> sqp_otherAmountThreshold params) \<and>
     toward (sqp_aToB params) (wp_sqrtPrice (sqp_whirlpoolData params)) (se_estimatedEndSqrtPrice quote)
       (sqp_sqrtPriceLimit params) \<and>
     price_at_tick (se_estimatedEndSqrtPrice quote) (se_estimatedEndTickIndex quote)"

text \<open>The facts on a swap's result that a quote uses.\<close>

lemma swap_result:
  assumes "swap_ok mu pool q amount limit aToB"
  shows "case computeSwap mu pool q amount limit inp aToB of Inl e \<Rightarrow> e \<noteq> NonTermination
    | Inr (r, q') \<Rightarrow>
        let input = (if aToB then sr_amountA r else sr_amountB r);
            output = (if aToB then sr_amountB r else sr_amountA r) in
        0 \<le> input \<and> 0 \<le> output \<and> (aToB \<or> \<not> inp \<longrightarrow> (if inp then input else output) \<le> amount) \<and>
        toward aToB (wp_sqrtPrice pool) (sr_nextSqrtPrice r) limit \<and>
        price_at_tick (sr_nextSqrtPrice r) (sr_nextTickIndex r)"
  by (rule computeSwap_rule [OF assms])
    (auto simp: swap_inv_def amounts_inv_def paid_def received_def split: if_splits)

lemma quote_result_eq:
  "quote_result params i out r q = Inl e \<Longrightarrow> e \<noteq> NonTermination"
  "quote_result params i out r q = Inr quote \<Longrightarrow>
    se_estimatedAmountIn quote = tfi_amount i \<and> se_estimatedAmountOut quote = tfe_amount out \<and>
    se_estimatedEndSqrtPrice quote = sr_nextSqrtPrice r \<and> se_estimatedEndTickIndex quote = sr_nextTickIndex r \<and>
    si_amount quote = sqp_tokenAmount params \<and> si_amountSpecifiedIsInput quote = sqp_amountSpecifiedIsInput params"
  by (auto simp: quote_result_def Let_def split: if_splits)

lemma exact_in_promise:
  assumes spl: "spl_token_ok spl" and amount: "0 \<le> sqp_tokenAmount params" and inp: "sqp_amountSpecifiedIsInput params"
    and ok: "\<And>amount. 0 \<le> amount \<Longrightarrow> swap_ok mu (sqp_whirlpoolData params) q amount (sqp_sqrtPriceLimit params) (sqp_aToB params)"
  shows "case simulate_exact_in mu spl params q of Inl e \<Rightarrow> e \<noteq> NonTermination
    | Inr quote \<Rightarrow> quote_promise params quote \<and> si_amount quote = sqp_tokenAmount params \<and> si_amountSpecifiedIsInput quote"
proof -
  define ctx where "ctx = sqp_tokenExtensionCtx params"
  define aToB where "aToB = sqp_aToB params"
  define mintIn where "mintIn = (if aToB then tec_tokenMintWithProgramA ctx else tec_tokenMintWithProgramB ctx)"
  define mintOut where "mintOut = (if aToB then tec_tokenMintWithProgramB ctx else tec_tokenMintWithProgramA ctx)"
  define net where "net = calculateTransferFeeExcludedAmount spl (sqp_tokenAmount params) mintIn (tec_currentEpoch ctx)"
  define w where "w = computeSwap mu (sqp_whirlpoolData params) q (tfe_amount net) (sqp_sqrtPriceLimit params) True aToB"
  have net0: "0 \<le> tfe_amount net" unfolding net_def by (rule excluded_facts(1) [OF spl amount])
  note res = swap_result [OF ok [OF net0], of True, folded aToB_def, folded w_def]
  have unfold: "simulate_exact_in mu spl params q =
      (if tfe_amount net = 0 then Inl (swap_error ZeroTradableAmount)
       else bindE w (\<lambda>(swapResults, tickSeq).
        let transferFeeExcludedOut = calculateTransferFeeExcludedAmount spl
              (if aToB then sr_amountB swapResults else sr_amountA swapResults) mintOut (tec_currentEpoch ctx) in
        if tfe_amount transferFeeExcludedOut < sqp_otherAmountThreshold params
        then Inl (swap_error AmountOutBelowMinimum)
        else
          let swapIn = (if aToB then sr_amountA swapResults else sr_amountB swapResults) in
          bindE (if swapIn = tfe_amount net
                 then Inr \<lparr>tfi_amount = sqp_tokenAmount params, tfi_fee = tfe_fee net\<rparr>
                 else calculateTransferFeeIncludedAmount spl swapIn mintIn (tec_currentEpoch ctx))
            (\<lambda>transferFeeIncludedIn.
          quote_result params transferFeeIncludedIn transferFeeExcludedOut swapResults tickSeq)))"
    unfolding simulate_exact_in_def Let_def w_def net_def mintIn_def mintOut_def ctx_def aToB_def ..
  show ?thesis
  proof (cases "simulate_exact_in mu spl params q")
    case (Inl e)
    have "e \<noteq> NonTermination"
      using Inl res included_error [OF spl] unfolding unfold
      by (auto simp: Let_def bindE_eq_Inl split: if_splits sum.splits dest: quote_result_eq(1))
    with Inl show ?thesis by simp
  next
    case (Inr quote)
    then obtain r q' where w: "w = Inr (r, q')" unfolding unfold by (cases w) (auto split: if_splits)
    define gin gout where "gin = (if aToB then sr_amountA r else sr_amountB r)"
      and "gout = (if aToB then sr_amountB r else sr_amountA r)"
    define out where "out = calculateTransferFeeExcludedAmount spl gout mintOut (tec_currentEpoch ctx)"
    have r: "0 \<le> gin" "0 \<le> gout" "aToB \<Longrightarrow> gin \<le> tfe_amount net"
      "toward aToB (wp_sqrtPrice (sqp_whirlpoolData params)) (sr_nextSqrtPrice r) (sqp_sqrtPriceLimit params)"
      "price_at_tick (sr_nextSqrtPrice r) (sr_nextTickIndex r)"
      using res unfolding w gin_def gout_def by (auto simp: Let_def)
    from Inr obtain i where th: "sqp_otherAmountThreshold params \<le> tfe_amount out"
      and i: "(if gin = tfe_amount net then Inr \<lparr>tfi_amount = sqp_tokenAmount params, tfi_fee = tfe_fee net\<rparr>
        else calculateTransferFeeIncludedAmount spl gin mintIn (tec_currentEpoch ctx)) = Inr i"
      and quote: "quote_result params i out r q' = Inr quote"
      unfolding unfold w by (auto simp: Let_def bindE_eq_Inr out_def gin_def [symmetric] gout_def [symmetric] split: if_splits)
    have "0 \<le> tfi_amount i" "aToB \<Longrightarrow> tfi_amount i \<le> sqp_tokenAmount params"
    proof -
      have "0 \<le> tfi_amount i \<and> (aToB \<longrightarrow> tfi_amount i \<le> sqp_tokenAmount params)"
      proof (cases "gin = tfe_amount net")
        case True
        with i amount show ?thesis by auto
      next
        case False
        with i have i': "calculateTransferFeeIncludedAmount spl gin mintIn (tec_currentEpoch ctx) = Inr i" by simp
        have "0 \<le> tfi_amount i"
          using included_facts [OF spl r(1), of mintIn "tec_currentEpoch ctx"] r(1) i' by auto
        moreover have "tfi_amount i \<le> sqp_tokenAmount params" if aToB
          using included_le [OF spl r(1) amount r(3) [OF that, unfolded net_def] i'] by simp
        ultimately show ?thesis by simp
      qed
      then show "0 \<le> tfi_amount i" "aToB \<Longrightarrow> tfi_amount i \<le> sqp_tokenAmount params" by auto
    qed
    moreover have "0 \<le> tfe_amount out" unfolding out_def by (rule excluded_facts(1) [OF spl r(2)])
    ultimately show ?thesis
      using r(4,5) th inp quote_result_eq(2) [OF quote] unfolding Inr
      by (simp add: quote_promise_def aToB_def [symmetric])
  qed
qed

lemma exact_out_promise:
  assumes spl: "spl_token_ok spl" and amount: "0 \<le> sqp_tokenAmount params" and inp: "\<not> sqp_amountSpecifiedIsInput params"
    and ok: "\<And>amount. 0 \<le> amount \<Longrightarrow> swap_ok mu (sqp_whirlpoolData params) q amount (sqp_sqrtPriceLimit params) (sqp_aToB params)"
  shows "case simulate_exact_out mu spl params q of Inl e \<Rightarrow> e \<noteq> NonTermination
    | Inr quote \<Rightarrow> quote_promise params quote \<and> si_amount quote = sqp_tokenAmount params \<and> \<not> si_amountSpecifiedIsInput quote"
proof -
  define ctx where "ctx = sqp_tokenExtensionCtx params"
  define aToB where "aToB = sqp_aToB params"
  define mintIn where "mintIn = (if aToB then tec_tokenMintWithProgramA ctx else tec_tokenMintWithProgramB ctx)"
  define mintOut where "mintOut = (if aToB then tec_tokenMintWithProgramB ctx else tec_tokenMintWithProgramA ctx)"
  define g where "g = calculateTransferFeeIncludedAmount spl (sqp_tokenAmount params) mintOut (tec_currentEpoch ctx)"
  note inc = included_facts [OF spl amount, of mintOut "tec_currentEpoch ctx", folded g_def]
  have unfold: "simulate_exact_out mu spl params q =
      bindE g (\<lambda>transferFeeIncludedOut.
      bindE (computeSwap mu (sqp_whirlpoolData params) q (tfi_amount transferFeeIncludedOut)
               (sqp_sqrtPriceLimit params) False aToB) (\<lambda>(swapResults, tickSeq).
      bindE (calculateTransferFeeIncludedAmount spl
               (if aToB then sr_amountA swapResults else sr_amountB swapResults) mintIn (tec_currentEpoch ctx))
        (\<lambda>transferFeeIncludedIn.
      if tfi_amount transferFeeIncludedIn > sqp_otherAmountThreshold params
      then Inl (swap_error AmountInAboveMaximum)
      else
        let transferFeeExcludedOut = calculateTransferFeeExcludedAmount spl
              (if aToB then sr_amountB swapResults else sr_amountA swapResults) mintOut (tec_currentEpoch ctx) in
        quote_result params transferFeeIncludedIn transferFeeExcludedOut swapResults tickSeq)))"
    unfolding simulate_exact_out_def Let_def g_def mintIn_def mintOut_def ctx_def aToB_def ..
  show ?thesis
  proof (cases g)
    case (Inl e)
    with inc show ?thesis unfolding unfold by simp
  next
    case g: (Inr gross)
    have gross: "0 \<le> tfi_amount gross" "tfe_amount (calculateTransferFeeExcludedAmount spl (tfi_amount gross) mintOut
        (tec_currentEpoch ctx)) = sqp_tokenAmount params"
      using inc amount unfolding g by auto
    note res = swap_result [OF ok [OF gross(1)], of False, folded aToB_def]
    show ?thesis
    proof (cases "simulate_exact_out mu spl params q")
      case (Inl e)
      have "e \<noteq> NonTermination"
        using Inl res included_error [OF spl] unfolding unfold g
        by (auto simp: Let_def bindE_eq_Inl split: if_splits sum.splits dest: quote_result_eq(1))
      with Inl show ?thesis by simp
    next
      case (Inr quote)
      then obtain r q' where w: "computeSwap mu (sqp_whirlpoolData params) q (tfi_amount gross)
          (sqp_sqrtPriceLimit params) False aToB = Inr (r, q')"
        unfolding unfold g by (auto simp: bindE_eq_Inr)
      define gin gout where "gin = (if aToB then sr_amountA r else sr_amountB r)"
        and "gout = (if aToB then sr_amountB r else sr_amountA r)"
      define out where "out = calculateTransferFeeExcludedAmount spl gout mintOut (tec_currentEpoch ctx)"
      have r: "0 \<le> gin" "0 \<le> gout" "gout \<le> tfi_amount gross"
        "toward aToB (wp_sqrtPrice (sqp_whirlpoolData params)) (sr_nextSqrtPrice r) (sqp_sqrtPriceLimit params)"
        "price_at_tick (sr_nextSqrtPrice r) (sr_nextTickIndex r)"
        using res unfolding w gin_def gout_def by (auto simp: Let_def)
      from Inr obtain i where i: "calculateTransferFeeIncludedAmount spl gin mintIn (tec_currentEpoch ctx) = Inr i"
        and th: "tfi_amount i \<le> sqp_otherAmountThreshold params"
        and quote: "quote_result params i out r q' = Inr quote"
        unfolding unfold g bindE_simps w prod.case gin_def [symmetric] gout_def [symmetric] Let_def out_def [symmetric]
        by (auto simp: bindE_eq_Inr split: if_splits)
      have "0 \<le> tfi_amount i"
        using included_facts [OF spl r(1), of mintIn "tec_currentEpoch ctx"] r(1) i by auto
      moreover have "0 \<le> tfe_amount out" unfolding out_def by (rule excluded_facts(1) [OF spl r(2)])
      moreover have "tfe_amount out \<le> sqp_tokenAmount params"
        using excluded_mono [OF spl r(2,3), of mintOut "tec_currentEpoch ctx"] gross(2) by (simp add: out_def)
      ultimately show ?thesis
        using r(4,5) th inp quote_result_eq(2) [OF quote] unfolding Inr
        by (simp add: quote_promise_def aToB_def [symmetric])
    qed
  qed
qed


lemma quote_guards:
  assumes "simulateSwap mu spl params = r" "quote_ok mu spl params"
  shows "(\<exists>e. r = Inl e \<and> e \<noteq> NonTermination) \<or>
    (\<exists>q. (\<forall>amount \<ge> 0. swap_ok mu (sqp_whirlpoolData params) q amount (sqp_sqrtPriceLimit params) (sqp_aToB params)) \<and>
      r = (if sqp_amountSpecifiedIsInput params then simulate_exact_in mu spl params q
           else simulate_exact_out mu spl params q))"
proof -
  let ?pool = "sqp_whirlpoolData params" and ?aToB = "sqp_aToB params"
  have arrays: "tick_arrays_ok (sqp_tickArrays params) (wp_tickSpacing ?pool) ?aToB"
    using assms(2) by (simp add: quote_ok_def Let_def)
  obtain q where q: "new_TickArraySequence (sqp_tickArrays params) (wp_tickSpacing ?pool) ?aToB = Inr q"
    "seq_wf q" "seq_aToB q = ?aToB"
    by (rule new_TickArraySequence_wf [OF arrays])
  show ?thesis
    using assms q unfolding simulateSwap_def quote_ok_def Let_def
    by (auto simp: swap_ok_def split: if_splits)
qed

lemma simulateSwap_promise:
  assumes "quote_ok mu spl params"
  shows "case simulateSwap mu spl params of Inl e \<Rightarrow> e \<noteq> NonTermination
    | Inr quote \<Rightarrow> quote_promise params quote \<and> si_amount quote = sqp_tokenAmount params
        \<and> si_amountSpecifiedIsInput quote = sqp_amountSpecifiedIsInput params"
proof -
  have spl: "spl_token_ok spl" and amount: "0 \<le> sqp_tokenAmount params"
    using assms by (simp_all add: quote_ok_def Let_def)
  from quote_guards [OF refl assms] show ?thesis
  proof (elim disjE exE conjE)
    fix e assume "simulateSwap mu spl params = Inl e" "e \<noteq> NonTermination"
    then show ?thesis by simp
  next
    fix q
    assume ok: "\<forall>amount \<ge> 0. swap_ok mu (sqp_whirlpoolData params) q amount (sqp_sqrtPriceLimit params) (sqp_aToB params)"
      and r: "simulateSwap mu spl params = (if sqp_amountSpecifiedIsInput params then simulate_exact_in mu spl params q
           else simulate_exact_out mu spl params q)"
    show ?thesis
    proof (cases "sqp_amountSpecifiedIsInput params")
      case True
      with exact_in_promise [OF spl amount True, of mu q] ok r show ?thesis by (simp split: sum.splits)
    next
      case False
      with exact_out_promise [OF spl amount False, of mu q] ok r show ?thesis by (simp split: sum.splits)
    qed
  qed
qed

subsection \<open>An example quote\<close>

definition example_params :: SwapQuoteParam where
  "example_params = \<lparr>sqp_whirlpoolData = example_pool, sqp_tokenAmount = 1000000, sqp_otherAmountThreshold = 0,
     sqp_sqrtPriceLimit = MIN_SQRT_PRICE, sqp_aToB = True, sqp_amountSpecifiedIsInput = True,
     sqp_tickArrays = example_arrays True,
     sqp_tokenExtensionCtx = \<lparr>tec_currentEpoch = 0, tec_tokenMintWithProgramA = example_mint ''mintA'' ''token2022'',
       tec_tokenMintWithProgramB = example_mint ''mintB'' ''token''\<rparr>\<rparr>"

lemma example_quote_ok: "quote_ok math_util_ref spl_token_ref example_params"
  using example_swap_ok example_sequence_new [of True] example_arrays_ok [of True] spl_token_ref_ok
  by (auto simp: quote_ok_def swap_ok_def example_params_def example_pool_def Let_def)



text \<open>
  slippage only widens a quote: the threshold a quote is returned with is at most the
  estimated output when the input is fixed and at least the estimated input (up to rounding)
  when the output is fixed, and the specified amount is unchanged.
\<close>

theorem slippage_threshold_safe:
  assumes "quote_ok mu spl params" "0 \<le> numerator slippage" "0 < denominator slippage"
  shows "case swapQuoteWithParams mu spl params slippage of Inl e \<Rightarrow> e \<noteq> NonTermination
    | Inr quote \<Rightarrow> si_amount quote = sqp_tokenAmount params \<and>
        (if sqp_amountSpecifiedIsInput params
         then 0 \<le> si_otherAmountThreshold quote \<and> si_otherAmountThreshold quote \<le> se_estimatedAmountOut quote
         else se_estimatedAmountIn quote \<le> si_otherAmountThreshold quote)"
proof (cases "simulateSwap mu spl params")
  case (Inl e)
  with simulateSwap_promise [OF assms(1)] show ?thesis by (simp add: swapQuoteWithParams_def)
next
  case (Inr quote)
  then have q: "quote_promise params quote" "si_amount quote = sqp_tokenAmount params"
    "si_amountSpecifiedIsInput quote = sqp_amountSpecifiedIsInput params"
    using simulateSwap_promise [OF assms(1)] by simp_all
  define n d where "n = numerator slippage" and "d = denominator slippage"
  have nd: "0 \<le> n" "0 < d" using assms by (simp_all add: n_def d_def)
  have down: "0 \<le> x * d div (d + n)" "x * d div (d + n) \<le> x" if "0 \<le> x" for x
  proof -
    show "0 \<le> x * d div (d + n)" using nd that by (simp add: pos_imp_zdiv_nonneg_iff)
    have "x * d div (d + n) \<le> x * (d + n) div (d + n)" using nd that by (intro zdiv_mono1 mult_left_mono) auto
    then show "x * d div (d + n) \<le> x" using nd by simp
  qed
  have up: "x \<le> x * (d + n) div d" if "0 \<le> x" for x
    using nd that by (subst le_div_iff_int) (auto intro: mult_left_mono)
  have nonneg: "0 \<le> se_estimatedAmountIn quote" "0 \<le> se_estimatedAmountOut quote"
    using q(1) by (simp_all add: quote_promise_def)
  show ?thesis
    using q(2,3) nonneg down [OF nonneg(2)] up [OF nonneg(1)] nd
    by (simp add: swapQuoteWithParams_def Inr calculateSwapAmountsFromQuote_def adjustForSlippage_def
        n_def [symmetric] d_def [symmetric] bn_nonneg)
qed


theorem slippage_threshold_safe_witness:
  "case swapQuoteWithParams math_util_ref spl_token_ref example_params \<lparr>numerator = 1, denominator = 100\<rparr> of
     Inl e \<Rightarrow> e \<noteq> NonTermination
   | Inr quote \<Rightarrow> si_amount quote = 1000000 \<and> si_otherAmountThreshold quote \<le> se_estimatedAmountOut quote"
  using slippage_threshold_safe [OF example_quote_ok, of "\<lparr>numerator = 1, denominator = 100\<rparr>"]
  by (auto simp: example_params_def split: sum.splits)

end
