(* ===== verification/Liquidity_Quotes.thy ===== *)
theory Liquidity_Quotes
  imports Pool_Utils
begin

text \<open>
  Quotes to deposit and withdraw liquidity (\<^verbatim>\<open>sdk/src/quotes/public/increase-liquidity-quote.ts\<close>
  and \<^verbatim>\<open>decrease-liquidity-quote.ts\<close>). A quote holds the liquidity, the estimated amounts and
  the bounds the program checks, both with transfer fees, and the fees. The two files each
  have a \<^verbatim>\<open>getTokenEstimatesFromLiquidity\<close>: \<open>inc_\<close> rounds up, \<open>dec_\<close> rounds down. The theorems:
  an estimate never exceeds what was put in, bounds enclose estimates, and a withdrawal never
  returns more than the deposit cost.
\<close>

record IncreaseLiquidityQuoteParam =
  ip_inputTokenAmount :: int
  ip_inputTokenMint :: pubkey
  ip_tokenMintA :: pubkey
  ip_tokenMintB :: pubkey
  ip_tickCurrentIndex :: int
  ip_sqrtPrice :: int
  ip_tickLowerIndex :: int
  ip_tickUpperIndex :: int
  ip_tokenExtensionCtx :: TokenExtensionContextForPool
  ip_slippageTolerance :: percentage

record IncreaseLiquidityQuoteByLiquidityParam =
  lp_liquidity :: int
  lp_tickCurrentIndex :: int
  lp_sqrtPrice :: int
  lp_tickLowerIndex :: int
  lp_tickUpperIndex :: int
  lp_tokenExtensionCtx :: TokenExtensionContextForPool
  lp_slippageTolerance :: percentage

record IncreaseLiquidityQuote =
  ilq_liquidityAmount :: int
  ilq_tokenMaxA :: int
  ilq_tokenMaxB :: int
  ilq_tokenEstA :: int
  ilq_tokenEstB :: int
  ilq_deductingFromTokenMaxA :: int
  ilq_deductingFromTokenMaxB :: int
  ilq_deductingFromTokenEstA :: int
  ilq_deductingFromTokenEstB :: int

text \<open>The parameters of a withdrawal have the same fields as those of a deposit by liquidity.\<close>

type_synonym DecreaseLiquidityQuoteParam = IncreaseLiquidityQuoteByLiquidityParam

record DecreaseLiquidityQuote =
  dlq_tokenMinA :: int
  dlq_tokenMinB :: int
  dlq_liquidityAmount :: int
  dlq_tokenEstA :: int
  dlq_tokenEstB :: int
  dlq_deductedFromTokenMinA :: int
  dlq_deductedFromTokenMinB :: int
  dlq_deductedFromTokenEstA :: int
  dlq_deductedFromTokenEstB :: int

definition zero_increase_quote :: IncreaseLiquidityQuote where
  "zero_increase_quote = \<lparr>ilq_liquidityAmount = 0, ilq_tokenMaxA = 0, ilq_tokenMaxB = 0, ilq_tokenEstA = 0,
     ilq_tokenEstB = 0, ilq_deductingFromTokenMaxA = 0, ilq_deductingFromTokenMaxB = 0,
     ilq_deductingFromTokenEstA = 0, ilq_deductingFromTokenEstB = 0\<rparr>"

definition zero_decrease_quote :: DecreaseLiquidityQuote where
  "zero_decrease_quote = \<lparr>dlq_tokenMinA = 0, dlq_tokenMinB = 0, dlq_liquidityAmount = 0, dlq_tokenEstA = 0,
     dlq_tokenEstB = 0, dlq_deductedFromTokenMinA = 0, dlq_deductedFromTokenMinB = 0,
     dlq_deductedFromTokenEstA = 0, dlq_deductedFromTokenEstB = 0\<rparr>"

subsection \<open>Deposits by liquidity\<close>

definition inc_getTokenEstimatesFromLiquidity ::
    "math_util \<Rightarrow> IncreaseLiquidityQuoteByLiquidityParam \<Rightarrow> (int \<times> int) res" where
  "inc_getTokenEstimatesFromLiquidity mu params =
     (let liquidity = lp_liquidity params;
          sqrtPrice = lp_sqrtPrice params;
          lowerSqrtPrice = tickIndexToSqrtPriceX64 (lp_tickLowerIndex params);
          upperSqrtPrice = tickIndexToSqrtPriceX64 (lp_tickUpperIndex params) in
      if liquidity = 0 then Inl PlainError
      else (case getStrictPositionStatus sqrtPrice (lp_tickLowerIndex params) (lp_tickUpperIndex params) of
          BelowRange \<Rightarrow>
            bindE (getTokenAFromLiquidity mu liquidity lowerSqrtPrice upperSqrtPrice True) (\<lambda>tokenEstA.
            Inr (tokenEstA, 0))
        | InRange \<Rightarrow>
            bindE (getTokenAFromLiquidity mu liquidity sqrtPrice upperSqrtPrice True) (\<lambda>tokenEstA.
            bindE (getTokenBFromLiquidity mu liquidity lowerSqrtPrice sqrtPrice True) (\<lambda>tokenEstB.
            Inr (tokenEstA, tokenEstB)))
        | AboveRange \<Rightarrow>
            bindE (getTokenBFromLiquidity mu liquidity lowerSqrtPrice upperSqrtPrice True) (\<lambda>tokenEstB.
            Inr (0, tokenEstB))))"

definition increaseLiquidityQuoteByLiquidityWithParams ::
    "math_util \<Rightarrow> 'd decimal_ops \<Rightarrow> 'c spl_token \<Rightarrow> IncreaseLiquidityQuoteByLiquidityParam \<Rightarrow>
     IncreaseLiquidityQuote res" where
  "increaseLiquidityQuoteByLiquidityWithParams mu dec spl params =
     (if lp_liquidity params = 0 then Inr zero_increase_quote
      else
        bindE (inc_getTokenEstimatesFromLiquidity mu params) (\<lambda>(tokenEstA, tokenEstB).
        bindE (getSlippageBoundForSqrtPrice dec (lp_sqrtPrice params) (lp_slippageTolerance params))
          (\<lambda>((sLowerSqrtPrice, sLowerIndex), (sUpperSqrtPrice, sUpperIndex)).
        bindE (inc_getTokenEstimatesFromLiquidity mu
                 (params\<lparr>lp_sqrtPrice := sLowerSqrtPrice, lp_tickCurrentIndex := sLowerIndex\<rparr>))
          (\<lambda>(tokenEstALower, tokenEstBLower).
        bindE (inc_getTokenEstimatesFromLiquidity mu
                 (params\<lparr>lp_sqrtPrice := sUpperSqrtPrice, lp_tickCurrentIndex := sUpperIndex\<rparr>))
          (\<lambda>(tokenEstAUpper, tokenEstBUpper).
        let tokenMaxA = max (max tokenEstA tokenEstALower) tokenEstAUpper;
            tokenMaxB = max (max tokenEstB tokenEstBLower) tokenEstBUpper;
            ctx = lp_tokenExtensionCtx params;
            mintA = tec_tokenMintWithProgramA ctx;
            mintB = tec_tokenMintWithProgramB ctx;
            epoch = tec_currentEpoch ctx in
        bindE (calculateTransferFeeIncludedAmount spl tokenMaxA mintA epoch) (\<lambda>tokenMaxAIncluded.
        bindE (calculateTransferFeeIncludedAmount spl tokenEstA mintA epoch) (\<lambda>tokenEstAIncluded.
        bindE (calculateTransferFeeIncludedAmount spl tokenMaxB mintB epoch) (\<lambda>tokenMaxBIncluded.
        bindE (calculateTransferFeeIncludedAmount spl tokenEstB mintB epoch) (\<lambda>tokenEstBIncluded.
        Inr \<lparr>ilq_liquidityAmount = lp_liquidity params,
             ilq_tokenMaxA = tfi_amount tokenMaxAIncluded, ilq_tokenMaxB = tfi_amount tokenMaxBIncluded,
             ilq_tokenEstA = tfi_amount tokenEstAIncluded, ilq_tokenEstB = tfi_amount tokenEstBIncluded,
             ilq_deductingFromTokenMaxA = tfi_fee tokenMaxAIncluded,
             ilq_deductingFromTokenMaxB = tfi_fee tokenMaxBIncluded,
             ilq_deductingFromTokenEstA = tfi_fee tokenEstAIncluded,
             ilq_deductingFromTokenEstB = tfi_fee tokenEstBIncluded\<rparr>)))))))))"

subsection \<open>Deposits by an input token\<close>

definition getLiquidityFromInputToken ::
    "math_util \<Rightarrow> 'c spl_token \<Rightarrow> IncreaseLiquidityQuoteParam \<Rightarrow> int res" where
  "getLiquidityFromInputToken mu spl params =
     (let inputTokenAmount = ip_inputTokenAmount params;
          tickLowerIndex = ip_tickLowerIndex params;
          tickUpperIndex = ip_tickUpperIndex params;
          sqrtPrice = ip_sqrtPrice params;
          ctx = ip_tokenExtensionCtx params in
      if \<not> tickLowerIndex < tickUpperIndex then Inl InvariantError
      else if inputTokenAmount = 0 then Inr 0
      else
        let isTokenA = (ip_tokenMintA params = ip_inputTokenMint params);
            sqrtPriceLowerX64 = tickIndexToSqrtPriceX64 tickLowerIndex;
            sqrtPriceUpperX64 = tickIndexToSqrtPriceX64 tickUpperIndex;
            excludedA = calculateTransferFeeExcludedAmount spl inputTokenAmount
              (tec_tokenMintWithProgramA ctx) (tec_currentEpoch ctx);
            excludedB = calculateTransferFeeExcludedAmount spl inputTokenAmount
              (tec_tokenMintWithProgramB ctx) (tec_currentEpoch ctx) in
        case getStrictPositionStatus sqrtPrice tickLowerIndex tickUpperIndex of
          BelowRange \<Rightarrow>
            if \<not> isTokenA then Inr 0
            else getLiquidityFromTokenA mu (tfe_amount excludedA) sqrtPriceLowerX64 sqrtPriceUpperX64 False
        | AboveRange \<Rightarrow>
            if isTokenA then Inr 0
            else getLiquidityFromTokenB mu (tfe_amount excludedB) sqrtPriceLowerX64 sqrtPriceUpperX64 False
        | InRange \<Rightarrow>
            if isTokenA then getLiquidityFromTokenA mu (tfe_amount excludedA) sqrtPrice sqrtPriceUpperX64 False
            else getLiquidityFromTokenB mu (tfe_amount excludedB) sqrtPriceLowerX64 sqrtPrice False)"

definition increaseLiquidityQuoteByInputTokenWithParamsUsingPriceSlippage ::
    "math_util \<Rightarrow> 'd decimal_ops \<Rightarrow> 'c spl_token \<Rightarrow> IncreaseLiquidityQuoteParam \<Rightarrow> IncreaseLiquidityQuote res" where
  "increaseLiquidityQuoteByInputTokenWithParamsUsingPriceSlippage mu dec spl param =
     (if \<not> checkTickInBounds (ip_tickLowerIndex param) then Inl InvariantError
      else if \<not> checkTickInBounds (ip_tickUpperIndex param) then Inl InvariantError
      else if \<not> (ip_inputTokenMint param = ip_tokenMintA param \<or> ip_inputTokenMint param = ip_tokenMintB param)
      then Inl InvariantError
      else
        bindE (getLiquidityFromInputToken mu spl param) (\<lambda>liquidity.
        if liquidity = 0 then Inr zero_increase_quote
        else increaseLiquidityQuoteByLiquidityWithParams mu dec spl
          \<lparr>lp_liquidity = liquidity, lp_tickCurrentIndex = ip_tickCurrentIndex param,
           lp_sqrtPrice = ip_sqrtPrice param, lp_tickLowerIndex = ip_tickLowerIndex param,
           lp_tickUpperIndex = ip_tickUpperIndex param, lp_tokenExtensionCtx = ip_tokenExtensionCtx param,
           lp_slippageTolerance = ip_slippageTolerance param\<rparr>))"

text \<open>The deprecated quotes by position status.\<close>

definition quotePositionBelowRange ::
    "math_util \<Rightarrow> 'c spl_token \<Rightarrow> IncreaseLiquidityQuoteParam \<Rightarrow> IncreaseLiquidityQuote res" where
  "quotePositionBelowRange mu spl param =
     (let ctx = ip_tokenExtensionCtx param;
          mintA = tec_tokenMintWithProgramA ctx;
          epoch = tec_currentEpoch ctx in
      if ip_tokenMintA param \<noteq> ip_inputTokenMint param then Inr zero_increase_quote
      else
        let sqrtPriceLowerX64 = tickIndexToSqrtPriceX64 (ip_tickLowerIndex param);
            sqrtPriceUpperX64 = tickIndexToSqrtPriceX64 (ip_tickUpperIndex param);
            excluded = calculateTransferFeeExcludedAmount spl (ip_inputTokenAmount param) mintA epoch in
        bindE (getLiquidityFromTokenA mu (tfe_amount excluded) sqrtPriceLowerX64 sqrtPriceUpperX64 False)
          (\<lambda>liquidityAmount.
        bindE (getTokenAFromLiquidity mu liquidityAmount sqrtPriceLowerX64 sqrtPriceUpperX64 True) (\<lambda>tokenEstA.
        bindE (pu_adjustForSlippage tokenEstA (ip_slippageTolerance param) True) (\<lambda>tokenMaxA.
        bindE (calculateTransferFeeIncludedAmount spl tokenMaxA mintA epoch) (\<lambda>tokenMaxAIncluded.
        bindE (calculateTransferFeeIncludedAmount spl tokenEstA mintA epoch) (\<lambda>tokenEstAIncluded.
        Inr \<lparr>ilq_liquidityAmount = liquidityAmount,
             ilq_tokenMaxA = tfi_amount tokenMaxAIncluded, ilq_tokenMaxB = 0,
             ilq_tokenEstA = tfi_amount tokenEstAIncluded, ilq_tokenEstB = 0,
             ilq_deductingFromTokenMaxA = tfi_fee tokenMaxAIncluded, ilq_deductingFromTokenMaxB = 0,
             ilq_deductingFromTokenEstA = tfi_fee tokenEstAIncluded, ilq_deductingFromTokenEstB = 0\<rparr>))))))"

definition quotePositionInRange ::
    "math_util \<Rightarrow> 'c spl_token \<Rightarrow> IncreaseLiquidityQuoteParam \<Rightarrow> IncreaseLiquidityQuote res" where
  "quotePositionInRange mu spl param =
     (let ctx = ip_tokenExtensionCtx param;
          mintA = tec_tokenMintWithProgramA ctx;
          mintB = tec_tokenMintWithProgramB ctx;
          epoch = tec_currentEpoch ctx;
          sqrtPriceX64 = ip_sqrtPrice param;
          sqrtPriceLowerX64 = tickIndexToSqrtPriceX64 (ip_tickLowerIndex param);
          sqrtPriceUpperX64 = tickIndexToSqrtPriceX64 (ip_tickUpperIndex param) in
      bindE (if ip_tokenMintA param = ip_inputTokenMint param
             then getLiquidityFromTokenA mu
               (tfe_amount (calculateTransferFeeExcludedAmount spl (ip_inputTokenAmount param) mintA epoch))
               sqrtPriceX64 sqrtPriceUpperX64 False
             else if ip_tokenMintB param = ip_inputTokenMint param
             then getLiquidityFromTokenB mu
               (tfe_amount (calculateTransferFeeExcludedAmount spl (ip_inputTokenAmount param) mintB epoch))
               sqrtPriceLowerX64 sqrtPriceX64 False
             else Inl PlainError) (\<lambda>liquidityAmount.
      bindE (getTokenAFromLiquidity mu liquidityAmount sqrtPriceX64 sqrtPriceUpperX64 True) (\<lambda>tokenEstA.
      bindE (getTokenBFromLiquidity mu liquidityAmount sqrtPriceLowerX64 sqrtPriceX64 True) (\<lambda>tokenEstB.
      bindE (pu_adjustForSlippage tokenEstA (ip_slippageTolerance param) True) (\<lambda>tokenMaxA.
      bindE (pu_adjustForSlippage tokenEstB (ip_slippageTolerance param) True) (\<lambda>tokenMaxB.
      bindE (calculateTransferFeeIncludedAmount spl tokenMaxA mintA epoch) (\<lambda>tokenMaxAIncluded.
      bindE (calculateTransferFeeIncludedAmount spl tokenEstA mintA epoch) (\<lambda>tokenEstAIncluded.
      bindE (calculateTransferFeeIncludedAmount spl tokenMaxB mintB epoch) (\<lambda>tokenMaxBIncluded.
      bindE (calculateTransferFeeIncludedAmount spl tokenEstB mintB epoch) (\<lambda>tokenEstBIncluded.
      Inr \<lparr>ilq_liquidityAmount = liquidityAmount,
           ilq_tokenMaxA = tfi_amount tokenMaxAIncluded, ilq_tokenMaxB = tfi_amount tokenMaxBIncluded,
           ilq_tokenEstA = tfi_amount tokenEstAIncluded, ilq_tokenEstB = tfi_amount tokenEstBIncluded,
           ilq_deductingFromTokenMaxA = tfi_fee tokenMaxAIncluded,
           ilq_deductingFromTokenMaxB = tfi_fee tokenMaxBIncluded,
           ilq_deductingFromTokenEstA = tfi_fee tokenEstAIncluded,
           ilq_deductingFromTokenEstB = tfi_fee tokenEstBIncluded\<rparr>))))))))))"

definition quotePositionAboveRange ::
    "math_util \<Rightarrow> 'c spl_token \<Rightarrow> IncreaseLiquidityQuoteParam \<Rightarrow> IncreaseLiquidityQuote res" where
  "quotePositionAboveRange mu spl param =
     (let ctx = ip_tokenExtensionCtx param;
          mintB = tec_tokenMintWithProgramB ctx;
          epoch = tec_currentEpoch ctx in
      if ip_tokenMintB param \<noteq> ip_inputTokenMint param then Inr zero_increase_quote
      else
        let sqrtPriceLowerX64 = tickIndexToSqrtPriceX64 (ip_tickLowerIndex param);
            sqrtPriceUpperX64 = tickIndexToSqrtPriceX64 (ip_tickUpperIndex param);
            excluded = calculateTransferFeeExcludedAmount spl (ip_inputTokenAmount param) mintB epoch in
        bindE (getLiquidityFromTokenB mu (tfe_amount excluded) sqrtPriceLowerX64 sqrtPriceUpperX64 False)
          (\<lambda>liquidityAmount.
        bindE (getTokenBFromLiquidity mu liquidityAmount sqrtPriceLowerX64 sqrtPriceUpperX64 True) (\<lambda>tokenEstB.
        bindE (pu_adjustForSlippage tokenEstB (ip_slippageTolerance param) True) (\<lambda>tokenMaxB.
        bindE (calculateTransferFeeIncludedAmount spl tokenMaxB mintB epoch) (\<lambda>tokenMaxBIncluded.
        bindE (calculateTransferFeeIncludedAmount spl tokenEstB mintB epoch) (\<lambda>tokenEstBIncluded.
        Inr \<lparr>ilq_liquidityAmount = liquidityAmount,
             ilq_tokenMaxA = 0, ilq_tokenMaxB = tfi_amount tokenMaxBIncluded,
             ilq_tokenEstA = 0, ilq_tokenEstB = tfi_amount tokenEstBIncluded,
             ilq_deductingFromTokenMaxA = 0, ilq_deductingFromTokenMaxB = tfi_fee tokenMaxBIncluded,
             ilq_deductingFromTokenEstA = 0, ilq_deductingFromTokenEstB = tfi_fee tokenEstBIncluded\<rparr>))))))"

definition increaseLiquidityQuoteByInputTokenWithParams ::
    "math_util \<Rightarrow> 'c spl_token \<Rightarrow> IncreaseLiquidityQuoteParam \<Rightarrow> IncreaseLiquidityQuote res" where
  "increaseLiquidityQuoteByInputTokenWithParams mu spl param =
     (if \<not> checkTickInBounds (ip_tickLowerIndex param) then Inl InvariantError
      else if \<not> checkTickInBounds (ip_tickUpperIndex param) then Inl InvariantError
      else if \<not> (ip_inputTokenMint param = ip_tokenMintA param \<or> ip_inputTokenMint param = ip_tokenMintB param)
      then Inl InvariantError
      else (case getStrictPositionStatus (ip_sqrtPrice param) (ip_tickLowerIndex param) (ip_tickUpperIndex param) of
          BelowRange \<Rightarrow> quotePositionBelowRange mu spl param
        | InRange \<Rightarrow> quotePositionInRange mu spl param
        | AboveRange \<Rightarrow> quotePositionAboveRange mu spl param))"

text \<open>
  The two entry points read the pool object: its data, and the mints with their decimals.
  \<open>toBN\<close> is \<^verbatim>\<open>DecimalUtil.toBN\<close>. The spread \<^verbatim>\<open>...data\<close> gives the mints, the tick and the price.
\<close>

definition input_token_param ::
    "('d \<Rightarrow> int \<Rightarrow> int) \<Rightarrow> pubkey \<Rightarrow> 'd \<Rightarrow> int \<Rightarrow> int \<Rightarrow> percentage \<Rightarrow> WhirlpoolData \<Rightarrow> mint_info \<Rightarrow> mint_info \<Rightarrow>
     TokenExtensionContextForPool \<Rightarrow> IncreaseLiquidityQuoteParam" where
  "input_token_param toBN inputTokenMint inputTokenAmount tickLower tickUpper slippageTolerance data
     tokenAInfo tokenBInfo tokenExtensionCtx =
     (let inputTokenInfo = (if inputTokenMint = mi_address tokenAInfo then tokenAInfo else tokenBInfo) in
      \<lparr>ip_inputTokenAmount = toBN inputTokenAmount (mi_decimals inputTokenInfo),
       ip_inputTokenMint = inputTokenMint,
       ip_tokenMintA = wp_tokenMintA data, ip_tokenMintB = wp_tokenMintB data,
       ip_tickCurrentIndex = wp_tickCurrentIndex data, ip_sqrtPrice = wp_sqrtPrice data,
       ip_tickLowerIndex = getInitializableTickIndex tickLower (wp_tickSpacing data),
       ip_tickUpperIndex = getInitializableTickIndex tickUpper (wp_tickSpacing data),
       ip_tokenExtensionCtx = tokenExtensionCtx, ip_slippageTolerance = slippageTolerance\<rparr>)"

definition increaseLiquidityQuoteByInputTokenUsingPriceSlippage ::
    "math_util \<Rightarrow> 'd decimal_ops \<Rightarrow> 'c spl_token \<Rightarrow> ('d \<Rightarrow> int \<Rightarrow> int) \<Rightarrow> pubkey \<Rightarrow> 'd \<Rightarrow> int \<Rightarrow> int \<Rightarrow> percentage \<Rightarrow>
     WhirlpoolData \<Rightarrow> mint_info \<Rightarrow> mint_info \<Rightarrow> TokenExtensionContextForPool \<Rightarrow> IncreaseLiquidityQuote res" where
  "increaseLiquidityQuoteByInputTokenUsingPriceSlippage mu dec spl toBN inputTokenMint inputTokenAmount tickLower
     tickUpper slippageTolerance data tokenAInfo tokenBInfo tokenExtensionCtx =
     increaseLiquidityQuoteByInputTokenWithParamsUsingPriceSlippage mu dec spl
       (input_token_param toBN inputTokenMint inputTokenAmount tickLower tickUpper slippageTolerance data
          tokenAInfo tokenBInfo tokenExtensionCtx)"

definition increaseLiquidityQuoteByInputToken ::
    "math_util \<Rightarrow> 'c spl_token \<Rightarrow> ('d \<Rightarrow> int \<Rightarrow> int) \<Rightarrow> pubkey \<Rightarrow> 'd \<Rightarrow> int \<Rightarrow> int \<Rightarrow> percentage \<Rightarrow>
     WhirlpoolData \<Rightarrow> mint_info \<Rightarrow> mint_info \<Rightarrow> TokenExtensionContextForPool \<Rightarrow> IncreaseLiquidityQuote res" where
  "increaseLiquidityQuoteByInputToken mu spl toBN inputTokenMint inputTokenAmount tickLower tickUpper
     slippageTolerance data tokenAInfo tokenBInfo tokenExtensionCtx =
     increaseLiquidityQuoteByInputTokenWithParams mu spl
       (input_token_param toBN inputTokenMint inputTokenAmount tickLower tickUpper slippageTolerance data
          tokenAInfo tokenBInfo tokenExtensionCtx)"

subsection \<open>Withdrawals\<close>

definition dec_getTokenEstimatesFromLiquidity ::
    "math_util \<Rightarrow> DecreaseLiquidityQuoteParam \<Rightarrow> (int \<times> int) res" where
  "dec_getTokenEstimatesFromLiquidity mu params =
     (let liquidity = lp_liquidity params;
          sqrtPrice = lp_sqrtPrice params;
          lowerSqrtPrice = tickIndexToSqrtPriceX64 (lp_tickLowerIndex params);
          upperSqrtPrice = tickIndexToSqrtPriceX64 (lp_tickUpperIndex params) in
      if liquidity = 0 then Inl PlainError
      else (case getStrictPositionStatus sqrtPrice (lp_tickLowerIndex params) (lp_tickUpperIndex params) of
          BelowRange \<Rightarrow>
            bindE (getTokenAFromLiquidity mu liquidity lowerSqrtPrice upperSqrtPrice False) (\<lambda>tokenEstA.
            Inr (tokenEstA, 0))
        | InRange \<Rightarrow>
            bindE (getTokenAFromLiquidity mu liquidity sqrtPrice upperSqrtPrice False) (\<lambda>tokenEstA.
            bindE (getTokenBFromLiquidity mu liquidity lowerSqrtPrice sqrtPrice False) (\<lambda>tokenEstB.
            Inr (tokenEstA, tokenEstB)))
        | AboveRange \<Rightarrow>
            bindE (getTokenBFromLiquidity mu liquidity lowerSqrtPrice upperSqrtPrice False) (\<lambda>tokenEstB.
            Inr (0, tokenEstB))))"

text \<open>The object both withdrawal quotes return.\<close>

definition decrease_quote ::
    "'c spl_token \<Rightarrow> DecreaseLiquidityQuoteParam \<Rightarrow> int \<Rightarrow> int \<Rightarrow> int \<Rightarrow> int \<Rightarrow> DecreaseLiquidityQuote" where
  "decrease_quote spl params tokenMinA tokenMinB tokenEstA tokenEstB =
     (let ctx = lp_tokenExtensionCtx params;
          mintA = tec_tokenMintWithProgramA ctx;
          mintB = tec_tokenMintWithProgramB ctx;
          epoch = tec_currentEpoch ctx;
          tokenMinAExcluded = calculateTransferFeeExcludedAmount spl tokenMinA mintA epoch;
          tokenEstAExcluded = calculateTransferFeeExcludedAmount spl tokenEstA mintA epoch;
          tokenMinBExcluded = calculateTransferFeeExcludedAmount spl tokenMinB mintB epoch;
          tokenEstBExcluded = calculateTransferFeeExcludedAmount spl tokenEstB mintB epoch in
      \<lparr>dlq_tokenMinA = tfe_amount tokenMinAExcluded, dlq_tokenMinB = tfe_amount tokenMinBExcluded,
       dlq_liquidityAmount = lp_liquidity params,
       dlq_tokenEstA = tfe_amount tokenEstAExcluded, dlq_tokenEstB = tfe_amount tokenEstBExcluded,
       dlq_deductedFromTokenMinA = tfe_fee tokenMinAExcluded, dlq_deductedFromTokenMinB = tfe_fee tokenMinBExcluded,
       dlq_deductedFromTokenEstA = tfe_fee tokenEstAExcluded, dlq_deductedFromTokenEstB = tfe_fee tokenEstBExcluded\<rparr>)"

definition decreaseLiquidityQuoteByLiquidityWithParams ::
    "math_util \<Rightarrow> 'c spl_token \<Rightarrow> DecreaseLiquidityQuoteParam \<Rightarrow> DecreaseLiquidityQuote res" where
  "decreaseLiquidityQuoteByLiquidityWithParams mu spl params =
     (if \<not> checkTickInBounds (lp_tickLowerIndex params) then Inl InvariantError
      else if \<not> checkTickInBounds (lp_tickUpperIndex params) then Inl InvariantError
      else if \<not> checkTickInBounds (lp_tickCurrentIndex params) then Inl InvariantError
      else if lp_liquidity params = 0 then Inr zero_decrease_quote
      else
        bindE (dec_getTokenEstimatesFromLiquidity mu params) (\<lambda>(tokenEstA, tokenEstB).
        bindE (pu_adjustForSlippage tokenEstA (lp_slippageTolerance params) False) (\<lambda>tokenMinA.
        bindE (pu_adjustForSlippage tokenEstB (lp_slippageTolerance params) False) (\<lambda>tokenMinB.
        Inr (decrease_quote spl params tokenMinA tokenMinB tokenEstA tokenEstB)))))"

definition decreaseLiquidityQuoteByLiquidityWithParamsUsingPriceSlippage ::
    "math_util \<Rightarrow> 'd decimal_ops \<Rightarrow> 'c spl_token \<Rightarrow> DecreaseLiquidityQuoteParam \<Rightarrow> DecreaseLiquidityQuote res" where
  "decreaseLiquidityQuoteByLiquidityWithParamsUsingPriceSlippage mu dec spl params =
     (if lp_liquidity params = 0 then Inr zero_decrease_quote
      else
        bindE (dec_getTokenEstimatesFromLiquidity mu params) (\<lambda>(tokenEstA, tokenEstB).
        bindE (getSlippageBoundForSqrtPrice dec (lp_sqrtPrice params) (lp_slippageTolerance params))
          (\<lambda>((sLowerSqrtPrice, sLowerIndex), (sUpperSqrtPrice, sUpperIndex)).
        bindE (dec_getTokenEstimatesFromLiquidity mu
                 (params\<lparr>lp_sqrtPrice := sLowerSqrtPrice, lp_tickCurrentIndex := sLowerIndex\<rparr>))
          (\<lambda>(tokenEstALower, tokenEstBLower).
        bindE (dec_getTokenEstimatesFromLiquidity mu
                 (params\<lparr>lp_sqrtPrice := sUpperSqrtPrice, lp_tickCurrentIndex := sUpperIndex\<rparr>))
          (\<lambda>(tokenEstAUpper, tokenEstBUpper).
        let tokenMinA = min (min tokenEstA tokenEstALower) tokenEstAUpper;
            tokenMinB = min (min tokenEstB tokenEstBLower) tokenEstBUpper in
        Inr (decrease_quote spl params tokenMinA tokenMinB tokenEstA tokenEstB))))))"

definition decreaseLiquidityQuoteByLiquidity ::
    "math_util \<Rightarrow> 'c spl_token \<Rightarrow> int \<Rightarrow> percentage \<Rightarrow> PositionData \<Rightarrow> WhirlpoolData \<Rightarrow>
     TokenExtensionContextForPool \<Rightarrow> DecreaseLiquidityQuote res" where
  "decreaseLiquidityQuoteByLiquidity mu spl liquidity slippageTolerance positionData whirlpoolData tokenExtensionCtx =
     (if \<not> liquidity \<le> pos_liquidity positionData then Inl InvariantError
      else decreaseLiquidityQuoteByLiquidityWithParams mu spl
        \<lparr>lp_liquidity = liquidity, lp_tickCurrentIndex = wp_tickCurrentIndex whirlpoolData,
         lp_sqrtPrice = wp_sqrtPrice whirlpoolData, lp_tickLowerIndex = pos_tickLowerIndex positionData,
         lp_tickUpperIndex = pos_tickUpperIndex positionData, lp_tokenExtensionCtx = tokenExtensionCtx,
         lp_slippageTolerance = slippageTolerance\<rparr>)"


subsection \<open>Estimates\<close>

text \<open>Rounded down and rounded up, an amount of a liquidity is non-negative and ordered.\<close>

lemma amounts_ordered:
  assumes "math_util_ok mu" "0 \<le> L" "0 < p" "0 < q"
  obtains a a' b b' where
    "getTokenAFromLiquidity mu L p q True = Inr a" "getTokenAFromLiquidity mu L p q False = Inr a'" "0 \<le> a'" "a' \<le> a"
    "getTokenBFromLiquidity mu L p q True = Inr b" "getTokenBFromLiquidity mu L p q False = Inr b'" "0 \<le> b'" "b' \<le> b"
proof -
  have "0 < p * q" "0 \<le> L * \<bar>q - p\<bar> * 2 ^ 64" "0 \<le> L * \<bar>q - p\<bar>" using assms by simp_all
  then have "0 \<le> rdiv False (L * \<bar>q - p\<bar> * 2 ^ 64) (p * q)"
    "rdiv False (L * \<bar>q - p\<bar> * 2 ^ 64) (p * q) \<le> rdiv True (L * \<bar>q - p\<bar> * 2 ^ 64) (p * q)"
    "0 \<le> L * \<bar>q - p\<bar> div 2 ^ 64"
    by (auto intro: rdiv_nonneg rdiv_down_le_up simp: pos_imp_zdiv_nonneg_iff)
  with that getTokenAFromLiquidity_eq [OF assms] getTokenBFromLiquidity_eq [OF assms(1,2), of p q] show ?thesis
    by fastforce
qed

lemma estimates:
  assumes "math_util_ok mu" "0 < lp_liquidity params" "0 < lp_sqrtPrice params"
    and "checkTickInBounds (lp_tickLowerIndex params)" "checkTickInBounds (lp_tickUpperIndex params)"
  obtains a b a' b' where "inc_getTokenEstimatesFromLiquidity mu params = Inr (a, b)"
    "dec_getTokenEstimatesFromLiquidity mu params = Inr (a', b')" "0 \<le> a'" "a' \<le> a" "0 \<le> b'" "b' \<le> b"
proof -
  have pos: "0 < tickIndexToSqrtPriceX64 t" if "checkTickInBounds t" for t
    using price_in_bounds(1) [OF that] by (simp add: MIN_SQRT_PRICE_def)
  let ?L = "lp_liquidity params" and ?p = "lp_sqrtPrice params"
  let ?l = "tickIndexToSqrtPriceX64 (lp_tickLowerIndex params)" and ?u = "tickIndexToSqrtPriceX64 (lp_tickUpperIndex params)"
  have L: "0 \<le> ?L" using assms by simp
  note ao = amounts_ordered [OF assms(1) L]
  obtain a1 a1' b1 b1' where 1:
    "getTokenAFromLiquidity mu ?L ?l ?u True = Inr a1" "getTokenAFromLiquidity mu ?L ?l ?u False = Inr a1'" "0 \<le> a1'" "a1' \<le> a1"
    "getTokenBFromLiquidity mu ?L ?l ?u True = Inr b1" "getTokenBFromLiquidity mu ?L ?l ?u False = Inr b1'" "0 \<le> b1'" "b1' \<le> b1"
    by (rule ao [OF pos [OF assms(4)] pos [OF assms(5)]])
  obtain a2 a2' where 2: "getTokenAFromLiquidity mu ?L ?p ?u True = Inr a2" "getTokenAFromLiquidity mu ?L ?p ?u False = Inr a2'"
    "0 \<le> a2'" "a2' \<le> a2"
    by (rule ao [OF assms(3) pos [OF assms(5)]])
  obtain b3 b3' where 3: "getTokenBFromLiquidity mu ?L ?l ?p True = Inr b3" "getTokenBFromLiquidity mu ?L ?l ?p False = Inr b3'"
    "0 \<le> b3'" "b3' \<le> b3"
    by (rule ao [OF pos [OF assms(4)] assms(3)])
  show ?thesis
    using that 1 2 3 assms(2)
    by (cases "getStrictPositionStatus ?p (lp_tickLowerIndex params) (lp_tickUpperIndex params)")
      (auto simp: inc_getTokenEstimatesFromLiquidity_def dec_getTokenEstimatesFromLiquidity_def Let_def)
qed

lemma slippage_bound_cases:
  obtains l lt u ut where "getSlippageBoundForSqrtPrice dec p slippage = Inr ((l, lt), (u, ut))"
    "MIN_SQRT_PRICE \<le> l" "MIN_SQRT_PRICE \<le> u"
proof -
  have c: "MIN_SQRT_PRICE \<le> min (max x MIN_SQRT_PRICE) MAX_SQRT_PRICE"
    "min (max x MIN_SQRT_PRICE) MAX_SQRT_PRICE \<le> MAX_SQRT_PRICE" for x
    by (simp_all add: MIN_SQRT_PRICE_def MAX_SQRT_PRICE_def)
  have t: "\<exists>t. sqrtPriceX64ToTickIndex (min (max x MIN_SQRT_PRICE) MAX_SQRT_PRICE) = Inr t" for x
    using sqrtPriceX64ToTickIndex_interval [OF c [of x]] by blast
  obtain x y where eq: "getSlippageBoundForSqrtPrice dec p slippage =
      (let lower = min (max x MIN_SQRT_PRICE) MAX_SQRT_PRICE;
           upper = min (max y MIN_SQRT_PRICE) MAX_SQRT_PRICE in
       bindE (sqrtPriceX64ToTickIndex lower) (\<lambda>l.
       bindE (sqrtPriceX64ToTickIndex upper) (\<lambda>u. Inr ((lower, l), (upper, u)))))"
    unfolding getSlippageBoundForSqrtPrice_def Let_def by fast
  from t [of x] t [of y] obtain s u where "sqrtPriceX64ToTickIndex (min (max x MIN_SQRT_PRICE) MAX_SQRT_PRICE) = Inr s"
    "sqrtPriceX64ToTickIndex (min (max y MIN_SQRT_PRICE) MAX_SQRT_PRICE) = Inr u" by blast
  with eq have "getSlippageBoundForSqrtPrice dec p slippage =
      Inr ((min (max x MIN_SQRT_PRICE) MAX_SQRT_PRICE, s), (min (max y MIN_SQRT_PRICE) MAX_SQRT_PRICE, u))"
    by (simp only: Let_def bindE_simps)
  then show ?thesis by (rule that [OF _ c(1) c(1)])
qed

text \<open>A deposit quote by liquidity: the estimates are the amounts with their transfer fee, and below the bounds.\<close>

lemma deposit_by_liquidity:
  assumes mu: "math_util_ok mu" and spl: "spl_token_ok spl" and L: "0 < lp_liquidity params" and p: "0 < lp_sqrtPrice params"
    and b: "checkTickInBounds (lp_tickLowerIndex params)" "checkTickInBounds (lp_tickUpperIndex params)"
    and est: "inc_getTokenEstimatesFromLiquidity mu params = Inr (a, b)"
  defines "ctx \<equiv> lp_tokenExtensionCtx params"
  shows "case increaseLiquidityQuoteByLiquidityWithParams mu dec spl params of Inl e \<Rightarrow> e \<noteq> NonTermination
    | Inr q \<Rightarrow> ilq_liquidityAmount q = lp_liquidity params \<and>
        (\<exists>fa fb. calculateTransferFeeIncludedAmount spl a (tec_tokenMintWithProgramA ctx) (tec_currentEpoch ctx)
             = Inr \<lparr>tfi_amount = ilq_tokenEstA q, tfi_fee = fa\<rparr> \<and>
           calculateTransferFeeIncludedAmount spl b (tec_tokenMintWithProgramB ctx) (tec_currentEpoch ctx)
             = Inr \<lparr>tfi_amount = ilq_tokenEstB q, tfi_fee = fb\<rparr>) \<and>
        0 \<le> ilq_tokenEstA q \<and> ilq_tokenEstA q \<le> ilq_tokenMaxA q \<and>
        0 \<le> ilq_tokenEstB q \<and> ilq_tokenEstB q \<le> ilq_tokenMaxB q"
proof -
  obtain l lt u ut where sl: "getSlippageBoundForSqrtPrice dec (lp_sqrtPrice params) (lp_slippageTolerance params) = Inr ((l, lt), (u, ut))"
    "MIN_SQRT_PRICE \<le> l" "MIN_SQRT_PRICE \<le> u" by (rule slippage_bound_cases)
  have nonneg: "0 \<le> a" "0 \<le> b" using estimates [OF mu L p b] est by force+
  obtain a1 b1 where e1: "inc_getTokenEstimatesFromLiquidity mu (params\<lparr>lp_sqrtPrice := l, lp_tickCurrentIndex := lt\<rparr>) = Inr (a1, b1)"
    by (rule estimates [OF mu, of "params\<lparr>lp_sqrtPrice := l, lp_tickCurrentIndex := lt\<rparr>"])
      (use L b sl(2) in \<open>simp_all add: MIN_SQRT_PRICE_def\<close>)
  obtain a2 b2 where e2: "inc_getTokenEstimatesFromLiquidity mu (params\<lparr>lp_sqrtPrice := u, lp_tickCurrentIndex := ut\<rparr>) = Inr (a2, b2)"
    by (rule estimates [OF mu, of "params\<lparr>lp_sqrtPrice := u, lp_tickCurrentIndex := ut\<rparr>"])
      (use L b sl(3) in \<open>simp_all add: MIN_SQRT_PRICE_def\<close>)
  define inc where "inc mint x = calculateTransferFeeIncludedAmount spl x mint (tec_currentEpoch ctx)" for mint x
  define mA mB where "mA = tec_tokenMintWithProgramA ctx" and "mB = tec_tokenMintWithProgramB ctx"
  have unfold: "increaseLiquidityQuoteByLiquidityWithParams mu dec spl params =
      bindE (inc mA (max (max a a1) a2)) (\<lambda>ma. bindE (inc mA a) (\<lambda>ea.
      bindE (inc mB (max (max b b1) b2)) (\<lambda>mb. bindE (inc mB b) (\<lambda>eb.
      Inr \<lparr>ilq_liquidityAmount = lp_liquidity params,
             ilq_tokenMaxA = tfi_amount ma, ilq_tokenMaxB = tfi_amount mb,
             ilq_tokenEstA = tfi_amount ea, ilq_tokenEstB = tfi_amount eb,
             ilq_deductingFromTokenMaxA = tfi_fee ma, ilq_deductingFromTokenMaxB = tfi_fee mb,
             ilq_deductingFromTokenEstA = tfi_fee ea, ilq_deductingFromTokenEstB = tfi_fee eb\<rparr>))))"
    using L by (simp add: increaseLiquidityQuoteByLiquidityWithParams_def est sl(1) e1 e2 Let_def inc_def mA_def mB_def ctx_def)
  have err: "e \<noteq> NonTermination" if "inc mint x = Inl e" "0 \<le> x" for mint x e
    using included_error [OF spl that(2) that(1) [unfolded inc_def]] by simp
  have mono: "0 \<le> tfi_amount r \<and> tfi_amount r \<le> tfi_amount r'"
    if "inc mint x = Inr r" "inc mint y = Inr r'" "0 \<le> x" "x \<le> y" for mint x y r r'
    using included_mono [OF spl that(3,4)] that(1,2) by (simp add: inc_def)
  show ?thesis
  proof (cases "increaseLiquidityQuoteByLiquidityWithParams mu dec spl params")
    case (Inl e)
    have "0 \<le> max (max a a1) a2" "0 \<le> max (max b b1) b2" using nonneg by auto
    with Inl nonneg have "e \<noteq> NonTermination"
      unfolding unfold by (auto simp: bindE_eq_Inl dest: err)
    with Inl show ?thesis by simp
  next
    case (Inr q)
    then obtain ma ea mb eb where r: "inc mA (max (max a a1) a2) = Inr ma" "inc mA a = Inr ea"
      "inc mB (max (max b b1) b2) = Inr mb" "inc mB b = Inr eb" and q: "ilq_liquidityAmount q = lp_liquidity params"
      "ilq_tokenMaxA q = tfi_amount ma" "ilq_tokenMaxB q = tfi_amount mb" "ilq_tokenEstA q = tfi_amount ea"
      "ilq_tokenEstB q = tfi_amount eb"
      unfolding unfold by (auto simp: bindE_eq_Inr)
    show ?thesis
      using mono [OF r(2,1) nonneg(1)] mono [OF r(4,3) nonneg(2)] r(2,4) q unfolding Inr
      by (simp add: inc_def mA_def mB_def le_max_iff_disj) (metis TransferFeeIncludedAmount.surjective old.unit.exhaust)
  qed
qed


text \<open>The liquidity of an input token, and the amounts it costs.\<close>

abbreviation by_liquidity :: "IncreaseLiquidityQuoteParam \<Rightarrow> int \<Rightarrow> IncreaseLiquidityQuoteByLiquidityParam" where
  "by_liquidity param L \<equiv> \<lparr>lp_liquidity = L, lp_tickCurrentIndex = ip_tickCurrentIndex param,
     lp_sqrtPrice = ip_sqrtPrice param, lp_tickLowerIndex = ip_tickLowerIndex param,
     lp_tickUpperIndex = ip_tickUpperIndex param, lp_tokenExtensionCtx = ip_tokenExtensionCtx param,
     lp_slippageTolerance = ip_slippageTolerance param\<rparr>"

definition net_input :: "'c spl_token \<Rightarrow> IncreaseLiquidityQuoteParam \<Rightarrow> mint_info \<Rightarrow> int" where
  "net_input spl param mint = tfe_amount (calculateTransferFeeExcludedAmount spl (ip_inputTokenAmount param) mint
     (tec_currentEpoch (ip_tokenExtensionCtx param)))"

lemma liquidity_of_a:
  assumes "math_util_ok mu" "0 \<le> n" "0 < p" "p < q"
  shows "\<exists>L. getLiquidityFromTokenA mu n p q False = Inr L \<and> 0 \<le> L \<and>
    (\<exists>a. getTokenAFromLiquidity mu L p q True = Inr a \<and> a \<le> n)"
proof -
  let ?L = "n * p * q div (q - p) div 2 ^ 64"
  have "0 \<le> n * p * q" using assms by simp
  then have L: "0 \<le> ?L" using assms by (simp add: pos_imp_zdiv_nonneg_iff)
  from token_a_back [OF assms(1,3,4) L liquidity_a_bound [OF assms(2-4)], of True]
  show ?thesis using getLiquidityFromTokenA_eq [OF assms] L by blast
qed

lemma liquidity_of_b:
  assumes "math_util_ok mu" "0 \<le> n" "p < q"
  shows "\<exists>L. getLiquidityFromTokenB mu n p q False = Inr L \<and> 0 \<le> L \<and>
    (\<exists>b. getTokenBFromLiquidity mu L p q True = Inr b \<and> b \<le> n + 1)"
proof -
  let ?L = "rdiv False (n * 2 ^ 64) (q - p)"
  have d: "0 < q - p" using assms by simp
  have L: "0 \<le> ?L" using assms d by (intro rdiv_nonneg) auto
  have "?L * (q - p) \<le> n * 2 ^ 64" by (rule rdiv_bounds(1) [OF d])
  from token_b_back [OF assms(1,3) L this, of True]
  show ?thesis using getLiquidityFromTokenB_eq [OF assms, of False] L by (simp del: power_numeral) blast
qed

lemma input_liquidity:
  assumes mu: "math_util_ok mu" and spl: "spl_token_ok spl" and n: "0 \<le> ip_inputTokenAmount param"
    and p: "0 < ip_sqrtPrice param"
    and b: "checkTickInBounds (ip_tickLowerIndex param)" "checkTickInBounds (ip_tickUpperIndex param)"
  defines "ctx \<equiv> ip_tokenExtensionCtx param"
  shows "case getLiquidityFromInputToken mu spl param of Inl e \<Rightarrow> e \<noteq> NonTermination
    | Inr L \<Rightarrow> 0 \<le> L \<and> (L \<noteq> 0 \<longrightarrow> (\<exists>est_a est_b.
        inc_getTokenEstimatesFromLiquidity mu (by_liquidity param L) = Inr (est_a, est_b) \<and>
        (if ip_tokenMintA param = ip_inputTokenMint param
         then est_a \<le> net_input spl param (tec_tokenMintWithProgramA ctx)
         else est_b \<le> net_input spl param (tec_tokenMintWithProgramB ctx) + 1)))"
proof -
  let ?l = "tickIndexToSqrtPriceX64 (ip_tickLowerIndex param)" and ?u = "tickIndexToSqrtPriceX64 (ip_tickUpperIndex param)"
  let ?p = "ip_sqrtPrice param" and ?status = "getStrictPositionStatus (ip_sqrtPrice param) (ip_tickLowerIndex param) (ip_tickUpperIndex param)"
  have pos: "0 < ?l" "0 < ?u" using price_in_bounds(1) [OF b(1)] price_in_bounds(1) [OF b(2)] by (simp_all add: MIN_SQRT_PRICE_def)
  have nA: "0 \<le> net_input spl param mint" for mint
    unfolding net_input_def by (rule excluded_facts(1) [OF spl n])
  have inrange: "?l < ?p" "?p < ?u" if "?status = InRange"
    using that by (auto simp: getStrictPositionStatus_def Let_def split: if_splits)
  have est: "\<exists>x y. inc_getTokenEstimatesFromLiquidity mu (by_liquidity param L) = Inr (x, y)" if L0: "0 < L" for L
  proof -
    obtain x y where "inc_getTokenEstimatesFromLiquidity mu (by_liquidity param L) = Inr (x, y)"
      by (rule estimates [OF mu, of "by_liquidity param L"]) (use L0 p b in simp_all)
    then show ?thesis by blast
  qed
  show ?thesis
  proof (cases "ip_tickLowerIndex param < ip_tickUpperIndex param \<and> ip_inputTokenAmount param \<noteq> 0")
    case False
    then show ?thesis by (auto simp: getLiquidityFromInputToken_def Let_def)
  next
    case True
    have lu: "?l < ?u"
      using True b by (subst tick_price.price_less_iff) (auto simp: checkTickInBounds_def MIN_TICK_INDEX_def MAX_TICK_INDEX_def)
    note A = liquidity_of_a [OF mu nA [of "tec_tokenMintWithProgramA ctx"]]
    note B = liquidity_of_b [OF mu nA [of "tec_tokenMintWithProgramB ctx"]]
    show ?thesis
    proof (cases ?status)
      case BelowRange
      obtain L a where L: "getLiquidityFromTokenA mu (net_input spl param (tec_tokenMintWithProgramA ctx)) ?l ?u False = Inr L"
        "0 \<le> L" "getTokenAFromLiquidity mu L ?l ?u True = Inr a" "a \<le> net_input spl param (tec_tokenMintWithProgramA ctx)"
        using A [OF pos(1) lu] by blast
      have "getLiquidityFromInputToken mu spl param = Inr (if ip_tokenMintA param = ip_inputTokenMint param then L else 0)"
        using True BelowRange L(1) by (simp add: getLiquidityFromInputToken_def Let_def net_input_def ctx_def)
      moreover have "L \<noteq> 0 \<Longrightarrow> \<exists>y. inc_getTokenEstimatesFromLiquidity mu (by_liquidity param L) = Inr (a, y)"
        using est [of L] L(2,3) BelowRange by (auto simp: inc_getTokenEstimatesFromLiquidity_def Let_def bindE_eq_Inr)
      ultimately show ?thesis using L by auto
    next
      case AboveRange
      obtain L a where L: "getLiquidityFromTokenB mu (net_input spl param (tec_tokenMintWithProgramB ctx)) ?l ?u False = Inr L"
        "0 \<le> L" "getTokenBFromLiquidity mu L ?l ?u True = Inr a" "a \<le> net_input spl param (tec_tokenMintWithProgramB ctx) + 1"
        using B [OF lu] by blast
      have "getLiquidityFromInputToken mu spl param = Inr (if ip_tokenMintA param = ip_inputTokenMint param then 0 else L)"
        using True AboveRange L(1) by (simp add: getLiquidityFromInputToken_def Let_def net_input_def ctx_def)
      moreover have "L \<noteq> 0 \<Longrightarrow> \<exists>x. inc_getTokenEstimatesFromLiquidity mu (by_liquidity param L) = Inr (x, a)"
        using est [of L] L(2,3) AboveRange by (auto simp: inc_getTokenEstimatesFromLiquidity_def Let_def bindE_eq_Inr)
      ultimately show ?thesis using L by auto
    next
      case InRange
      note r = inrange [OF InRange]
      show ?thesis
      proof (cases "ip_tokenMintA param = ip_inputTokenMint param")
        case tokA: True
        obtain L a where L: "getLiquidityFromTokenA mu (net_input spl param (tec_tokenMintWithProgramA ctx)) ?p ?u False = Inr L"
          "0 \<le> L" "getTokenAFromLiquidity mu L ?p ?u True = Inr a" "a \<le> net_input spl param (tec_tokenMintWithProgramA ctx)"
          using A [OF p r(2)] by blast
        have "getLiquidityFromInputToken mu spl param = Inr L"
          using True InRange tokA L(1) by (simp add: getLiquidityFromInputToken_def Let_def net_input_def ctx_def)
        moreover have "L \<noteq> 0 \<Longrightarrow> \<exists>y. inc_getTokenEstimatesFromLiquidity mu (by_liquidity param L) = Inr (a, y)"
          using est [of L] L(2,3) InRange by (auto simp: inc_getTokenEstimatesFromLiquidity_def Let_def bindE_eq_Inr)
        ultimately show ?thesis using L tokA by auto
      next
        case tokB: False
        obtain L a where L: "getLiquidityFromTokenB mu (net_input spl param (tec_tokenMintWithProgramB ctx)) ?l ?p False = Inr L"
          "0 \<le> L" "getTokenBFromLiquidity mu L ?l ?p True = Inr a" "a \<le> net_input spl param (tec_tokenMintWithProgramB ctx) + 1"
          using B [OF r(1)] by blast
        have "getLiquidityFromInputToken mu spl param = Inr L"
          using True InRange tokB L(1) by (simp add: getLiquidityFromInputToken_def Let_def net_input_def ctx_def)
        moreover have "L \<noteq> 0 \<Longrightarrow> \<exists>x. inc_getTokenEstimatesFromLiquidity mu (by_liquidity param L) = Inr (x, a)"
          using est [of L] L(2,3) InRange by (auto simp: inc_getTokenEstimatesFromLiquidity_def Let_def bindE_eq_Inr)
        ultimately show ?thesis using L tokB by auto
      qed
    qed
  qed
qed

text \<open>What a deposit quote by input token promises.\<close>

definition deposit_promise :: "'c spl_token \<Rightarrow> IncreaseLiquidityQuoteParam \<Rightarrow> IncreaseLiquidityQuote \<Rightarrow> bool" where
  "deposit_promise spl param q \<longleftrightarrow>
     0 \<le> ilq_liquidityAmount q \<and>
     0 \<le> ilq_tokenEstA q \<and> ilq_tokenEstA q \<le> ilq_tokenMaxA q \<and>
     0 \<le> ilq_tokenEstB q \<and> ilq_tokenEstB q \<le> ilq_tokenMaxB q \<and>
     (if ip_tokenMintA param = ip_inputTokenMint param
      then ilq_tokenEstA q \<le> ip_inputTokenAmount param
      else tfe_amount (calculateTransferFeeExcludedAmount spl (ilq_tokenEstB q)
             (tec_tokenMintWithProgramB (ip_tokenExtensionCtx param)) (tec_currentEpoch (ip_tokenExtensionCtx param)))
           \<le> net_input spl param (tec_tokenMintWithProgramB (ip_tokenExtensionCtx param)) + 1)"

lemma zero_deposit_promise:
  assumes "spl_token_ok spl" "0 \<le> ip_inputTokenAmount param"
  shows "deposit_promise spl param zero_increase_quote"
proof -
  have "tfe_amount (calculateTransferFeeExcludedAmount spl 0 mint epoch) \<le> 0" for mint epoch
    using excluded_facts [OF assms(1), of 0 mint epoch] by linarith
  moreover have "0 \<le> net_input spl param mint" for mint
    unfolding net_input_def by (rule excluded_facts(1) [OF assms])
  ultimately have "tfe_amount (calculateTransferFeeExcludedAmount spl 0 mint epoch) \<le> net_input spl param m + 1" for mint m epoch
    by (meson add_increasing2 order.trans zero_le_one)
  with assms(2) show ?thesis by (simp add: deposit_promise_def zero_increase_quote_def)
qed

lemma liquidity_deposit_promise:
  assumes "math_util_ok mu" "spl_token_ok spl" "0 \<le> ip_inputTokenAmount param" "0 < ip_sqrtPrice param"
    and b: "checkTickInBounds (ip_tickLowerIndex param)" "checkTickInBounds (ip_tickUpperIndex param)"
    and L: "0 < L" and est: "inc_getTokenEstimatesFromLiquidity mu (by_liquidity param L) = Inr (a, b')"
    and le: "if ip_tokenMintA param = ip_inputTokenMint param
      then a \<le> net_input spl param (tec_tokenMintWithProgramA (ip_tokenExtensionCtx param))
      else b' \<le> net_input spl param (tec_tokenMintWithProgramB (ip_tokenExtensionCtx param)) + 1"
  shows "case increaseLiquidityQuoteByLiquidityWithParams mu dec spl (by_liquidity param L) of
    Inl e \<Rightarrow> e \<noteq> NonTermination | Inr q \<Rightarrow> deposit_promise spl param q"
proof -
  define ctx where "ctx = ip_tokenExtensionCtx param"
  define f where "f = increaseLiquidityQuoteByLiquidityWithParams mu dec spl (by_liquidity param L)"
  have nonneg: "0 \<le> a" "0 \<le> b'"
    by (rule estimates [OF assms(1), of "by_liquidity param L"]; use est L assms(4) b in simp)+
  have dep: "case f of Inl e \<Rightarrow> e \<noteq> NonTermination
    | Inr q \<Rightarrow> ilq_liquidityAmount q = L \<and>
        (\<exists>fa fb. calculateTransferFeeIncludedAmount spl a (tec_tokenMintWithProgramA ctx) (tec_currentEpoch ctx)
             = Inr \<lparr>tfi_amount = ilq_tokenEstA q, tfi_fee = fa\<rparr> \<and>
           calculateTransferFeeIncludedAmount spl b' (tec_tokenMintWithProgramB ctx) (tec_currentEpoch ctx)
             = Inr \<lparr>tfi_amount = ilq_tokenEstB q, tfi_fee = fb\<rparr>) \<and>
        0 \<le> ilq_tokenEstA q \<and> ilq_tokenEstA q \<le> ilq_tokenMaxA q \<and>
        0 \<le> ilq_tokenEstB q \<and> ilq_tokenEstB q \<le> ilq_tokenMaxB q"
    using deposit_by_liquidity [OF assms(1,2) _ _ _ _ est, of dec] L assms(4) b unfolding f_def ctx_def
    by (simp cong: sum.case_cong)
  show ?thesis
  proof (cases f)
    case (Inl e)
    with dep show ?thesis by (simp add: f_def)
  next
    case (Inr q)
    with dep obtain fa fb where q: "0 \<le> ilq_tokenEstA q" "ilq_tokenEstA q \<le> ilq_tokenMaxA q"
      "0 \<le> ilq_tokenEstB q" "ilq_tokenEstB q \<le> ilq_tokenMaxB q" "ilq_liquidityAmount q = L"
      and ia: "calculateTransferFeeIncludedAmount spl a (tec_tokenMintWithProgramA ctx) (tec_currentEpoch ctx)
         = Inr \<lparr>tfi_amount = ilq_tokenEstA q, tfi_fee = fa\<rparr>"
      and ib: "calculateTransferFeeIncludedAmount spl b' (tec_tokenMintWithProgramB ctx) (tec_currentEpoch ctx)
         = Inr \<lparr>tfi_amount = ilq_tokenEstB q, tfi_fee = fb\<rparr>"
      by auto
    have "ilq_tokenEstA q \<le> ip_inputTokenAmount param" if "a \<le> net_input spl param (tec_tokenMintWithProgramA ctx)"
      using included_le [OF assms(2) nonneg(1) assms(3) that [unfolded net_input_def, folded ctx_def] ia] by simp
    moreover have "tfe_amount (calculateTransferFeeExcludedAmount spl (ilq_tokenEstB q)
        (tec_tokenMintWithProgramB ctx) (tec_currentEpoch ctx)) = b'"
      using included_facts [OF assms(2) nonneg(2), of "tec_tokenMintWithProgramB ctx" "tec_currentEpoch ctx"] ib by simp
    ultimately have "deposit_promise spl param q"
      using q L le unfolding deposit_promise_def ctx_def by (auto split: if_splits)
    with Inr show ?thesis by (simp add: f_def)
  qed
qed

subsection \<open>Properties\<close>

text \<open>
  C23: a deposit quote by input token stays within the input. The estimate of the specified
  token, transfer fee included, is at most the specified amount for token A; for token B what
  is left after the fee is at most what is left of the input, plus one unit of rounding. The
  estimates of both tokens are non-negative and below the maxima, whatever the slippage.
\<close>

theorem deposit_within_input:
  assumes "math_util_ok mu" "spl_token_ok spl" "0 \<le> ip_inputTokenAmount param" "0 < ip_sqrtPrice param"
  shows "case increaseLiquidityQuoteByInputTokenWithParamsUsingPriceSlippage mu dec spl param of
      Inl e \<Rightarrow> e \<noteq> NonTermination | Inr q \<Rightarrow> deposit_promise spl param q"
proof (cases "checkTickInBounds (ip_tickLowerIndex param) \<and> checkTickInBounds (ip_tickUpperIndex param) \<and>
    (ip_inputTokenMint param = ip_tokenMintA param \<or> ip_inputTokenMint param = ip_tokenMintB param)")
  case False
  then show ?thesis by (auto simp: increaseLiquidityQuoteByInputTokenWithParamsUsingPriceSlippage_def)
next
  case True
  then have b: "checkTickInBounds (ip_tickLowerIndex param)" "checkTickInBounds (ip_tickUpperIndex param)" by simp_all
  define f where "f = increaseLiquidityQuoteByInputTokenWithParamsUsingPriceSlippage mu dec spl param"
  have f: "f = bindE (getLiquidityFromInputToken mu spl param) (\<lambda>L. if L = 0 then Inr zero_increase_quote
      else increaseLiquidityQuoteByLiquidityWithParams mu dec spl (by_liquidity param L))"
    using True by (simp add: f_def increaseLiquidityQuoteByInputTokenWithParamsUsingPriceSlippage_def)
  note input = input_liquidity [OF assms b]
  show ?thesis
  proof (cases "getLiquidityFromInputToken mu spl param")
    case (Inl e)
    with input f show ?thesis by (simp add: f_def)
  next
    case (Inr L)
    show ?thesis
    proof (cases "L = 0")
      case True
      with f Inr zero_deposit_promise [OF assms(2,3)] show ?thesis by (simp add: f_def)
    next
      case False
      with input Inr obtain x y where "0 < L" "inc_getTokenEstimatesFromLiquidity mu (by_liquidity param L) = Inr (x, y)"
        "if ip_tokenMintA param = ip_inputTokenMint param
         then x \<le> net_input spl param (tec_tokenMintWithProgramA (ip_tokenExtensionCtx param))
         else y \<le> net_input spl param (tec_tokenMintWithProgramB (ip_tokenExtensionCtx param)) + 1"
        by auto
      from liquidity_deposit_promise [OF assms b this, of dec] f Inr False show ?thesis by (simp add: f_def)
    qed
  qed
qed

text \<open>A range above the example price, and a deposit of token A into it.\<close>

definition example_deposit :: IncreaseLiquidityQuoteParam where
  "example_deposit = \<lparr>ip_inputTokenAmount = 1000, ip_inputTokenMint = ''mintA'', ip_tokenMintA = ''mintA'',
     ip_tokenMintB = ''mintB'', ip_tickCurrentIndex = 0, ip_sqrtPrice = 2 ^ 64, ip_tickLowerIndex = 64,
     ip_tickUpperIndex = 128,
     ip_tokenExtensionCtx = \<lparr>tec_currentEpoch = 0, tec_tokenMintWithProgramA = example_mint ''mintA'' ''token2022'',
       tec_tokenMintWithProgramB = example_mint ''mintB'' ''token''\<rparr>,
     ip_slippageTolerance = \<lparr>numerator = 1, denominator = 100\<rparr>\<rparr>"

theorem deposit_within_input_witness:
  "\<forall>dec :: int decimal_ops.
     case increaseLiquidityQuoteByInputTokenWithParamsUsingPriceSlippage math_util_ref dec spl_token_ref example_deposit of
       Inl e \<Rightarrow> e \<noteq> NonTermination
     | Inr q \<Rightarrow> ilq_tokenEstA q \<le> 1000 \<and> ilq_tokenEstB q \<le> ilq_tokenMaxB q"
proof
  fix dec :: "int decimal_ops"
  show "case increaseLiquidityQuoteByInputTokenWithParamsUsingPriceSlippage math_util_ref dec spl_token_ref example_deposit of
      Inl e \<Rightarrow> e \<noteq> NonTermination
    | Inr q \<Rightarrow> ilq_tokenEstA q \<le> 1000 \<and> ilq_tokenEstB q \<le> ilq_tokenMaxB q"
    using deposit_within_input [OF math_util_ref_ok spl_token_ref_ok, of example_deposit dec]
    by (auto simp: example_deposit_def deposit_promise_def split: sum.splits)
qed

text \<open>
  C22: a withdrawal quote always returns on a valid range, and its bounds enclose: the minimum
  of each token is non-negative and at most the estimate, with slippage on the amounts as with
  slippage on the price.
\<close>

lemma decrease_quote_bounds:
  fixes params :: DecreaseLiquidityQuoteParam
  assumes "spl_token_ok spl" "0 \<le> ma" "ma \<le> a" "0 \<le> mb" "mb \<le> b"
  defines "q \<equiv> decrease_quote spl params ma mb a b"
  shows "0 \<le> dlq_tokenMinA q \<and> dlq_tokenMinA q \<le> dlq_tokenEstA q \<and> dlq_tokenEstA q \<le> a \<and>
    0 \<le> dlq_tokenMinB q \<and> dlq_tokenMinB q \<le> dlq_tokenEstB q \<and> dlq_tokenEstB q \<le> b"
  using excluded_mono [OF assms(1,2,3)] excluded_mono [OF assms(1,4,5)]
    excluded_facts [OF assms(1,2)] excluded_facts [OF assms(1,4)]
    excluded_facts(2,3) [OF assms(1), of a] excluded_facts(2,3) [OF assms(1), of b] assms(2-5)
  by (auto simp: q_def decrease_quote_def Let_def) (smt (verit))+

lemma adjust_down:
  assumes "0 \<le> x" "0 \<le> numerator slippage" "0 < denominator slippage"
  shows "\<exists>y. pu_adjustForSlippage x slippage False = Inr y \<and> 0 \<le> y \<and> y \<le> x"
proof -
  define n d where "n = numerator slippage" and "d = denominator slippage"
  have nd: "0 \<le> n" "0 < d" using assms by (simp_all add: n_def d_def)
  have "x * d div (d + n) \<le> x * (d + n) div (d + n)" using nd assms by (intro zdiv_mono1 mult_left_mono) auto
  then have "x * d div (d + n) \<le> x" "0 \<le> x * d div (d + n)" using nd assms by (simp_all add: pos_imp_zdiv_nonneg_iff)
  then show ?thesis using nd assms by (simp add: pu_adjustForSlippage_def n_def [symmetric] d_def [symmetric] bn_nonneg)
qed

lemma withdrawal:
  assumes mu: "math_util_ok mu" and spl: "spl_token_ok spl" and L: "0 < lp_liquidity params" and p: "0 < lp_sqrtPrice params"
    and b: "checkTickInBounds (lp_tickLowerIndex params)" "checkTickInBounds (lp_tickUpperIndex params)"
      "checkTickInBounds (lp_tickCurrentIndex params)"
    and sl: "0 \<le> numerator (lp_slippageTolerance params)" "0 < denominator (lp_slippageTolerance params)"
    and est: "dec_getTokenEstimatesFromLiquidity mu params = Inr (a, a')"
  shows "\<exists>q. decreaseLiquidityQuoteByLiquidityWithParams mu spl params = Inr q \<and>
      0 \<le> dlq_tokenMinA q \<and> dlq_tokenMinA q \<le> dlq_tokenEstA q \<and> dlq_tokenEstA q \<le> a \<and>
      0 \<le> dlq_tokenMinB q \<and> dlq_tokenMinB q \<le> dlq_tokenEstB q \<and> dlq_tokenEstB q \<le> a'"
    and "\<exists>q. decreaseLiquidityQuoteByLiquidityWithParamsUsingPriceSlippage mu dec spl params = Inr q \<and>
      0 \<le> dlq_tokenMinA q \<and> dlq_tokenMinA q \<le> dlq_tokenEstA q \<and> dlq_tokenEstA q \<le> a \<and>
      0 \<le> dlq_tokenMinB q \<and> dlq_tokenMinB q \<le> dlq_tokenEstB q \<and> dlq_tokenEstB q \<le> a'"
proof -
  have nonneg: "0 \<le> a" "0 \<le> a'"
    by (rule estimates [OF mu L p b(1,2)]; use est in simp)+
  obtain ma mb where "pu_adjustForSlippage a (lp_slippageTolerance params) False = Inr ma" "0 \<le> ma" "ma \<le> a"
    "pu_adjustForSlippage a' (lp_slippageTolerance params) False = Inr mb" "0 \<le> mb" "mb \<le> a'"
    using adjust_down [OF nonneg(1) sl] adjust_down [OF nonneg(2) sl] by blast
  then show "\<exists>q. decreaseLiquidityQuoteByLiquidityWithParams mu spl params = Inr q \<and>
      0 \<le> dlq_tokenMinA q \<and> dlq_tokenMinA q \<le> dlq_tokenEstA q \<and> dlq_tokenEstA q \<le> a \<and>
      0 \<le> dlq_tokenMinB q \<and> dlq_tokenMinB q \<le> dlq_tokenEstB q \<and> dlq_tokenEstB q \<le> a'"
    using L b est decrease_quote_bounds [OF spl, of ma a mb a' params]
    by (auto simp: decreaseLiquidityQuoteByLiquidityWithParams_def)
  obtain l lt u ut where slb: "getSlippageBoundForSqrtPrice dec (lp_sqrtPrice params) (lp_slippageTolerance params) = Inr ((l, lt), (u, ut))"
    "MIN_SQRT_PRICE \<le> l" "MIN_SQRT_PRICE \<le> u" by (rule slippage_bound_cases)
  obtain a1 b1 where e1: "dec_getTokenEstimatesFromLiquidity mu (params\<lparr>lp_sqrtPrice := l, lp_tickCurrentIndex := lt\<rparr>) = Inr (a1, b1)"
    "0 \<le> a1" "0 \<le> b1"
    by (rule estimates [OF mu, of "params\<lparr>lp_sqrtPrice := l, lp_tickCurrentIndex := lt\<rparr>"])
      (use L b slb(2) in \<open>simp_all add: MIN_SQRT_PRICE_def\<close>)
  obtain a2 b2 where e2: "dec_getTokenEstimatesFromLiquidity mu (params\<lparr>lp_sqrtPrice := u, lp_tickCurrentIndex := ut\<rparr>) = Inr (a2, b2)"
    "0 \<le> a2" "0 \<le> b2"
    by (rule estimates [OF mu, of "params\<lparr>lp_sqrtPrice := u, lp_tickCurrentIndex := ut\<rparr>"])
      (use L b slb(3) in \<open>simp_all add: MIN_SQRT_PRICE_def\<close>)
  have m: "0 \<le> min (min a a1) a2" "min (min a a1) a2 \<le> a" "0 \<le> min (min a' b1) b2" "min (min a' b1) b2 \<le> a'"
    using nonneg e1 e2 by auto
  show "\<exists>q. decreaseLiquidityQuoteByLiquidityWithParamsUsingPriceSlippage mu dec spl params = Inr q \<and>
      0 \<le> dlq_tokenMinA q \<and> dlq_tokenMinA q \<le> dlq_tokenEstA q \<and> dlq_tokenEstA q \<le> a \<and>
      0 \<le> dlq_tokenMinB q \<and> dlq_tokenMinB q \<le> dlq_tokenEstB q \<and> dlq_tokenEstB q \<le> a'"
    using L decrease_quote_bounds [OF spl m, of params]
    by (simp add: decreaseLiquidityQuoteByLiquidityWithParamsUsingPriceSlippage_def est slb(1) e1(1) e2(1) Let_def)
qed



text \<open>
  depositing and withdrawing gains nothing: at the same price, the estimates of a
  withdrawal, transfer fee taken off, are at most the estimates of the deposit of the same
  liquidity, transfer fee included.
\<close>

theorem withdrawal_at_most_deposit:
  assumes "math_util_ok mu" "spl_token_ok spl" "0 < lp_liquidity params" "0 < lp_sqrtPrice params"
    and "checkTickInBounds (lp_tickLowerIndex params)" "checkTickInBounds (lp_tickUpperIndex params)"
      "checkTickInBounds (lp_tickCurrentIndex params)"
    and "0 \<le> numerator (lp_slippageTolerance params)" "0 < denominator (lp_slippageTolerance params)"
  shows "\<exists>w. decreaseLiquidityQuoteByLiquidityWithParams mu spl params = Inr w \<and>
    (case increaseLiquidityQuoteByLiquidityWithParams mu dec spl params of
       Inl e \<Rightarrow> e \<noteq> NonTermination
     | Inr d \<Rightarrow> dlq_tokenEstA w \<le> ilq_tokenEstA d \<and> dlq_tokenEstB w \<le> ilq_tokenEstB d)"
proof -
  obtain a b a' b' where e: "inc_getTokenEstimatesFromLiquidity mu params = Inr (a, b)"
    "dec_getTokenEstimatesFromLiquidity mu params = Inr (a', b')" "0 \<le> a'" "a' \<le> a" "0 \<le> b'" "b' \<le> b"
    by (rule estimates [OF assms(1,3-6)])
  obtain w where w: "decreaseLiquidityQuoteByLiquidityWithParams mu spl params = Inr w"
    "dlq_tokenEstA w \<le> a'" "dlq_tokenEstB w \<le> b'"
    using withdrawal(1) [OF assms e(2)] by blast
  have more: "x \<le> tfi_amount r" if "calculateTransferFeeIncludedAmount spl x mint epoch = Inr r" "0 \<le> x" for x mint epoch r
    using included_facts [OF assms(2) that(2), of mint epoch] that(1) by simp
  show ?thesis
  proof (cases "increaseLiquidityQuoteByLiquidityWithParams mu dec spl params")
    case (Inl err)
    with w deposit_by_liquidity [OF assms(1-6) e(1), of dec] show ?thesis by simp
  next
    case (Inr d)
    with deposit_by_liquidity [OF assms(1-6) e(1), of dec] have "a \<le> ilq_tokenEstA d" "b \<le> ilq_tokenEstB d"
      using e(3-6) by (auto dest!: more)
    with Inr w e(3-6) show ?thesis by simp
  qed
qed

theorem withdrawal_at_most_deposit_witness:
  "\<exists>w. decreaseLiquidityQuoteByLiquidityWithParams math_util_ref spl_token_ref
      (by_liquidity example_deposit (2 ^ 70)) = Inr w"
  using withdrawal_at_most_deposit [OF math_util_ref_ok spl_token_ref_ok, of "by_liquidity example_deposit (2 ^ 70)"]
  by (fastforce simp: example_deposit_def checkTickInBounds_def MIN_TICK_INDEX_def MAX_TICK_INDEX_def)

end
