(* ===== verification/Collect_Quotes.thy ===== *)
theory Collect_Quotes
  imports Token_Extension Bit_Math
begin

text \<open>
  Quotes on the fees and rewards a position can collect
  (\<^verbatim>\<open>sdk/src/quotes/public/collect-fees-quote.ts\<close> and \<^verbatim>\<open>collect-rewards-quote.ts\<close>). Growth
  counters are 128-bit and wrap around: a tick stores the growth on its far side, and the
  growth inside a range is the global one less what is below and above, modulo \<open>2 ^ 128\<close>. The
  theorems relate the fee quote to the fees that accrued while the price was in the range.
\<close>

record CollectFeesQuoteParam =
  cf_whirlpool :: WhirlpoolData
  cf_position :: PositionData
  cf_tickLower :: TickData
  cf_tickUpper :: TickData
  cf_tokenExtensionCtx :: TokenExtensionContextForPool

record CollectFeesQuote =
  cfq_feeOwedA :: int
  cfq_feeOwedB :: int
  cfq_deductedFromFeeOwedA :: int
  cfq_deductedFromFeeOwedB :: int

text \<open>The growth below, above and inside, and the fees owed, of one token.\<close>

definition fee_below :: "math_util \<Rightarrow> int \<Rightarrow> int \<Rightarrow> int \<Rightarrow> int \<Rightarrow> int res" where
  "fee_below mu tickCurrentIndex tickLowerIndex global lowerOutside =
     (if tickCurrentIndex < tickLowerIndex then subUnderflowU128 mu global lowerOutside else Inr lowerOutside)"

definition fee_above :: "math_util \<Rightarrow> int \<Rightarrow> int \<Rightarrow> int \<Rightarrow> int \<Rightarrow> int res" where
  "fee_above mu tickCurrentIndex tickUpperIndex global upperOutside =
     (if tickCurrentIndex < tickUpperIndex then Inr upperOutside else subUnderflowU128 mu global upperOutside)"

definition fee_inside :: "math_util \<Rightarrow> int \<Rightarrow> int \<Rightarrow> int \<Rightarrow> int res" where
  "fee_inside mu global growthBelow growthAbove =
     bindE (subUnderflowU128 mu global growthBelow) (\<lambda>d. subUnderflowU128 mu d growthAbove)"

definition fee_delta :: "math_util \<Rightarrow> int \<Rightarrow> int \<Rightarrow> int \<Rightarrow> int res" where
  "fee_delta mu inside checkpoint liquidity =
     bindE (subUnderflowU128 mu inside checkpoint) (\<lambda>d. bn_shrn (d * liquidity) 64)"

definition collectFeesQuote ::
    "math_util \<Rightarrow> 'c spl_token \<Rightarrow> CollectFeesQuoteParam \<Rightarrow> CollectFeesQuote res" where
  "collectFeesQuote mu spl param =
     (let whirlpool = cf_whirlpool param;
          position = cf_position param;
          lower = cf_tickLower param;
          upper = cf_tickUpper param;
          ctx = cf_tokenExtensionCtx param;
          cur = wp_tickCurrentIndex whirlpool;
          globalA = wp_feeGrowthGlobalA whirlpool;
          globalB = wp_feeGrowthGlobalB whirlpool in
      bindE (fee_below mu cur (pos_tickLowerIndex position) globalA (tick_feeGrowthOutsideA lower)) (\<lambda>belowA.
      bindE (fee_below mu cur (pos_tickLowerIndex position) globalB (tick_feeGrowthOutsideB lower)) (\<lambda>belowB.
      bindE (fee_above mu cur (pos_tickUpperIndex position) globalA (tick_feeGrowthOutsideA upper)) (\<lambda>aboveA.
      bindE (fee_above mu cur (pos_tickUpperIndex position) globalB (tick_feeGrowthOutsideB upper)) (\<lambda>aboveB.
      bindE (fee_inside mu globalA belowA aboveA) (\<lambda>insideA.
      bindE (fee_inside mu globalB belowB aboveB) (\<lambda>insideB.
      bindE (fee_delta mu insideA (pos_feeGrowthCheckpointA position) (pos_liquidity position)) (\<lambda>feeOwedADelta.
      bindE (fee_delta mu insideB (pos_feeGrowthCheckpointB position) (pos_liquidity position)) (\<lambda>feeOwedBDelta.
      let excludedA = calculateTransferFeeExcludedAmount spl (pos_feeOwedA position + feeOwedADelta)
            (tec_tokenMintWithProgramA ctx) (tec_currentEpoch ctx);
          excludedB = calculateTransferFeeExcludedAmount spl (pos_feeOwedB position + feeOwedBDelta)
            (tec_tokenMintWithProgramB ctx) (tec_currentEpoch ctx) in
      Inr \<lparr>cfq_feeOwedA = tfe_amount excludedA, cfq_feeOwedB = tfe_amount excludedB,
           cfq_deductedFromFeeOwedA = tfe_fee excludedA, cfq_deductedFromFeeOwedB = tfe_fee excludedB\<rparr>)))))))))"

subsection \<open>Rewards\<close>

text \<open>
  \<open>cr_now\<close> is the time stamp the caller gives, or the clock. The three results of the loop are
  options, \<^verbatim>\<open>undefined\<close> for a reward that is not initialized.
\<close>

record CollectRewardsQuoteParam =
  cr_whirlpool :: WhirlpoolData
  cr_position :: PositionData
  cr_tickLower :: TickData
  cr_tickUpper :: TickData
  cr_currentEpoch :: int
  cr_rewardTokenMintsWithProgram :: "mint_info option list"
  cr_timeStampInSeconds :: "int option"

record CollectRewardsQuote =
  crq_rewardOwed :: "int option list"
  crq_deductedFromRewardOwed :: "int option list"

definition get_or_throw :: "js_error \<Rightarrow> 'a list \<Rightarrow> nat \<Rightarrow> 'a res" where
  "get_or_throw e xs i = (if i < length xs then Inr (xs ! i) else Inl e)"

text \<open>One round of the loop, for a reward that is initialized: the amount owed, before transfer fees.\<close>

definition reward_amount ::
    "math_util \<Rightarrow> CollectRewardsQuoteParam \<Rightarrow> int \<Rightarrow> WhirlpoolRewardInfoData \<Rightarrow> nat \<Rightarrow> int res" where
  "reward_amount mu param timestampDelta rewardInfo i =
     (let whirlpool = cr_whirlpool param;
          position = cr_position param;
          lower = cr_tickLower param;
          upper = cr_tickUpper param;
          cur = wp_tickCurrentIndex whirlpool in
      bindE (if wp_liquidity whirlpool \<noteq> 0
             then bindE (mulDiv timestampDelta (wri_emissionsPerSecondX64 rewardInfo) (wp_liquidity whirlpool) 128)
               (\<lambda>rewardGrowthDelta. Inr (wri_growthGlobalX64 rewardInfo + rewardGrowthDelta))
             else Inr (wri_growthGlobalX64 rewardInfo)) (\<lambda>global.
      bindE (if tick_initialized lower
             then bindE (get_or_throw TypeError (tick_rewardGrowthsOutside lower) i) (\<lambda>outside.
               if cur < pos_tickLowerIndex position then subUnderflowU128 mu global outside else Inr outside)
             else Inr global) (\<lambda>growthBelow.
      bindE (if tick_initialized upper
             then bindE (get_or_throw TypeError (tick_rewardGrowthsOutside upper) i) (\<lambda>outside.
               if cur < pos_tickUpperIndex position then Inr outside else subUnderflowU128 mu global outside)
             else Inr 0) (\<lambda>growthAbove.
      bindE (fee_inside mu global growthBelow growthAbove) (\<lambda>inside.
      bindE (get_or_throw TypeError (pos_rewardInfos position) i) (\<lambda>positionRewardInfo.
      bindE (bn_shln (pri_amountOwed positionRewardInfo) 64) (\<lambda>amountOwedX64.
      bindE (subUnderflowU128 mu inside (pri_growthInsideCheckpoint positionRewardInfo)) (\<lambda>d.
      bn_shrn (amountOwedX64 + d * pos_liquidity position) 64))))))))"

text \<open>\<open>reward_loop\<close> takes the rounds from \<open>i\<close> on; \<open>n\<close> are left.\<close>

primrec reward_loop ::
    "math_util \<Rightarrow> 'c spl_token \<Rightarrow> CollectRewardsQuoteParam \<Rightarrow> int \<Rightarrow> nat \<Rightarrow> nat \<Rightarrow>
     (int option \<times> int option) list res" where
  "reward_loop mu spl param timestampDelta i 0 = Inr []"
| "reward_loop mu spl param timestampDelta i (Suc n) =
     bindE (get_or_throw InvariantError (wp_rewardInfos (cr_whirlpool param)) i) (\<lambda>rewardInfo.
     bindE (if \<not> isRewardInitialized rewardInfo then Inr (None, None)
            else
              bindE (reward_amount mu param timestampDelta rewardInfo i) (\<lambda>amountOwed.
              bindE (get_or_throw TypeError (cr_rewardTokenMintsWithProgram param) i) (\<lambda>mint.
              case mint of
                None \<Rightarrow> Inl TypeError
              | Some m \<Rightarrow>
                  let excluded = calculateTransferFeeExcludedAmount spl amountOwed m (cr_currentEpoch param) in
                  Inr (Some (tfe_amount excluded), Some (tfe_fee excluded))))) (\<lambda>owed.
     bindE (reward_loop mu spl param timestampDelta (Suc i) n) (\<lambda>rest. Inr (owed # rest))))"

definition collectRewardsQuote ::
    "math_util \<Rightarrow> 'c spl_token \<Rightarrow> int \<Rightarrow> CollectRewardsQuoteParam \<Rightarrow> CollectRewardsQuote res" where
  "collectRewardsQuote mu spl nowInMilliseconds param =
     bindE (case cr_timeStampInSeconds param of
        Some t \<Rightarrow> Inr t
      | None \<Rightarrow> bn_div nowInMilliseconds 1000) (\<lambda>currTimestampInSeconds.
     let timestampDelta = currTimestampInSeconds - wp_rewardLastUpdatedTimestamp (cr_whirlpool param) in
     bindE (reward_loop mu spl param timestampDelta 0 NUM_REWARDS) (\<lambda>owed.
     Inr \<lparr>crq_rewardOwed = map fst owed, crq_deductedFromRewardOwed = map snd owed\<rparr>))"


subsection \<open>The growth inside a range\<close>

definition growth_inside :: "int \<Rightarrow> int \<Rightarrow> int \<Rightarrow> int \<Rightarrow> int \<Rightarrow> int \<Rightarrow> int" where
  "growth_inside cur lower upper global l u =
     (if cur < lower then l - u else if cur < upper then global - l - u else u - l) mod 2 ^ 128"

abbreviation u128 :: "int \<Rightarrow> bool" where
  "u128 x \<equiv> 0 \<le> x \<and> x < 2 ^ 128"

lemma sub_u128:
  assumes "math_util_ok mu" "u128 a" "u128 b"
  shows "subUnderflowU128 mu a b = Inr ((a - b) mod 2 ^ 128) \<and> u128 ((a - b) mod 2 ^ 128)"
  using assms math_util_okD(4) [OF assms(1), of a b] by simp

lemma growth_inside_eq:
  assumes mu: "math_util_ok mu" and u: "u128 global" "u128 l" "u128 u" and order: "lower < upper"
  shows "bindE (fee_below mu cur lower global l) (\<lambda>b. bindE (fee_above mu cur upper global u) (\<lambda>a.
    fee_inside mu global b a)) = Inr (growth_inside cur lower upper global l u)"
proof -
  have inside: "fee_inside mu global b a = Inr ((global - b - a) mod 2 ^ 128)" if "u128 b" "u128 a" for a b
    using sub_u128 [OF mu u(1) that(1)] sub_u128 [OF mu _ that(2), of "(global - b) mod 2 ^ 128"]
    by (simp add: fee_inside_def mod_diff_left_eq del: power_numeral)
  have below: "fee_below mu cur lower global l = Inr (if cur < lower then (global - l) mod 2 ^ 128 else l)"
    and ub: "u128 (if cur < lower then (global - l) mod 2 ^ 128 else l)"
    using sub_u128 [OF mu u(1,2)] u(2) by (simp_all add: fee_below_def del: power_numeral)
  have above: "fee_above mu cur upper global u = Inr (if cur < upper then u else (global - u) mod 2 ^ 128)"
    and ua: "u128 (if cur < upper then u else (global - u) mod 2 ^ 128)"
    using sub_u128 [OF mu u(1,3)] u(3) by (simp_all add: fee_above_def del: power_numeral)
  have "(global - (global - l) mod 2 ^ 128 - u) mod 2 ^ 128 = (l - u) mod 2 ^ 128"
    by (metis (no_types, lifting) diff_diff_eq2 diff_add_cancel mod_diff_left_eq mod_diff_right_eq add_diff_cancel_left')
  moreover have "(global - l - (global - u) mod 2 ^ 128) mod 2 ^ 128 = (u - l) mod 2 ^ 128"
    by (simp add: mod_diff_right_eq del: power_numeral)
  ultimately show ?thesis
    unfolding below above bindE_simps inside [OF ub ua] using order by (auto simp: growth_inside_def simp del: power_numeral)
qed

lemma fee_delta_eq:
  assumes mu: "math_util_ok mu" and L: "0 \<le> L" and c: "u128 c"
  shows "fee_delta mu (growth_inside cur lower upper global l u) c L =
    Inr ((growth_inside cur lower upper global l u - c) mod 2 ^ 128 * L div 2 ^ 64)"
proof -
  have "u128 (growth_inside cur lower upper global l u)" by (simp add: growth_inside_def)
  from sub_u128 [OF mu this c] L show ?thesis by (simp add: fee_delta_def bn_nonneg del: power_numeral)
qed

lemma collect_fees_eq:
  fixes spl :: "'c spl_token"
  assumes mu: "math_util_ok mu" and L: "0 \<le> pos_liquidity (cf_position param)"
    and order: "pos_tickLowerIndex (cf_position param) < pos_tickUpperIndex (cf_position param)"
    and a: "u128 (wp_feeGrowthGlobalA (cf_whirlpool param))" "u128 (tick_feeGrowthOutsideA (cf_tickLower param))"
      "u128 (tick_feeGrowthOutsideA (cf_tickUpper param))" "u128 (pos_feeGrowthCheckpointA (cf_position param))"
    and b: "u128 (wp_feeGrowthGlobalB (cf_whirlpool param))" "u128 (tick_feeGrowthOutsideB (cf_tickLower param))"
      "u128 (tick_feeGrowthOutsideB (cf_tickUpper param))" "u128 (pos_feeGrowthCheckpointB (cf_position param))"
  defines "cur \<equiv> wp_tickCurrentIndex (cf_whirlpool param)" and "pos \<equiv> cf_position param" and "ctx \<equiv> cf_tokenExtensionCtx param"
  defines "inA \<equiv> growth_inside cur (pos_tickLowerIndex pos) (pos_tickUpperIndex pos) (wp_feeGrowthGlobalA (cf_whirlpool param))
      (tick_feeGrowthOutsideA (cf_tickLower param)) (tick_feeGrowthOutsideA (cf_tickUpper param))"
    and "inB \<equiv> growth_inside cur (pos_tickLowerIndex pos) (pos_tickUpperIndex pos) (wp_feeGrowthGlobalB (cf_whirlpool param))
      (tick_feeGrowthOutsideB (cf_tickLower param)) (tick_feeGrowthOutsideB (cf_tickUpper param))"
  defines "owedA \<equiv> calculateTransferFeeExcludedAmount spl (pos_feeOwedA pos
        + (inA - pos_feeGrowthCheckpointA pos) mod 2 ^ 128 * pos_liquidity pos div 2 ^ 64)
      (tec_tokenMintWithProgramA ctx) (tec_currentEpoch ctx)"
    and "owedB \<equiv> calculateTransferFeeExcludedAmount spl (pos_feeOwedB pos
        + (inB - pos_feeGrowthCheckpointB pos) mod 2 ^ 128 * pos_liquidity pos div 2 ^ 64)
      (tec_tokenMintWithProgramB ctx) (tec_currentEpoch ctx)"
  shows "collectFeesQuote mu spl param = Inr \<lparr>cfq_feeOwedA = tfe_amount owedA, cfq_feeOwedB = tfe_amount owedB,
      cfq_deductedFromFeeOwedA = tfe_fee owedA, cfq_deductedFromFeeOwedB = tfe_fee owedB\<rparr>"
proof -
  note A = growth_inside_eq [OF mu a(1-3) order, of cur, folded pos_def, folded inA_def]
  note B = growth_inside_eq [OF mu b(1-3) order, of cur, folded pos_def, folded inB_def]
  note dA = fee_delta_eq [OF mu L a(4), of cur "pos_tickLowerIndex pos" "pos_tickUpperIndex pos" "wp_feeGrowthGlobalA (cf_whirlpool param)"
      "tick_feeGrowthOutsideA (cf_tickLower param)" "tick_feeGrowthOutsideA (cf_tickUpper param)", folded pos_def, folded inA_def]
  note dB = fee_delta_eq [OF mu L b(4), of cur "pos_tickLowerIndex pos" "pos_tickUpperIndex pos" "wp_feeGrowthGlobalB (cf_whirlpool param)"
      "tick_feeGrowthOutsideB (cf_tickLower param)" "tick_feeGrowthOutsideB (cf_tickUpper param)", folded pos_def, folded inB_def]
  from A obtain x y where 1: "fee_below mu cur (pos_tickLowerIndex pos) (wp_feeGrowthGlobalA (cf_whirlpool param))
      (tick_feeGrowthOutsideA (cf_tickLower param)) = Inr x"
    "fee_above mu cur (pos_tickUpperIndex pos) (wp_feeGrowthGlobalA (cf_whirlpool param))
      (tick_feeGrowthOutsideA (cf_tickUpper param)) = Inr y"
    "fee_inside mu (wp_feeGrowthGlobalA (cf_whirlpool param)) x y = Inr inA"
    by (auto simp: bindE_eq_Inr)
  from B obtain v w where 2: "fee_below mu cur (pos_tickLowerIndex pos) (wp_feeGrowthGlobalB (cf_whirlpool param))
      (tick_feeGrowthOutsideB (cf_tickLower param)) = Inr v"
    "fee_above mu cur (pos_tickUpperIndex pos) (wp_feeGrowthGlobalB (cf_whirlpool param))
      (tick_feeGrowthOutsideB (cf_tickUpper param)) = Inr w"
    "fee_inside mu (wp_feeGrowthGlobalB (cf_whirlpool param)) v w = Inr inB"
    by (auto simp: bindE_eq_Inr)
  show ?thesis
    unfolding collectFeesQuote_def Let_def cur_def [symmetric] pos_def [symmetric] ctx_def [symmetric]
    by (simp only: 1 2 dA dB bindE_simps owedA_def owedB_def)
qed

text \<open>
  C19: fees accrue in range only. Let the checkpoint of a position be the growth inside its
  range when the global growth was \<open>gA\<close> and \<open>gB\<close>, with the current tick where it is now. Then
  the fees owed, with the transfer fee that is taken off, are the fees recorded before plus
  the position's share of the growth since, modulo \<open>2 ^ 128\<close>, when the current tick is in the
  range, and exactly the recorded fees when it is not.
\<close>

theorem fees_accrue_in_range:
  assumes mu: "math_util_ok mu" and spl: "spl_token_ok spl"
    and pos: "pos_tickLowerIndex (cf_position param) < pos_tickUpperIndex (cf_position param)"
      "0 \<le> pos_liquidity (cf_position param)" "0 \<le> pos_feeOwedA (cf_position param)" "0 \<le> pos_feeOwedB (cf_position param)"
    and a: "u128 (wp_feeGrowthGlobalA (cf_whirlpool param))" "u128 (tick_feeGrowthOutsideA (cf_tickLower param))"
      "u128 (tick_feeGrowthOutsideA (cf_tickUpper param))"
    and b: "u128 (wp_feeGrowthGlobalB (cf_whirlpool param))" "u128 (tick_feeGrowthOutsideB (cf_tickLower param))"
      "u128 (tick_feeGrowthOutsideB (cf_tickUpper param))"
    and cp: "pos_feeGrowthCheckpointA (cf_position param) = growth_inside (wp_tickCurrentIndex (cf_whirlpool param))
        (pos_tickLowerIndex (cf_position param)) (pos_tickUpperIndex (cf_position param)) gA
        (tick_feeGrowthOutsideA (cf_tickLower param)) (tick_feeGrowthOutsideA (cf_tickUpper param))"
      "pos_feeGrowthCheckpointB (cf_position param) = growth_inside (wp_tickCurrentIndex (cf_whirlpool param))
        (pos_tickLowerIndex (cf_position param)) (pos_tickUpperIndex (cf_position param)) gB
        (tick_feeGrowthOutsideB (cf_tickLower param)) (tick_feeGrowthOutsideB (cf_tickUpper param))"
  shows "\<exists>q. collectFeesQuote mu spl param = Inr q \<and>
    (let cur = wp_tickCurrentIndex (cf_whirlpool param); position = cf_position param;
         accrued = (\<lambda>now old. if pos_tickLowerIndex position \<le> cur \<and> cur < pos_tickUpperIndex position
           then (now - old) mod 2 ^ 128 * pos_liquidity position div 2 ^ 64 else 0) in
     cfq_feeOwedA q + cfq_deductedFromFeeOwedA q
       = pos_feeOwedA position + accrued (wp_feeGrowthGlobalA (cf_whirlpool param)) gA \<and>
     cfq_feeOwedB q + cfq_deductedFromFeeOwedB q
       = pos_feeOwedB position + accrued (wp_feeGrowthGlobalB (cf_whirlpool param)) gB)"
proof -
  have u: "u128 (growth_inside cur lo up g l u)" for cur lo up g l u by (simp add: growth_inside_def)
  have diff: "(growth_inside cur lo up g l u - growth_inside cur lo up g' l u) mod 2 ^ 128 =
      (if lo \<le> cur \<and> cur < up then (g - g') mod 2 ^ 128 else 0)" for cur lo up g g' l u
    by (auto simp: growth_inside_def mod_diff_eq simp del: power_numeral)
  define D where "D now old = (if pos_tickLowerIndex (cf_position param) \<le> wp_tickCurrentIndex (cf_whirlpool param) \<and>
      wp_tickCurrentIndex (cf_whirlpool param) < pos_tickUpperIndex (cf_position param)
      then (now - old) mod 2 ^ 128 * pos_liquidity (cf_position param) div 2 ^ 64 else 0)" for now old
  have D: "(if pos_tickLowerIndex (cf_position param) \<le> wp_tickCurrentIndex (cf_whirlpool param) \<and>
      wp_tickCurrentIndex (cf_whirlpool param) < pos_tickUpperIndex (cf_position param)
      then (now - old) mod 2 ^ 128 else 0) * pos_liquidity (cf_position param) div 2 ^ 64 = D now old" for now old
    by (simp add: D_def del: power_numeral)
  have D0: "0 \<le> D now old" for now old using pos(2) by (simp add: D_def pos_imp_zdiv_nonneg_iff)
  have c: "u128 (pos_feeGrowthCheckpointA (cf_position param))" "u128 (pos_feeGrowthCheckpointB (cf_position param))"
    unfolding cp by (rule u)+
  note eq = collect_fees_eq [OF mu pos(2,1) a c(1) b c(2), of spl,
      unfolded cp diff D]
  note f = excluded_facts(3) [OF spl]
  show ?thesis
    unfolding eq Let_def D_def [symmetric] using f pos(3,4) D0 by simp
qed


text \<open>A position of liquidity \<open>2 ^ 64\<close> in range, with a global growth that has just wrapped around.\<close>

definition example_fees :: CollectFeesQuoteParam where
  "example_fees =
     \<lparr>cf_whirlpool = \<lparr>wp_whirlpoolsConfig = ''config'', wp_whirlpoolBump = [255], wp_feeRate = 3000,
        wp_protocolFeeRate = 300, wp_liquidity = 2 ^ 64, wp_sqrtPrice = 2 ^ 64, wp_tickCurrentIndex = 0,
        wp_protocolFeeOwedA = 0, wp_protocolFeeOwedB = 0, wp_tokenMintA = ''mintA'', wp_tokenVaultA = ''vaultA'',
        wp_feeGrowthGlobalA = 5, wp_tokenMintB = ''mintB'', wp_tokenVaultB = ''vaultB'', wp_feeGrowthGlobalB = 0,
        wp_rewardLastUpdatedTimestamp = 0, wp_rewardInfos = [], wp_tickSpacing = 64\<rparr>,
      cf_position = \<lparr>pos_whirlpool = ''pool'', pos_positionMint = ''mint'', pos_liquidity = 2 ^ 64,
        pos_tickLowerIndex = - 64, pos_tickUpperIndex = 64, pos_feeGrowthCheckpointA = 2 ^ 128 - 10, pos_feeOwedA = 7,
        pos_feeGrowthCheckpointB = 0, pos_feeOwedB = 0, pos_rewardInfos = []\<rparr>,
      cf_tickLower = empty_tick, cf_tickUpper = empty_tick,
      cf_tokenExtensionCtx = \<lparr>tec_currentEpoch = 0, tec_tokenMintWithProgramA = example_mint ''mintA'' ''token'',
        tec_tokenMintWithProgramB = example_mint ''mintB'' ''token''\<rparr>\<rparr>"

lemma example_fees_fields:
  "wp_tickCurrentIndex (cf_whirlpool example_fees) = 0" "wp_feeGrowthGlobalA (cf_whirlpool example_fees) = 5"
  "wp_feeGrowthGlobalB (cf_whirlpool example_fees) = 0" "pos_liquidity (cf_position example_fees) = 2 ^ 64"
  "pos_tickLowerIndex (cf_position example_fees) = - 64" "pos_tickUpperIndex (cf_position example_fees) = 64"
  "pos_feeGrowthCheckpointA (cf_position example_fees) = 2 ^ 128 - 10" "pos_feeOwedA (cf_position example_fees) = 7"
  "pos_feeGrowthCheckpointB (cf_position example_fees) = 0" "pos_feeOwedB (cf_position example_fees) = 0"
  "tick_feeGrowthOutsideA (cf_tickLower example_fees) = 0" "tick_feeGrowthOutsideB (cf_tickLower example_fees) = 0"
  "tick_feeGrowthOutsideA (cf_tickUpper example_fees) = 0" "tick_feeGrowthOutsideB (cf_tickUpper example_fees) = 0"
  by (simp_all add: example_fees_def empty_tick_def)

theorem fees_accrue_in_range_witness:
  "\<exists>q. collectFeesQuote math_util_ref spl_token_ref example_fees = Inr q
     \<and> cfq_feeOwedA q + cfq_deductedFromFeeOwedA q = 7 + 15"
proof -
  have "growth_inside 0 (- 64) 64 (2 ^ 128 - 10) 0 0 = 2 ^ 128 - 10" "growth_inside 0 (- 64) 64 0 0 0 = 0"
    by (simp_all add: growth_inside_def)
  with fees_accrue_in_range [OF math_util_ref_ok spl_token_ref_ok, of example_fees "2 ^ 128 - 10" 0]
  show ?thesis by (auto simp: example_fees_fields Let_def)
qed

end
