(* ===== verification/Position_Bundle.thy ===== *)
theory Position_Bundle
  imports Accounts Prelude
begin

text \<open>
  Position bundles (\<^verbatim>\<open>sdk/src/utils/public/position-bundle-util.ts\<close>): a bundle holds up to 256
  positions, and its bitmap (32 bytes) records which are open, the lowest bit of each byte
  first. The theorems give the queries over the bitmap as one set of open indices.
\<close>

unbundle bit_operations_syntax

definition checkBundleIndexInBounds :: "int \<Rightarrow> bool" where
  "checkBundleIndexInBounds bundleIndex \<longleftrightarrow> bundleIndex \<ge> 0 \<and> bundleIndex < POSITION_BUNDLE_SIZE"

definition convertBitmapToArray :: "PositionBundleData \<Rightarrow> bool list" where
  "convertBitmapToArray positionBundle =
     concat (map (\<lambda>bitmap. map (\<lambda>offset. bitmap AND push_bit offset 1 \<noteq> 0) [0..<8])
       (pb_positionBitmap positionBundle))"

text \<open>Reading past the end of the array gives \<^verbatim>\<open>undefined\<close>, which is falsy.\<close>

definition isOccupied :: "PositionBundleData \<Rightarrow> int \<Rightarrow> bool res" where
  "isOccupied positionBundle bundleIndex =
     (if \<not> checkBundleIndexInBounds bundleIndex then Inl InvariantError
      else
        let array = convertBitmapToArray positionBundle in
        Inr (nat bundleIndex < length array \<and> array ! nat bundleIndex))"

definition isUnoccupied :: "PositionBundleData \<Rightarrow> int \<Rightarrow> bool res" where
  "isUnoccupied positionBundle bundleIndex =
     bindE (isOccupied positionBundle bundleIndex) (\<lambda>occupied. Inr (\<not> occupied))"

definition getOccupiedBundleIndexes :: "PositionBundleData \<Rightarrow> nat list" where
  "getOccupiedBundleIndexes positionBundle =
     fold (\<lambda>(index, occupied) result. if occupied then result @ [index] else result)
       (enumerate 0 (convertBitmapToArray positionBundle)) []"

definition getUnoccupiedBundleIndexes :: "PositionBundleData \<Rightarrow> nat list" where
  "getUnoccupiedBundleIndexes positionBundle =
     fold (\<lambda>(index, occupied) result. if \<not> occupied then result @ [index] else result)
       (enumerate 0 (convertBitmapToArray positionBundle)) []"

definition isFull :: "PositionBundleData \<Rightarrow> bool" where
  "isFull positionBundle \<longleftrightarrow> length (getUnoccupiedBundleIndexes positionBundle) = 0"

definition isEmpty :: "PositionBundleData \<Rightarrow> bool" where
  "isEmpty positionBundle \<longleftrightarrow> length (getOccupiedBundleIndexes positionBundle) = 0"

definition findUnoccupiedBundleIndex :: "PositionBundleData \<Rightarrow> nat option" where
  "findUnoccupiedBundleIndex positionBundle =
     (let unoccupied = getUnoccupiedBundleIndexes positionBundle in
      if length unoccupied = 0 then None else Some (unoccupied ! 0))"

subsection \<open>The set of open positions\<close>

definition open_positions :: "PositionBundleData \<Rightarrow> nat set" where
  "open_positions b = {i. i < 8 * length (pb_positionBitmap b) \<and> bit (pb_positionBitmap b ! (i div 8)) (i mod 8)}"

lemma concat_blocks:
  assumes "\<And>x. length (f x) = 8" "i < 8 * length xs"
  shows "concat (map f xs) ! i = f (xs ! (i div 8)) ! (i mod 8)"
  using assms(2)
proof (induction xs arbitrary: i)
  case (Cons x xs)
  show ?case
  proof (cases "i < 8")
    case True
    with assms(1) show ?thesis by (simp add: nth_append)
  next
    case False
    then have "(i - 8) div 8 = i div 8 - 1" "(i - 8) mod 8 = i mod 8" "0 < i div 8"
      by (simp_all add: le_div_geq le_mod_geq div_greater_zero_iff)
    with False Cons assms(1) show ?thesis by (simp add: nth_append nth_Cons')
  qed
qed simp

lemma bitmap_array:
  "length (convertBitmapToArray b) = 8 * length (pb_positionBitmap b)"
  "i < 8 * length (pb_positionBitmap b) \<Longrightarrow> convertBitmapToArray b ! i \<longleftrightarrow> i \<in> open_positions b"
proof -
  show "length (convertBitmapToArray b) = 8 * length (pb_positionBitmap b)"
    by (simp add: convertBitmapToArray_def length_concat o_def sum_list_triv)
  assume "i < 8 * length (pb_positionBitmap b)"
  then show "convertBitmapToArray b ! i \<longleftrightarrow> i \<in> open_positions b"
    unfolding convertBitmapToArray_def
    by (subst concat_blocks) (simp_all add: and_exp_eq_0_iff_not_bit open_positions_def)
qed

text \<open>Collecting the indices whose flag holds: strictly increasing, and exactly these.\<close>

lemma collect_indices:
  "fold (\<lambda>(i, x) acc. if P x then acc @ [i] else acc) (enumerate n xs) acc =
     acc @ map fst (filter (\<lambda>(i, x). P x) (enumerate n xs))"
  by (induction xs arbitrary: n acc) auto

lemma indices_where:
  "sorted_wrt (<) (map fst (filter (\<lambda>(i, x). P x) (enumerate n xs)))"
  "set (map fst (filter (\<lambda>(i, x). P x) (enumerate n xs))) = {i. n \<le> i \<and> i < n + length xs \<and> P (xs ! (i - n))}"
proof -
  show "set (map fst (filter (\<lambda>(i, x). P x) (enumerate n xs))) = {i. n \<le> i \<and> i < n + length xs \<and> P (xs ! (i - n))}"
    by (auto simp: in_set_enumerate_eq image_iff)
  have "sorted_wrt (<) (map fst (enumerate n xs))" by simp
  then show "sorted_wrt (<) (map fst (filter (\<lambda>(i, x). P x) (enumerate n xs)))"
    unfolding sorted_wrt_map by (rule sorted_wrt_filter)
qed

lemma bundle_indexes:
  shows "sorted_wrt (<) (getOccupiedBundleIndexes b)" "set (getOccupiedBundleIndexes b) = open_positions b"
    and "sorted_wrt (<) (getUnoccupiedBundleIndexes b)"
    "set (getUnoccupiedBundleIndexes b) = {..<8 * length (pb_positionBitmap b)} - open_positions b"
  unfolding getOccupiedBundleIndexes_def getUnoccupiedBundleIndexes_def
    collect_indices [where P = "\<lambda>x. x"] collect_indices [where P = Not] append_Nil
  using indices_where(1) [of "\<lambda>x. x" 0 "convertBitmapToArray b"] indices_where(1) [of Not 0 "convertBitmapToArray b"]
    indices_where(2) [of "\<lambda>x. x" 0 "convertBitmapToArray b"] indices_where(2) [of Not 0 "convertBitmapToArray b"]
    bitmap_array(1) [of b] bitmap_array(2) [of _ b]
  by (auto simp: open_positions_def)

text \<open>
  C36: the queries of a bundle with a full bitmap agree with one set of open positions: an
  index in bounds is occupied exactly when it is open (any other index throws), the two lists
  of indices are the open and the free ones in increasing order, the bundle is full or empty
  accordingly, and the index found for a new position is the least free one.
\<close>

theorem bundle_queries_agree:
  assumes "length (pb_positionBitmap b) = 32"
  shows "isOccupied b i = (if checkBundleIndexInBounds i then Inr (nat i \<in> open_positions b) else Inl InvariantError)
    \<and> isUnoccupied b i = (if checkBundleIndexInBounds i then Inr (nat i \<notin> open_positions b) else Inl InvariantError)
    \<and> getOccupiedBundleIndexes b = sorted_list_of_set (open_positions b)
    \<and> getUnoccupiedBundleIndexes b = sorted_list_of_set ({..<256} - open_positions b)
    \<and> (isFull b \<longleftrightarrow> {..<256} \<subseteq> open_positions b) \<and> (isEmpty b \<longleftrightarrow> open_positions b = {})
    \<and> findUnoccupiedBundleIndex b =
        (if {..<256} \<subseteq> open_positions b then None else Some (Min ({..<256} - open_positions b)))"
proof -
  note idx = bundle_indexes [of b, unfolded assms, simplified]
  have lists: "getOccupiedBundleIndexes b = sorted_list_of_set (open_positions b)"
    "getUnoccupiedBundleIndexes b = sorted_list_of_set ({..<256} - open_positions b)"
    by (metis idx strict_sorted_equal finite_set sorted_list_of_set.set_sorted_key_list_of_set
        sorted_list_of_set.strict_sorted_key_list_of_set)+
  have free: "getUnoccupiedBundleIndexes b = [] \<longleftrightarrow> {..<256} \<subseteq> open_positions b"
    using idx(4) by (auto simp flip: set_empty)
  have occ: "isOccupied b i = (if checkBundleIndexInBounds i then Inr (nat i \<in> open_positions b) else Inl InvariantError)"
    using bitmap_array(1) [of b] bitmap_array(2) [of "nat i" b] assms
    by (auto simp: isOccupied_def checkBundleIndexInBounds_def POSITION_BUNDLE_SIZE_def nat_less_iff)
  show ?thesis
  proof (intro conjI)
    show "isUnoccupied b i = (if checkBundleIndexInBounds i then Inr (nat i \<notin> open_positions b) else Inl InvariantError)"
      by (simp add: isUnoccupied_def occ)
    show "isFull b \<longleftrightarrow> {..<256} \<subseteq> open_positions b" using free by (simp add: isFull_def)
    show "isEmpty b \<longleftrightarrow> open_positions b = {}" using idx(2) by (simp add: isEmpty_def flip: set_empty)
    show "findUnoccupiedBundleIndex b =
        (if {..<256} \<subseteq> open_positions b then None else Some (Min ({..<256} - open_positions b)))"
      using free lists(2) by (simp add: findUnoccupiedBundleIndex_def Let_def sorted_list_of_set_nonempty)
  qed (fact occ lists)+
qed

theorem bundle_queries_agree_witness:
  "findUnoccupiedBundleIndex \<lparr>pb_positionBundleMint = ''mint'', pb_positionBitmap = 3 # replicate 31 0\<rparr> = Some 2"
proof -
  let ?b = "\<lparr>pb_positionBundleMint = ''mint'', pb_positionBitmap = 3 # replicate 31 0\<rparr>"
  have "i \<in> open_positions ?b \<longleftrightarrow> i < 2" for i
  proof -
    have "(3 :: int) = mask 2" by (simp add: mask_eq_exp_minus_1)
    then have b3: "bit (3 :: int) k \<longleftrightarrow> k < 2" for k by (simp only: bit_mask_iff) simp
    show ?thesis
    proof (cases "i < 8")
      case True
      then have "i div 8 = 0" "i mod 8 = i" by simp_all
      with True show ?thesis by (simp add: open_positions_def b3)
    next
      case False
      then have "(3 # replicate 31 (0 :: int)) ! (i div 8) = 0" if "i < 256"
        using that by (simp add: nth_Cons' less_mult_imp_div_less)
      with False show ?thesis by (auto simp: open_positions_def)
    qed
  qed
  then have opens: "open_positions ?b = {..<2}" by (simp add: set_eq_iff)
  have free: "{..<256 :: nat} - {..<2} = {2..<256}" by (simp only: set_eq_iff) simp
  have "(2 :: nat) \<in> {..<256}" "(2 :: nat) \<notin> {..<2}" by simp_all
  then have "\<not> {..<256 :: nat} \<subseteq> {..<2}" using subsetD by metis
  moreover have "Min {2..<256 :: nat} = 2" by (rule Min_eqI) simp_all
  moreover have "length (pb_positionBitmap ?b) = 32" by simp
  ultimately show ?thesis using bundle_queries_agree [of ?b 0] by (simp only: opens free if_False)
qed

end
