(* ===== verification/Pool_Graph.thy ===== *)
theory Pool_Graph
  imports Accounts "HOL-Library.List_Lexorder" "HOL-Library.Char_ord"
begin

text \<open>
  The graph of pools and its search for paths of one or two pools between two tokens
  (\<^verbatim>\<open>sdk/src/utils/graphs/adjacency-list-pool-graph.ts\<close> and \<^verbatim>\<open>sdk/src/utils/graphs/public/\<close>).
  An address is its base-58 text, so \<^verbatim>\<open>AddressUtil.toString\<close> is the identity; strings are
  sorted by the lexicographic order of their characters. A JavaScript object that is only
  indexed is a map, a \<^verbatim>\<open>Set\<close> of which only membership is used is a set, and the \<^verbatim>\<open>Set\<close> of
  tokens is the list of its items in insertion order. The specification \<open>connects\<close> says which
  tokens a pool joins, \<open>trade_paths\<close> which paths there are.
\<close>

record PoolTokenPair =
  ptp_address :: pubkey
  ptp_tokenMintA :: pubkey
  ptp_tokenMintB :: pubkey

record Edge =
  poolAddress :: pubkey

record Path =
  path_startTokenMint :: pubkey
  path_endTokenMint :: pubkey
  path_edges :: "Edge list"

text \<open>\<^verbatim>\<open>PathSearchOptions\<close>: the tokens allowed as intermediate hops, when they are restricted.\<close>

record PathSearchOptions =
  intermediateTokens :: "pubkey list"

type_synonym PathSearchEntries = "(string \<times> Path list) list"

record PoolGraphEdge =
  edge_address :: pubkey
  edge_otherToken :: pubkey

type_synonym AdjacencyPoolGraphMap = "pubkey \<rightharpoonup> PoolGraphEdge list"
type_synonym PoolWalks = "string \<rightharpoonup> pubkey list list"

record AdjacencyListPoolGraph =
  apg_graph :: AdjacencyPoolGraphMap
  apg_tokens :: "pubkey list"

subsection \<open>Path ids\<close>

definition PATH_ID_DELIMITER :: char where "PATH_ID_DELIMITER = CHR ''-''"

definition getSearchPathId :: "pubkey \<Rightarrow> pubkey \<Rightarrow> string" where
  "getSearchPathId tokenA tokenB = tokenA @ [PATH_ID_DELIMITER] @ tokenB"

text \<open>\<^verbatim>\<open>String.prototype.split\<close> at one character\<close>

fun split_on :: "char \<Rightarrow> string \<Rightarrow> string list" where
  "split_on c [] = [[]]"
| "split_on c (x # xs) =
     (if x = c then [] # split_on c xs else (x # hd (split_on c xs)) # tl (split_on c xs))"

definition deconstructPathId :: "string \<Rightarrow> (pubkey \<times> pubkey) res" where
  "deconstructPathId pathId =
     (let split = split_on PATH_ID_DELIMITER pathId in
      if length split \<noteq> 2 then Inl PlainError else Inr (split ! 0, split ! 1))"

text \<open>\<^verbatim>\<open>[a, b].sort()\<close>\<close>

definition sort2 :: "pubkey \<Rightarrow> pubkey \<Rightarrow> pubkey \<times> pubkey" where
  "sort2 a b = (if a \<le> b then (a, b) else (b, a))"

definition getInternalRouteId :: "pubkey \<Rightarrow> pubkey \<Rightarrow> bool \<Rightarrow> string" where
  "getInternalRouteId tokenA tokenB sorted_ids =
     (let (a, b) = (if sorted_ids then sort2 tokenA tokenB else (tokenA, tokenB)) in
      a @ [PATH_ID_DELIMITER] @ b)"

subsection \<open>Building the graph\<close>

type_synonym graph_state = "AdjacencyPoolGraphMap \<times> (pubkey \<rightharpoonup> pubkey set) \<times> pubkey list"

definition set_add :: "'a \<Rightarrow> 'a list \<Rightarrow> 'a list" where
  "set_add x xs = (if x \<in> set xs then xs else xs @ [x])"

definition graph_add_token :: "pubkey \<Rightarrow> graph_state \<Rightarrow> graph_state" where
  "graph_add_token mint = (\<lambda>(poolGraph, cache, tokens).
     if poolGraph mint = None then (poolGraph(mint \<mapsto> []), cache(mint \<mapsto> {}), tokens)
     else (poolGraph, cache, tokens))"

definition graph_push :: "pubkey \<Rightarrow> PoolGraphEdge \<Rightarrow> graph_state \<Rightarrow> graph_state" where
  "graph_push mint edge = (\<lambda>(poolGraph, cache, tokens).
     if edge_address edge \<notin> the (cache mint)
     then (poolGraph(mint \<mapsto> the (poolGraph mint) @ [edge]),
           cache(mint \<mapsto> insert (edge_address edge) (the (cache mint))), tokens)
     else (poolGraph, cache, tokens))"

definition graph_add_pool :: "PoolTokenPair \<Rightarrow> graph_state \<Rightarrow> graph_state" where
  "graph_add_pool pool = (\<lambda>(poolGraph, cache, tokens).
     let addr = ptp_address pool; mintA = ptp_tokenMintA pool; mintB = ptp_tokenMintB pool;
         tokens = set_add mintB (set_add mintA tokens) in
     graph_push mintB \<lparr>edge_address = addr, edge_otherToken = mintA\<rparr>
       (graph_push mintA \<lparr>edge_address = addr, edge_otherToken = mintB\<rparr>
         (graph_add_token mintB (graph_add_token mintA (poolGraph, cache, tokens)))))"

definition buildPoolGraph :: "PoolTokenPair list \<Rightarrow> AdjacencyPoolGraphMap \<times> pubkey list" where
  "buildPoolGraph pools =
     (let (poolGraph, cache, tokens) = fold graph_add_pool pools (Map.empty, Map.empty, []) in
      (poolGraph, tokens))"

definition new_AdjacencyListPoolGraph :: "PoolTokenPair list \<Rightarrow> AdjacencyListPoolGraph" where
  "new_AdjacencyListPoolGraph pools =
     (let (graph, insertedTokens) = buildPoolGraph pools in
      \<lparr>apg_graph = graph, apg_tokens = insertedTokens\<rparr>)"

text \<open>\<^verbatim>\<open>PoolGraphBuilder\<close>; the fetcher returns each address with its account, if there is one.\<close>

definition buildPoolGraphWithFetch ::
    "(pubkey list \<Rightarrow> (pubkey \<times> WhirlpoolData option) list) \<Rightarrow> pubkey list \<Rightarrow> AdjacencyListPoolGraph" where
  "buildPoolGraphWithFetch getPools pools =
     new_AdjacencyListPoolGraph (concat (map (\<lambda>(addr, pool).
       case pool of
         Some p \<Rightarrow> [\<lparr>ptp_address = addr, ptp_tokenMintA = wp_tokenMintA p, ptp_tokenMintB = wp_tokenMintB p\<rparr>]
       | None \<Rightarrow> []) (getPools pools)))"

subsection \<open>Searching\<close>

definition pools_of :: "AdjacencyPoolGraphMap \<Rightarrow> pubkey \<Rightarrow> PoolGraphEdge list" where
  "pools_of poolGraph token = (case poolGraph token of None \<Rightarrow> [] | Some edges \<Rightarrow> edges)"

definition shares_pool :: "PoolGraphEdge list \<Rightarrow> PoolGraphEdge \<Rightarrow> bool" where
  "shares_pool poolsForTokenTo edge \<longleftrightarrow> (\<exists>p \<in> set poolsForTokenTo. edge_address p = edge_address edge)"

definition walks_between ::
    "AdjacencyPoolGraphMap \<Rightarrow> pubkey list option \<Rightarrow> pubkey \<Rightarrow> pubkey \<Rightarrow> pubkey list list" where
  "walks_between poolGraph intermediates tokenFrom tokenTo =
     (let poolsForTokenFrom = pools_of poolGraph tokenFrom;
          poolsForTokenTo = pools_of poolGraph tokenTo;
          singleHop = map (\<lambda>op. [edge_address op]) (filter (shares_pool poolsForTokenTo) poolsForTokenFrom);
          firstHop = filter (\<lambda>e. \<not> shares_pool poolsForTokenTo e) poolsForTokenFrom in
      singleHop @ concat (map (\<lambda>firstPool.
        let intermediateToken = edge_otherToken firstPool in
        if intermediates = None \<or> intermediateToken \<in> set (the intermediates)
        then map (\<lambda>secondPool. [edge_address firstPool, edge_address secondPool])
          (filter (\<lambda>secondPool. edge_otherToken secondPool = intermediateToken) poolsForTokenTo)
        else []) firstHop))"

definition find_walk ::
    "AdjacencyPoolGraphMap \<Rightarrow> pubkey list option \<Rightarrow> pubkey \<times> pubkey \<Rightarrow> PoolWalks \<Rightarrow> PoolWalks" where
  "find_walk poolGraph intermediates = (\<lambda>(tokenMintFrom, tokenMintTo) walks.
     let (internalFrom, internalTo) = sort2 tokenMintFrom tokenMintTo;
         internalPathId = getInternalRouteId internalFrom internalTo False in
     if walks internalPathId \<noteq> None then walks
     else
       let paths = walks_between poolGraph intermediates internalFrom internalTo in
       if length paths > 0 then walks(internalPathId \<mapsto> paths) else walks)"

definition findWalks ::
    "(pubkey \<times> pubkey) list \<Rightarrow> AdjacencyPoolGraphMap \<Rightarrow> pubkey list option \<Rightarrow> PoolWalks" where
  "findWalks tokenPairs poolGraph intermediates =
     fold (find_walk poolGraph intermediates) tokenPairs Map.empty"

definition getHopsFromRoute :: "pubkey list \<Rightarrow> bool \<Rightarrow> Edge list" where
  "getHopsFromRoute path reversed =
     map (\<lambda>hopStr. \<lparr>poolAddress = hopStr\<rparr>) (if reversed then rev path else path)"

text \<open>The paths of one search, read from the walks.\<close>

definition paths_from_walks :: "PoolWalks \<Rightarrow> pubkey \<Rightarrow> pubkey \<Rightarrow> bool \<Rightarrow> pubkey \<Rightarrow> pubkey \<Rightarrow> Path list" where
  "paths_from_walks walkMap startMint endMint flip pathStart pathEnd =
     (let (internalStartMint, internalEndMint) = sort2 startMint endMint;
          internalRouteId = getInternalRouteId internalStartMint internalEndMint False;
          reversed = (internalStartMint \<noteq> startMint) in
      case walkMap internalRouteId of
        None \<Rightarrow> []
      | Some walks \<Rightarrow> map (\<lambda>path. \<lparr>path_startTokenMint = pathStart, path_endTokenMint = pathEnd,
          path_edges = getHopsFromRoute path (if flip then \<not> reversed else reversed)\<rparr>) walks)"

definition getPathsForPairs ::
    "AdjacencyListPoolGraph \<Rightarrow> (pubkey \<times> pubkey) list \<Rightarrow> PathSearchOptions option \<Rightarrow> PathSearchEntries" where
  "getPathsForPairs this searchTokenPairs options =
     (let searchTokenPairsToFind = filter (\<lambda>(startMint, endMint). startMint \<noteq> endMint) searchTokenPairs;
          walkMap = findWalks searchTokenPairsToFind (apg_graph this) (map_option intermediateTokens options) in
      map (\<lambda>(startMint, endMint).
        (getSearchPathId startMint endMint,
         paths_from_walks walkMap startMint endMint False startMint endMint)) searchTokenPairs)"

definition getPath ::
    "AdjacencyListPoolGraph \<Rightarrow> pubkey \<Rightarrow> pubkey \<Rightarrow> PathSearchOptions option \<Rightarrow> Path list" where
  "getPath this startMint endMint options =
     snd (getPathsForPairs this [(startMint, endMint)] options ! 0)"

text \<open>The pairs of items of an array, each item with the later ones.\<close>

definition combinations2 :: "'a list \<Rightarrow> ('a \<times> 'a) list" where
  "combinations2 array =
     concat (map (\<lambda>i. map (\<lambda>j. (array ! i, array ! j)) [i + 1..<length array]) [0..<length array - 1])"

definition getAllPaths :: "AdjacencyListPoolGraph \<Rightarrow> PathSearchOptions option \<Rightarrow> PathSearchEntries" where
  "getAllPaths this options =
     (let searchTokenPairs = combinations2 (apg_tokens this);
          searchTokenPairsToFind = filter (\<lambda>(startMint, endMint). startMint \<noteq> endMint) searchTokenPairs;
          walkMap = findWalks searchTokenPairsToFind (apg_graph this) (map_option intermediateTokens options) in
      fold (\<lambda>(startMint, endMint) acc.
        let searchRouteId = getSearchPathId startMint endMint in
        if startMint = endMint then acc @ [(searchRouteId, [])]
        else acc @ [(searchRouteId, paths_from_walks walkMap startMint endMint False startMint endMint),
          (getSearchPathId endMint startMint,
           paths_from_walks walkMap startMint endMint True endMint startMint)]) searchTokenPairs [])"

subsection \<open>Path ids, verified\<close>

lemma split_on_none: "c \<notin> set a \<Longrightarrow> split_on c a = [a]"
  by (induction a) auto

lemma split_on_append: "c \<notin> set a \<Longrightarrow> split_on c (a @ c # b) = a # split_on c b"
  by (induction a) auto

lemma path_id_inj:
  assumes "PATH_ID_DELIMITER \<notin> set a" "PATH_ID_DELIMITER \<notin> set a'"
    and "a @ PATH_ID_DELIMITER # b = a' @ PATH_ID_DELIMITER # b'"
  shows "a = a'" "b = b'"
proof -
  have "split_on PATH_ID_DELIMITER (a @ PATH_ID_DELIMITER # b) = a # split_on PATH_ID_DELIMITER b"
    using assms(1) by (rule split_on_append)
  moreover have "split_on PATH_ID_DELIMITER (a' @ PATH_ID_DELIMITER # b') = a' # split_on PATH_ID_DELIMITER b'"
    using assms(2) by (rule split_on_append)
  ultimately show "a = a'" using assms(3) by simp
  with assms(3) show "b = b'" by simp
qed

subsection \<open>The graph, verified\<close>

text \<open>
  The pool with address \<open>p\<close> joins the tokens \<open>a\<close> and \<open>b\<close>. An address names one pool, and a pool
  has two different tokens.
\<close>

definition connects :: "PoolTokenPair list \<Rightarrow> pubkey \<Rightarrow> pubkey \<Rightarrow> pubkey \<Rightarrow> bool" where
  "connects pools p a b \<longleftrightarrow> (\<exists>r \<in> set pools. ptp_address r = p \<and>
     (ptp_tokenMintA r = a \<and> ptp_tokenMintB r = b \<or> ptp_tokenMintA r = b \<and> ptp_tokenMintB r = a))"

definition pools_ok :: "PoolTokenPair list \<Rightarrow> bool" where
  "pools_ok pools \<longleftrightarrow>
     (\<forall>r \<in> set pools. \<forall>s \<in> set pools. ptp_address r = ptp_address s \<longrightarrow> r = s) \<and>
     (\<forall>r \<in> set pools. ptp_tokenMintA r \<noteq> ptp_tokenMintB r)"

lemma connects_sym: "connects pools p a b \<longleftrightarrow> connects pools p b a"
  unfolding connects_def by blast

lemma connects_fun: "pools_ok pools \<Longrightarrow> connects pools p a b \<Longrightarrow> connects pools p a c \<Longrightarrow> b = c"
  unfolding connects_def pools_ok_def by metis

lemma connects_neq: "pools_ok pools \<Longrightarrow> connects pools p a b \<Longrightarrow> a \<noteq> b"
  unfolding connects_def pools_ok_def by metis

text \<open>The cache of the addresses of each token repeats the graph.\<close>

definition cache_of :: "AdjacencyPoolGraphMap \<Rightarrow> pubkey \<rightharpoonup> pubkey set" where
  "cache_of g = (\<lambda>m. map_option (\<lambda>es. edge_address ` set es) (g m))"

definition with_edge :: "PoolGraphEdge \<Rightarrow> PoolGraphEdge list \<Rightarrow> PoolGraphEdge list" where
  "with_edge e es = (if edge_address e \<in> edge_address ` set es then es else es @ [e])"

lemma graph_add_token_effect:
  obtains g' where "graph_add_token m (g, cache_of g, toks) = (g', cache_of g', toks)"
    "pools_of g' = pools_of g" "g' m \<noteq> None" "\<And>n. g n \<noteq> None \<Longrightarrow> g' n \<noteq> None"
proof (cases "g m")
  case None
  then show thesis
    by (intro that [of "g(m \<mapsto> [])"]) (auto simp: graph_add_token_def cache_of_def pools_of_def fun_eq_iff)
next
  case (Some es)
  then show thesis by (intro that [of g]) (auto simp: graph_add_token_def)
qed

lemma graph_push_effect:
  assumes "g m \<noteq> None"
  obtains g' where "graph_push m e (g, cache_of g, toks) = (g', cache_of g', toks)"
    "pools_of g' = (pools_of g)(m := with_edge e (pools_of g m))" "\<And>n. g n \<noteq> None \<Longrightarrow> g' n \<noteq> None"
proof -
  from assms obtain es where es: "g m = Some es" by blast
  show thesis
  proof (cases "edge_address e \<in> edge_address ` set es")
    case True
    with es show thesis
      by (intro that [of g]) (auto simp: graph_push_def cache_of_def pools_of_def with_edge_def fun_eq_iff)
  next
    case False
    with es show thesis
      by (intro that [of "g(m \<mapsto> es @ [e])"])
        (auto simp: graph_push_def cache_of_def pools_of_def with_edge_def fun_eq_iff)
  qed
qed

lemma graph_add_pool_effect:
  obtains g' where "graph_add_pool r (g, cache_of g, toks) =
      (g', cache_of g', set_add (ptp_tokenMintB r) (set_add (ptp_tokenMintA r) toks))"
    "pools_of g' = (let es = (pools_of g)(ptp_tokenMintA r := with_edge
          \<lparr>edge_address = ptp_address r, edge_otherToken = ptp_tokenMintB r\<rparr> (pools_of g (ptp_tokenMintA r))) in
      es(ptp_tokenMintB r := with_edge
          \<lparr>edge_address = ptp_address r, edge_otherToken = ptp_tokenMintA r\<rparr> (es (ptp_tokenMintB r))))"
proof -
  let ?toks = "set_add (ptp_tokenMintB r) (set_add (ptp_tokenMintA r) toks)"
  obtain g1 where 1: "graph_add_token (ptp_tokenMintA r) (g, cache_of g, ?toks) = (g1, cache_of g1, ?toks)"
    "pools_of g1 = pools_of g" "g1 (ptp_tokenMintA r) \<noteq> None"
    using graph_add_token_effect [of "ptp_tokenMintA r" g ?toks] by metis
  obtain g2 where 2: "graph_add_token (ptp_tokenMintB r) (g1, cache_of g1, ?toks) = (g2, cache_of g2, ?toks)"
    "pools_of g2 = pools_of g1" "g2 (ptp_tokenMintB r) \<noteq> None" "g2 (ptp_tokenMintA r) \<noteq> None"
    using graph_add_token_effect [of "ptp_tokenMintB r" g1 ?toks] 1(3) by metis
  obtain g3 where 3: "graph_push (ptp_tokenMintA r) \<lparr>edge_address = ptp_address r, edge_otherToken = ptp_tokenMintB r\<rparr>
      (g2, cache_of g2, ?toks) = (g3, cache_of g3, ?toks)"
    "pools_of g3 = (pools_of g2)(ptp_tokenMintA r := with_edge
      \<lparr>edge_address = ptp_address r, edge_otherToken = ptp_tokenMintB r\<rparr> (pools_of g2 (ptp_tokenMintA r)))"
    "g3 (ptp_tokenMintB r) \<noteq> None"
    using graph_push_effect [of g2 "ptp_tokenMintA r"] 2(3,4) by metis
  obtain g4 where 4: "graph_push (ptp_tokenMintB r) \<lparr>edge_address = ptp_address r, edge_otherToken = ptp_tokenMintA r\<rparr>
      (g3, cache_of g3, ?toks) = (g4, cache_of g4, ?toks)"
    "pools_of g4 = (pools_of g3)(ptp_tokenMintB r := with_edge
      \<lparr>edge_address = ptp_address r, edge_otherToken = ptp_tokenMintA r\<rparr> (pools_of g3 (ptp_tokenMintB r)))"
    using graph_push_effect [of g3 "ptp_tokenMintB r"] 3(3) by metis
  show thesis
    by (rule that [of g4]) (simp_all add: graph_add_pool_def Let_def 1 2 3 4)
qed

text \<open>Everything the built graph says.\<close>

definition graph_says :: "PoolTokenPair list \<Rightarrow> (pubkey \<Rightarrow> PoolGraphEdge list) \<Rightarrow> bool" where
  "graph_says pools adj \<longleftrightarrow>
     (\<forall>m. distinct (map edge_address (adj m))) \<and>
     (\<forall>m e. e \<in> set (adj m) \<longleftrightarrow> connects pools (edge_address e) m (edge_otherToken e))"

lemma connects_snoc:
  "connects (pools @ [r]) p a b \<longleftrightarrow> connects pools p a b \<or> (ptp_address r = p \<and>
     (ptp_tokenMintA r = a \<and> ptp_tokenMintB r = b \<or> ptp_tokenMintA r = b \<and> ptp_tokenMintB r = a))"
  by (auto simp: connects_def)

lemma graph_says_step:
  assumes says: "graph_says pools adj" and ok: "pools_ok (pools @ [r])"
  defines "adjA \<equiv> adj(ptp_tokenMintA r := with_edge
      \<lparr>edge_address = ptp_address r, edge_otherToken = ptp_tokenMintB r\<rparr> (adj (ptp_tokenMintA r)))"
  shows "graph_says (pools @ [r]) (adjA(ptp_tokenMintB r := with_edge
      \<lparr>edge_address = ptp_address r, edge_otherToken = ptp_tokenMintA r\<rparr> (adjA (ptp_tokenMintB r))))"
proof (cases "r \<in> set pools")
  case True
  have "connects (pools @ [r]) = connects pools" using True by (auto simp: connects_def fun_eq_iff)
  moreover have "connects pools (ptp_address r) (ptp_tokenMintA r) (ptp_tokenMintB r)"
    "connects pools (ptp_address r) (ptp_tokenMintB r) (ptp_tokenMintA r)"
    using True by (auto simp: connects_def)
  then have "\<lparr>edge_address = ptp_address r, edge_otherToken = ptp_tokenMintB r\<rparr> \<in> set (adj (ptp_tokenMintA r))"
    "\<lparr>edge_address = ptp_address r, edge_otherToken = ptp_tokenMintA r\<rparr> \<in> set (adj (ptp_tokenMintB r))"
    using says by (simp_all add: graph_says_def)
  then have "ptp_address r \<in> edge_address ` set (adj (ptp_tokenMintA r))"
    "ptp_address r \<in> edge_address ` set (adj (ptp_tokenMintB r))"
    by force+
  ultimately show ?thesis using says by (simp add: adjA_def with_edge_def graph_says_def)
next
  case False
  then have new: "\<not> connects pools (ptp_address r) a b" for a b
    using ok unfolding connects_def pools_ok_def by (metis Un_iff set_append list.set_intros(1))
  then have notin: "ptp_address r \<notin> edge_address ` set (adj m)" for m
    using says by (auto simp: graph_says_def)
  have "ptp_tokenMintA r \<noteq> ptp_tokenMintB r" using ok by (simp add: pools_ok_def)
  then show ?thesis
    using says notin new
    by (auto simp: graph_says_def adjA_def with_edge_def connects_snoc)
qed

lemma pools_ok_append: "pools_ok (xs @ ys) \<Longrightarrow> pools_ok xs"
  by (auto simp: pools_ok_def)

lemma buildPoolGraph_says:
  assumes "pools_ok pools"
  shows "graph_says pools (pools_of (fst (buildPoolGraph pools))) \<and>
    distinct (snd (buildPoolGraph pools)) \<and>
    set (snd (buildPoolGraph pools)) = {m. \<exists>p n. connects pools p m n}"
proof -
  have "\<exists>g toks. fold graph_add_pool pools (Map.empty, Map.empty, []) = (g, cache_of g, toks) \<and>
      graph_says pools (pools_of g) \<and> distinct toks \<and> set toks = {m. \<exists>p n. connects pools p m n}"
    using assms
  proof (induction pools rule: rev_induct)
    case Nil
    show ?case
      by (intro exI [of _ Map.empty] exI [of _ "[]"])
        (auto simp: cache_of_def graph_says_def pools_of_def connects_def fun_eq_iff)
  next
    case (snoc r pools)
    from snoc.IH [OF pools_ok_append [OF snoc.prems]] obtain g toks where
      IH: "fold graph_add_pool pools (Map.empty, Map.empty, []) = (g, cache_of g, toks)"
      "graph_says pools (pools_of g)" "distinct toks" "set toks = {m. \<exists>p n. connects pools p m n}" by blast
    obtain g' where g': "graph_add_pool r (g, cache_of g, toks) =
        (g', cache_of g', set_add (ptp_tokenMintB r) (set_add (ptp_tokenMintA r) toks))"
      "graph_says (pools @ [r]) (pools_of g')"
      by (rule graph_add_pool_effect [of r g toks])
        (use graph_says_step [OF IH(2) snoc.prems] in \<open>simp add: Let_def\<close>)
    have "set (set_add (ptp_tokenMintB r) (set_add (ptp_tokenMintA r) toks)) =
        {m. \<exists>p n. connects (pools @ [r]) p m n}"
      using IH(4) by (auto simp: set_add_def connects_snoc)
    then show ?case using g' IH by (simp add: set_add_def)
  qed
  then show ?thesis unfolding buildPoolGraph_def by (elim exE conjE) simp
qed

subsection \<open>The search, verified\<close>

text \<open>The trades from \<open>a\<close> to \<open>b\<close> through one pool, or two with an allowed token between.\<close>

definition trade_paths ::
    "PoolTokenPair list \<Rightarrow> pubkey list option \<Rightarrow> pubkey \<Rightarrow> pubkey \<Rightarrow> pubkey list set" where
  "trade_paths pools allowed a b =
     {[p] | p. connects pools p a b} \<union>
     {[p, q] | p q. \<exists>x. connects pools p a x \<and> connects pools q x b \<and> (allowed = None \<or> x \<in> set (the allowed))}"

lemma trade_paths_iff:
  "[p] \<in> trade_paths pools allowed a b \<longleftrightarrow> connects pools p a b"
  "[p, q] \<in> trade_paths pools allowed a b \<longleftrightarrow>
     (\<exists>x. connects pools p a x \<and> connects pools q x b \<and> (allowed = None \<or> x \<in> set (the allowed)))"
  by (auto simp: trade_paths_def)

lemma trade_paths_rev: "trade_paths pools allowed b a = rev ` trade_paths pools allowed a b"
proof -
  have sub: "rev ` trade_paths pools allowed a b \<subseteq> trade_paths pools allowed b a" for a b
    unfolding trade_paths_def using connects_sym by fastforce
  have "trade_paths pools allowed b a = rev ` rev ` trade_paths pools allowed b a"
    by (simp add: image_image)
  also have "\<dots> \<subseteq> rev ` trade_paths pools allowed a b" by (intro image_mono sub)
  finally show ?thesis using sub [of a b] by blast
qed

lemma connects_pair:
  "pools_ok pools \<Longrightarrow> connects pools p a x \<Longrightarrow> connects pools p b n \<Longrightarrow> a \<noteq> b \<Longrightarrow> x = b"
  unfolding connects_def pools_ok_def by metis

lemma shares_pool_iff:
  assumes says: "graph_says pools (pools_of g)" and ok: "pools_ok pools" and "a \<noteq> b"
    and e: "e \<in> set (pools_of g a)"
  shows "shares_pool (pools_of g b) e \<longleftrightarrow> edge_otherToken e = b"
proof
  assume "shares_pool (pools_of g b) e"
  then obtain d where "d \<in> set (pools_of g b)" "edge_address d = edge_address e"
    by (auto simp: shares_pool_def)
  then show "edge_otherToken e = b"
    using says e connects_pair [OF ok _ _ \<open>a \<noteq> b\<close>] unfolding graph_says_def by metis
next
  assume b: "edge_otherToken e = b"
  let ?d = "\<lparr>edge_address = edge_address e, edge_otherToken = a\<rparr>"
  have "?d \<in> set (pools_of g b)" using says e b connects_sym by (auto simp: graph_says_def)
  then show "shares_pool (pools_of g b) e" unfolding shares_pool_def by (intro bexI [of _ ?d]) simp_all
qed

lemma walks_between_eq:
  assumes "graph_says pools (pools_of g)" "pools_ok pools" "a \<noteq> b"
  shows "walks_between g ints a b =
     map (\<lambda>e. [edge_address e]) (filter (\<lambda>e. edge_otherToken e = b) (pools_of g a)) @
     concat (map (\<lambda>e. if ints = None \<or> edge_otherToken e \<in> set (the ints)
        then map (\<lambda>d. [edge_address e, edge_address d])
          (filter (\<lambda>d. edge_otherToken d = edge_otherToken e) (pools_of g b)) else [])
      (filter (\<lambda>e. edge_otherToken e \<noteq> b) (pools_of g a)))"
  using shares_pool_iff [OF assms] by (simp add: walks_between_def Let_def cong: filter_cong)

lemma walks_between_set:
  assumes says: "graph_says pools (pools_of g)" and ok: "pools_ok pools" and "a \<noteq> b"
  shows "set (walks_between g ints a b) = trade_paths pools ints a b"
proof (intro equalityI subsetI)
  fix w assume "w \<in> set (walks_between g ints a b)"
  then consider e where "e \<in> set (pools_of g a)" "edge_otherToken e = b" "w = [edge_address e]"
    | e d where "e \<in> set (pools_of g a)" "d \<in> set (pools_of g b)" "edge_otherToken d = edge_otherToken e"
      "ints = None \<or> edge_otherToken e \<in> set (the ints)" "w = [edge_address e, edge_address d]"
    unfolding walks_between_eq [OF assms] by (auto split: if_splits)
  then show "w \<in> trade_paths pools ints a b"
  proof cases
    case 1
    then show ?thesis using says by (auto simp: trade_paths_def graph_says_def)
  next
    case 2
    have says': "connects pools (edge_address e) m (edge_otherToken e)" if "e \<in> set (pools_of g m)" for m e
      using says that by (simp add: graph_says_def)
    have "connects pools (edge_address d) b (edge_otherToken e)"
      using says' [OF 2(2)] 2(3) by simp
    then have "connects pools (edge_address d) (edge_otherToken e) b" by (rule iffD1 [OF connects_sym])
    with 2(4) says' [OF 2(1)]
    show ?thesis unfolding 2(5) trade_paths_iff by blast
  qed
next
  fix w assume w: "w \<in> trade_paths pools ints a b"
  have edge: "\<lparr>edge_address = p, edge_otherToken = n\<rparr> \<in> set (pools_of g m)" if "connects pools p m n" for p m n
    using that says by (simp add: graph_says_def)
  from w consider p where "w = [p]" "connects pools p a b"
    | p q x where "w = [p, q]" "connects pools p a x" "connects pools q x b" "ints = None \<or> x \<in> set (the ints)"
    unfolding trade_paths_def by blast
  then show "w \<in> set (walks_between g ints a b)"
  proof cases
    case 1
    then show ?thesis using edge [of p a b] unfolding walks_between_eq [OF assms] by force
  next
    case 2
    have "x \<noteq> b" using 2(3) connects_neq [OF ok] by blast
    have "connects pools q b x" using 2(3) by (rule iffD1 [OF connects_sym])
    note e = edge [OF 2(2)] edge [OF this]
    let ?e = "\<lparr>edge_address = p, edge_otherToken = x\<rparr>"
    have "[p, q] \<in> (\<lambda>d. [p, edge_address d]) ` {d \<in> set (pools_of g b). edge_otherToken d = x}"
      using e(2) by (intro image_eqI [of _ _ "\<lparr>edge_address = q, edge_otherToken = x\<rparr>"]) simp_all
    then have "[p, q] \<in> set (if ints = None \<or> edge_otherToken ?e \<in> set (the ints)
        then map (\<lambda>d. [edge_address ?e, edge_address d])
          (filter (\<lambda>d. edge_otherToken d = edge_otherToken ?e) (pools_of g b)) else [])"
      using 2(4) by simp
    moreover have "?e \<in> set (filter (\<lambda>e. edge_otherToken e \<noteq> b) (pools_of g a))"
      using e(1) \<open>x \<noteq> b\<close> by simp
    ultimately show ?thesis
      unfolding walks_between_eq [OF assms] set_append set_concat 2(1) set_map
      by (intro UnI2 UnionI [OF imageI [OF imageI]])
  qed
qed

lemma distinct_two_hops:
  assumes "distinct (map edge_address es)" "distinct (map edge_address ds)"
  shows "distinct (concat (map (\<lambda>e. if P e
        then map (\<lambda>d. [edge_address e, edge_address d]) (filter (Q e) ds) else []) es))"
  using assms(1)
proof (induction es)
  case (Cons e es)
  have "distinct (map (\<lambda>d. [edge_address e, edge_address d]) (filter (Q e) ds))"
    using assms(2) by (auto simp: distinct_map inj_on_def)
  with Cons show ?case by (auto simp: image_iff)
qed simp

lemma walks_between_distinct:
  assumes says: "graph_says pools (pools_of g)" and ok: "pools_ok pools" and "a \<noteq> b"
  shows "distinct (walks_between g ints a b)"
proof -
  have d: "distinct (map edge_address (pools_of g m))" for m using says by (simp add: graph_says_def)
  have "distinct (map (\<lambda>e. [edge_address e]) (filter (\<lambda>e. edge_otherToken e = b) (pools_of g a)))"
    using d [of a] by (auto simp: distinct_map inj_on_def)
  moreover have "distinct (map edge_address (filter (\<lambda>e. edge_otherToken e \<noteq> b) (pools_of g a)))"
    using d [of a] by (auto simp: distinct_map inj_on_def)
  note two = distinct_two_hops [OF this d [of b]]
  ultimately show ?thesis
    unfolding walks_between_eq [OF assms] distinct_append by (intro conjI two) (auto split: if_splits)
qed

subsection \<open>Searching many pairs\<close>

definition token_ok :: "pubkey \<Rightarrow> bool" where
  "token_ok a \<longleftrightarrow> PATH_ID_DELIMITER \<notin> set a"

definition internal_id :: "pubkey \<times> pubkey \<Rightarrow> string" where
  "internal_id = (\<lambda>(a, b). let (x, y) = sort2 a b in getInternalRouteId x y False)"

definition internal_walks ::
    "AdjacencyPoolGraphMap \<Rightarrow> pubkey list option \<Rightarrow> pubkey \<times> pubkey \<Rightarrow> pubkey list list" where
  "internal_walks g ints = (\<lambda>(a, b). let (x, y) = sort2 a b in walks_between g ints x y)"

lemma internal_id_inj:
  assumes "token_ok a" "token_ok b" "token_ok c" "token_ok d" "internal_id (a, b) = internal_id (c, d)"
  shows "sort2 a b = sort2 c d"
proof -
  have tok: "token_ok (fst (sort2 a b))" "token_ok (fst (sort2 c d))" using assms by (simp_all add: sort2_def)
  have "fst (sort2 a b) @ PATH_ID_DELIMITER # snd (sort2 a b) = fst (sort2 c d) @ PATH_ID_DELIMITER # snd (sort2 c d)"
    using assms(5) by (simp add: internal_id_def getInternalRouteId_def split_beta)
  from path_id_inj [OF tok [unfolded token_ok_def] this] show ?thesis by (rule prod_eqI)
qed

lemma find_walk_eq:
  "find_walk g ints q w = (if w (internal_id q) = None \<and> internal_walks g ints q \<noteq> []
     then w(internal_id q \<mapsto> internal_walks g ints q) else w)"
  by (auto simp: find_walk_def internal_id_def internal_walks_def Let_def split: prod.splits)

lemma fold_find_walk:
  assumes "\<forall>(a, b) \<in> set ps. token_ok a \<and> token_ok b" "token_ok c" "token_ok d"
  shows "fold (find_walk g ints) ps w (internal_id (c, d)) =
     (case w (internal_id (c, d)) of Some x \<Rightarrow> Some x
      | None \<Rightarrow> if (\<exists>(a, b) \<in> set ps. sort2 a b = sort2 c d) \<and> internal_walks g ints (c, d) \<noteq> []
          then Some (internal_walks g ints (c, d)) else None)"
  using assms(1)
proof (induction ps arbitrary: w)
  case Nil
  then show ?case by (simp split: option.splits)
next
  case (Cons p ps)
  obtain a b where p: "p = (a, b)" by force
  have ab: "token_ok a" "token_ok b" using Cons.prems p by auto
  have same: "internal_id (a, b) = internal_id (c, d) \<longleftrightarrow> sort2 a b = sort2 c d"
    using internal_id_inj [OF ab assms(2,3)] by (auto simp: internal_id_def)
  have walks: "internal_walks g ints (a, b) = internal_walks g ints (c, d)" if "sort2 a b = sort2 c d"
    using that by (simp add: internal_walks_def)
  have "\<forall>(a, b) \<in> set ps. token_ok a \<and> token_ok b" using Cons.prems by simp
  note IH = Cons.IH [OF this]
  show ?case
  proof (cases "sort2 a b = sort2 c d")
    case True
    then have i: "internal_id (a, b) = internal_id (c, d)" using same by simp
    show ?thesis
      by (cases "w (internal_id (c, d))") (use True in \<open>simp_all add: IH p find_walk_eq [of g ints "(a, b)"] i walks [OF True]\<close>)
  next
    case False
    then have "find_walk g ints (a, b) w (internal_id (c, d)) = w (internal_id (c, d))"
      using same by (simp add: find_walk_eq [of g ints "(a, b)"])
    then show ?thesis using False by (auto simp: IH p split: option.splits)
  qed
qed

text \<open>The paths of one search, without the memo.\<close>

definition search_paths ::
    "AdjacencyListPoolGraph \<Rightarrow> PathSearchOptions option \<Rightarrow> pubkey \<Rightarrow> pubkey \<Rightarrow> Path list" where
  "search_paths this options a b =
     (if a = b then [] else
      map (\<lambda>w. \<lparr>path_startTokenMint = a, path_endTokenMint = b,
          path_edges = getHopsFromRoute w (fst (sort2 a b) \<noteq> a)\<rparr>)
        (internal_walks (apg_graph this) (map_option intermediateTokens options) (a, b)))"

lemma sort2_commute: "sort2 b a = sort2 a b"
  by (auto simp: sort2_def)

lemma sort2_same: "sort2 a b = sort2 c c \<Longrightarrow> a = c \<and> b = c"
  by (auto simp: sort2_def split: if_splits)

lemma paths_from_walks_eq:
  fixes this :: AdjacencyListPoolGraph and options :: "PathSearchOptions option"
  assumes "\<forall>(a, b) \<in> set ps. token_ok a \<and> token_ok b \<and> a \<noteq> b" "token_ok c" "token_ok d"
    and "(c, d) \<in> set ps \<or> c = d"
  defines "walks \<equiv> findWalks ps (apg_graph this) (map_option intermediateTokens options)"
  shows "paths_from_walks walks c d False c d = search_paths this options c d"
    "paths_from_walks walks c d True d c = search_paths this options d c"
proof -
  have "\<forall>(a, b) \<in> set ps. token_ok a \<and> token_ok b" using assms(1) by auto
  note w = fold_find_walk [OF this assms(2,3), of "apg_graph this" "map_option intermediateTokens options" Map.empty]
  have none: "\<not> (\<exists>(a, b) \<in> set ps. sort2 a b = sort2 c d)" if "c = d"
    using assms(1) that by (auto dest: sort2_same)
  have some: "\<exists>(a, b) \<in> set ps. sort2 a b = sort2 c d" if "c \<noteq> d"
    using assms(4) that by auto
  have id: "internal_id (c, d) = getInternalRouteId (fst (sort2 c d)) (snd (sort2 c d)) False"
    by (simp add: internal_id_def split_beta)
  have rev: "fst (sort2 c d) = c \<longleftrightarrow> fst (sort2 d c) \<noteq> d" if "c \<noteq> d"
    using that by (auto simp: sort2_def)
  have iw: "internal_walks g i (d, c) = internal_walks g i (c, d)" for g i
    by (simp add: internal_walks_def sort2_commute)
  have walks: "walks (getInternalRouteId (fst (sort2 c d)) (snd (sort2 c d)) False) =
     (if c \<noteq> d \<and> internal_walks (apg_graph this) (map_option intermediateTokens options) (c, d) \<noteq> []
      then Some (internal_walks (apg_graph this) (map_option intermediateTokens options) (c, d)) else None)"
    unfolding walks_def findWalks_def id [symmetric]
    using w none some by (cases "c = d") simp_all
  show "paths_from_walks walks c d False c d = search_paths this options c d"
    by (simp add: paths_from_walks_def search_paths_def split_beta walks)
  show "paths_from_walks walks c d True d c = search_paths this options d c"
    unfolding paths_from_walks_def split_beta Let_def walks search_paths_def iw
    using rev by (cases "c = d") simp_all
qed

lemma getPath_eq:
  assumes "token_ok a" "token_ok b"
  shows "getPath this a b options = search_paths this options a b"
proof -
  have "getPath this a b options = paths_from_walks
      (findWalks (filter (\<lambda>(s, e). s \<noteq> e) [(a, b)]) (apg_graph this) (map_option intermediateTokens options))
      a b False a b"
    by (simp add: getPath_def getPathsForPairs_def Let_def)
  also have "\<dots> = search_paths this options a b"
    by (rule paths_from_walks_eq(1)) (use assms in auto)
  finally show ?thesis .
qed

lemma trade_paths_sort2:
  "trade_paths pools ints a b =
     (if fst (sort2 a b) \<noteq> a then rev else id) ` trade_paths pools ints (fst (sort2 a b)) (snd (sort2 a b))"
proof (cases "a \<le> b")
  case True
  then show ?thesis by (simp add: sort2_def)
next
  case False
  then have "a \<noteq> b" by auto
  with False have "sort2 a b = (b, a)" by (simp add: sort2_def)
  then show ?thesis using \<open>a \<noteq> b\<close> trade_paths_rev [of pools ints a b] by simp
qed

lemma search_paths_exact:
  fixes options :: "PathSearchOptions option"
  assumes ok: "pools_ok pools" and "a \<noteq> b"
  defines "paths \<equiv> search_paths (new_AdjacencyListPoolGraph pools) options a b"
  shows "(\<lambda>path. map poolAddress (path_edges path)) ` set paths =
      trade_paths pools (map_option intermediateTokens options) a b"
    "distinct (map (\<lambda>path. map poolAddress (path_edges path)) paths)"
    "\<forall>path \<in> set paths. path_startTokenMint path = a \<and> path_endTokenMint path = b"
proof -
  let ?ints = "map_option intermediateTokens options"
  let ?x = "fst (sort2 a b)" and ?y = "snd (sort2 a b)"
  let ?f = "\<lambda>w. if ?x \<noteq> a then rev w else (w :: pubkey list)"
  have "apg_graph (new_AdjacencyListPoolGraph pools) = fst (buildPoolGraph pools)"
    by (simp add: new_AdjacencyListPoolGraph_def split_beta)
  then have says: "graph_says pools (pools_of (apg_graph (new_AdjacencyListPoolGraph pools)))"
    using buildPoolGraph_says [OF ok] by simp
  have xy: "?x \<noteq> ?y" using \<open>a \<noteq> b\<close> by (auto simp: sort2_def)
  note walks = walks_between_set [OF says ok xy, of ?ints] walks_between_distinct [OF says ok xy, of ?ints]
  have hops: "map poolAddress (getHopsFromRoute w r) = (if r then rev w else w)" for w r
    by (simp add: getHopsFromRoute_def comp_def)
  have routes: "map (\<lambda>path. map poolAddress (path_edges path)) paths =
      map ?f (walks_between (apg_graph (new_AdjacencyListPoolGraph pools)) ?ints ?x ?y)"
    using \<open>a \<noteq> b\<close> by (simp add: paths_def search_paths_def internal_walks_def split_beta hops comp_def)
  show "distinct (map (\<lambda>path. map poolAddress (path_edges path)) paths)"
    unfolding routes using walks(2) by (auto simp: distinct_map inj_on_def)
  have "(\<lambda>path. map poolAddress (path_edges path)) ` set paths = ?f ` trade_paths pools ?ints ?x ?y"
    using arg_cong [OF routes, of set] walks(1) by simp
  also have "\<dots> = trade_paths pools ?ints a b" by (subst (2) trade_paths_sort2) (auto simp: fun_eq_iff)
  finally show "(\<lambda>path. map poolAddress (path_edges path)) ` set paths = trade_paths pools ?ints a b" .
  show "\<forall>path \<in> set paths. path_startTokenMint path = a \<and> path_endTokenMint path = b"
    by (auto simp: paths_def search_paths_def)
qed

text \<open>
  C25: For pools with one address each and two different tokens, the graph that is built from
  them and searched for paths between two different tokens gives exactly the trades through
  one pool or through two pools with an (allowed) token between, each once, from the start
  token to the end token; between a token and itself it gives none.
\<close>

theorem pool_paths_exact:
  fixes options :: "PathSearchOptions option"
  assumes "pools_ok pools" "token_ok a" "token_ok b"
  defines "paths \<equiv> getPath (new_AdjacencyListPoolGraph pools) a b options"
  shows "(\<lambda>path. map poolAddress (path_edges path)) ` set paths =
      (if a = b then {} else trade_paths pools (map_option intermediateTokens options) a b) \<and>
    distinct (map (\<lambda>path. map poolAddress (path_edges path)) paths) \<and>
    (\<forall>path \<in> set paths. path_startTokenMint path = a \<and> path_endTokenMint path = b)"
proof (cases "a = b")
  case True
  then have "paths = []" unfolding paths_def getPath_eq [OF assms(2,3)] by (simp add: search_paths_def)
  with True show ?thesis by simp
next
  case False
  then show ?thesis
    using search_paths_exact [OF assms(1) False, of options] by (simp add: paths_def getPath_eq [OF assms(2,3)])
qed

definition example_pools :: "PoolTokenPair list" where
  "example_pools =
     [\<lparr>ptp_address = ''p1'', ptp_tokenMintA = ''A'', ptp_tokenMintB = ''B''\<rparr>,
      \<lparr>ptp_address = ''p2'', ptp_tokenMintA = ''A'', ptp_tokenMintB = ''C''\<rparr>,
      \<lparr>ptp_address = ''p3'', ptp_tokenMintA = ''B'', ptp_tokenMintB = ''C''\<rparr>]"

theorem pool_paths_exact_witness:
  "(\<lambda>path. map poolAddress (path_edges path)) `
      set (getPath (new_AdjacencyListPoolGraph example_pools) ''B'' ''A'' None) =
    trade_paths example_pools None ''B'' ''A'' \<and> [''p3'', ''p2''] \<in> trade_paths example_pools None ''B'' ''A''"
proof -
  have "pools_ok example_pools" "token_ok ''A''" "token_ok ''B''"
    by (auto simp: pools_ok_def example_pools_def token_ok_def PATH_ID_DELIMITER_def)
  from pool_paths_exact [OF this(1,3,2), of None] show ?thesis
    by (auto simp: trade_paths_iff connects_def example_pools_def)
qed

lemma fold_append_concat: "fold (\<lambda>x acc. acc @ f x) xs acc = acc @ concat (map f xs)"
  by (induction xs arbitrary: acc) auto

lemma combinations2_subset: "set (combinations2 xs) \<subseteq> set xs \<times> set xs"
  by (auto simp: combinations2_def)

lemma getPathsForPairs_eq:
  assumes "\<forall>(a, b) \<in> set pairs. token_ok a \<and> token_ok b"
  shows "getPathsForPairs this pairs options =
      map (\<lambda>(a, b). (getSearchPathId a b, getPath this a b options)) pairs"
proof -
  have "paths_from_walks (findWalks (filter (\<lambda>(s, e). s \<noteq> e) pairs) (apg_graph this)
      (map_option intermediateTokens options)) a b False a b = getPath this a b options"
    if ab: "(a, b) \<in> set pairs" for a b
  proof -
    have tok: "token_ok a" "token_ok b" using assms ab by auto
    show ?thesis
      unfolding getPath_eq [OF tok] by (rule paths_from_walks_eq(1)) (use assms ab tok in auto)
  qed
  then show ?thesis by (auto simp: getPathsForPairs_def Let_def)
qed

lemma getAllPaths_eq:
  assumes tok: "\<forall>a \<in> set (apg_tokens this). token_ok a"
  shows "getAllPaths this options = concat (map (\<lambda>(a, b).
      if a = b then [(getSearchPathId a b, [])]
      else [(getSearchPathId a b, getPath this a b options), (getSearchPathId b a, getPath this b a options)])
      (combinations2 (apg_tokens this)))"
proof -
  let ?cs = "combinations2 (apg_tokens this)"
  let ?w = "findWalks (filter (\<lambda>(s, e). s \<noteq> e) ?cs) (apg_graph this) (map_option intermediateTokens options)"
  let ?f = "\<lambda>(a, b). if a = b then [(getSearchPathId a b, [])]
      else [(getSearchPathId a b, paths_from_walks ?w a b False a b),
        (getSearchPathId b a, paths_from_walks ?w a b True b a)]"
  have cs: "\<forall>(a, b) \<in> set ?cs. token_ok a \<and> token_ok b"
    using combinations2_subset [of "apg_tokens this"] tok by auto
  have "getAllPaths this options = fold (\<lambda>p acc. acc @ ?f p) ?cs []"
    unfolding getAllPaths_def Let_def by (intro fold_cong refl) (auto simp: fun_eq_iff)
  also have "\<dots> = concat (map ?f ?cs)" by (simp add: fold_append_concat)
  also have "\<dots> = concat (map (\<lambda>(a, b). if a = b then [(getSearchPathId a b, [])]
      else [(getSearchPathId a b, getPath this a b options), (getSearchPathId b a, getPath this b a options)]) ?cs)"
  proof (intro arg_cong [where f = concat] map_cong refl)
    fix p assume p_in: "p \<in> set ?cs"
    obtain a b where p: "p = (a, b)" by force
    with p_in have ab: "(a, b) \<in> set ?cs" by simp
    then have tok: "token_ok a" "token_ok b" using cs by auto
    have filt: "\<forall>(a, b) \<in> set (filter (\<lambda>(s, e). s \<noteq> e) ?cs). token_ok a \<and> token_ok b \<and> a \<noteq> b"
      using cs by auto
    have mem: "(a, b) \<in> set (filter (\<lambda>(s, e). s \<noteq> e) ?cs) \<or> a = b" using ab by auto
    show "?f p = (case p of (a, b) \<Rightarrow> if a = b then [(getSearchPathId a b, [])]
      else [(getSearchPathId a b, getPath this a b options), (getSearchPathId b a, getPath this b a options)])"
      unfolding p prod.case paths_from_walks_eq [OF filt tok mem] getPath_eq [OF tok] getPath_eq [OF tok(2,1)] ..
  qed
  finally show ?thesis .
qed

text \<open>
  A search for many pairs of tokens, which shares the walks between pairs and their
  reverses, gives for each pair what the search for that pair alone gives; the search for all
  pairs gives each pair of tokens in both directions.
\<close>

lemma batch_search_agrees:
  assumes "\<forall>(a, b) \<in> set pairs. token_ok a \<and> token_ok b" "\<forall>a \<in> set (apg_tokens this). token_ok a"
  shows "getPathsForPairs this pairs options =
      map (\<lambda>(a, b). (getSearchPathId a b, getPath this a b options)) pairs \<and>
    getAllPaths this options = concat (map (\<lambda>(a, b).
      if a = b then [(getSearchPathId a b, [])]
      else [(getSearchPathId a b, getPath this a b options), (getSearchPathId b a, getPath this b a options)])
      (combinations2 (apg_tokens this)))"
  by (intro conjI getPathsForPairs_eq getAllPaths_eq assms)

lemma batch_search_agrees_witness:
  "getPathsForPairs (new_AdjacencyListPoolGraph example_pools) [(''A'', ''B''), (''B'', ''A''), (''C'', ''C'')] None =
    map (\<lambda>(a, b). (getSearchPathId a b, getPath (new_AdjacencyListPoolGraph example_pools) a b None))
      [(''A'', ''B''), (''B'', ''A''), (''C'', ''C'')]"
proof -
  have "pools_ok example_pools" by (auto simp: pools_ok_def example_pools_def)
  from buildPoolGraph_says [OF this]
  have "set (apg_tokens (new_AdjacencyListPoolGraph example_pools)) \<subseteq> {''A'', ''B'', ''C''}"
    by (auto simp: new_AdjacencyListPoolGraph_def split_beta connects_def example_pools_def)
  then show ?thesis
    by (intro batch_search_agrees [THEN conjunct1]) (auto simp: token_ok_def PATH_ID_DELIMITER_def)
qed

end
