(* ===== verification/K_Smallest.thy ===== *)
theory K_Smallest
  imports Complex_Main Prelude "HOL-Library.Multiset"
begin

text \<open>
  The selection of the \<open>k\<close> smallest items of an array
  (\<^verbatim>\<open>sdk/src/utils/math/k-smallest-partition.ts\<close>), Floyd and Rivest's algorithm: a loop that
  partitions the array around its \<open>k\<close>-th item and narrows the range to the part that holds
  index \<open>k\<close>; a range of more than 600 items is first narrowed by the same function on a
  sample. Numbers: the indices are \<open>int\<close>, the bounds of the sample are computed with real
  numbers where the code has doubles. Reading or swapping outside of the array is a
  \<^verbatim>\<open>TypeError\<close> here (the code would pass \<^verbatim>\<open>undefined\<close> to the comparison); the lemmas show that it
  does not happen. The locale \<open>comparator\<close> is what a comparison function owes the selection
  and the library's \<^verbatim>\<open>sort\<close>.
\<close>

subsection \<open>Arrays\<close>

definition arr_get :: "'a list \<Rightarrow> int \<Rightarrow> 'a res" where
  "arr_get arr i = (if 0 \<le> i \<and> i < int (length arr) then Inr (arr ! nat i) else Inl TypeError)"

definition arr_swap :: "'a list \<Rightarrow> int \<Rightarrow> int \<Rightarrow> 'a list res" where
  "arr_swap arr i j =
     bindE (arr_get arr i) (\<lambda>tmp.
     bindE (arr_get arr j) (\<lambda>x. Inr (arr[nat i := x, nat j := tmp])))"

text \<open>The two scans of a pass; a scan that leaves the array throws.\<close>

function scan_up :: "('a \<Rightarrow> 'a \<Rightarrow> int) \<Rightarrow> 'a list \<Rightarrow> 'a \<Rightarrow> int \<Rightarrow> int res" where
  "scan_up cmp arr t i =
     (if 0 \<le> i \<and> i < int (length arr)
      then if cmp (arr ! nat i) t < 0 then scan_up cmp arr t (i + 1) else Inr i
      else Inl TypeError)"
  by pat_completeness auto
termination
  by (relation "measure (\<lambda>(cmp, arr, t, i). nat (int (length arr) - i))") auto

function scan_down :: "('a \<Rightarrow> 'a \<Rightarrow> int) \<Rightarrow> 'a list \<Rightarrow> 'a \<Rightarrow> int \<Rightarrow> int res" where
  "scan_down cmp arr t j =
     (if 0 \<le> j \<and> j < int (length arr)
      then if cmp (arr ! nat j) t > 0 then scan_down cmp arr t (j - 1) else Inr j
      else Inl TypeError)"
  by pat_completeness auto
termination
  by (relation "measure (\<lambda>(cmp, arr, t, j). nat (j + 1))") auto

declare scan_up.simps [simp del] scan_down.simps [simp del]

subsection \<open>The partition and the selection\<close>

definition ks_pass ::
    "('a \<Rightarrow> 'a \<Rightarrow> int) \<Rightarrow> 'a \<Rightarrow> 'a list \<times> int \<times> int \<Rightarrow> ('a list \<times> int \<times> int) res" where
  "ks_pass cmp t = (\<lambda>(arr, i, j).
     bindE (arr_swap arr i j) (\<lambda>arr.
     bindE (scan_up cmp arr t (i + 1)) (\<lambda>i'.
     bindE (scan_down cmp arr t (j - 1)) (\<lambda>j'. Inr (arr, i', j')))))"

definition ks_partition ::
    "('a \<Rightarrow> 'a \<Rightarrow> int) \<Rightarrow> 'a list \<Rightarrow> int \<Rightarrow> int \<Rightarrow> int \<Rightarrow> ('a list \<times> int) res" where
  "ks_partition cmp arr k left right =
     bindE (arr_get arr k) (\<lambda>t.
     bindE (arr_swap arr left k) (\<lambda>arr.
     bindE (arr_get arr right) (\<lambda>r.
     bindE (if cmp r t > 0 then arr_swap arr left right else Inr arr) (\<lambda>arr.
     bindE (while_res (\<lambda>(arr, i, j). i < j) (ks_pass cmp t) (arr, left, right)) (\<lambda>(arr, i, j).
     bindE (arr_get arr left) (\<lambda>l.
     if cmp l t = 0 then bindE (arr_swap arr left j) (\<lambda>arr. Inr (arr, j))
     else bindE (arr_swap arr (j + 1) right) (\<lambda>arr. Inr (arr, j + 1))))))))"

definition RECURSION_BREAKPOINT :: int where "RECURSION_BREAKPOINT = 600"

definition sample_range :: "int \<Rightarrow> int \<Rightarrow> int \<Rightarrow> int \<times> int" where
  "sample_range k left right =
     (let n = real_of_int (right - left + 1);
          i = real_of_int (k - left + 1);
          z = ln n;
          s = 1 / 2 * exp (2 * z / 3);
          sd = 1 / 2 * sqrt (z * s * (n - s) / n) * (if i - n / 2 < 0 then - 1 else 1) in
      (max left \<lfloor>k - i * s / n + sd\<rfloor>, min right \<lfloor>k + (n - i) * s / n + sd\<rfloor>))"

text \<open>
  \<open>depth\<close> bounds the recursion on samples; \<open>kSmallestPartition\<close> gives the size of the range,
  which suffices since a sample is smaller than its range.
\<close>

primrec ks_loop ::
    "nat \<Rightarrow> ('a \<Rightarrow> 'a \<Rightarrow> int) \<Rightarrow> 'a list \<Rightarrow> int \<Rightarrow> int \<Rightarrow> int \<Rightarrow> 'a list res" where
  "ks_loop 0 cmp arr k left right = Inl NonTermination"
| "ks_loop (Suc depth) cmp arr k left right =
     bindE (while_res (\<lambda>(arr, left, right). right > left)
       (\<lambda>(arr, left, right).
          bindE (if right - left > RECURSION_BREAKPOINT
                 then let (newLeft, newRight) = sample_range k left right in
                      ks_loop depth cmp arr k newLeft newRight
                 else Inr arr) (\<lambda>arr.
          bindE (ks_partition cmp arr k left right) (\<lambda>(arr, j).
          Inr (arr, if j \<le> k then j + 1 else left, if k \<le> j then j - 1 else right))))
       (arr, left, right)) (\<lambda>(arr, left, right). Inr arr)"

definition kSmallestPartition ::
    "('a \<Rightarrow> 'a \<Rightarrow> int) \<Rightarrow> 'a list \<Rightarrow> int \<Rightarrow> int \<Rightarrow> int \<Rightarrow> 'a list res" where
  "kSmallestPartition cmp arr k left right = ks_loop (nat (right - left) + 1) cmp arr k left right"

subsection \<open>Rearrangements inside a range\<close>

text \<open>\<open>ranged l r a b\<close>: \<open>b\<close> rearranges the items of \<open>a\<close> at the indices from \<open>l\<close> to \<open>r\<close>.\<close>

definition ranged :: "int \<Rightarrow> int \<Rightarrow> 'a list \<Rightarrow> 'a list \<Rightarrow> bool" where
  "ranged l r a b \<longleftrightarrow> mset b = mset a \<and>
     (\<forall>p. 0 \<le> p \<and> p < int (length a) \<and> \<not> (l \<le> p \<and> p \<le> r) \<longrightarrow> b ! nat p = a ! nat p) \<and>
     (\<forall>p. 0 \<le> p \<and> p < int (length a) \<and> l \<le> p \<and> p \<le> r \<longrightarrow>
        (\<exists>q. 0 \<le> q \<and> q < int (length a) \<and> l \<le> q \<and> q \<le> r \<and> b ! nat p = a ! nat q))"

lemma ranged_length: "ranged l r a b \<Longrightarrow> length b = length a"
  by (metis ranged_def size_mset)

lemma ranged_refl: "ranged l r a a"
  by (auto simp: ranged_def)

lemma ranged_trans: "ranged l r a b \<Longrightarrow> ranged l r b c \<Longrightarrow> ranged l r a c"
  by (frule ranged_length) (unfold ranged_def, metis)

lemma ranged_mono: "ranged l r a b \<Longrightarrow> l' \<le> l \<Longrightarrow> r \<le> r' \<Longrightarrow> ranged l' r' a b"
  unfolding ranged_def by (smt (verit))

lemma ranged_outside:
  "ranged l r a b \<Longrightarrow> 0 \<le> p \<Longrightarrow> p < int (length a) \<Longrightarrow> p < l \<or> r < p \<Longrightarrow> b ! nat p = a ! nat p"
  unfolding ranged_def by auto

lemma ranged_inside:
  assumes "ranged l r a b" "0 \<le> p" "p < int (length a)" "l \<le> p" "p \<le> r"
  obtains q where "0 \<le> q" "q < int (length a)" "l \<le> q" "q \<le> r" "b ! nat p = a ! nat q"
  using assms unfolding ranged_def by blast

lemma arr_get_Inr [simp]: "0 \<le> i \<Longrightarrow> i < int (length a) \<Longrightarrow> arr_get a i = Inr (a ! nat i)"
  by (simp add: arr_get_def)

lemma arr_swap_ok:
  assumes "0 \<le> i" "i < int (length a)" "0 \<le> j" "j < int (length a)"
  obtains b where "arr_swap a i j = Inr b" "length b = length a"
    "\<And>p. 0 \<le> p \<Longrightarrow> p < int (length a) \<Longrightarrow>
       b ! nat p = (if p = j then a ! nat i else if p = i then a ! nat j else a ! nat p)"
    "\<And>l r. l \<le> i \<Longrightarrow> i \<le> r \<Longrightarrow> l \<le> j \<Longrightarrow> j \<le> r \<Longrightarrow> ranged l r a b"
proof -
  let ?b = "a[nat i := a ! nat j, nat j := a ! nat i]"
  have sw: "arr_swap a i j = Inr ?b" using assms by (simp add: arr_swap_def)
  have at: "?b ! nat p = (if p = j then a ! nat i else if p = i then a ! nat j else a ! nat p)"
    if "0 \<le> p" "p < int (length a)" for p
    using that assms by (auto simp: nth_list_update)
  have "mset ?b = mset a" using assms by (intro mset_swap) auto
  then have "ranged l r a ?b" if "l \<le> i" "i \<le> r" "l \<le> j" "j \<le> r" for l r
    using that assms at unfolding ranged_def by (smt (verit))
  with sw at show thesis by (intro that [of ?b]) auto
qed

lemma arr_swap_range:
  assumes "0 \<le> l" "l \<le> i" "i \<le> r" "l \<le> j" "j \<le> r" "r < int (length a)"
  obtains b where "arr_swap a i j = Inr b" "length b = length a" "ranged l r a b"
    "b ! nat i = a ! nat j" "b ! nat j = a ! nat i"
    "\<And>p. l \<le> p \<Longrightarrow> p \<le> r \<Longrightarrow> p \<noteq> i \<Longrightarrow> p \<noteq> j \<Longrightarrow> b ! nat p = a ! nat p"
proof -
  have "0 \<le> i" "i < int (length a)" "0 \<le> j" "j < int (length a)" using assms by auto
  from arr_swap_ok [OF this] obtain b where b: "arr_swap a i j = Inr b" "length b = length a"
    "\<And>p. 0 \<le> p \<Longrightarrow> p < int (length a) \<Longrightarrow>
       b ! nat p = (if p = j then a ! nat i else if p = i then a ! nat j else a ! nat p)"
    "\<And>l r. l \<le> i \<Longrightarrow> i \<le> r \<Longrightarrow> l \<le> j \<Longrightarrow> j \<le> r \<Longrightarrow> ranged l r a b" by blast
  show thesis
    by (rule that [of b]) (use b(1,2) b(4) [of l r] b(3) [of i] b(3) [of j] b(3) assms in auto)
qed

subsection \<open>The scans\<close>

lemma scan_up_stops:
  assumes "0 \<le> i" "i \<le> s" "s < int (length a)" "\<not> cmp (a ! nat s) t < 0"
  obtains i' where "scan_up cmp a t i = Inr i'" "i \<le> i'" "i' \<le> s"
    "\<And>p. i \<le> p \<Longrightarrow> p < i' \<Longrightarrow> cmp (a ! nat p) t < 0" "\<not> cmp (a ! nat i') t < 0"
  using assms
proof (induction "nat (s - i)" arbitrary: i thesis rule: less_induct)
  case less
  show ?case
  proof (cases "cmp (a ! nat i) t < 0")
    case False
    with less.prems show ?thesis by (intro less.prems(1) [of i]) (auto simp: scan_up.simps [of cmp a t i])
  next
    case True
    then have "i \<noteq> s" using less.prems by auto
    then have "i + 1 \<le> s" using less.prems by simp
    with less.prems obtain i' where i': "scan_up cmp a t (i + 1) = Inr i'" "i + 1 \<le> i'" "i' \<le> s"
      "\<And>p. i + 1 \<le> p \<Longrightarrow> p < i' \<Longrightarrow> cmp (a ! nat p) t < 0" "\<not> cmp (a ! nat i') t < 0"
      by (rule_tac less.hyps [of "i + 1"]) auto
    show ?thesis
    proof (rule less.prems(1))
      show "scan_up cmp a t i = Inr i'" using True i'(1) less.prems by (simp add: scan_up.simps [of cmp a t i])
      show "cmp (a ! nat p) t < 0" if "i \<le> p" "p < i'" for p
        using that True i'(4) [of p] by (cases "p = i") auto
    qed (use i' in auto)
  qed
qed

lemma scan_down_stops:
  assumes "0 \<le> s" "s \<le> j" "j < int (length a)" "\<not> cmp (a ! nat s) t > 0"
  obtains j' where "scan_down cmp a t j = Inr j'" "s \<le> j'" "j' \<le> j"
    "\<And>p. j' < p \<Longrightarrow> p \<le> j \<Longrightarrow> cmp (a ! nat p) t > 0" "\<not> cmp (a ! nat j') t > 0"
  using assms
proof (induction "nat (j - s)" arbitrary: j thesis rule: less_induct)
  case less
  show ?case
  proof (cases "cmp (a ! nat j) t > 0")
    case False
    with less.prems show ?thesis by (intro less.prems(1) [of j]) (auto simp: scan_down.simps [of cmp a t j])
  next
    case True
    then have "j \<noteq> s" using less.prems by auto
    then have "s \<le> j - 1" using less.prems by simp
    with less.prems obtain j' where j': "scan_down cmp a t (j - 1) = Inr j'" "s \<le> j'" "j' \<le> j - 1"
      "\<And>p. j' < p \<Longrightarrow> p \<le> j - 1 \<Longrightarrow> cmp (a ! nat p) t > 0" "\<not> cmp (a ! nat j') t > 0"
      by (rule_tac less.hyps [of "j - 1"]) auto
    show ?thesis
    proof (rule less.prems(1))
      show "scan_down cmp a t j = Inr j'" using True j'(1) less.prems by (simp add: scan_down.simps [of cmp a t j])
      show "cmp (a ! nat p) t > 0" if "j' < p" "p \<le> j" for p
        using that True j'(4) [of p] by (cases "p = j") auto
    qed (use j' in auto)
  qed
qed

subsection \<open>The sample lies around the index\<close>

lemma exp_ge_three_times:
  fixes x :: real
  assumes "7 / 2 \<le> x"
  shows "3 * x \<le> exp x"
proof -
  have "0 \<le> (x - 2) * (x - 2) - 2" 
    using assms mult_mono [of "3/2" "x - 2" "3/2" "x - 2"] by simp
  then have "3 * x \<le> 1 + x + x\<^sup>2 / 2" by (simp add: algebra_simps power2_eq_square)
  also have "\<dots> \<le> exp x" using assms by (intro exp_lower_Taylor_quadratic) simp
  finally show ?thesis .
qed

lemma ln_sample:
  fixes n :: real
  assumes "601 \<le> n"
  shows "21 / 4 \<le> ln n"
proof -
  have "exp (21 :: real) = exp 1 ^ 21" by (simp add: exp_of_nat_mult [symmetric])
  also have "\<dots> \<le> 3 ^ 21" using exp_le by (intro power_mono) auto
  also have "\<dots> \<le> 601 ^ 4" by simp
  also have "\<dots> \<le> n ^ 4" using assms by (intro power_mono) auto
  finally have "21 \<le> ln (n ^ 4)" using assms by (subst ln_ge_iff) auto
  also have "\<dots> = 4 * ln n" using assms by (simp add: ln_realpow)
  finally show ?thesis by simp
qed

text \<open>The deviation \<open>sd\<close> of the sample is at most half of its size \<open>s\<close>.\<close>

lemma sample_deviation:
  fixes n :: real
  defines "z \<equiv> ln n" and "s \<equiv> 1 / 2 * exp (2 * ln n / 3)"
  assumes n: "601 \<le> n"
  shows "0 < s" "2 * s < n" "1 / 2 * sqrt (z * s * (n - s) / n) \<le> s / 2" "0 \<le> z * s * (n - s) / n"
proof -
  show s0: "0 < s" by (simp add: s_def)
  have z: "21 / 4 \<le> z" using ln_sample [OF n] by (simp add: z_def)
  have "exp (2 * ln n / 3) < exp (ln n)" using z by (simp add: z_def)
  then show sn: "2 * s < n" using n by (simp add: s_def)
  have "3 * (2 * z / 3) \<le> exp (2 * z / 3)" using z by (intro exp_ge_three_times) simp
  then have zs: "z \<le> s" by (simp add: s_def z_def)
  have ns: "0 \<le> (n - s) / n" "(n - s) / n \<le> 1" using s0 sn n by auto
  show nonneg: "0 \<le> z * s * (n - s) / n" using z s0 sn n by simp
  have "z * s * ((n - s) / n) \<le> s * s * 1"
    using zs z s0 ns by (intro mult_mono) auto
  then have "sqrt (z * s * (n - s) / n) \<le> sqrt (s * s)" by (intro real_sqrt_le_mono) simp
  then show "1 / 2 * sqrt (z * s * (n - s) / n) \<le> s / 2" using s0 by simp
qed

lemma sample_range_around:
  assumes "left \<le> k" "k \<le> right" "RECURSION_BREAKPOINT < right - left"
    and "sample_range k left right = (l, r)"
  shows "left \<le> l" "l \<le> k" "k \<le> r" "r \<le> right" "r - l < right - left"
proof -
  define n where "n = real_of_int (right - left + 1)"
  define i where "i = real_of_int (k - left + 1)"
  define s where "s = 1 / 2 * exp (2 * ln n / 3)"
  define d where "d = 1 / 2 * sqrt (ln n * s * (n - s) / n)"
  define sd where "sd = d * (if i - n / 2 < 0 then - 1 else 1)"
  have n: "601 \<le> n" using assms(3) unfolding n_def RECURSION_BREAKPOINT_def by linarith
  have lr: "l = max left \<lfloor>k - i * s / n + sd\<rfloor>" "r = min right \<lfloor>k + (n - i) * s / n + sd\<rfloor>"
    using assms(4) by (auto simp: sample_range_def Let_def n_def i_def s_def d_def sd_def)
  note dev = sample_deviation [OF n, folded s_def, folded d_def]
  have d0: "0 \<le> d" using dev(4) by (simp add: d_def)
  have i: "1 \<le> i" "i \<le> n" using assms(1,2) by (simp_all add: i_def n_def)
  have pos: "0 \<le> i * s / n" "0 \<le> (n - i) * s / n" using i dev(1) n by simp_all
  have "- (i * s / n) + sd \<le> 0"
  proof (cases "i - n / 2 < 0")
    case True
    then show ?thesis using d0 pos by (simp add: sd_def)
  next
    case False
    then have "1 / 2 * s \<le> i / n * s" using n dev(1) by (intro mult_right_mono) (auto simp: field_simps)
    then have "s / 2 \<le> i * s / n" by simp
    moreover have "sd = d" using False by (simp add: sd_def)
    ultimately show ?thesis using dev(3) unfolding d_def by linarith
  qed
  then show "left \<le> l" "l \<le> k" using assms(1) by (auto simp: lr) linarith
  have "0 \<le> (n - i) * s / n + sd"
  proof (cases "i - n / 2 < 0")
    case False
    then show ?thesis using d0 pos by (simp add: sd_def)
  next
    case True
    then have "1 / 2 * s \<le> (n - i) / n * s" using n dev(1) by (intro mult_right_mono) (auto simp: field_simps)
    then have "s / 2 \<le> (n - i) * s / n" by simp
    moreover have "sd = - d" using True by (simp add: sd_def)
    ultimately show ?thesis using dev(3) unfolding d_def by linarith
  qed
  then show "k \<le> r" "r \<le> right" using assms(2) by (auto simp: lr le_floor_iff)
  have "real_of_int r \<le> k + (n - i) * s / n + sd" "k - i * s / n + sd < l + 1"
    by (auto simp: lr) linarith+
  moreover have "i * s / n + (n - i) * s / n = s" using n by (simp add: field_simps)
  ultimately have "real_of_int (r - l) < s + 1" by simp
  then have "real_of_int (r - l) < n - 1" using dev(2) n by simp
  then show "r - l < right - left" by (simp add: n_def)
qed

subsection \<open>Comparison functions\<close>

locale comparator =
  fixes cmp :: "'a \<Rightarrow> 'a \<Rightarrow> int"
  assumes cmp_swap: "sgn (cmp b a) = - sgn (cmp a b)"
    and cmp_trans: "cmp a b \<le> 0 \<Longrightarrow> cmp b c \<le> 0 \<Longrightarrow> cmp a c \<le> 0"
begin

lemma cmp_flip: "cmp b a < 0 \<longleftrightarrow> 0 < cmp a b" "cmp b a \<le> 0 \<longleftrightarrow> 0 \<le> cmp a b" "cmp b a = 0 \<longleftrightarrow> cmp a b = 0"
  using cmp_swap [of b a] by (auto simp: sgn_if split: if_splits)

lemma cmp_refl: "cmp a a = 0"
  using cmp_swap [of a a] by (auto simp: sgn_if split: if_splits)

text \<open>The state of the inner loop: what is left of \<open>i\<close> and right of \<open>j\<close> is settled around \<open>t\<close>.\<close>

definition settled :: "int \<Rightarrow> int \<Rightarrow> 'a \<Rightarrow> 'a list \<Rightarrow> 'a list \<times> int \<times> int \<Rightarrow> bool" where
  "settled left right t a0 = (\<lambda>(a, i, j).
     ranged left right a0 a \<and> left \<le> i \<and> i \<le> right \<and> left \<le> j \<and> j \<le> right \<and>
     (i = left \<and> j = right \<or> left < i \<and> j < right) \<and>
     (\<forall>p. left \<le> p \<and> p < i \<longrightarrow> cmp (a ! nat p) t \<le> 0) \<and>
     (\<forall>p. j < p \<and> p \<le> right \<longrightarrow> 0 \<le> cmp (a ! nat p) t) \<and>
     0 \<le> cmp (a ! nat i) t \<and> cmp (a ! nat j) t \<le> 0 \<and>
     (cmp (a ! nat left) t = 0 \<or> cmp (a ! nat right) t = 0))"

lemma settled_pass:
  assumes st: "settled left right t a0 (a, i, j)" and "i < j" and b: "0 \<le> left" "right < int (length a0)"
  obtains a' i' j' where "ks_pass cmp t (a, i, j) = Inr (a', i', j')" "i < i'" "j' < j"
    "settled left right t a0 (a', i', j')"
proof -
  from st have ij: "left \<le> i" "j \<le> right" and len: "length a = length a0"
    by (auto simp: settled_def dest: ranged_length)
  with b \<open>i < j\<close> have bds: "0 \<le> i" "i < int (length a)" "0 \<le> j" "j < int (length a)" by auto
  obtain a' where a': "arr_swap a i j = Inr a'" "length a' = length a"
    "\<And>p. 0 \<le> p \<Longrightarrow> p < int (length a) \<Longrightarrow>
       a' ! nat p = (if p = j then a ! nat i else if p = i then a ! nat j else a ! nat p)"
    and rg: "\<And>l r. l \<le> i \<Longrightarrow> i \<le> r \<Longrightarrow> l \<le> j \<Longrightarrow> j \<le> r \<Longrightarrow> ranged l r a a'"
    using arr_swap_ok [OF bds] by blast
  have at: "\<not> cmp (a' ! nat j) t < 0" "\<not> cmp (a' ! nat i) t > 0"
    using st bds a'(3) by (auto simp: settled_def)
  obtain i' where i': "scan_up cmp a' t (i + 1) = Inr i'" "i + 1 \<le> i'" "i' \<le> j"
    "\<And>p. i + 1 \<le> p \<Longrightarrow> p < i' \<Longrightarrow> cmp (a' ! nat p) t < 0" "\<not> cmp (a' ! nat i') t < 0"
    by (rule scan_up_stops [of "i + 1" j a' cmp t]) (use bds at \<open>i < j\<close> a'(2) in auto)
  obtain j' where j': "scan_down cmp a' t (j - 1) = Inr j'" "i \<le> j'" "j' \<le> j - 1"
    "\<And>p. j' < p \<Longrightarrow> p \<le> j - 1 \<Longrightarrow> cmp (a' ! nat p) t > 0" "\<not> cmp (a' ! nat j') t > 0"
    by (rule scan_down_stops [of i "j - 1" a' cmp t]) (use bds at \<open>i < j\<close> a'(2) in auto)
  show thesis
  proof (rule that)
    show "ks_pass cmp t (a, i, j) = Inr (a', i', j')" by (simp add: ks_pass_def a'(1) i'(1) j'(1))
    have "ranged left right a0 a'"
      using st ij \<open>i < j\<close> rg [of left right] by (auto simp: settled_def intro: ranged_trans)
    moreover have "cmp (a' ! nat p) t \<le> 0" if "left \<le> p" "p < i'" for p
    proof (cases "i + 1 \<le> p")
      case True
      then show ?thesis using i'(4) [OF True] that by simp
    next
      case False
      then show ?thesis using that st at(2) a'(3) [of p] b len bds \<open>i < j\<close> by (cases "p = i") (auto simp: settled_def)
    qed
    moreover have "0 \<le> cmp (a' ! nat p) t" if "j' < p" "p \<le> right" for p
    proof (cases "p \<le> j - 1")
      case True
      then show ?thesis using j'(4) [OF that(1) True] by simp
    next
      case False
      then show ?thesis using that st at(1) a'(3) [of p] b len bds \<open>i < j\<close> by (cases "p = j") (auto simp: settled_def)
    qed
    moreover have "cmp (a' ! nat left) t = 0 \<or> cmp (a' ! nat right) t = 0"
      using st bds \<open>i < j\<close> b len a'(3) [of left] a'(3) [of right] by (auto simp: settled_def split: if_splits)
    ultimately show "settled left right t a0 (a', i', j')"
      using i' j' ij \<open>i < j\<close> by (simp add: settled_def)
  qed (use i' j' in auto)
qed

lemma settled_loop:
  assumes "settled left right t a0 (a, i, j)" "0 \<le> left" "right < int (length a0)"
  shows "\<exists>b i' j'. while_res (\<lambda>(arr, i, j). i < j) (ks_pass cmp t) (a, i, j) = Inr (b, i', j') \<and>
    settled left right t a0 (b, i', j') \<and> \<not> i' < j'"
proof -
  let ?Q = "\<lambda>r. \<exists>b i' j'. r = Inr (b, i', j') \<and> settled left right t a0 (b, i', j') \<and> \<not> i' < (j' :: int)"
  have pass: "\<exists>a' i' j'. ks_pass cmp t (a, i, j) = Inr (a', i', j') \<and> i < i' \<and> j' < j \<and>
      settled left right t a0 (a', i', j')"
    if "settled left right t a0 (a, i, j)" "i < j" for a i j
    using settled_pass [OF that assms(2,3)] by metis
  have "?Q (while_res (\<lambda>(arr, i, j). i < j) (ks_pass cmp t) (a, i, j))"
  proof (rule while_res_total [where I = "settled left right t a0" and m = "\<lambda>(a, i, j). nat (j - i)"])
    fix u u' assume "settled left right t a0 u" "case u of (arr, i, j) \<Rightarrow> i < j" "ks_pass cmp t u = Inr u'"
    with pass [of "fst u" "fst (snd u)" "snd (snd u)"]
    show "settled left right t a0 u' \<and> (case u' of (a, i, j) \<Rightarrow> nat (j - i)) < (case u of (a, i, j) \<Rightarrow> nat (j - i))"
      by (cases u) auto
  next
    fix u e assume "settled left right t a0 u" "case u of (arr, i, j) \<Rightarrow> i < j" "ks_pass cmp t u = Inl e"
    with pass [of "fst u" "fst (snd u)" "snd (snd u)"]
    show "?Q (Inl e)" by (cases u) auto
  qed (use assms in auto)
  then show ?thesis by simp
qed

lemma pivot_swap:
  assumes "0 \<le> left" "left \<le> j" "j < right" "right < int (length b)"
    and low: "\<And>p. left \<le> p \<Longrightarrow> p \<le> j \<Longrightarrow> cmp (b ! nat p) t \<le> 0"
    and high: "\<And>p. j < p \<Longrightarrow> p \<le> right \<Longrightarrow> 0 \<le> cmp (b ! nat p) t"
    and t: "cmp (b ! nat left) t = 0 \<or> cmp (b ! nat right) t = 0"
  obtains c j' where "(if cmp (b ! nat left) t = 0 then bindE (arr_swap b left j) (\<lambda>arr. Inr (arr, j))
     else bindE (arr_swap b (j + 1) right) (\<lambda>arr. Inr (arr, j + 1))) = Inr (c, j')"
    "ranged left right b c" "left \<le> j'" "j' \<le> right" "cmp (c ! nat j') t = 0"
    "\<And>p. left \<le> p \<Longrightarrow> p < j' \<Longrightarrow> cmp (c ! nat p) t \<le> 0"
    "\<And>p. j' < p \<Longrightarrow> p \<le> right \<Longrightarrow> 0 \<le> cmp (c ! nat p) t"
proof (cases "cmp (b ! nat left) t = 0")
  case True
  obtain c where c: "arr_swap b left j = Inr c" "ranged left right b c"
    "c ! nat left = b ! nat j" "c ! nat j = b ! nat left"
    "\<And>p. left \<le> p \<Longrightarrow> p \<le> right \<Longrightarrow> p \<noteq> left \<Longrightarrow> p \<noteq> j \<Longrightarrow> c ! nat p = b ! nat p"
    by (rule arr_swap_range [of left left right j b]) (use assms(1-4) in auto)
  have "cmp (c ! nat p) t \<le> 0" if "left \<le> p" "p < j" for p
    using that c low [of p] low [of j] assms(1-4) by (cases "p = left") auto
  moreover have "0 \<le> cmp (c ! nat p) t" if "j < p" "p \<le> right" for p
    using that c high [of p] assms(1-4) by auto
  ultimately show thesis using True c assms(1-4) by (intro that [of c j]) auto
next
  case False
  with t have r: "cmp (b ! nat right) t = 0" by simp
  obtain c where c: "arr_swap b (j + 1) right = Inr c" "ranged left right b c"
    "c ! nat (j + 1) = b ! nat right" "c ! nat right = b ! nat (j + 1)"
    "\<And>p. left \<le> p \<Longrightarrow> p \<le> right \<Longrightarrow> p \<noteq> j + 1 \<Longrightarrow> p \<noteq> right \<Longrightarrow> c ! nat p = b ! nat p"
    by (rule arr_swap_range [of left "j + 1" right right b]) (use assms(1-4) in auto)
  have "cmp (c ! nat p) t \<le> 0" if "left \<le> p" "p < j + 1" for p
    using that c low [of p] assms(1-4) by auto
  moreover have "0 \<le> cmp (c ! nat p) t" if "j + 1 < p" "p \<le> right" for p
    using that c high [of p] high [of "j + 1"] assms(1-4) by (cases "p = right") auto
  ultimately show thesis using False r c assms(1-4) by (intro that [of c "j + 1"]) auto
qed

lemma ks_partition_ok:
  assumes "0 \<le> left" "left < right" "right < int (length a)" "left \<le> k" "k \<le> right"
  obtains b j where "ks_partition cmp a k left right = Inr (b, j)" "ranged left right a b"
    "left \<le> j" "j \<le> right"
    "\<And>p. left \<le> p \<Longrightarrow> p \<le> j \<Longrightarrow> cmp (b ! nat p) (b ! nat j) \<le> 0"
    "\<And>p. j \<le> p \<Longrightarrow> p \<le> right \<Longrightarrow> cmp (b ! nat j) (b ! nat p) \<le> 0"
proof -
  define t where "t = a ! nat k"
  have bds: "0 \<le> left" "left < int (length a)" "0 \<le> k" "k < int (length a)" "0 \<le> right" "right < int (length a)"
    using assms by auto
  obtain a1 where a1: "arr_swap a left k = Inr a1" "length a1 = length a" "ranged left right a a1"
    "a1 ! nat left = t"
    by (rule arr_swap_range [of left left right k a]) (use assms in \<open>auto simp: t_def\<close>)
  obtain a2 where a2: "(if cmp (a1 ! nat right) t > 0 then arr_swap a1 left right else Inr a1) = Inr a2"
    "settled left right t a (a2, left, right)"
  proof (cases "cmp (a1 ! nat right) t > 0")
    case False
    with a1 assms show thesis by (intro that [of a1]) (auto simp: settled_def cmp_refl)
  next
    case True
    obtain b where "arr_swap a1 left right = Inr b" "ranged left right a1 b"
      "b ! nat left = a1 ! nat right" "b ! nat right = t"
      by (rule arr_swap_range [of left left right right a1]) (use assms a1 in auto)
    with True a1 assms show thesis
      by (intro that [of b]) (auto simp: settled_def cmp_refl intro: ranged_trans)
  qed
  obtain b i j where loop: "while_res (\<lambda>(arr, i, j). i < j) (ks_pass cmp t) (a2, left, right) = Inr (b, i, j)"
    and st: "settled left right t a (b, i, j)" and "\<not> i < j"
    using settled_loop [OF a2(2) bds(1,6)] by blast
  have ij: "left < i" "j < right" "left \<le> j" using st \<open>\<not> i < j\<close> assms by (auto simp: settled_def)
  have len: "length b = length a" using st by (auto simp: settled_def dest: ranged_length)
  have low: "cmp (b ! nat p) t \<le> 0" if "left \<le> p" "p \<le> j" for p
    using st that \<open>\<not> i < j\<close> by (cases "p = j") (auto simp: settled_def)
  have high: "0 \<le> cmp (b ! nat p) t" if "j < p" "p \<le> right" for p
    using st that by (auto simp: settled_def)
  obtain c j' where c: "(if cmp (b ! nat left) t = 0 then bindE (arr_swap b left j) (\<lambda>arr. Inr (arr, j))
     else bindE (arr_swap b (j + 1) right) (\<lambda>arr. Inr (arr, j + 1))) = Inr (c, j')"
    "ranged left right b c" "left \<le> j'" "j' \<le> right" "cmp (c ! nat j') t = 0"
    "\<And>p. left \<le> p \<Longrightarrow> p < j' \<Longrightarrow> cmp (c ! nat p) t \<le> 0"
    "\<And>p. j' < p \<Longrightarrow> p \<le> right \<Longrightarrow> 0 \<le> cmp (c ! nat p) t"
    by (rule pivot_swap [of left j right b t])
      (use ij low high len assms st in \<open>auto simp: settled_def\<close>)
  show thesis
  proof (rule that)
    show "ks_partition cmp a k left right = Inr (c, j')"
      using bds a1 a2(1) loop c(1) len by (simp add: ks_partition_def t_def [symmetric])
    show "ranged left right a c" using st c(2) by (auto simp: settled_def intro: ranged_trans)
    show "cmp (c ! nat p) (c ! nat j') \<le> 0" if "left \<le> p" "p \<le> j'" for p
      using c(5,6) that cmp_trans [of "c ! nat p" t "c ! nat j'"] cmp_flip [of t "c ! nat j'"]
      by (cases "p = j'") (auto simp: cmp_refl)
    show "cmp (c ! nat j') (c ! nat p) \<le> 0" if "j' \<le> p" "p \<le> right" for p
      using c(5,7) that cmp_trans [of "c ! nat j'" t "c ! nat p"] cmp_flip [of t "c ! nat p"]
      by (cases "p = j'") (auto simp: cmp_refl)
  qed (use c in auto)
qed

text \<open>Everything before \<open>m\<close> is at most everything from \<open>m\<close> on, inside a range.\<close>

definition split_at :: "int \<Rightarrow> int \<Rightarrow> int \<Rightarrow> 'a list \<Rightarrow> bool" where
  "split_at left right m b \<longleftrightarrow>
     (\<forall>p q. left \<le> p \<and> p < m \<and> m \<le> q \<and> q \<le> right \<longrightarrow> cmp (b ! nat p) (b ! nat q) \<le> 0)"

lemma split_ranged:
  assumes sp: "split_at left right m b" and rg: "ranged l r b c" and m: "m \<le> l \<or> r < m"
    and b: "0 \<le> left" "left \<le> l" "r \<le> right" "right < int (length b)"
  shows "split_at left right m c"
  unfolding split_at_def
proof (intro allI impI, elim conjE)
  fix p q assume pq: "left \<le> p" "p < m" "m \<le> q" "q \<le> right"
  have from_b: "\<exists>p'. left \<le> p' \<and> p' \<le> right \<and> (p < m \<longleftrightarrow> p' < m) \<and> c ! nat p = b ! nat p'"
    if "left \<le> p" "p \<le> right" for p
  proof (cases "l \<le> p \<and> p \<le> r")
    case True
    then obtain p' where "l \<le> p'" "p' \<le> r" "c ! nat p = b ! nat p'"
      using ranged_inside [OF rg, of p] that b by auto
    then show ?thesis using True m b by (intro exI [of _ p']) auto
  next
    case False
    then show ?thesis using ranged_outside [OF rg, of p] that b by (intro exI [of _ p]) auto
  qed
  from from_b [of p] from_b [of q] pq sp show "cmp (c ! nat p) (c ! nat q) \<le> 0"
    by (auto simp: split_at_def)
qed

lemma split_pivot:
  assumes "split_at left right l b" "split_at left right (r + 1) b" "l \<le> j" "j \<le> r"
    and "\<And>p. l \<le> p \<Longrightarrow> p \<le> j \<Longrightarrow> cmp (b ! nat p) (b ! nat j) \<le> 0"
    and "\<And>p. j \<le> p \<Longrightarrow> p \<le> r \<Longrightarrow> cmp (b ! nat j) (b ! nat p) \<le> 0"
    and m: "m = j \<or> m = j + 1"
  shows "split_at left right m b"
  unfolding split_at_def
proof (intro allI impI, elim conjE)
  fix p q assume pq: "left \<le> p" "p < m" "m \<le> q" "q \<le> right"
  show "cmp (b ! nat p) (b ! nat q) \<le> 0"
  proof (cases "l \<le> p \<and> q \<le> r")
    case True
    then show ?thesis
      using assms(5) [of p] assms(6) [of q] pq m cmp_trans [of "b ! nat p" "b ! nat j" "b ! nat q"] by auto
  next
    case False
    then have "p < l \<and> l \<le> q \<or> p < r + 1 \<and> r + 1 \<le> q" using pq m assms(3,4) by auto
    then show ?thesis using assms(1,2) pq by (auto simp: split_at_def)
  qed
qed

text \<open>The loop: the range still holds \<open>k\<close>, or the item of \<open>k\<close> is settled.\<close>

definition ks_inv :: "int \<Rightarrow> int \<Rightarrow> int \<Rightarrow> 'a list \<Rightarrow> 'a list \<times> int \<times> int \<Rightarrow> bool" where
  "ks_inv left right k a = (\<lambda>(b, l, r).
     ranged left right a b \<and> left \<le> l \<and> r \<le> right \<and> (l \<le> k \<and> k \<le> r \<or> l = k + 1 \<and> r = k - 1) \<and>
     split_at left right l b \<and> split_at left right (r + 1) b)"

lemma ks_inv_step:
  assumes inv: "ks_inv left right k a (b, l, r)" and "l < r" and rg: "ranged l r b c"
    and b: "0 \<le> left" "right < int (length a)" and j: "l \<le> j" "j \<le> r"
    and "\<And>p. l \<le> p \<Longrightarrow> p \<le> j \<Longrightarrow> cmp (c ! nat p) (c ! nat j) \<le> 0"
    and "\<And>p. j \<le> p \<Longrightarrow> p \<le> r \<Longrightarrow> cmp (c ! nat j) (c ! nat p) \<le> 0"
  shows "ks_inv left right k a (c, if j \<le> k then j + 1 else l, if k \<le> j then j - 1 else r)"
    "nat ((if k \<le> j then j - 1 else r) - (if j \<le> k then j + 1 else l)) < nat (r - l)"
proof -
  have k: "l \<le> k" "k \<le> r" and lr: "left \<le> l" "r \<le> right" "length b = length a"
    using inv \<open>l < r\<close> by (auto simp: ks_inv_def dest: ranged_length)
  have sp: "split_at left right l c" "split_at left right (r + 1) c"
    using inv split_ranged [OF _ rg _ b(1) lr(1,2)] b(2) lr(3) by (auto simp: ks_inv_def)
  have "split_at left right j c" "split_at left right (j + 1) c"
    using split_pivot [OF sp j assms(8,9)] by blast+
  moreover have "ranged left right a c"
    using inv rg lr by (auto simp: ks_inv_def intro: ranged_trans ranged_mono)
  ultimately show "ks_inv left right k a (c, if j \<le> k then j + 1 else l, if k \<le> j then j - 1 else r)"
    using sp k j lr by (simp add: ks_inv_def)
  show "nat ((if k \<le> j then j - 1 else r) - (if j \<le> k then j + 1 else l)) < nat (r - l)"
    using k j \<open>l < r\<close> by auto
qed

lemma ks_loop_ok:
  assumes "nat (right - left) < depth" "0 \<le> left" "right < int (length a)" "left \<le> k" "k \<le> right"
  shows "\<exists>b. ks_loop depth cmp a k left right = Inr b \<and> ranged left right a b \<and> split_at left right k b"
  using assms
proof (induction depth arbitrary: a left right)
  case 0
  then show ?case by simp
next
  case (Suc depth)
  let ?body = "\<lambda>(arr, left, right).
          bindE (if right - left > RECURSION_BREAKPOINT
                 then let (newLeft, newRight) = sample_range k left right in
                      ks_loop depth cmp arr k newLeft newRight
                 else Inr arr) (\<lambda>arr.
          bindE (ks_partition cmp arr k left right) (\<lambda>(arr, j).
          Inr (arr, if j \<le> k then j + 1 else left, if k \<le> j then j - 1 else right)))"
  let ?m = "\<lambda>(b :: 'a list, l, r). nat (r - l)"
  have body: "\<exists>s'. ?body (b, l, r) = Inr s' \<and> ks_inv left right k a s' \<and> ?m s' < nat (r - l)"
    if inv: "ks_inv left right k a (b, l, r)" and "l < r" for b l r
  proof -
    have k: "l \<le> k" "k \<le> r" "left \<le> l" "r \<le> right" "length b = length a"
      using inv \<open>l < r\<close> by (auto simp: ks_inv_def dest: ranged_length)
    obtain c where c: "(if r - l > RECURSION_BREAKPOINT
                 then let (newLeft, newRight) = sample_range k l r in ks_loop depth cmp b k newLeft newRight
                 else Inr b) = Inr c" "ranged l r b c"
    proof (cases "r - l > RECURSION_BREAKPOINT")
      case True
      obtain nl nr where s: "sample_range k l r = (nl, nr)" by force
      note n = sample_range_around [OF k(1,2) True s]
      have "nat (nr - nl) < depth" using n k Suc.prems(1) by linarith
      with Suc.IH [of nr nl b] obtain c where "ks_loop depth cmp b k nl nr = Inr c" "ranged nl nr b c"
        using n k Suc.prems by auto
      then show thesis using True s n by (intro that [of c]) (auto intro: ranged_mono)
    qed (use ranged_refl in \<open>auto intro: that\<close>)
    have len: "length c = length a" using c(2) k(5) by (simp add: ranged_length)
    obtain d j where d: "ks_partition cmp c k l r = Inr (d, j)" "ranged l r c d" "l \<le> j" "j \<le> r"
      "\<And>p. l \<le> p \<Longrightarrow> p \<le> j \<Longrightarrow> cmp (d ! nat p) (d ! nat j) \<le> 0"
      "\<And>p. j \<le> p \<Longrightarrow> p \<le> r \<Longrightarrow> cmp (d ! nat j) (d ! nat p) \<le> 0"
      using ks_partition_ok [of l r c k] len k Suc.prems \<open>l < r\<close> by auto
    note step = ks_inv_step [OF inv \<open>l < r\<close> ranged_trans [OF c(2) d(2)] Suc.prems(2,3) d(3-6)]
    show ?thesis using c(1) d(1) step by simp
  qed
  let ?Q = "\<lambda>x. \<exists>b l r. x = Inr (b, l, r) \<and> ks_inv left right k a (b, l, r) \<and> \<not> l < r"
  have "?Q (while_res (\<lambda>(arr, left, right). right > left) ?body (a, left, right))"
  proof (rule while_res_total [where I = "ks_inv left right k a" and m = ?m])
    show "ks_inv left right k a (a, left, right)"
      using Suc.prems by (auto simp: ks_inv_def ranged_refl split_at_def)
  qed (use body in \<open>fastforce+\<close>)
  then obtain b l r where "while_res (\<lambda>(arr, left, right). right > left) ?body (a, left, right) = Inr (b, l, r)"
    and inv: "ks_inv left right k a (b, l, r)" "\<not> l < r" by blast
  then have "ks_loop (Suc depth) cmp a k left right = Inr b" by simp
  moreover have "l = k \<or> r + 1 = k" using inv by (auto simp: ks_inv_def)
  then have "split_at left right k b" using inv by (auto simp: ks_inv_def)
  ultimately show ?case using inv by (auto simp: ks_inv_def)
qed

lemma kSmallestPartition_ok:
  assumes "0 \<le> left" "right < int (length a)" "left \<le> k" "k \<le> right"
  obtains b where "kSmallestPartition cmp a k left right = Inr b" "ranged left right a b" "split_at left right k b"
  using ks_loop_ok [of right left "nat (right - left) + 1" a k] assms by (auto simp: kSmallestPartition_def)

end

subsection \<open>Sorting\<close>

text \<open>
  \<^verbatim>\<open>Array.prototype.sort(compare)\<close> is a stable sort; for a comparison that is a total preorder
  all stable sorts give the same array. It is modelled by insertion.
\<close>

primrec js_insert :: "('a \<Rightarrow> 'a \<Rightarrow> int) \<Rightarrow> 'a \<Rightarrow> 'a list \<Rightarrow> 'a list" where
  "js_insert cmp x [] = [x]"
| "js_insert cmp x (y # ys) = (if cmp x y \<le> 0 then x # y # ys else y # js_insert cmp x ys)"

definition js_sort :: "('a \<Rightarrow> 'a \<Rightarrow> int) \<Rightarrow> 'a list \<Rightarrow> 'a list" where
  "js_sort cmp xs = foldr (js_insert cmp) xs []"

lemma mset_js_insert [simp]: "mset (js_insert cmp x ys) = add_mset x (mset ys)"
  by (induction ys) auto

lemma mset_js_sort [simp]: "mset (js_sort cmp xs) = mset xs"
  by (induction xs) (auto simp: js_sort_def)

lemma set_js_sort [simp]: "set (js_sort cmp xs) = set xs"
  by (metis mset_js_sort set_mset_mset)

lemma length_js_sort [simp]: "length (js_sort cmp xs) = length xs"
  by (metis mset_js_sort size_mset)

context comparator
begin

lemma js_insert_sorted:
  "sorted_wrt (\<lambda>a b. cmp a b \<le> 0) ys \<Longrightarrow> sorted_wrt (\<lambda>a b. cmp a b \<le> 0) (js_insert cmp x ys)"
proof (induction ys)
  case (Cons y ys)
  have "set (js_insert cmp x ys) = insert x (set ys)"
    by (metis mset_js_insert set_mset_add_mset_insert set_mset_mset)
  with Cons show ?case
    using cmp_flip [of x y] by (auto intro: cmp_trans)
qed simp

lemma js_sort_sorted: "sorted_wrt (\<lambda>a b. cmp a b \<le> 0) (js_sort cmp xs)"
  by (induction xs) (auto simp: js_sort_def intro: js_insert_sorted)

end

subsection \<open>The selection\<close>

text \<open>
  C14: \<open>kSmallestPartition\<close>, called with a comparison function that is a total preorder and an
  index \<open>k\<close> of a non-empty range inside the array, returns (both loops end, no read leaves
  the array). Its result rearranges the range and nothing else, and in it no item of the
  range before \<open>k\<close> is larger than one from \<open>k\<close> on.
\<close>

theorem k_smallest_partition_correct:
  assumes "\<And>x y. sgn (cmp y x) = - sgn (cmp x y)"
    and "\<And>x y z. cmp x y \<le> 0 \<Longrightarrow> cmp y z \<le> 0 \<Longrightarrow> cmp x z \<le> 0"
    and "0 \<le> left" "right < int (length arr)" "left \<le> k" "k \<le> right"
  shows "\<exists>res. kSmallestPartition cmp arr k left right = Inr res \<and>
    mset res = mset arr \<and>
    (\<forall>p < length arr. int p < left \<or> right < int p \<longrightarrow> res ! p = arr ! p) \<and>
    (\<forall>p q. left \<le> int p \<and> int p < k \<and> k \<le> int q \<and> int q \<le> right \<longrightarrow> cmp (res ! p) (res ! q) \<le> 0)"
proof -
  note c = comparator.intro [OF assms(1,2)]
  obtain b where b: "kSmallestPartition cmp arr k left right = Inr b" "ranged left right arr b"
    "comparator.split_at cmp left right k b"
    by (rule comparator.kSmallestPartition_ok [OF c assms(3,4,5,6)])
  have "b ! p = arr ! p" if "p < length arr" "int p < left \<or> right < int p" for p
    using ranged_outside [OF b(2), of "int p"] that by auto
  moreover have "mset b = mset arr" using b(2) by (simp add: ranged_def)
  moreover have "\<forall>p q. left \<le> p \<and> p < k \<and> k \<le> q \<and> q \<le> right \<longrightarrow> cmp (b ! nat p) (b ! nat q) \<le> 0"
    using b(3) by (simp add: comparator.split_at_def [OF c])
  then have "cmp (b ! p) (b ! q) \<le> 0"
    if "left \<le> int p" "int p < k" "k \<le> int q" "int q \<le> right" for p q
    using that by (metis nat_int)
  ultimately show ?thesis using b(1) by blast
qed

theorem k_smallest_partition_correct_witness:
  "\<exists>res. kSmallestPartition (\<lambda>x y :: int. x - y) [5, 3, 9, 1, 7] 2 0 4 = Inr res \<and>
    mset res = mset [5, 3, 9, 1, 7] \<and>
    (\<forall>p < length [5, 3, 9, 1, 7 :: int]. int p < 0 \<or> 4 < int p \<longrightarrow> res ! p = [5, 3, 9, 1, 7] ! p) \<and>
    (\<forall>p q. 0 \<le> int p \<and> int p < 2 \<and> 2 \<le> int q \<and> int q \<le> 4 \<longrightarrow> res ! p - res ! q \<le> 0)"
  by (rule k_smallest_partition_correct) (auto simp: sgn_if)

end
