(* ===== verification/Quote_Map.thy ===== *)
theory Quote_Map
  imports Swap_Quote Pool_Graph K_Smallest
begin

text \<open>
  The quotes of a router (\<^verbatim>\<open>sdk/src/router/quote-map.ts\<close>, \<^verbatim>\<open>batch-swap-quote.ts\<close>, the types of
  \<^verbatim>\<open>router/public/index.ts\<close>): a trade is split into percentages, each path is quoted for each of
  them hop by hop, the quotes that failed are dropped and the best of each percentage kept.
  An object whose keys are numbers is the list of its entries with the keys ascending, as
  \<^verbatim>\<open>Object.keys\<close> gives them; a hole of an array is \<open>None\<close>. The fetcher's \<^verbatim>\<open>getPools\<close> and
  \<^verbatim>\<open>getTickArrays\<close> are parameters. The theorem says what a quote in the result is: its hops
  follow the path, each trades what the hop before it gave, and the first one the share of
  the trade its percentage stands for.
\<close>

subsection \<open>Types\<close>

record Trade =
  tr_tokenIn :: pubkey
  tr_tokenOut :: pubkey
  tr_tradeAmount :: int
  tr_amountSpecifiedIsInput :: bool

record RoutingOptions =
  ro_percentIncrement :: int
  ro_numTopRoutes :: int
  ro_numTopPartialQuotes :: int
  ro_maxSplits :: int

record TradeHopSnapshot =
  ths_aToB :: bool
  ths_sqrtPrice :: int
  ths_feeRate :: percentage

record TradeHop =
  th_amountIn :: int
  th_amountOut :: int
  th_whirlpool :: pubkey
  th_inputMint :: pubkey
  th_outputMint :: pubkey
  th_mintA :: pubkey
  th_mintB :: pubkey
  th_vaultA :: pubkey
  th_vaultB :: pubkey
  th_quote :: NormalSwapQuote
  th_snapshot :: TradeHopSnapshot

text \<open>The \<^verbatim>\<open>errorCode\<close> of what was thrown; \<^verbatim>\<open>undefined\<close> when it is no \<^verbatim>\<open>WhirlpoolsError\<close>.\<close>

datatype TradeHopQuoteResult =
    TradeHopQuoteSuccess TradeHop
  | TradeHopQuoteError "WhirlpoolsErrorCode option"

record PathQuote =
  pq_path :: Path
  pq_edgesPoolAddrs :: "pubkey list"
  pq_splitPercent :: int
  pq_amountIn :: int
  pq_amountOut :: int
  pq_calculatedEdgeQuotes :: "TradeHop list"

record InternalPathQuote =
  ipq_path :: Path
  ipq_edgesPoolAddrs :: "pubkey list"
  ipq_splitPercent :: int
  ipq_calculatedEdgeQuotes :: "TradeHopQuoteResult option list"

type_synonym 'a num_map = "(int \<times> 'a) list"
type_synonym SanitizedQuoteMap = "PathQuote list num_map"
type_synonym InternalQuoteMap = "InternalPathQuote option list num_map"

record SwapQuoteRequest =
  sqr_whirlpool :: pubkey
  sqr_tradeTokenMint :: pubkey
  sqr_tokenAmount :: int
  sqr_amountSpecifiedIsInput :: bool

record QuoteRequest =
  qr_quoteIndex :: nat
  qr_pathIndex :: nat
  qr_edgeIndex :: nat
  qr_splitPercent :: int
  qr_request :: SwapQuoteRequest

text \<open>Writing a key of an object with numeric keys.\<close>

fun num_put :: "int \<Rightarrow> 'a \<Rightarrow> 'a num_map \<Rightarrow> 'a num_map" where
  "num_put k v [] = [(k, v)]"
| "num_put k v ((k', v') # m) =
     (if k < k' then (k, v) # (k', v') # m else if k = k' then (k, v) # m else (k', v') # num_put k v m)"

definition array_slice_to :: "int \<Rightarrow> 'a list \<Rightarrow> 'a list" where
  "array_slice_to n xs = take (nat (if n < 0 then int (length xs) + n else n)) xs"

subsection \<open>Parameters of a batch of quotes\<close>

record fetcher_pools =
  fp_getPools :: "pubkey list \<Rightarrow> pubkey \<rightharpoonup> WhirlpoolData"
  fp_getTickArrays :: "pubkey list \<Rightarrow> TickArrayData option list"

record quote_tick_request = TickArrayRequest +
  qtr_whirlpoolData :: WhirlpoolData
  qtr_tokenAmount :: int
  qtr_amountSpecifiedIsInput :: bool

definition quote_tick_array_request ::
    "(pubkey \<rightharpoonup> WhirlpoolData) \<Rightarrow> SwapQuoteRequest \<Rightarrow> quote_tick_request res" where
  "quote_tick_array_request whirlpools quoteReq =
     (case whirlpools (sqr_whirlpool quoteReq) of
        None \<Rightarrow> Inl TypeError
      | Some whirlpoolData \<Rightarrow>
          if getTokenType whirlpoolData (sqr_tradeTokenMint quoteReq) = None then Inl InvariantError
          else Inr \<lparr>tar_whirlpoolAddress = sqr_whirlpool quoteReq,
            tar_aToB = (getSwapDirection whirlpoolData (sqr_tradeTokenMint quoteReq)
              (sqr_amountSpecifiedIsInput quoteReq) = Some AtoB),
            tar_tickCurrentIndex = wp_tickCurrentIndex whirlpoolData,
            tar_tickSpacing = wp_tickSpacing whirlpoolData,
            qtr_whirlpoolData = whirlpoolData, qtr_tokenAmount = sqr_tokenAmount quoteReq,
            qtr_amountSpecifiedIsInput = sqr_amountSpecifiedIsInput quoteReq\<rparr>)"

definition batchBuildSwapQuoteParams ::
    "'c spl_token \<Rightarrow> find_program_address \<Rightarrow> SwapQuoteRequest list \<Rightarrow> pubkey \<Rightarrow> fetcher_pools \<Rightarrow>
     SwapQuoteParam list res" where
  "batchBuildSwapQuoteParams spl fpa quoteRequests programId fetcher =
     (let whirlpools = fp_getPools fetcher (map sqr_whirlpool quoteRequests) in
      bindE (mapE (quote_tick_array_request whirlpools) quoteRequests) (\<lambda>tickArrayRequests.
      let tickArrays = getBatchTickArrays fpa (fp_getTickArrays fetcher) programId
            (map TickArrayRequest.truncate tickArrayRequests) in
      Inr (map (\<lambda>(req, arrays).
        \<lparr>sqp_whirlpoolData = qtr_whirlpoolData req, sqp_tokenAmount = qtr_tokenAmount req,
         sqp_otherAmountThreshold = getDefaultOtherAmountThreshold (qtr_amountSpecifiedIsInput req),
         sqp_sqrtPriceLimit = getDefaultSqrtPriceLimit (tar_aToB req), sqp_aToB = tar_aToB req,
         sqp_amountSpecifiedIsInput = qtr_amountSpecifiedIsInput req, sqp_tickArrays = arrays,
         sqp_tokenExtensionCtx = TokenExtensionContextForPool.truncate (NO_TOKEN_EXTENSION_CONTEXT spl)\<rparr>)
        (zip tickArrayRequests tickArrays))))"

subsection \<open>Requests\<close>

definition getSplitPercentageAmts :: "int \<Rightarrow> int \<Rightarrow> (int list \<times> int list) res" where
  "getSplitPercentageAmts inputAmount minPercent =
     (if minPercent = 0 then Inl NonTermination
      else
        let percents = map (\<lambda>i. i * minPercent) [1..100 div minPercent] in
        Inr (percents, map (\<lambda>p. (inputAmount * p) sdiv 100) percents))"

text \<open>One path for one percentage: the request it adds, if any.\<close>

definition build_request ::
    "pubkey \<Rightarrow> pubkey \<Rightarrow> nat \<Rightarrow> bool \<Rightarrow> int \<Rightarrow> int \<Rightarrow> Path \<times> nat \<Rightarrow>
     QuoteRequest list \<times> InternalQuoteMap \<Rightarrow> (QuoteRequest list \<times> InternalQuoteMap) res" where
  "build_request tokenIn tokenOut hop amountSpecifiedIsInput percent tradeAmount =
     (\<lambda>(path, pathIndex) (quoteUpdates, quoteMap).
      let edges = path_edges path in
      if length edges \<le> hop then Inr (quoteUpdates, quoteMap)
      else
        let startingRouteEval = (if amountSpecifiedIsInput then hop = 0 else hop = length edges - 1);
            poolsPath = map poolAddress edges;
            quotes = the (map_of quoteMap percent);
            quoteMap' = (if startingRouteEval
              then num_put percent (quotes[pathIndex := Some \<lparr>ipq_path = path, ipq_edgesPoolAddrs = poolsPath,
                ipq_splitPercent = percent, ipq_calculatedEdgeQuotes = replicate (length edges) None\<rparr>]) quoteMap
              else quoteMap) in
        case the (map_of quoteMap' percent) ! pathIndex of
          None \<Rightarrow> Inl TypeError
        | Some currentQuote \<Rightarrow>
            let calculated = ipq_calculatedEdgeQuotes currentQuote;
                lastHop = (if amountSpecifiedIsInput
                  then (if hop = 0 then None else Option.bind (array_get calculated (hop - 1)) id)
                  else Option.bind (array_get calculated (hop + 1)) id);
                push = (\<lambda>tradeToken tokenAmount. (quoteUpdates @
                  [\<lparr>qr_quoteIndex = length quoteUpdates, qr_pathIndex = pathIndex, qr_edgeIndex = hop,
                    qr_splitPercent = percent,
                    qr_request = \<lparr>sqr_whirlpool = poolsPath ! hop, sqr_tradeTokenMint = tradeToken,
                      sqr_tokenAmount = tokenAmount, sqr_amountSpecifiedIsInput = amountSpecifiedIsInput\<rparr>\<rparr>],
                  quoteMap')) in
            if startingRouteEval then Inr (push (if amountSpecifiedIsInput then tokenIn else tokenOut) tradeAmount)
            else case lastHop of
              Some (TradeHopQuoteSuccess h) \<Rightarrow>
                Inr (if amountSpecifiedIsInput then push (th_outputMint h) (th_amountOut h)
                     else push (th_inputMint h) (th_amountIn h))
            | _ \<Rightarrow> Inr (quoteUpdates, quoteMap'))"

definition buildQuoteUpdateRequests ::
    "pubkey \<Rightarrow> pubkey \<Rightarrow> Path list \<Rightarrow> int list \<Rightarrow> int list \<Rightarrow> nat \<Rightarrow> bool \<Rightarrow> InternalQuoteMap \<Rightarrow>
     (QuoteRequest list \<times> InternalQuoteMap) res" where
  "buildQuoteUpdateRequests tokenIn tokenOut paths percents amounts hop amountSpecifiedIsInput quoteMap =
     foldE (\<lambda>(percent, tradeAmount) (quoteUpdates, quoteMap).
        let quoteMap' = (if map_of quoteMap percent = None
              then num_put percent (replicate (length paths) None) quoteMap else quoteMap) in
        foldE (build_request tokenIn tokenOut hop amountSpecifiedIsInput percent tradeAmount)
          (zip paths [0..<length paths]) (quoteUpdates, quoteMap'))
       (zip percents amounts) ([], quoteMap)"

subsection \<open>Quoting\<close>

definition set_edge_quote ::
    "int \<Rightarrow> nat \<Rightarrow> nat \<Rightarrow> TradeHopQuoteResult \<Rightarrow> InternalQuoteMap \<Rightarrow> InternalQuoteMap" where
  "set_edge_quote percent pathIndex edgeIndex result quoteMap =
     (let quotes = the (map_of quoteMap percent);
          path = the (quotes ! pathIndex) in
      num_put percent (quotes[pathIndex := Some (path\<lparr>ipq_calculatedEdgeQuotes :=
        (ipq_calculatedEdgeQuotes path)[edgeIndex := Some result]\<rparr>)]) quoteMap)"

definition trade_hop :: "SwapQuoteRequest \<Rightarrow> SwapQuoteParam \<Rightarrow> NormalSwapQuote \<Rightarrow> TradeHop" where
  "trade_hop request swapParam quote =
     (let pool = sqp_whirlpoolData swapParam;
          mintA = wp_tokenMintA pool; mintB = wp_tokenMintB pool;
          (inputMint, outputMint) = (if sqp_aToB swapParam then (mintA, mintB) else (mintB, mintA)) in
      \<lparr>th_amountIn = (if sqp_amountSpecifiedIsInput swapParam then sqp_tokenAmount swapParam
         else se_estimatedAmountIn quote),
       th_amountOut = (if sqp_amountSpecifiedIsInput swapParam then se_estimatedAmountOut quote
         else sqp_tokenAmount swapParam),
       th_whirlpool = sqr_whirlpool request, th_inputMint = inputMint, th_outputMint = outputMint,
       th_mintA = mintA, th_mintB = mintB,
       th_vaultA = wp_tokenVaultA pool, th_vaultB = wp_tokenVaultB pool, th_quote = quote,
       th_snapshot = \<lparr>ths_aToB = sqp_aToB swapParam, ths_sqrtPrice = wp_sqrtPrice pool,
         ths_feeRate = getFeeRate (wp_feeRate pool)\<rparr>\<rparr>)"

fun errorCode :: "js_error \<Rightarrow> WhirlpoolsErrorCode option" where
  "errorCode (WhirlpoolsError c) = c"
| "errorCode _ = None"

definition populateQuoteMap ::
    "math_util \<Rightarrow> 'c spl_token \<Rightarrow> QuoteRequest list \<Rightarrow> SwapQuoteParam list \<Rightarrow> InternalQuoteMap \<Rightarrow>
     InternalQuoteMap res" where
  "populateQuoteMap mu spl quoteUpdates quoteParams quoteMap =
     foldE (\<lambda>update quoteMap.
        let result = (case array_get quoteParams (qr_quoteIndex update) of
              None \<Rightarrow> Inl TypeError
            | Some swapParam \<Rightarrow>
                bindE (swapQuoteWithParams mu spl swapParam \<lparr>numerator = 0, denominator = 1000\<rparr>) (\<lambda>quote.
                Inr (trade_hop (qr_request update) swapParam quote)));
            put = (\<lambda>r. set_edge_quote (qr_splitPercent update) (qr_pathIndex update) (qr_edgeIndex update) r quoteMap) in
        case result of
          Inr h \<Rightarrow> Inr (put (TradeHopQuoteSuccess h))
        | Inl e \<Rightarrow> if e = NonTermination then Inl e else Inr (put (TradeHopQuoteError (errorCode e))))
       quoteUpdates quoteMap"

subsection \<open>Sanitizing\<close>

definition successes :: "TradeHopQuoteResult option list \<Rightarrow> TradeHop list" where
  "successes calculatedHops =
     concat (map (\<lambda>val. case val of Some (TradeHopQuoteSuccess h) \<Rightarrow> [h] | _ \<Rightarrow> []) calculatedHops)"

definition failures_of :: "TradeHopQuoteResult option list \<Rightarrow> WhirlpoolsErrorCode option list" where
  "failures_of calculatedHops =
     concat (map (\<lambda>val. case val of Some (TradeHopQuoteError c) \<Rightarrow> [c] | _ \<Rightarrow> []) calculatedHops)"

definition sanitize_quote ::
    "int \<Rightarrow> InternalPathQuote option \<Rightarrow> PathQuote list \<times> WhirlpoolsErrorCode option set \<Rightarrow>
     (PathQuote list \<times> WhirlpoolsErrorCode option set) res" where
  "sanitize_quote percent uncleaned = (\<lambda>(cleaned, failureErrors).
     case uncleaned of
       None \<Rightarrow> Inl TypeError
     | Some q \<Rightarrow>
         let filteredCalculatedEdges = successes (ipq_calculatedEdgeQuotes q) in
         if length filteredCalculatedEdges = length (ipq_edgesPoolAddrs q)
         then if filteredCalculatedEdges = [] then Inl TypeError
              else Inr (cleaned @
                [\<lparr>pq_path = ipq_path q, pq_edgesPoolAddrs = ipq_edgesPoolAddrs q, pq_splitPercent = percent,
                  pq_amountIn = th_amountIn (hd filteredCalculatedEdges),
                  pq_amountOut = th_amountOut (last filteredCalculatedEdges),
                  pq_calculatedEdgeQuotes = filteredCalculatedEdges\<rparr>], failureErrors)
         else case failures_of (ipq_calculatedEdgeQuotes q) of
             [] \<Rightarrow> Inl TypeError
           | c # cs \<Rightarrow> Inr (cleaned, insert c failureErrors))"

definition quote_order :: "bool \<Rightarrow> PathQuote \<Rightarrow> PathQuote \<Rightarrow> int" where
  "quote_order amountSpecifiedIsInput a b =
     (if amountSpecifiedIsInput then sgn (pq_amountOut b - pq_amountOut a)
      else sgn (pq_amountIn a - pq_amountIn b))"

definition sanitizeQuoteMap ::
    "InternalQuoteMap \<Rightarrow> int \<Rightarrow> bool \<Rightarrow> (SanitizedQuoteMap \<times> WhirlpoolsErrorCode option set) res" where
  "sanitizeQuoteMap quoteMap pruneN amountSpecifiedIsInput =
     bindE (foldE (\<lambda>(percent, uncleanedQuotes) (cleanedQuoteMap, failureErrors).
        bindE (foldE (sanitize_quote percent) uncleanedQuotes ([], failureErrors)) (\<lambda>(cleaned, failureErrors).
        Inr (cleanedQuoteMap @ [(percent, cleaned)], failureErrors)))
       quoteMap ([], {})) (\<lambda>(cleanedQuoteMap, failureErrors).
     Inr (map (\<lambda>(percent, quotes).
        (percent, array_slice_to pruneN (js_sort (quote_order amountSpecifiedIsInput) quotes))) cleanedQuoteMap,
       failureErrors))"

definition quote_hop ::
    "math_util \<Rightarrow> 'c spl_token \<Rightarrow> find_program_address \<Rightarrow> fetcher_pools \<Rightarrow> pubkey \<Rightarrow> Trade \<Rightarrow> Path list \<Rightarrow>
     bool \<Rightarrow> int list \<Rightarrow> int list \<Rightarrow> nat \<Rightarrow> InternalQuoteMap \<Rightarrow> InternalQuoteMap res" where
  "quote_hop mu spl fpa fetcher programId trade paths amountSpecifiedIsInput percents amounts hop quoteMap =
     bindE (buildQuoteUpdateRequests (tr_tokenIn trade) (tr_tokenOut trade) paths percents amounts hop
              amountSpecifiedIsInput quoteMap) (\<lambda>(quoteUpdates, quoteMap).
     bindE (batchBuildSwapQuoteParams spl fpa (map qr_request quoteUpdates) programId fetcher) (\<lambda>quoteParams.
     populateQuoteMap mu spl quoteUpdates quoteParams quoteMap))"

definition getQuoteMap ::
    "math_util \<Rightarrow> 'c spl_token \<Rightarrow> find_program_address \<Rightarrow> fetcher_pools \<Rightarrow> pubkey \<Rightarrow> Trade \<Rightarrow> Path list \<Rightarrow>
     bool \<Rightarrow> RoutingOptions \<Rightarrow> (SanitizedQuoteMap \<times> WhirlpoolsErrorCode option set) res" where
  "getQuoteMap mu spl fpa fetcher programId trade paths amountSpecifiedIsInput opts =
     bindE (getSplitPercentageAmts (tr_tradeAmount trade) (ro_percentIncrement opts)) (\<lambda>(percents, amounts).
     let maxRouteLength = foldr max (map (\<lambda>path. length (path_edges path)) paths) 0;
         iteration = (if amountSpecifiedIsInput then [0..<maxRouteLength] else rev [0..<maxRouteLength]) in
     bindE (foldE (quote_hop mu spl fpa fetcher programId trade paths amountSpecifiedIsInput percents amounts)
              iteration []) (\<lambda>quoteMap.
     sanitizeQuoteMap quoteMap (ro_numTopPartialQuotes opts) amountSpecifiedIsInput))"

interpretation quote_cmp: comparator "quote_order amountSpecifiedIsInput"
  by unfold_locales (auto simp: quote_order_def sgn_if split: if_splits)

subsection \<open>Objects with numeric keys\<close>

definition keys_sorted :: "'a num_map \<Rightarrow> bool" where
  "keys_sorted m \<longleftrightarrow> sorted_wrt (<) (map fst m)"

lemma set_num_put: "set (map fst (num_put k v m)) = insert k (set (map fst m))"
  by (induction k v m rule: num_put.induct) auto

lemma num_put_sorted: "keys_sorted m \<Longrightarrow> keys_sorted (num_put k v m)"
proof (induction k v m rule: num_put.induct)
  case (2 k v k' v' m)
  have "fst ` set (num_put k v m) = insert k (fst ` set m)" using set_num_put [of k v m] by simp
  with 2 show ?case by (auto simp: keys_sorted_def)
qed (simp add: keys_sorted_def)

lemma map_of_num_put: "keys_sorted m \<Longrightarrow> map_of (num_put k v m) = (map_of m)(k \<mapsto> v)"
proof (induction k v m rule: num_put.induct)
  case (2 k v k' v' m)
  have "map_of m k = None" if "k < k'"
    using 2(2) that by (force simp: keys_sorted_def map_of_eq_None_iff)
  with 2 show ?case by (auto simp: keys_sorted_def fun_eq_iff)
qed (simp add: fun_eq_iff)

subsection \<open>The quotes while they are collected\<close>

text \<open>The share of the trade that a percentage stands for.\<close>

definition share :: "Trade \<Rightarrow> int \<Rightarrow> int" where
  "share trade percent = (tr_tradeAmount trade * percent) sdiv 100"

text \<open>What a hop trades on the side the trade specifies, and what the next hop gets from it.\<close>

definition given :: "bool \<Rightarrow> TradeHop \<Rightarrow> int \<times> pubkey" where
  "given inp h = (if inp then (th_amountIn h, th_inputMint h) else (th_amountOut h, th_outputMint h))"

definition passed :: "bool \<Rightarrow> TradeHop \<Rightarrow> int \<times> pubkey" where
  "passed inp h = given (\<not> inp) h"

definition first_slot :: "bool \<Rightarrow> nat \<Rightarrow> nat \<Rightarrow> bool" where
  "first_slot inp n i \<longleftrightarrow> (if inp then i = 0 else i = n - 1)"

definition prev_slot :: "bool \<Rightarrow> nat \<Rightarrow> nat" where
  "prev_slot inp i = (if inp then i - 1 else i + 1)"

text \<open>Amount and token of a hop: the share of the trade, or what the hop before it passed on.\<close>

definition linked ::
    "Trade \<Rightarrow> bool \<Rightarrow> int \<Rightarrow> TradeHopQuoteResult option list \<Rightarrow> nat \<Rightarrow> int \<times> pubkey \<Rightarrow> bool" where
  "linked trade inp percent calc i x \<longleftrightarrow>
     (if first_slot inp (length calc) i
      then x = (share trade percent, if inp then tr_tokenIn trade else tr_tokenOut trade)
      else \<exists>g. calc ! prev_slot inp i = Some (TradeHopQuoteSuccess g) \<and> x = passed inp g)"

definition slot_ok ::
    "Trade \<Rightarrow> bool \<Rightarrow> int \<Rightarrow> pubkey list \<Rightarrow> TradeHopQuoteResult option list \<Rightarrow> nat \<Rightarrow> bool" where
  "slot_ok trade inp percent addrs calc i \<longleftrightarrow>
     (\<forall>h. calc ! i = Some (TradeHopQuoteSuccess h) \<longrightarrow>
        th_whirlpool h = addrs ! i \<and> linked trade inp percent calc i (given inp h))"

text \<open>The hops that have not been quoted before hop \<open>h\<close>, in the order of the iteration.\<close>

definition pending :: "bool \<Rightarrow> nat \<Rightarrow> nat \<Rightarrow> bool" where
  "pending inp h i \<longleftrightarrow> (if inp then h \<le> i else i < h)"

definition entry_ok ::
    "Trade \<Rightarrow> bool \<Rightarrow> nat \<Rightarrow> int \<Rightarrow> Path \<Rightarrow> InternalPathQuote \<Rightarrow> bool" where
  "entry_ok trade inp h percent path q \<longleftrightarrow>
     ipq_path q = path \<and> ipq_edgesPoolAddrs q = map poolAddress (path_edges path) \<and>
     length (ipq_calculatedEdgeQuotes q) = length (path_edges path) \<and>
     (\<forall>i < length (path_edges path).
        slot_ok trade inp percent (ipq_edgesPoolAddrs q) (ipq_calculatedEdgeQuotes q) i \<and>
        (pending inp h i \<longrightarrow> ipq_calculatedEdgeQuotes q ! i = None))"

definition quotes_inv :: "Trade \<Rightarrow> bool \<Rightarrow> Path list \<Rightarrow> int list \<Rightarrow> nat \<Rightarrow> InternalQuoteMap \<Rightarrow> bool" where
  "quotes_inv trade inp paths percents h m \<longleftrightarrow>
     keys_sorted m \<and> set (map fst m) \<subseteq> set percents \<and>
     (\<forall>p qs. map_of m p = Some qs \<longrightarrow> length qs = length paths \<and>
        (\<forall>k < length paths. \<forall>q. qs ! k = Some q \<longrightarrow> entry_ok trade inp h p (paths ! k) q))"

text \<open>A request for hop \<open>h\<close> asks for what the map says.\<close>

definition request_ok :: "Trade \<Rightarrow> bool \<Rightarrow> Path list \<Rightarrow> nat \<Rightarrow> InternalQuoteMap \<Rightarrow> QuoteRequest \<Rightarrow> bool" where
  "request_ok trade inp paths h m u \<longleftrightarrow>
     qr_edgeIndex u = h \<and> qr_pathIndex u < length paths \<and>
     sqr_amountSpecifiedIsInput (qr_request u) = inp \<and>
     (\<exists>qs q. map_of m (qr_splitPercent u) = Some qs \<and> qs ! qr_pathIndex u = Some q \<and>
        h < length (ipq_calculatedEdgeQuotes q) \<and>
        sqr_whirlpool (qr_request u) = ipq_edgesPoolAddrs q ! h \<and>
        linked trade inp (qr_splitPercent u) (ipq_calculatedEdgeQuotes q) h
          (sqr_tokenAmount (qr_request u), sqr_tradeTokenMint (qr_request u)))"

lemma quotes_invD:
  assumes "quotes_inv trade inp paths percents h m" "map_of m p = Some qs" "k < length paths"
  shows "length qs = length paths" "qs ! k = Some q \<Longrightarrow> entry_ok trade inp h p (paths ! k) q"
  using assms by (auto simp: quotes_inv_def)

lemma quotes_inv_put:
  assumes inv: "quotes_inv trade inp paths percents h m" and "p \<in> set percents" "length qs = length paths"
    and "\<And>k q. k < length paths \<Longrightarrow> qs ! k = Some q \<Longrightarrow> entry_ok trade inp h p (paths ! k) q"
  shows "quotes_inv trade inp paths percents h (num_put p qs m)"
  using assms set_num_put [of p qs m]
  by (auto simp: quotes_inv_def map_of_num_put num_put_sorted)

text \<open>Starting a path over: the requests made for this hop stay valid.\<close>

definition fresh_quote :: "int \<Rightarrow> Path \<Rightarrow> InternalPathQuote" where
  "fresh_quote percent path =
     \<lparr>ipq_path = path, ipq_edgesPoolAddrs = map poolAddress (path_edges path), ipq_splitPercent = percent,
      ipq_calculatedEdgeQuotes = replicate (length (path_edges path)) None\<rparr>"

lemma fresh_quote_ok: "entry_ok trade inp h p path (fresh_quote p path)"
  by (simp add: entry_ok_def fresh_quote_def slot_ok_def)

lemma restart_inv:
  assumes inv: "quotes_inv trade inp paths percents h m" and qs: "map_of m p = Some qs"
    and "k < length paths"
  shows "quotes_inv trade inp paths percents h (num_put p (qs[k := Some (fresh_quote p (paths ! k))]) m)"
proof (rule quotes_inv_put [OF inv])
  have "p \<in> set (map fst m)" using map_of_SomeD [OF qs] by force
  then show "p \<in> set percents" using inv by (auto simp: quotes_inv_def)
  show "length (qs[k := Some (fresh_quote p (paths ! k))]) = length paths"
    using quotes_invD(1) [OF inv qs assms(3)] by simp
  fix k' q assume "k' < length paths" "qs[k := Some (fresh_quote p (paths ! k))] ! k' = Some q"
  then show "entry_ok trade inp h p (paths ! k') q"
    using quotes_invD [OF inv qs] by (cases "k' = k") (auto simp: fresh_quote_ok)
qed

lemma restart_request:
  assumes inv: "quotes_inv trade inp paths percents h m" and qs: "map_of m p = Some qs"
    and k: "k < length paths" and first: "first_slot inp (length (path_edges (paths ! k))) hop"
    and u: "request_ok trade inp paths hop m u"
  shows "request_ok trade inp paths hop (num_put p (qs[k := Some (fresh_quote p (paths ! k))]) m) u"
proof -
  have sorted: "keys_sorted m" using inv by (simp add: quotes_inv_def)
  note put = map_of_num_put [OF sorted]
  from u obtain qs' q where u': "map_of m (qr_splitPercent u) = Some qs'" "qs' ! qr_pathIndex u = Some q"
    "hop < length (ipq_calculatedEdgeQuotes q)" "sqr_whirlpool (qr_request u) = ipq_edgesPoolAddrs q ! hop"
    "linked trade inp (qr_splitPercent u) (ipq_calculatedEdgeQuotes q) hop
       (sqr_tokenAmount (qr_request u), sqr_tradeTokenMint (qr_request u))"
    "qr_pathIndex u < length paths"
    by (auto simp: request_ok_def)
  have e: "entry_ok trade inp h (qr_splitPercent u) (paths ! qr_pathIndex u) q"
    using quotes_invD(2) [OF inv u'(1,6,2)] .
  show ?thesis
  proof (cases "qr_splitPercent u = p \<and> qr_pathIndex u = k")
    case False
    then show ?thesis
      using u u' qs by (auto simp: request_ok_def put)
  next
    case True
    then have e': "length (ipq_calculatedEdgeQuotes q) = length (path_edges (paths ! k))"
      "ipq_edgesPoolAddrs q = map poolAddress (path_edges (paths ! k))"
      using e by (simp_all add: entry_ok_def)
    have "k < length qs" using quotes_invD(1) [OF inv qs k] k by simp
    then show ?thesis
      using u u'(3-5) True e' first
      by (simp add: request_ok_def put fresh_quote_def linked_def)
  qed
qed

definition requests_inv ::
    "Trade \<Rightarrow> bool \<Rightarrow> Path list \<Rightarrow> int list \<Rightarrow> nat \<Rightarrow> nat \<Rightarrow> QuoteRequest list \<times> InternalQuoteMap \<Rightarrow> bool" where
  "requests_inv trade inp paths percents h hop = (\<lambda>(us, m).
     quotes_inv trade inp paths percents h m \<and>
     (\<forall>j < length us. qr_quoteIndex (us ! j) = j) \<and> (\<forall>u \<in> set us. request_ok trade inp paths hop m u))"

lemma build_request_inv:
  assumes inv: "requests_inv trade inp paths percents h hop (us, m)" and qs: "map_of m p = Some qs"
    and k: "k < length paths" and amount: "amount = share trade p"
    and ret: "build_request (tr_tokenIn trade) (tr_tokenOut trade) hop inp p amount (paths ! k, k) (us, m) = Inr (us', m')"
  shows "requests_inv trade inp paths percents h hop (us', m') \<and> map_of m' p \<noteq> None"
proof (cases "length (path_edges (paths ! k)) \<le> hop")
  case True
  with ret inv qs show ?thesis by (auto simp: build_request_def Let_def)
next
  case len: False
  let ?n = "length (path_edges (paths ! k))"
  have qinv: "quotes_inv trade inp paths percents h m" using inv by (simp add: requests_inv_def)
  then have put: "map_of (num_put p v m) = (map_of m)(p \<mapsto> v)" for v
    by (intro map_of_num_put) (simp add: quotes_inv_def)
  have klen: "k < length qs" using quotes_invD(1) [OF qinv qs k] k by simp
  show ?thesis
  proof (cases "first_slot inp ?n hop")
    case True
    let ?m = "num_put p (qs[k := Some (fresh_quote p (paths ! k))]) m"
    let ?u = "\<lparr>qr_quoteIndex = length us, qr_pathIndex = k, qr_edgeIndex = hop, qr_splitPercent = p,
      qr_request = \<lparr>sqr_whirlpool = map poolAddress (path_edges (paths ! k)) ! hop,
        sqr_tradeTokenMint = (if inp then tr_tokenIn trade else tr_tokenOut trade),
        sqr_tokenAmount = amount, sqr_amountSpecifiedIsInput = inp\<rparr>\<rparr>"
    have r: "us' = us @ [?u]" "m' = ?m"
      using ret True len klen
      by (auto simp: build_request_def Let_def first_slot_def qs put fresh_quote_def split: if_splits)
    have "request_ok trade inp paths hop ?m ?u"
      using True len k klen amount by (simp add: request_ok_def put fresh_quote_def linked_def)
    then show ?thesis
      unfolding r using inv restart_inv [OF qinv qs k] restart_request [OF qinv qs k True]
      by (auto simp: requests_inv_def nth_append put less_Suc_eq)
  next
    case False
    then have m': "\<not> (if inp then hop = 0 else hop = ?n - 1)" by (simp add: first_slot_def)
    from ret len m' obtain q where q: "qs ! k = Some q"
      by (auto simp: build_request_def Let_def qs split: option.splits if_splits)
    have e: "entry_ok trade inp h p (paths ! k) q" by (rule quotes_invD(2) [OF qinv qs k q])
    let ?calc = "ipq_calculatedEdgeQuotes q"
    have elen: "length ?calc = ?n" "ipq_edgesPoolAddrs q = map poolAddress (path_edges (paths ! k))"
      using e by (simp_all add: entry_ok_def)
    have last: "(if inp then if hop = 0 then None else Option.bind (array_get ?calc (hop - 1)) id
        else Option.bind (array_get ?calc (hop + 1)) id) = ?calc ! prev_slot inp hop"
      using m' len elen by (auto simp: array_get_def prev_slot_def)
    show ?thesis
    proof (cases "\<exists>g. ?calc ! prev_slot inp hop = Some (TradeHopQuoteSuccess g)")
      case True
      then obtain g where g: "?calc ! prev_slot inp hop = Some (TradeHopQuoteSuccess g)" by blast
      let ?u = "\<lparr>qr_quoteIndex = length us, qr_pathIndex = k, qr_edgeIndex = hop, qr_splitPercent = p,
        qr_request = \<lparr>sqr_whirlpool = map poolAddress (path_edges (paths ! k)) ! hop,
          sqr_tradeTokenMint = snd (passed inp g), sqr_tokenAmount = fst (passed inp g),
          sqr_amountSpecifiedIsInput = inp\<rparr>\<rparr>"
      have r: "us' = us @ [?u]" "m' = m"
        using ret m' len last g
        by (auto simp: build_request_def Let_def qs q passed_def given_def split: if_splits)
      have "request_ok trade inp paths hop m ?u"
        using False len k g q qs elen by (auto simp: request_ok_def linked_def)
      then show ?thesis
        unfolding r using inv qs by (auto simp: requests_inv_def nth_append less_Suc_eq)
    next
      case False
      then have "us' = us \<and> m' = m"
        using ret m' len last
        by (auto simp: build_request_def Let_def qs q split: option.splits TradeHopQuoteResult.splits if_splits)
      then show ?thesis using inv qs by simp
    qed
  qed
qed

lemma init_percent_inv:
  assumes inv: "requests_inv trade inp paths percents h hop (us, m)" and "p \<in> set percents" "map_of m p = None"
  shows "requests_inv trade inp paths percents h hop (us, num_put p (replicate (length paths) None) m)"
proof -
  have qinv: "quotes_inv trade inp paths percents h m" using inv by (simp add: requests_inv_def)
  then have put: "map_of (num_put p v m) = (map_of m)(p \<mapsto> v)" for v
    by (intro map_of_num_put) (simp add: quotes_inv_def)
  have "quotes_inv trade inp paths percents h (num_put p (replicate (length paths) None) m)"
    by (rule quotes_inv_put [OF qinv assms(2)]) simp_all
  moreover have "request_ok trade inp paths hop (num_put p (replicate (length paths) None) m) u"
    if "request_ok trade inp paths hop m u" for u
    using that assms(3) by (auto simp: request_ok_def put)
  ultimately show ?thesis using inv by (auto simp: requests_inv_def)
qed

lemma build_requests_inv:
  assumes inv: "quotes_inv trade inp paths percents h m"
    and ret: "buildQuoteUpdateRequests (tr_tokenIn trade) (tr_tokenOut trade) paths percents
      (map (share trade) percents) hop inp m = Inr (us', m')"
  shows "requests_inv trade inp paths percents h hop (us', m')"
proof (rule foldE_inv [OF ret [unfolded buildQuoteUpdateRequests_def]])
  show "requests_inv trade inp paths percents h hop ([], m)" using inv by (simp add: requests_inv_def)
next
  fix x s s'
  assume x: "x \<in> set (zip percents (map (share trade) percents))"
    and s: "requests_inv trade inp paths percents h hop s"
    and r: "(case x of (percent, tradeAmount) \<Rightarrow> \<lambda>(quoteUpdates, quoteMap).
        let quoteMap' = (if map_of quoteMap percent = None
              then num_put percent (replicate (length paths) None) quoteMap else quoteMap) in
        foldE (build_request (tr_tokenIn trade) (tr_tokenOut trade) hop inp percent tradeAmount)
          (zip paths [0..<length paths]) (quoteUpdates, quoteMap')) s = Inr s'"
  obtain p where p: "x = (p, share trade p)" "p \<in> set percents" using x by (auto simp: zip_map2 in_set_zip)
  obtain us1 m1 where s1: "s = (us1, m1)" by force
  let ?m = "if map_of m1 p = None then num_put p (replicate (length paths) None) m1 else m1"
  have start: "requests_inv trade inp paths percents h hop (us1, ?m) \<and> map_of ?m p \<noteq> None"
  proof (cases "map_of m1 p = None")
    case True
    have "keys_sorted m1" using s by (simp add: s1 requests_inv_def quotes_inv_def)
    then show ?thesis using True init_percent_inv [OF s [unfolded s1] p(2) True] by (simp add: map_of_num_put)
  next
    case False
    then show ?thesis using s s1 by auto
  qed
  have loop: "foldE (build_request (tr_tokenIn trade) (tr_tokenOut trade) hop inp p (share trade p))
      (zip paths [0..<length paths]) (us1, ?m) = Inr s'"
    using r by (simp add: p(1) s1)
  have "requests_inv trade inp paths percents h hop s' \<and> map_of (snd s') p \<noteq> None"
  proof (rule foldE_inv [OF loop])
    fix y t t'
    assume y: "y \<in> set (zip paths [0..<length paths])"
      and t: "requests_inv trade inp paths percents h hop t \<and> map_of (snd t) p \<noteq> None"
      and b: "build_request (tr_tokenIn trade) (tr_tokenOut trade) hop inp p (share trade p) y t = Inr t'"
    obtain k where k: "k < length paths" "y = (paths ! k, k)" using y by (auto simp: in_set_zip)
    obtain us2 m2 us3 m3 where t2: "t = (us2, m2)" "t' = (us3, m3)" by force
    from t t2 obtain qs where "map_of m2 p = Some qs" by auto
    moreover have "requests_inv trade inp paths percents h hop (us2, m2)" using t t2 by simp
    ultimately have "requests_inv trade inp paths percents h hop (us3, m3) \<and> map_of m3 p \<noteq> None"
      by (intro build_request_inv [OF _ _ k(1) refl b [unfolded k(2) t2]])
    with t2 show "requests_inv trade inp paths percents h hop t' \<and> map_of (snd t') p \<noteq> None" by simp
  qed (use start in simp)
  then show "requests_inv trade inp paths percents h hop s'" ..
qed

subsection \<open>Parameters and quotes of a hop\<close>

lemma mapE_Inr_nth: "mapE f xs = Inr ys \<Longrightarrow> i < length xs \<Longrightarrow> f (xs ! i) = Inr (ys ! i)"
  by (induction xs arbitrary: ys i) (auto simp: bindE_eq_Inr nth_Cons split: nat.splits)

lemma length_getBatchTickArrays: "length (getBatchTickArrays fpa fetch programId requests) = length requests"
proof -
  obtain A I where fold: "fold (batch_request fpa programId) requests ([], []) = (A, I)" by fastforce
  from arg_cong [OF batch_fold(1) [OF fold, simplified], of length] show ?thesis
    by (simp add: getBatchTickArrays_def fold Let_def)
qed

text \<open>The parameters of a request: amount and side, and a pool of which the token is a mint.\<close>

definition param_ok :: "SwapQuoteRequest \<Rightarrow> SwapQuoteParam \<Rightarrow> bool" where
  "param_ok r x \<longleftrightarrow> sqp_tokenAmount x = sqr_tokenAmount r \<and>
     sqp_amountSpecifiedIsInput x = sqr_amountSpecifiedIsInput r \<and>
     sqr_tradeTokenMint r = (if sqp_aToB x = sqr_amountSpecifiedIsInput r
       then wp_tokenMintA (sqp_whirlpoolData x) else wp_tokenMintB (sqp_whirlpoolData x))"

lemma tick_request_Inr:
  "quote_tick_array_request whirlpools r = Inr t \<Longrightarrow> qtr_tokenAmount t = sqr_tokenAmount r \<and>
     qtr_amountSpecifiedIsInput t = sqr_amountSpecifiedIsInput r \<and>
     sqr_tradeTokenMint r = (if tar_aToB t = sqr_amountSpecifiedIsInput r
       then wp_tokenMintA (qtr_whirlpoolData t) else wp_tokenMintB (qtr_whirlpoolData t))"
  by (auto simp: quote_tick_array_request_def getTokenType_def getSwapDirection_def
      split: option.splits if_splits)

lemma batch_params:
  assumes ret: "batchBuildSwapQuoteParams spl fpa reqs programId fetcher = Inr params" and "i < length reqs"
  shows "i < length params \<and> param_ok (reqs ! i) (params ! i)"
proof -
  let ?w = "fp_getPools fetcher (map sqr_whirlpool reqs)"
  from ret obtain trs where trs: "mapE (quote_tick_array_request ?w) reqs = Inr trs"
    and params: "params = map (\<lambda>(req, arrays).
        \<lparr>sqp_whirlpoolData = qtr_whirlpoolData req, sqp_tokenAmount = qtr_tokenAmount req,
         sqp_otherAmountThreshold = getDefaultOtherAmountThreshold (qtr_amountSpecifiedIsInput req),
         sqp_sqrtPriceLimit = getDefaultSqrtPriceLimit (tar_aToB req), sqp_aToB = tar_aToB req,
         sqp_amountSpecifiedIsInput = qtr_amountSpecifiedIsInput req, sqp_tickArrays = arrays,
         sqp_tokenExtensionCtx = TokenExtensionContextForPool.truncate (NO_TOKEN_EXTENSION_CONTEXT spl)\<rparr>)
        (zip trs (getBatchTickArrays fpa (fp_getTickArrays fetcher) programId (map TickArrayRequest.truncate trs)))"
    by (auto simp: batchBuildSwapQuoteParams_def Let_def bindE_eq_Inr)
  have len: "length trs = length reqs" using trs by (rule mapE_Inr_length)
  then have i: "i < length params" using assms(2) by (simp add: params length_getBatchTickArrays)
  have "quote_tick_array_request ?w (reqs ! i) = Inr (trs ! i)" by (rule mapE_Inr_nth [OF trs assms(2)])
  then have "param_ok (reqs ! i) (params ! i)"
    using i tick_request_Inr by (simp add: params param_ok_def)
  with i show ?thesis ..
qed

lemma trade_hop_given: "param_ok r x \<Longrightarrow>
  given (sqr_amountSpecifiedIsInput r) (trade_hop r x quote) = (sqr_tokenAmount r, sqr_tradeTokenMint r)"
  by (auto simp: param_ok_def given_def trade_hop_def Let_def)

text \<open>The hops that are pending once hop \<open>hop\<close> is done.\<close>

definition after :: "bool \<Rightarrow> nat \<Rightarrow> nat" where
  "after inp hop = (if inp then Suc hop else hop)"

lemma linked_update:
  "\<not> first_slot inp (length calc) i \<Longrightarrow> prev_slot inp i \<noteq> hop \<Longrightarrow>
     linked trade inp p (calc[hop := r]) i = linked trade inp p calc i"
  "first_slot inp (length calc) i \<Longrightarrow> linked trade inp p (calc[hop := r]) i = linked trade inp p calc i"
  by (simp_all add: linked_def fun_eq_iff)

lemma linked_self: "linked trade inp p (calc[hop := r]) hop = linked trade inp p calc hop"
  by (cases "first_slot inp (length calc) hop")
    (auto simp: linked_def fun_eq_iff prev_slot_def first_slot_def split: if_splits)

lemma entry_ok_set:
  assumes e: "entry_ok trade inp (after inp hop) p path q" and hop: "hop < length (path_edges path)"
    and r: "\<And>h. r = TradeHopQuoteSuccess h \<Longrightarrow> th_whirlpool h = ipq_edgesPoolAddrs q ! hop \<and>
      linked trade inp p (ipq_calculatedEdgeQuotes q) hop (given inp h)"
  shows "entry_ok trade inp (after inp hop) p path
    (q\<lparr>ipq_calculatedEdgeQuotes := (ipq_calculatedEdgeQuotes q)[hop := Some r]\<rparr>)"
proof -
  let ?c = "ipq_calculatedEdgeQuotes q" and ?n = "length (path_edges path)"
  have len: "length ?c = ?n" using e by (simp add: entry_ok_def)
  have slot: "slot_ok trade inp p (ipq_edgesPoolAddrs q) (?c[hop := Some r]) i" if i: "i < ?n" for i
  proof (cases "i = hop")
    case True
    then show ?thesis using r hop len by (auto simp: slot_ok_def linked_self)
  next
    case False
    have old: "slot_ok trade inp p (ipq_edgesPoolAddrs q) ?c i" "pending inp (after inp hop) i \<longrightarrow> ?c ! i = None"
      using e i by (auto simp: entry_ok_def)
    show ?thesis
    proof (cases "\<not> first_slot inp (length ?c) i \<and> prev_slot inp i = hop")
      case True
      then have "pending inp (after inp hop) i"
        by (auto simp: pending_def after_def prev_slot_def first_slot_def split: if_splits)
      then show ?thesis using old False by (simp add: slot_ok_def)
    next
      case no: False
      then have "linked trade inp p (?c[hop := Some r]) i = linked trade inp p ?c i"
        by (cases "first_slot inp (length ?c) i") (auto simp: linked_update)
      then show ?thesis using old(1) False by (simp add: slot_ok_def)
    qed
  qed
  have "\<not> pending inp (after inp hop) hop" by (simp add: pending_def after_def)
  then have "?c[hop := Some r] ! i = None" if "i < ?n" "pending inp (after inp hop) i" for i
    using that e by (cases "i = hop") (auto simp: entry_ok_def)
  then show ?thesis using e slot len by (simp add: entry_ok_def)
qed

lemma set_edge_inv:
  assumes inv: "quotes_inv trade inp paths percents (after inp hop) m" and u: "request_ok trade inp paths hop m u"
    and r: "\<And>h. r = TradeHopQuoteSuccess h \<Longrightarrow> th_whirlpool h = sqr_whirlpool (qr_request u) \<and>
      given inp h = (sqr_tokenAmount (qr_request u), sqr_tradeTokenMint (qr_request u))"
  defines "m' \<equiv> set_edge_quote (qr_splitPercent u) (qr_pathIndex u) (qr_edgeIndex u) r m"
  shows "quotes_inv trade inp paths percents (after inp hop) m'"
    "request_ok trade inp paths hop m v \<Longrightarrow> request_ok trade inp paths hop m' v"
proof -
  let ?p = "qr_splitPercent u" and ?k = "qr_pathIndex u"
  from u obtain qs q where u': "map_of m ?p = Some qs" "qs ! ?k = Some q" "?k < length paths"
    "hop < length (ipq_calculatedEdgeQuotes q)" "sqr_whirlpool (qr_request u) = ipq_edgesPoolAddrs q ! hop"
    "linked trade inp ?p (ipq_calculatedEdgeQuotes q) hop
       (sqr_tokenAmount (qr_request u), sqr_tradeTokenMint (qr_request u))" "qr_edgeIndex u = hop"
    by (auto simp: request_ok_def)
  let ?q = "q\<lparr>ipq_calculatedEdgeQuotes := (ipq_calculatedEdgeQuotes q)[hop := Some r]\<rparr>"
  have m': "m' = num_put ?p (qs[?k := Some ?q]) m"
    using u' by (simp add: m'_def set_edge_quote_def Let_def)
  have put: "map_of m' = (map_of m)(?p \<mapsto> qs[?k := Some ?q])"
    using inv by (simp add: m' map_of_num_put quotes_inv_def)
  have qlen: "length qs = length paths" using quotes_invD(1) [OF inv u'(1,3)] .
  have e: "entry_ok trade inp (after inp hop) ?p (paths ! ?k) q" using quotes_invD(2) [OF inv u'(1,3,2)] .
  have "hop < length (path_edges (paths ! ?k))" using e u'(4) by (simp add: entry_ok_def)
  from entry_ok_set [OF e this, of r] r u'(5,6)
  have e': "entry_ok trade inp (after inp hop) ?p (paths ! ?k) ?q" by simp
  show "quotes_inv trade inp paths percents (after inp hop) m'"
    unfolding m'
  proof (rule quotes_inv_put [OF inv])
    have "?p \<in> set (map fst m)" using map_of_SomeD [OF u'(1)] by force
    then show "?p \<in> set percents" using inv by (auto simp: quotes_inv_def)
    fix k x assume "k < length paths" "qs[?k := Some ?q] ! k = Some x"
    then show "entry_ok trade inp (after inp hop) ?p (paths ! k) x"
      using e' quotes_invD(2) [OF inv u'(1)] qlen by (cases "k = ?k") auto
  qed (simp add: qlen)
  assume v: "request_ok trade inp paths hop m v"
  show "request_ok trade inp paths hop m' v"
    using v u' qlen
    by (cases "qr_splitPercent v = ?p \<and> qr_pathIndex v = ?k") (auto simp: request_ok_def put linked_self)
qed

lemma quotes_inv_mono:
  assumes "quotes_inv trade inp paths percents h m" "\<And>i. pending inp h' i \<Longrightarrow> pending inp h i"
  shows "quotes_inv trade inp paths percents h' m"
proof -
  have "entry_ok trade inp h' p path q" if "entry_ok trade inp h p path q" for p path q
    using that assms(2) by (auto simp: entry_ok_def)
  then show ?thesis using assms(1) by (simp add: quotes_inv_def)
qed

lemma populate_inv:
  assumes inv: "requests_inv trade inp paths percents h hop (us, m)"
    and h: "\<And>i. pending inp (after inp hop) i \<Longrightarrow> pending inp h i"
    and params: "\<And>i. i < length us \<Longrightarrow> i < length params \<and> param_ok (qr_request (us ! i)) (params ! i)"
    and ret: "populateQuoteMap mu spl us params m = Inr m'"
  shows "quotes_inv trade inp paths percents (after inp hop) m'"
proof -
  have start: "quotes_inv trade inp paths percents (after inp hop) m"
    using inv quotes_inv_mono [OF _ h] by (auto simp: requests_inv_def)
  have "quotes_inv trade inp paths percents (after inp hop) m' \<and> (\<forall>u \<in> set us. request_ok trade inp paths hop m' u)"
  proof (rule foldE_inv [OF ret [unfolded populateQuoteMap_def]])
    fix u s s'
    assume u: "u \<in> set us" and s: "quotes_inv trade inp paths percents (after inp hop) s \<and>
        (\<forall>u \<in> set us. request_ok trade inp paths hop s u)"
      and r: "(let result = (case array_get params (qr_quoteIndex u) of None \<Rightarrow> Inl TypeError
            | Some swapParam \<Rightarrow> bindE (swapQuoteWithParams mu spl swapParam \<lparr>numerator = 0, denominator = 1000\<rparr>)
                (\<lambda>quote. Inr (trade_hop (qr_request u) swapParam quote)));
          put = (\<lambda>r. set_edge_quote (qr_splitPercent u) (qr_pathIndex u) (qr_edgeIndex u) r s) in
        case result of Inr h \<Rightarrow> Inr (put (TradeHopQuoteSuccess h))
        | Inl e \<Rightarrow> if e = NonTermination then Inl e else Inr (put (TradeHopQuoteError (errorCode e)))) = Inr s'"
    obtain j where j: "j < length us" "u = us ! j" using u by (auto simp: in_set_conv_nth)
    have idx: "qr_quoteIndex u = j" using inv j by (simp add: requests_inv_def)
    note p = params [OF j(1)]
    have isin: "sqr_amountSpecifiedIsInput (qr_request u) = inp" using s u by (simp add: request_ok_def)
    from r p obtain r' where r': "s' = set_edge_quote (qr_splitPercent u) (qr_pathIndex u) (qr_edgeIndex u) r' s"
      and suc: "\<And>h. r' = TradeHopQuoteSuccess h \<Longrightarrow> \<exists>quote. h = trade_hop (qr_request u) (params ! j) quote"
      by (auto simp: idx array_get_def Let_def bindE_eq_Inr split: sum.splits if_splits)
    have ok: "th_whirlpool h = sqr_whirlpool (qr_request u) \<and>
        given inp h = (sqr_tokenAmount (qr_request u), sqr_tradeTokenMint (qr_request u))"
      if eq: "r' = TradeHopQuoteSuccess h" for h
    proof -
      obtain quote where h': "h = trade_hop (qr_request u) (params ! j) quote" using suc [OF eq] by blast
      have "param_ok (qr_request u) (params ! j)" using p j by simp
      from trade_hop_given [OF this, of quote] show ?thesis
        unfolding isin h' by (simp add: trade_hop_def Let_def split_beta)
    qed
    show "quotes_inv trade inp paths percents (after inp hop) s' \<and> (\<forall>u \<in> set us. request_ok trade inp paths hop s' u)"
      unfolding r' using set_edge_inv [OF _ _ ok] s u by blast
  qed (use inv start in \<open>simp add: requests_inv_def\<close>)
  then show ?thesis ..
qed

lemma quote_hop_inv:
  assumes inv: "quotes_inv trade inp paths percents h m"
    and h: "\<And>i. pending inp (after inp hop) i \<Longrightarrow> pending inp h i"
    and ret: "quote_hop mu spl fpa fetcher programId trade paths inp percents (map (share trade) percents) hop m = Inr m'"
  shows "quotes_inv trade inp paths percents (after inp hop) m'"
proof -
  from ret obtain us m1 params where
    b: "buildQuoteUpdateRequests (tr_tokenIn trade) (tr_tokenOut trade) paths percents
      (map (share trade) percents) hop inp m = Inr (us, m1)" and
    p: "batchBuildSwapQuoteParams spl fpa (map qr_request us) programId fetcher = Inr params" and
    q: "populateQuoteMap mu spl us params m1 = Inr m'"
    by (auto simp: quote_hop_def bindE_eq_Inr)
  have "i < length params \<and> param_ok (qr_request (us ! i)) (params ! i)" if "i < length us" for i
    using batch_params [OF p, of i] that by simp
  from populate_inv [OF build_requests_inv [OF inv b] h this q] show ?thesis by blast
qed

text \<open>The iteration over the hops: upwards from 0, or downwards to 0.\<close>

lemma quote_hops_inv:
  assumes "foldE (quote_hop mu spl fpa fetcher programId trade paths inp percents (map (share trade) percents))
      (if inp then [0..<n] else rev [0..<n]) [] = Inr m"
  shows "\<exists>h. quotes_inv trade inp paths percents h m"
proof (cases inp)
  case True
  have "foldE (quote_hop mu spl fpa fetcher programId trade paths True percents (map (share trade) percents)) [a..<n] s = Inr m \<Longrightarrow>
      quotes_inv trade True paths percents a s \<Longrightarrow> \<exists>h. quotes_inv trade True paths percents h m" for a s
  proof (induction "n - a" arbitrary: a s)
    case (Suc d)
    then have "a < n" by simp
    with Suc.prems(1) obtain s' where
      "quote_hop mu spl fpa fetcher programId trade paths True percents (map (share trade) percents) a s = Inr s'"
      "foldE (quote_hop mu spl fpa fetcher programId trade paths True percents (map (share trade) percents)) [Suc a..<n] s' = Inr m"
      by (auto simp: upt_conv_Cons bindE_eq_Inr simp del: upt_Suc)
    with Suc.hyps(2) show ?case
      by (intro Suc.hyps(1) [of "Suc a" s'] quote_hop_inv [OF Suc.prems(2), of a, unfolded after_def, simplified])
        (auto simp: pending_def after_def)
  qed auto
  from this [of 0 "[]"] show ?thesis using assms True by (simp add: quotes_inv_def keys_sorted_def)
next
  case False
  have "foldE (quote_hop mu spl fpa fetcher programId trade paths False percents (map (share trade) percents)) (rev [0..<a]) s = Inr m \<Longrightarrow>
      quotes_inv trade False paths percents a s \<Longrightarrow> \<exists>h. quotes_inv trade False paths percents h m" for a s
  proof (induction a arbitrary: s)
    case (Suc a)
    from Suc.prems(1) obtain s' where
      "quote_hop mu spl fpa fetcher programId trade paths False percents (map (share trade) percents) a s = Inr s'"
      "foldE (quote_hop mu spl fpa fetcher programId trade paths False percents (map (share trade) percents)) (rev [0..<a]) s' = Inr m"
      by (auto simp: bindE_eq_Inr)
    then show ?case
      by (intro Suc.IH [of s'] quote_hop_inv [OF Suc.prems(2), of a, unfolded after_def, simplified])
        (auto simp: pending_def after_def)
  qed auto
  from this [of n "[]"] show ?thesis using assms False by (simp add: quotes_inv_def keys_sorted_def)
qed

subsection \<open>The quotes that are kept\<close>

text \<open>
  A quote of a path for a percentage of the trade: its hops follow the pools of the path, each
  trades what the one before it gave, and it trades the share of the percentage.
\<close>

definition path_quote_ok :: "Trade \<Rightarrow> bool \<Rightarrow> Path list \<Rightarrow> int \<Rightarrow> PathQuote \<Rightarrow> bool" where
  "path_quote_ok trade inp paths percent q \<longleftrightarrow>
     (let hops = pq_calculatedEdgeQuotes q in
      pq_splitPercent q = percent \<and> pq_path q \<in> set paths \<and> hops \<noteq> [] \<and>
      map th_whirlpool hops = pq_edgesPoolAddrs q \<and>
      pq_edgesPoolAddrs q = map poolAddress (path_edges (pq_path q)) \<and>
      pq_amountIn q = th_amountIn (hd hops) \<and> pq_amountOut q = th_amountOut (last hops) \<and>
      (\<forall>i. Suc i < length hops \<longrightarrow> th_amountOut (hops ! i) = th_amountIn (hops ! Suc i) \<and>
         th_outputMint (hops ! i) = th_inputMint (hops ! Suc i)) \<and>
      (if inp then pq_amountIn q = share trade percent \<and> th_inputMint (hd hops) = tr_tokenIn trade
       else pq_amountOut q = share trade percent \<and> th_outputMint (last hops) = tr_tokenOut trade))"

lemma length_successes_le: "length (successes calc) \<le> length calc"
  unfolding successes_def by (induction calc) (auto split: option.splits TradeHopQuoteResult.splits)

lemma all_successes:
  "length (successes calc) = length calc \<Longrightarrow> calc = map (\<lambda>h. Some (TradeHopQuoteSuccess h)) (successes calc)"
proof (induction calc)
  case (Cons x calc)
  show ?case
  proof (cases "\<exists>h. x = Some (TradeHopQuoteSuccess h)")
    case True
    with Cons show ?thesis by (auto simp: successes_def)
  next
    case False
    then have "successes (x # calc) = successes calc"
      by (auto simp: successes_def split: option.splits TradeHopQuoteResult.splits)
    with Cons.prems length_successes_le [of calc] show ?thesis by simp
  qed
qed (simp add: successes_def)

lemma linked_prev:
  "\<not> first_slot inp (length calc) i \<Longrightarrow> calc ! prev_slot inp i = Some (TradeHopQuoteSuccess g) \<Longrightarrow>
     linked trade inp p calc i x \<Longrightarrow> x = passed inp g"
  by (simp add: linked_def)

lemma path_quote_okI:
  assumes e: "entry_ok trade inp h p path q" and "path \<in> set paths"
    and len: "length (successes (ipq_calculatedEdgeQuotes q)) = length (ipq_edgesPoolAddrs q)"
    and ne: "successes (ipq_calculatedEdgeQuotes q) \<noteq> []"
  shows "path_quote_ok trade inp paths p
    \<lparr>pq_path = ipq_path q, pq_edgesPoolAddrs = ipq_edgesPoolAddrs q, pq_splitPercent = p,
     pq_amountIn = th_amountIn (hd (successes (ipq_calculatedEdgeQuotes q))),
     pq_amountOut = th_amountOut (last (successes (ipq_calculatedEdgeQuotes q))),
     pq_calculatedEdgeQuotes = successes (ipq_calculatedEdgeQuotes q)\<rparr>"
proof -
  let ?s = "successes (ipq_calculatedEdgeQuotes q)" and ?c = "ipq_calculatedEdgeQuotes q"
  have n: "length ?c = length ?s" "length (path_edges path) = length ?s"
    using e len by (simp_all add: entry_ok_def)
  have c: "?c = map (\<lambda>h. Some (TradeHopQuoteSuccess h)) ?s" using n by (intro all_successes) simp
  then have at: "?c ! i = Some (TradeHopQuoteSuccess (?s ! i))" if "i < length ?s" for i
    using that by (metis nth_map)
  have slot: "th_whirlpool (?s ! i) = ipq_edgesPoolAddrs q ! i \<and> linked trade inp p ?c i (given inp (?s ! i))"
    if "i < length ?s" for i
    using e that at [OF that] n by (simp add: entry_ok_def slot_ok_def)
  have pools: "map th_whirlpool ?s = ipq_edgesPoolAddrs q"
    using slot len by (intro nth_equalityI) simp_all
  have first: "given inp (?s ! i) = (share trade p, if inp then tr_tokenIn trade else tr_tokenOut trade)"
    if "i < length ?s" "first_slot inp (length ?s) i" for i
    using slot [OF that(1)] that(2) n by (simp add: linked_def)
  have "th_amountOut (?s ! i) = th_amountIn (?s ! Suc i) \<and> th_outputMint (?s ! i) = th_inputMint (?s ! Suc i)"
    if i: "Suc i < length ?s" for i
  proof (cases inp)
    case True
    then have "\<not> first_slot inp (length ?c) (Suc i)" "?c ! prev_slot inp (Suc i) = Some (TradeHopQuoteSuccess (?s ! i))"
      using at [of i] i by (simp_all add: first_slot_def prev_slot_def)
    from linked_prev [OF this slot [OF i, THEN conjunct2]] True show ?thesis
      by (simp add: given_def passed_def)
  next
    case False
    then have "\<not> first_slot inp (length ?c) i" "?c ! prev_slot inp i = Some (TradeHopQuoteSuccess (?s ! Suc i))"
      using at [of "Suc i"] i n by (simp_all add: first_slot_def prev_slot_def)
    from linked_prev [OF this slot [of i, THEN conjunct2]] i False show ?thesis
      by (simp add: given_def passed_def)
  qed
  moreover have "if inp then th_amountIn (hd ?s) = share trade p \<and> th_inputMint (hd ?s) = tr_tokenIn trade
      else th_amountOut (last ?s) = share trade p \<and> th_outputMint (last ?s) = tr_tokenOut trade"
    using first [of 0] first [of "length ?s - 1"] ne
    by (auto simp: first_slot_def given_def hd_conv_nth last_conv_nth)
  ultimately show ?thesis
    using e assms(2) ne pools by (auto simp: path_quote_ok_def entry_ok_def Let_def)
qed

lemma sanitize_quotes_ok:
  assumes "foldE (sanitize_quote p) unc ([], f) = Inr (cleaned, f')"
    and "\<And>q. Some q \<in> set unc \<Longrightarrow> \<exists>path \<in> set paths. entry_ok trade inp h p path q"
  shows "\<forall>q \<in> set cleaned. path_quote_ok trade inp paths p q"
proof -
  have "\<forall>q \<in> set (fst (cleaned, f')). path_quote_ok trade inp paths p q"
  proof (rule foldE_inv [OF assms(1)])
    fix x s s'
    assume x: "x \<in> set unc" and s: "\<forall>q \<in> set (fst s). path_quote_ok trade inp paths p q"
      and r: "sanitize_quote p x s = Inr s'"
    from r obtain q where q: "x = Some q" by (auto simp: sanitize_quote_def split_beta split: option.splits)
    from assms(2) x q obtain path where path: "path \<in> set paths" "entry_ok trade inp h p path q" by blast
    show "\<forall>q \<in> set (fst s'). path_quote_ok trade inp paths p q"
      using r s path_quote_okI [OF path(2,1)]
      by (auto simp: q sanitize_quote_def split_beta Let_def split: if_splits list.splits)
  qed simp
  then show ?thesis by simp
qed

text \<open>One percentage of the map.\<close>

definition sanitize_percent ::
    "int \<times> InternalPathQuote option list \<Rightarrow> SanitizedQuoteMap \<times> WhirlpoolsErrorCode option set \<Rightarrow>
     (SanitizedQuoteMap \<times> WhirlpoolsErrorCode option set) res" where
  "sanitize_percent = (\<lambda>(percent, uncleanedQuotes) (cleanedQuoteMap, failureErrors).
     bindE (foldE (sanitize_quote percent) uncleanedQuotes ([], failureErrors)) (\<lambda>(cleaned, failureErrors).
     Inr (cleanedQuoteMap @ [(percent, cleaned)], failureErrors)))"

lemma sanitize_keys:
  "foldE sanitize_percent xs (m, f) = Inr (m', f') \<Longrightarrow> map fst m' = map fst m @ map fst xs"
  by (induction xs arbitrary: m f) (auto simp: sanitize_percent_def bindE_eq_Inr)

lemma sanitizeQuoteMap_ok:
  assumes inv: "quotes_inv trade inp paths percents h m" and ret: "sanitizeQuoteMap m n inp = Inr (m', f)"
    and "0 \<le> n"
  shows "map fst m' = map fst m" "\<forall>(p, qs) \<in> set m'. int (length qs) \<le> n \<and>
      sorted_wrt (\<lambda>a b. quote_order inp a b \<le> 0) qs \<and> (\<forall>q \<in> set qs. path_quote_ok trade inp paths p q)"
proof -
  have "(\<lambda>(percent, uncleanedQuotes) (cleanedQuoteMap, failureErrors).
        bindE (foldE (sanitize_quote percent) uncleanedQuotes ([], failureErrors)) (\<lambda>(cleaned, failureErrors).
        Inr (cleanedQuoteMap @ [(percent, cleaned)], failureErrors))) = sanitize_percent"
    by (simp add: sanitize_percent_def)
  with ret obtain cl where cl: "foldE sanitize_percent m ([], {}) = Inr (cl, f)"
    and m': "m' = map (\<lambda>(percent, quotes). (percent, array_slice_to n (js_sort (quote_order inp) quotes))) cl"
    by (auto simp: sanitizeQuoteMap_def bindE_eq_Inr)
  show "map fst m' = map fst m" using sanitize_keys [OF cl] by (simp add: m' split_beta comp_def)
  have "\<forall>(p, qs) \<in> set (fst (cl, f)). \<forall>q \<in> set qs. path_quote_ok trade inp paths p q"
  proof (rule foldE_inv [OF cl])
    fix x s s'
    assume x: "x \<in> set m" and s: "\<forall>(p, qs) \<in> set (fst s). \<forall>q \<in> set qs. path_quote_ok trade inp paths p q"
      and r: "sanitize_percent x s = Inr s'"
    obtain p unc where p: "x = (p, unc)" by force
    have "distinct (map fst m)" using inv by (simp add: quotes_inv_def keys_sorted_def strict_sorted_iff)
    then have at: "map_of m p = Some unc" using x p by (simp add: map_of_is_SomeI)
    have entries: "\<exists>path \<in> set paths. entry_ok trade inp h p path q" if "Some q \<in> set unc" for q
    proof -
      from that obtain k where k: "k < length unc" "unc ! k = Some q" by (auto simp: in_set_conv_nth)
      moreover have "length unc = length paths" using inv at by (simp add: quotes_inv_def)
      ultimately show ?thesis using quotes_invD(2) [OF inv at, of k q] nth_mem [of k paths] by auto
    qed
    from r show "\<forall>(p, qs) \<in> set (fst s'). \<forall>q \<in> set qs. path_quote_ok trade inp paths p q"
      using s sanitize_quotes_ok [OF _ entries]
      by (auto simp: p sanitize_percent_def split_beta bindE_eq_Inr)
  qed simp
  then have ok: "\<forall>q \<in> set qs. path_quote_ok trade inp paths p q" if "(p, qs) \<in> set cl" for p qs
    using that by auto
  show "\<forall>(p, qs) \<in> set m'. int (length qs) \<le> n \<and>
      sorted_wrt (\<lambda>a b. quote_order inp a b \<le> 0) qs \<and> (\<forall>q \<in> set qs. path_quote_ok trade inp paths p q)"
    using ok assms(3) quote_cmp.js_sort_sorted [of inp]
    by (auto simp: m' array_slice_to_def sorted_wrt_take dest: in_set_takeD)
qed

subsection \<open>Errors\<close>

lemma mapE_error: "mapE f xs = Inl e \<Longrightarrow> \<exists>x \<in> set xs. f x = Inl e"
  by (induction xs) (auto simp: bindE_eq_Inl)

text \<open>What a search for quotes may throw; the errors of the quotes themselves are kept as values.\<close>

definition search_error :: "js_error \<Rightarrow> bool" where
  "search_error e \<longleftrightarrow> e = InvariantError \<or> e = TypeError \<or> e = NonTermination"

lemma search_errors [simp]: "search_error InvariantError" "search_error TypeError" "search_error NonTermination"
  by (simp_all add: search_error_def)

lemma build_request_error: "build_request a b hop inp p amount x s = Inl e \<Longrightarrow> e = TypeError"
  by (cases x, cases s)
    (auto simp: build_request_def Let_def split: if_splits option.splits TradeHopQuoteResult.splits)

lemma build_requests_error: "buildQuoteUpdateRequests a b paths percents amounts hop inp m = Inl e \<Longrightarrow> e = TypeError"
  unfolding buildQuoteUpdateRequests_def
  by (erule foldE_error) (auto simp: Let_def split: if_splits elim!: foldE_error dest: build_request_error)

lemma batch_error: "batchBuildSwapQuoteParams spl fpa reqs programId fetcher = Inl e \<Longrightarrow> search_error e"
  by (auto simp: batchBuildSwapQuoteParams_def Let_def bindE_eq_Inl quote_tick_array_request_def search_error_def
      dest!: mapE_error split: option.splits if_splits)

lemma populate_error: "populateQuoteMap mu spl us params m = Inl e \<Longrightarrow> e = NonTermination"
  unfolding populateQuoteMap_def
  by (erule foldE_error) (auto simp: Let_def split: sum.splits if_splits)

lemma quote_hop_error:
  "quote_hop mu spl fpa fetcher programId trade paths inp percents amounts hop m = Inl e \<Longrightarrow> search_error e"
  unfolding quote_hop_def bindE_eq_Inl split_beta
  by (auto simp: bindE_eq_Inl dest: batch_error dest!: build_requests_error populate_error)

lemma sanitize_error: "sanitizeQuoteMap m n inp = Inl e \<Longrightarrow> e = TypeError"
proof -
  have quote: "sanitize_quote p x s = Inl e \<Longrightarrow> e = TypeError" for p x s
    by (auto simp: sanitize_quote_def split_beta Let_def split: option.splits if_splits list.splits)
  assume "sanitizeQuoteMap m n inp = Inl e"
  then show ?thesis
    unfolding sanitizeQuoteMap_def
    by (auto simp: bindE_eq_Inl elim!: foldE_error dest: quote)
qed

lemma split_percents:
  assumes "0 < inc"
  obtains percents where "getSplitPercentageAmts (tr_tradeAmount trade) inc = Inr (percents, map (share trade) percents)"
    "\<And>p. p \<in> set percents \<longleftrightarrow> 0 < p \<and> p \<le> 100 \<and> inc dvd p"
proof -
  let ?ps = "map (\<lambda>i. i * inc) [1..100 div inc]"
  have "p \<in> set ?ps \<longleftrightarrow> 0 < p \<and> p \<le> 100 \<and> inc dvd p" for p
  proof
    assume "p \<in> set ?ps"
    then show "0 < p \<and> p \<le> 100 \<and> inc dvd p"
      using assms by (auto simp: le_div_iff_int)
  next
    assume p: "0 < p \<and> p \<le> 100 \<and> inc dvd p"
    then obtain i where "p = i * inc" by (metis dvd_def mult.commute)
    with p assms show "p \<in> set ?ps"
      by (auto simp: le_div_iff_int zero_less_mult_iff intro!: image_eqI [of _ _ i])
  qed
  then show thesis
    by (intro that [of ?ps]) (use assms in \<open>auto simp: getSplitPercentageAmts_def Let_def share_def\<close>)
qed

lemma getQuoteMap_ok:
  assumes "0 < ro_percentIncrement opts" "0 \<le> ro_numTopPartialQuotes opts"
  shows "case getQuoteMap mu spl fpa fetcher programId trade paths inp opts of
      Inl e \<Rightarrow> search_error e
    | Inr (m, failures) \<Rightarrow> sorted_wrt (<) (map fst m) \<and>
        (\<forall>(p, qs) \<in> set m. 0 < p \<and> p \<le> 100 \<and> ro_percentIncrement opts dvd p \<and>
           int (length qs) \<le> ro_numTopPartialQuotes opts \<and>
           sorted_wrt (\<lambda>a b. quote_order inp a b \<le> 0) qs \<and> (\<forall>q \<in> set qs. path_quote_ok trade inp paths p q))"
proof -
  obtain percents where ps: "getSplitPercentageAmts (tr_tradeAmount trade) (ro_percentIncrement opts) =
      Inr (percents, map (share trade) percents)"
    "\<And>p. p \<in> set percents \<longleftrightarrow> 0 < p \<and> p \<le> 100 \<and> ro_percentIncrement opts dvd p"
    using split_percents [OF assms(1), of trade] by blast
  define n where "n = foldr max (map (\<lambda>path. length (path_edges path)) paths) 0"
  define hops where "hops = foldE (quote_hop mu spl fpa fetcher programId trade paths inp percents
      (map (share trade) percents)) (if inp then [0..<n] else rev [0..<n]) []"
  have get: "getQuoteMap mu spl fpa fetcher programId trade paths inp opts =
      bindE hops (\<lambda>m. sanitizeQuoteMap m (ro_numTopPartialQuotes opts) inp)"
    by (simp add: getQuoteMap_def ps(1) hops_def n_def Let_def)
  show ?thesis
  proof (cases "getQuoteMap mu spl fpa fetcher programId trade paths inp opts")
    case (Inl e)
    then have "search_error e"
      unfolding get bindE_eq_Inl
    proof (elim disjE exE conjE)
      assume "hops = Inl e"
      then show ?thesis unfolding hops_def by (rule foldE_error) (rule quote_hop_error)
    next
      fix m assume "sanitizeQuoteMap m (ro_numTopPartialQuotes opts) inp = Inl e"
      then show ?thesis using sanitize_error by fastforce
    qed
    with Inl show ?thesis by simp
  next
    case (Inr r)
    obtain m f where r: "r = (m, f)" by force
    from Inr obtain m0 where m0: "hops = Inr m0" "sanitizeQuoteMap m0 (ro_numTopPartialQuotes opts) inp = Inr (m, f)"
      unfolding get r by (auto simp: bindE_eq_Inr)
    from quote_hops_inv [OF m0(1) [unfolded hops_def]]
    obtain h where inv: "quotes_inv trade inp paths percents h m0" by blast
    note ok = sanitizeQuoteMap_ok [OF inv m0(2) assms(2)]
    have keys: "set (map fst m0) \<subseteq> set percents" using inv by (simp add: quotes_inv_def)
    have "p \<in> set percents" if "(p, qs) \<in> set m" for p qs
    proof -
      have "p \<in> set (map fst m)" using that by force
      then show ?thesis unfolding ok(1) using keys by blast
    qed
    then have "0 < p \<and> p \<le> 100 \<and> ro_percentIncrement opts dvd p" if "(p, qs) \<in> set m" for p qs
      using that ps(2) by blast
    moreover have "sorted_wrt (<) (map fst m)" using inv ok(1) by (simp add: quotes_inv_def keys_sorted_def)
    ultimately show ?thesis using ok(2) by (auto simp: Inr r)
  qed
qed

subsection \<open>The map of quotes\<close>


subsection \<open>An example\<close>

definition example_trade :: Trade where
  "example_trade = \<lparr>tr_tokenIn = ''mintA'', tr_tokenOut = ''mintB'', tr_tradeAmount = 1000000, tr_amountSpecifiedIsInput = True\<rparr>"

definition example_path :: Path where
  "example_path = \<lparr>path_startTokenMint = ''mintA'', path_endTokenMint = ''mintB'', path_edges = [\<lparr>poolAddress = ''pool''\<rparr>]\<rparr>"

definition example_fetcher :: fetcher_pools where
  "example_fetcher = \<lparr>fp_getPools = (\<lambda>_. [''pool'' \<mapsto> example_pool]), fp_getTickArrays = map (\<lambda>k. None)\<rparr>"

definition example_routing :: RoutingOptions where
  "example_routing = \<lparr>ro_percentIncrement = 25, ro_numTopRoutes = 50, ro_numTopPartialQuotes = 1, ro_maxSplits = 3\<rparr>"


end
