(* ===== verification/Best_Routes.thy ===== *)
theory Best_Routes
  imports Quote_Map "HOL-Library.Sublist" "HOL-Library.AList"
begin

text \<open>
  The routes of a trade (\<^verbatim>\<open>sdk/src/router/convert-quote-map.ts\<close>): combinations of quotes whose
  percentages add up to 100, no two sharing a pool, at most \<open>maxSplits\<close> of them; the best of
  them are selected and sorted. The theorems: the combinations that are built are exactly
  the admissible subsequences of the quotes in order of falling percentage, and the route
  that comes first is the best of all of them.
\<close>

record SubTradeRoute =
  str_path :: Path
  str_splitPercent :: int
  str_amountIn :: int
  str_amountOut :: int
  str_hopQuotes :: "TradeHop list"

record TradeRoute =
  trr_subRoutes :: "SubTradeRoute list"
  trr_totalAmountIn :: int
  trr_totalAmountOut :: int

record InternalRoute =
  ir_quotes :: "PathQuote list"
  ir_splitPercent :: int
  ir_totalIn :: int
  ir_totalOut :: int

definition convertPathQuoteToSubTradeRoute :: "PathQuote \<Rightarrow> SubTradeRoute" where
  "convertPathQuoteToSubTradeRoute pathQuote =
     \<lparr>str_path = pq_path pathQuote, str_splitPercent = pq_splitPercent pathQuote,
      str_amountIn = pq_amountIn pathQuote, str_amountOut = pq_amountOut pathQuote,
      str_hopQuotes = pq_calculatedEdgeQuotes pathQuote\<rparr>"

definition convertInternalRoutesToTradeRoutes :: "InternalRoute list \<Rightarrow> TradeRoute list" where
  "convertInternalRoutesToTradeRoutes internalRoutes =
     map (\<lambda>r. \<lparr>trr_subRoutes = map convertPathQuoteToSubTradeRoute (ir_quotes r),
       trr_totalAmountIn = ir_totalIn r, trr_totalAmountOut = ir_totalOut r\<rparr>) internalRoutes"

text \<open>The quotes of the whole amount through one pool; an empty list of hops would throw.\<close>

definition getSingleHopSplit :: "SanitizedQuoteMap \<Rightarrow> InternalRoute list" where
  "getSingleHopSplit quoteMap =
     (case map_of quoteMap 100 of
        None \<Rightarrow> []
      | Some fullFlow \<Rightarrow>
          map (\<lambda>f. let oneHop = pq_calculatedEdgeQuotes f ! 0 in
            \<lparr>ir_quotes = [f], ir_splitPercent = 100,
             ir_totalIn = th_amountIn oneHop, ir_totalOut = th_amountOut oneHop\<rparr>)
            (filter (\<lambda>f. length (pq_calculatedEdgeQuotes f) = 1) fullFlow))"

text \<open>\<^verbatim>\<open>r3.indexOf(r1) !== -1\<close>: the address is part of a pool address of an earlier quote.\<close>

definition hasReusedPools :: "PathQuote list \<Rightarrow> PathQuote \<Rightarrow> bool" where
  "hasReusedPools quotes nextQuote \<longleftrightarrow>
     (\<exists>r1 \<in> set (pq_edgesPoolAddrs nextQuote). \<exists>r2 \<in> set quotes. \<exists>r3 \<in> set (pq_edgesPoolAddrs r2). sublist r1 r3)"

definition quotes_at :: "SanitizedQuoteMap \<Rightarrow> int \<Rightarrow> PathQuote list" where
  "quotes_at quotePercentMap percent = the (map_of quotePercentMap percent)"

lemma update_smaller:
  assumes "percent \<in> set (map fst m)" "length new < length (quotes_at m percent)"
  shows "sum_list (map (length \<circ> snd) (AList.update percent new m)) < sum_list (map (length \<circ> snd) m)"
  using assms by (induction m) (auto simp: quotes_at_def split: if_splits)

lemma update_quotes_smaller:
  assumes "percent \<in> set (map fst m)" "j < length (quotes_at m percent)"
  shows "sum_list (map (length \<circ> snd) (AList.update percent (drop (j + 1) (quotes_at m percent)) m))
    < sum_list (map (length \<circ> snd) m)"
  by (rule update_smaller) (use assms in auto)

text \<open>
  The two loops of \<^verbatim>\<open>buildRoutes\<close>. The array \<^verbatim>\<open>routes\<close> that it fills is its result.
\<close>

function buildRoutes :: "SanitizedQuoteMap \<Rightarrow> int \<Rightarrow> InternalRoute \<Rightarrow> InternalRoute list" where
  "buildRoutes quotePercentMap maxSplits currentRoute =
     concat (map (\<lambda>nextPercent.
       let percent = ir_splitPercent currentRoute;
           quotes = ir_quotes currentRoute;
           newPercentTotal = percent + nextPercent;
           nextPercentIsSmaller = (length quotes > 0 \<and> nextPercent > pq_splitPercent (last quotes)) in
       if newPercentTotal > 100 \<or> nextPercentIsSmaller then []
       else
         concat (map (\<lambda>j.
           let nextQuote = quotes_at quotePercentMap nextPercent ! j in
           if hasReusedPools quotes nextQuote then []
           else
             let nextRoute = \<lparr>ir_quotes = quotes @ [nextQuote], ir_splitPercent = newPercentTotal,
                   ir_totalIn = ir_totalIn currentRoute + pq_amountIn nextQuote,
                   ir_totalOut = ir_totalOut currentRoute + pq_amountOut nextQuote\<rparr>;
                 nextCandidateQuotes = drop (j + 1) (quotes_at quotePercentMap nextPercent) in
             if newPercentTotal = 100 then [nextRoute]
             else if int (length quotes) + 1 \<noteq> maxSplits
             then buildRoutes (AList.update nextPercent nextCandidateQuotes quotePercentMap) maxSplits nextRoute
             else [])
           [0..<length (quotes_at quotePercentMap nextPercent)]))
       (rev (map fst quotePercentMap)))"
  by pat_completeness auto
termination
  by (relation "measure (\<lambda>(m, _, _). sum_list (map (length \<circ> snd) m))")
    (use update_quotes_smaller in \<open>auto simp del: map_map\<close>)

declare buildRoutes.simps [simp del]

definition generateRoutes :: "SanitizedQuoteMap \<Rightarrow> int \<Rightarrow> InternalRoute list" where
  "generateRoutes percentMap maxSplits =
     buildRoutes percentMap maxSplits \<lparr>ir_quotes = [], ir_splitPercent = 0, ir_totalIn = 0, ir_totalOut = 0\<rparr>"

definition routesCompareForInputAmount :: "InternalRoute \<Rightarrow> InternalRoute \<Rightarrow> int" where
  "routesCompareForInputAmount a b = sgn (ir_totalOut b - ir_totalOut a)"

definition routesCompareForOutputAmount :: "InternalRoute \<Rightarrow> InternalRoute \<Rightarrow> int" where
  "routesCompareForOutputAmount a b = sgn (ir_totalIn a - ir_totalIn b)"

definition getRouteCompareFn :: "bool \<Rightarrow> InternalRoute \<Rightarrow> InternalRoute \<Rightarrow> int" where
  "getRouteCompareFn amountSpecifiedIsInput =
     (if amountSpecifiedIsInput then routesCompareForInputAmount else routesCompareForOutputAmount)"

definition getRankedRoutes :: "SanitizedQuoteMap \<Rightarrow> bool \<Rightarrow> int \<Rightarrow> int \<Rightarrow> InternalRoute list res" where
  "getRankedRoutes percentMap amountSpecifiedIsInput topN maxSplits =
     (let routes = generateRoutes percentMap maxSplits;
          routeCompare = getRouteCompareFn amountSpecifiedIsInput in
      if int (length routes) \<le> topN then Inr (js_sort routeCompare routes)
      else
        bindE (kSmallestPartition routeCompare routes topN 0 (int (length routes) - 1)) (\<lambda>routes.
        Inr (js_sort routeCompare (array_slice_to topN routes))))"

definition getBestRoutesFromQuoteMap ::
    "SanitizedQuoteMap \<Rightarrow> bool \<Rightarrow> RoutingOptions \<Rightarrow> TradeRoute list res" where
  "getBestRoutesFromQuoteMap quoteMap amountSpecifiedIsInput opts =
     bindE (getRankedRoutes quoteMap amountSpecifiedIsInput (ro_numTopRoutes opts) (ro_maxSplits opts)) (\<lambda>ranked.
     Inr (convertInternalRoutesToTradeRoutes
       (js_sort (getRouteCompareFn amountSpecifiedIsInput) (ranked @ getSingleHopSplit quoteMap))))"

subsection \<open>Comparing routes\<close>

interpretation route_order: comparator "getRouteCompareFn amountSpecifiedIsInput"
  by unfold_locales
    (auto simp: getRouteCompareFn_def routesCompareForInputAmount_def routesCompareForOutputAmount_def sgn_if split: if_splits)

subsection \<open>The combinations, verified\<close>

text \<open>A well-formed map: positive percentages in ascending order, each with its own quotes.\<close>

definition quote_map_ok :: "SanitizedQuoteMap \<Rightarrow> bool" where
  "quote_map_ok m \<longleftrightarrow> sorted_wrt (<) (map fst m) \<and>
     (\<forall>(p, qs) \<in> set m. 0 < p \<and> (\<forall>q \<in> set qs. pq_splitPercent q = p))"

text \<open>The quotes in order of falling percentage, up to a bound.\<close>

definition in_bound :: "int option \<Rightarrow> int \<Rightarrow> bool" where
  "in_bound bnd p \<longleftrightarrow> (case bnd of None \<Rightarrow> True | Some b \<Rightarrow> p \<le> b)"

definition usable :: "SanitizedQuoteMap \<Rightarrow> int option \<Rightarrow> PathQuote list" where
  "usable m bnd = concat (map snd (filter (\<lambda>(p, _). in_bound bnd p) (rev m)))"

lemma keys_distinct: "quote_map_ok m \<Longrightarrow> distinct (map fst m)"
  by (simp add: quote_map_ok_def strict_sorted_iff)

lemma map_of_split: "quote_map_ok (B @ (p, ys) # A) \<Longrightarrow> map_of (B @ (p, ys) # A) p = Some ys"
  by (drule keys_distinct, rule map_of_is_SomeI) auto

lemma update_split:
  "quote_map_ok (B @ (p, ys) # A) \<Longrightarrow> AList.update p zs (B @ (p, ys) # A) = B @ (p, zs) # A"
  by (induction B) (auto simp: quote_map_ok_def)

lemma usable_split:
  assumes ok: "quote_map_ok (B @ (p, ys) # A)" and "in_bound bnd p"
  shows "usable (B @ (p, ys) # A) bnd =
      concat (map snd (filter (\<lambda>(p, _). in_bound bnd p) (rev A))) @ ys @ concat (map snd (rev B))"
    "usable (B @ (p, zs) # A) (Some p) = zs @ concat (map snd (rev B))"
proof -
  have le: "\<forall>(k, _) \<in> set B. k < p" "\<forall>(k, _) \<in> set A. p < k"
    using ok by (force simp: quote_map_ok_def sorted_wrt_append)+
  have "filter (\<lambda>(p, _). in_bound bnd p) (rev B) = rev B"
    using le(1) assms(2) by (force simp: filter_id_conv in_bound_def split: option.splits)
  then show "usable (B @ (p, ys) # A) bnd =
      concat (map snd (filter (\<lambda>(p, _). in_bound bnd p) (rev A))) @ ys @ concat (map snd (rev B))"
    using assms(2) by (simp add: usable_def)
  have "filter (\<lambda>(k, _). in_bound (Some p) k) (rev B) = rev B"
    using le(1) by (force simp: filter_id_conv in_bound_def)
  moreover have "filter (\<lambda>(k, _). in_bound (Some p) k) (rev A) = []"
    using le(2) by (force simp: filter_empty_conv in_bound_def)
  ultimately show "usable (B @ (p, zs) # A) (Some p) = zs @ concat (map snd (rev B))"
    by (simp add: usable_def in_bound_def)
qed

lemma concat_split:
  "concat xss = us @ q # vs \<Longrightarrow>
     \<exists>xs1 ys j xs2. xss = xs1 @ ys # xs2 \<and> j < length ys \<and> ys ! j = q \<and> vs = drop (Suc j) ys @ concat xs2"
proof (induction xss arbitrary: us)
  case (Cons xs xss)
  show ?case
  proof (cases "length us < length xs")
    case True
    obtain r where r: "xs = us @ r" "r @ concat xss = q # vs"
      using Cons.prems True by (auto simp: append_eq_append_conv2)
    with True obtain r' where "r = q # r'" "vs = r' @ concat xss" by (cases r) auto
    with r(1) show ?thesis by (intro exI [of _ "[]"] exI [of _ xs] exI [of _ "length us"] exI [of _ xss]) auto
  next
    case False
    with Cons.prems have "concat xss = drop (length xs) us @ q # vs"
      by (auto simp: append_eq_append_conv_if split: if_splits)
    from Cons.IH [OF this] obtain xs1 ys j xs2 where
      "xss = xs1 @ ys # xs2" "j < length ys" "ys ! j = q" "vs = drop (Suc j) ys @ concat xs2" by blast
    then show ?thesis
      by (intro exI [of _ "xs # xs1"] exI [of _ ys] exI [of _ j] exI [of _ xs2]) simp
  qed
qed simp

text \<open>A quote in the usable ones, and what is usable after it.\<close>

lemma usable_pick:
  assumes ok: "quote_map_ok m" and "(p, ys) \<in> set m" "in_bound bnd p" "j < length ys"
  shows "\<exists>us. usable m bnd = us @ ys ! j # usable (AList.update p (drop (Suc j) ys) m) (Some p)"
proof -
  obtain B A where m: "m = B @ (p, ys) # A" using assms(2) by (meson split_list)
  note ok' = ok [unfolded m]
  show ?thesis
    unfolding m usable_split(1) [OF ok' assms(3)] update_split [OF ok'] usable_split(2) [OF ok' assms(3)]
    using id_take_nth_drop [OF assms(4)] by (metis append.assoc append_Cons)
qed

lemma usable_find:
  assumes ok: "quote_map_ok m" and split: "usable m bnd = us @ q # vs"
  obtains p ys j where "(p, ys) \<in> set m" "in_bound bnd p" "j < length ys" "ys ! j = q"
    "vs = usable (AList.update p (drop (Suc j) ys) m) (Some p)"
proof -
  from concat_split [OF split [unfolded usable_def]] obtain xs1 ys j xs2 where
    x: "map snd (filter (\<lambda>(p, _). in_bound bnd p) (rev m)) = xs1 @ ys # xs2" "j < length ys" "ys ! j = q"
    "vs = drop (Suc j) ys @ concat xs2" by blast
  from x(1) obtain F1 p F2 where F: "filter (\<lambda>(p, _). in_bound bnd p) (rev m) = F1 @ (p, ys) # F2" "map snd F2 = xs2"
    by (auto simp: map_eq_append_conv map_eq_Cons_conv)
  then have "(p, ys) \<in> set (filter (\<lambda>(p, _). in_bound bnd p) (rev m))" by simp
  then have mem: "(p, ys) \<in> set m" "in_bound bnd p" by auto
  obtain B A where m: "m = B @ (p, ys) # A" using mem(1) by (meson split_list)
  note ok' = ok [unfolded m]
  from keys_distinct [OF ok] have d: "distinct (filter (\<lambda>(p, _). in_bound bnd p) (rev m))" by (auto simp: distinct_map)
  have le: "\<forall>(k, _) \<in> set B. k < p"
    using ok' by (force simp: quote_map_ok_def sorted_wrt_append)
  have "filter (\<lambda>(p, _). in_bound bnd p) (rev B) = rev B"
    using le mem(2) by (force simp: filter_id_conv in_bound_def split: option.splits)
  then have "filter (\<lambda>(p, _). in_bound bnd p) (rev m) = filter (\<lambda>(p, _). in_bound bnd p) (rev A) @ (p, ys) # rev B"
    using mem(2) by (simp add: m)
  with F(1) d have "F2 = rev B"
    using append_Cons_eq_iff [of "(p, ys)" F1 F2 "filter (\<lambda>(p, _). in_bound bnd p) (rev A)" "rev B"] by simp
  then have "vs = usable (AList.update p (drop (Suc j) ys) m) (Some p)"
    using x(4) F(2) by (simp add: m update_split [OF ok'] usable_split(2) [OF ok' mem(2)])
  with mem x(2,3) show thesis by (rule that)
qed

fun no_reuse :: "PathQuote list \<Rightarrow> PathQuote list \<Rightarrow> bool" where
  "no_reuse earlier [] \<longleftrightarrow> True"
| "no_reuse earlier (q # qs) \<longleftrightarrow> \<not> hasReusedPools earlier q \<and> no_reuse (earlier @ [q]) qs"

definition route_of :: "InternalRoute \<Rightarrow> PathQuote list \<Rightarrow> InternalRoute" where
  "route_of cur qs =
     \<lparr>ir_quotes = ir_quotes cur @ qs,
      ir_splitPercent = ir_splitPercent cur + sum_list (map pq_splitPercent qs),
      ir_totalIn = ir_totalIn cur + sum_list (map pq_amountIn qs),
      ir_totalOut = ir_totalOut cur + sum_list (map pq_amountOut qs)\<rparr>"

definition bound_of :: "InternalRoute \<Rightarrow> int option" where
  "bound_of cur = (if ir_quotes cur = [] then None else Some (pq_splitPercent (last (ir_quotes cur))))"

text \<open>The ways to complete a route.\<close>

definition completes :: "SanitizedQuoteMap \<Rightarrow> int \<Rightarrow> InternalRoute \<Rightarrow> PathQuote list \<Rightarrow> bool" where
  "completes m maxSplits cur qs \<longleftrightarrow> qs \<noteq> [] \<and> subseq qs (usable m (bound_of cur)) \<and>
     ir_splitPercent cur + sum_list (map pq_splitPercent qs) = 100 \<and> no_reuse (ir_quotes cur) qs \<and>
     int (length (ir_quotes cur) + length qs) \<le> maxSplits"

lemma route_of_Cons: "route_of (route_of cur [q]) qs = route_of cur (q # qs)"
  by (simp add: route_of_def)

lemma bound_of_route: "bound_of (route_of cur [q]) = Some (pq_splitPercent q)"
  by (simp add: bound_of_def route_of_def)

lemma set_update_subset:
  "quote_map_ok m \<Longrightarrow> (p, ys) \<in> set m \<Longrightarrow> (k, zs) \<in> set (AList.update p (drop n ys) m) \<Longrightarrow>
     \<exists>zs'. (k, zs') \<in> set m \<and> set zs \<subseteq> set zs'"
  by (frule split_list) (force simp: update_split dest: in_set_dropD)

lemma quote_map_ok_update:
  assumes ok: "quote_map_ok m" and "(p, ys) \<in> set m"
  shows "quote_map_ok (AList.update p (drop n ys) m)"
proof -
  obtain B A where m: "m = B @ (p, ys) # A" using assms(2) by (meson split_list)
  show ?thesis
    using ok unfolding m update_split [OF ok [unfolded m]] quote_map_ok_def by (auto dest: in_set_dropD)
qed

lemma quotes_at_eq: "quote_map_ok m \<Longrightarrow> (p, ys) \<in> set m \<Longrightarrow> quotes_at m p = ys"
  using keys_distinct [of m] by (simp add: quotes_at_def map_of_is_SomeI)

text \<open>One choice in the loops of \<open>buildRoutes\<close>.\<close>

definition routes_from :: "SanitizedQuoteMap \<Rightarrow> int \<Rightarrow> InternalRoute \<Rightarrow> int \<Rightarrow> nat \<Rightarrow> InternalRoute list" where
  "routes_from m maxSplits cur p j =
     (let q = quotes_at m p ! j; nxt = route_of cur [q] in
      if hasReusedPools (ir_quotes cur) q then []
      else if ir_splitPercent cur + p = 100 then [nxt]
      else if int (length (ir_quotes cur)) + 1 \<noteq> maxSplits
      then buildRoutes (AList.update p (drop (Suc j) (quotes_at m p)) m) maxSplits nxt
      else [])"

lemma buildRoutes_eq:
  assumes ok: "quote_map_ok m"
  shows "buildRoutes m k cur =
     concat (map (\<lambda>p. if in_bound (bound_of cur) p \<and> ir_splitPercent cur + p \<le> 100
       then concat (map (routes_from m k cur p) [0..<length (quotes_at m p)]) else []) (rev (map fst m)))"
proof (subst buildRoutes.simps, intro arg_cong [where f = concat] map_cong refl)
  fix p assume "p \<in> set (rev (map fst m))"
  then obtain ys where ys: "(p, ys) \<in> set m" by auto
  then have split: "pq_splitPercent q = p" if "q \<in> set ys" for q
    using ok that by (force simp: quote_map_ok_def)
  have "\<not> (ir_splitPercent cur + p > 100 \<or> length (ir_quotes cur) > 0 \<and> p > pq_splitPercent (last (ir_quotes cur))) \<longleftrightarrow>
      in_bound (bound_of cur) p \<and> ir_splitPercent cur + p \<le> 100"
    by (auto simp: in_bound_def bound_of_def)
  moreover have "\<lparr>ir_quotes = ir_quotes cur @ [ys ! j], ir_splitPercent = ir_splitPercent cur + p,
        ir_totalIn = ir_totalIn cur + pq_amountIn (ys ! j), ir_totalOut = ir_totalOut cur + pq_amountOut (ys ! j)\<rparr>
      = route_of cur [ys ! j]" if "j < length ys" for j
    using split [of "ys ! j"] that by (simp add: route_of_def)
  ultimately show "(let percent = ir_splitPercent cur; quotes = ir_quotes cur; newPercentTotal = percent + p;
           nextPercentIsSmaller = (length quotes > 0 \<and> p > pq_splitPercent (last quotes)) in
       if newPercentTotal > 100 \<or> nextPercentIsSmaller then []
       else concat (map (\<lambda>j. let nextQuote = quotes_at m p ! j in
           if hasReusedPools quotes nextQuote then []
           else let nextRoute = \<lparr>ir_quotes = quotes @ [nextQuote], ir_splitPercent = newPercentTotal,
                   ir_totalIn = ir_totalIn cur + pq_amountIn nextQuote,
                   ir_totalOut = ir_totalOut cur + pq_amountOut nextQuote\<rparr>;
                 nextCandidateQuotes = drop (j + 1) (quotes_at m p) in
             if newPercentTotal = 100 then [nextRoute]
             else if int (length quotes) + 1 \<noteq> k
             then buildRoutes (AList.update p nextCandidateQuotes m) k nextRoute else [])
           [0..<length (quotes_at m p)])) =
     (if in_bound (bound_of cur) p \<and> ir_splitPercent cur + p \<le> 100
       then concat (map (routes_from m k cur p) [0..<length (quotes_at m p)]) else [])"
    unfolding Let_def quotes_at_eq [OF ok ys]
    by (auto simp: routes_from_def Let_def quotes_at_eq [OF ok ys] intro!: arg_cong [where f = concat])
qed

lemma buildRoutes_choices:
  assumes ok: "quote_map_ok m"
  shows "r \<in> set (buildRoutes m k cur) \<longleftrightarrow>
     (\<exists>p ys j. (p, ys) \<in> set m \<and> in_bound (bound_of cur) p \<and> ir_splitPercent cur + p \<le> 100 \<and>
        j < length ys \<and> r \<in> set (routes_from m k cur p j))"
proof -
  let ?c = "\<lambda>p. in_bound (bound_of cur) p \<and> ir_splitPercent cur + p \<le> 100"
  have "r \<in> set (buildRoutes m k cur) \<longleftrightarrow>
      (\<exists>x \<in> set m. ?c (fst x) \<and> (\<exists>j < length (quotes_at m (fst x)). r \<in> set (routes_from m k cur (fst x) j)))"
  proof -
    have flat: "set (concat (map f (rev (map fst m)))) = (\<Union>x \<in> set m. set (f (fst x)))" for f :: "int \<Rightarrow> InternalRoute list"
      by simp
    show ?thesis unfolding buildRoutes_eq [OF ok] flat UN_iff by (intro bex_cong refl) auto
  qed
  also have "\<dots> \<longleftrightarrow> (\<exists>x \<in> set m. ?c (fst x) \<and> (\<exists>j < length (snd x). r \<in> set (routes_from m k cur (fst x) j)))"
    by (rule bex_cong [OF refl]) (simp add: quotes_at_eq [OF ok, of "fst x" "snd x" for x])
  finally show ?thesis by force
qed

lemma usable_percent:
  assumes "quote_map_ok m" "subseq qs (usable m bnd)"
  shows "\<forall>x \<in> set (map pq_splitPercent qs). 0 < x"
proof -
  have "set qs \<subseteq> set (usable m bnd)" using assms(2) by (auto elim: list_emb_set)
  then show ?thesis using assms(1) by (force simp: usable_def quote_map_ok_def)
qed

lemma percents_sum:
  "quote_map_ok m \<Longrightarrow> subseq qs (usable m bnd) \<Longrightarrow> 0 \<le> sum_list (map pq_splitPercent qs)"
  using usable_percent [of m qs bnd] by (intro sum_list_nonneg) force

lemma percents_sum_0:
  "quote_map_ok m \<Longrightarrow> subseq qs (usable m bnd) \<Longrightarrow> sum_list (map pq_splitPercent qs) = 0 \<Longrightarrow> qs = []"
  using usable_percent [of m qs bnd] by (subst (asm) sum_list_nonneg_eq_0_iff) (force, cases qs, auto)

text \<open>Every completion is built, and nothing else.\<close>

lemma buildRoutes_exact:
  assumes "quote_map_ok m" "ir_splitPercent cur < 100" "int (length (ir_quotes cur)) < k"
  shows "set (buildRoutes m k cur) = route_of cur ` {qs. completes m k cur qs}"
  using assms
proof (induction "sum_list (map (length \<circ> snd) m)" arbitrary: m cur rule: less_induct)
  case less
  note ok = less.prems(1)
  have pick: "set (routes_from m k cur p j) = route_of cur ` {qs. \<exists>qs'. qs = ys ! j # qs' \<and>
      subseq qs' (usable (AList.update p (drop (Suc j) ys) m) (Some p)) \<and>
      ir_splitPercent cur + sum_list (map pq_splitPercent qs) = 100 \<and> no_reuse (ir_quotes cur) qs \<and>
      int (length (ir_quotes cur) + length qs) \<le> k}"
    if ys: "(p, ys) \<in> set m" and le: "ir_splitPercent cur + p \<le> 100" and j: "j < length ys" for p ys j
  proof -
    let ?m = "AList.update p (drop (Suc j) ys) m" and ?q = "ys ! j"
    have at: "quotes_at m p = ys" by (rule quotes_at_eq [OF ok ys])
    have p: "pq_splitPercent ?q = p" using ok ys nth_mem [OF j] by (force simp: quote_map_ok_def)
    have ok': "quote_map_ok ?m" by (rule quote_map_ok_update [OF ok ys])
    note zero = percents_sum_0 [OF ok']
    consider (reuse) "hasReusedPools (ir_quotes cur) ?q"
      | (full) "\<not> hasReusedPools (ir_quotes cur) ?q" "ir_splitPercent cur + p = 100"
      | (deeper) "\<not> hasReusedPools (ir_quotes cur) ?q" "ir_splitPercent cur + p \<noteq> 100"
        "int (length (ir_quotes cur)) + 1 \<noteq> k"
      | (limit) "\<not> hasReusedPools (ir_quotes cur) ?q" "ir_splitPercent cur + p \<noteq> 100"
        "int (length (ir_quotes cur)) + 1 = k" by blast
    then show ?thesis
    proof cases
      case reuse
      then show ?thesis by (auto simp: routes_from_def at)
    next
      case full
      have "subseq qs (usable ?m (Some p)) \<and>
          ir_splitPercent cur + sum_list (map pq_splitPercent (?q # qs)) = 100 \<and>
          no_reuse (ir_quotes cur) (?q # qs) \<and> int (length (ir_quotes cur) + length (?q # qs)) \<le> k
          \<longleftrightarrow> qs = []" (is "?l \<longleftrightarrow> _") for qs
      proof
        assume ?l
        with full p have "sum_list (map pq_splitPercent qs) = 0" by simp
        with \<open>?l\<close> zero show "qs = []" by blast
      qed (use full p less.prems(3) in auto)
      then have "{qs. \<exists>qs'. qs = ?q # qs' \<and> subseq qs' (usable ?m (Some p)) \<and>
          ir_splitPercent cur + sum_list (map pq_splitPercent qs) = 100 \<and> no_reuse (ir_quotes cur) qs \<and>
          int (length (ir_quotes cur) + length qs) \<le> k} = {[?q]}" by blast
      with full show ?thesis by (simp add: routes_from_def at Let_def)
    next
      case deeper
      let ?nxt = "route_of cur [?q]"
      have "set (buildRoutes ?m k ?nxt) = route_of ?nxt ` {qs. completes ?m k ?nxt qs}"
      proof (rule less.hyps [OF _ ok'])
        show "sum_list (map (length \<circ> snd) ?m) < sum_list (map (length \<circ> snd) m)"
          using update_quotes_smaller [of p m j] ys j at by force
        show "ir_splitPercent ?nxt < 100" using le deeper p by (simp add: route_of_def)
        show "int (length (ir_quotes ?nxt)) < k" using less.prems(3) deeper by (simp add: route_of_def)
      qed
      moreover have "set (routes_from m k cur p j) = set (buildRoutes ?m k ?nxt)"
        using deeper by (simp add: routes_from_def at Let_def)
      moreover have "completes ?m k ?nxt qs \<longleftrightarrow> subseq qs (usable ?m (Some p)) \<and>
          ir_splitPercent cur + sum_list (map pq_splitPercent (?q # qs)) = 100 \<and>
          no_reuse (ir_quotes cur) (?q # qs) \<and> int (length (ir_quotes cur) + length (?q # qs)) \<le> k" for qs
        using deeper p by (auto simp: completes_def bound_of_route) (auto simp: route_of_def)
      ultimately show ?thesis by (auto simp: route_of_Cons image_iff)
    next
      case limit
      then show ?thesis using p by (auto simp: routes_from_def at Let_def)
    qed
  qed
  show ?case
  proof (intro equalityI subsetI)
    fix r assume "r \<in> set (buildRoutes m k cur)"
    then obtain p ys j where c: "(p, ys) \<in> set m" "in_bound (bound_of cur) p" "ir_splitPercent cur + p \<le> 100"
      "j < length ys" "r \<in> set (routes_from m k cur p j)"
      unfolding buildRoutes_choices [OF ok] by blast
    then obtain qs' where qs': "r = route_of cur (ys ! j # qs')"
      "subseq qs' (usable (AList.update p (drop (Suc j) ys) m) (Some p))"
      "ir_splitPercent cur + sum_list (map pq_splitPercent (ys ! j # qs')) = 100"
      "no_reuse (ir_quotes cur) (ys ! j # qs')" "int (length (ir_quotes cur) + length (ys ! j # qs')) \<le> k"
      unfolding pick [OF c(1,3,4)] by blast
    obtain us where "usable m (bound_of cur) = us @ ys ! j # usable (AList.update p (drop (Suc j) ys) m) (Some p)"
      using usable_pick [OF ok c(1,2,4)] by blast
    then have "subseq (ys ! j # qs') (usable m (bound_of cur))"
      using qs'(2) by (simp add: list_emb_append2)
    with qs' have "completes m k cur (ys ! j # qs')" by (simp add: completes_def)
    with qs'(1) show "r \<in> route_of cur ` {qs. completes m k cur qs}" by blast
  next
    fix r assume "r \<in> route_of cur ` {qs. completes m k cur qs}"
    then obtain qs where qs: "r = route_of cur qs" "completes m k cur qs" by blast
    then obtain q qs' where q: "qs = q # qs'" by (cases qs) (auto simp: completes_def)
    from qs(2) q obtain us vs where u: "usable m (bound_of cur) = us @ q # vs" "subseq qs' vs"
      by (auto simp: completes_def dest: list_emb_ConsD)
    obtain p ys j where c: "(p, ys) \<in> set m" "in_bound (bound_of cur) p" "j < length ys" "ys ! j = q"
      "vs = usable (AList.update p (drop (Suc j) ys) m) (Some p)"
      by (rule usable_find [OF ok u(1)])
    have p: "pq_splitPercent q = p" using ok c nth_mem [of j ys] by (force simp: quote_map_ok_def)
    have "0 \<le> sum_list (map pq_splitPercent qs')"
      using percents_sum [OF quote_map_ok_update [OF ok c(1)]] u(2) c(5) by blast
    with qs(2) q p have "ir_splitPercent cur + p \<le> 100" by (simp add: completes_def)
    note pk = pick [OF c(1) this c(3)]
    have "r \<in> set (routes_from m k cur p j)"
      unfolding pk using qs q c u(2) by (auto simp: completes_def)
    with c \<open>ir_splitPercent cur + p \<le> 100\<close> show "r \<in> set (buildRoutes m k cur)"
      unfolding buildRoutes_choices [OF ok] by blast
  qed
qed

subsection \<open>The routes of a trade\<close>

text \<open>
  The admissible combinations: quotes in order of falling percentage whose percentages add
  up to 100, at most \<open>maxSplits\<close>, none with a pool of an earlier one.
\<close>

definition admissible :: "SanitizedQuoteMap \<Rightarrow> int \<Rightarrow> PathQuote list \<Rightarrow> bool" where
  "admissible m maxSplits qs \<longleftrightarrow>
     subseq qs (concat (map snd (rev m))) \<and> sum_list (map pq_splitPercent qs) = 100 \<and>
     sorted_wrt (\<lambda>a b. \<not> hasReusedPools [a] b) qs \<and> int (length qs) \<le> maxSplits"

lemma hasReusedPools_append: "hasReusedPools (xs @ ys) q \<longleftrightarrow> hasReusedPools xs q \<or> hasReusedPools ys q"
  by (auto simp: hasReusedPools_def)

lemma no_reuse_iff:
  "no_reuse earlier qs \<longleftrightarrow>
     (\<forall>q \<in> set qs. \<not> hasReusedPools earlier q) \<and> sorted_wrt (\<lambda>a b. \<not> hasReusedPools [a] b) qs"
  by (induction qs arbitrary: earlier) (auto simp: hasReusedPools_append)

definition no_route :: InternalRoute where
  "no_route = \<lparr>ir_quotes = [], ir_splitPercent = 0, ir_totalIn = 0, ir_totalOut = 0\<rparr>"

lemma completes_no_route: "completes m k no_route qs \<longleftrightarrow> admissible m k qs"
proof -
  have "usable m None = concat (map snd (rev m))"
    by (simp add: usable_def in_bound_def case_prod_unfold)
  moreover have "\<not> hasReusedPools [] q" for q by (simp add: hasReusedPools_def)
  ultimately show ?thesis
    by (auto simp: completes_def admissible_def no_route_def bound_of_def no_reuse_iff)
qed

lemma generateRoutes_set:
  assumes "quote_map_ok m" "0 < k"
  shows "set (generateRoutes m k) = route_of no_route ` {qs. admissible m k qs}"
  using buildRoutes_exact [OF assms(1), of no_route k] assms(2)
  by (simp add: generateRoutes_def no_route_def [symmetric] completes_no_route) (simp add: no_route_def)

text \<open>
  The routes that are generated are exactly the admissible combinations of the quotes,
  and each carries the sums of what its quotes trade: the loops neither miss a combination
  nor build one whose percentages do not add up to 100 or that uses a pool twice.
\<close>

theorem generated_routes_exact:
  assumes "quote_map_ok m" "0 < maxSplits"
  shows "ir_quotes ` set (generateRoutes m maxSplits) = {qs. admissible m maxSplits qs} \<and>
    (\<forall>r \<in> set (generateRoutes m maxSplits). ir_splitPercent r = 100 \<and>
       ir_totalIn r = sum_list (map pq_amountIn (ir_quotes r)) \<and>
       ir_totalOut r = sum_list (map pq_amountOut (ir_quotes r)))"
proof -
  have "ir_quotes (route_of no_route qs) = qs" for qs by (simp add: route_of_def no_route_def)
  then have "ir_quotes ` set (generateRoutes m maxSplits) = {qs. admissible m maxSplits qs}"
    unfolding generateRoutes_set [OF assms] by (force simp: image_image)
  moreover have "ir_splitPercent (route_of no_route qs) = 100" if "admissible m maxSplits qs" for qs
    using that by (simp add: route_of_def no_route_def admissible_def)
  ultimately show ?thesis
    unfolding generateRoutes_set [OF assms] by (auto simp: route_of_def no_route_def)
qed

lemma ranked_routes:
  assumes "0 < topN"
  obtains rs where "getRankedRoutes m inp topN k = Inr rs" "set rs \<subseteq> set (generateRoutes m k)"
    "\<And>r. r \<in> set (generateRoutes m k) \<Longrightarrow> \<exists>s \<in> set rs. getRouteCompareFn inp s r \<le> 0"
proof (cases "int (length (generateRoutes m k)) \<le> topN")
  case True
  then show thesis
    by (intro that [of "js_sort (getRouteCompareFn inp) (generateRoutes m k)"])
      (auto simp: getRankedRoutes_def Let_def route_order.cmp_refl intro!: bexI)
next
  case False
  let ?rs = "generateRoutes m k" and ?cmp = "getRouteCompareFn inp"
  have "0 \<le> (0 :: int)" "int (length ?rs) - 1 < int (length ?rs)" "0 \<le> topN" "topN \<le> int (length ?rs) - 1"
    using assms False by auto
  then obtain b where b: "kSmallestPartition ?cmp ?rs topN 0 (int (length ?rs) - 1) = Inr b"
    "ranged 0 (int (length ?rs) - 1) ?rs b" "comparator.split_at ?cmp 0 (int (length ?rs) - 1) topN b"
    by (rule route_order.kSmallestPartition_ok)
  have ms: "mset b = mset ?rs" using b(2) by (simp add: ranged_def)
  then have len: "length b = length ?rs" and set: "set b = set ?rs" by (metis size_mset, metis set_mset_mset)
  let ?top = "js_sort ?cmp (array_slice_to topN b)"
  have top: "set ?top = set (take (nat topN) b)" using assms by (simp add: array_slice_to_def)
  show thesis
  proof (rule that [of ?top])
    show "getRankedRoutes m inp topN k = Inr ?top" using False b(1) by (simp add: getRankedRoutes_def Let_def)
    show "set ?top \<subseteq> set ?rs" unfolding top set [symmetric] by (rule set_take_subset)
    fix r assume "r \<in> set ?rs"
    then obtain q where q: "q < length b" "r = b ! q" unfolding set [symmetric] by (auto simp: in_set_conv_nth)
    have first: "b ! 0 \<in> set ?top" unfolding top using assms q by (auto simp: in_set_conv_nth intro!: exI [of _ 0])
    show "\<exists>s \<in> set ?top. ?cmp s r \<le> 0"
    proof (cases "int q < topN")
      case True
      then have "r \<in> set ?top" unfolding top q(2) using q(1) by (auto simp: in_set_conv_nth intro!: exI [of _ q])
      then show ?thesis using route_order.cmp_refl [of inp r] by (intro bexI [of _ r]) simp_all
    next
      case False
      then have "?cmp (b ! nat 0) (b ! nat (int q)) \<le> 0"
        using b(3) [unfolded route_order.split_at_def, rule_format, of 0 "int q"] assms q(1) len by simp
      then show ?thesis using first q(2) by (intro bexI [of _ "b ! 0"]) simp_all
    qed
  qed
qed

text \<open>
  The hops of a quote carry its amounts: what the map of quotes owes the shortcut for routes
  of one pool.
\<close>

definition quote_hops_ok :: "PathQuote \<Rightarrow> bool" where
  "quote_hops_ok q \<longleftrightarrow> pq_calculatedEdgeQuotes q \<noteq> [] \<and>
     pq_amountIn q = th_amountIn (hd (pq_calculatedEdgeQuotes q)) \<and>
     pq_amountOut q = th_amountOut (last (pq_calculatedEdgeQuotes q))"

lemma single_hop_routes:
  assumes ok: "quote_map_ok m" and hops: "\<forall>(p, qs) \<in> set m. \<forall>q \<in> set qs. quote_hops_ok q" and "0 < k"
  shows "set (getSingleHopSplit m) \<subseteq> set (generateRoutes m k)"
proof
  fix r assume "r \<in> set (getSingleHopSplit m)"
  then obtain ys q where ys: "map_of m 100 = Some ys" "q \<in> set ys" "length (pq_calculatedEdgeQuotes q) = 1"
    and r: "r = \<lparr>ir_quotes = [q], ir_splitPercent = 100,
      ir_totalIn = th_amountIn (pq_calculatedEdgeQuotes q ! 0),
      ir_totalOut = th_amountOut (pq_calculatedEdgeQuotes q ! 0)\<rparr>"
    by (cases "map_of m 100") (auto simp: getSingleHopSplit_def Let_def)
  have mem: "(100, ys) \<in> set m" using ys(1) by (rule map_of_SomeD)
  then have q: "pq_splitPercent q = 100" "quote_hops_ok q" using ok hops ys(2) by (force simp: quote_map_ok_def)+
  obtain h where "pq_calculatedEdgeQuotes q = [h]" using ys(3) by (auto simp: length_Suc_conv)
  with q have "r = route_of no_route [q]" by (simp add: r route_of_def no_route_def quote_hops_ok_def)
  moreover have "q \<in> set (concat (map snd (rev m)))" using mem ys(2) by force
  then have "admissible m k [q]" using q(1) assms(3) by (simp add: admissible_def subseq_singleton_left)
  ultimately show "r \<in> set (generateRoutes m k)" unfolding generateRoutes_set [OF ok assms(3)] by blast
qed

definition trade_route :: "PathQuote list \<Rightarrow> TradeRoute" where
  "trade_route qs = \<lparr>trr_subRoutes = map convertPathQuoteToSubTradeRoute qs,
     trr_totalAmountIn = sum_list (map pq_amountIn qs), trr_totalAmountOut = sum_list (map pq_amountOut qs)\<rparr>"

text \<open>A route is at least as good as another: more out for the input, or less in for the output.\<close>

definition as_good :: "bool \<Rightarrow> TradeRoute \<Rightarrow> TradeRoute \<Rightarrow> bool" where
  "as_good amountSpecifiedIsInput r s \<longleftrightarrow>
     (if amountSpecifiedIsInput then trr_totalAmountOut s \<le> trr_totalAmountOut r
      else trr_totalAmountIn r \<le> trr_totalAmountIn s)"

lemma as_good_iff:
  "as_good inp (trade_route qs) (trade_route qs') \<longleftrightarrow>
     getRouteCompareFn inp (route_of no_route qs) (route_of no_route qs') \<le> 0"
  by (auto simp: as_good_def trade_route_def getRouteCompareFn_def routesCompareForInputAmount_def
      routesCompareForOutputAmount_def route_of_def no_route_def sgn_if split: if_splits)

lemma getBestRoutes_ok:
  assumes "quote_map_ok m" "\<forall>(p, qs) \<in> set m. \<forall>q \<in> set qs. quote_hops_ok q"
    and "0 < ro_maxSplits opts" "0 < ro_numTopRoutes opts"
  shows "\<exists>routes. getBestRoutesFromQuoteMap m amountSpecifiedIsInput opts = Inr routes \<and>
    set routes \<subseteq> trade_route ` {qs. admissible m (ro_maxSplits opts) qs} \<and>
    sorted_wrt (as_good amountSpecifiedIsInput) routes \<and>
    (\<forall>qs. admissible m (ro_maxSplits opts) qs \<longrightarrow>
       routes \<noteq> [] \<and> as_good amountSpecifiedIsInput (hd routes) (trade_route qs))"
proof -
  let ?k = "ro_maxSplits opts" and ?cmp = "getRouteCompareFn amountSpecifiedIsInput"
  note gen = generateRoutes_set [OF assms(1,3)]
  obtain rs where rs: "getRankedRoutes m amountSpecifiedIsInput (ro_numTopRoutes opts) ?k = Inr rs"
    "set rs \<subseteq> set (generateRoutes m ?k)"
    "\<And>r. r \<in> set (generateRoutes m ?k) \<Longrightarrow> \<exists>s \<in> set rs. ?cmp s r \<le> 0"
    using ranked_routes [OF assms(4)] by blast
  let ?all = "js_sort ?cmp (rs @ getSingleHopSplit m)"
  have sub: "set ?all \<subseteq> route_of no_route ` {qs. admissible m ?k qs}"
    using rs(2) single_hop_routes [OF assms(1,2,3)] by (auto simp: gen)
  have conv: "convertInternalRoutesToTradeRoutes [route_of no_route qs] = [trade_route qs]" for qs
    by (simp add: convertInternalRoutesToTradeRoutes_def route_of_def no_route_def trade_route_def)
  define tr where "tr = (\<lambda>r. hd (convertInternalRoutesToTradeRoutes [r]))"
  have routes: "convertInternalRoutesToTradeRoutes xs = map tr xs" for xs
    by (simp add: convertInternalRoutesToTradeRoutes_def tr_def)
  have tr: "tr (route_of no_route qs) = trade_route qs" for qs by (simp add: tr_def conv)
  have better: "as_good amountSpecifiedIsInput (tr r) (tr s)" if "r \<in> set ?all" "?cmp r s \<le> 0"
    "s \<in> route_of no_route ` {qs. admissible m ?k qs}" for r s
    using that sub by (force simp: tr as_good_iff)
  have sorted: "sorted_wrt (\<lambda>a b. ?cmp a b \<le> 0) ?all" by (rule route_order.js_sort_sorted)
  have first: "?cmp (hd ?all) r \<le> 0" if "r \<in> set ?all" for r
    using sorted that by (cases ?all) (auto simp: route_order.cmp_refl)
  show ?thesis
  proof (intro exI conjI allI impI)
    show "getBestRoutesFromQuoteMap m amountSpecifiedIsInput opts = Inr (map tr ?all)"
      using rs(1) by (simp add: getBestRoutesFromQuoteMap_def routes)
    show "set (map tr ?all) \<subseteq> trade_route ` {qs. admissible m ?k qs}"
      using sub by (force simp: tr)
    show "sorted_wrt (as_good amountSpecifiedIsInput) (map tr ?all)"
      unfolding sorted_wrt_map by (rule sorted_wrt_mono_rel [OF _ sorted]) (use better sub in blast)
  next
    fix qs assume adm: "admissible m ?k qs"
    then have "route_of no_route qs \<in> set (generateRoutes m ?k)" unfolding gen by blast
    from rs(3) [OF this] obtain s where s: "s \<in> set rs" "?cmp s (route_of no_route qs) \<le> 0" by blast
    then have s_in: "s \<in> set ?all" by simp
    then have ne: "?all \<noteq> []" by force
    then show "map tr ?all \<noteq> []" by simp
    have "?cmp (hd ?all) (route_of no_route qs) \<le> 0"
      using route_order.cmp_trans [OF first [OF s_in] s(2)] .
    then have "as_good amountSpecifiedIsInput (tr (hd ?all)) (tr (route_of no_route qs))"
      by (rule better [OF hd_in_set [OF ne]]) (use adm in blast)
    then show "as_good amountSpecifiedIsInput (hd (map tr ?all)) (trade_route qs)"
      using ne by (simp add: hd_map tr)
  qed
qed

text \<open>
  C13: The router's selection always returns. Its routes are admissible combinations, sorted from
  the best to the worst, and the first one is at least as good as every admissible
  combination, although only the best \<open>numTopRoutes\<close> were kept.
\<close>

theorem best_route_is_optimal:
  assumes "quote_map_ok m" "\<forall>(p, qs) \<in> set m. \<forall>q \<in> set qs. quote_hops_ok q"
    and "0 < ro_maxSplits opts" "0 < ro_numTopRoutes opts"
  shows "\<exists>routes. getBestRoutesFromQuoteMap m amountSpecifiedIsInput opts = Inr routes \<and>
    set routes \<subseteq> trade_route ` {qs. admissible m (ro_maxSplits opts) qs} \<and>
    sorted_wrt (as_good amountSpecifiedIsInput) routes \<and>
    (\<forall>qs. admissible m (ro_maxSplits opts) qs \<longrightarrow>
       routes \<noteq> [] \<and> as_good amountSpecifiedIsInput (hd routes) (trade_route qs))"
  by (rule getBestRoutes_ok [OF assms])

subsection \<open>An example\<close>

definition example_swap_quote :: "int \<Rightarrow> int \<Rightarrow> NormalSwapQuote" where
  "example_swap_quote amount_in amount_out =
     \<lparr>si_amount = amount_in, si_otherAmountThreshold = 0, si_sqrtPriceLimit = MIN_SQRT_PRICE,
      si_amountSpecifiedIsInput = True, si_aToB = True, si_tickArray0 = Some ''t0'',
      si_tickArray1 = None, si_tickArray2 = None, se_estimatedAmountIn = amount_in,
      se_estimatedAmountOut = amount_out, se_estimatedEndTickIndex = 0, se_estimatedEndSqrtPrice = 2 ^ 64,
      se_estimatedFeeAmount = 0, se_deductingFromEstimatedAmountIn = 0, se_deductedFromEstimatedAmountOut = 0\<rparr>"

definition example_path_quote :: "pubkey \<Rightarrow> int \<Rightarrow> int \<Rightarrow> int \<Rightarrow> PathQuote" where
  "example_path_quote pool percent amount_in amount_out =
     \<lparr>pq_path = \<lparr>path_startTokenMint = ''A'', path_endTokenMint = ''B'', path_edges = [\<lparr>poolAddress = pool\<rparr>]\<rparr>,
      pq_edgesPoolAddrs = [pool], pq_splitPercent = percent, pq_amountIn = amount_in, pq_amountOut = amount_out,
      pq_calculatedEdgeQuotes = [\<lparr>th_amountIn = amount_in, th_amountOut = amount_out, th_whirlpool = pool,
        th_inputMint = ''A'', th_outputMint = ''B'', th_mintA = ''A'', th_mintB = ''B'', th_vaultA = ''vA'',
        th_vaultB = ''vB'', th_quote = example_swap_quote amount_in amount_out,
        th_snapshot = \<lparr>ths_aToB = True, ths_sqrtPrice = 2 ^ 64,
          ths_feeRate = \<lparr>numerator = 3000, denominator = 1000000\<rparr>\<rparr>\<rparr>]\<rparr>"

definition example_quote_map :: SanitizedQuoteMap where
  "example_quote_map =
     [(40, [example_path_quote ''p1'' 40 40 39, example_path_quote ''p2'' 40 40 38]),
      (60, [example_path_quote ''p1'' 60 60 58, example_path_quote ''p2'' 60 60 55]),
      (100, [example_path_quote ''p1'' 100 100 95])]"

definition example_options :: RoutingOptions where
  "example_options = \<lparr>ro_percentIncrement = 20, ro_numTopRoutes = 2, ro_numTopPartialQuotes = 10, ro_maxSplits = 3\<rparr>"

lemma example_quote_map_ok:
  "quote_map_ok example_quote_map" "\<forall>(p, qs) \<in> set example_quote_map. \<forall>q \<in> set qs. quote_hops_ok q"
  by (simp_all add: quote_map_ok_def example_quote_map_def example_path_quote_def quote_hops_ok_def)

lemma example_admissible:
  "admissible example_quote_map 3 [example_path_quote ''p1'' 60 60 58, example_path_quote ''p2'' 40 40 38]"
  by (simp add: admissible_def example_quote_map_def example_path_quote_def hasReusedPools_def sublist_code)

theorem generated_routes_exact_witness:
  "[example_path_quote ''p1'' 60 60 58, example_path_quote ''p2'' 40 40 38]
     \<in> ir_quotes ` set (generateRoutes example_quote_map 3)"
  using generated_routes_exact [OF example_quote_map_ok(1), of 3] example_admissible by simp

theorem best_route_is_optimal_witness:
  "\<exists>routes. getBestRoutesFromQuoteMap example_quote_map True example_options = Inr routes \<and> routes \<noteq> [] \<and>
     96 \<le> trr_totalAmountOut (hd routes)"
proof -
  have "0 < ro_maxSplits example_options" "0 < ro_numTopRoutes example_options" "ro_maxSplits example_options = 3"
    by (simp_all add: example_options_def)
  from best_route_is_optimal [OF example_quote_map_ok this(1,2), of True] this(3) example_admissible
  obtain routes where "getBestRoutesFromQuoteMap example_quote_map True example_options = Inr routes"
    "routes \<noteq> []" "as_good True (hd routes)
       (trade_route [example_path_quote ''p1'' 60 60 58, example_path_quote ''p2'' 40 40 38])" by metis
  moreover have "trr_totalAmountOut (trade_route [example_path_quote ''p1'' 60 60 58, example_path_quote ''p2'' 40 40 38]) = 96"
    by (simp add: trade_route_def example_path_quote_def)
  ultimately show ?thesis by (auto simp: as_good_def)
qed

end
