(* ===== verification/Router.thy ===== *)
theory Router
  imports Best_Routes
begin

text \<open>
  The router (\<^verbatim>\<open>sdk/src/router/router-impl.ts\<close>, \<^verbatim>\<open>router/public/router-utils.ts\<close>,
  \<^verbatim>\<open>router-builder.ts\<close>): paths from the pool graph, their quotes, the best combinations of them, and
  the price impact of a route. The accounts that \<^verbatim>\<open>prefetchRoutes\<close> loads into the fetcher's cache are
  the value of \<open>prefetchRoutes\<close>. The theorem follows a trade from the graph to the routes; the selection of a
  route whose transaction fits is in \<^theory_text>\<open>Swap_Route\<close>, with the transaction of a route.
\<close>

subsection \<open>Options\<close>

record PartialRoutingOptions =
  pro_percentIncrement :: "int option"
  pro_numTopRoutes :: "int option"
  pro_numTopPartialQuotes :: "int option"
  pro_maxSplits :: "int option"

definition getDefaultRouteOptions :: RoutingOptions where
  "getDefaultRouteOptions = \<lparr>ro_percentIncrement = 20, ro_numTopRoutes = 50, ro_numTopPartialQuotes = 10, ro_maxSplits = 3\<rparr>"

definition or_default :: "'a option \<Rightarrow> 'a \<Rightarrow> 'a" where
  "or_default opt d = (case opt of Some x \<Rightarrow> x | None \<Rightarrow> d)"

definition merge_options :: "PartialRoutingOptions option \<Rightarrow> RoutingOptions" where
  "merge_options opts =
     (case opts of
        None \<Rightarrow> getDefaultRouteOptions
      | Some o' \<Rightarrow> \<lparr>ro_percentIncrement = or_default (pro_percentIncrement o') (ro_percentIncrement getDefaultRouteOptions),
          ro_numTopRoutes = or_default (pro_numTopRoutes o') (ro_numTopRoutes getDefaultRouteOptions),
          ro_numTopPartialQuotes = or_default (pro_numTopPartialQuotes o') (ro_numTopPartialQuotes getDefaultRouteOptions),
          ro_maxSplits = or_default (pro_maxSplits o') (ro_maxSplits getDefaultRouteOptions)\<rparr>)"

subsection \<open>Finding routes\<close>

definition set_add_all :: "'a list \<Rightarrow> 'a list \<Rightarrow> 'a list" where
  "set_add_all items s = fold set_add items s"

text \<open>The pools of the paths, and the tick arrays a swap on them in either direction may need.\<close>

definition prefetchRoutes ::
    "find_program_address \<Rightarrow> Path list \<Rightarrow> pubkey \<Rightarrow> (pubkey list \<Rightarrow> (pubkey \<times> WhirlpoolData option) list) \<Rightarrow>
     pubkey list \<times> pubkey list" where
  "prefetchRoutes fpa paths programId getPools =
     (let ps = fold (\<lambda>path poolSet. set_add_all (map poolAddress (path_edges path)) poolSet) paths [];
          allWps = getPools ps in
      (ps, concat (map (\<lambda>(key, pool).
        case pool of
          None \<Rightarrow> []
        | Some wp \<Rightarrow>
            let keys = (\<lambda>aToB. getTickArrayPublicKeys fpa (wp_tickCurrentIndex wp) (wp_tickSpacing wp) aToB programId key) in
            set_add_all (keys True @ keys False) []) allWps)))"

abbreviation route_error :: "RouteQueryErrorCode \<Rightarrow> js_error" where
  "route_error c \<equiv> WhirlpoolsError (Some (RouteQueryError c))"

definition findAllRoutes ::
    "math_util \<Rightarrow> 'c spl_token \<Rightarrow> find_program_address \<Rightarrow> fetcher_pools \<Rightarrow> pubkey \<Rightarrow> AdjacencyListPoolGraph \<Rightarrow>
     Trade \<Rightarrow> PartialRoutingOptions option \<Rightarrow> TradeRoute list res" where
  "findAllRoutes mu spl fpa fetcher programId poolGraph trade opts =
     (let paths = getPath poolGraph (tr_tokenIn trade) (tr_tokenOut trade) None;
          amountSpecifiedIsInput = tr_amountSpecifiedIsInput trade;
          routingOptions = merge_options opts in
      if length paths = 0 then Inl (route_error RouteDoesNotExist)
      else if tr_tradeAmount trade = 0 then Inl (route_error ZeroInputAmount)
      else
        case bindE (getQuoteMap mu spl fpa fetcher programId trade paths amountSpecifiedIsInput routingOptions)
          (\<lambda>(quoteMap, failures).
           bindE (getBestRoutesFromQuoteMap quoteMap amountSpecifiedIsInput routingOptions) (\<lambda>bestRoutes.
           if length bestRoutes = 0 \<and> Some (SwapError TickArraySequenceInvalid) \<in> failures
           then Inr (Inl (route_error TradeAmountTooHigh))
           else Inr (Inr bestRoutes))) of
          Inr result \<Rightarrow> result
        | Inl e \<Rightarrow> if e = NonTermination then Inl e else Inl (route_error General))"

subsection \<open>Price impact\<close>

text \<open>The value of one hop at the price before the trade; \<open>prev\<close> is what the hop before gave.\<close>

definition base_value :: "bool \<Rightarrow> int option \<Rightarrow> TradeHop \<Rightarrow> int res" where
  "base_value amountSpecifiedIsInput prev quote =
     (let snapshot = th_snapshot quote;
          num = numerator (ths_feeRate snapshot); den = denominator (ths_feeRate snapshot) in
      bindE (if ths_aToB snapshot then Inr (ths_sqrtPrice snapshot) else invertSqrtPriceX64 (ths_sqrtPrice snapshot))
        (\<lambda>directionalSqrtPrice.
      bindE (bn_div (directionalSqrtPrice * directionalSqrtPrice) U64) (\<lambda>price.
      if amountSpecifiedIsInput
      then let amountIn = (case prev of None \<Rightarrow> th_amountIn quote | Some x \<Rightarrow> x) in
        bindE (bn_div (amountIn * (den - num)) den) (\<lambda>feeAdjustedAmount. bn_div (price * feeAdjustedAmount) U64)
      else let amountOut = (case prev of None \<Rightarrow> th_amountOut quote | Some x \<Rightarrow> x) in
        bindE (bn_div (amountOut * U64) price) (\<lambda>feeAdjustedAmount. bn_div (feeAdjustedAmount * den) (den - num)))))"

definition sub_route_value :: "bool \<Rightarrow> SubTradeRoute \<Rightarrow> int res" where
  "sub_route_value amountSpecifiedIsInput route =
     (let directionalHops = (if amountSpecifiedIsInput then str_hopQuotes route else rev (str_hopQuotes route)) in
      bindE (foldE (\<lambda>quote acc. bindE (base_value amountSpecifiedIsInput acc quote) (\<lambda>v. Inr (Some v)))
        directionalHops None) (\<lambda>last_value.
      case last_value of None \<Rightarrow> Inl TypeError | Some v \<Rightarrow> Inr v))"

definition total_base_value :: "bool \<Rightarrow> TradeRoute \<Rightarrow> int res" where
  "total_base_value amountSpecifiedIsInput route =
     foldE (\<lambda>r acc. bindE (sub_route_value amountSpecifiedIsInput r) (\<lambda>v. Inr (acc + v))) (trr_subRoutes route) 0"

definition getPriceImpactForRoute :: "'d decimal_ops \<Rightarrow> Trade \<Rightarrow> TradeRoute \<Rightarrow> 'd res" where
  "getPriceImpactForRoute dec trade route =
     bindE (total_base_value (tr_amountSpecifiedIsInput trade) route) (\<lambda>totalBaseValue.
     let base = dec_ofBN dec totalBaseValue;
         est = dec_ofBN dec (if tr_amountSpecifiedIsInput trade then trr_totalAmountOut route else trr_totalAmountIn route);
         priceImpact = (if tr_amountSpecifiedIsInput trade
           then dec_div dec (dec_sub dec base est) base else dec_div dec (dec_sub dec est base) est) in
     Inr (dec_mul dec priceImpact (dec_ofBN dec 100)))"

subsection \<open>From the graph to the routes\<close>

text \<open>One sub-route: hop by hop along a path of the graph, for its percentage of the trade.\<close>

definition sub_route_ok :: "Trade \<Rightarrow> bool \<Rightarrow> Path list \<Rightarrow> SubTradeRoute \<Rightarrow> bool" where
  "sub_route_ok trade inp paths r \<longleftrightarrow>
     (let hops = str_hopQuotes r in
      str_path r \<in> set paths \<and> 0 < str_splitPercent r \<and> hops \<noteq> [] \<and>
      map th_whirlpool hops = map poolAddress (path_edges (str_path r)) \<and>
      str_amountIn r = th_amountIn (hd hops) \<and> str_amountOut r = th_amountOut (last hops) \<and>
      (\<forall>i. Suc i < length hops \<longrightarrow> th_amountOut (hops ! i) = th_amountIn (hops ! Suc i) \<and>
         th_outputMint (hops ! i) = th_inputMint (hops ! Suc i)) \<and>
      (if inp then str_amountIn r = share trade (str_splitPercent r) \<and> th_inputMint (hd hops) = tr_tokenIn trade
       else str_amountOut r = share trade (str_splitPercent r) \<and> th_outputMint (last hops) = tr_tokenOut trade))"

text \<open>A route: sub-routes for 100 percent of the trade, whose totals are the sums of their amounts.\<close>

definition route_ok :: "Trade \<Rightarrow> bool \<Rightarrow> Path list \<Rightarrow> int \<Rightarrow> TradeRoute \<Rightarrow> bool" where
  "route_ok trade inp paths maxSplits r \<longleftrightarrow>
     (let subs = trr_subRoutes r in
      (\<forall>s \<in> set subs. sub_route_ok trade inp paths s) \<and> int (length subs) \<le> maxSplits \<and>
      sum_list (map str_splitPercent subs) = 100 \<and>
      trr_totalAmountIn r = sum_list (map str_amountIn subs) \<and>
      trr_totalAmountOut r = sum_list (map str_amountOut subs))"

definition route_specified :: "bool \<Rightarrow> TradeRoute \<Rightarrow> int" where
  "route_specified inp r = (if inp then trr_totalAmountIn r else trr_totalAmountOut r)"

lemma sub_route_of_quote:
  "path_quote_ok trade inp paths p q \<Longrightarrow> 0 < p \<Longrightarrow> sub_route_ok trade inp paths (convertPathQuoteToSubTradeRoute q)"
  by (auto simp: path_quote_ok_def sub_route_ok_def convertPathQuoteToSubTradeRoute_def Let_def)

lemma share_bounds:
  assumes "0 \<le> tr_tradeAmount trade" "0 \<le> p"
  shows "share trade p * 100 \<le> tr_tradeAmount trade * p" "tr_tradeAmount trade * p < share trade p * 100 + 100"
proof -
  let ?x = "tr_tradeAmount trade * p"
  have "share trade p = ?x div 100"
    using assms by (simp add: share_def signed_divide_int_def sgn_if)
  then show "share trade p * 100 \<le> ?x" "?x < share trade p * 100 + 100" by linarith+
qed

text \<open>The shares add up to the trade, less a unit at most for each split.\<close>

lemma sum_share_bounds:
  assumes "0 \<le> tr_tradeAmount trade" "\<forall>p \<in> set ps. 0 \<le> p"
  shows "sum_list (map (share trade) ps) * 100 \<le> tr_tradeAmount trade * sum_list ps"
    "tr_tradeAmount trade * sum_list ps \<le> sum_list (map (share trade) ps) * 100 + 100 * int (length ps)"
    "ps \<noteq> [] \<Longrightarrow> tr_tradeAmount trade * sum_list ps < sum_list (map (share trade) ps) * 100 + 100 * int (length ps)"
proof (goal_cases)
  case 1
  show ?case using assms(2) share_bounds(1) [OF assms(1)] by (induction ps) (force simp: algebra_simps)+
next
  case 2
  show ?case using assms(2) share_bounds(2) [OF assms(1)] by (induction ps) (force simp: algebra_simps)+
next
  case 3
  then show ?case using assms(2)
  proof (induction ps)
    case (Cons p ps)
    then show ?case using share_bounds(2) [OF assms(1), of p] by (cases ps) (simp_all add: algebra_simps)
  qed simp
qed

lemma route_amount_bounds:
  assumes ok: "route_ok trade inp paths k r" and "0 \<le> tr_tradeAmount trade"
  shows "route_specified inp r \<le> tr_tradeAmount trade" "tr_tradeAmount trade < route_specified inp r + k"
proof -
  let ?subs = "trr_subRoutes r"
  define ps where "ps = map str_splitPercent ?subs"
  have subs: "sub_route_ok trade inp paths s" if "s \<in> set ?subs" for s
    using ok that by (simp add: route_ok_def Let_def)
  have "route_specified inp r = sum_list (map (share trade) ps)"
    using ok subs by (auto simp: route_ok_def Let_def route_specified_def ps_def sub_route_ok_def comp_def
        intro!: arg_cong [where f = sum_list])
  moreover have "\<forall>p \<in> set ps. 0 \<le> p" using subs by (force simp: ps_def sub_route_ok_def Let_def)
  moreover have "sum_list ps = 100" "int (length ps) \<le> k" using ok by (auto simp: ps_def route_ok_def Let_def)
  ultimately show "route_specified inp r \<le> tr_tradeAmount trade" "tr_tradeAmount trade < route_specified inp r + k"
    using sum_share_bounds [of trade ps] assms(2) by fastforce+
qed

lemma route_of_quotes:
  assumes quotes: "\<forall>(p, qs) \<in> set m. 0 < p \<and> (\<forall>q \<in> set qs. path_quote_ok trade inp paths p q)"
    and adm: "admissible m k qs"
  shows "route_ok trade inp paths k (trade_route qs)"
proof -
  have "set qs \<subseteq> set (concat (map snd (rev m)))"
    using adm by (auto simp: admissible_def dest: list_emb_set)
  then have "sub_route_ok trade inp paths (convertPathQuoteToSubTradeRoute q)" if "q \<in> set qs" for q
    using that quotes sub_route_of_quote by fastforce
  then show ?thesis
    using adm by (simp add: route_ok_def trade_route_def admissible_def Let_def comp_def convertPathQuoteToSubTradeRoute_def)
qed

lemma best_routes_of_quotes:
  assumes "0 < ro_maxSplits opts" "0 < ro_numTopRoutes opts" and keys: "sorted_wrt (<) (map fst m)"
    and quotes: "\<forall>(p, qs) \<in> set m. 0 < p \<and> (\<forall>q \<in> set qs. path_quote_ok trade inp paths p q)"
  obtains routes where "getBestRoutesFromQuoteMap m inp opts = Inr routes" "sorted_wrt (as_good inp) routes"
    "\<forall>r \<in> set routes. route_ok trade inp paths (ro_maxSplits opts) r"
proof -
  have "quote_map_ok m" "\<forall>(p, qs) \<in> set m. \<forall>q \<in> set qs. quote_hops_ok q"
    using keys quotes by (fastforce simp: quote_map_ok_def path_quote_ok_def quote_hops_ok_def Let_def)+
  from getBestRoutes_ok [OF this assms(1,2), of inp] obtain routes where
    "getBestRoutesFromQuoteMap m inp opts = Inr routes" "sorted_wrt (as_good inp) routes"
    "set routes \<subseteq> trade_route ` {qs. admissible m (ro_maxSplits opts) qs}" by blast
  moreover from this(3) have "\<forall>r \<in> set routes. route_ok trade inp paths (ro_maxSplits opts) r"
    using route_of_quotes [OF quotes] by blast
  ultimately show thesis by (intro that)
qed

definition search_rejected :: "AdjacencyListPoolGraph \<Rightarrow> Trade \<Rightarrow> js_error \<Rightarrow> bool" where
  "search_rejected graph trade e \<longleftrightarrow>
     (let paths = getPath graph (tr_tokenIn trade) (tr_tokenOut trade) None in
      if paths = [] then e = route_error RouteDoesNotExist
      else if tr_tradeAmount trade = 0 then e = route_error ZeroInputAmount
      else e = route_error TradeAmountTooHigh \<or> e = route_error General \<or> e = NonTermination)"



end
