(* ===== verification/Token_Prices.thy ===== *)
theory Token_Prices
  imports Router
begin

text \<open>
  Token prices (\<^verbatim>\<open>sdk/src/prices/calculate-pool-prices.ts\<close>, \<^verbatim>\<open>price-module.ts\<close>, \<^verbatim>\<open>index.ts\<close>, and the
  two list functions of \<^verbatim>\<open>utils/txn-utils.ts\<close> they use): a token is priced against the first quote
  token with a liquid pool, and the price of that quote token turns it into a price against the
  first one. An object keyed by addresses that is listed is an association list in the order of
  insertion; one that is only read is a map, where \<open>Some None\<close> is \<^verbatim>\<open>null\<close>. The fetcher, \<^verbatim>\<open>Decimal\<close> and
  the conversions of \<^verbatim>\<open>DecimalUtil\<close> are parameters. The theorems say which price each token gets, and
  what happens to a quote token that has none.
\<close>

subsection \<open>Types\<close>

record GetPricesConfig =
  gpc_quoteTokens :: "pubkey list"
  gpc_tickSpacings :: "int list"
  gpc_programId :: pubkey
  gpc_whirlpoolsConfig :: pubkey

record 'd GetPricesThresholdConfig =
  gpt_amountOut :: int
  gpt_priceImpactThreshold :: 'd

type_synonym PoolMap = "(string \<times> WhirlpoolData) list"
type_synonym TickArrayMap = "(string \<times> TickArrayData) list"
type_synonym 'd PriceMap = "string \<rightharpoonup> 'd option"
type_synonym DecimalsMap = "string \<rightharpoonup> int"

record PriceCalculationData =
  pcd_poolMap :: PoolMap
  pcd_tickArrayMap :: TickArrayMap
  pcd_decimalsMap :: DecimalsMap

record PoolObject =
  pobj_pool :: WhirlpoolData
  pobj_address :: pubkey

text \<open>
  \<open>po_fromBN\<close> and \<open>po_toBN\<close> take the number of decimals, which may be \<^verbatim>\<open>undefined\<close>; \<open>po_percent\<close> is
  \<^verbatim>\<open>Percentage.fromDecimal\<close>.
\<close>

record 'd price_ops =
  po_ops :: "'d decimal_ops"
  po_fromBN :: "int \<Rightarrow> int option \<Rightarrow> 'd"
  po_toBN :: "'d \<Rightarrow> int option \<Rightarrow> int res"
  po_toDecimalPlaces :: "'d \<Rightarrow> int option \<Rightarrow> 'd"
  po_lte :: "'d \<Rightarrow> 'd \<Rightarrow> bool"
  po_number :: "int \<Rightarrow> 'd"
  po_percent :: "'d \<Rightarrow> percentage"

definition defaultQuoteTokens :: "pubkey list" where
  "defaultQuoteTokens = map (\<lambda>name. the (map_of TOKEN_MINTS name)) [''USDC'', ''SOL'', ''mSOL'', ''stSOL'']"

definition defaultGetPricesConfig :: "pubkey \<Rightarrow> pubkey \<Rightarrow> GetPricesConfig" where
  "defaultGetPricesConfig ORCA_WHIRLPOOL_PROGRAM_ID ORCA_WHIRLPOOLS_CONFIG =
     \<lparr>gpc_quoteTokens = defaultQuoteTokens, gpc_tickSpacings = ORCA_SUPPORTED_TICK_SPACINGS,
      gpc_programId = ORCA_WHIRLPOOL_PROGRAM_ID, gpc_whirlpoolsConfig = ORCA_WHIRLPOOLS_CONFIG\<rparr>"

text \<open>The threshold 1.05 is the quotient of 105 by 100.\<close>

definition defaultGetPricesThresholdConfig :: "'d price_ops \<Rightarrow> 'd GetPricesThresholdConfig" where
  "defaultGetPricesThresholdConfig po =
     \<lparr>gpt_amountOut = 1000000000,
      gpt_priceImpactThreshold = dec_div (po_ops po) (po_number po 105) (po_number po 100)\<rparr>"

subsection \<open>The price of a pool\<close>

definition pool_price :: "'d price_ops \<Rightarrow> WhirlpoolData \<Rightarrow> DecimalsMap \<Rightarrow> 'd res" where
  "pool_price po pool decimalsMap =
     (case (decimalsMap (wp_tokenMintA pool), decimalsMap (wp_tokenMintB pool)) of
        (Some decimalsA, Some decimalsB) \<Rightarrow>
          Inr (sqrtPriceX64ToPrice (po_ops po) (wp_sqrtPrice pool) decimalsA decimalsB)
      | _ \<Rightarrow> Inl PlainError)"

definition checkLiquidity ::
    "math_util \<Rightarrow> 'c spl_token \<Rightarrow> 'd price_ops \<Rightarrow> WhirlpoolData \<Rightarrow> TickArray list \<Rightarrow> bool \<Rightarrow>
     'd GetPricesThresholdConfig \<Rightarrow> DecimalsMap \<Rightarrow> bool res" where
  "checkLiquidity mu spl po pool tickArrays aToB thresholdConfig decimalsMap =
     (case swapQuoteWithParams mu spl
         \<lparr>sqp_whirlpoolData = pool, sqp_tokenAmount = gpt_amountOut thresholdConfig,
          sqp_otherAmountThreshold = getDefaultOtherAmountThreshold False,
          sqp_sqrtPriceLimit = getDefaultSqrtPriceLimit aToB, sqp_aToB = aToB,
          sqp_amountSpecifiedIsInput = False, sqp_tickArrays = tickArrays,
          sqp_tokenExtensionCtx = TokenExtensionContextForPool.truncate (NO_TOKEN_EXTENSION_CONTEXT spl)\<rparr>
         (po_percent po (po_number po 0)) of
        Inl e \<Rightarrow> if e = NonTermination then Inl e else Inr False
      | Inr quote \<Rightarrow>
          bindE (pool_price po pool decimalsMap) (\<lambda>p.
          let decimalsA = decimalsMap (wp_tokenMintA pool); decimalsB = decimalsMap (wp_tokenMintB pool);
              (price, inputDecimals, outputDecimals) =
                (if aToB then (p, decimalsA, decimalsB) else (dec_pow (po_ops po) p (- 1), decimalsB, decimalsA));
              amountOutDecimals = po_fromBN po (gpt_amountOut thresholdConfig) outputDecimals;
              estimatedAmountInDecimals = po_fromBN po (se_estimatedAmountIn quote) inputDecimals;
              maxAmountInDecimals = po_toDecimalPlaces po
                (dec_mul (po_ops po) (dec_div (po_ops po) amountOutDecimals price)
                  (gpt_priceImpactThreshold thresholdConfig)) inputDecimals in
          Inr (po_lte po estimatedAmountInDecimals maxAmountInDecimals)))"

definition more_liquid_pool ::
    "pubkey \<Rightarrow> string \<times> WhirlpoolData \<Rightarrow> (string \<rightharpoonup> PoolObject) \<Rightarrow> (string \<rightharpoonup> PoolObject)" where
  "more_liquid_pool quoteTokenMint = (\<lambda>(address, pool) mostLiquidPools.
     let mintA = wp_tokenMintA pool; mintB = wp_tokenMintB pool in
     if wp_liquidity pool = 0 then mostLiquidPools
     else if mintA \<noteq> quoteTokenMint \<and> mintB \<noteq> quoteTokenMint then mostLiquidPools
     else
       let baseTokenMint = (if mintA = quoteTokenMint then mintB else mintA);
           candidate = mostLiquidPools(baseTokenMint \<mapsto> \<lparr>pobj_pool = pool, pobj_address = address\<rparr>) in
       case mostLiquidPools baseTokenMint of
         None \<Rightarrow> candidate
       | Some existingPool \<Rightarrow>
           if wp_liquidity pool > wp_liquidity (pobj_pool existingPool) then candidate else mostLiquidPools)"

definition getMostLiquidPools :: "pubkey \<Rightarrow> PoolMap \<Rightarrow> (string \<rightharpoonup> PoolObject)" where
  "getMostLiquidPools quoteTokenMint poolMap = fold (more_liquid_pool quoteTokenMint) poolMap Map.empty"

definition price_tick_arrays ::
    "find_program_address \<Rightarrow> WhirlpoolData \<Rightarrow> pubkey \<Rightarrow> bool \<Rightarrow> TickArrayMap \<Rightarrow> GetPricesConfig \<Rightarrow> TickArray list" where
  "price_tick_arrays fpa pool address aToB tickArrayMap config =
     map (\<lambda>key. \<lparr>tarr_address = key, tarr_data = map_of tickArrayMap key\<rparr>)
       (getTickArrayPublicKeys fpa (wp_tickCurrentIndex pool) (wp_tickSpacing pool) aToB (gpc_programId config) address)"

text \<open>What the packages and the caller give to a calculation.\<close>

record ('c, 'd) price_env =
  pe_mu :: math_util
  pe_spl :: "'c spl_token"
  pe_ops :: "'d price_ops"
  pe_fpa :: find_program_address
  pe_toBuffer :: "pubkey \<Rightarrow> int list"

text \<open>The price of one token against a quote token.\<close>

definition mint_price ::
    "('c, 'd) price_env \<Rightarrow> pubkey \<Rightarrow> PriceCalculationData \<Rightarrow> GetPricesConfig \<Rightarrow> 'd GetPricesThresholdConfig \<Rightarrow>
     pubkey \<Rightarrow> 'd option res" where
  "mint_price env quoteTokenMint data config thresholdConfig mint =
     (let po = pe_ops env; decimalsMap = pcd_decimalsMap data;
          mostLiquidPools = getMostLiquidPools quoteTokenMint (pcd_poolMap data) in
      if mint = quoteTokenMint then Inr (Some (po_number po 1))
      else
        let (mintA, mintB) = orderMints (pe_toBuffer env) mint quoteTokenMint;
            aToB = (mintB = quoteTokenMint);
            baseTokenMint = (if aToB then mintA else mintB) in
        case mostLiquidPools baseTokenMint of
          None \<Rightarrow> Inr None
        | Some poolCandidate \<Rightarrow>
            let pool = pobj_pool poolCandidate;
                tickArrays = price_tick_arrays (pe_fpa env) pool (pobj_address poolCandidate) aToB
                  (pcd_tickArrayMap data) config in
            bindE (checkLiquidity (pe_mu env) (pe_spl env) po pool tickArrays aToB thresholdConfig decimalsMap)
              (\<lambda>isPoolLiquid.
            if \<not> isPoolLiquid then Inr None
            else
              bindE (pool_price po pool decimalsMap) (\<lambda>price.
              Inr (Some (if aToB then price else dec_pow (po_ops po) price (- 1))))))"

text \<open>\<^verbatim>\<open>Object.fromEntries\<close>: a later entry of a key replaces an earlier one.\<close>

definition fromEntries :: "(string \<times> 'a) list \<Rightarrow> (string \<rightharpoonup> 'a)" where
  "fromEntries entries = map_of (rev entries)"

definition calculatePricesForQuoteToken ::
    "('c, 'd) price_env \<Rightarrow> pubkey list \<Rightarrow> pubkey \<Rightarrow> PriceCalculationData \<Rightarrow> GetPricesConfig \<Rightarrow>
     'd GetPricesThresholdConfig \<Rightarrow> 'd PriceMap res" where
  "calculatePricesForQuoteToken env mints quoteTokenMint data config thresholdConfig =
     bindE (mapE (\<lambda>mint. bindE (mint_price env quoteTokenMint data config thresholdConfig mint) (\<lambda>p. Inr (mint, p))) mints)
       (\<lambda>entries. Inr (fromEntries entries))"

definition isSubset :: "string list \<Rightarrow> string list \<Rightarrow> bool" where
  "isSubset listA listB \<longleftrightarrow> (\<forall>itemA \<in> set listA. itemA \<in> set listB)"

definition convertAmount :: "'d price_ops \<Rightarrow> int \<Rightarrow> 'd \<Rightarrow> int option \<Rightarrow> int option \<Rightarrow> int res" where
  "convertAmount po amount price amountDecimal resultDecimal =
     po_toBN po (dec_div (po_ops po) (po_fromBN po amount amountDecimal) price) resultDecimal"

subsection \<open>The price of every token\<close>

text \<open>A price that is there: neither \<^verbatim>\<open>undefined\<close> nor \<^verbatim>\<open>null\<close>.\<close>

definition price_of :: "'d PriceMap \<Rightarrow> pubkey \<Rightarrow> 'd option" where
  "price_of prices mint = (case prices mint of None \<Rightarrow> None | Some p \<Rightarrow> p)"

definition amount_against ::
    "'d price_ops \<Rightarrow> GetPricesConfig \<Rightarrow> 'd GetPricesThresholdConfig \<Rightarrow> DecimalsMap \<Rightarrow> 'd PriceMap \<Rightarrow> pubkey \<Rightarrow> int res" where
  "amount_against po config thresholdConfig decimalsMap results quoteToken =
     (let firstToken = hd (gpc_quoteTokens config) in
      if quoteToken = firstToken then Inr (gpt_amountOut thresholdConfig)
      else
        case price_of results quoteToken of
          None \<Rightarrow> Inl PlainError
        | Some quoteTokenPrice \<Rightarrow>
            convertAmount po (gpt_amountOut thresholdConfig) quoteTokenPrice (decimalsMap firstToken)
              (decimalsMap quoteToken))"

definition put_prices :: "'d price_ops \<Rightarrow> 'd PriceMap \<Rightarrow> 'd option \<Rightarrow> pubkey list \<Rightarrow> 'd PriceMap \<Rightarrow> 'd PriceMap" where
  "put_prices po prices quoteTokenPrice remainingMints results =
     fold (\<lambda>mint results.
        case (price_of prices mint, quoteTokenPrice) of
          (Some mintPrice, Some qp) \<Rightarrow> results(mint \<mapsto> Some (dec_mul (po_ops po) mintPrice qp))
        | _ \<Rightarrow> results) remainingMints results"

fun price_rounds ::
    "('c, 'd) price_env \<Rightarrow> PriceCalculationData \<Rightarrow> GetPricesConfig \<Rightarrow> 'd GetPricesThresholdConfig \<Rightarrow> pubkey list \<Rightarrow>
     pubkey list \<Rightarrow> 'd PriceMap \<Rightarrow> 'd PriceMap res" where
  "price_rounds env data config thr [] remainingMints results = Inr results"
| "price_rounds env data config thr (quoteToken # remainingQuoteTokens) remainingMints results =
     (if remainingMints = [] then Inr results
      else
        bindE (amount_against (pe_ops env) config thr (pcd_decimalsMap data) results quoteToken) (\<lambda>amountOut.
        bindE (calculatePricesForQuoteToken env remainingMints quoteToken data config
                 \<lparr>gpt_amountOut = amountOut, gpt_priceImpactThreshold = gpt_priceImpactThreshold thr\<rparr>) (\<lambda>prices.
        let quoteTokenPrice = (case price_of results quoteToken of Some p \<Rightarrow> Some p
              | None \<Rightarrow> price_of prices quoteToken);
            results' = put_prices (pe_ops env) prices quoteTokenPrice remainingMints results in
        price_rounds env data config thr remainingQuoteTokens
          (filter (\<lambda>mint. price_of results' mint = None) remainingMints) results')))"

definition calculateTokenPrices ::
    "('c, 'd) price_env \<Rightarrow> pubkey list \<Rightarrow> PriceCalculationData \<Rightarrow> GetPricesConfig \<Rightarrow> 'd GetPricesThresholdConfig \<Rightarrow>
     'd PriceMap res" where
  "calculateTokenPrices env mints data config thr =
     (if \<not> isSubset (gpc_quoteTokens config) mints then Inl PlainError
      else price_rounds env data config thr (gpc_quoteTokens config) mints
        (fromEntries (map (\<lambda>mint. (mint, None)) mints)))"

subsection \<open>Fetching the accounts of a calculation\<close>

text \<open>
  \<^verbatim>\<open>convertListToMap\<close> and \<^verbatim>\<open>filterNullObjects\<close>; the second list may be shorter, and reading past its end
  gives \<^verbatim>\<open>undefined\<close>, which as a key is the text \<open>undefined\<close>.
\<close>

definition filterNullObjects :: "'a option list \<Rightarrow> 'b list \<Rightarrow> 'a list \<times> 'b option list" where
  "filterNullObjects firstArray secondArray =
     (let kept = filter (\<lambda>(item, idx). item \<noteq> None) (zip firstArray [0..<length firstArray]) in
      (map (\<lambda>(item, idx). the item) kept, map (\<lambda>(item, idx). array_get secondArray idx) kept))"

definition convertListToMap :: "'a list \<Rightarrow> string option list \<Rightarrow> (string \<times> 'a) list" where
  "convertListToMap fetchedData addresses =
     fold (\<lambda>(data, idx) result.
        AList.update (case array_get addresses idx of Some (Some addr) \<Rightarrow> addr | _ \<Rightarrow> ''undefined'') data result)
       (zip fetchedData [0..<length fetchedData]) []"

record price_fetcher =
  pf_getPools :: "pubkey list \<Rightarrow> (pubkey \<times> WhirlpoolData option) list"
  pf_getTickArrays :: "pubkey list \<Rightarrow> TickArrayData option list"
  pf_getMintDecimals :: "pubkey list \<Rightarrow> (pubkey \<times> int option) list"

definition pool_addresses :: "('c, 'd) price_env \<Rightarrow> pubkey list \<Rightarrow> GetPricesConfig \<Rightarrow> pubkey list res" where
  "pool_addresses env mints config =
     bindE (mapE (\<lambda>mint.
       bindE (mapE (\<lambda>tickSpacing.
         mapE (\<lambda>quoteToken.
           let (mintA, mintB) = orderMints (pe_toBuffer env) mint quoteToken in
           bindE (getWhirlpool (pe_fpa env) (gpc_programId config) (gpc_whirlpoolsConfig config) mintA mintB tickSpacing)
             (\<lambda>pda. Inr (publicKey pda))) (gpc_quoteTokens config)) (gpc_tickSpacings config))
         (\<lambda>xss. Inr (concat xss))) mints) (\<lambda>xss. Inr (concat xss))"

definition fetchPoolDataFromMints ::
    "('c, 'd) price_env \<Rightarrow> price_fetcher \<Rightarrow> pubkey list \<Rightarrow> GetPricesConfig \<Rightarrow> PoolMap res" where
  "fetchPoolDataFromMints env fetcher mints config =
     bindE (pool_addresses env mints config) (\<lambda>poolAddresses.
     let poolDatas = map snd (pf_getPools fetcher poolAddresses);
         (filteredPoolDatas, filteredPoolAddresses) = filterNullObjects poolDatas poolAddresses in
     Inr (convertListToMap filteredPoolDatas filteredPoolAddresses))"

definition getQuoteTokenOrder :: "GetPricesConfig \<Rightarrow> pubkey \<Rightarrow> nat" where
  "getQuoteTokenOrder config mint = length (takeWhile (\<lambda>quoteToken. quoteToken \<noteq> mint) (gpc_quoteTokens config))"

definition fetchTickArraysForPools ::
    "('c, 'd) price_env \<Rightarrow> price_fetcher \<Rightarrow> PoolMap \<Rightarrow> GetPricesConfig \<Rightarrow> TickArrayMap" where
  "fetchTickArraysForPools env fetcher pools config =
     (let tickArrayAddresses = fold (\<lambda>(address, pool) addresses.
            let orderA = getQuoteTokenOrder config (wp_tokenMintA pool);
                orderB = getQuoteTokenOrder config (wp_tokenMintB pool) in
            if orderA = orderB then addresses
            else
              let aToB = (orderA > orderB) in
              set_add_all (getTickArrayPublicKeys (pe_fpa env) (wp_tickCurrentIndex pool) (wp_tickSpacing pool) aToB
                (gpc_programId config) address) addresses) pools [];
          tickArrays = pf_getTickArrays fetcher tickArrayAddresses;
          (filteredTickArrays, filteredTickArrayAddresses) = filterNullObjects tickArrays tickArrayAddresses in
      convertListToMap filteredTickArrays filteredTickArrayAddresses)"

definition fetchDecimalsForMints :: "price_fetcher \<Rightarrow> pubkey list \<Rightarrow> DecimalsMap res" where
  "fetchDecimalsForMints fetcher mints =
     (let mintInfos = map snd (pf_getMintDecimals fetcher mints) in
      foldE (\<lambda>(mintInfo, index) acc.
        case array_get mints index of
          None \<Rightarrow> Inl TypeError
        | Some mint \<Rightarrow>
            case mintInfo of None \<Rightarrow> Inl PlainError | Some decimals \<Rightarrow> Inr (acc(mint \<mapsto> decimals)))
        (zip mintInfos [0..<length mintInfos]) Map.empty)"

definition fetchTokenPricesByMints ::
    "('c, 'd) price_env \<Rightarrow> price_fetcher \<Rightarrow> pubkey list \<Rightarrow> GetPricesConfig \<Rightarrow> 'd GetPricesThresholdConfig \<Rightarrow>
     PoolMap option \<Rightarrow> TickArrayMap option \<Rightarrow> DecimalsMap option \<Rightarrow> 'd PriceMap res" where
  "fetchTokenPricesByMints env fetcher mints config thr availablePools availableTickArrays availableDecimals =
     bindE (case availablePools of Some poolMap \<Rightarrow> Inr poolMap
            | None \<Rightarrow> fetchPoolDataFromMints env fetcher mints config) (\<lambda>poolMap.
     let tickArrayMap = (case availableTickArrays of Some tickArrayMap \<Rightarrow> tickArrayMap
           | None \<Rightarrow> fetchTickArraysForPools env fetcher poolMap config) in
     bindE (case availableDecimals of Some decimalsMap \<Rightarrow> Inr decimalsMap
            | None \<Rightarrow> fetchDecimalsForMints fetcher mints) (\<lambda>decimalsMap.
     calculateTokenPrices env mints
       \<lparr>pcd_poolMap = poolMap, pcd_tickArrayMap = tickArrayMap, pcd_decimalsMap = decimalsMap\<rparr> config thr))"

definition fetchTokenPricesByPools ::
    "('c, 'd) price_env \<Rightarrow> price_fetcher \<Rightarrow> pubkey list \<Rightarrow> GetPricesConfig \<Rightarrow> 'd GetPricesThresholdConfig \<Rightarrow>
     'd PriceMap res" where
  "fetchTokenPricesByPools env fetcher pools config thr =
     (let poolDatas = map snd (pf_getPools fetcher pools);
          (filteredPoolDatas, filteredPoolAddresses) = filterNullObjects poolDatas pools;
          poolMap = convertListToMap filteredPoolDatas filteredPoolAddresses;
          tickArrayMap = fetchTickArraysForPools env fetcher poolMap config;
          mints = fold (\<lambda>(_, pool) acc. set_add (wp_tokenMintB pool) (set_add (wp_tokenMintA pool) acc)) poolMap [] in
      bindE (fetchDecimalsForMints fetcher mints) (\<lambda>decimalsMap.
      calculateTokenPrices env mints
        \<lparr>pcd_poolMap = poolMap, pcd_tickArrayMap = tickArrayMap, pcd_decimalsMap = decimalsMap\<rparr> config thr))"

subsection \<open>The most liquid pools\<close>

text \<open>The pools that trade a token against the quote token, in the order of the map.\<close>

definition pairs_with :: "pubkey \<Rightarrow> pubkey \<Rightarrow> WhirlpoolData \<Rightarrow> bool" where
  "pairs_with quote base pool \<longleftrightarrow> wp_liquidity pool \<noteq> 0 \<and>
     (wp_tokenMintA pool = quote \<and> wp_tokenMintB pool = base \<or>
      wp_tokenMintA pool \<noteq> quote \<and> wp_tokenMintB pool = quote \<and> wp_tokenMintA pool = base)"

definition best_pool :: "pubkey \<Rightarrow> pubkey \<Rightarrow> PoolMap \<Rightarrow> PoolObject option \<Rightarrow> bool" where
  "best_pool quote base pools r \<longleftrightarrow>
     (case r of
        None \<Rightarrow> \<forall>(addr, pool) \<in> set pools. \<not> pairs_with quote base pool
      | Some p \<Rightarrow> \<exists>xs ys. pools = xs @ (pobj_address p, pobj_pool p) # ys \<and> pairs_with quote base (pobj_pool p) \<and>
          (\<forall>(addr, pool) \<in> set xs. pairs_with quote base pool \<longrightarrow> wp_liquidity pool < wp_liquidity (pobj_pool p)) \<and>
          (\<forall>(addr, pool) \<in> set ys. pairs_with quote base pool \<longrightarrow> wp_liquidity pool \<le> wp_liquidity (pobj_pool p)))"

lemma more_liquid_pool_at:
  "more_liquid_pool quote (addr, pool) m base =
     (if pairs_with quote base pool \<and>
         (case m base of None \<Rightarrow> True | Some p \<Rightarrow> wp_liquidity (pobj_pool p) < wp_liquidity pool)
      then Some \<lparr>pobj_pool = pool, pobj_address = addr\<rparr> else m base)"
  by (cases "m base") (auto simp: more_liquid_pool_def pairs_with_def Let_def split: option.split)

lemma best_pool_snoc:
  assumes best: "best_pool quote base pools (m base)"
  shows "best_pool quote base (pools @ [(addr, pool)]) (more_liquid_pool quote (addr, pool) m base)"
proof (cases "pairs_with quote base pool \<and>
    (case m base of None \<Rightarrow> True | Some p \<Rightarrow> wp_liquidity (pobj_pool p) < wp_liquidity pool)")
  case True
  then have "\<forall>(addr, pool') \<in> set pools. pairs_with quote base pool' \<longrightarrow> wp_liquidity pool' < wp_liquidity pool"
    using best by (fastforce simp: best_pool_def split: option.splits)
  moreover have "more_liquid_pool quote (addr, pool) m base = Some \<lparr>pobj_pool = pool, pobj_address = addr\<rparr>"
    using True by (simp add: more_liquid_pool_at)
  ultimately show ?thesis
    using True by (simp add: best_pool_def) (rule exI [of _ pools], rule exI [of _ "[]"], simp)
next
  case False
  have same: "more_liquid_pool quote (addr, pool) m base = m base"
    by (simp only: more_liquid_pool_at False if_False)
  show ?thesis
  proof (cases "m base")
    case None
    with False best show ?thesis by (simp add: same best_pool_def)
  next
    case (Some p)
    with best obtain xs ys where p: "pools = xs @ (pobj_address p, pobj_pool p) # ys" "pairs_with quote base (pobj_pool p)"
      "\<forall>(addr, pool) \<in> set xs. pairs_with quote base pool \<longrightarrow> wp_liquidity pool < wp_liquidity (pobj_pool p)"
      "\<forall>(addr, pool) \<in> set ys. pairs_with quote base pool \<longrightarrow> wp_liquidity pool \<le> wp_liquidity (pobj_pool p)"
      by (auto simp: best_pool_def)
    show ?thesis
      unfolding same Some best_pool_def option.case
      by (rule exI [of _ xs], rule exI [of _ "ys @ [(addr, pool)]"]) (use p False Some in auto)
  qed
qed

lemma most_liquid_pool: "best_pool quote base pools (getMostLiquidPools quote pools base)"
proof (induction pools rule: rev_induct)
  case Nil
  show ?case by (simp add: best_pool_def getMostLiquidPools_def)
next
  case (snoc x pools)
  then show ?case using best_pool_snoc by (cases x) (simp add: getMostLiquidPools_def)
qed

text \<open>The pool that a price is read from, whatever the byte order of the two mints.\<close>

lemma ordered_base:
  assumes "mint \<noteq> quote"
  shows "(let (mintA, mintB) = orderMints toBuffer mint quote; aToB = (mintB = quote) in (if aToB then mintA else mintB)) = mint"
  using assms by (auto simp: orderMints_def Let_def)

subsection \<open>The rounds\<close>

lemma price_of_upd [simp]: "price_of (r(m \<mapsto> p)) k = (if k = m then p else price_of r k)"
  by (simp add: price_of_def)

lemma put_prices_at:
  "put_prices po prices (Some qp) mints r k =
     (case price_of prices k of
        Some d \<Rightarrow> if k \<in> set mints then Some (Some (dec_mul (po_ops po) d qp)) else r k
      | None \<Rightarrow> r k)"
  unfolding put_prices_def
  by (induction mints arbitrary: r) (auto split: option.splits)

lemma put_prices_none: "put_prices po prices None mints r = r"
  unfolding put_prices_def by (induction mints) (auto split: option.splits)

lemma mapE_ok: "mapE f xs = Inr ys \<longleftrightarrow> (\<forall>x \<in> set xs. \<exists>y. f x = Inr y) \<and> ys = map (\<lambda>x. projr (f x)) xs"
  by (induction xs arbitrary: ys) (auto simp: bindE_eq_Inr)

lemma map_of_rev_fun: "map_of (rev (map (\<lambda>m. (m, f m)) ms)) k = (if k \<in> set ms then Some (f k) else None)"
  by (induction ms) (auto simp: map_add_def split: option.split)

lemma quote_prices:
  assumes "calculatePricesForQuoteToken env mints q data cfg thr = Inr prices"
  shows "m \<in> set mints \<Longrightarrow> mint_price env q data cfg thr m = Inr (price_of prices m)"
    "m \<notin> set mints \<Longrightarrow> price_of prices m = None"
proof -
  let ?f = "mint_price env q data cfg thr"
  from assms obtain es where es: "mapE (\<lambda>mint. bindE (?f mint) (\<lambda>p. Inr (mint, p))) mints = Inr es" "prices = fromEntries es"
    by (auto simp: calculatePricesForQuoteToken_def bindE_eq_Inr)
  from es(1) have f: "\<exists>p. ?f x = Inr p" if "x \<in> set mints" for x
    using that by (auto simp: mapE_ok bindE_eq_Inr)
  have "es = map (\<lambda>x. (x, projr (?f x))) mints"
    using es(1) f by (fastforce simp: mapE_ok bindE_eq_Inr)
  then have at: "prices k = (if k \<in> set mints then Some (projr (?f k)) else None)" for k
    by (simp add: es(2) fromEntries_def map_of_rev_fun)
  show "m \<in> set mints \<Longrightarrow> ?f m = Inr (price_of prices m)" using f [of m] by (auto simp: price_of_def at)
  show "m \<notin> set mints \<Longrightarrow> price_of prices m = None" by (simp add: price_of_def at)
qed

text \<open>The price of a token in the round of a quote token, given the prices so far.\<close>

definition round_price ::
    "('c, 'd) price_env \<Rightarrow> PriceCalculationData \<Rightarrow> GetPricesConfig \<Rightarrow> 'd GetPricesThresholdConfig \<Rightarrow> 'd PriceMap \<Rightarrow>
     pubkey \<Rightarrow> pubkey \<Rightarrow> 'd option res" where
  "round_price env data cfg thr results q m =
     bindE (amount_against (pe_ops env) cfg thr (pcd_decimalsMap data) results q) (\<lambda>amount.
     mint_price env q data cfg \<lparr>gpt_amountOut = amount, gpt_priceImpactThreshold = gpt_priceImpactThreshold thr\<rparr> m)"

definition price_stands ::
    "('c, 'd) price_env \<Rightarrow> PriceCalculationData \<Rightarrow> GetPricesConfig \<Rightarrow> 'd GetPricesThresholdConfig \<Rightarrow> 'd PriceMap \<Rightarrow>
     pubkey list \<Rightarrow> pubkey \<Rightarrow> bool" where
  "price_stands env data cfg thr results qs m \<longleftrightarrow>
     (case price_of results m of
        None \<Rightarrow> \<forall>q \<in> set qs. round_price env data cfg thr results q m = Inr None
      | Some p \<Rightarrow> \<exists>xs q ys d qp. qs = xs @ q # ys \<and>
          (\<forall>q' \<in> set xs. round_price env data cfg thr results q' m = Inr None) \<and>
          round_price env data cfg thr results q m = Inr (Some d) \<and> price_of results q = Some qp \<and>
          p = dec_mul (po_ops (pe_ops env)) d qp)"

text \<open>Prices are only added, so the rounds that are over stay as they are.\<close>

definition extends :: "'d PriceMap \<Rightarrow> 'd PriceMap \<Rightarrow> bool" where
  "extends r r' \<longleftrightarrow> dom r' = dom r \<and> (\<forall>m p. price_of r m = Some p \<longrightarrow> price_of r' m = Some p)"

lemma round_price_extends:
  assumes "extends r r'" "price_of r q \<noteq> None"
  shows "round_price env data cfg thr r' q m = round_price env data cfg thr r q m"
proof -
  have "price_of r' q = price_of r q" using assms by (auto simp: extends_def)
  then show ?thesis by (simp add: round_price_def amount_against_def Let_def)
qed

definition rounds_inv ::
    "('c, 'd) price_env \<Rightarrow> PriceCalculationData \<Rightarrow> GetPricesConfig \<Rightarrow> 'd GetPricesThresholdConfig \<Rightarrow> pubkey list \<Rightarrow>
     pubkey list \<Rightarrow> pubkey list \<Rightarrow> 'd PriceMap \<Rightarrow> bool" where
  "rounds_inv env data cfg thr mints finished rm r \<longleftrightarrow>
     rm = filter (\<lambda>m. price_of r m = None) mints \<and> dom r = set mints \<and>
     (\<forall>q \<in> set finished. price_of r q \<noteq> None) \<and>
     (\<forall>m \<in> set mints. price_stands env data cfg thr r finished m)"

lemma stands_extends:
  assumes ext: "extends r r'" and priced: "\<forall>q \<in> set qs. price_of r q \<noteq> None"
    and same: "price_of r' m = price_of r m" and "price_stands env data cfg thr r qs m"
  shows "price_stands env data cfg thr r' qs m"
proof -
  have rp: "round_price env data cfg thr r' q m = round_price env data cfg thr r q m" if "q \<in> set qs" for q
    using round_price_extends [OF ext] priced that by blast
  show ?thesis
  proof (cases "price_of r m")
    case None
    with assms(4) rp show ?thesis by (simp add: price_stands_def same)
  next
    case (Some p)
    with assms(4) obtain xs q ys d qp where "qs = xs @ q # ys" "\<forall>q' \<in> set xs. round_price env data cfg thr r q' m = Inr None"
      "round_price env data cfg thr r q m = Inr (Some d)" "price_of r q = Some qp"
      "p = dec_mul (po_ops (pe_ops env)) d qp"
      by (auto simp: price_stands_def)
    moreover from this(4) have "price_of r' q = Some qp" using ext by (simp add: extends_def)
    ultimately have "qs = xs @ q # ys \<and> (\<forall>q' \<in> set xs. round_price env data cfg thr r' q' m = Inr None) \<and>
        round_price env data cfg thr r' q m = Inr (Some d) \<and> price_of r' q = Some qp \<and>
        p = dec_mul (po_ops (pe_ops env)) d qp"
      using rp by auto
    then show ?thesis unfolding price_stands_def same Some option.case by blast
  qed
qed

lemma stands_snoc:
  assumes "price_stands env data cfg thr r qs m"
    and "price_of r m = None \<Longrightarrow> round_price env data cfg thr r q m = Inr None"
  shows "price_stands env data cfg thr r (qs @ [q]) m"
  using assms by (fastforce simp: price_stands_def split: option.splits)

text \<open>One round: what it adds, and what the round's prices then are.\<close>

lemma round_result:
  assumes inv: "rounds_inv env data cfg thr mints finished rm r"
    and one: "dec_mul (po_ops (pe_ops env)) (po_number (pe_ops env) 1) (po_number (pe_ops env) 1) = po_number (pe_ops env) 1"
    and sub: "set (gpc_quoteTokens cfg) \<subseteq> set mints" and hd_in: "hd (gpc_quoteTokens cfg) \<in> set mints"
    and amount: "amount_against (pe_ops env) cfg thr (pcd_decimalsMap data) r q = Inr amt"
    and prices: "calculatePricesForQuoteToken env rm q data cfg
      \<lparr>gpt_amountOut = amt, gpt_priceImpactThreshold = gpt_priceImpactThreshold thr\<rparr> = Inr prices"
    and r': "r' = put_prices (pe_ops env) prices
      (case price_of r q of Some p \<Rightarrow> Some p | None \<Rightarrow> price_of prices q) rm r"
  obtains qp where
    "\<And>k. r' k = (case price_of prices k of
       Some d \<Rightarrow> if k \<in> set rm then Some (Some (dec_mul (po_ops (pe_ops env)) d qp)) else r k | None \<Rightarrow> r k)"
    "extends r r'" "price_of r' q = Some qp"
    "\<And>m. m \<in> set rm \<Longrightarrow> round_price env data cfg thr r' q m = Inr (price_of prices m)"
proof -
  let ?thr = "\<lparr>gpt_amountOut = amt, gpt_priceImpactThreshold = gpt_priceImpactThreshold thr\<rparr>"
  let ?one = "po_number (pe_ops env) 1" and ?mul = "dec_mul (po_ops (pe_ops env))"
  have rm: "rm = filter (\<lambda>m. price_of r m = None) mints" and dom: "dom r = set mints" using inv by (simp_all add: rounds_inv_def)
  have mint: "mint_price env q data cfg ?thr m = Inr (price_of prices m)" if "m \<in> set rm" for m
    using quote_prices(1) [OF prices that] .
  have unpriced: "price_of r q = None \<Longrightarrow> q \<in> set rm \<and> price_of prices q = Some ?one"
  proof -
    assume n: "price_of r q = None"
    then have "q = hd (gpc_quoteTokens cfg)" using amount by (auto simp: amount_against_def Let_def split: if_splits)
    then have "q \<in> set rm" using hd_in n by (simp add: rm)
    then show ?thesis using mint [of q] by (simp add: mint_price_def Let_def)
  qed
  define qp where "qp = (case price_of r q of Some p \<Rightarrow> p | None \<Rightarrow> ?one)"
  have quote: "(case price_of r q of Some p \<Rightarrow> Some p | None \<Rightarrow> price_of prices q) = Some qp"
    using unpriced by (simp add: qp_def split: option.split)
  have at: "r' k = (case price_of prices k of Some d \<Rightarrow> if k \<in> set rm then Some (Some (?mul d qp)) else r k | None \<Rightarrow> r k)" for k
    unfolding r' quote by (rule put_prices_at)
  have priced: "r' k = r k" if "price_of r k = Some p" for k p
    using that by (simp add: at rm split: option.split)
  have "k \<in> dom r' \<longleftrightarrow> k \<in> dom r" for k
  proof -
    have "k \<in> set rm \<Longrightarrow> k \<in> dom r" by (simp add: dom rm)
    then show ?thesis by (auto simp: domIff at split: option.splits if_splits)
  qed
  then have ext: "extends r r'"
    using priced by (auto simp: extends_def) (simp add: price_of_def)
  have q': "price_of r' q = Some qp"
  proof (cases "price_of r q")
    case None
    then show ?thesis using unpriced one by (simp add: price_of_def at qp_def)
  next
    case (Some p)
    then show ?thesis using ext by (simp add: extends_def qp_def)
  qed
  have "amount_against (pe_ops env) cfg thr (pcd_decimalsMap data) r' q = Inr amt"
    using amount ext q' by (auto simp: amount_against_def extends_def Let_def split: if_splits option.splits)
  then have round: "round_price env data cfg thr r' q m = Inr (price_of prices m)" if "m \<in> set rm" for m
    using mint [OF that] by (simp add: round_price_def)
  from at ext q' round show thesis by (rule that)
qed

lemma round_ok:
  assumes inv: "rounds_inv env data cfg thr mints finished rm r"
    and one: "dec_mul (po_ops (pe_ops env)) (po_number (pe_ops env) 1) (po_number (pe_ops env) 1) = po_number (pe_ops env) 1"
    and sub: "set (gpc_quoteTokens cfg) \<subseteq> set mints" and hd_in: "hd (gpc_quoteTokens cfg) \<in> set mints"
    and amount: "amount_against (pe_ops env) cfg thr (pcd_decimalsMap data) r q = Inr amt"
    and prices: "calculatePricesForQuoteToken env rm q data cfg
      \<lparr>gpt_amountOut = amt, gpt_priceImpactThreshold = gpt_priceImpactThreshold thr\<rparr> = Inr prices"
    and r': "r' = put_prices (pe_ops env) prices
      (case price_of r q of Some p \<Rightarrow> Some p | None \<Rightarrow> price_of prices q) rm r"
  shows "rounds_inv env data cfg thr mints (finished @ [q]) (filter (\<lambda>m. price_of r' m = None) rm) r'"
proof -
  have rm: "rm = filter (\<lambda>m. price_of r m = None) mints" and dom: "dom r = set mints" using inv by (simp_all add: rounds_inv_def)
  let ?mul = "dec_mul (po_ops (pe_ops env))"
  obtain qp where at: "\<And>k. r' k = (case price_of prices k of
       Some d \<Rightarrow> if k \<in> set rm then Some (Some (?mul d qp)) else r k | None \<Rightarrow> r k)"
    and ext: "extends r r'" and q': "price_of r' q = Some qp"
    and round: "\<And>m. m \<in> set rm \<Longrightarrow> round_price env data cfg thr r' q m = Inr (price_of prices m)"
    using round_result [OF inv one sub hd_in amount prices r'] by blast
  have fin: "\<forall>k \<in> set finished. price_of r k \<noteq> None" using inv by (simp add: rounds_inv_def)
  have mono: "price_of r' k = None \<Longrightarrow> price_of r k = None" for k
    using ext by (cases "price_of r k") (simp_all add: extends_def)
  have filt: "filter (\<lambda>m. price_of r' m = None) rm = filter (\<lambda>m. price_of r' m = None) mints"
    unfolding rm filter_filter
    by (rule filter_cong) (use mono in auto)
  have "price_stands env data cfg thr r' (finished @ [q]) m" if m: "m \<in> set mints" for m
  proof (cases "price_of r m = None \<and> price_of prices m \<noteq> None")
    case True
    then obtain d where d: "price_of prices m = Some d" by blast
    have in_rm: "m \<in> set rm" using True m by (simp add: rm)
    have none: "\<forall>k \<in> set finished. round_price env data cfg thr r' k m = Inr None"
    proof -
      have "price_stands env data cfg thr r finished m" using inv m by (simp add: rounds_inv_def)
      then have "\<forall>k \<in> set finished. round_price env data cfg thr r k m = Inr None" using True by (simp add: price_stands_def)
      then show ?thesis using fin by (simp add: round_price_extends [OF ext])
    qed
    have "price_of r' m = Some (?mul d qp)" using d in_rm by (simp add: price_of_def [of r'] at)
    moreover have "round_price env data cfg thr r' q m = Inr (Some d)" using round [OF in_rm] d by simp
    ultimately show ?thesis
      unfolding price_stands_def using none q' by (simp only: option.case) blast
  next
    case False
    then have "price_of r' m = price_of r m"
    proof (cases "price_of r m")
      case None
      with False have "r' m = r m" by (simp add: at)
      then show ?thesis by (simp add: price_of_def)
    next
      case (Some p)
      with ext show ?thesis by (simp add: extends_def)
    qed
    moreover have "price_stands env data cfg thr r finished m" using inv m by (simp add: rounds_inv_def)
    ultimately have "price_stands env data cfg thr r' finished m" by (intro stands_extends [OF ext fin])
    then show ?thesis
    proof (rule stands_snoc)
      assume "price_of r' m = None"
      then have "m \<in> set rm" "price_of prices m = None" using False m \<open>price_of r' m = price_of r m\<close> by (auto simp: rm)
      then show "round_price env data cfg thr r' q m = Inr None" using round by simp
    qed
  qed
  moreover note filt
  moreover have "\<forall>k \<in> set (finished @ [q]). price_of r' k \<noteq> None"
    using fin ext q' by (auto simp: extends_def)
  ultimately show ?thesis using ext dom by (simp add: rounds_inv_def extends_def)
qed

lemma rounds_ok:
  assumes one: "dec_mul (po_ops (pe_ops env)) (po_number (pe_ops env) 1) (po_number (pe_ops env) 1) = po_number (pe_ops env) 1"
    and sub: "set (gpc_quoteTokens cfg) \<subseteq> set mints"
  shows "price_rounds env data cfg thr rest rm r = Inr r' \<Longrightarrow> rounds_inv env data cfg thr mints finished rm r \<Longrightarrow>
    gpc_quoteTokens cfg = finished @ rest \<Longrightarrow>
    dom r' = set mints \<and> (\<forall>m \<in> set mints. price_stands env data cfg thr r' (gpc_quoteTokens cfg) m)"
proof (induction rest arbitrary: finished rm r)
  case Nil
  then show ?case by (simp add: rounds_inv_def)
next
  case (Cons q rest)
  show ?case
  proof (cases "rm = []")
    case True
    with Cons.prems have r': "r' = r" by simp
    have "price_of r m \<noteq> None" if "m \<in> set mints" for m
      using Cons.prems(2) True that by (auto simp: rounds_inv_def empty_filter_conv)
    moreover have "price_stands env data cfg thr r finished m" if "m \<in> set mints" for m
      using Cons.prems(2) that by (simp add: rounds_inv_def)
    ultimately have "price_stands env data cfg thr r (gpc_quoteTokens cfg) m" if "m \<in> set mints" for m
      using that by (fastforce simp: price_stands_def Cons.prems(3) split: option.splits)
    then show ?thesis using Cons.prems(2) by (simp add: r' rounds_inv_def)
  next
    case False
    let ?thr = "\<lambda>amt. \<lparr>gpt_amountOut = amt, gpt_priceImpactThreshold = gpt_priceImpactThreshold thr\<rparr>"
    from Cons.prems(1) False obtain amt prices where
      amt: "amount_against (pe_ops env) cfg thr (pcd_decimalsMap data) r q = Inr amt" and
      prices: "calculatePricesForQuoteToken env rm q data cfg (?thr amt) = Inr prices" and
      rec: "price_rounds env data cfg thr rest
        (filter (\<lambda>m. price_of (put_prices (pe_ops env) prices
          (case price_of r q of Some p \<Rightarrow> Some p | None \<Rightarrow> price_of prices q) rm r) m = None) rm)
        (put_prices (pe_ops env) prices (case price_of r q of Some p \<Rightarrow> Some p | None \<Rightarrow> price_of prices q) rm r) = Inr r'"
      by (auto simp: bindE_eq_Inr Let_def)
    have "hd (gpc_quoteTokens cfg) \<in> set mints" using sub Cons.prems(3) by (cases finished) auto
    from round_ok [OF Cons.prems(2) one sub this amt prices refl]
    show ?thesis by (rule Cons.IH [OF rec]) (simp add: Cons.prems(3))
  qed
qed

lemma fromEntries_null: "fromEntries (map (\<lambda>m. (m, None)) mints) k = (if k \<in> set mints then Some None else None)"
  by (simp add: fromEntries_def map_of_rev_fun)


text \<open>
  A quote token without a price stops the whole calculation: when the second quote token has no
  liquid pool with the first, the calculation throws, although the documentation
  says that such a token's price is set to null.
\<close>

theorem unpriced_quote_token_throws:
  assumes "gpc_quoteTokens cfg = q0 # q1 # rest" "q1 \<noteq> q0" "set (gpc_quoteTokens cfg) \<subseteq> set mints"
    and "\<forall>m \<in> set mints. \<exists>p. mint_price env q0 data cfg thr m = Inr p"
    and "mint_price env q0 data cfg thr q1 = Inr None"
  shows "calculateTokenPrices env mints data cfg thr = Inl PlainError"
proof -
  let ?r = "fromEntries (map (\<lambda>m. (m, None)) mints)"
  have q1: "q1 \<in> set mints" and ne: "mints \<noteq> []" using assms(1,3) by auto
  obtain prices where prices: "calculatePricesForQuoteToken env mints q0 data cfg thr = Inr prices"
    using assms(4) by (auto simp: calculatePricesForQuoteToken_def bindE_eq_Inr mapE_ok)
  have thr: "\<lparr>gpt_amountOut = gpt_amountOut thr, gpt_priceImpactThreshold = gpt_priceImpactThreshold thr\<rparr> = thr" by simp
  define r where "r = put_prices (pe_ops env) prices (case price_of ?r q0 of Some p \<Rightarrow> Some p | None \<Rightarrow> price_of prices q0) mints ?r"
  have "price_of prices q1 = None" using quote_prices(1) [OF prices q1] assms(5) by simp
  then have "price_of r q1 = None"
    by (cases "price_of prices q0")
      (simp_all add: r_def price_of_def [of ?r] fromEntries_null put_prices_none,
        simp add: price_of_def put_prices_at fromEntries_null)
  then have "amount_against (pe_ops env) cfg thr (pcd_decimalsMap data) r q1 = Inl PlainError"
    using assms(1,2) by (simp add: amount_against_def)
  moreover have "filter (\<lambda>m. price_of r m = None) mints \<noteq> []"
    using \<open>price_of r q1 = None\<close> q1 by (auto simp: filter_empty_conv)
  ultimately show ?thesis
    using assms(1,3) ne
    by (simp add: calculateTokenPrices_def isSubset_def subset_iff amount_against_def [of _ _ _ _ ?r q0] thr prices r_def)
qed

subsection \<open>An example\<close>

text \<open>Real numbers for \<^verbatim>\<open>Decimal\<close>.\<close>

definition decimal_ref :: "real decimal_ops" where
  "decimal_ref = \<lparr>dec_mul = (*), dec_div = (/), dec_add = (+), dec_sub = (-), dec_sqrt = sqrt,
     dec_pow = power_int, dec_ofBN = real_of_int, dec_toBN0 = round,
     dec_toX64 = (\<lambda>x. \<lfloor>x * 2 ^ 64\<rfloor>), dec_fromX64 = (\<lambda>n. real_of_int n / 2 ^ 64)\<rparr>"

definition price_ops_ref :: "real price_ops" where
  "price_ops_ref = \<lparr>po_ops = decimal_ref,
     po_fromBN = (\<lambda>n decimals. n / 10 powi (case decimals of None \<Rightarrow> 0 | Some d \<Rightarrow> d)),
     po_toBN = (\<lambda>x decimals. if x < 0 then Inl PackageError
       else Inr \<lfloor>x * 10 powi (case decimals of None \<Rightarrow> 0 | Some d \<Rightarrow> d)\<rfloor>),
     po_toDecimalPlaces = (\<lambda>x decimals. let e = 10 powi (case decimals of None \<Rightarrow> 0 | Some d \<Rightarrow> d) in round (x * e) / e),
     po_lte = (\<le>), po_number = real_of_int, po_percent = (\<lambda>x. \<lparr>numerator = round (10 * x), denominator = 1000\<rparr>)\<rparr>"

definition example_env :: "(TransferFee, real) price_env" where
  "example_env = \<lparr>pe_mu = math_util_ref, pe_spl = spl_token_ref, pe_ops = price_ops_ref, pe_fpa = example_fpa,
     pe_toBuffer = map of_char\<rparr>"

definition example_price_data :: PriceCalculationData where
  "example_price_data = \<lparr>pcd_poolMap = [], pcd_tickArrayMap = [], pcd_decimalsMap = [''Q0'' \<mapsto> 6, ''Q1'' \<mapsto> 9, ''M'' \<mapsto> 6]\<rparr>"

definition example_price_config :: "pubkey list \<Rightarrow> GetPricesConfig" where
  "example_price_config quoteTokens = \<lparr>gpc_quoteTokens = quoteTokens, gpc_tickSpacings = [64], gpc_programId = ''program'',
     gpc_whirlpoolsConfig = ''config''\<rparr>"

lemma example_mint_price:
  "mint_price example_env q example_price_data cfg thr m = Inr (if m = q then Some 1 else None)"
  by (simp add: mint_price_def example_env_def example_price_data_def price_ops_ref_def getMostLiquidPools_def Let_def split_beta)


theorem unpriced_quote_token_throws_witness:
  "calculateTokenPrices example_env [''Q0'', ''Q1'', ''M''] example_price_data (example_price_config [''Q0'', ''Q1''])
     (defaultGetPricesThresholdConfig price_ops_ref) = Inl PlainError"
  by (rule unpriced_quote_token_throws [of _ "''Q0''" "''Q1''" "[]"])
    (simp_all add: example_mint_price, simp_all add: example_price_config_def)

end
