(* ===== verification/Ix_Core.thy ===== *)
theory Ix_Core
  imports Swap_Utils
begin

text \<open>
  What an instruction builder returns (\<^verbatim>\<open>Instruction\<close> of \<^verbatim>\<open>@orca-so/common-sdk\<close>) and the list of
  remaining accounts some of them take (\<^verbatim>\<open>sdk/src/utils/remaining-accounts-util.ts\<close>). A builder of
  this repository calls \<^verbatim>\<open>program.instruction.name(args, \<lbrace>accounts, remainingAccounts\<rbrace>)\<close> of
  Anchor; the call itself is kept, as an \<open>anchor_call\<close>, because Anchor's encoding is outside
  the repository. The instructions other packages build are opaque. The lemmas
  show that a program can take the remaining accounts apart again.
\<close>

subsection \<open>Instructions\<close>

text \<open>A key pair is known by its public key; the secret key is only used to sign.\<close>

datatype Keypair = Keypair (keypair_publicKey: pubkey)

text \<open>The JavaScript values that are passed as arguments of an instruction.\<close>

datatype ix_value =
    V_null
  | V_int int
  | V_bool bool
  | V_key pubkey
  | V_tag string
  | V_list "ix_value list"
  | V_struct "(string \<times> ix_value) list"

record anchor_call =
  ac_name :: string
  ac_args :: "ix_value list"
  ac_accounts :: "(string \<times> pubkey option) list"
  ac_remainingAccounts :: "AccountMeta list option"

definition call_ix ::
    "string \<Rightarrow> ix_value list \<Rightarrow> (string \<times> pubkey option) list \<Rightarrow> AccountMeta list option \<Rightarrow> anchor_call" where
  "call_ix name args accounts remainingAccounts =
     \<lparr>ac_name = name, ac_args = args, ac_accounts = accounts, ac_remainingAccounts = remainingAccounts\<rparr>"

datatype tx_ix = Call anchor_call | Package_ix string "pubkey list"

record Instruction =
  in_instructions :: "tx_ix list"
  in_cleanupInstructions :: "tx_ix list"
  in_signers :: "Keypair list"

text \<open>The program object, and the addresses the packages export.\<close>

record program_env =
  pg_programId :: pubkey
  pg_tokenProgram :: pubkey
  pg_associatedTokenProgram :: pubkey
  pg_systemProgram :: pubkey
  pg_rent :: pubkey
  pg_findProgramAddress :: find_program_address

definition MEMO_PROGRAM_ADDRESS :: pubkey where
  "MEMO_PROGRAM_ADDRESS = ''MemoSq4gqABAXKb96qnH8TysNcWxMyWCqXgDLGmfcHr''"

definition WHIRLPOOL_NFT_UPDATE_AUTH :: pubkey where
  "WHIRLPOOL_NFT_UPDATE_AUTH = ''3axbTs2z5GBy6usVbNVoqEgZMng3vZvMnAoX29BFfwhr''"

subsection \<open>Remaining accounts\<close>

datatype RemainingAccountsType =
    TransferHookA
  | TransferHookB
  | TransferHookReward
  | TransferHookInput
  | TransferHookIntermediate
  | TransferHookOutput

fun accounts_type_name :: "RemainingAccountsType \<Rightarrow> string" where
  "accounts_type_name TransferHookA = ''transferHookA''"
| "accounts_type_name TransferHookB = ''transferHookB''"
| "accounts_type_name TransferHookReward = ''transferHookReward''"
| "accounts_type_name TransferHookInput = ''transferHookInput''"
| "accounts_type_name TransferHookIntermediate = ''transferHookIntermediate''"
| "accounts_type_name TransferHookOutput = ''transferHookOutput''"

record RemainingAccountsSliceData =
  ras_accountsType :: RemainingAccountsType
  ras_length :: nat

type_synonym RemainingAccountsInfoData = "RemainingAccountsSliceData list"

record RemainingAccountsBuilder =
  rab_remainingAccounts :: "AccountMeta list"
  rab_slices :: "RemainingAccountsSliceData list"

definition newRemainingAccountsBuilder :: RemainingAccountsBuilder where
  "newRemainingAccountsBuilder = \<lparr>rab_remainingAccounts = [], rab_slices = []\<rparr>"

definition addSlice ::
    "RemainingAccountsType \<Rightarrow> AccountMeta list option \<Rightarrow> RemainingAccountsBuilder \<Rightarrow> RemainingAccountsBuilder" where
  "addSlice accountsType accounts this' =
     (case accounts of
        None \<Rightarrow> this'
      | Some accs \<Rightarrow>
          if length accs = 0 then this'
          else this'\<lparr>rab_slices := rab_slices this' @ [\<lparr>ras_accountsType = accountsType, ras_length = length accs\<rparr>],
                     rab_remainingAccounts := rab_remainingAccounts this' @ accs\<rparr>)"

definition build :: "RemainingAccountsBuilder \<Rightarrow> RemainingAccountsInfoData option \<times> AccountMeta list option" where
  "build this' =
     (if length (rab_slices this') = 0 then (None, None)
      else (Some (rab_slices this'), Some (rab_remainingAccounts this')))"

text \<open>The argument of an instruction: \<^verbatim>\<open>null\<close> or the object \<^verbatim>\<open>\<lbrace> slices: [...] \<rbrace>\<close>.\<close>

definition slice_value :: "RemainingAccountsSliceData \<Rightarrow> ix_value" where
  "slice_value s = V_struct [(''accountsType'', V_tag (accounts_type_name (ras_accountsType s))),
     (''length'', V_int (int (ras_length s)))]"

definition remaining_value :: "RemainingAccountsInfoData option \<Rightarrow> ix_value" where
  "remaining_value info =
     (case info of None \<Rightarrow> V_null | Some slices \<Rightarrow> V_struct [(''slices'', V_list (map slice_value slices))])"

text \<open>
  The other side: a program that is told the slices takes each one from the front of the
  accounts. Too few accounts, or accounts that are left over, are refused.
\<close>

fun read_slices ::
    "RemainingAccountsSliceData list \<Rightarrow> AccountMeta list \<Rightarrow> (RemainingAccountsType \<times> AccountMeta list) list option" where
  "read_slices [] accs = (if accs = [] then Some [] else None)"
| "read_slices (s # slices) accs =
     (if length accs < ras_length s then None
      else map_option (Cons (ras_accountsType s, take (ras_length s) accs))
        (read_slices slices (drop (ras_length s) accs)))"

text \<open>The requests that ask for something.\<close>

definition given_slices ::
    "(RemainingAccountsType \<times> AccountMeta list option) list \<Rightarrow> (RemainingAccountsType \<times> AccountMeta list) list" where
  "given_slices requests = [(t, accs). (t, Some accs) \<leftarrow> requests, accs \<noteq> []]"

definition add_slices ::
    "(RemainingAccountsType \<times> AccountMeta list option) list \<Rightarrow> RemainingAccountsBuilder \<Rightarrow> RemainingAccountsBuilder" where
  "add_slices requests = fold (\<lambda>(t, accs). addSlice t accs) requests"

lemma read_slices_append:
  "read_slices slices accs = Some given \<Longrightarrow> length as = ras_length s \<Longrightarrow>
   read_slices (slices @ [s]) (accs @ as) = Some (given @ [(ras_accountsType s, as)])"
  by (induction slices arbitrary: accs given) (auto split: if_splits)

lemma read_slices_length:
  "read_slices slices accs = Some given \<Longrightarrow> length slices = length given"
  by (induction slices arbitrary: accs given) (auto split: if_splits)

lemma add_slices_readable:
  "read_slices (rab_slices (add_slices requests newRemainingAccountsBuilder))
     (rab_remainingAccounts (add_slices requests newRemainingAccountsBuilder)) = Some (given_slices requests)"
proof (induction requests rule: rev_induct)
  case Nil
  show ?case by (simp add: add_slices_def newRemainingAccountsBuilder_def given_slices_def)
next
  case (snoc r requests)
  obtain t accs where r: "r = (t, accs)" by (cases r)
  show ?case
    using snoc read_slices_append [OF snoc, where s = "\<lparr>ras_accountsType = t, ras_length = length (the accs)\<rparr>"]
    by (auto simp: r add_slices_def addSlice_def given_slices_def split: option.split)
qed

text \<open>
  The remaining accounts of an instruction can be taken apart again: the slices of a builder tell
  the program exactly the lists of accounts that were added, in the order they were added,
  the empty and missing ones left out; and a builder that was given nothing sends neither
  slices nor accounts.
\<close>

theorem remaining_accounts_round_trip:
  "build (add_slices requests newRemainingAccountsBuilder) =
     (case given_slices requests of
        [] \<Rightarrow> (None, None)
      | _ \<Rightarrow> (Some (map (\<lambda>(t, accs). \<lparr>ras_accountsType = t, ras_length = length accs\<rparr>) (given_slices requests)),
              Some (concat (map snd (given_slices requests))))) \<and>
   read_slices (rab_slices (add_slices requests newRemainingAccountsBuilder))
     (rab_remainingAccounts (add_slices requests newRemainingAccountsBuilder)) = Some (given_slices requests)"
proof -
  have "rab_slices (add_slices requests newRemainingAccountsBuilder) =
      map (\<lambda>(t, accs). \<lparr>ras_accountsType = t, ras_length = length accs\<rparr>) (given_slices requests) \<and>
    rab_remainingAccounts (add_slices requests newRemainingAccountsBuilder) = concat (map snd (given_slices requests))"
    by (induction requests rule: rev_induct)
      (auto simp: add_slices_def newRemainingAccountsBuilder_def given_slices_def addSlice_def split: option.split)
  then show ?thesis
    using add_slices_readable [of requests] by (cases "given_slices requests") (auto simp: build_def)
qed

end
