(* ===== verification/Idl.thy ===== *)
theory Idl
  imports Ix_Core
begin

text \<open>
  The interface of the program on the chain, as the SDK carries it (\<^verbatim>\<open>export const IDL\<close> of
  \<^verbatim>\<open>sdk/src/artifacts/whirlpool.ts\<close>): its instructions with their accounts and arguments, and
  the types the arguments use; the documentation strings are left out, the account layouts and the errors
  are in Network. \<open>ix_typed\<close> says which values fit a type, and \<open>fits_idl\<close> which calls fit
  the instruction of their name.
\<close>

datatype idl_type =
    IdlU8
  | IdlU16
  | IdlI32
  | IdlU64
  | IdlU128
  | IdlI128
  | IdlBool
  | IdlPublicKey
  | IdlDefined string
  | IdlOption idl_type
  | IdlVec idl_type
  | IdlArray idl_type nat

datatype idl_type_def = IdlStruct "(string \<times> idl_type) list" | IdlEnum "string list"

record idl_account =
  ia_name :: string
  ia_isMut :: bool
  ia_isSigner :: bool

record idl_instruction =
  ii_name :: string
  ii_accounts :: "idl_account list"
  ii_args :: "(string \<times> idl_type) list"

definition idl_acc :: "string \<Rightarrow> bool \<Rightarrow> bool \<Rightarrow> idl_account" where
  "idl_acc name isMut isSigner = \<lparr>ia_name = name, ia_isMut = isMut, ia_isSigner = isSigner\<rparr>"

definition idl_ix :: "string \<Rightarrow> idl_account list \<Rightarrow> (string \<times> idl_type) list \<Rightarrow> idl_instruction" where
  "idl_ix name accounts args = \<lparr>ii_name = name, ii_accounts = accounts, ii_args = args\<rparr>"

subsection \<open>The types\<close>

definition idl_type_OpenPositionBumps :: idl_type_def where
  "idl_type_OpenPositionBumps = IdlStruct [(''positionBump'', IdlU8)]"

definition idl_type_OpenPositionWithMetadataBumps :: idl_type_def where
  "idl_type_OpenPositionWithMetadataBumps = IdlStruct [(''positionBump'', IdlU8), (''metadataBump'', IdlU8)]"

definition idl_type_PositionRewardInfo :: idl_type_def where
  "idl_type_PositionRewardInfo = IdlStruct [(''growthInsideCheckpoint'', IdlU128), (''amountOwed'', IdlU64)]"

definition idl_type_Tick :: idl_type_def where
  "idl_type_Tick = IdlStruct [(''initialized'', IdlBool), (''liquidityNet'', IdlI128), (''liquidityGross'', IdlU128),
     (''feeGrowthOutsideA'', IdlU128), (''feeGrowthOutsideB'', IdlU128),
     (''rewardGrowthsOutside'', IdlArray (IdlU128) 3)]"

definition idl_type_WhirlpoolRewardInfo :: idl_type_def where
  "idl_type_WhirlpoolRewardInfo = IdlStruct [(''mint'', IdlPublicKey), (''vault'', IdlPublicKey), (''authority'', IdlPublicKey),
     (''emissionsPerSecondX64'', IdlU128), (''growthGlobalX64'', IdlU128)]"

definition idl_type_WhirlpoolBumps :: idl_type_def where
  "idl_type_WhirlpoolBumps = IdlStruct [(''whirlpoolBump'', IdlU8)]"

definition idl_type_RemainingAccountsSlice :: idl_type_def where
  "idl_type_RemainingAccountsSlice = IdlStruct [(''accountsType'', IdlDefined ''AccountsType''), (''length'', IdlU8)]"

definition idl_type_RemainingAccountsInfo :: idl_type_def where
  "idl_type_RemainingAccountsInfo = IdlStruct [(''slices'', IdlVec (IdlDefined ''RemainingAccountsSlice''))]"

definition idl_type_CurrIndex :: idl_type_def where
  "idl_type_CurrIndex = IdlEnum [''Below'', ''Inside'', ''Above'']"

definition idl_type_TickLabel :: idl_type_def where
  "idl_type_TickLabel = IdlEnum [''Upper'', ''Lower'']"

definition idl_type_Direction :: idl_type_def where
  "idl_type_Direction = IdlEnum [''Left'', ''Right'']"

definition idl_type_AccountsType :: idl_type_def where
  "idl_type_AccountsType = IdlEnum [''TransferHookA'', ''TransferHookB'', ''TransferHookReward'', ''TransferHookInput'',
     ''TransferHookIntermediate'', ''TransferHookOutput'']"

definition IDL_types :: "(string \<times> idl_type_def) list" where
  "IDL_types =
     [(''OpenPositionBumps'', idl_type_OpenPositionBumps),
      (''OpenPositionWithMetadataBumps'', idl_type_OpenPositionWithMetadataBumps),
      (''PositionRewardInfo'', idl_type_PositionRewardInfo),
      (''Tick'', idl_type_Tick),
      (''WhirlpoolRewardInfo'', idl_type_WhirlpoolRewardInfo),
      (''WhirlpoolBumps'', idl_type_WhirlpoolBumps),
      (''RemainingAccountsSlice'', idl_type_RemainingAccountsSlice),
      (''RemainingAccountsInfo'', idl_type_RemainingAccountsInfo),
      (''CurrIndex'', idl_type_CurrIndex),
      (''TickLabel'', idl_type_TickLabel),
      (''Direction'', idl_type_Direction),
      (''AccountsType'', idl_type_AccountsType)]"

subsection \<open>The instructions\<close>

definition idl_initializeConfig :: idl_instruction where
  "idl_initializeConfig = idl_ix ''initializeConfig''
     [idl_acc ''config'' True True, idl_acc ''funder'' True True, idl_acc ''systemProgram'' False False]
     [(''feeAuthority'', IdlPublicKey), (''collectProtocolFeesAuthority'', IdlPublicKey),
      (''rewardEmissionsSuperAuthority'', IdlPublicKey), (''defaultProtocolFeeRate'', IdlU16)]"

definition idl_initializePool :: idl_instruction where
  "idl_initializePool = idl_ix ''initializePool''
     [idl_acc ''whirlpoolsConfig'' False False, idl_acc ''tokenMintA'' False False,
      idl_acc ''tokenMintB'' False False, idl_acc ''funder'' True True, idl_acc ''whirlpool'' True False,
      idl_acc ''tokenVaultA'' True True, idl_acc ''tokenVaultB'' True True, idl_acc ''feeTier'' False False,
      idl_acc ''tokenProgram'' False False, idl_acc ''systemProgram'' False False,
      idl_acc ''rent'' False False]
     [(''bumps'', IdlDefined ''WhirlpoolBumps''), (''tickSpacing'', IdlU16), (''initialSqrtPrice'', IdlU128)]"

definition idl_initializeTickArray :: idl_instruction where
  "idl_initializeTickArray = idl_ix ''initializeTickArray''
     [idl_acc ''whirlpool'' False False, idl_acc ''funder'' True True, idl_acc ''tickArray'' True False,
      idl_acc ''systemProgram'' False False]
     [(''startTickIndex'', IdlI32)]"

definition idl_initializeFeeTier :: idl_instruction where
  "idl_initializeFeeTier = idl_ix ''initializeFeeTier''
     [idl_acc ''config'' False False, idl_acc ''feeTier'' True False, idl_acc ''funder'' True True,
      idl_acc ''feeAuthority'' False True, idl_acc ''systemProgram'' False False]
     [(''tickSpacing'', IdlU16), (''defaultFeeRate'', IdlU16)]"

definition idl_initializeReward :: idl_instruction where
  "idl_initializeReward = idl_ix ''initializeReward''
     [idl_acc ''rewardAuthority'' False True, idl_acc ''funder'' True True,
      idl_acc ''whirlpool'' True False, idl_acc ''rewardMint'' False False,
      idl_acc ''rewardVault'' True True, idl_acc ''tokenProgram'' False False,
      idl_acc ''systemProgram'' False False, idl_acc ''rent'' False False]
     [(''rewardIndex'', IdlU8)]"

definition idl_setRewardEmissions :: idl_instruction where
  "idl_setRewardEmissions = idl_ix ''setRewardEmissions''
     [idl_acc ''whirlpool'' True False, idl_acc ''rewardAuthority'' False True,
      idl_acc ''rewardVault'' False False]
     [(''rewardIndex'', IdlU8), (''emissionsPerSecondX64'', IdlU128)]"

definition idl_openPosition :: idl_instruction where
  "idl_openPosition = idl_ix ''openPosition''
     [idl_acc ''funder'' True True, idl_acc ''owner'' False False, idl_acc ''position'' True False,
      idl_acc ''positionMint'' True True, idl_acc ''positionTokenAccount'' True False,
      idl_acc ''whirlpool'' False False, idl_acc ''tokenProgram'' False False,
      idl_acc ''systemProgram'' False False, idl_acc ''rent'' False False,
      idl_acc ''associatedTokenProgram'' False False]
     [(''bumps'', IdlDefined ''OpenPositionBumps''), (''tickLowerIndex'', IdlI32),
      (''tickUpperIndex'', IdlI32)]"

definition idl_openPositionWithMetadata :: idl_instruction where
  "idl_openPositionWithMetadata = idl_ix ''openPositionWithMetadata''
     [idl_acc ''funder'' True True, idl_acc ''owner'' False False, idl_acc ''position'' True False,
      idl_acc ''positionMint'' True True, idl_acc ''positionMetadataAccount'' True False,
      idl_acc ''positionTokenAccount'' True False, idl_acc ''whirlpool'' False False,
      idl_acc ''tokenProgram'' False False, idl_acc ''systemProgram'' False False,
      idl_acc ''rent'' False False, idl_acc ''associatedTokenProgram'' False False,
      idl_acc ''metadataProgram'' False False, idl_acc ''metadataUpdateAuth'' False False]
     [(''bumps'', IdlDefined ''OpenPositionWithMetadataBumps''), (''tickLowerIndex'', IdlI32),
      (''tickUpperIndex'', IdlI32)]"

definition idl_increaseLiquidity :: idl_instruction where
  "idl_increaseLiquidity = idl_ix ''increaseLiquidity''
     [idl_acc ''whirlpool'' True False, idl_acc ''tokenProgram'' False False,
      idl_acc ''positionAuthority'' False True, idl_acc ''position'' True False,
      idl_acc ''positionTokenAccount'' False False, idl_acc ''tokenOwnerAccountA'' True False,
      idl_acc ''tokenOwnerAccountB'' True False, idl_acc ''tokenVaultA'' True False,
      idl_acc ''tokenVaultB'' True False, idl_acc ''tickArrayLower'' True False,
      idl_acc ''tickArrayUpper'' True False]
     [(''liquidityAmount'', IdlU128), (''tokenMaxA'', IdlU64), (''tokenMaxB'', IdlU64)]"

definition idl_decreaseLiquidity :: idl_instruction where
  "idl_decreaseLiquidity = idl_ix ''decreaseLiquidity''
     [idl_acc ''whirlpool'' True False, idl_acc ''tokenProgram'' False False,
      idl_acc ''positionAuthority'' False True, idl_acc ''position'' True False,
      idl_acc ''positionTokenAccount'' False False, idl_acc ''tokenOwnerAccountA'' True False,
      idl_acc ''tokenOwnerAccountB'' True False, idl_acc ''tokenVaultA'' True False,
      idl_acc ''tokenVaultB'' True False, idl_acc ''tickArrayLower'' True False,
      idl_acc ''tickArrayUpper'' True False]
     [(''liquidityAmount'', IdlU128), (''tokenMinA'', IdlU64), (''tokenMinB'', IdlU64)]"

definition idl_updateFeesAndRewards :: idl_instruction where
  "idl_updateFeesAndRewards = idl_ix ''updateFeesAndRewards''
     [idl_acc ''whirlpool'' True False, idl_acc ''position'' True False,
      idl_acc ''tickArrayLower'' False False, idl_acc ''tickArrayUpper'' False False]
     []"

definition idl_collectFees :: idl_instruction where
  "idl_collectFees = idl_ix ''collectFees''
     [idl_acc ''whirlpool'' False False, idl_acc ''positionAuthority'' False True,
      idl_acc ''position'' True False, idl_acc ''positionTokenAccount'' False False,
      idl_acc ''tokenOwnerAccountA'' True False, idl_acc ''tokenVaultA'' True False,
      idl_acc ''tokenOwnerAccountB'' True False, idl_acc ''tokenVaultB'' True False,
      idl_acc ''tokenProgram'' False False]
     []"

definition idl_collectReward :: idl_instruction where
  "idl_collectReward = idl_ix ''collectReward''
     [idl_acc ''whirlpool'' False False, idl_acc ''positionAuthority'' False True,
      idl_acc ''position'' True False, idl_acc ''positionTokenAccount'' False False,
      idl_acc ''rewardOwnerAccount'' True False, idl_acc ''rewardVault'' True False,
      idl_acc ''tokenProgram'' False False]
     [(''rewardIndex'', IdlU8)]"

definition idl_collectProtocolFees :: idl_instruction where
  "idl_collectProtocolFees = idl_ix ''collectProtocolFees''
     [idl_acc ''whirlpoolsConfig'' False False, idl_acc ''whirlpool'' True False,
      idl_acc ''collectProtocolFeesAuthority'' False True, idl_acc ''tokenVaultA'' True False,
      idl_acc ''tokenVaultB'' True False, idl_acc ''tokenDestinationA'' True False,
      idl_acc ''tokenDestinationB'' True False, idl_acc ''tokenProgram'' False False]
     []"

definition idl_swap :: idl_instruction where
  "idl_swap = idl_ix ''swap''
     [idl_acc ''tokenProgram'' False False, idl_acc ''tokenAuthority'' False True,
      idl_acc ''whirlpool'' True False, idl_acc ''tokenOwnerAccountA'' True False,
      idl_acc ''tokenVaultA'' True False, idl_acc ''tokenOwnerAccountB'' True False,
      idl_acc ''tokenVaultB'' True False, idl_acc ''tickArray0'' True False,
      idl_acc ''tickArray1'' True False, idl_acc ''tickArray2'' True False, idl_acc ''oracle'' False False]
     [(''amount'', IdlU64), (''otherAmountThreshold'', IdlU64), (''sqrtPriceLimit'', IdlU128),
      (''amountSpecifiedIsInput'', IdlBool), (''aToB'', IdlBool)]"

definition idl_closePosition :: idl_instruction where
  "idl_closePosition = idl_ix ''closePosition''
     [idl_acc ''positionAuthority'' False True, idl_acc ''receiver'' True False,
      idl_acc ''position'' True False, idl_acc ''positionMint'' True False,
      idl_acc ''positionTokenAccount'' True False, idl_acc ''tokenProgram'' False False]
     []"

definition idl_setDefaultFeeRate :: idl_instruction where
  "idl_setDefaultFeeRate = idl_ix ''setDefaultFeeRate''
     [idl_acc ''whirlpoolsConfig'' False False, idl_acc ''feeTier'' True False,
      idl_acc ''feeAuthority'' False True]
     [(''defaultFeeRate'', IdlU16)]"

definition idl_setDefaultProtocolFeeRate :: idl_instruction where
  "idl_setDefaultProtocolFeeRate = idl_ix ''setDefaultProtocolFeeRate''
     [idl_acc ''whirlpoolsConfig'' True False, idl_acc ''feeAuthority'' False True]
     [(''defaultProtocolFeeRate'', IdlU16)]"

definition idl_setFeeRate :: idl_instruction where
  "idl_setFeeRate = idl_ix ''setFeeRate''
     [idl_acc ''whirlpoolsConfig'' False False, idl_acc ''whirlpool'' True False,
      idl_acc ''feeAuthority'' False True]
     [(''feeRate'', IdlU16)]"

definition idl_setProtocolFeeRate :: idl_instruction where
  "idl_setProtocolFeeRate = idl_ix ''setProtocolFeeRate''
     [idl_acc ''whirlpoolsConfig'' False False, idl_acc ''whirlpool'' True False,
      idl_acc ''feeAuthority'' False True]
     [(''protocolFeeRate'', IdlU16)]"

definition idl_setFeeAuthority :: idl_instruction where
  "idl_setFeeAuthority = idl_ix ''setFeeAuthority''
     [idl_acc ''whirlpoolsConfig'' True False, idl_acc ''feeAuthority'' False True,
      idl_acc ''newFeeAuthority'' False False]
     []"

definition idl_setCollectProtocolFeesAuthority :: idl_instruction where
  "idl_setCollectProtocolFeesAuthority = idl_ix ''setCollectProtocolFeesAuthority''
     [idl_acc ''whirlpoolsConfig'' True False, idl_acc ''collectProtocolFeesAuthority'' False True,
      idl_acc ''newCollectProtocolFeesAuthority'' False False]
     []"

definition idl_setRewardAuthority :: idl_instruction where
  "idl_setRewardAuthority = idl_ix ''setRewardAuthority''
     [idl_acc ''whirlpool'' True False, idl_acc ''rewardAuthority'' False True,
      idl_acc ''newRewardAuthority'' False False]
     [(''rewardIndex'', IdlU8)]"

definition idl_setRewardAuthorityBySuperAuthority :: idl_instruction where
  "idl_setRewardAuthorityBySuperAuthority = idl_ix ''setRewardAuthorityBySuperAuthority''
     [idl_acc ''whirlpoolsConfig'' False False, idl_acc ''whirlpool'' True False,
      idl_acc ''rewardEmissionsSuperAuthority'' False True, idl_acc ''newRewardAuthority'' False False]
     [(''rewardIndex'', IdlU8)]"

definition idl_setRewardEmissionsSuperAuthority :: idl_instruction where
  "idl_setRewardEmissionsSuperAuthority = idl_ix ''setRewardEmissionsSuperAuthority''
     [idl_acc ''whirlpoolsConfig'' True False, idl_acc ''rewardEmissionsSuperAuthority'' False True,
      idl_acc ''newRewardEmissionsSuperAuthority'' False False]
     []"

definition idl_twoHopSwap :: idl_instruction where
  "idl_twoHopSwap = idl_ix ''twoHopSwap''
     [idl_acc ''tokenProgram'' False False, idl_acc ''tokenAuthority'' False True,
      idl_acc ''whirlpoolOne'' True False, idl_acc ''whirlpoolTwo'' True False,
      idl_acc ''tokenOwnerAccountOneA'' True False, idl_acc ''tokenVaultOneA'' True False,
      idl_acc ''tokenOwnerAccountOneB'' True False, idl_acc ''tokenVaultOneB'' True False,
      idl_acc ''tokenOwnerAccountTwoA'' True False, idl_acc ''tokenVaultTwoA'' True False,
      idl_acc ''tokenOwnerAccountTwoB'' True False, idl_acc ''tokenVaultTwoB'' True False,
      idl_acc ''tickArrayOne0'' True False, idl_acc ''tickArrayOne1'' True False,
      idl_acc ''tickArrayOne2'' True False, idl_acc ''tickArrayTwo0'' True False,
      idl_acc ''tickArrayTwo1'' True False, idl_acc ''tickArrayTwo2'' True False,
      idl_acc ''oracleOne'' False False, idl_acc ''oracleTwo'' False False]
     [(''amount'', IdlU64), (''otherAmountThreshold'', IdlU64), (''amountSpecifiedIsInput'', IdlBool),
      (''aToBOne'', IdlBool), (''aToBTwo'', IdlBool), (''sqrtPriceLimitOne'', IdlU128),
      (''sqrtPriceLimitTwo'', IdlU128)]"

definition idl_initializePositionBundle :: idl_instruction where
  "idl_initializePositionBundle = idl_ix ''initializePositionBundle''
     [idl_acc ''positionBundle'' True False, idl_acc ''positionBundleMint'' True True,
      idl_acc ''positionBundleTokenAccount'' True False, idl_acc ''positionBundleOwner'' False False,
      idl_acc ''funder'' True True, idl_acc ''tokenProgram'' False False,
      idl_acc ''systemProgram'' False False, idl_acc ''rent'' False False,
      idl_acc ''associatedTokenProgram'' False False]
     []"

definition idl_initializePositionBundleWithMetadata :: idl_instruction where
  "idl_initializePositionBundleWithMetadata = idl_ix ''initializePositionBundleWithMetadata''
     [idl_acc ''positionBundle'' True False, idl_acc ''positionBundleMint'' True True,
      idl_acc ''positionBundleMetadata'' True False, idl_acc ''positionBundleTokenAccount'' True False,
      idl_acc ''positionBundleOwner'' False False, idl_acc ''funder'' True True,
      idl_acc ''metadataUpdateAuth'' False False, idl_acc ''tokenProgram'' False False,
      idl_acc ''systemProgram'' False False, idl_acc ''rent'' False False,
      idl_acc ''associatedTokenProgram'' False False, idl_acc ''metadataProgram'' False False]
     []"

definition idl_deletePositionBundle :: idl_instruction where
  "idl_deletePositionBundle = idl_ix ''deletePositionBundle''
     [idl_acc ''positionBundle'' True False, idl_acc ''positionBundleMint'' True False,
      idl_acc ''positionBundleTokenAccount'' True False, idl_acc ''positionBundleOwner'' False True,
      idl_acc ''receiver'' True False, idl_acc ''tokenProgram'' False False]
     []"

definition idl_openBundledPosition :: idl_instruction where
  "idl_openBundledPosition = idl_ix ''openBundledPosition''
     [idl_acc ''bundledPosition'' True False, idl_acc ''positionBundle'' True False,
      idl_acc ''positionBundleTokenAccount'' False False, idl_acc ''positionBundleAuthority'' False True,
      idl_acc ''whirlpool'' False False, idl_acc ''funder'' True True,
      idl_acc ''systemProgram'' False False, idl_acc ''rent'' False False]
     [(''bundleIndex'', IdlU16), (''tickLowerIndex'', IdlI32), (''tickUpperIndex'', IdlI32)]"

definition idl_closeBundledPosition :: idl_instruction where
  "idl_closeBundledPosition = idl_ix ''closeBundledPosition''
     [idl_acc ''bundledPosition'' True False, idl_acc ''positionBundle'' True False,
      idl_acc ''positionBundleTokenAccount'' False False, idl_acc ''positionBundleAuthority'' False True,
      idl_acc ''receiver'' True False]
     [(''bundleIndex'', IdlU16)]"

definition idl_collectFeesV2 :: idl_instruction where
  "idl_collectFeesV2 = idl_ix ''collectFeesV2''
     [idl_acc ''whirlpool'' False False, idl_acc ''positionAuthority'' False True,
      idl_acc ''position'' True False, idl_acc ''positionTokenAccount'' False False,
      idl_acc ''tokenMintA'' False False, idl_acc ''tokenMintB'' False False,
      idl_acc ''tokenOwnerAccountA'' True False, idl_acc ''tokenVaultA'' True False,
      idl_acc ''tokenOwnerAccountB'' True False, idl_acc ''tokenVaultB'' True False,
      idl_acc ''tokenProgramA'' False False, idl_acc ''tokenProgramB'' False False,
      idl_acc ''memoProgram'' False False]
     [(''remainingAccountsInfo'', IdlOption (IdlDefined ''RemainingAccountsInfo''))]"

definition idl_collectProtocolFeesV2 :: idl_instruction where
  "idl_collectProtocolFeesV2 = idl_ix ''collectProtocolFeesV2''
     [idl_acc ''whirlpoolsConfig'' False False, idl_acc ''whirlpool'' True False,
      idl_acc ''collectProtocolFeesAuthority'' False True, idl_acc ''tokenMintA'' False False,
      idl_acc ''tokenMintB'' False False, idl_acc ''tokenVaultA'' True False,
      idl_acc ''tokenVaultB'' True False, idl_acc ''tokenDestinationA'' True False,
      idl_acc ''tokenDestinationB'' True False, idl_acc ''tokenProgramA'' False False,
      idl_acc ''tokenProgramB'' False False, idl_acc ''memoProgram'' False False]
     [(''remainingAccountsInfo'', IdlOption (IdlDefined ''RemainingAccountsInfo''))]"

definition idl_collectRewardV2 :: idl_instruction where
  "idl_collectRewardV2 = idl_ix ''collectRewardV2''
     [idl_acc ''whirlpool'' False False, idl_acc ''positionAuthority'' False True,
      idl_acc ''position'' True False, idl_acc ''positionTokenAccount'' False False,
      idl_acc ''rewardOwnerAccount'' True False, idl_acc ''rewardMint'' False False,
      idl_acc ''rewardVault'' True False, idl_acc ''rewardTokenProgram'' False False,
      idl_acc ''memoProgram'' False False]
     [(''rewardIndex'', IdlU8),
      (''remainingAccountsInfo'', IdlOption (IdlDefined ''RemainingAccountsInfo''))]"

definition idl_decreaseLiquidityV2 :: idl_instruction where
  "idl_decreaseLiquidityV2 = idl_ix ''decreaseLiquidityV2''
     [idl_acc ''whirlpool'' True False, idl_acc ''tokenProgramA'' False False,
      idl_acc ''tokenProgramB'' False False, idl_acc ''memoProgram'' False False,
      idl_acc ''positionAuthority'' False True, idl_acc ''position'' True False,
      idl_acc ''positionTokenAccount'' False False, idl_acc ''tokenMintA'' False False,
      idl_acc ''tokenMintB'' False False, idl_acc ''tokenOwnerAccountA'' True False,
      idl_acc ''tokenOwnerAccountB'' True False, idl_acc ''tokenVaultA'' True False,
      idl_acc ''tokenVaultB'' True False, idl_acc ''tickArrayLower'' True False,
      idl_acc ''tickArrayUpper'' True False]
     [(''liquidityAmount'', IdlU128), (''tokenMinA'', IdlU64), (''tokenMinB'', IdlU64),
      (''remainingAccountsInfo'', IdlOption (IdlDefined ''RemainingAccountsInfo''))]"

definition idl_increaseLiquidityV2 :: idl_instruction where
  "idl_increaseLiquidityV2 = idl_ix ''increaseLiquidityV2''
     [idl_acc ''whirlpool'' True False, idl_acc ''tokenProgramA'' False False,
      idl_acc ''tokenProgramB'' False False, idl_acc ''memoProgram'' False False,
      idl_acc ''positionAuthority'' False True, idl_acc ''position'' True False,
      idl_acc ''positionTokenAccount'' False False, idl_acc ''tokenMintA'' False False,
      idl_acc ''tokenMintB'' False False, idl_acc ''tokenOwnerAccountA'' True False,
      idl_acc ''tokenOwnerAccountB'' True False, idl_acc ''tokenVaultA'' True False,
      idl_acc ''tokenVaultB'' True False, idl_acc ''tickArrayLower'' True False,
      idl_acc ''tickArrayUpper'' True False]
     [(''liquidityAmount'', IdlU128), (''tokenMaxA'', IdlU64), (''tokenMaxB'', IdlU64),
      (''remainingAccountsInfo'', IdlOption (IdlDefined ''RemainingAccountsInfo''))]"

definition idl_initializePoolV2 :: idl_instruction where
  "idl_initializePoolV2 = idl_ix ''initializePoolV2''
     [idl_acc ''whirlpoolsConfig'' False False, idl_acc ''tokenMintA'' False False,
      idl_acc ''tokenMintB'' False False, idl_acc ''tokenBadgeA'' False False,
      idl_acc ''tokenBadgeB'' False False, idl_acc ''funder'' True True, idl_acc ''whirlpool'' True False,
      idl_acc ''tokenVaultA'' True True, idl_acc ''tokenVaultB'' True True, idl_acc ''feeTier'' False False,
      idl_acc ''tokenProgramA'' False False, idl_acc ''tokenProgramB'' False False,
      idl_acc ''systemProgram'' False False, idl_acc ''rent'' False False]
     [(''tickSpacing'', IdlU16), (''initialSqrtPrice'', IdlU128)]"

definition idl_initializeRewardV2 :: idl_instruction where
  "idl_initializeRewardV2 = idl_ix ''initializeRewardV2''
     [idl_acc ''rewardAuthority'' False True, idl_acc ''funder'' True True,
      idl_acc ''whirlpool'' True False, idl_acc ''rewardMint'' False False,
      idl_acc ''rewardTokenBadge'' False False, idl_acc ''rewardVault'' True True,
      idl_acc ''rewardTokenProgram'' False False, idl_acc ''systemProgram'' False False,
      idl_acc ''rent'' False False]
     [(''rewardIndex'', IdlU8)]"

definition idl_setRewardEmissionsV2 :: idl_instruction where
  "idl_setRewardEmissionsV2 = idl_ix ''setRewardEmissionsV2''
     [idl_acc ''whirlpool'' True False, idl_acc ''rewardAuthority'' False True,
      idl_acc ''rewardVault'' False False]
     [(''rewardIndex'', IdlU8), (''emissionsPerSecondX64'', IdlU128)]"

definition idl_swapV2 :: idl_instruction where
  "idl_swapV2 = idl_ix ''swapV2''
     [idl_acc ''tokenProgramA'' False False, idl_acc ''tokenProgramB'' False False,
      idl_acc ''memoProgram'' False False, idl_acc ''tokenAuthority'' False True,
      idl_acc ''whirlpool'' True False, idl_acc ''tokenMintA'' False False,
      idl_acc ''tokenMintB'' False False, idl_acc ''tokenOwnerAccountA'' True False,
      idl_acc ''tokenVaultA'' True False, idl_acc ''tokenOwnerAccountB'' True False,
      idl_acc ''tokenVaultB'' True False, idl_acc ''tickArray0'' True False,
      idl_acc ''tickArray1'' True False, idl_acc ''tickArray2'' True False, idl_acc ''oracle'' True False]
     [(''amount'', IdlU64), (''otherAmountThreshold'', IdlU64), (''sqrtPriceLimit'', IdlU128),
      (''amountSpecifiedIsInput'', IdlBool), (''aToB'', IdlBool),
      (''remainingAccountsInfo'', IdlOption (IdlDefined ''RemainingAccountsInfo''))]"

definition idl_twoHopSwapV2 :: idl_instruction where
  "idl_twoHopSwapV2 = idl_ix ''twoHopSwapV2''
     [idl_acc ''whirlpoolOne'' True False, idl_acc ''whirlpoolTwo'' True False,
      idl_acc ''tokenMintInput'' False False, idl_acc ''tokenMintIntermediate'' False False,
      idl_acc ''tokenMintOutput'' False False, idl_acc ''tokenProgramInput'' False False,
      idl_acc ''tokenProgramIntermediate'' False False, idl_acc ''tokenProgramOutput'' False False,
      idl_acc ''tokenOwnerAccountInput'' True False, idl_acc ''tokenVaultOneInput'' True False,
      idl_acc ''tokenVaultOneIntermediate'' True False, idl_acc ''tokenVaultTwoIntermediate'' True False,
      idl_acc ''tokenVaultTwoOutput'' True False, idl_acc ''tokenOwnerAccountOutput'' True False,
      idl_acc ''tokenAuthority'' False True, idl_acc ''tickArrayOne0'' True False,
      idl_acc ''tickArrayOne1'' True False, idl_acc ''tickArrayOne2'' True False,
      idl_acc ''tickArrayTwo0'' True False, idl_acc ''tickArrayTwo1'' True False,
      idl_acc ''tickArrayTwo2'' True False, idl_acc ''oracleOne'' True False,
      idl_acc ''oracleTwo'' True False, idl_acc ''memoProgram'' False False]
     [(''amount'', IdlU64), (''otherAmountThreshold'', IdlU64), (''amountSpecifiedIsInput'', IdlBool),
      (''aToBOne'', IdlBool), (''aToBTwo'', IdlBool), (''sqrtPriceLimitOne'', IdlU128),
      (''sqrtPriceLimitTwo'', IdlU128),
      (''remainingAccountsInfo'', IdlOption (IdlDefined ''RemainingAccountsInfo''))]"

definition idl_initializeConfigExtension :: idl_instruction where
  "idl_initializeConfigExtension = idl_ix ''initializeConfigExtension''
     [idl_acc ''config'' False False, idl_acc ''configExtension'' True False, idl_acc ''funder'' True True,
      idl_acc ''feeAuthority'' False True, idl_acc ''systemProgram'' False False]
     []"

definition idl_setConfigExtensionAuthority :: idl_instruction where
  "idl_setConfigExtensionAuthority = idl_ix ''setConfigExtensionAuthority''
     [idl_acc ''whirlpoolsConfig'' False False, idl_acc ''whirlpoolsConfigExtension'' True False,
      idl_acc ''configExtensionAuthority'' False True, idl_acc ''newConfigExtensionAuthority'' False False]
     []"

definition idl_setTokenBadgeAuthority :: idl_instruction where
  "idl_setTokenBadgeAuthority = idl_ix ''setTokenBadgeAuthority''
     [idl_acc ''whirlpoolsConfig'' False False, idl_acc ''whirlpoolsConfigExtension'' True False,
      idl_acc ''configExtensionAuthority'' False True, idl_acc ''newTokenBadgeAuthority'' False False]
     []"

definition idl_initializeTokenBadge :: idl_instruction where
  "idl_initializeTokenBadge = idl_ix ''initializeTokenBadge''
     [idl_acc ''whirlpoolsConfig'' False False, idl_acc ''whirlpoolsConfigExtension'' False False,
      idl_acc ''tokenBadgeAuthority'' False True, idl_acc ''tokenMint'' False False,
      idl_acc ''tokenBadge'' True False, idl_acc ''funder'' True True, idl_acc ''systemProgram'' False False]
     []"

definition idl_deleteTokenBadge :: idl_instruction where
  "idl_deleteTokenBadge = idl_ix ''deleteTokenBadge''
     [idl_acc ''whirlpoolsConfig'' False False, idl_acc ''whirlpoolsConfigExtension'' False False,
      idl_acc ''tokenBadgeAuthority'' False True, idl_acc ''tokenMint'' False False,
      idl_acc ''tokenBadge'' True False, idl_acc ''receiver'' True False]
     []"

definition IDL_instructions :: "idl_instruction list" where
  "IDL_instructions =
     [idl_initializeConfig, idl_initializePool, idl_initializeTickArray, idl_initializeFeeTier,
      idl_initializeReward, idl_setRewardEmissions, idl_openPosition, idl_openPositionWithMetadata,
      idl_increaseLiquidity, idl_decreaseLiquidity, idl_updateFeesAndRewards, idl_collectFees,
      idl_collectReward, idl_collectProtocolFees, idl_swap, idl_closePosition, idl_setDefaultFeeRate,
      idl_setDefaultProtocolFeeRate, idl_setFeeRate, idl_setProtocolFeeRate, idl_setFeeAuthority,
      idl_setCollectProtocolFeesAuthority, idl_setRewardAuthority, idl_setRewardAuthorityBySuperAuthority,
      idl_setRewardEmissionsSuperAuthority, idl_twoHopSwap, idl_initializePositionBundle,
      idl_initializePositionBundleWithMetadata, idl_deletePositionBundle, idl_openBundledPosition,
      idl_closeBundledPosition, idl_collectFeesV2, idl_collectProtocolFeesV2, idl_collectRewardV2,
      idl_decreaseLiquidityV2, idl_increaseLiquidityV2, idl_initializePoolV2, idl_initializeRewardV2,
      idl_setRewardEmissionsV2, idl_swapV2, idl_twoHopSwapV2, idl_initializeConfigExtension,
      idl_setConfigExtensionAuthority, idl_setTokenBadgeAuthority, idl_initializeTokenBadge,
      idl_deleteTokenBadge]"

end
