(* ===== verification/Instructions.thy ===== *)
theory Instructions
  imports Ix_Core
begin

text \<open>
  The instruction builders of the first version (\<^verbatim>\<open>sdk/src/instructions/*.ts\<close>,
  \<^verbatim>\<open>utils/instructions-util.ts\<close>): the parameters of each as a record, an intersection with an
  input type as a field, and the builder. The addresses the packages export come from \<open>program_env\<close>.
\<close>

record CloseBundledPositionParams =
  cbp_bundledPosition :: pubkey
  cbp_positionBundle :: pubkey
  cbp_positionBundleTokenAccount :: pubkey
  cbp_positionBundleAuthority :: pubkey
  cbp_bundleIndex :: int
  cbp_receiver :: pubkey

definition closeBundledPositionIx :: "program_env \<Rightarrow> CloseBundledPositionParams \<Rightarrow> Instruction" where
  "closeBundledPositionIx program params =
     (let ix = call_ix ''closeBundledPosition''
         [V_int (cbp_bundleIndex params)]
         [(''bundledPosition'', Some (cbp_bundledPosition params)),
          (''positionBundle'', Some (cbp_positionBundle params)),
          (''positionBundleTokenAccount'', Some (cbp_positionBundleTokenAccount params)),
          (''positionBundleAuthority'', Some (cbp_positionBundleAuthority params)),
          (''receiver'', Some (cbp_receiver params))] None in
      \<lparr>in_instructions = [Call ix], in_cleanupInstructions = [], in_signers = []\<rparr>)"

record ClosePositionParams =
  cp_receiver :: pubkey
  cp_position :: pubkey
  cp_positionMint :: pubkey
  cp_positionTokenAccount :: pubkey
  cp_positionAuthority :: pubkey

definition closePositionIx :: "program_env \<Rightarrow> ClosePositionParams \<Rightarrow> Instruction" where
  "closePositionIx program params =
     (let ix = call_ix ''closePosition''
         []
         [(''positionAuthority'', Some (cp_positionAuthority params)),
          (''receiver'', Some (cp_receiver params)), (''position'', Some (cp_position params)),
          (''positionMint'', Some (cp_positionMint params)),
          (''positionTokenAccount'', Some (cp_positionTokenAccount params)),
          (''tokenProgram'', Some (pg_tokenProgram program))] None in
      \<lparr>in_instructions = [Call ix], in_cleanupInstructions = [], in_signers = []\<rparr>)"

record CollectFeesParams =
  cf_whirlpool :: pubkey
  cf_position :: pubkey
  cf_positionTokenAccount :: pubkey
  cf_tokenOwnerAccountA :: pubkey
  cf_tokenOwnerAccountB :: pubkey
  cf_tokenVaultA :: pubkey
  cf_tokenVaultB :: pubkey
  cf_positionAuthority :: pubkey

definition collectFeesIx :: "program_env \<Rightarrow> CollectFeesParams \<Rightarrow> Instruction" where
  "collectFeesIx program params =
     (let ix = call_ix ''collectFees''
         []
         [(''whirlpool'', Some (cf_whirlpool params)),
          (''positionAuthority'', Some (cf_positionAuthority params)),
          (''position'', Some (cf_position params)),
          (''positionTokenAccount'', Some (cf_positionTokenAccount params)),
          (''tokenOwnerAccountA'', Some (cf_tokenOwnerAccountA params)),
          (''tokenOwnerAccountB'', Some (cf_tokenOwnerAccountB params)),
          (''tokenVaultA'', Some (cf_tokenVaultA params)), (''tokenVaultB'', Some (cf_tokenVaultB params)),
          (''tokenProgram'', Some (pg_tokenProgram program))] None in
      \<lparr>in_instructions = [Call ix], in_cleanupInstructions = [], in_signers = []\<rparr>)"

record CollectProtocolFeesParams =
  cpf_whirlpoolsConfig :: pubkey
  cpf_whirlpool :: pubkey
  cpf_tokenVaultA :: pubkey
  cpf_tokenVaultB :: pubkey
  cpf_tokenOwnerAccountA :: pubkey
  cpf_tokenOwnerAccountB :: pubkey
  cpf_collectProtocolFeesAuthority :: pubkey

definition collectProtocolFeesIx :: "program_env \<Rightarrow> CollectProtocolFeesParams \<Rightarrow> Instruction" where
  "collectProtocolFeesIx program params =
     (let ix = call_ix ''collectProtocolFees''
         []
         [(''whirlpoolsConfig'', Some (cpf_whirlpoolsConfig params)),
          (''whirlpool'', Some (cpf_whirlpool params)),
          (''collectProtocolFeesAuthority'', Some (cpf_collectProtocolFeesAuthority params)),
          (''tokenVaultA'', Some (cpf_tokenVaultA params)), (''tokenVaultB'', Some (cpf_tokenVaultB params)),
          (''tokenDestinationA'', Some (cpf_tokenOwnerAccountA params)),
          (''tokenDestinationB'', Some (cpf_tokenOwnerAccountB params)),
          (''tokenProgram'', Some (pg_tokenProgram program))] None in
      \<lparr>in_instructions = [Call ix], in_cleanupInstructions = [], in_signers = []\<rparr>)"

record CollectRewardParams =
  clr_whirlpool :: pubkey
  clr_position :: pubkey
  clr_positionTokenAccount :: pubkey
  clr_rewardIndex :: int
  clr_rewardOwnerAccount :: pubkey
  clr_rewardVault :: pubkey
  clr_positionAuthority :: pubkey

definition collectRewardIx :: "program_env \<Rightarrow> CollectRewardParams \<Rightarrow> Instruction" where
  "collectRewardIx program params =
     (let ix = call_ix ''collectReward''
         [V_int (clr_rewardIndex params)]
         [(''whirlpool'', Some (clr_whirlpool params)),
          (''positionAuthority'', Some (clr_positionAuthority params)),
          (''position'', Some (clr_position params)),
          (''positionTokenAccount'', Some (clr_positionTokenAccount params)),
          (''rewardOwnerAccount'', Some (clr_rewardOwnerAccount params)),
          (''rewardVault'', Some (clr_rewardVault params)), (''tokenProgram'', Some (pg_tokenProgram program))] None in
      \<lparr>in_instructions = [Call ix], in_cleanupInstructions = [], in_signers = []\<rparr>)"

record DecreaseLiquidityInput =
  dli_tokenMinA :: int
  dli_tokenMinB :: int
  dli_liquidityAmount :: int

record DecreaseLiquidityParams =
  dl_input :: DecreaseLiquidityInput
  dl_whirlpool :: pubkey
  dl_position :: pubkey
  dl_positionTokenAccount :: pubkey
  dl_tokenOwnerAccountA :: pubkey
  dl_tokenOwnerAccountB :: pubkey
  dl_tokenVaultA :: pubkey
  dl_tokenVaultB :: pubkey
  dl_tickArrayLower :: pubkey
  dl_tickArrayUpper :: pubkey
  dl_positionAuthority :: pubkey

definition decreaseLiquidityIx :: "program_env \<Rightarrow> DecreaseLiquidityParams \<Rightarrow> Instruction" where
  "decreaseLiquidityIx program params =
     (let ix = call_ix ''decreaseLiquidity''
         [V_int (dli_liquidityAmount (dl_input params)), V_int (dli_tokenMinA (dl_input params)),
          V_int (dli_tokenMinB (dl_input params))]
         [(''whirlpool'', Some (dl_whirlpool params)), (''tokenProgram'', Some (pg_tokenProgram program)),
          (''positionAuthority'', Some (dl_positionAuthority params)),
          (''position'', Some (dl_position params)),
          (''positionTokenAccount'', Some (dl_positionTokenAccount params)),
          (''tokenOwnerAccountA'', Some (dl_tokenOwnerAccountA params)),
          (''tokenOwnerAccountB'', Some (dl_tokenOwnerAccountB params)),
          (''tokenVaultA'', Some (dl_tokenVaultA params)), (''tokenVaultB'', Some (dl_tokenVaultB params)),
          (''tickArrayLower'', Some (dl_tickArrayLower params)),
          (''tickArrayUpper'', Some (dl_tickArrayUpper params))] None in
      \<lparr>in_instructions = [Call ix], in_cleanupInstructions = [], in_signers = []\<rparr>)"

record DeletePositionBundleParams =
  dpb_owner :: pubkey
  dpb_positionBundle :: pubkey
  dpb_positionBundleMint :: pubkey
  dpb_positionBundleTokenAccount :: pubkey
  dpb_receiver :: pubkey

definition deletePositionBundleIx :: "program_env \<Rightarrow> DeletePositionBundleParams \<Rightarrow> Instruction" where
  "deletePositionBundleIx program params =
     (let ix = call_ix ''deletePositionBundle''
         []
         [(''positionBundle'', Some (dpb_positionBundle params)),
          (''positionBundleMint'', Some (dpb_positionBundleMint params)),
          (''positionBundleTokenAccount'', Some (dpb_positionBundleTokenAccount params)),
          (''positionBundleOwner'', Some (dpb_owner params)), (''receiver'', Some (dpb_receiver params)),
          (''tokenProgram'', Some (pg_tokenProgram program))] None in
      \<lparr>in_instructions = [Call ix], in_cleanupInstructions = [], in_signers = []\<rparr>)"

record IncreaseLiquidityInput =
  ili_tokenMaxA :: int
  ili_tokenMaxB :: int
  ili_liquidityAmount :: int

record IncreaseLiquidityParams =
  il_input :: IncreaseLiquidityInput
  il_whirlpool :: pubkey
  il_position :: pubkey
  il_positionTokenAccount :: pubkey
  il_tokenOwnerAccountA :: pubkey
  il_tokenOwnerAccountB :: pubkey
  il_tokenVaultA :: pubkey
  il_tokenVaultB :: pubkey
  il_tickArrayLower :: pubkey
  il_tickArrayUpper :: pubkey
  il_positionAuthority :: pubkey

definition increaseLiquidityIx :: "program_env \<Rightarrow> IncreaseLiquidityParams \<Rightarrow> Instruction" where
  "increaseLiquidityIx program params =
     (let ix = call_ix ''increaseLiquidity''
         [V_int (ili_liquidityAmount (il_input params)), V_int (ili_tokenMaxA (il_input params)),
          V_int (ili_tokenMaxB (il_input params))]
         [(''whirlpool'', Some (il_whirlpool params)), (''tokenProgram'', Some (pg_tokenProgram program)),
          (''positionAuthority'', Some (il_positionAuthority params)),
          (''position'', Some (il_position params)),
          (''positionTokenAccount'', Some (il_positionTokenAccount params)),
          (''tokenOwnerAccountA'', Some (il_tokenOwnerAccountA params)),
          (''tokenOwnerAccountB'', Some (il_tokenOwnerAccountB params)),
          (''tokenVaultA'', Some (il_tokenVaultA params)), (''tokenVaultB'', Some (il_tokenVaultB params)),
          (''tickArrayLower'', Some (il_tickArrayLower params)),
          (''tickArrayUpper'', Some (il_tickArrayUpper params))] None in
      \<lparr>in_instructions = [Call ix], in_cleanupInstructions = [], in_signers = []\<rparr>)"

record InitConfigParams =
  inc_whirlpoolsConfigKeypair :: Keypair
  inc_feeAuthority :: pubkey
  inc_collectProtocolFeesAuthority :: pubkey
  inc_rewardEmissionsSuperAuthority :: pubkey
  inc_defaultProtocolFeeRate :: int
  inc_funder :: pubkey

definition initializeConfigIx :: "program_env \<Rightarrow> InitConfigParams \<Rightarrow> Instruction" where
  "initializeConfigIx program params =
     (let ix = call_ix ''initializeConfig''
         [V_key (inc_feeAuthority params), V_key (inc_collectProtocolFeesAuthority params),
          V_key (inc_rewardEmissionsSuperAuthority params), V_int (inc_defaultProtocolFeeRate params)]
         [(''config'', Some (keypair_publicKey (inc_whirlpoolsConfigKeypair params))),
          (''funder'', Some (inc_funder params)), (''systemProgram'', Some (pg_systemProgram program))] None in
      \<lparr>in_instructions = [Call ix], in_cleanupInstructions = [], in_signers = [inc_whirlpoolsConfigKeypair params]\<rparr>)"

record InitFeeTierParams =
  ift_whirlpoolsConfig :: pubkey
  ift_feeTierPda :: PDA
  ift_tickSpacing :: int
  ift_defaultFeeRate :: int
  ift_feeAuthority :: pubkey
  ift_funder :: pubkey

definition initializeFeeTierIx :: "program_env \<Rightarrow> InitFeeTierParams \<Rightarrow> Instruction" where
  "initializeFeeTierIx program params =
     (let ix = call_ix ''initializeFeeTier''
         [V_int (ift_tickSpacing params), V_int (ift_defaultFeeRate params)]
         [(''config'', Some (ift_whirlpoolsConfig params)),
          (''feeTier'', Some (publicKey (ift_feeTierPda params))),
          (''feeAuthority'', Some (ift_feeAuthority params)), (''funder'', Some (ift_funder params)),
          (''systemProgram'', Some (pg_systemProgram program))] None in
      \<lparr>in_instructions = [Call ix], in_cleanupInstructions = [], in_signers = []\<rparr>)"

record InitPoolParams =
  inp_initSqrtPrice :: int
  inp_whirlpoolsConfig :: pubkey
  inp_whirlpoolPda :: PDA
  inp_tokenMintA :: pubkey
  inp_tokenMintB :: pubkey
  inp_tokenVaultAKeypair :: Keypair
  inp_tokenVaultBKeypair :: Keypair
  inp_feeTierKey :: pubkey
  inp_tickSpacing :: int
  inp_funder :: pubkey

definition initializePoolIx :: "program_env \<Rightarrow> InitPoolParams \<Rightarrow> Instruction" where
  "initializePoolIx program params =
     (let ix = call_ix ''initializePool''
         [V_struct [(''whirlpoolBump'', V_int (bump (inp_whirlpoolPda params)))],
          V_int (inp_tickSpacing params), V_int (inp_initSqrtPrice params)]
         [(''whirlpoolsConfig'', Some (inp_whirlpoolsConfig params)),
          (''tokenMintA'', Some (inp_tokenMintA params)), (''tokenMintB'', Some (inp_tokenMintB params)),
          (''funder'', Some (inp_funder params)), (''whirlpool'', Some (publicKey (inp_whirlpoolPda params))),
          (''tokenVaultA'', Some (keypair_publicKey (inp_tokenVaultAKeypair params))),
          (''tokenVaultB'', Some (keypair_publicKey (inp_tokenVaultBKeypair params))),
          (''feeTier'', Some (inp_feeTierKey params)), (''tokenProgram'', Some (pg_tokenProgram program)),
          (''systemProgram'', Some (pg_systemProgram program)), (''rent'', Some (pg_rent program))] None in
      \<lparr>in_instructions = [Call ix], in_cleanupInstructions = [], in_signers = [inp_tokenVaultAKeypair params, inp_tokenVaultBKeypair params]\<rparr>)"

record InitializePositionBundleParams =
  ipb_owner :: pubkey
  ipb_positionBundlePda :: PDA
  ipb_positionBundleMintKeypair :: Keypair
  ipb_positionBundleTokenAccount :: pubkey
  ipb_funder :: pubkey

definition initializePositionBundleIx :: "program_env \<Rightarrow> InitializePositionBundleParams \<Rightarrow> Instruction" where
  "initializePositionBundleIx program params =
     (let ix = call_ix ''initializePositionBundle''
         []
         [(''positionBundle'', Some (publicKey (ipb_positionBundlePda params))),
          (''positionBundleMint'', Some (keypair_publicKey (ipb_positionBundleMintKeypair params))),
          (''positionBundleTokenAccount'', Some (ipb_positionBundleTokenAccount params)),
          (''positionBundleOwner'', Some (ipb_owner params)), (''funder'', Some (ipb_funder params)),
          (''associatedTokenProgram'', Some (pg_associatedTokenProgram program)),
          (''tokenProgram'', Some (pg_tokenProgram program)),
          (''systemProgram'', Some (pg_systemProgram program)), (''rent'', Some (pg_rent program))] None in
      \<lparr>in_instructions = [Call ix], in_cleanupInstructions = [], in_signers = [ipb_positionBundleMintKeypair params]\<rparr>)"

definition initializePositionBundleWithMetadataIx :: "program_env \<Rightarrow> InitializePositionBundleParams \<Rightarrow> PDA \<Rightarrow> Instruction" where
  "initializePositionBundleWithMetadataIx program params positionBundleMetadataPda =
     (let ix = call_ix ''initializePositionBundleWithMetadata''
         []
         [(''positionBundle'', Some (publicKey (ipb_positionBundlePda params))),
          (''positionBundleMint'', Some (keypair_publicKey (ipb_positionBundleMintKeypair params))),
          (''positionBundleMetadata'', Some (publicKey positionBundleMetadataPda)),
          (''positionBundleTokenAccount'', Some (ipb_positionBundleTokenAccount params)),
          (''positionBundleOwner'', Some (ipb_owner params)), (''funder'', Some (ipb_funder params)),
          (''associatedTokenProgram'', Some (pg_associatedTokenProgram program)),
          (''tokenProgram'', Some (pg_tokenProgram program)),
          (''systemProgram'', Some (pg_systemProgram program)), (''rent'', Some (pg_rent program)),
          (''metadataProgram'', Some METADATA_PROGRAM_ADDRESS),
          (''metadataUpdateAuth'', Some WHIRLPOOL_NFT_UPDATE_AUTH)] None in
      \<lparr>in_instructions = [Call ix], in_cleanupInstructions = [], in_signers = [ipb_positionBundleMintKeypair params]\<rparr>)"

record InitializeRewardParams =
  inr_whirlpool :: pubkey
  inr_rewardIndex :: int
  inr_rewardMint :: pubkey
  inr_rewardVaultKeypair :: Keypair
  inr_rewardAuthority :: pubkey
  inr_funder :: pubkey

definition initializeRewardIx :: "program_env \<Rightarrow> InitializeRewardParams \<Rightarrow> Instruction" where
  "initializeRewardIx program params =
     (let ix = call_ix ''initializeReward''
         [V_int (inr_rewardIndex params)]
         [(''rewardAuthority'', Some (inr_rewardAuthority params)), (''funder'', Some (inr_funder params)),
          (''whirlpool'', Some (inr_whirlpool params)), (''rewardMint'', Some (inr_rewardMint params)),
          (''rewardVault'', Some (keypair_publicKey (inr_rewardVaultKeypair params))),
          (''tokenProgram'', Some (pg_tokenProgram program)),
          (''systemProgram'', Some (pg_systemProgram program)), (''rent'', Some (pg_rent program))] None in
      \<lparr>in_instructions = [Call ix], in_cleanupInstructions = [], in_signers = [inr_rewardVaultKeypair params]\<rparr>)"

record InitTickArrayParams =
  ita_whirlpool :: pubkey
  ita_tickArrayPda :: PDA
  ita_startTick :: int
  ita_funder :: pubkey

definition initTickArrayIx :: "program_env \<Rightarrow> InitTickArrayParams \<Rightarrow> Instruction" where
  "initTickArrayIx program params =
     (let ix = call_ix ''initializeTickArray''
         [V_int (ita_startTick params)]
         [(''whirlpool'', Some (ita_whirlpool params)), (''funder'', Some (ita_funder params)),
          (''tickArray'', Some (publicKey (ita_tickArrayPda params))),
          (''systemProgram'', Some (pg_systemProgram program))] None in
      \<lparr>in_instructions = [Call ix], in_cleanupInstructions = [], in_signers = []\<rparr>)"

record OpenBundledPositionParams =
  obp_whirlpool :: pubkey
  obp_bundledPositionPda :: PDA
  obp_positionBundle :: pubkey
  obp_positionBundleTokenAccount :: pubkey
  obp_positionBundleAuthority :: pubkey
  obp_bundleIndex :: int
  obp_tickLowerIndex :: int
  obp_tickUpperIndex :: int
  obp_funder :: pubkey

definition openBundledPositionIx :: "program_env \<Rightarrow> OpenBundledPositionParams \<Rightarrow> Instruction" where
  "openBundledPositionIx program params =
     (let ix = call_ix ''openBundledPosition''
         [V_int (obp_bundleIndex params), V_int (obp_tickLowerIndex params), V_int (obp_tickUpperIndex params)]
         [(''bundledPosition'', Some (publicKey (obp_bundledPositionPda params))),
          (''positionBundle'', Some (obp_positionBundle params)),
          (''positionBundleTokenAccount'', Some (obp_positionBundleTokenAccount params)),
          (''positionBundleAuthority'', Some (obp_positionBundleAuthority params)),
          (''whirlpool'', Some (obp_whirlpool params)), (''funder'', Some (obp_funder params)),
          (''systemProgram'', Some (pg_systemProgram program)), (''rent'', Some (pg_rent program))] None in
      \<lparr>in_instructions = [Call ix], in_cleanupInstructions = [], in_signers = []\<rparr>)"

record OpenPositionParams =
  opp_whirlpool :: pubkey
  opp_owner :: pubkey
  opp_positionPda :: PDA
  opp_positionMintAddress :: pubkey
  opp_positionTokenAccount :: pubkey
  opp_tickLowerIndex :: int
  opp_tickUpperIndex :: int
  opp_funder :: pubkey

text \<open>The accounts both ways of opening a position share.\<close>

definition openPositionAccounts :: "program_env \<Rightarrow> OpenPositionParams \<Rightarrow> (string \<times> pubkey option) list" where
  "openPositionAccounts program params =
     [(''funder'', Some (opp_funder params)), (''owner'', Some (opp_owner params)),
      (''position'', Some (publicKey (opp_positionPda params))),
      (''positionMint'', Some (opp_positionMintAddress params)),
      (''positionTokenAccount'', Some (opp_positionTokenAccount params)),
      (''whirlpool'', Some (opp_whirlpool params)), (''tokenProgram'', Some (pg_tokenProgram program)),
      (''systemProgram'', Some (pg_systemProgram program)), (''rent'', Some (pg_rent program)),
      (''associatedTokenProgram'', Some (pg_associatedTokenProgram program))]"

definition openPositionIx :: "program_env \<Rightarrow> OpenPositionParams \<Rightarrow> Instruction" where
  "openPositionIx program params =
     (let ix = call_ix ''openPosition''
         [V_struct [(''positionBump'', V_int (bump (opp_positionPda params)))],
          V_int (opp_tickLowerIndex params), V_int (opp_tickUpperIndex params)]
         (openPositionAccounts program params) None in
      \<lparr>in_instructions = [Call ix], in_cleanupInstructions = [], in_signers = []\<rparr>)"

definition openPositionWithMetadataIx :: "program_env \<Rightarrow> OpenPositionParams \<Rightarrow> PDA \<Rightarrow> Instruction" where
  "openPositionWithMetadataIx program params metadataPda =
     (let ix = call_ix ''openPositionWithMetadata''
         [V_struct [(''positionBump'', V_int (bump (opp_positionPda params))), (''metadataBump'', V_int (bump metadataPda))],
          V_int (opp_tickLowerIndex params), V_int (opp_tickUpperIndex params)]
         (openPositionAccounts program params @
         [(''positionMetadataAccount'', Some (publicKey metadataPda)),
          (''metadataProgram'', Some METADATA_PROGRAM_ADDRESS),
          (''metadataUpdateAuth'', Some WHIRLPOOL_NFT_UPDATE_AUTH)]) None in
      \<lparr>in_instructions = [Call ix], in_cleanupInstructions = [], in_signers = []\<rparr>)"

record SetCollectProtocolFeesAuthorityParams =
  scpfa_whirlpoolsConfig :: pubkey
  scpfa_collectProtocolFeesAuthority :: pubkey
  scpfa_newCollectProtocolFeesAuthority :: pubkey

definition setCollectProtocolFeesAuthorityIx :: "program_env \<Rightarrow> SetCollectProtocolFeesAuthorityParams \<Rightarrow> Instruction" where
  "setCollectProtocolFeesAuthorityIx program params =
     (let ix = call_ix ''setCollectProtocolFeesAuthority''
         []
         [(''whirlpoolsConfig'', Some (scpfa_whirlpoolsConfig params)),
          (''collectProtocolFeesAuthority'', Some (scpfa_collectProtocolFeesAuthority params)),
          (''newCollectProtocolFeesAuthority'', Some (scpfa_newCollectProtocolFeesAuthority params))] None in
      \<lparr>in_instructions = [Call ix], in_cleanupInstructions = [], in_signers = []\<rparr>)"

record SetDefaultFeeRateParams =
  sdfr_whirlpoolsConfig :: pubkey
  sdfr_feeAuthority :: pubkey
  sdfr_tickSpacing :: int
  sdfr_defaultFeeRate :: int

definition setDefaultFeeRateIx :: "program_env \<Rightarrow> SetDefaultFeeRateParams \<Rightarrow> Instruction res" where
  "setDefaultFeeRateIx program params =
     bindE (getFeeTier (pg_findProgramAddress program) (pg_programId program) (sdfr_whirlpoolsConfig params) (sdfr_tickSpacing params)) (\<lambda>feeTierPda.
     let ix = call_ix ''setDefaultFeeRate''
         [V_int (sdfr_defaultFeeRate params)]
         [(''whirlpoolsConfig'', Some (sdfr_whirlpoolsConfig params)),
          (''feeTier'', Some (publicKey feeTierPda)), (''feeAuthority'', Some (sdfr_feeAuthority params))] None in
     Inr \<lparr>in_instructions = [Call ix], in_cleanupInstructions = [], in_signers = []\<rparr>)"

record SetDefaultProtocolFeeRateParams =
  sdpfr_whirlpoolsConfig :: pubkey
  sdpfr_feeAuthority :: pubkey
  sdpfr_defaultProtocolFeeRate :: int

definition setDefaultProtocolFeeRateIx :: "program_env \<Rightarrow> SetDefaultProtocolFeeRateParams \<Rightarrow> Instruction" where
  "setDefaultProtocolFeeRateIx program params =
     (let ix = call_ix ''setDefaultProtocolFeeRate''
         [V_int (sdpfr_defaultProtocolFeeRate params)]
         [(''whirlpoolsConfig'', Some (sdpfr_whirlpoolsConfig params)),
          (''feeAuthority'', Some (sdpfr_feeAuthority params))] None in
      \<lparr>in_instructions = [Call ix], in_cleanupInstructions = [], in_signers = []\<rparr>)"

record SetFeeAuthorityParams =
  sfa_whirlpoolsConfig :: pubkey
  sfa_feeAuthority :: pubkey
  sfa_newFeeAuthority :: pubkey

definition setFeeAuthorityIx :: "program_env \<Rightarrow> SetFeeAuthorityParams \<Rightarrow> Instruction" where
  "setFeeAuthorityIx program params =
     (let ix = call_ix ''setFeeAuthority''
         []
         [(''whirlpoolsConfig'', Some (sfa_whirlpoolsConfig params)),
          (''feeAuthority'', Some (sfa_feeAuthority params)),
          (''newFeeAuthority'', Some (sfa_newFeeAuthority params))] None in
      \<lparr>in_instructions = [Call ix], in_cleanupInstructions = [], in_signers = []\<rparr>)"

record SetFeeRateParams =
  sfr_whirlpool :: pubkey
  sfr_whirlpoolsConfig :: pubkey
  sfr_feeAuthority :: pubkey
  sfr_feeRate :: int

definition setFeeRateIx :: "program_env \<Rightarrow> SetFeeRateParams \<Rightarrow> Instruction" where
  "setFeeRateIx program params =
     (let ix = call_ix ''setFeeRate''
         [V_int (sfr_feeRate params)]
         [(''whirlpoolsConfig'', Some (sfr_whirlpoolsConfig params)),
          (''whirlpool'', Some (sfr_whirlpool params)), (''feeAuthority'', Some (sfr_feeAuthority params))] None in
      \<lparr>in_instructions = [Call ix], in_cleanupInstructions = [], in_signers = []\<rparr>)"

record SetProtocolFeeRateParams =
  spfr_whirlpool :: pubkey
  spfr_whirlpoolsConfig :: pubkey
  spfr_feeAuthority :: pubkey
  spfr_protocolFeeRate :: int

definition setProtocolFeeRateIx :: "program_env \<Rightarrow> SetProtocolFeeRateParams \<Rightarrow> Instruction" where
  "setProtocolFeeRateIx program params =
     (let ix = call_ix ''setProtocolFeeRate''
         [V_int (spfr_protocolFeeRate params)]
         [(''whirlpoolsConfig'', Some (spfr_whirlpoolsConfig params)),
          (''whirlpool'', Some (spfr_whirlpool params)), (''feeAuthority'', Some (spfr_feeAuthority params))] None in
      \<lparr>in_instructions = [Call ix], in_cleanupInstructions = [], in_signers = []\<rparr>)"

record SetRewardAuthorityBySuperAuthorityParams =
  srabsa_whirlpool :: pubkey
  srabsa_whirlpoolsConfig :: pubkey
  srabsa_rewardIndex :: int
  srabsa_rewardEmissionsSuperAuthority :: pubkey
  srabsa_newRewardAuthority :: pubkey

definition setRewardAuthorityBySuperAuthorityIx :: "program_env \<Rightarrow> SetRewardAuthorityBySuperAuthorityParams \<Rightarrow> Instruction" where
  "setRewardAuthorityBySuperAuthorityIx program params =
     (let ix = call_ix ''setRewardAuthorityBySuperAuthority''
         [V_int (srabsa_rewardIndex params)]
         [(''whirlpoolsConfig'', Some (srabsa_whirlpoolsConfig params)),
          (''whirlpool'', Some (srabsa_whirlpool params)),
          (''rewardEmissionsSuperAuthority'', Some (srabsa_rewardEmissionsSuperAuthority params)),
          (''newRewardAuthority'', Some (srabsa_newRewardAuthority params))] None in
      \<lparr>in_instructions = [Call ix], in_cleanupInstructions = [], in_signers = []\<rparr>)"

record SetRewardAuthorityParams =
  sra_whirlpool :: pubkey
  sra_rewardIndex :: int
  sra_rewardAuthority :: pubkey
  sra_newRewardAuthority :: pubkey

definition setRewardAuthorityIx :: "program_env \<Rightarrow> SetRewardAuthorityParams \<Rightarrow> Instruction" where
  "setRewardAuthorityIx program params =
     (let ix = call_ix ''setRewardAuthority''
         [V_int (sra_rewardIndex params)]
         [(''whirlpool'', Some (sra_whirlpool params)),
          (''rewardAuthority'', Some (sra_rewardAuthority params)),
          (''newRewardAuthority'', Some (sra_newRewardAuthority params))] None in
      \<lparr>in_instructions = [Call ix], in_cleanupInstructions = [], in_signers = []\<rparr>)"

record SetRewardEmissionsParams =
  sre_whirlpool :: pubkey
  sre_rewardIndex :: int
  sre_rewardVaultKey :: pubkey
  sre_rewardAuthority :: pubkey
  sre_emissionsPerSecondX64 :: int

definition setRewardEmissionsIx :: "program_env \<Rightarrow> SetRewardEmissionsParams \<Rightarrow> Instruction" where
  "setRewardEmissionsIx program params =
     (let ix = call_ix ''setRewardEmissions''
         [V_int (sre_rewardIndex params), V_int (sre_emissionsPerSecondX64 params)]
         [(''rewardAuthority'', Some (sre_rewardAuthority params)),
          (''whirlpool'', Some (sre_whirlpool params)), (''rewardVault'', Some (sre_rewardVaultKey params))] None in
      \<lparr>in_instructions = [Call ix], in_cleanupInstructions = [], in_signers = []\<rparr>)"

record SetRewardEmissionsSuperAuthorityParams =
  sresa_whirlpoolsConfig :: pubkey
  sresa_rewardEmissionsSuperAuthority :: pubkey
  sresa_newRewardEmissionsSuperAuthority :: pubkey

definition setRewardEmissionsSuperAuthorityIx :: "program_env \<Rightarrow> SetRewardEmissionsSuperAuthorityParams \<Rightarrow> Instruction" where
  "setRewardEmissionsSuperAuthorityIx program params =
     (let ix = call_ix ''setRewardEmissionsSuperAuthority''
         []
         [(''whirlpoolsConfig'', Some (sresa_whirlpoolsConfig params)),
          (''rewardEmissionsSuperAuthority'', Some (sresa_rewardEmissionsSuperAuthority params)),
          (''newRewardEmissionsSuperAuthority'', Some (sresa_newRewardEmissionsSuperAuthority params))] None in
      \<lparr>in_instructions = [Call ix], in_cleanupInstructions = [], in_signers = []\<rparr>)"

record DevFeeSwapInput = SwapInput +
  dfi_devFeeAmount :: int

definition swapIx :: "program_env \<Rightarrow> SwapParams \<Rightarrow> Instruction" where
  "swapIx program params =
     (let ix = call_ix ''swap''
         [V_int (si_amount (sp_input params)), V_int (si_otherAmountThreshold (sp_input params)),
          V_int (si_sqrtPriceLimit (sp_input params)), V_bool (si_amountSpecifiedIsInput (sp_input params)),
          V_bool (si_aToB (sp_input params))]
         [(''tokenProgram'', Some (pg_tokenProgram program)),
          (''tokenAuthority'', Some (sp_tokenAuthority params)), (''whirlpool'', Some (sp_whirlpool params)),
          (''tokenOwnerAccountA'', Some (sp_tokenOwnerAccountA params)),
          (''tokenVaultA'', Some (sp_tokenVaultA params)),
          (''tokenOwnerAccountB'', Some (sp_tokenOwnerAccountB params)),
          (''tokenVaultB'', Some (sp_tokenVaultB params)), (''tickArray0'', si_tickArray0 (sp_input params)),
          (''tickArray1'', si_tickArray1 (sp_input params)), (''tickArray2'', si_tickArray2 (sp_input params)),
          (''oracle'', Some (sp_oracle params))] None in
      \<lparr>in_instructions = [Call ix], in_cleanupInstructions = [], in_signers = []\<rparr>)"

record TwoHopSwapInput =
  thsi_amount :: int
  thsi_otherAmountThreshold :: int
  thsi_amountSpecifiedIsInput :: bool
  thsi_aToBOne :: bool
  thsi_aToBTwo :: bool
  thsi_sqrtPriceLimitOne :: int
  thsi_sqrtPriceLimitTwo :: int
  thsi_tickArrayOne0 :: "pubkey option"
  thsi_tickArrayOne1 :: "pubkey option"
  thsi_tickArrayOne2 :: "pubkey option"
  thsi_tickArrayTwo0 :: "pubkey option"
  thsi_tickArrayTwo1 :: "pubkey option"
  thsi_tickArrayTwo2 :: "pubkey option"

record TwoHopSwapParams =
  ths_input :: TwoHopSwapInput
  ths_whirlpoolOne :: pubkey
  ths_whirlpoolTwo :: pubkey
  ths_tokenOwnerAccountOneA :: pubkey
  ths_tokenOwnerAccountOneB :: pubkey
  ths_tokenOwnerAccountTwoA :: pubkey
  ths_tokenOwnerAccountTwoB :: pubkey
  ths_tokenVaultOneA :: pubkey
  ths_tokenVaultOneB :: pubkey
  ths_tokenVaultTwoA :: pubkey
  ths_tokenVaultTwoB :: pubkey
  ths_oracleOne :: pubkey
  ths_oracleTwo :: pubkey
  ths_tokenAuthority :: pubkey

definition twoHopSwapIx :: "program_env \<Rightarrow> TwoHopSwapParams \<Rightarrow> Instruction" where
  "twoHopSwapIx program params =
     (let ix = call_ix ''twoHopSwap''
         [V_int (thsi_amount (ths_input params)), V_int (thsi_otherAmountThreshold (ths_input params)),
          V_bool (thsi_amountSpecifiedIsInput (ths_input params)), V_bool (thsi_aToBOne (ths_input params)),
          V_bool (thsi_aToBTwo (ths_input params)), V_int (thsi_sqrtPriceLimitOne (ths_input params)),
          V_int (thsi_sqrtPriceLimitTwo (ths_input params))]
         [(''tokenProgram'', Some (pg_tokenProgram program)),
          (''tokenAuthority'', Some (ths_tokenAuthority params)),
          (''whirlpoolOne'', Some (ths_whirlpoolOne params)),
          (''whirlpoolTwo'', Some (ths_whirlpoolTwo params)),
          (''tokenOwnerAccountOneA'', Some (ths_tokenOwnerAccountOneA params)),
          (''tokenVaultOneA'', Some (ths_tokenVaultOneA params)),
          (''tokenOwnerAccountOneB'', Some (ths_tokenOwnerAccountOneB params)),
          (''tokenVaultOneB'', Some (ths_tokenVaultOneB params)),
          (''tokenOwnerAccountTwoA'', Some (ths_tokenOwnerAccountTwoA params)),
          (''tokenVaultTwoA'', Some (ths_tokenVaultTwoA params)),
          (''tokenOwnerAccountTwoB'', Some (ths_tokenOwnerAccountTwoB params)),
          (''tokenVaultTwoB'', Some (ths_tokenVaultTwoB params)),
          (''tickArrayOne0'', thsi_tickArrayOne0 (ths_input params)),
          (''tickArrayOne1'', thsi_tickArrayOne1 (ths_input params)),
          (''tickArrayOne2'', thsi_tickArrayOne2 (ths_input params)),
          (''tickArrayTwo0'', thsi_tickArrayTwo0 (ths_input params)),
          (''tickArrayTwo1'', thsi_tickArrayTwo1 (ths_input params)),
          (''tickArrayTwo2'', thsi_tickArrayTwo2 (ths_input params)),
          (''oracleOne'', Some (ths_oracleOne params)), (''oracleTwo'', Some (ths_oracleTwo params))] None in
      \<lparr>in_instructions = [Call ix], in_cleanupInstructions = [], in_signers = []\<rparr>)"

record UpdateFeesAndRewardsParams =
  ufar_whirlpool :: pubkey
  ufar_position :: pubkey
  ufar_tickArrayLower :: pubkey
  ufar_tickArrayUpper :: pubkey

definition updateFeesAndRewardsIx :: "program_env \<Rightarrow> UpdateFeesAndRewardsParams \<Rightarrow> Instruction" where
  "updateFeesAndRewardsIx program params =
     (let ix = call_ix ''updateFeesAndRewards''
         []
         [(''whirlpool'', Some (ufar_whirlpool params)), (''position'', Some (ufar_position params)),
          (''tickArrayLower'', Some (ufar_tickArrayLower params)),
          (''tickArrayUpper'', Some (ufar_tickArrayUpper params))] None in
      \<lparr>in_instructions = [Call ix], in_cleanupInstructions = [], in_signers = []\<rparr>)"

end
