(* ===== verification/Instructions_V2.thy ===== *)
theory Instructions_V2
  imports Instructions
begin

text \<open>
  The instruction builders of the second version (\<^verbatim>\<open>sdk/src/instructions/v2/*.ts\<close>), which name
  the token programs and mints, and pass the accounts of transfer hooks as remaining
  accounts.
\<close>

record CollectFeesV2Params =
  cf2_whirlpool :: pubkey
  cf2_position :: pubkey
  cf2_positionTokenAccount :: pubkey
  cf2_positionAuthority :: pubkey
  cf2_tokenMintA :: pubkey
  cf2_tokenMintB :: pubkey
  cf2_tokenOwnerAccountA :: pubkey
  cf2_tokenOwnerAccountB :: pubkey
  cf2_tokenVaultA :: pubkey
  cf2_tokenVaultB :: pubkey
  cf2_tokenTransferHookAccountsA :: "AccountMeta list option"
  cf2_tokenTransferHookAccountsB :: "AccountMeta list option"
  cf2_tokenProgramA :: pubkey
  cf2_tokenProgramB :: pubkey

definition collectFeesV2Ix :: "program_env \<Rightarrow> CollectFeesV2Params \<Rightarrow> Instruction" where
  "collectFeesV2Ix program params =
     (let (remainingAccountsInfo, remainingAccounts) = build (add_slices
          [(TransferHookA, cf2_tokenTransferHookAccountsA params),
           (TransferHookB, cf2_tokenTransferHookAccountsB params)] newRemainingAccountsBuilder);
          ix = call_ix ''collectFeesV2''
         [remaining_value remainingAccountsInfo]
         [(''whirlpool'', Some (cf2_whirlpool params)),
          (''positionAuthority'', Some (cf2_positionAuthority params)),
          (''position'', Some (cf2_position params)),
          (''positionTokenAccount'', Some (cf2_positionTokenAccount params)),
          (''tokenMintA'', Some (cf2_tokenMintA params)), (''tokenMintB'', Some (cf2_tokenMintB params)),
          (''tokenOwnerAccountA'', Some (cf2_tokenOwnerAccountA params)),
          (''tokenOwnerAccountB'', Some (cf2_tokenOwnerAccountB params)),
          (''tokenVaultA'', Some (cf2_tokenVaultA params)), (''tokenVaultB'', Some (cf2_tokenVaultB params)),
          (''tokenProgramA'', Some (cf2_tokenProgramA params)),
          (''tokenProgramB'', Some (cf2_tokenProgramB params)), (''memoProgram'', Some MEMO_PROGRAM_ADDRESS)] remainingAccounts in
      \<lparr>in_instructions = [Call ix], in_cleanupInstructions = [], in_signers = []\<rparr>)"

record CollectProtocolFeesV2Params =
  cpf2_whirlpoolsConfig :: pubkey
  cpf2_whirlpool :: pubkey
  cpf2_collectProtocolFeesAuthority :: pubkey
  cpf2_tokenMintA :: pubkey
  cpf2_tokenMintB :: pubkey
  cpf2_tokenVaultA :: pubkey
  cpf2_tokenVaultB :: pubkey
  cpf2_tokenOwnerAccountA :: pubkey
  cpf2_tokenOwnerAccountB :: pubkey
  cpf2_tokenTransferHookAccountsA :: "AccountMeta list option"
  cpf2_tokenTransferHookAccountsB :: "AccountMeta list option"
  cpf2_tokenProgramA :: pubkey
  cpf2_tokenProgramB :: pubkey

definition collectProtocolFeesV2Ix :: "program_env \<Rightarrow> CollectProtocolFeesV2Params \<Rightarrow> Instruction" where
  "collectProtocolFeesV2Ix program params =
     (let (remainingAccountsInfo, remainingAccounts) = build (add_slices
          [(TransferHookA, cpf2_tokenTransferHookAccountsA params),
           (TransferHookB, cpf2_tokenTransferHookAccountsB params)] newRemainingAccountsBuilder);
          ix = call_ix ''collectProtocolFeesV2''
         [remaining_value remainingAccountsInfo]
         [(''whirlpoolsConfig'', Some (cpf2_whirlpoolsConfig params)),
          (''whirlpool'', Some (cpf2_whirlpool params)),
          (''collectProtocolFeesAuthority'', Some (cpf2_collectProtocolFeesAuthority params)),
          (''tokenMintA'', Some (cpf2_tokenMintA params)), (''tokenMintB'', Some (cpf2_tokenMintB params)),
          (''tokenVaultA'', Some (cpf2_tokenVaultA params)), (''tokenVaultB'', Some (cpf2_tokenVaultB params)),
          (''tokenDestinationA'', Some (cpf2_tokenOwnerAccountA params)),
          (''tokenDestinationB'', Some (cpf2_tokenOwnerAccountB params)),
          (''tokenProgramA'', Some (cpf2_tokenProgramA params)),
          (''tokenProgramB'', Some (cpf2_tokenProgramB params)), (''memoProgram'', Some MEMO_PROGRAM_ADDRESS)] remainingAccounts in
      \<lparr>in_instructions = [Call ix], in_cleanupInstructions = [], in_signers = []\<rparr>)"

record CollectRewardV2Params =
  clr2_whirlpool :: pubkey
  clr2_position :: pubkey
  clr2_positionTokenAccount :: pubkey
  clr2_positionAuthority :: pubkey
  clr2_rewardIndex :: int
  clr2_rewardMint :: pubkey
  clr2_rewardOwnerAccount :: pubkey
  clr2_rewardVault :: pubkey
  clr2_rewardTransferHookAccounts :: "AccountMeta list option"
  clr2_rewardTokenProgram :: pubkey

definition collectRewardV2Ix :: "program_env \<Rightarrow> CollectRewardV2Params \<Rightarrow> Instruction" where
  "collectRewardV2Ix program params =
     (let (remainingAccountsInfo, remainingAccounts) = build (add_slices
          [(TransferHookReward, clr2_rewardTransferHookAccounts params)] newRemainingAccountsBuilder);
          ix = call_ix ''collectRewardV2''
         [V_int (clr2_rewardIndex params), remaining_value remainingAccountsInfo]
         [(''whirlpool'', Some (clr2_whirlpool params)),
          (''positionAuthority'', Some (clr2_positionAuthority params)),
          (''position'', Some (clr2_position params)),
          (''positionTokenAccount'', Some (clr2_positionTokenAccount params)),
          (''rewardMint'', Some (clr2_rewardMint params)),
          (''rewardOwnerAccount'', Some (clr2_rewardOwnerAccount params)),
          (''rewardVault'', Some (clr2_rewardVault params)),
          (''rewardTokenProgram'', Some (clr2_rewardTokenProgram params)),
          (''memoProgram'', Some MEMO_PROGRAM_ADDRESS)] remainingAccounts in
      \<lparr>in_instructions = [Call ix], in_cleanupInstructions = [], in_signers = []\<rparr>)"

record DecreaseLiquidityV2Params =
  dl2_input :: DecreaseLiquidityInput
  dl2_whirlpool :: pubkey
  dl2_position :: pubkey
  dl2_positionTokenAccount :: pubkey
  dl2_positionAuthority :: pubkey
  dl2_tokenMintA :: pubkey
  dl2_tokenMintB :: pubkey
  dl2_tokenOwnerAccountA :: pubkey
  dl2_tokenOwnerAccountB :: pubkey
  dl2_tokenVaultA :: pubkey
  dl2_tokenVaultB :: pubkey
  dl2_tokenTransferHookAccountsA :: "AccountMeta list option"
  dl2_tokenTransferHookAccountsB :: "AccountMeta list option"
  dl2_tokenProgramA :: pubkey
  dl2_tokenProgramB :: pubkey
  dl2_tickArrayLower :: pubkey
  dl2_tickArrayUpper :: pubkey

definition decreaseLiquidityV2Ix :: "program_env \<Rightarrow> DecreaseLiquidityV2Params \<Rightarrow> Instruction" where
  "decreaseLiquidityV2Ix program params =
     (let (remainingAccountsInfo, remainingAccounts) = build (add_slices
          [(TransferHookA, dl2_tokenTransferHookAccountsA params),
           (TransferHookB, dl2_tokenTransferHookAccountsB params)] newRemainingAccountsBuilder);
          ix = call_ix ''decreaseLiquidityV2''
         [V_int (dli_liquidityAmount (dl2_input params)), V_int (dli_tokenMinA (dl2_input params)),
          V_int (dli_tokenMinB (dl2_input params)), remaining_value remainingAccountsInfo]
         [(''whirlpool'', Some (dl2_whirlpool params)),
          (''positionAuthority'', Some (dl2_positionAuthority params)),
          (''position'', Some (dl2_position params)),
          (''positionTokenAccount'', Some (dl2_positionTokenAccount params)),
          (''tokenMintA'', Some (dl2_tokenMintA params)), (''tokenMintB'', Some (dl2_tokenMintB params)),
          (''tokenOwnerAccountA'', Some (dl2_tokenOwnerAccountA params)),
          (''tokenOwnerAccountB'', Some (dl2_tokenOwnerAccountB params)),
          (''tokenVaultA'', Some (dl2_tokenVaultA params)), (''tokenVaultB'', Some (dl2_tokenVaultB params)),
          (''tokenProgramA'', Some (dl2_tokenProgramA params)),
          (''tokenProgramB'', Some (dl2_tokenProgramB params)),
          (''tickArrayLower'', Some (dl2_tickArrayLower params)),
          (''tickArrayUpper'', Some (dl2_tickArrayUpper params)), (''memoProgram'', Some MEMO_PROGRAM_ADDRESS)] remainingAccounts in
      \<lparr>in_instructions = [Call ix], in_cleanupInstructions = [], in_signers = []\<rparr>)"

record DeleteTokenBadgeParams =
  dtb_whirlpoolsConfig :: pubkey
  dtb_whirlpoolsConfigExtension :: pubkey
  dtb_tokenBadgeAuthority :: pubkey
  dtb_tokenMint :: pubkey
  dtb_tokenBadge :: pubkey
  dtb_receiver :: pubkey

definition deleteTokenBadgeIx :: "program_env \<Rightarrow> DeleteTokenBadgeParams \<Rightarrow> Instruction" where
  "deleteTokenBadgeIx program params =
     (let ix = call_ix ''deleteTokenBadge''
         []
         [(''whirlpoolsConfig'', Some (dtb_whirlpoolsConfig params)),
          (''whirlpoolsConfigExtension'', Some (dtb_whirlpoolsConfigExtension params)),
          (''tokenBadgeAuthority'', Some (dtb_tokenBadgeAuthority params)),
          (''tokenMint'', Some (dtb_tokenMint params)), (''tokenBadge'', Some (dtb_tokenBadge params)),
          (''receiver'', Some (dtb_receiver params))] None in
      \<lparr>in_instructions = [Call ix], in_cleanupInstructions = [], in_signers = []\<rparr>)"

record IncreaseLiquidityV2Params =
  il2_input :: IncreaseLiquidityInput
  il2_whirlpool :: pubkey
  il2_position :: pubkey
  il2_positionTokenAccount :: pubkey
  il2_positionAuthority :: pubkey
  il2_tokenMintA :: pubkey
  il2_tokenMintB :: pubkey
  il2_tokenOwnerAccountA :: pubkey
  il2_tokenOwnerAccountB :: pubkey
  il2_tokenVaultA :: pubkey
  il2_tokenVaultB :: pubkey
  il2_tokenTransferHookAccountsA :: "AccountMeta list option"
  il2_tokenTransferHookAccountsB :: "AccountMeta list option"
  il2_tokenProgramA :: pubkey
  il2_tokenProgramB :: pubkey
  il2_tickArrayLower :: pubkey
  il2_tickArrayUpper :: pubkey

definition increaseLiquidityV2Ix :: "program_env \<Rightarrow> IncreaseLiquidityV2Params \<Rightarrow> Instruction" where
  "increaseLiquidityV2Ix program params =
     (let (remainingAccountsInfo, remainingAccounts) = build (add_slices
          [(TransferHookA, il2_tokenTransferHookAccountsA params),
           (TransferHookB, il2_tokenTransferHookAccountsB params)] newRemainingAccountsBuilder);
          ix = call_ix ''increaseLiquidityV2''
         [V_int (ili_liquidityAmount (il2_input params)), V_int (ili_tokenMaxA (il2_input params)),
          V_int (ili_tokenMaxB (il2_input params)), remaining_value remainingAccountsInfo]
         [(''whirlpool'', Some (il2_whirlpool params)),
          (''positionAuthority'', Some (il2_positionAuthority params)),
          (''position'', Some (il2_position params)),
          (''positionTokenAccount'', Some (il2_positionTokenAccount params)),
          (''tokenMintA'', Some (il2_tokenMintA params)), (''tokenMintB'', Some (il2_tokenMintB params)),
          (''tokenOwnerAccountA'', Some (il2_tokenOwnerAccountA params)),
          (''tokenOwnerAccountB'', Some (il2_tokenOwnerAccountB params)),
          (''tokenVaultA'', Some (il2_tokenVaultA params)), (''tokenVaultB'', Some (il2_tokenVaultB params)),
          (''tokenProgramA'', Some (il2_tokenProgramA params)),
          (''tokenProgramB'', Some (il2_tokenProgramB params)),
          (''tickArrayLower'', Some (il2_tickArrayLower params)),
          (''tickArrayUpper'', Some (il2_tickArrayUpper params)), (''memoProgram'', Some MEMO_PROGRAM_ADDRESS)] remainingAccounts in
      \<lparr>in_instructions = [Call ix], in_cleanupInstructions = [], in_signers = []\<rparr>)"

record InitConfigExtensionParams =
  ice_whirlpoolsConfig :: pubkey
  ice_whirlpoolsConfigExtensionPda :: PDA
  ice_funder :: pubkey
  ice_feeAuthority :: pubkey

definition initializeConfigExtensionIx :: "program_env \<Rightarrow> InitConfigExtensionParams \<Rightarrow> Instruction" where
  "initializeConfigExtensionIx program params =
     (let ix = call_ix ''initializeConfigExtension''
         []
         [(''config'', Some (ice_whirlpoolsConfig params)),
          (''configExtension'', Some (publicKey (ice_whirlpoolsConfigExtensionPda params))),
          (''funder'', Some (ice_funder params)), (''feeAuthority'', Some (ice_feeAuthority params)),
          (''systemProgram'', Some (pg_systemProgram program))] None in
      \<lparr>in_instructions = [Call ix], in_cleanupInstructions = [], in_signers = []\<rparr>)"

record InitPoolV2Params =
  inp2_initSqrtPrice :: int
  inp2_whirlpoolsConfig :: pubkey
  inp2_whirlpoolPda :: PDA
  inp2_tokenMintA :: pubkey
  inp2_tokenMintB :: pubkey
  inp2_tokenBadgeA :: pubkey
  inp2_tokenBadgeB :: pubkey
  inp2_tokenProgramA :: pubkey
  inp2_tokenProgramB :: pubkey
  inp2_tokenVaultAKeypair :: Keypair
  inp2_tokenVaultBKeypair :: Keypair
  inp2_feeTierKey :: pubkey
  inp2_tickSpacing :: int
  inp2_funder :: pubkey

definition initializePoolV2Ix :: "program_env \<Rightarrow> InitPoolV2Params \<Rightarrow> Instruction" where
  "initializePoolV2Ix program params =
     (let ix = call_ix ''initializePoolV2''
         [V_int (inp2_tickSpacing params), V_int (inp2_initSqrtPrice params)]
         [(''whirlpoolsConfig'', Some (inp2_whirlpoolsConfig params)),
          (''tokenMintA'', Some (inp2_tokenMintA params)), (''tokenMintB'', Some (inp2_tokenMintB params)),
          (''tokenBadgeA'', Some (inp2_tokenBadgeA params)), (''tokenBadgeB'', Some (inp2_tokenBadgeB params)),
          (''funder'', Some (inp2_funder params)), (''whirlpool'', Some (publicKey (inp2_whirlpoolPda params))),
          (''tokenVaultA'', Some (keypair_publicKey (inp2_tokenVaultAKeypair params))),
          (''tokenVaultB'', Some (keypair_publicKey (inp2_tokenVaultBKeypair params))),
          (''feeTier'', Some (inp2_feeTierKey params)), (''systemProgram'', Some (pg_systemProgram program)),
          (''tokenProgramA'', Some (inp2_tokenProgramA params)),
          (''tokenProgramB'', Some (inp2_tokenProgramB params)), (''rent'', Some (pg_rent program))] None in
      \<lparr>in_instructions = [Call ix], in_cleanupInstructions = [], in_signers = [inp2_tokenVaultAKeypair params, inp2_tokenVaultBKeypair params]\<rparr>)"

record InitializeRewardV2Params =
  inr2_whirlpool :: pubkey
  inr2_rewardIndex :: int
  inr2_rewardMint :: pubkey
  inr2_rewardTokenBadge :: pubkey
  inr2_rewardVaultKeypair :: Keypair
  inr2_rewardAuthority :: pubkey
  inr2_funder :: pubkey
  inr2_rewardTokenProgram :: pubkey

definition initializeRewardV2Ix :: "program_env \<Rightarrow> InitializeRewardV2Params \<Rightarrow> Instruction" where
  "initializeRewardV2Ix program params =
     (let ix = call_ix ''initializeRewardV2''
         [V_int (inr2_rewardIndex params)]
         [(''rewardAuthority'', Some (inr2_rewardAuthority params)), (''funder'', Some (inr2_funder params)),
          (''whirlpool'', Some (inr2_whirlpool params)), (''rewardMint'', Some (inr2_rewardMint params)),
          (''rewardTokenBadge'', Some (inr2_rewardTokenBadge params)),
          (''rewardVault'', Some (keypair_publicKey (inr2_rewardVaultKeypair params))),
          (''rewardTokenProgram'', Some (inr2_rewardTokenProgram params)),
          (''systemProgram'', Some (pg_systemProgram program)), (''rent'', Some (pg_rent program))] None in
      \<lparr>in_instructions = [Call ix], in_cleanupInstructions = [], in_signers = [inr2_rewardVaultKeypair params]\<rparr>)"

record InitializeTokenBadgeParams =
  itb_whirlpoolsConfig :: pubkey
  itb_whirlpoolsConfigExtension :: pubkey
  itb_tokenBadgeAuthority :: pubkey
  itb_tokenMint :: pubkey
  itb_tokenBadgePda :: PDA
  itb_funder :: pubkey

definition initializeTokenBadgeIx :: "program_env \<Rightarrow> InitializeTokenBadgeParams \<Rightarrow> Instruction" where
  "initializeTokenBadgeIx program params =
     (let ix = call_ix ''initializeTokenBadge''
         []
         [(''whirlpoolsConfig'', Some (itb_whirlpoolsConfig params)),
          (''whirlpoolsConfigExtension'', Some (itb_whirlpoolsConfigExtension params)),
          (''tokenBadgeAuthority'', Some (itb_tokenBadgeAuthority params)),
          (''tokenMint'', Some (itb_tokenMint params)),
          (''tokenBadge'', Some (publicKey (itb_tokenBadgePda params))), (''funder'', Some (itb_funder params)),
          (''systemProgram'', Some (pg_systemProgram program))] None in
      \<lparr>in_instructions = [Call ix], in_cleanupInstructions = [], in_signers = []\<rparr>)"

record SetConfigExtensionAuthorityParams =
  scea_whirlpoolsConfig :: pubkey
  scea_whirlpoolsConfigExtension :: pubkey
  scea_configExtensionAuthority :: pubkey
  scea_newConfigExtensionAuthority :: pubkey

definition setConfigExtensionAuthorityIx :: "program_env \<Rightarrow> SetConfigExtensionAuthorityParams \<Rightarrow> Instruction" where
  "setConfigExtensionAuthorityIx program params =
     (let ix = call_ix ''setConfigExtensionAuthority''
         []
         [(''whirlpoolsConfig'', Some (scea_whirlpoolsConfig params)),
          (''whirlpoolsConfigExtension'', Some (scea_whirlpoolsConfigExtension params)),
          (''configExtensionAuthority'', Some (scea_configExtensionAuthority params)),
          (''newConfigExtensionAuthority'', Some (scea_newConfigExtensionAuthority params))] None in
      \<lparr>in_instructions = [Call ix], in_cleanupInstructions = [], in_signers = []\<rparr>)"

record SetRewardEmissionsV2Params =
  sre2_whirlpool :: pubkey
  sre2_rewardIndex :: int
  sre2_rewardVaultKey :: pubkey
  sre2_rewardAuthority :: pubkey
  sre2_emissionsPerSecondX64 :: int

definition setRewardEmissionsV2Ix :: "program_env \<Rightarrow> SetRewardEmissionsV2Params \<Rightarrow> Instruction" where
  "setRewardEmissionsV2Ix program params =
     (let ix = call_ix ''setRewardEmissionsV2''
         [V_int (sre2_rewardIndex params), V_int (sre2_emissionsPerSecondX64 params)]
         [(''rewardAuthority'', Some (sre2_rewardAuthority params)),
          (''whirlpool'', Some (sre2_whirlpool params)), (''rewardVault'', Some (sre2_rewardVaultKey params))] None in
      \<lparr>in_instructions = [Call ix], in_cleanupInstructions = [], in_signers = []\<rparr>)"

record SetTokenBadgeAuthorityParams =
  stba_whirlpoolsConfig :: pubkey
  stba_whirlpoolsConfigExtension :: pubkey
  stba_configExtensionAuthority :: pubkey
  stba_newTokenBadgeAuthority :: pubkey

definition setTokenBadgeAuthorityIx :: "program_env \<Rightarrow> SetTokenBadgeAuthorityParams \<Rightarrow> Instruction" where
  "setTokenBadgeAuthorityIx program params =
     (let ix = call_ix ''setTokenBadgeAuthority''
         []
         [(''whirlpoolsConfig'', Some (stba_whirlpoolsConfig params)),
          (''whirlpoolsConfigExtension'', Some (stba_whirlpoolsConfigExtension params)),
          (''configExtensionAuthority'', Some (stba_configExtensionAuthority params)),
          (''newTokenBadgeAuthority'', Some (stba_newTokenBadgeAuthority params))] None in
      \<lparr>in_instructions = [Call ix], in_cleanupInstructions = [], in_signers = []\<rparr>)"

record SwapV2Params =
  swap2_input :: SwapInput
  swap2_whirlpool :: pubkey
  swap2_tokenMintA :: pubkey
  swap2_tokenMintB :: pubkey
  swap2_tokenOwnerAccountA :: pubkey
  swap2_tokenOwnerAccountB :: pubkey
  swap2_tokenVaultA :: pubkey
  swap2_tokenVaultB :: pubkey
  swap2_tokenTransferHookAccountsA :: "AccountMeta list option"
  swap2_tokenTransferHookAccountsB :: "AccountMeta list option"
  swap2_tokenProgramA :: pubkey
  swap2_tokenProgramB :: pubkey
  swap2_oracle :: pubkey
  swap2_tokenAuthority :: pubkey

definition swapV2Ix :: "program_env \<Rightarrow> SwapV2Params \<Rightarrow> Instruction" where
  "swapV2Ix program params =
     (let (remainingAccountsInfo, remainingAccounts) = build (add_slices
          [(TransferHookA, swap2_tokenTransferHookAccountsA params),
           (TransferHookB, swap2_tokenTransferHookAccountsB params)] newRemainingAccountsBuilder);
          ix = call_ix ''swapV2''
         [V_int (si_amount (swap2_input params)), V_int (si_otherAmountThreshold (swap2_input params)),
          V_int (si_sqrtPriceLimit (swap2_input params)),
          V_bool (si_amountSpecifiedIsInput (swap2_input params)), V_bool (si_aToB (swap2_input params)),
          remaining_value remainingAccountsInfo]
         [(''tokenProgramA'', Some (swap2_tokenProgramA params)),
          (''tokenProgramB'', Some (swap2_tokenProgramB params)), (''memoProgram'', Some MEMO_PROGRAM_ADDRESS),
          (''tokenAuthority'', Some (swap2_tokenAuthority params)),
          (''whirlpool'', Some (swap2_whirlpool params)), (''tokenMintA'', Some (swap2_tokenMintA params)),
          (''tokenMintB'', Some (swap2_tokenMintB params)),
          (''tokenOwnerAccountA'', Some (swap2_tokenOwnerAccountA params)),
          (''tokenVaultA'', Some (swap2_tokenVaultA params)),
          (''tokenOwnerAccountB'', Some (swap2_tokenOwnerAccountB params)),
          (''tokenVaultB'', Some (swap2_tokenVaultB params)),
          (''tickArray0'', si_tickArray0 (swap2_input params)),
          (''tickArray1'', si_tickArray1 (swap2_input params)),
          (''tickArray2'', si_tickArray2 (swap2_input params)), (''oracle'', Some (swap2_oracle params))] remainingAccounts in
      \<lparr>in_instructions = [Call ix], in_cleanupInstructions = [], in_signers = []\<rparr>)"

record TwoHopSwapV2Params =
  ths2_input :: TwoHopSwapInput
  ths2_whirlpoolOne :: pubkey
  ths2_whirlpoolTwo :: pubkey
  ths2_tokenMintInput :: pubkey
  ths2_tokenMintIntermediate :: pubkey
  ths2_tokenMintOutput :: pubkey
  ths2_tokenOwnerAccountInput :: pubkey
  ths2_tokenOwnerAccountOutput :: pubkey
  ths2_tokenVaultOneInput :: pubkey
  ths2_tokenVaultOneIntermediate :: pubkey
  ths2_tokenVaultTwoIntermediate :: pubkey
  ths2_tokenVaultTwoOutput :: pubkey
  ths2_tokenTransferHookAccountsInput :: "AccountMeta list option"
  ths2_tokenTransferHookAccountsIntermediate :: "AccountMeta list option"
  ths2_tokenTransferHookAccountsOutput :: "AccountMeta list option"
  ths2_tokenProgramInput :: pubkey
  ths2_tokenProgramIntermediate :: pubkey
  ths2_tokenProgramOutput :: pubkey
  ths2_oracleOne :: pubkey
  ths2_oracleTwo :: pubkey
  ths2_tokenAuthority :: pubkey

definition twoHopSwapV2Ix :: "program_env \<Rightarrow> TwoHopSwapV2Params \<Rightarrow> Instruction" where
  "twoHopSwapV2Ix program params =
     (let (remainingAccountsInfo, remainingAccounts) = build (add_slices
          [(TransferHookInput, ths2_tokenTransferHookAccountsInput params),
           (TransferHookIntermediate, ths2_tokenTransferHookAccountsIntermediate params),
           (TransferHookOutput, ths2_tokenTransferHookAccountsOutput params)] newRemainingAccountsBuilder);
          ix = call_ix ''twoHopSwapV2''
         [V_int (thsi_amount (ths2_input params)), V_int (thsi_otherAmountThreshold (ths2_input params)),
          V_bool (thsi_amountSpecifiedIsInput (ths2_input params)), V_bool (thsi_aToBOne (ths2_input params)),
          V_bool (thsi_aToBTwo (ths2_input params)), V_int (thsi_sqrtPriceLimitOne (ths2_input params)),
          V_int (thsi_sqrtPriceLimitTwo (ths2_input params)), remaining_value remainingAccountsInfo]
         [(''whirlpoolOne'', Some (ths2_whirlpoolOne params)),
          (''whirlpoolTwo'', Some (ths2_whirlpoolTwo params)),
          (''tokenMintInput'', Some (ths2_tokenMintInput params)),
          (''tokenMintIntermediate'', Some (ths2_tokenMintIntermediate params)),
          (''tokenMintOutput'', Some (ths2_tokenMintOutput params)),
          (''tokenProgramInput'', Some (ths2_tokenProgramInput params)),
          (''tokenProgramIntermediate'', Some (ths2_tokenProgramIntermediate params)),
          (''tokenProgramOutput'', Some (ths2_tokenProgramOutput params)),
          (''tokenOwnerAccountInput'', Some (ths2_tokenOwnerAccountInput params)),
          (''tokenVaultOneInput'', Some (ths2_tokenVaultOneInput params)),
          (''tokenVaultOneIntermediate'', Some (ths2_tokenVaultOneIntermediate params)),
          (''tokenVaultTwoIntermediate'', Some (ths2_tokenVaultTwoIntermediate params)),
          (''tokenVaultTwoOutput'', Some (ths2_tokenVaultTwoOutput params)),
          (''tokenOwnerAccountOutput'', Some (ths2_tokenOwnerAccountOutput params)),
          (''tokenAuthority'', Some (ths2_tokenAuthority params)),
          (''tickArrayOne0'', thsi_tickArrayOne0 (ths2_input params)),
          (''tickArrayOne1'', thsi_tickArrayOne1 (ths2_input params)),
          (''tickArrayOne2'', thsi_tickArrayOne2 (ths2_input params)),
          (''tickArrayTwo0'', thsi_tickArrayTwo0 (ths2_input params)),
          (''tickArrayTwo1'', thsi_tickArrayTwo1 (ths2_input params)),
          (''tickArrayTwo2'', thsi_tickArrayTwo2 (ths2_input params)),
          (''oracleOne'', Some (ths2_oracleOne params)), (''oracleTwo'', Some (ths2_oracleTwo params)),
          (''memoProgram'', Some MEMO_PROGRAM_ADDRESS)] remainingAccounts in
      \<lparr>in_instructions = [Call ix], in_cleanupInstructions = [], in_signers = []\<rparr>)"

end
