(* ===== verification/Whirlpool_Ix.thy ===== *)
theory Whirlpool_Ix
  imports Idl Instructions_V2
begin

text \<open>
  The table of the instruction builders (\<^verbatim>\<open>class WhirlpoolIx\<close> of \<^verbatim>\<open>sdk/src/ix.ts\<close>): a request is
  a method with its parameters. The lemmas check every builder against the interface the SDK
  carries: \<open>ix_typed\<close> is the typing of arguments, \<open>fits_idl\<close> the whole check of an instruction.
\<close>

datatype ix_request =
    InitializeConfigIx InitConfigParams
  | InitializeFeeTierIx InitFeeTierParams
  | InitializePoolIx InitPoolParams
  | InitializeRewardIx InitializeRewardParams
  | InitTickArrayIx InitTickArrayParams
  | OpenPositionIx OpenPositionParams
  | OpenPositionWithMetadataIx OpenPositionParams PDA
  | IncreaseLiquidityIx IncreaseLiquidityParams
  | DecreaseLiquidityIx DecreaseLiquidityParams
  | ClosePositionIx ClosePositionParams
  | SwapIx SwapParams
  | TwoHopSwapIx TwoHopSwapParams
  | UpdateFeesAndRewardsIx UpdateFeesAndRewardsParams
  | CollectFeesIx CollectFeesParams
  | CollectProtocolFeesIx CollectProtocolFeesParams
  | CollectRewardIx CollectRewardParams
  | SetCollectProtocolFeesAuthorityIx SetCollectProtocolFeesAuthorityParams
  | SetDefaultFeeRateIx SetDefaultFeeRateParams
  | SetDefaultProtocolFeeRateIx SetDefaultProtocolFeeRateParams
  | SetFeeAuthorityIx SetFeeAuthorityParams
  | SetFeeRateIx SetFeeRateParams
  | SetProtocolFeeRateIx SetProtocolFeeRateParams
  | SetRewardAuthorityBySuperAuthorityIx SetRewardAuthorityBySuperAuthorityParams
  | SetRewardAuthorityIx SetRewardAuthorityParams
  | SetRewardEmissionsIx SetRewardEmissionsParams
  | SetRewardEmissionsSuperAuthorityIx SetRewardEmissionsSuperAuthorityParams
  | InitializePositionBundleIx InitializePositionBundleParams
  | InitializePositionBundleWithMetadataIx InitializePositionBundleParams PDA
  | DeletePositionBundleIx DeletePositionBundleParams
  | OpenBundledPositionIx OpenBundledPositionParams
  | CloseBundledPositionIx CloseBundledPositionParams
  | CollectFeesV2Ix CollectFeesV2Params
  | CollectProtocolFeesV2Ix CollectProtocolFeesV2Params
  | CollectRewardV2Ix CollectRewardV2Params
  | DecreaseLiquidityV2Ix DecreaseLiquidityV2Params
  | IncreaseLiquidityV2Ix IncreaseLiquidityV2Params
  | InitializePoolV2Ix InitPoolV2Params
  | InitializeRewardV2Ix InitializeRewardV2Params
  | SetRewardEmissionsV2Ix SetRewardEmissionsV2Params
  | SwapV2Ix SwapV2Params
  | TwoHopSwapV2Ix TwoHopSwapV2Params
  | InitializeConfigExtensionIx InitConfigExtensionParams
  | SetConfigExtensionAuthorityIx SetConfigExtensionAuthorityParams
  | SetTokenBadgeAuthorityIx SetTokenBadgeAuthorityParams
  | InitializeTokenBadgeIx InitializeTokenBadgeParams
  | DeleteTokenBadgeIx DeleteTokenBadgeParams

fun whirlpool_ix :: "program_env \<Rightarrow> ix_request \<Rightarrow> Instruction res" where
  "whirlpool_ix program (InitializeConfigIx params) = Inr (initializeConfigIx program params)"
| "whirlpool_ix program (InitializeFeeTierIx params) = Inr (initializeFeeTierIx program params)"
| "whirlpool_ix program (InitializePoolIx params) = Inr (initializePoolIx program params)"
| "whirlpool_ix program (InitializeRewardIx params) = Inr (initializeRewardIx program params)"
| "whirlpool_ix program (InitTickArrayIx params) = Inr (initTickArrayIx program params)"
| "whirlpool_ix program (OpenPositionIx params) = Inr (openPositionIx program params)"
| "whirlpool_ix program (OpenPositionWithMetadataIx params metadataPda) = Inr (openPositionWithMetadataIx program params metadataPda)"
| "whirlpool_ix program (IncreaseLiquidityIx params) = Inr (increaseLiquidityIx program params)"
| "whirlpool_ix program (DecreaseLiquidityIx params) = Inr (decreaseLiquidityIx program params)"
| "whirlpool_ix program (ClosePositionIx params) = Inr (closePositionIx program params)"
| "whirlpool_ix program (SwapIx params) = Inr (swapIx program params)"
| "whirlpool_ix program (TwoHopSwapIx params) = Inr (twoHopSwapIx program params)"
| "whirlpool_ix program (UpdateFeesAndRewardsIx params) = Inr (updateFeesAndRewardsIx program params)"
| "whirlpool_ix program (CollectFeesIx params) = Inr (collectFeesIx program params)"
| "whirlpool_ix program (CollectProtocolFeesIx params) = Inr (collectProtocolFeesIx program params)"
| "whirlpool_ix program (CollectRewardIx params) = Inr (collectRewardIx program params)"
| "whirlpool_ix program (SetCollectProtocolFeesAuthorityIx params) = Inr (setCollectProtocolFeesAuthorityIx program params)"
| "whirlpool_ix program (SetDefaultFeeRateIx params) = setDefaultFeeRateIx program params"
| "whirlpool_ix program (SetDefaultProtocolFeeRateIx params) = Inr (setDefaultProtocolFeeRateIx program params)"
| "whirlpool_ix program (SetFeeAuthorityIx params) = Inr (setFeeAuthorityIx program params)"
| "whirlpool_ix program (SetFeeRateIx params) = Inr (setFeeRateIx program params)"
| "whirlpool_ix program (SetProtocolFeeRateIx params) = Inr (setProtocolFeeRateIx program params)"
| "whirlpool_ix program (SetRewardAuthorityBySuperAuthorityIx params) = Inr (setRewardAuthorityBySuperAuthorityIx program params)"
| "whirlpool_ix program (SetRewardAuthorityIx params) = Inr (setRewardAuthorityIx program params)"
| "whirlpool_ix program (SetRewardEmissionsIx params) = Inr (setRewardEmissionsIx program params)"
| "whirlpool_ix program (SetRewardEmissionsSuperAuthorityIx params) = Inr (setRewardEmissionsSuperAuthorityIx program params)"
| "whirlpool_ix program (InitializePositionBundleIx params) = Inr (initializePositionBundleIx program params)"
| "whirlpool_ix program (InitializePositionBundleWithMetadataIx params positionBundleMetadataPda) = Inr (initializePositionBundleWithMetadataIx program params positionBundleMetadataPda)"
| "whirlpool_ix program (DeletePositionBundleIx params) = Inr (deletePositionBundleIx program params)"
| "whirlpool_ix program (OpenBundledPositionIx params) = Inr (openBundledPositionIx program params)"
| "whirlpool_ix program (CloseBundledPositionIx params) = Inr (closeBundledPositionIx program params)"
| "whirlpool_ix program (CollectFeesV2Ix params) = Inr (collectFeesV2Ix program params)"
| "whirlpool_ix program (CollectProtocolFeesV2Ix params) = Inr (collectProtocolFeesV2Ix program params)"
| "whirlpool_ix program (CollectRewardV2Ix params) = Inr (collectRewardV2Ix program params)"
| "whirlpool_ix program (DecreaseLiquidityV2Ix params) = Inr (decreaseLiquidityV2Ix program params)"
| "whirlpool_ix program (IncreaseLiquidityV2Ix params) = Inr (increaseLiquidityV2Ix program params)"
| "whirlpool_ix program (InitializePoolV2Ix params) = Inr (initializePoolV2Ix program params)"
| "whirlpool_ix program (InitializeRewardV2Ix params) = Inr (initializeRewardV2Ix program params)"
| "whirlpool_ix program (SetRewardEmissionsV2Ix params) = Inr (setRewardEmissionsV2Ix program params)"
| "whirlpool_ix program (SwapV2Ix params) = Inr (swapV2Ix program params)"
| "whirlpool_ix program (TwoHopSwapV2Ix params) = Inr (twoHopSwapV2Ix program params)"
| "whirlpool_ix program (InitializeConfigExtensionIx params) = Inr (initializeConfigExtensionIx program params)"
| "whirlpool_ix program (SetConfigExtensionAuthorityIx params) = Inr (setConfigExtensionAuthorityIx program params)"
| "whirlpool_ix program (SetTokenBadgeAuthorityIx params) = Inr (setTokenBadgeAuthorityIx program params)"
| "whirlpool_ix program (InitializeTokenBadgeIx params) = Inr (initializeTokenBadgeIx program params)"
| "whirlpool_ix program (DeleteTokenBadgeIx params) = Inr (deleteTokenBadgeIx program params)"

subsection \<open>Typing\<close>

definition find_idl :: "string \<Rightarrow> idl_instruction option" where
  "find_idl name = find (\<lambda>d. ii_name d = name) IDL_instructions"

text \<open>The interface capitalizes the tags of an enumeration, the arguments do not.\<close>

fun camel_case :: "string \<Rightarrow> string" where
  "camel_case [] = []"
| "camel_case (c # cs) = (char_of (of_char c + 32 :: nat) :: char) # cs"

inductive ix_typed :: "ix_value \<Rightarrow> idl_type \<Rightarrow> bool"
  and fields_typed :: "(string \<times> ix_value) list \<Rightarrow> (string \<times> idl_type) list \<Rightarrow> bool" where
  integer: "t \<in> {IdlU8, IdlU16, IdlI32, IdlU64, IdlU128, IdlI128} \<Longrightarrow> ix_typed (V_int n) t"
| boolean: "ix_typed (V_bool b) IdlBool"
| public_key: "ix_typed (V_key k) IdlPublicKey"
| absent: "ix_typed V_null (IdlOption t)"
| present: "ix_typed v t \<Longrightarrow> ix_typed v (IdlOption t)"
| struct: "map_of IDL_types d = Some (IdlStruct fs) \<Longrightarrow> fields_typed vs fs \<Longrightarrow>
    ix_typed (V_struct vs) (IdlDefined d)"
| tag: "map_of IDL_types d = Some (IdlEnum tags) \<Longrightarrow> tag \<in> camel_case ` set tags \<Longrightarrow>
    ix_typed (V_tag tag) (IdlDefined d)"
| vector: "(\<And>v. v \<in> set vs \<Longrightarrow> ix_typed v t) \<Longrightarrow> ix_typed (V_list vs) (IdlVec t)"
| no_fields: "fields_typed [] []"
| field: "ix_typed v t \<Longrightarrow> fields_typed vs fs \<Longrightarrow> fields_typed ((n, v) # vs) ((n, t) # fs)"

inductive_simps typed_inv:
  "ix_typed (V_struct vs) (IdlDefined d)" "ix_typed (V_tag tag) (IdlDefined d)" "ix_typed (V_list vs) (IdlVec t)"
  "fields_typed [] fs" "fields_typed (v # vs) fs"

lemma typed_base:
  "ix_typed (V_int n) IdlU8" "ix_typed (V_int n) IdlU16" "ix_typed (V_int n) IdlI32"
  "ix_typed (V_int n) IdlU64" "ix_typed (V_int n) IdlU128" "ix_typed (V_bool b) IdlBool"
  "ix_typed (V_key k) IdlPublicKey"
  by (auto intro: ix_typed_fields_typed.intros)

lemmas ix_typed_simps = typed_inv typed_base

lemma idl_type_of:
  "map_of IDL_types ''WhirlpoolBumps'' = Some idl_type_WhirlpoolBumps"
  "map_of IDL_types ''OpenPositionBumps'' = Some idl_type_OpenPositionBumps"
  "map_of IDL_types ''OpenPositionWithMetadataBumps'' = Some idl_type_OpenPositionWithMetadataBumps"
  "map_of IDL_types ''RemainingAccountsInfo'' = Some idl_type_RemainingAccountsInfo"
  "map_of IDL_types ''RemainingAccountsSlice'' = Some idl_type_RemainingAccountsSlice"
  "map_of IDL_types ''AccountsType'' = Some idl_type_AccountsType"
  by (simp_all add: IDL_types_def)

lemmas idl_types = idl_type_of idl_type_WhirlpoolBumps_def idl_type_OpenPositionBumps_def
  idl_type_OpenPositionWithMetadataBumps_def idl_type_RemainingAccountsInfo_def
  idl_type_RemainingAccountsSlice_def idl_type_AccountsType_def

lemma char_t: "char_of (116 :: nat) = CHR ''t''"
  by code_simp

lemma accounts_type_typed: "ix_typed (V_tag (accounts_type_name t)) (IdlDefined ''AccountsType'')"
  by (cases t) (simp_all add: ix_typed_simps idl_types char_t)

lemma slice_typed: "ix_typed (slice_value s) (IdlDefined ''RemainingAccountsSlice'')"
  using accounts_type_typed by (simp add: slice_value_def ix_typed_simps idl_types)

lemma remaining_typed: "ix_typed (remaining_value info) (IdlOption (IdlDefined ''RemainingAccountsInfo''))"
proof (cases info)
  case None
  then show ?thesis by (simp add: remaining_value_def ix_typed_fields_typed.absent)
next
  case (Some slices)
  then show ?thesis
    by (intro ix_typed_fields_typed.present)
      (auto simp: remaining_value_def ix_typed_simps idl_types intro: slice_typed)
qed

subsection \<open>Every builder fits the interface\<close>

text \<open>
  One call of an instruction of the interface; its arguments have the types the interface
  names, in its order; its accounts are the accounts of the interface, each named once;
  and every key pair it attaches is the key of an account that has to sign.
\<close>

definition fits_idl :: "Instruction \<Rightarrow> bool" where
  "fits_idl ins \<longleftrightarrow>
     (\<exists>c d. in_instructions ins = [Call c] \<and> in_cleanupInstructions ins = [] \<and> find_idl (ac_name c) = Some d \<and>
        list_all2 ix_typed (ac_args c) (map snd (ii_args d)) \<and>
        distinct (map fst (ac_accounts c)) \<and> set (map fst (ac_accounts c)) = set (map ia_name (ii_accounts d)) \<and>
        (\<forall>k \<in> set (in_signers ins). \<exists>a \<in> set (ii_accounts d). ia_isSigner a \<and>
           (ia_name a, Some (keypair_publicKey k)) \<in> set (ac_accounts c)))"

lemma idl_member:
  "idl_initializeConfig \<in> set IDL_instructions"
  "idl_initializeFeeTier \<in> set IDL_instructions"
  "idl_initializePool \<in> set IDL_instructions"
  "idl_initializeReward \<in> set IDL_instructions"
  "idl_initializeTickArray \<in> set IDL_instructions"
  "idl_openPosition \<in> set IDL_instructions"
  "idl_openPositionWithMetadata \<in> set IDL_instructions"
  "idl_increaseLiquidity \<in> set IDL_instructions"
  "idl_decreaseLiquidity \<in> set IDL_instructions"
  "idl_closePosition \<in> set IDL_instructions"
  "idl_swap \<in> set IDL_instructions"
  "idl_twoHopSwap \<in> set IDL_instructions"
  "idl_updateFeesAndRewards \<in> set IDL_instructions"
  "idl_collectFees \<in> set IDL_instructions"
  "idl_collectProtocolFees \<in> set IDL_instructions"
  "idl_collectReward \<in> set IDL_instructions"
  "idl_setCollectProtocolFeesAuthority \<in> set IDL_instructions"
  "idl_setDefaultFeeRate \<in> set IDL_instructions"
  "idl_setDefaultProtocolFeeRate \<in> set IDL_instructions"
  "idl_setFeeAuthority \<in> set IDL_instructions"
  "idl_setFeeRate \<in> set IDL_instructions"
  "idl_setProtocolFeeRate \<in> set IDL_instructions"
  "idl_setRewardAuthorityBySuperAuthority \<in> set IDL_instructions"
  "idl_setRewardAuthority \<in> set IDL_instructions"
  "idl_setRewardEmissions \<in> set IDL_instructions"
  "idl_setRewardEmissionsSuperAuthority \<in> set IDL_instructions"
  "idl_initializePositionBundle \<in> set IDL_instructions"
  "idl_initializePositionBundleWithMetadata \<in> set IDL_instructions"
  "idl_deletePositionBundle \<in> set IDL_instructions"
  "idl_openBundledPosition \<in> set IDL_instructions"
  "idl_closeBundledPosition \<in> set IDL_instructions"
  "idl_collectFeesV2 \<in> set IDL_instructions"
  "idl_collectProtocolFeesV2 \<in> set IDL_instructions"
  "idl_collectRewardV2 \<in> set IDL_instructions"
  "idl_decreaseLiquidityV2 \<in> set IDL_instructions"
  "idl_increaseLiquidityV2 \<in> set IDL_instructions"
  "idl_initializePoolV2 \<in> set IDL_instructions"
  "idl_initializeRewardV2 \<in> set IDL_instructions"
  "idl_setRewardEmissionsV2 \<in> set IDL_instructions"
  "idl_swapV2 \<in> set IDL_instructions"
  "idl_twoHopSwapV2 \<in> set IDL_instructions"
  "idl_initializeConfigExtension \<in> set IDL_instructions"
  "idl_setConfigExtensionAuthority \<in> set IDL_instructions"
  "idl_setTokenBadgeAuthority \<in> set IDL_instructions"
  "idl_initializeTokenBadge \<in> set IDL_instructions"
  "idl_deleteTokenBadge \<in> set IDL_instructions"
  by (simp_all add: IDL_instructions_def)

lemma idl_names_distinct: "distinct (map ii_name IDL_instructions)"
  by code_simp

lemma find_idl_member:
  assumes "d \<in> set IDL_instructions"
  shows "find_idl (ii_name d) = Some d"
proof -
  have "find (\<lambda>x. ii_name x = ii_name d) ds = Some d" if "d \<in> set ds" "distinct (map ii_name ds)" for ds
    using that by (induction ds) (auto simp: image_iff)
  then show ?thesis using assms idl_names_distinct by (simp add: find_idl_def)
qed

lemma fits_idlI:
  assumes "d \<in> set IDL_instructions" "in_instructions ins = [Call c]" "in_cleanupInstructions ins = []"
    "ac_name c = ii_name d" "list_all2 ix_typed (ac_args c) (map snd (ii_args d))"
    "distinct (map fst (ac_accounts c))" "length (ac_accounts c) = length (ii_accounts d)"
    "list_all (\<lambda>n. n \<in> set (map ia_name (ii_accounts d))) (map fst (ac_accounts c))"
    "\<forall>k \<in> set (in_signers ins). \<exists>a \<in> set (ii_accounts d). ia_isSigner a \<and>
       (ia_name a, Some (keypair_publicKey k)) \<in> set (ac_accounts c)"
  shows "fits_idl ins"
proof -
  have "card (set (map ia_name (ii_accounts d))) \<le> card (set (map fst (ac_accounts c)))"
    using card_length [of "map ia_name (ii_accounts d)"] distinct_card [OF assms(6)] assms(7) by simp
  then have "set (map fst (ac_accounts c)) = set (map ia_name (ii_accounts d))"
    using assms(8) by (intro card_seteq) (auto simp: list_all_iff)
  then show ?thesis using assms find_idl_member [OF assms(1)] unfolding fits_idl_def by metis
qed

lemmas ix_check = case_prod_beta call_ix_def idl_ix_def idl_acc_def ix_typed_simps idl_types remaining_typed

lemma initializeConfigIx_fits: "fits_idl (initializeConfigIx program params)"
  by (rule fits_idlI [where d = idl_initializeConfig], rule idl_member, simp add: initializeConfigIx_def Let_def,
      simp_all add: initializeConfigIx_def idl_initializeConfig_def ix_check)

lemma initializeFeeTierIx_fits: "fits_idl (initializeFeeTierIx program params)"
  by (rule fits_idlI [where d = idl_initializeFeeTier], rule idl_member, simp add: initializeFeeTierIx_def Let_def,
      simp_all add: initializeFeeTierIx_def idl_initializeFeeTier_def ix_check)

lemma initializePoolIx_fits: "fits_idl (initializePoolIx program params)"
  by (rule fits_idlI [where d = idl_initializePool], rule idl_member, simp add: initializePoolIx_def Let_def,
      simp_all add: initializePoolIx_def idl_initializePool_def ix_check)

lemma initializeRewardIx_fits: "fits_idl (initializeRewardIx program params)"
  by (rule fits_idlI [where d = idl_initializeReward], rule idl_member, simp add: initializeRewardIx_def Let_def,
      simp_all add: initializeRewardIx_def idl_initializeReward_def ix_check)

lemma initTickArrayIx_fits: "fits_idl (initTickArrayIx program params)"
  by (rule fits_idlI [where d = idl_initializeTickArray], rule idl_member, simp add: initTickArrayIx_def Let_def,
      simp_all add: initTickArrayIx_def idl_initializeTickArray_def ix_check)

lemma openPositionIx_fits: "fits_idl (openPositionIx program params)"
  by (rule fits_idlI [where d = idl_openPosition], rule idl_member, simp add: openPositionIx_def Let_def,
      simp_all add: openPositionIx_def openPositionAccounts_def idl_openPosition_def ix_check)

lemma openPositionWithMetadataIx_fits: "fits_idl (openPositionWithMetadataIx program params metadataPda)"
  by (rule fits_idlI [where d = idl_openPositionWithMetadata], rule idl_member, simp add: openPositionWithMetadataIx_def Let_def,
      simp_all add: openPositionWithMetadataIx_def openPositionAccounts_def idl_openPositionWithMetadata_def ix_check)

lemma increaseLiquidityIx_fits: "fits_idl (increaseLiquidityIx program params)"
  by (rule fits_idlI [where d = idl_increaseLiquidity], rule idl_member, simp add: increaseLiquidityIx_def Let_def,
      simp_all add: increaseLiquidityIx_def idl_increaseLiquidity_def ix_check)

lemma decreaseLiquidityIx_fits: "fits_idl (decreaseLiquidityIx program params)"
  by (rule fits_idlI [where d = idl_decreaseLiquidity], rule idl_member, simp add: decreaseLiquidityIx_def Let_def,
      simp_all add: decreaseLiquidityIx_def idl_decreaseLiquidity_def ix_check)

lemma closePositionIx_fits: "fits_idl (closePositionIx program params)"
  by (rule fits_idlI [where d = idl_closePosition], rule idl_member, simp add: closePositionIx_def Let_def,
      simp_all add: closePositionIx_def idl_closePosition_def ix_check)

lemma swapIx_fits: "fits_idl (swapIx program params)"
  by (rule fits_idlI [where d = idl_swap], rule idl_member, simp add: swapIx_def Let_def,
      simp_all add: swapIx_def idl_swap_def ix_check)

lemma twoHopSwapIx_fits: "fits_idl (twoHopSwapIx program params)"
  by (rule fits_idlI [where d = idl_twoHopSwap], rule idl_member, simp add: twoHopSwapIx_def Let_def,
      simp_all add: twoHopSwapIx_def idl_twoHopSwap_def ix_check)

lemma updateFeesAndRewardsIx_fits: "fits_idl (updateFeesAndRewardsIx program params)"
  by (rule fits_idlI [where d = idl_updateFeesAndRewards], rule idl_member, simp add: updateFeesAndRewardsIx_def Let_def,
      simp_all add: updateFeesAndRewardsIx_def idl_updateFeesAndRewards_def ix_check)

lemma collectFeesIx_fits: "fits_idl (collectFeesIx program params)"
  by (rule fits_idlI [where d = idl_collectFees], rule idl_member, simp add: collectFeesIx_def Let_def,
      simp_all add: collectFeesIx_def idl_collectFees_def ix_check)

lemma collectProtocolFeesIx_fits: "fits_idl (collectProtocolFeesIx program params)"
  by (rule fits_idlI [where d = idl_collectProtocolFees], rule idl_member, simp add: collectProtocolFeesIx_def Let_def,
      simp_all add: collectProtocolFeesIx_def idl_collectProtocolFees_def ix_check)

lemma collectRewardIx_fits: "fits_idl (collectRewardIx program params)"
  by (rule fits_idlI [where d = idl_collectReward], rule idl_member, simp add: collectRewardIx_def Let_def,
      simp_all add: collectRewardIx_def idl_collectReward_def ix_check)

lemma setCollectProtocolFeesAuthorityIx_fits: "fits_idl (setCollectProtocolFeesAuthorityIx program params)"
  by (rule fits_idlI [where d = idl_setCollectProtocolFeesAuthority], rule idl_member, simp add: setCollectProtocolFeesAuthorityIx_def Let_def,
      simp_all add: setCollectProtocolFeesAuthorityIx_def idl_setCollectProtocolFeesAuthority_def ix_check)

lemma setDefaultFeeRateIx_fits: "setDefaultFeeRateIx program params = Inr ins \<Longrightarrow> fits_idl ins"
  by (clarsimp simp: setDefaultFeeRateIx_def bindE_eq_Inr Let_def, rule fits_idlI [where d = idl_setDefaultFeeRate],
      rule idl_member, simp, simp_all add: idl_setDefaultFeeRate_def ix_check)

lemma setDefaultProtocolFeeRateIx_fits: "fits_idl (setDefaultProtocolFeeRateIx program params)"
  by (rule fits_idlI [where d = idl_setDefaultProtocolFeeRate], rule idl_member, simp add: setDefaultProtocolFeeRateIx_def Let_def,
      simp_all add: setDefaultProtocolFeeRateIx_def idl_setDefaultProtocolFeeRate_def ix_check)

lemma setFeeAuthorityIx_fits: "fits_idl (setFeeAuthorityIx program params)"
  by (rule fits_idlI [where d = idl_setFeeAuthority], rule idl_member, simp add: setFeeAuthorityIx_def Let_def,
      simp_all add: setFeeAuthorityIx_def idl_setFeeAuthority_def ix_check)

lemma setFeeRateIx_fits: "fits_idl (setFeeRateIx program params)"
  by (rule fits_idlI [where d = idl_setFeeRate], rule idl_member, simp add: setFeeRateIx_def Let_def,
      simp_all add: setFeeRateIx_def idl_setFeeRate_def ix_check)

lemma setProtocolFeeRateIx_fits: "fits_idl (setProtocolFeeRateIx program params)"
  by (rule fits_idlI [where d = idl_setProtocolFeeRate], rule idl_member, simp add: setProtocolFeeRateIx_def Let_def,
      simp_all add: setProtocolFeeRateIx_def idl_setProtocolFeeRate_def ix_check)

lemma setRewardAuthorityBySuperAuthorityIx_fits: "fits_idl (setRewardAuthorityBySuperAuthorityIx program params)"
  by (rule fits_idlI [where d = idl_setRewardAuthorityBySuperAuthority], rule idl_member, simp add: setRewardAuthorityBySuperAuthorityIx_def Let_def,
      simp_all add: setRewardAuthorityBySuperAuthorityIx_def idl_setRewardAuthorityBySuperAuthority_def ix_check)

lemma setRewardAuthorityIx_fits: "fits_idl (setRewardAuthorityIx program params)"
  by (rule fits_idlI [where d = idl_setRewardAuthority], rule idl_member, simp add: setRewardAuthorityIx_def Let_def,
      simp_all add: setRewardAuthorityIx_def idl_setRewardAuthority_def ix_check)

lemma setRewardEmissionsIx_fits: "fits_idl (setRewardEmissionsIx program params)"
  by (rule fits_idlI [where d = idl_setRewardEmissions], rule idl_member, simp add: setRewardEmissionsIx_def Let_def,
      simp_all add: setRewardEmissionsIx_def idl_setRewardEmissions_def ix_check)

lemma setRewardEmissionsSuperAuthorityIx_fits: "fits_idl (setRewardEmissionsSuperAuthorityIx program params)"
  by (rule fits_idlI [where d = idl_setRewardEmissionsSuperAuthority], rule idl_member, simp add: setRewardEmissionsSuperAuthorityIx_def Let_def,
      simp_all add: setRewardEmissionsSuperAuthorityIx_def idl_setRewardEmissionsSuperAuthority_def ix_check)

lemma initializePositionBundleIx_fits: "fits_idl (initializePositionBundleIx program params)"
  by (rule fits_idlI [where d = idl_initializePositionBundle], rule idl_member, simp add: initializePositionBundleIx_def Let_def,
      simp_all add: initializePositionBundleIx_def idl_initializePositionBundle_def ix_check)

lemma initializePositionBundleWithMetadataIx_fits: "fits_idl (initializePositionBundleWithMetadataIx program params positionBundleMetadataPda)"
  by (rule fits_idlI [where d = idl_initializePositionBundleWithMetadata], rule idl_member, simp add: initializePositionBundleWithMetadataIx_def Let_def,
      simp_all add: initializePositionBundleWithMetadataIx_def idl_initializePositionBundleWithMetadata_def ix_check)

lemma deletePositionBundleIx_fits: "fits_idl (deletePositionBundleIx program params)"
  by (rule fits_idlI [where d = idl_deletePositionBundle], rule idl_member, simp add: deletePositionBundleIx_def Let_def,
      simp_all add: deletePositionBundleIx_def idl_deletePositionBundle_def ix_check)

lemma openBundledPositionIx_fits: "fits_idl (openBundledPositionIx program params)"
  by (rule fits_idlI [where d = idl_openBundledPosition], rule idl_member, simp add: openBundledPositionIx_def Let_def,
      simp_all add: openBundledPositionIx_def idl_openBundledPosition_def ix_check)

lemma closeBundledPositionIx_fits: "fits_idl (closeBundledPositionIx program params)"
  by (rule fits_idlI [where d = idl_closeBundledPosition], rule idl_member, simp add: closeBundledPositionIx_def Let_def,
      simp_all add: closeBundledPositionIx_def idl_closeBundledPosition_def ix_check)

lemma collectFeesV2Ix_fits: "fits_idl (collectFeesV2Ix program params)"
  by (rule fits_idlI [where d = idl_collectFeesV2], rule idl_member, simp add: collectFeesV2Ix_def Let_def case_prod_beta,
      simp_all add: collectFeesV2Ix_def idl_collectFeesV2_def ix_check)

lemma collectProtocolFeesV2Ix_fits: "fits_idl (collectProtocolFeesV2Ix program params)"
  by (rule fits_idlI [where d = idl_collectProtocolFeesV2], rule idl_member, simp add: collectProtocolFeesV2Ix_def Let_def case_prod_beta,
      simp_all add: collectProtocolFeesV2Ix_def idl_collectProtocolFeesV2_def ix_check)

lemma collectRewardV2Ix_fits: "fits_idl (collectRewardV2Ix program params)"
  by (rule fits_idlI [where d = idl_collectRewardV2], rule idl_member, simp add: collectRewardV2Ix_def Let_def case_prod_beta,
      simp_all add: collectRewardV2Ix_def idl_collectRewardV2_def ix_check)

lemma decreaseLiquidityV2Ix_fits: "fits_idl (decreaseLiquidityV2Ix program params)"
  by (rule fits_idlI [where d = idl_decreaseLiquidityV2], rule idl_member, simp add: decreaseLiquidityV2Ix_def Let_def case_prod_beta,
      simp_all add: decreaseLiquidityV2Ix_def idl_decreaseLiquidityV2_def ix_check)

lemma increaseLiquidityV2Ix_fits: "fits_idl (increaseLiquidityV2Ix program params)"
  by (rule fits_idlI [where d = idl_increaseLiquidityV2], rule idl_member, simp add: increaseLiquidityV2Ix_def Let_def case_prod_beta,
      simp_all add: increaseLiquidityV2Ix_def idl_increaseLiquidityV2_def ix_check)

lemma initializePoolV2Ix_fits: "fits_idl (initializePoolV2Ix program params)"
  by (rule fits_idlI [where d = idl_initializePoolV2], rule idl_member, simp add: initializePoolV2Ix_def Let_def,
      simp_all add: initializePoolV2Ix_def idl_initializePoolV2_def ix_check)

lemma initializeRewardV2Ix_fits: "fits_idl (initializeRewardV2Ix program params)"
  by (rule fits_idlI [where d = idl_initializeRewardV2], rule idl_member, simp add: initializeRewardV2Ix_def Let_def,
      simp_all add: initializeRewardV2Ix_def idl_initializeRewardV2_def ix_check)

lemma setRewardEmissionsV2Ix_fits: "fits_idl (setRewardEmissionsV2Ix program params)"
  by (rule fits_idlI [where d = idl_setRewardEmissionsV2], rule idl_member, simp add: setRewardEmissionsV2Ix_def Let_def,
      simp_all add: setRewardEmissionsV2Ix_def idl_setRewardEmissionsV2_def ix_check)

lemma swapV2Ix_fits: "fits_idl (swapV2Ix program params)"
  by (rule fits_idlI [where d = idl_swapV2], rule idl_member, simp add: swapV2Ix_def Let_def case_prod_beta,
      simp_all add: swapV2Ix_def idl_swapV2_def ix_check)

lemma twoHopSwapV2Ix_fits: "fits_idl (twoHopSwapV2Ix program params)"
  by (rule fits_idlI [where d = idl_twoHopSwapV2], rule idl_member, simp add: twoHopSwapV2Ix_def Let_def case_prod_beta,
      simp_all add: twoHopSwapV2Ix_def idl_twoHopSwapV2_def ix_check)

lemma initializeConfigExtensionIx_fits: "fits_idl (initializeConfigExtensionIx program params)"
  by (rule fits_idlI [where d = idl_initializeConfigExtension], rule idl_member, simp add: initializeConfigExtensionIx_def Let_def,
      simp_all add: initializeConfigExtensionIx_def idl_initializeConfigExtension_def ix_check)

lemma setConfigExtensionAuthorityIx_fits: "fits_idl (setConfigExtensionAuthorityIx program params)"
  by (rule fits_idlI [where d = idl_setConfigExtensionAuthority], rule idl_member, simp add: setConfigExtensionAuthorityIx_def Let_def,
      simp_all add: setConfigExtensionAuthorityIx_def idl_setConfigExtensionAuthority_def ix_check)

lemma setTokenBadgeAuthorityIx_fits: "fits_idl (setTokenBadgeAuthorityIx program params)"
  by (rule fits_idlI [where d = idl_setTokenBadgeAuthority], rule idl_member, simp add: setTokenBadgeAuthorityIx_def Let_def,
      simp_all add: setTokenBadgeAuthorityIx_def idl_setTokenBadgeAuthority_def ix_check)

lemma initializeTokenBadgeIx_fits: "fits_idl (initializeTokenBadgeIx program params)"
  by (rule fits_idlI [where d = idl_initializeTokenBadge], rule idl_member, simp add: initializeTokenBadgeIx_def Let_def,
      simp_all add: initializeTokenBadgeIx_def idl_initializeTokenBadge_def ix_check)

lemma deleteTokenBadgeIx_fits: "fits_idl (deleteTokenBadgeIx program params)"
  by (rule fits_idlI [where d = idl_deleteTokenBadge], rule idl_member, simp add: deleteTokenBadgeIx_def Let_def,
      simp_all add: deleteTokenBadgeIx_def idl_deleteTokenBadge_def ix_check)

lemmas builder_fits =
  initializeConfigIx_fits initializeFeeTierIx_fits initializePoolIx_fits initializeRewardIx_fits
  initTickArrayIx_fits openPositionIx_fits openPositionWithMetadataIx_fits increaseLiquidityIx_fits
  decreaseLiquidityIx_fits closePositionIx_fits swapIx_fits twoHopSwapIx_fits updateFeesAndRewardsIx_fits
  collectFeesIx_fits collectProtocolFeesIx_fits collectRewardIx_fits setCollectProtocolFeesAuthorityIx_fits
  setDefaultProtocolFeeRateIx_fits setFeeAuthorityIx_fits setFeeRateIx_fits setProtocolFeeRateIx_fits
  setRewardAuthorityBySuperAuthorityIx_fits setRewardAuthorityIx_fits setRewardEmissionsIx_fits
  setRewardEmissionsSuperAuthorityIx_fits initializePositionBundleIx_fits
  initializePositionBundleWithMetadataIx_fits deletePositionBundleIx_fits openBundledPositionIx_fits
  closeBundledPositionIx_fits collectFeesV2Ix_fits collectProtocolFeesV2Ix_fits collectRewardV2Ix_fits
  decreaseLiquidityV2Ix_fits increaseLiquidityV2Ix_fits initializePoolV2Ix_fits initializeRewardV2Ix_fits
  setRewardEmissionsV2Ix_fits swapV2Ix_fits twoHopSwapV2Ix_fits initializeConfigExtensionIx_fits
  setConfigExtensionAuthorityIx_fits setTokenBadgeAuthorityIx_fits initializeTokenBadgeIx_fits
  deleteTokenBadgeIx_fits

lemmas builder_defs = call_ix_def openPositionAccounts_def
  initializeConfigIx_def initializeFeeTierIx_def initializePoolIx_def initializeRewardIx_def
  initTickArrayIx_def openPositionIx_def openPositionWithMetadataIx_def increaseLiquidityIx_def
  decreaseLiquidityIx_def closePositionIx_def swapIx_def twoHopSwapIx_def updateFeesAndRewardsIx_def
  collectFeesIx_def collectProtocolFeesIx_def collectRewardIx_def setCollectProtocolFeesAuthorityIx_def
  setDefaultFeeRateIx_def setDefaultProtocolFeeRateIx_def setFeeAuthorityIx_def setFeeRateIx_def
  setProtocolFeeRateIx_def setRewardAuthorityBySuperAuthorityIx_def setRewardAuthorityIx_def
  setRewardEmissionsIx_def setRewardEmissionsSuperAuthorityIx_def initializePositionBundleIx_def
  initializePositionBundleWithMetadataIx_def deletePositionBundleIx_def openBundledPositionIx_def
  closeBundledPositionIx_def collectFeesV2Ix_def collectProtocolFeesV2Ix_def collectRewardV2Ix_def
  decreaseLiquidityV2Ix_def increaseLiquidityV2Ix_def initializePoolV2Ix_def initializeRewardV2Ix_def
  setRewardEmissionsV2Ix_def swapV2Ix_def twoHopSwapV2Ix_def initializeConfigExtensionIx_def
  setConfigExtensionAuthorityIx_def setTokenBadgeAuthorityIx_def initializeTokenBadgeIx_def
  deleteTokenBadgeIx_def

text \<open>The tick arrays of a swap may be missing: they are the only accounts that come from a quote.\<close>

fun swap_arrays :: "ix_request \<Rightarrow> pubkey option list" where
  "swap_arrays (SwapIx p) = map (\<lambda>f. f (sp_input p)) [si_tickArray0, si_tickArray1, si_tickArray2]"
| "swap_arrays (SwapV2Ix p) = map (\<lambda>f. f (swap2_input p)) [si_tickArray0, si_tickArray1, si_tickArray2]"
| "swap_arrays (TwoHopSwapIx p) = map (\<lambda>f. f (ths_input p)) [thsi_tickArrayOne0, thsi_tickArrayOne1,
     thsi_tickArrayOne2, thsi_tickArrayTwo0, thsi_tickArrayTwo1, thsi_tickArrayTwo2]"
| "swap_arrays (TwoHopSwapV2Ix p) = map (\<lambda>f. f (ths2_input p)) [thsi_tickArrayOne0, thsi_tickArrayOne1,
     thsi_tickArrayOne2, thsi_tickArrayTwo0, thsi_tickArrayTwo1, thsi_tickArrayTwo2]"
| "swap_arrays _ = []"

definition accounts_given :: "Instruction \<Rightarrow> bool" where
  "accounts_given ins \<longleftrightarrow>
     list_all (\<lambda>ix. case ix of Call c \<Rightarrow> list_all (\<lambda>(n, k). k \<noteq> None) (ac_accounts c) | _ \<Rightarrow> False)
       (in_instructions ins)"

lemma builder_accounts_given:
  "list_all (\<lambda>k. k \<noteq> None) (swap_arrays r) \<Longrightarrow> whirlpool_ix program r = Inr ins \<Longrightarrow> accounts_given ins"
  by (cases r)
    (auto simp: accounts_given_def builder_defs case_prod_beta bindE_eq_Inr Let_def)


definition example_program :: program_env where
  "example_program = \<lparr>pg_programId = ''whirlpool'', pg_tokenProgram = ''token'', pg_associatedTokenProgram = ''ata'',
     pg_systemProgram = ''system'', pg_rent = ''rent'',
     pg_findProgramAddress = (\<lambda>seeds program. \<lparr>publicKey = program, bump = 255\<rparr>)\<rparr>"

definition example_swap_params :: SwapParams where
  "example_swap_params = \<lparr>sp_input = \<lparr>si_amount = 1000, si_otherAmountThreshold = 0, si_sqrtPriceLimit = MIN_SQRT_PRICE,
       si_amountSpecifiedIsInput = True, si_aToB = True, si_tickArray0 = Some ''t0'', si_tickArray1 = Some ''t1'',
       si_tickArray2 = Some ''t2''\<rparr>,
     sp_whirlpool = ''pool'', sp_tokenOwnerAccountA = ''oa'', sp_tokenOwnerAccountB = ''ob'', sp_tokenVaultA = ''va'',
     sp_tokenVaultB = ''vb'', sp_oracle = ''oracle'', sp_tokenAuthority = ''me''\<rparr>"


end
