(* ===== verification/Tx_Builder.thy ===== *)
theory Tx_Builder
  imports Ix_Core
begin

text \<open>
  Transactions (\<^verbatim>\<open>sdk/src/utils/txn-utils.ts\<close>). A \<^verbatim>\<open>TransactionBuilder\<close> of \<^verbatim>\<open>@orca-so/common-sdk\<close>
  is the list of the instructions that were added to it; how it compresses them into one
  instruction, how large the transaction gets, which token accounts exist, and the
  instructions that create one, are parameters (\<open>tx_env\<close>). The class
  \<^verbatim>\<open>MultipleTransactionBuilderFactoryWithAccountResolver\<close> is the record \<open>tx_factory\<close> of its fields; a
  method returns the updated record. A callback that asks for token accounts while it builds
  instructions is a \<open>generator\<close>: a tree of requests. The relation \<open>packs\<close> is the abstract
  machine both packing loops of the SDK follow, and the locale \<open>packing\<close> says what holds of
  the transactions it makes.
\<close>

record ResolvedTokenAddressInstruction = Instruction +
  rta_address :: pubkey

text \<open>
  The packages and the wallet. \<open>te_txnSize\<close> is \<^verbatim>\<open>None\<close> when measuring throws.
  \<open>te_createWrappedNativeAccount\<close> draws a fresh key pair each time, hence the number of the call;
  then come the owner, the amount, and the optional payer and destination.
  \<open>te_resolveOrCreateATAs\<close> takes the owner, the mints with the amounts of SOL to wrap, the
  optional payer and the mode; \<open>te_getAssociatedTokenAddress\<close> the mint, the owner and the
  token program; \<open>te_createSendTokensToWallet\<close> the sender, the receiver, the mint and its decimals, the
  amount and the payer. The rent exemption of an account is passed on unchanged and left out.
\<close>

record tx_env =
  te_program :: program_env
  te_wallet :: pubkey
  te_NATIVE_MINT :: pubkey
  te_compressIx :: "bool \<Rightarrow> Instruction list \<Rightarrow> Instruction"
  te_txnSize :: "Instruction list \<Rightarrow> nat option"
  te_getAssociatedTokenAddress :: "pubkey \<Rightarrow> pubkey \<Rightarrow> pubkey \<Rightarrow> pubkey res"
  te_resolveOrCreateATAs :: "pubkey \<Rightarrow> (pubkey \<times> int option) list \<Rightarrow> pubkey option \<Rightarrow> bool \<Rightarrow>
    ResolvedTokenAddressInstruction list res"
  te_createWrappedNativeAccount :: "nat \<Rightarrow> pubkey \<Rightarrow> int \<Rightarrow> pubkey option \<Rightarrow> pubkey option \<Rightarrow>
    ResolvedTokenAddressInstruction"
  te_createSendTokensToWallet :: "pubkey \<Rightarrow> pubkey \<Rightarrow> pubkey \<Rightarrow> int \<Rightarrow> int \<Rightarrow> pubkey \<Rightarrow> Instruction res"
  te_PACKET_DATA_SIZE :: nat

type_synonym resolved_atas = "string \<rightharpoonup> ResolvedTokenAddressInstruction"

definition checkMergedTransactionSizeIsValid :: "tx_env \<Rightarrow> Instruction list list \<Rightarrow> bool" where
  "checkMergedTransactionSizeIsValid env builders \<longleftrightarrow>
     te_txnSize env (map (te_compressIx env True) builders) \<noteq> None"

subsection \<open>Callbacks\<close>

datatype generator =
    Resolve string "pubkey \<Rightarrow> generator"
  | Yield "Instruction list res"

text \<open>
  Running a callback: the first request for a mint adds the instruction of its account to
  \<^verbatim>\<open>newTxBuilder\<close>; reading \<^verbatim>\<open>address\<close> of an account that was never resolved throws.
\<close>

primrec run_generator ::
    "resolved_atas \<Rightarrow> generator \<Rightarrow> string set \<times> Instruction list \<Rightarrow> (string set \<times> Instruction list) res" where
  "run_generator atas (Yield ixs) st = bindE ixs (\<lambda>ixs. Inr (fst st, snd st @ ixs))"
| "run_generator atas (Resolve mint cont) st =
     (case atas mint of
        None \<Rightarrow> Inl TypeError
      | Some ata \<Rightarrow>
          run_generator atas (cont (rta_address ata))
            (if mint \<notin> fst st then (insert mint (fst st), snd st @ [Instruction.truncate ata]) else st))"

text \<open>The callback that asks for the accounts of some mints and then builds its instructions.\<close>

primrec with_accounts :: "string list \<Rightarrow> (pubkey list \<Rightarrow> Instruction list res) \<Rightarrow> generator" where
  "with_accounts [] f = Yield (f [])"
| "with_accounts (m # ms) f = Resolve m (\<lambda>a. with_accounts ms (\<lambda>as. f (a # as)))"

subsection \<open>The factory\<close>

text \<open>
  \<open>mf_drawn\<close> counts the native accounts the factory made; it stands for the randomness of their
  key pairs.
\<close>

record tx_factory =
  mf_txBuilders :: "Instruction list list"
  mf_pendingTxBuilder :: "Instruction list option"
  mf_touchedMints :: "string set option"
  mf_resolvedAtas :: resolved_atas
  mf_tokenOwner :: pubkey
  mf_payer :: pubkey
  mf_drawn :: nat

definition new_tx_factory :: "resolved_atas \<Rightarrow> pubkey \<Rightarrow> pubkey \<Rightarrow> tx_factory" where
  "new_tx_factory resolvedAtas tokenOwner payer =
     \<lparr>mf_txBuilders = [], mf_pendingTxBuilder = None, mf_touchedMints = None, mf_resolvedAtas = resolvedAtas,
      mf_tokenOwner = tokenOwner, mf_payer = payer, mf_drawn = 0\<rparr>"

definition open_pending :: "tx_env \<Rightarrow> tx_factory \<Rightarrow> tx_factory" where
  "open_pending env this' =
     (case (mf_pendingTxBuilder this', mf_touchedMints this') of
        (Some _, Some _) \<Rightarrow> this'
      | _ \<Rightarrow> this'\<lparr>mf_pendingTxBuilder := Some [], mf_touchedMints := Some {},
               mf_resolvedAtas := (mf_resolvedAtas this')(te_NATIVE_MINT env \<mapsto>
                 te_createWrappedNativeAccount env (mf_drawn this') (mf_tokenOwner this') 0
                   (Some (mf_payer this')) (Some (mf_tokenOwner this'))),
               mf_drawn := mf_drawn this' + 1\<rparr>)"

text \<open>The rounds of \<^verbatim>\<open>for (let iter = 0; iter < 2; iter++)\<close> that are left.\<close>

fun add_rounds :: "nat \<Rightarrow> tx_env \<Rightarrow> generator \<Rightarrow> tx_factory \<Rightarrow> tx_factory res" where
  "add_rounds 0 env gen this' = Inr this'"
| "add_rounds (Suc rounds) env gen this' =
     (let this' = open_pending env this';
          pending = the (mf_pendingTxBuilder this'); touched = the (mf_touchedMints this') in
      bindE (run_generator (mf_resolvedAtas this') gen (touched, [])) (\<lambda>(touched, newTxBuilder).
      if checkMergedTransactionSizeIsValid env [pending, newTxBuilder]
      then Inr (this'\<lparr>mf_pendingTxBuilder := Some (pending @ [te_compressIx env False newTxBuilder]),
                     mf_touchedMints := Some touched\<rparr>)
      else if rounds = 0 then Inl PlainError
      else add_rounds rounds env gen
             (this'\<lparr>mf_txBuilders := mf_txBuilders this' @ [pending], mf_pendingTxBuilder := None,
                    mf_touchedMints := None\<rparr>)))"

definition mf_addInstructions :: "tx_env \<Rightarrow> generator \<Rightarrow> tx_factory \<Rightarrow> tx_factory res" where
  "mf_addInstructions env = add_rounds 2 env"

definition mf_build :: "tx_factory \<Rightarrow> Instruction list list" where
  "mf_build this' =
     (case mf_pendingTxBuilder this' of
        Some pending \<Rightarrow> mf_txBuilders this' @ [pending]
      | None \<Rightarrow> mf_txBuilders this')"

subsection \<open>Packing tasks into transactions\<close>

text \<open>
  The abstract machine: the \<open>n\<close>-th transaction is open and holds the tasks of \<open>cur\<close> with the
  instructions they emitted; \<open>past\<close> are the transactions before it. A task may be added
  when the packed transaction passes the check; a transaction may be closed at any time.
\<close>

type_synonym 't packed = "('t \<times> Instruction list) list"

inductive packs ::
    "(nat \<Rightarrow> 's \<Rightarrow> 't \<Rightarrow> ('s \<times> Instruction list) res) \<Rightarrow> 's \<Rightarrow> ('t packed \<Rightarrow> Instruction list \<Rightarrow> bool) \<Rightarrow>
     nat \<Rightarrow> 't packed list \<Rightarrow> 't packed \<Rightarrow> 's \<Rightarrow> bool" for emit fresh ok where
  start: "packs emit fresh ok 0 [] [] fresh"
| add: "packs emit fresh ok n past cur s \<Longrightarrow> emit n s t = Inr (s', new) \<Longrightarrow> ok cur new \<Longrightarrow>
    packs emit fresh ok n past (cur @ [(t, new)]) s'"
| close: "packs emit fresh ok n past cur s \<Longrightarrow> packs emit fresh ok (Suc n) (past @ [cur]) [] fresh"

definition emitted :: "'t packed \<Rightarrow> Instruction list" where
  "emitted tx = concat (map snd tx)"

text \<open>Every task of a transaction is good after the instructions before it, and was checked.\<close>

definition each_good ::
    "(nat \<Rightarrow> Instruction list \<Rightarrow> 't \<Rightarrow> Instruction list \<Rightarrow> bool) \<Rightarrow> ('t packed \<Rightarrow> Instruction list \<Rightarrow> bool) \<Rightarrow>
     nat \<Rightarrow> 't packed \<Rightarrow> bool" where
  "each_good good ok n tx \<longleftrightarrow>
     (\<forall>k < length tx. good n (emitted (take k tx)) (fst (tx ! k)) (snd (tx ! k)) \<and> ok (take k tx) (snd (tx ! k)))"

lemma each_good_Nil [simp]: "each_good good ok n []"
  by (simp add: each_good_def)

lemma each_good_snoc:
  "each_good good ok n (tx @ [(t, new)]) \<longleftrightarrow> each_good good ok n tx \<and> good n (emitted tx) t new \<and> ok tx new"
  by (auto simp: each_good_def nth_append less_Suc_eq)

locale packing =
  fixes emit :: "nat \<Rightarrow> 's \<Rightarrow> 't \<Rightarrow> ('s \<times> Instruction list) res"
    and fresh :: 's
    and supported :: "nat \<Rightarrow> 's \<Rightarrow> Instruction list \<Rightarrow> bool"
    and good :: "nat \<Rightarrow> Instruction list \<Rightarrow> 't \<Rightarrow> Instruction list \<Rightarrow> bool"
  assumes fresh_supported: "supported n fresh []"
    and emit_supported: "supported n s ixs \<Longrightarrow> emit n s t = Inr (s', new) \<Longrightarrow> supported n s' (ixs @ new)"
    and emit_good: "supported n s ixs \<Longrightarrow> emit n s t = Inr (s', new) \<Longrightarrow> good n ixs t new"
begin

lemma packs_good:
  "packs emit fresh ok n past cur s \<Longrightarrow>
   length past = n \<and> supported n s (emitted cur) \<and> each_good good ok n cur \<and>
   (\<forall>i < n. each_good good ok i (past ! i))"
proof (induction rule: packs.induct)
  case start
  then show ?case by (simp add: fresh_supported emitted_def)
next
  case (add n past cur s t s' new)
  then show ?case
    using emit_supported [of n s "emitted cur" t s' new] emit_good [of n s "emitted cur" t s' new]
    by (simp add: each_good_snoc) (simp add: emitted_def)
next
  case (close n past cur s)
  then show ?case by (auto simp: fresh_supported emitted_def nth_append less_Suc_eq)
qed

lemma packed_transactions_good:
  assumes "packs emit fresh ok n past cur s" "i < length (past @ [cur])"
  shows "each_good good ok i ((past @ [cur]) ! i)"
  using packs_good [OF assms(1)] assms(2) by (auto simp: nth_append less_Suc_eq)

end

subsection \<open>The factory packs\<close>

text \<open>The mints a callback asks for, and what it builds in the end.\<close>

primrec requests :: "resolved_atas \<Rightarrow> generator \<Rightarrow> string list" where
  "requests atas (Yield ixs) = []"
| "requests atas (Resolve mint cont) =
     mint # (case atas mint of None \<Rightarrow> [] | Some ata \<Rightarrow> requests atas (cont (rta_address ata)))"

primrec built :: "resolved_atas \<Rightarrow> generator \<Rightarrow> Instruction list res" where
  "built atas (Yield ixs) = ixs"
| "built atas (Resolve mint cont) =
     (case atas mint of None \<Rightarrow> Inl TypeError | Some ata \<Rightarrow> built atas (cont (rta_address ata)))"

definition account_ix :: "resolved_atas \<Rightarrow> string \<Rightarrow> Instruction" where
  "account_ix atas mint = Instruction.truncate (the (atas mint))"

text \<open>The accounts that are there: every touched mint has its instruction in the transaction.\<close>

definition atas_supported :: "(nat \<Rightarrow> resolved_atas) \<Rightarrow> nat \<Rightarrow> string set \<Rightarrow> Instruction list \<Rightarrow> bool" where
  "atas_supported atas n touched ixs \<longleftrightarrow> (\<forall>m \<in> touched. atas n m \<noteq> None \<and> account_ix (atas n) m \<in> set ixs)"

text \<open>
  A callback is served when its own instructions come last, and before them, in the same
  transaction, every account it asked for is set up.
\<close>

definition gen_served :: "(nat \<Rightarrow> resolved_atas) \<Rightarrow> nat \<Rightarrow> Instruction list \<Rightarrow> generator \<Rightarrow> Instruction list \<Rightarrow> bool" where
  "gen_served atas n ixs gen new \<longleftrightarrow>
     (\<exists>prep own. new = prep @ own \<and> built (atas n) gen = Inr own \<and>
        (\<forall>m \<in> set (requests (atas n) gen). atas n m \<noteq> None \<and> account_ix (atas n) m \<in> set (ixs @ prep)))"

lemma run_generator_served:
  assumes "run_generator (atas n) gen (touched, new0) = Inr (touched', new)"
    and "atas_supported atas n touched (ixs @ new0)"
  shows "atas_supported atas n touched' (ixs @ new) \<and>
    (\<exists>prep own. new = new0 @ prep @ own \<and> built (atas n) gen = Inr own \<and>
       (\<forall>m \<in> set (requests (atas n) gen). atas n m \<noteq> None \<and> account_ix (atas n) m \<in> set (ixs @ new0 @ prep)))"
  using assms
proof (induction gen arbitrary: touched new0)
  case (Yield r)
  then show ?case by (cases r) (auto simp: atas_supported_def)
next
  case (Resolve mint cont)
  then obtain ata where ata: "atas n mint = Some ata" by (cases "atas n mint") auto
  let ?t = "insert mint touched" and ?i = "if mint \<in> touched then [] else [account_ix (atas n) mint]"
  have run: "run_generator (atas n) (cont (rta_address ata)) (?t, new0 @ ?i) = Inr (touched', new)"
    using Resolve.prems(1) ata by (auto simp: account_ix_def insert_absorb split: if_splits)
  have sup: "atas_supported atas n ?t (ixs @ new0 @ ?i)"
    using Resolve.prems(2) ata by (auto simp: atas_supported_def)
  from Resolve.IH [OF _ run] sup obtain prep own where
    ih: "atas_supported atas n touched' (ixs @ new)" "new = (new0 @ ?i) @ prep @ own"
      "built (atas n) (cont (rta_address ata)) = Inr own"
      "\<forall>m \<in> set (requests (atas n) (cont (rta_address ata))). atas n m \<noteq> None \<and>
        account_ix (atas n) m \<in> set (ixs @ (new0 @ ?i) @ prep)"
    by (auto simp del: append_assoc)
  have "account_ix (atas n) mint \<in> set (ixs @ new0 @ ?i @ prep)"
    using sup by (auto simp: atas_supported_def)
  then show ?case
    using ih ata by (intro conjI exI [of _ "?i @ prep"] exI [of _ own]) auto
qed

definition gen_emit ::
    "(nat \<Rightarrow> resolved_atas) \<Rightarrow> nat \<Rightarrow> string set \<Rightarrow> generator \<Rightarrow> (string set \<times> Instruction list) res" where
  "gen_emit atas n touched gen = run_generator (atas n) gen (touched, [])"

interpretation factory: packing "gen_emit atas" "{}" "atas_supported atas" "gen_served atas" for atas
proof
  show "atas_supported atas n {} []" for n by (simp add: atas_supported_def)
next
  fix n s ixs t s' new
  assume *: "atas_supported atas n s ixs" "gen_emit atas n s t = Inr (s', new)"
  from run_generator_served [where atas = atas, OF *(2) [unfolded gen_emit_def], of ixs] *(1)
  show "atas_supported atas n s' (ixs @ new)" "gen_served atas n ixs t new"
    by (auto simp: gen_served_def)
qed

text \<open>
  The accounts a factory resolves from: the ones it was given, with the wrapped native account of
  the transaction. Its state as a state of the abstract machine.
\<close>

definition factory_atas :: "tx_env \<Rightarrow> pubkey \<Rightarrow> pubkey \<Rightarrow> resolved_atas \<Rightarrow> nat \<Rightarrow> resolved_atas" where
  "factory_atas env tokenOwner payer base n =
     base(te_NATIVE_MINT env \<mapsto> te_createWrappedNativeAccount env n tokenOwner 0 (Some payer) (Some tokenOwner))"

definition tx_of :: "tx_env \<Rightarrow> generator packed \<Rightarrow> Instruction list" where
  "tx_of env tx = map (\<lambda>(gen, new). te_compressIx env False new) tx"

definition tx_checked :: "tx_env \<Rightarrow> generator packed \<Rightarrow> Instruction list \<Rightarrow> bool" where
  "tx_checked env tx new \<longleftrightarrow> checkMergedTransactionSizeIsValid env [tx_of env tx, new]"

definition factory_state ::
    "tx_env \<Rightarrow> resolved_atas \<Rightarrow> tx_factory \<Rightarrow> nat \<Rightarrow> generator packed list \<Rightarrow> generator packed \<Rightarrow> string set \<Rightarrow> bool" where
  "factory_state env base fac n past cur touched \<longleftrightarrow>
     (let atas = factory_atas env (mf_tokenOwner fac) (mf_payer fac) base in
      packs (gen_emit atas) {} (tx_checked env) n past cur touched \<and>
      mf_txBuilders fac = map (tx_of env) past \<and>
      ((mf_pendingTxBuilder fac = Some (tx_of env cur) \<and> mf_touchedMints fac = Some touched \<and>
          mf_drawn fac = Suc n \<and> mf_resolvedAtas fac = atas n) \<or>
       (mf_pendingTxBuilder fac = None \<and> mf_touchedMints fac = None \<and> mf_drawn fac = n \<and>
          cur = [] \<and> touched = {} \<and> (\<forall>x. (mf_resolvedAtas fac)(te_NATIVE_MINT env \<mapsto> x) = base(te_NATIVE_MINT env \<mapsto> x)))))"

lemma new_factory_state: "factory_state env base (new_tx_factory base tokenOwner payer) 0 [] [] {}"
  by (simp add: factory_state_def new_tx_factory_def packs.start Let_def)

lemma open_pending_state:
  assumes "factory_state env base fac n past cur touched"
  shows "factory_state env base (open_pending env fac) n past cur touched \<and>
    mf_pendingTxBuilder (open_pending env fac) = Some (tx_of env cur) \<and>
    mf_touchedMints (open_pending env fac) = Some touched \<and>
    mf_resolvedAtas (open_pending env fac) = factory_atas env (mf_tokenOwner fac) (mf_payer fac) base n \<and>
    mf_tokenOwner (open_pending env fac) = mf_tokenOwner fac \<and> mf_payer (open_pending env fac) = mf_payer fac"
  using assms by (auto simp: factory_state_def open_pending_def Let_def factory_atas_def tx_of_def)

text \<open>One callback: it ends up last, in the open transaction or in a new one.\<close>

lemma add_rounds_state:
  assumes "factory_state env base fac n past cur touched" "0 < rounds"
    and "add_rounds rounds env gen fac = Inr fac'"
  shows "\<exists>n' past' cur' touched'. factory_state env base fac' n' past' cur' touched' \<and>
    mf_tokenOwner fac' = mf_tokenOwner fac \<and> mf_payer fac' = mf_payer fac \<and> mf_pendingTxBuilder fac' \<noteq> None \<and>
    map fst (concat past' @ cur') = map fst (concat past @ cur) @ [gen]"
  using assms
proof (induction rounds arbitrary: fac n past cur touched)
  case 0
  then show ?case by simp
next
  case (Suc rounds)
  let ?fac = "open_pending env fac"
  let ?atas = "factory_atas env (mf_tokenOwner fac) (mf_payer fac) base"
  note op = open_pending_state [OF Suc.prems(1)]
  obtain touched' new where run: "run_generator (?atas n) gen (touched, []) = Inr (touched', new)"
    using Suc.prems(3) op by (auto simp: Let_def bindE_eq_Inr)
  have packs: "packs (gen_emit ?atas) {} (tx_checked env) n past cur touched"
    and bs: "mf_txBuilders ?fac = map (tx_of env) past" and dr: "mf_drawn ?fac = Suc n"
    using op by (auto simp: factory_state_def Let_def)
  show ?case
  proof (cases "tx_checked env cur new")
    case True
    then have fac': "fac' = ?fac\<lparr>mf_pendingTxBuilder := Some (tx_of env (cur @ [(gen, new)])), mf_touchedMints := Some touched'\<rparr>"
      using Suc.prems(3) op run by (simp add: Let_def tx_checked_def tx_of_def)
    have "packs (gen_emit ?atas) {} (tx_checked env) n past (cur @ [(gen, new)]) touched'"
      using packs.add [OF packs _ True] run by (simp add: gen_emit_def)
    then have "factory_state env base fac' n past (cur @ [(gen, new)]) touched'"
      using op bs dr by (simp add: factory_state_def fac' Let_def)
    then show ?thesis using op by (intro exI) (auto simp: fac')
  next
    case False
    let ?next = "?fac\<lparr>mf_txBuilders := mf_txBuilders ?fac @ [tx_of env cur], mf_pendingTxBuilder := None, mf_touchedMints := None\<rparr>"
    have again: "rounds \<noteq> 0" "add_rounds rounds env gen ?next = Inr fac'"
      using Suc.prems(3) op run False by (auto simp: Let_def tx_checked_def split: if_splits)
    have "factory_state env base ?next (Suc n) (past @ [cur]) [] {}"
      using packs.close [OF packs] op bs dr by (simp add: factory_state_def Let_def factory_atas_def)
    from Suc.IH [OF this _ again(2)] again(1) op show ?thesis by auto
  qed
qed

lemma add_all_state:
  assumes "factory_state env base fac n past cur touched" "foldE (mf_addInstructions env) gens fac = Inr fac'"
  shows "\<exists>n' past' cur' touched'. factory_state env base fac' n' past' cur' touched' \<and>
    mf_tokenOwner fac' = mf_tokenOwner fac \<and> mf_payer fac' = mf_payer fac \<and>
    (gens \<noteq> [] \<longrightarrow> mf_pendingTxBuilder fac' \<noteq> None) \<and>
    map fst (concat past' @ cur') = map fst (concat past @ cur) @ gens"
  using assms
proof (induction gens arbitrary: fac n past cur touched)
  case Nil
  then show ?case by auto
next
  case (Cons gen gens)
  then obtain fac1 where fac1: "add_rounds 2 env gen fac = Inr fac1" "foldE (mf_addInstructions env) gens fac1 = Inr fac'"
    by (auto simp: mf_addInstructions_def bindE_eq_Inr)
  from add_rounds_state [OF Cons.prems(1) _ fac1(1)] obtain n1 past1 cur1 touched1 where
    st: "factory_state env base fac1 n1 past1 cur1 touched1" "mf_tokenOwner fac1 = mf_tokenOwner fac"
      "mf_payer fac1 = mf_payer fac" "mf_pendingTxBuilder fac1 \<noteq> None"
      "map fst (concat past1 @ cur1) = map fst (concat past @ cur) @ [gen]"
    by auto
  from Cons.IH [OF st(1) fac1(2)] obtain n' past' cur' touched' where
    ih: "factory_state env base fac' n' past' cur' touched'" "mf_tokenOwner fac' = mf_tokenOwner fac1"
      "mf_payer fac' = mf_payer fac1" "gens \<noteq> [] \<longrightarrow> mf_pendingTxBuilder fac' \<noteq> None"
      "map fst (concat past' @ cur') = map fst (concat past1 @ cur1) @ gens"
    by blast
  have "map fst (concat past' @ cur') = map fst (concat past @ cur) @ gen # gens"
    by (simp only: ih(5) st(5) append.simps append_assoc)
  moreover have "mf_pendingTxBuilder fac' \<noteq> None" using ih(4) st(4) fac1(2) by (cases gens) auto
  ultimately show ?case using ih(1-3) st(2,3) by (intro exI conjI) simp_all
qed

text \<open>The transactions of a factory, read off its state.\<close>

lemma factory_packs:
  assumes "foldE (mf_addInstructions env) gens (new_tx_factory base tokenOwner payer) = Inr fac"
  shows "\<exists>txs. mf_build fac = map (tx_of env) txs \<and> map fst (concat txs) = gens \<and>
    (\<forall>i < length txs. each_good (gen_served (factory_atas env tokenOwner payer base)) (tx_checked env) i (txs ! i))"
proof -
  let ?atas = "factory_atas env tokenOwner payer base"
  from add_all_state [OF new_factory_state [where base = base] assms] obtain n past cur touched where
    st: "factory_state env base fac n past cur touched" "gens \<noteq> [] \<longrightarrow> mf_pendingTxBuilder fac \<noteq> None"
      "map fst (concat past @ cur) = gens"
      and tp: "mf_tokenOwner fac = tokenOwner" "mf_payer fac = payer"
    by (auto simp: new_tx_factory_def)
  let ?txs = "if mf_pendingTxBuilder fac = None then past else past @ [cur]"
  have "packs (gen_emit ?atas) {} (tx_checked env) n past cur touched"
    using st(1) tp by (simp add: factory_state_def Let_def)
  note good = factory.packed_transactions_good [OF this]
  have "\<forall>i < length ?txs. each_good (gen_served ?atas) (tx_checked env) i (?txs ! i)"
  proof (intro allI impI)
    fix i assume i: "i < length ?txs"
    then have "?txs ! i = (past @ [cur]) ! i" by (auto simp: nth_append split: if_splits)
    then show "each_good (gen_served ?atas) (tx_checked env) i (?txs ! i)" using good [of i] i by (auto split: if_splits)
  qed
  moreover have "mf_build fac = map (tx_of env) ?txs"
    using st(1) by (auto simp: factory_state_def mf_build_def Let_def split: option.splits)
  moreover have "map fst (concat ?txs) = gens"
    using st by (auto simp: factory_state_def Let_def)
  ultimately show ?thesis by blast
qed

text \<open>
  C18: The factory packs its callbacks into self-contained transactions: when a sequence of callbacks has
  been added to a new factory, the transactions it builds hold the callbacks one after the
  other, in the order they were added and each once; the instructions of a callback come
  after an instruction, in the same transaction, for every token account it asked for; and each
  transaction passed the size check with every callback it took in.
\<close>

theorem factory_packs_callbacks:
  assumes "foldE (mf_addInstructions env) gens (new_tx_factory base tokenOwner payer) = Inr fac"
  shows "\<exists>txs. mf_build fac = map (tx_of env) txs \<and> map fst (concat txs) = gens \<and>
    (\<forall>i < length txs. each_good (gen_served (factory_atas env tokenOwner payer base)) (tx_checked env) i (txs ! i))"
  using assms by (rule factory_packs)

subsection \<open>An example\<close>

text \<open>
  Packages for which a transaction holds at most \<open>limit\<close> instructions, a token account is named by
  its mint and owner, and creating it takes one instruction.
\<close>

definition compress_ref :: "bool \<Rightarrow> Instruction list \<Rightarrow> Instruction" where
  "compress_ref compressPost ixs =
     (let cleanup = concat (rev (map in_cleanupInstructions ixs)) in
      \<lparr>in_instructions = concat (map in_instructions ixs) @ (if compressPost then cleanup else []),
       in_cleanupInstructions = (if compressPost then [] else cleanup),
       in_signers = concat (map in_signers ixs)\<rparr>)"

definition ata_ref :: "pubkey \<Rightarrow> pubkey \<Rightarrow> ResolvedTokenAddressInstruction" where
  "ata_ref owner mint = \<lparr>in_instructions = [Package_ix ''create'' [mint @ owner]], in_cleanupInstructions = [],
     in_signers = [], rta_address = mint @ owner\<rparr>"

definition program_env_ref :: program_env where
  "program_env_ref = \<lparr>pg_programId = ''whirlpool'', pg_tokenProgram = ''token'', pg_associatedTokenProgram = ''ata'',
     pg_systemProgram = ''system'', pg_rent = ''rent'',
     pg_findProgramAddress = (\<lambda>seeds program. \<lparr>publicKey = program, bump = 255\<rparr>)\<rparr>"

definition tx_env_ref :: "nat \<Rightarrow> tx_env" where
  "tx_env_ref limit =
     \<lparr>te_program = program_env_ref, te_wallet = ''me'', te_NATIVE_MINT = ''SOL'', te_compressIx = compress_ref,
      te_txnSize = (\<lambda>ixs. if length (concat (map in_instructions ixs)) \<le> limit then Some 0 else None),
      te_getAssociatedTokenAddress = (\<lambda>mint owner program. Inr (mint @ owner)),
      te_resolveOrCreateATAs = (\<lambda>owner requests payer idempotent. Inr (map (\<lambda>(mint, wrap). ata_ref owner mint) requests)),
      te_createWrappedNativeAccount = (\<lambda>n owner amount payer dest. ata_ref owner ''SOL''),
      te_createSendTokensToWallet = (\<lambda>sender receiver mint decimals amount payer.
        Inr \<lparr>in_instructions = [Package_ix ''transfer'' [sender, receiver, mint]], in_cleanupInstructions = [], in_signers = []\<rparr>),
      te_PACKET_DATA_SIZE = 1232\<rparr>"

definition example_callback :: "string \<Rightarrow> generator" where
  "example_callback name = with_accounts [''A''] (\<lambda>as. Inr [\<lparr>in_instructions = [Package_ix name as],
     in_cleanupInstructions = [], in_signers = []\<rparr>])"

lemma example_callback_added:
  assumes "mf_pendingTxBuilder fac = None \<and> mf_touchedMints fac = None \<or>
      (\<exists>ix. mf_pendingTxBuilder fac = Some [ix] \<and> length (in_instructions ix) = 2 \<and> in_cleanupInstructions ix = [] \<and>
         mf_touchedMints fac = Some {''A''})"
    and "mf_resolvedAtas fac ''A'' = Some (ata_ref ''me'' ''A'')"
  shows "\<exists>fac' ix. mf_addInstructions (tx_env_ref 2) (example_callback name) fac = Inr fac' \<and>
    mf_txBuilders fac' = mf_txBuilders fac @ (case mf_pendingTxBuilder fac of None \<Rightarrow> [] | Some p \<Rightarrow> [p]) \<and>
    mf_pendingTxBuilder fac' = Some [ix] \<and> length (in_instructions ix) = 2 \<and> in_cleanupInstructions ix = [] \<and>
    mf_touchedMints fac' = Some {''A''} \<and> mf_resolvedAtas fac' ''A'' = Some (ata_ref ''me'' ''A'')"
  using assms
  apply (elim disjE conjE exE)
   apply (simp_all add: mf_addInstructions_def numeral_2_eq_2 open_pending_def Let_def example_callback_def)
   apply (simp_all add: tx_env_ref_def)
   apply (simp_all add: checkMergedTransactionSizeIsValid_def ata_ref_def Instruction.defs)
   apply (simp_all add: compress_ref_def)
  done

lemma example_callbacks_packed:
  "\<exists>fac. foldE (mf_addInstructions (tx_env_ref 2)) [example_callback ''x'', example_callback ''y'']
     (new_tx_factory [''A'' \<mapsto> ata_ref ''me'' ''A''] ''me'' ''me'') = Inr fac \<and> length (mf_build fac) = 2"
proof -
  let ?new = "new_tx_factory [''A'' \<mapsto> ata_ref ''me'' ''A''] ''me'' ''me''"
  have new: "mf_txBuilders ?new = []" "mf_pendingTxBuilder ?new = None" "mf_touchedMints ?new = None"
    "mf_resolvedAtas ?new ''A'' = Some (ata_ref ''me'' ''A'')"
    by (simp_all add: new_tx_factory_def)
  obtain fac1 ix where fac1: "mf_addInstructions (tx_env_ref 2) (example_callback ''x'') ?new = Inr fac1"
      "mf_txBuilders fac1 = []" "mf_pendingTxBuilder fac1 = Some [ix]" "length (in_instructions ix) = 2"
      "in_cleanupInstructions ix = []" "mf_touchedMints fac1 = Some {''A''}"
      "mf_resolvedAtas fac1 ''A'' = Some (ata_ref ''me'' ''A'')"
    using example_callback_added [of ?new "''x''"] unfolding new by auto
  obtain fac2 ix2 where "mf_addInstructions (tx_env_ref 2) (example_callback ''y'') fac1 = Inr fac2"
      "mf_txBuilders fac2 = [[ix]]" "mf_pendingTxBuilder fac2 = Some [ix2]"
    using example_callback_added [of fac1 "''y''"] fac1(2-7) by auto
  then show ?thesis using fac1(1) by (simp add: mf_build_def)
qed

theorem factory_packs_callbacks_witness:
  "\<exists>fac txs. mf_build fac = map (tx_of (tx_env_ref 2)) txs \<and> length txs = 2 \<and>
     map fst (concat txs) = [example_callback ''x'', example_callback ''y''] \<and>
     (\<forall>i < length txs. each_good (gen_served (factory_atas (tx_env_ref 2) ''me'' ''me'' [''A'' \<mapsto> ata_ref ''me'' ''A'']))
        (tx_checked (tx_env_ref 2)) i (txs ! i))"
proof -
  obtain fac where fac: "foldE (mf_addInstructions (tx_env_ref 2)) [example_callback ''x'', example_callback ''y'']
     (new_tx_factory [''A'' \<mapsto> ata_ref ''me'' ''A''] ''me'' ''me'') = Inr fac" "length (mf_build fac) = 2"
    using example_callbacks_packed by blast
  show ?thesis
  proof (rule exE [OF factory_packs_callbacks [OF fac(1)]], elim conjE)
    fix txs
    assume txs: "mf_build fac = map (tx_of (tx_env_ref 2)) txs"
      "map fst (concat txs) = [example_callback ''x'', example_callback ''y'']"
      "\<forall>i < length txs. each_good (gen_served (factory_atas (tx_env_ref 2) ''me'' ''me'' [''A'' \<mapsto> ata_ref ''me'' ''A'']))
        (tx_checked (tx_env_ref 2)) i (txs ! i)"
    have "length txs = 2" using arg_cong [OF txs(1), of length] fac(2) by simp
    with txs show ?thesis by (intro exI [of _ fac] exI [of _ txs] conjI)
  qed
qed

end
