(* ===== verification/Ix_Choice.thy ===== *)
theory Ix_Choice
  imports Ata_Utils Instructions_V2
begin

text \<open>
  The choice between the two versions of an instruction, which the operations on positions and
  pools share: the first version when both mints belong to the first token program, the
  second, with the accounts of the transfer hooks, otherwise
  (\<^verbatim>\<open>sdk/src/instructions/composites/collect-all-txn.ts\<close>, \<^verbatim>\<open>impl/position-impl.ts\<close>,
  \<^verbatim>\<open>impl/whirlpool-impl.ts\<close>). The lemmas read an instruction back: whichever version was chosen,
  it has the same accounts under the same names.
\<close>

text \<open>Tokens move from a vault to an owner, with the pool as authority, or the other way.\<close>

definition vault_to_owner ::
    "'c sdk_ctx \<Rightarrow> TokenExtensionContext \<Rightarrow> pubkey \<Rightarrow> pubkey \<Rightarrow> pubkey \<Rightarrow> pubkey \<Rightarrow> pubkey \<Rightarrow>
     (AccountMeta list option \<times> AccountMeta list option) res" where
  "vault_to_owner ctx ext pool tokenVaultA tokenOwnerAccountA tokenVaultB tokenOwnerAccountB =
     getExtraAccountMetasForTransferHookForPool (cx_spl ctx) ext
       tokenVaultA tokenOwnerAccountA pool tokenVaultB tokenOwnerAccountB pool"

definition owner_to_vault ::
    "'c sdk_ctx \<Rightarrow> TokenExtensionContext \<Rightarrow> pubkey \<Rightarrow> pubkey \<Rightarrow> pubkey \<Rightarrow> pubkey \<Rightarrow> pubkey \<Rightarrow>
     (AccountMeta list option \<times> AccountMeta list option) res" where
  "owner_to_vault ctx ext authority tokenOwnerAccountA tokenVaultA tokenOwnerAccountB tokenVaultB =
     getExtraAccountMetasForTransferHookForPool (cx_spl ctx) ext
       tokenOwnerAccountA tokenVaultA authority tokenOwnerAccountB tokenVaultB authority"

definition collect_fees_ix ::
    "'c sdk_ctx \<Rightarrow> TokenExtensionContext \<Rightarrow> pubkey \<Rightarrow> pubkey \<Rightarrow> CollectFeesParams \<Rightarrow> Instruction res" where
  "collect_fees_ix ctx ext mintA mintB p =
     (if \<not> isV2IxRequiredPool (cx_spl ctx) ext then Inr (collectFeesIx (cx_program ctx) p)
      else
        bindE (vault_to_owner ctx ext (cf_whirlpool p) (cf_tokenVaultA p) (cf_tokenOwnerAccountA p)
                 (cf_tokenVaultB p) (cf_tokenOwnerAccountB p)) (\<lambda>(hookA, hookB).
        Inr (collectFeesV2Ix (cx_program ctx)
          \<lparr>cf2_whirlpool = cf_whirlpool p, cf2_position = cf_position p,
           cf2_positionTokenAccount = cf_positionTokenAccount p, cf2_positionAuthority = cf_positionAuthority p,
           cf2_tokenMintA = mintA, cf2_tokenMintB = mintB,
           cf2_tokenOwnerAccountA = cf_tokenOwnerAccountA p, cf2_tokenOwnerAccountB = cf_tokenOwnerAccountB p,
           cf2_tokenVaultA = cf_tokenVaultA p, cf2_tokenVaultB = cf_tokenVaultB p,
           cf2_tokenTransferHookAccountsA = hookA, cf2_tokenTransferHookAccountsB = hookB,
           cf2_tokenProgramA = mi_tokenProgram (tec_tokenMintWithProgramA ext),
           cf2_tokenProgramB = mi_tokenProgram (tec_tokenMintWithProgramB ext)\<rparr>)))"

text \<open>A reward that is not initialized has no mint in the context: reading its address throws.\<close>

definition collect_reward_ix ::
    "'c sdk_ctx \<Rightarrow> TokenExtensionContext \<Rightarrow> nat \<Rightarrow> (mint_info \<Rightarrow> pubkey) \<Rightarrow> CollectRewardParams \<Rightarrow> Instruction res" where
  "collect_reward_ix ctx ext index rewardMint p =
     (if \<not> isV2IxRequiredReward (cx_spl ctx) ext index then Inr (collectRewardIx (cx_program ctx) p)
      else
        case array_get (tec_rewardTokenMintsWithProgram ext) index of
          Some (Some mint) \<Rightarrow>
            bindE (getExtraAccountMetasForTransferHook (cx_spl ctx) mint (clr_rewardVault p) (clr_rewardOwnerAccount p)
                     (clr_whirlpool p)) (\<lambda>hook.
            Inr (collectRewardV2Ix (cx_program ctx)
              \<lparr>clr2_whirlpool = clr_whirlpool p, clr2_position = clr_position p,
               clr2_positionTokenAccount = clr_positionTokenAccount p, clr2_positionAuthority = clr_positionAuthority p,
               clr2_rewardIndex = clr_rewardIndex p, clr2_rewardMint = rewardMint mint,
               clr2_rewardOwnerAccount = clr_rewardOwnerAccount p, clr2_rewardVault = clr_rewardVault p,
               clr2_rewardTransferHookAccounts = hook, clr2_rewardTokenProgram = mi_tokenProgram mint\<rparr>))
        | _ \<Rightarrow> Inl TypeError)"

definition increase_liquidity_ix ::
    "'c sdk_ctx \<Rightarrow> TokenExtensionContext \<Rightarrow> WhirlpoolData \<Rightarrow> IncreaseLiquidityParams \<Rightarrow> Instruction res" where
  "increase_liquidity_ix ctx ext whirlpool p =
     (if \<not> isV2IxRequiredPool (cx_spl ctx) ext then Inr (increaseLiquidityIx (cx_program ctx) p)
      else
        bindE (owner_to_vault ctx ext (il_positionAuthority p) (il_tokenOwnerAccountA p) (il_tokenVaultA p)
                 (il_tokenOwnerAccountB p) (il_tokenVaultB p)) (\<lambda>(hookA, hookB).
        Inr (increaseLiquidityV2Ix (cx_program ctx)
          \<lparr>il2_input = il_input p, il2_whirlpool = il_whirlpool p, il2_position = il_position p,
           il2_positionTokenAccount = il_positionTokenAccount p, il2_positionAuthority = il_positionAuthority p,
           il2_tokenMintA = wp_tokenMintA whirlpool, il2_tokenMintB = wp_tokenMintB whirlpool,
           il2_tokenOwnerAccountA = il_tokenOwnerAccountA p, il2_tokenOwnerAccountB = il_tokenOwnerAccountB p,
           il2_tokenVaultA = il_tokenVaultA p, il2_tokenVaultB = il_tokenVaultB p,
           il2_tokenTransferHookAccountsA = hookA, il2_tokenTransferHookAccountsB = hookB,
           il2_tokenProgramA = mi_tokenProgram (tec_tokenMintWithProgramA ext),
           il2_tokenProgramB = mi_tokenProgram (tec_tokenMintWithProgramB ext),
           il2_tickArrayLower = il_tickArrayLower p, il2_tickArrayUpper = il_tickArrayUpper p\<rparr>)))"

definition decrease_liquidity_ix ::
    "'c sdk_ctx \<Rightarrow> TokenExtensionContext \<Rightarrow> WhirlpoolData \<Rightarrow> DecreaseLiquidityParams \<Rightarrow> Instruction res" where
  "decrease_liquidity_ix ctx ext whirlpool p =
     (if \<not> isV2IxRequiredPool (cx_spl ctx) ext then Inr (decreaseLiquidityIx (cx_program ctx) p)
      else
        bindE (vault_to_owner ctx ext (dl_whirlpool p) (dl_tokenVaultA p) (dl_tokenOwnerAccountA p)
                 (dl_tokenVaultB p) (dl_tokenOwnerAccountB p)) (\<lambda>(hookA, hookB).
        Inr (decreaseLiquidityV2Ix (cx_program ctx)
          \<lparr>dl2_input = dl_input p, dl2_whirlpool = dl_whirlpool p, dl2_position = dl_position p,
           dl2_positionTokenAccount = dl_positionTokenAccount p, dl2_positionAuthority = dl_positionAuthority p,
           dl2_tokenMintA = wp_tokenMintA whirlpool, dl2_tokenMintB = wp_tokenMintB whirlpool,
           dl2_tokenOwnerAccountA = dl_tokenOwnerAccountA p, dl2_tokenOwnerAccountB = dl_tokenOwnerAccountB p,
           dl2_tokenVaultA = dl_tokenVaultA p, dl2_tokenVaultB = dl_tokenVaultB p,
           dl2_tokenTransferHookAccountsA = hookA, dl2_tokenTransferHookAccountsB = hookB,
           dl2_tokenProgramA = mi_tokenProgram (tec_tokenMintWithProgramA ext),
           dl2_tokenProgramB = mi_tokenProgram (tec_tokenMintWithProgramB ext),
           dl2_tickArrayLower = dl_tickArrayLower p, dl2_tickArrayUpper = dl_tickArrayUpper p\<rparr>)))"

subsection \<open>Reading an instruction back\<close>

text \<open>The instruction a builder calls, one of its accounts, and its first argument.\<close>

definition ix_called :: "Instruction \<Rightarrow> string option" where
  "ix_called ins = (case in_instructions ins of [Call c] \<Rightarrow> Some (ac_name c) | _ \<Rightarrow> None)"

definition ix_account :: "Instruction \<Rightarrow> string \<Rightarrow> pubkey option" where
  "ix_account ins name =
     (case in_instructions ins of
        [Call c] \<Rightarrow> (case map_of (ac_accounts c) name of Some k \<Rightarrow> k | None \<Rightarrow> None)
      | _ \<Rightarrow> None)"

definition ix_first_arg :: "Instruction \<Rightarrow> ix_value option" where
  "ix_first_arg ins = (case in_instructions ins of [Call c] \<Rightarrow> array_get (ac_args c) 0 | _ \<Rightarrow> None)"

definition ix_args :: "Instruction \<Rightarrow> ix_value list" where
  "ix_args ins = (case in_instructions ins of [Call c] \<Rightarrow> ac_args c | _ \<Rightarrow> [])"

lemmas ix_read = ix_called_def ix_account_def ix_first_arg_def call_ix_def array_get_def

lemma collect_fees_ix_reads:
  assumes "collect_fees_ix ctx ext mintA mintB p = Inr ins"
  shows "ix_called ins \<in> {Some ''collectFees'', Some ''collectFeesV2''}"
    and "map (ix_account ins) [''whirlpool'', ''position'', ''positionAuthority'', ''positionTokenAccount'',
           ''tokenOwnerAccountA'', ''tokenOwnerAccountB'', ''tokenVaultA'', ''tokenVaultB''] =
         map (\<lambda>f. Some (f p)) [cf_whirlpool, cf_position, cf_positionAuthority, cf_positionTokenAccount,
           cf_tokenOwnerAccountA, cf_tokenOwnerAccountB, cf_tokenVaultA, cf_tokenVaultB]"
  using assms
  by (auto simp: collect_fees_ix_def bindE_eq_Inr collectFeesIx_def collectFeesV2Ix_def ix_read Let_def case_prod_beta
      split: if_splits)

lemma collect_reward_ix_reads:
  assumes "collect_reward_ix ctx ext index mint p = Inr ins"
  shows "ix_called ins \<in> {Some ''collectReward'', Some ''collectRewardV2''}"
    and "ix_first_arg ins = Some (V_int (clr_rewardIndex p))"
    and "map (ix_account ins) [''whirlpool'', ''position'', ''positionAuthority'', ''positionTokenAccount'',
           ''rewardOwnerAccount'', ''rewardVault''] =
         map (\<lambda>f. Some (f p)) [clr_whirlpool, clr_position, clr_positionAuthority, clr_positionTokenAccount,
           clr_rewardOwnerAccount, clr_rewardVault]"
  using assms
  by (auto simp: collect_reward_ix_def bindE_eq_Inr collectRewardIx_def collectRewardV2Ix_def ix_read Let_def case_prod_beta
      split: if_splits option.splits)

text \<open>What an instruction that changes the liquidity of a position says, in either version.\<close>

definition liquidity_ix ::
    "string \<Rightarrow> int list \<Rightarrow> pubkey list \<Rightarrow> Instruction \<Rightarrow> bool" where
  "liquidity_ix name amounts accounts ix \<longleftrightarrow>
     ix_called ix \<in> {Some name, Some (name @ ''V2'')} \<and> take 3 (ix_args ix) = map V_int amounts \<and>
     map (ix_account ix) [''whirlpool'', ''position'', ''positionAuthority'', ''positionTokenAccount'', ''tokenOwnerAccountA'',
       ''tokenOwnerAccountB'', ''tokenVaultA'', ''tokenVaultB'', ''tickArrayLower'', ''tickArrayUpper''] = map Some accounts"

lemma increase_liquidity_ix_reads:
  assumes "increase_liquidity_ix ctx ext whirlpool p = Inr ins"
  shows "liquidity_ix ''increaseLiquidity''
    [ili_liquidityAmount (il_input p), ili_tokenMaxA (il_input p), ili_tokenMaxB (il_input p)]
    [il_whirlpool p, il_position p, il_positionAuthority p, il_positionTokenAccount p, il_tokenOwnerAccountA p,
     il_tokenOwnerAccountB p, il_tokenVaultA p, il_tokenVaultB p, il_tickArrayLower p, il_tickArrayUpper p] ins"
  using assms
  by (auto simp: increase_liquidity_ix_def bindE_eq_Inr increaseLiquidityIx_def increaseLiquidityV2Ix_def ix_read Let_def
      case_prod_beta liquidity_ix_def ix_args_def split: if_splits)

lemma decrease_liquidity_ix_reads:
  assumes "decrease_liquidity_ix ctx ext whirlpool p = Inr ins"
  shows "liquidity_ix ''decreaseLiquidity''
    [dli_liquidityAmount (dl_input p), dli_tokenMinA (dl_input p), dli_tokenMinB (dl_input p)]
    [dl_whirlpool p, dl_position p, dl_positionAuthority p, dl_positionTokenAccount p, dl_tokenOwnerAccountA p,
     dl_tokenOwnerAccountB p, dl_tokenVaultA p, dl_tokenVaultB p, dl_tickArrayLower p, dl_tickArrayUpper p] ins"
  using assms
  by (auto simp: decrease_liquidity_ix_def bindE_eq_Inr decreaseLiquidityIx_def decreaseLiquidityV2Ix_def ix_read Let_def
      case_prod_beta liquidity_ix_def ix_args_def split: if_splits)

end
