(* ===== verification/Collect_All.thy ===== *)
theory Collect_All
  imports Ix_Choice
begin

text \<open>
  Collecting the fees and rewards of many positions
  (\<^verbatim>\<open>sdk/src/instructions/composites/collect-all-txn.ts\<close>). A task is a fee or a reward of a
  position. The loop over the tasks packs their instructions into transactions; its variables
  are the record \<open>collect_state\<close>. The theorem: the loop ends, and the transactions it
  makes collect every fee and every initialized reward once, in order, each from a transaction that
  first updates the position and sets up the accounts the tokens go to.
\<close>

record CollectAllParams =
  cap_receiver :: "pubkey option"
  cap_positionOwner :: "pubkey option"
  cap_positionAuthority :: "pubkey option"
  cap_payer :: "pubkey option"

record CollectAllPositionAddressParams = CollectAllParams +
  cap_positionAddrs :: "pubkey list"

record CollectAllPositionParams = CollectAllParams +
  cap_positions :: "(string \<times> PositionData) list"

datatype CollectionTask =
    FeeCollectionTask (task_positionAddr: string) (task_position: PositionData) (task_whirlpool: WhirlpoolData)
  | RewardCollectionTask (task_rewardIndex: nat) (task_positionAddr: string) (task_position: PositionData)
      (task_whirlpool: WhirlpoolData)

subsection \<open>The instructions of a task\<close>

text \<open>Making sure a token account is there: its instruction goes in with the first use of the mint.\<close>

definition touch_mint ::
    "resolved_atas \<Rightarrow> string \<Rightarrow> string set \<times> Instruction list \<Rightarrow> (string set \<times> Instruction list) res" where
  "touch_mint resolvedAtas mint = (\<lambda>(touchedMints, ixForPosition).
     case resolvedAtas mint of
       None \<Rightarrow> Inl TypeError
     | Some ata \<Rightarrow>
         Inr (if mint \<notin> touchedMints then (insert mint touchedMints, ixForPosition @ [Instruction.truncate ata])
              else (touchedMints, ixForPosition)))"

definition update_ix :: "'c sdk_ctx \<Rightarrow> CollectionTask \<Rightarrow> Instruction res" where
  "update_ix ctx task =
     (let position = task_position task; tickSpacing = wp_tickSpacing (task_whirlpool task);
          program = cx_program ctx;
          arr = (\<lambda>tick. getTickArrayFromTickIndex (pg_findProgramAddress program) tick tickSpacing
                   (pos_whirlpool position) (pg_programId program) 0) in
      bindE (arr (pos_tickLowerIndex position)) (\<lambda>tickArrayLower.
      bindE (arr (pos_tickUpperIndex position)) (\<lambda>tickArrayUpper.
      Inr (updateFeesAndRewardsIx program
        \<lparr>ufar_whirlpool = pos_whirlpool position, ufar_position = task_positionAddr task,
         ufar_tickArrayLower = publicKey tickArrayLower, ufar_tickArrayUpper = publicKey tickArrayUpper\<rparr>))))"

definition fee_ixs ::
    "'c sdk_ctx \<Rightarrow> TokenExtensionContext \<Rightarrow> pubkey \<Rightarrow> pubkey \<Rightarrow> resolved_atas \<Rightarrow> string \<Rightarrow> PositionData \<Rightarrow> WhirlpoolData \<Rightarrow>
     string set \<times> Instruction list \<Rightarrow> (string set \<times> Instruction list) res" where
  "fee_ixs ctx ext positionTokenAccount positionAuthority resolvedAtas positionAddr position whirlpool st =
     (let mintA = wp_tokenMintA whirlpool; mintB = wp_tokenMintB whirlpool in
      bindE (touch_mint resolvedAtas mintA st) (\<lambda>st.
      bindE (touch_mint resolvedAtas mintB st) (\<lambda>(touchedMints, ixForPosition).
      bindE (collect_fees_ix ctx ext (mi_address (tec_tokenMintWithProgramA ext)) (mi_address (tec_tokenMintWithProgramB ext))
        \<lparr>cf_whirlpool = pos_whirlpool position, cf_position = positionAddr,
         cf_positionTokenAccount = positionTokenAccount,
         cf_tokenOwnerAccountA = rta_address (the (resolvedAtas mintA)),
         cf_tokenOwnerAccountB = rta_address (the (resolvedAtas mintB)),
         cf_tokenVaultA = wp_tokenVaultA whirlpool, cf_tokenVaultB = wp_tokenVaultB whirlpool,
         cf_positionAuthority = positionAuthority\<rparr>) (\<lambda>ix.
      Inr (touchedMints, ixForPosition @ [ix])))))"

definition reward_ixs ::
    "'c sdk_ctx \<Rightarrow> TokenExtensionContext \<Rightarrow> pubkey \<Rightarrow> pubkey \<Rightarrow> resolved_atas \<Rightarrow> nat \<Rightarrow> string \<Rightarrow> PositionData \<Rightarrow>
     WhirlpoolData \<Rightarrow> string set \<times> Instruction list \<Rightarrow> (string set \<times> Instruction list) res" where
  "reward_ixs ctx ext positionTokenAccount positionAuthority resolvedAtas index positionAddr position whirlpool st =
     (case array_get (wp_rewardInfos whirlpool) index of
        None \<Rightarrow> Inl TypeError
      | Some rewardInfo \<Rightarrow>
          let mintReward = wri_mint rewardInfo in
          bindE (touch_mint resolvedAtas mintReward st) (\<lambda>(touchedMints, ixForPosition).
          bindE (collect_reward_ix ctx ext index mi_address
            \<lparr>clr_whirlpool = pos_whirlpool position, clr_position = positionAddr,
             clr_positionTokenAccount = positionTokenAccount, clr_rewardIndex = int index,
             clr_rewardOwnerAccount = rta_address (the (resolvedAtas mintReward)),
             clr_rewardVault = wri_vault rewardInfo, clr_positionAuthority = positionAuthority\<rparr>) (\<lambda>ix.
          Inr (touchedMints, ixForPosition @ [ix]))))"

definition constructCollectIxForPosition ::
    "'c sdk_ctx \<Rightarrow> CollectionTask \<Rightarrow> bool \<Rightarrow> pubkey \<Rightarrow> pubkey \<Rightarrow> resolved_atas \<Rightarrow> string set \<Rightarrow>
     (string set \<times> Instruction list) res" where
  "constructCollectIxForPosition ctx task alreadyUpdated positionOwner positionAuthority resolvedAtas touchedMints =
     (let position = task_position task in
      bindE (cx_extensionContext ctx (task_whirlpool task)) (\<lambda>tokenExtensionCtx.
      bindE (te_getAssociatedTokenAddress (cx_env ctx) (pos_positionMint position) positionOwner
               (TOKEN_PROGRAM_ID (cx_spl ctx))) (\<lambda>positionTokenAccount.
      bindE (if pos_liquidity position \<noteq> 0 \<and> \<not> alreadyUpdated
             then bindE (update_ix ctx task) (\<lambda>ix. Inr [ix]) else Inr []) (\<lambda>ixForPosition.
      case task of
        FeeCollectionTask positionAddr position whirlpool \<Rightarrow>
          fee_ixs ctx tokenExtensionCtx positionTokenAccount positionAuthority resolvedAtas positionAddr position
            whirlpool (touchedMints, ixForPosition)
      | RewardCollectionTask index positionAddr position whirlpool \<Rightarrow>
          reward_ixs ctx tokenExtensionCtx positionTokenAccount positionAuthority resolvedAtas index positionAddr position
            whirlpool (touchedMints, ixForPosition)))))"

subsection \<open>The loop\<close>

definition position_tasks :: "(pubkey \<times> WhirlpoolData option) list \<Rightarrow> string \<times> PositionData \<Rightarrow> CollectionTask list res" where
  "position_tasks whirlpools = (\<lambda>(positionAddr, position).
     case map_of whirlpools (pos_whirlpool position) of
       Some (Some whirlpool) \<Rightarrow>
         Inr (FeeCollectionTask positionAddr position whirlpool #
              [RewardCollectionTask index positionAddr position whirlpool.
                 (index, rewardInfo) \<leftarrow> enumerate 0 (wp_rewardInfos whirlpool), isRewardInitialized rewardInfo])
     | _ \<Rightarrow> Inl PlainError)"

record collect_state =
  cs_txBuilders :: "Instruction list list"
  cs_pendingTxBuilder :: "Instruction list option"
  cs_touchedMints :: "string set option"
  cs_lastUpdatedPosition :: "string option"
  cs_reattempt :: bool
  cs_resolvedAtas :: resolved_atas
  cs_drawn :: nat

record collect_env =
  ce_receiver :: pubkey
  ce_positionOwner :: pubkey
  ce_positionAuthority :: pubkey

definition collect_open :: "tx_env \<Rightarrow> pubkey \<Rightarrow> collect_state \<Rightarrow> collect_state" where
  "collect_open env receiver st =
     (case (cs_pendingTxBuilder st, cs_touchedMints st) of
        (Some _, Some _) \<Rightarrow> st
      | _ \<Rightarrow> st\<lparr>cs_pendingTxBuilder := Some [], cs_touchedMints := Some {},
              cs_resolvedAtas := (cs_resolvedAtas st)(te_NATIVE_MINT env \<mapsto>
                te_createWrappedNativeAccount env (cs_drawn st) receiver 0 None None),
              cs_drawn := cs_drawn st + 1\<rparr>)"

text \<open>The tasks from the cursor on; a task is tried at most twice.\<close>

function collect_loop ::
    "'c sdk_ctx \<Rightarrow> collect_env \<Rightarrow> CollectionTask list \<Rightarrow> collect_state \<Rightarrow> collect_state res" where
  "collect_loop ctx ce [] st = Inr st"
| "collect_loop ctx ce (task # tasks) st =
     (let env = cx_env ctx; st = collect_open env (ce_receiver ce) st;
          pending = the (cs_pendingTxBuilder st);
          alreadyUpdated = (cs_lastUpdatedPosition st = Some (task_positionAddr task)) in
      bindE (constructCollectIxForPosition ctx task alreadyUpdated (ce_positionOwner ce) (ce_positionAuthority ce)
               (cs_resolvedAtas st) (the (cs_touchedMints st))) (\<lambda>(touched, collectIxForPosition).
      if checkMergedTransactionSizeIsValid env [pending, collectIxForPosition]
      then collect_loop ctx ce tasks
             (st\<lparr>cs_pendingTxBuilder := Some (pending @ [te_compressIx env False collectIxForPosition]),
                cs_touchedMints := Some touched, cs_lastUpdatedPosition := Some (task_positionAddr task),
                cs_reattempt := False\<rparr>)
      else if cs_reattempt st then Inl PlainError
      else collect_loop ctx ce (task # tasks)
             (st\<lparr>cs_txBuilders := cs_txBuilders st @ [pending], cs_pendingTxBuilder := None,
                cs_touchedMints := None, cs_lastUpdatedPosition := None, cs_reattempt := True\<rparr>)))"
  by pat_completeness auto

lemma collect_open_reattempt [simp]: "cs_reattempt (collect_open env r st) = cs_reattempt st"
  by (simp add: collect_open_def split: option.split)

termination collect_loop
  by (relation "measure (\<lambda>(ctx, ce, tasks, st). 2 * length tasks + (if cs_reattempt st then 0 else 1))")
    (auto simp: Let_def)

definition collect_resolved :: "'c sdk_ctx \<Rightarrow> CollectAllPositionParams \<Rightarrow> resolved_atas res" where
  "collect_resolved ctx params =
     (let key = (\<lambda>k. case k of Some k \<Rightarrow> k | None \<Rightarrow> wallet_key ctx); env = cx_env ctx;
          whirlpools = cx_getPools ctx (map (\<lambda>(_, pos). pos_whirlpool pos) (cap_positions params));
          allMints = wtm_mintMap (getTokenMintsFromWhirlpools (te_NATIVE_MINT env) (map snd whirlpools) AllMints) in
      bindE (te_resolveOrCreateATAs env (key (cap_receiver params)) (map (\<lambda>tokenMint. (tokenMint, None)) allMints)
               (Some (key (cap_payer params))) True) (\<lambda>resolved.
      Inr (map_of (convertListToMap resolved (map Some allMints)))))"

definition collectAllForPositionsTxns ::
    "'c sdk_ctx \<Rightarrow> CollectAllPositionParams \<Rightarrow> Instruction list list res" where
  "collectAllForPositionsTxns ctx params =
     (let key = (\<lambda>k. case k of Some k \<Rightarrow> k | None \<Rightarrow> wallet_key ctx);
          receiverKey = key (cap_receiver params);
          positionList = cap_positions params in
      if length positionList = 0 then Inr []
      else
        let whirlpools = cx_getPools ctx (map (\<lambda>(_, pos). pos_whirlpool pos) positionList) in
        bindE (collect_resolved ctx params) (\<lambda>resolvedAtas.
        bindE (mapE (position_tasks whirlpools) positionList) (\<lambda>taskss.
        bindE (collect_loop ctx
          \<lparr>ce_receiver = receiverKey, ce_positionOwner = key (cap_positionOwner params),
           ce_positionAuthority = key (cap_positionAuthority params)\<rparr>
          (concat taskss)
          \<lparr>cs_txBuilders = [], cs_pendingTxBuilder = None, cs_touchedMints = None, cs_lastUpdatedPosition = None,
           cs_reattempt = False, cs_resolvedAtas = resolvedAtas, cs_drawn = 0\<rparr>) (\<lambda>st.
        Inr (case cs_pendingTxBuilder st of
               Some pendingTxBuilder \<Rightarrow> cs_txBuilders st @ [pendingTxBuilder]
             | None \<Rightarrow> cs_txBuilders st)))))"

definition collectAllForPositionAddressesTxns ::
    "'c sdk_ctx \<Rightarrow> CollectAllPositionAddressParams \<Rightarrow> Instruction list list res" where
  "collectAllForPositionAddressesTxns ctx params =
     (let fetchedPositions = cx_getPositions ctx (cap_positionAddrs params);
          positionMap = [(addr, pos). (addr, Some pos) \<leftarrow> fetchedPositions] in
      collectAllForPositionsTxns ctx (CollectAllParams.extend (CollectAllParams.truncate params)
        (CollectAllPositionParams.fields positionMap)))"

subsection \<open>What a task's instructions do\<close>

definition updates :: "pubkey \<Rightarrow> Instruction \<Rightarrow> bool" where
  "updates position ix \<longleftrightarrow>
     ix_called ix = Some ''updateFeesAndRewards'' \<and> ix_account ix ''position'' = Some position"

text \<open>The instruction that collects a task's tokens, and where it sends them.\<close>

fun collects :: "pubkey \<Rightarrow> resolved_atas \<Rightarrow> CollectionTask \<Rightarrow> Instruction \<Rightarrow> bool" where
  "collects authority atas (FeeCollectionTask addr pos pool) ix \<longleftrightarrow>
     ix_called ix \<in> {Some ''collectFees'', Some ''collectFeesV2''} \<and>
     map (ix_account ix) [''whirlpool'', ''position'', ''positionAuthority'', ''tokenOwnerAccountA'',
       ''tokenOwnerAccountB'', ''tokenVaultA'', ''tokenVaultB''] =
     map Some [pos_whirlpool pos, addr, authority, rta_address (the (atas (wp_tokenMintA pool))),
       rta_address (the (atas (wp_tokenMintB pool))), wp_tokenVaultA pool, wp_tokenVaultB pool]"
| "collects authority atas (RewardCollectionTask i addr pos pool) ix \<longleftrightarrow>
     ix_called ix \<in> {Some ''collectReward'', Some ''collectRewardV2''} \<and> ix_first_arg ix = Some (V_int (int i)) \<and>
     i < length (wp_rewardInfos pool) \<and>
     map (ix_account ix) [''whirlpool'', ''position'', ''positionAuthority'', ''rewardOwnerAccount'', ''rewardVault''] =
     map Some [pos_whirlpool pos, addr, authority, rta_address (the (atas (wri_mint (wp_rewardInfos pool ! i)))),
       wri_vault (wp_rewardInfos pool ! i)]"

fun task_mints :: "CollectionTask \<Rightarrow> string set" where
  "task_mints (FeeCollectionTask addr pos pool) = {wp_tokenMintA pool, wp_tokenMintB pool}"
| "task_mints (RewardCollectionTask i addr pos pool) = {wri_mint (wp_rewardInfos pool ! i)}"

lemma touch_mint_supported:
  assumes "touch_mint (atas n) mint (touched, new) = Inr (touched', new')" "atas_supported atas n touched (ixs @ new)"
  shows "atas_supported atas n touched' (ixs @ new') \<and> insert mint touched \<subseteq> touched' \<and> (\<exists>more. new' = new @ more)"
  using assms by (auto simp: touch_mint_def atas_supported_def account_ix_def split: option.splits if_splits)

lemma supported_mint:
  "atas_supported atas n touched ixs \<Longrightarrow> m \<in> touched \<Longrightarrow> account_ix (atas n) m \<in> set ixs"
  by (simp add: atas_supported_def)

lemma fee_ixs_good:
  assumes "fee_ixs ctx ext pta authority (atas n) addr pos pool (touched, new0) = Inr (touched', new)"
    and "atas_supported atas n touched (ixs @ new0)"
  shows "\<exists>prep ix. new = (new0 @ prep) @ [ix] \<and> atas_supported atas n touched' (ixs @ new0 @ prep) \<and>
    collects authority (atas n) (FeeCollectionTask addr pos pool) ix \<and>
    task_mints (FeeCollectionTask addr pos pool) \<subseteq> touched'"
proof -
  from assms(1) obtain t1 new1 t2 new2 ix where
    run: "touch_mint (atas n) (wp_tokenMintA pool) (touched, new0) = Inr (t1, new1)"
      "touch_mint (atas n) (wp_tokenMintB pool) (t1, new1) = Inr (t2, new2)" "touched' = t2" "new = new2 @ [ix]"
      "collect_fees_ix ctx ext (mi_address (tec_tokenMintWithProgramA ext)) (mi_address (tec_tokenMintWithProgramB ext))
        \<lparr>cf_whirlpool = pos_whirlpool pos, cf_position = addr, cf_positionTokenAccount = pta,
         cf_tokenOwnerAccountA = rta_address (the (atas n (wp_tokenMintA pool))),
         cf_tokenOwnerAccountB = rta_address (the (atas n (wp_tokenMintB pool))),
         cf_tokenVaultA = wp_tokenVaultA pool, cf_tokenVaultB = wp_tokenVaultB pool,
         cf_positionAuthority = authority\<rparr> = Inr ix"
    by (auto simp: fee_ixs_def Let_def bindE_eq_Inr)
  have one: "atas_supported atas n t1 (ixs @ new1)" "insert (wp_tokenMintA pool) touched \<subseteq> t1" "\<exists>more. new1 = new0 @ more"
    using touch_mint_supported [of atas n, OF run(1) assms(2)] by auto
  have two: "atas_supported atas n t2 (ixs @ new2)" "insert (wp_tokenMintB pool) t1 \<subseteq> t2" "\<exists>more. new2 = new1 @ more"
    using touch_mint_supported [of atas n, OF run(2) one(1)] by auto
  have "collects authority (atas n) (FeeCollectionTask addr pos pool) ix"
    using collect_fees_ix_reads [OF run(5)] by simp
  moreover obtain more1 more2 where "new1 = new0 @ more1" "new2 = new1 @ more2" using one two by blast
  ultimately show ?thesis using one two run(3,4) by (intro exI [of _ "more1 @ more2"] exI [of _ ix]) auto
qed

lemma reward_ixs_good:
  assumes "reward_ixs ctx ext pta authority (atas n) i addr pos pool (touched, new0) = Inr (touched', new)"
    and "atas_supported atas n touched (ixs @ new0)"
  shows "\<exists>prep ix. new = (new0 @ prep) @ [ix] \<and> atas_supported atas n touched' (ixs @ new0 @ prep) \<and>
    collects authority (atas n) (RewardCollectionTask i addr pos pool) ix \<and>
    task_mints (RewardCollectionTask i addr pos pool) \<subseteq> touched'"
proof -
  let ?info = "wp_rewardInfos pool ! i"
  from assms(1) obtain new1 ix where i: "i < length (wp_rewardInfos pool)" and
    run: "touch_mint (atas n) (wri_mint ?info) (touched, new0) = Inr (touched', new1)" "new = new1 @ [ix]"
      "collect_reward_ix ctx ext i mi_address
        \<lparr>clr_whirlpool = pos_whirlpool pos, clr_position = addr, clr_positionTokenAccount = pta, clr_rewardIndex = int i,
         clr_rewardOwnerAccount = rta_address (the (atas n (wri_mint ?info))),
         clr_rewardVault = wri_vault ?info, clr_positionAuthority = authority\<rparr> = Inr ix"
    by (auto simp: reward_ixs_def Let_def bindE_eq_Inr array_get_def split: if_splits)
  have "collects authority (atas n) (RewardCollectionTask i addr pos pool) ix"
    using collect_reward_ix_reads [OF run(3)] i by simp
  moreover have "atas_supported atas n touched' (ixs @ new1)" "insert (wri_mint ?info) touched \<subseteq> touched'"
    "\<exists>more. new1 = new0 @ more"
    using touch_mint_supported [of atas n, OF run(1) assms(2)] by auto
  ultimately show ?thesis using run(2) by auto
qed

lemma update_ix_updates: "update_ix ctx task = Inr u \<Longrightarrow> updates (task_positionAddr task) u"
  by (auto simp: update_ix_def bindE_eq_Inr Let_def updates_def updateFeesAndRewardsIx_def ix_read)

lemma construct_good:
  assumes "constructCollectIxForPosition ctx task updated owner authority (atas n) touched = Inr (touched', new)"
    and "atas_supported atas n touched ixs"
  shows "\<exists>prep ix. new = prep @ [ix] \<and> atas_supported atas n touched' (ixs @ prep) \<and> collects authority (atas n) task ix \<and>
    task_mints task \<subseteq> touched' \<and>
    (pos_liquidity (task_position task) \<noteq> 0 \<longrightarrow> updated \<or> (\<exists>u \<in> set prep. updates (task_positionAddr task) u))"
proof -
  from assms(1) obtain ext pta new0 where
    new0: "(if pos_liquidity (task_position task) \<noteq> 0 \<and> \<not> updated
            then bindE (update_ix ctx task) (\<lambda>ix. Inr [ix]) else Inr []) = Inr new0"
    and run: "(case task of
        FeeCollectionTask addr pos pool \<Rightarrow> fee_ixs ctx ext pta authority (atas n) addr pos pool (touched, new0)
      | RewardCollectionTask i addr pos pool \<Rightarrow> reward_ixs ctx ext pta authority (atas n) i addr pos pool (touched, new0)) =
      Inr (touched', new)"
    by (auto simp: constructCollectIxForPosition_def Let_def bindE_eq_Inr)
  have upd: "pos_liquidity (task_position task) \<noteq> 0 \<longrightarrow> updated \<or> (\<exists>u \<in> set new0. updates (task_positionAddr task) u)"
    using new0 update_ix_updates by (auto simp: bindE_eq_Inr split: if_splits)
  have sup: "atas_supported atas n touched (ixs @ new0)" using assms(2) by (auto simp: atas_supported_def)
  have "\<exists>prep ix. new = (new0 @ prep) @ [ix] \<and> atas_supported atas n touched' (ixs @ new0 @ prep) \<and>
      collects authority (atas n) task ix \<and> task_mints task \<subseteq> touched'"
    using run sup fee_ixs_good [of ctx ext pta authority atas n _ _ _ touched new0 touched' new ixs]
      reward_ixs_good [of ctx ext pta authority atas n _ _ _ _ touched new0 touched' new ixs]
    by (cases task) simp_all
  then obtain prep ix where "new = (new0 @ prep) @ [ix]" "atas_supported atas n touched' (ixs @ new0 @ prep)"
    "collects authority (atas n) task ix" "task_mints task \<subseteq> touched'" by blast
  with upd show ?thesis by (intro exI [of _ "new0 @ prep"] exI [of _ ix]) auto
qed

subsection \<open>The loop packs\<close>

text \<open>
  The state of an open transaction: the touched mints and the position updated last. Tasks that
  share an address are tasks of one position, \<open>pos_of\<close>.
\<close>

definition collect_emit ::
    "'c sdk_ctx \<Rightarrow> collect_env \<Rightarrow> (string \<Rightarrow> PositionData) \<Rightarrow> (nat \<Rightarrow> resolved_atas) \<Rightarrow> nat \<Rightarrow>
     string set \<times> string option \<Rightarrow> CollectionTask \<Rightarrow> ((string set \<times> string option) \<times> Instruction list) res" where
  "collect_emit ctx ce pos_of atas n = (\<lambda>(touched, updated) task.
     if task_position task \<noteq> pos_of (task_positionAddr task) then Inl PlainError
     else
       bindE (constructCollectIxForPosition ctx task (updated = Some (task_positionAddr task)) (ce_positionOwner ce)
                (ce_positionAuthority ce) (atas n) touched) (\<lambda>(touched, new).
       Inr ((touched, Some (task_positionAddr task)), new)))"

definition collect_supported ::
    "(string \<Rightarrow> PositionData) \<Rightarrow> (nat \<Rightarrow> resolved_atas) \<Rightarrow> nat \<Rightarrow> string set \<times> string option \<Rightarrow> Instruction list \<Rightarrow> bool" where
  "collect_supported pos_of atas n = (\<lambda>(touched, updated) ixs.
     atas_supported atas n touched ixs \<and>
     (\<forall>addr. updated = Some addr \<longrightarrow> pos_liquidity (pos_of addr) \<noteq> 0 \<longrightarrow> (\<exists>u \<in> set ixs. updates addr u)))"

text \<open>
  A task is done by its last instruction, and before it, in the same transaction, stand the accounts its tokens
  go to and, unless the position has no liquidity, an update of its fees and rewards.
\<close>

definition task_done ::
    "pubkey \<Rightarrow> (nat \<Rightarrow> resolved_atas) \<Rightarrow> nat \<Rightarrow> Instruction list \<Rightarrow> CollectionTask \<Rightarrow> Instruction list \<Rightarrow> bool" where
  "task_done authority atas n ixs task new \<longleftrightarrow>
     (\<exists>prep ix. new = prep @ [ix] \<and> collects authority (atas n) task ix \<and>
        (\<forall>m \<in> task_mints task. account_ix (atas n) m \<in> set (ixs @ prep)) \<and>
        (pos_liquidity (task_position task) \<noteq> 0 \<longrightarrow> (\<exists>u \<in> set (ixs @ prep). updates (task_positionAddr task) u)))"

lemma collect_emit_good:
  assumes "collect_supported pos_of atas n s ixs" "collect_emit ctx ce pos_of atas n s task = Inr (s', new)"
  shows "collect_supported pos_of atas n s' (ixs @ new)" "task_done (ce_positionAuthority ce) atas n ixs task new"
proof -
  obtain touched updated where s: "s = (touched, updated)" by (cases s)
  let ?addr = "task_positionAddr task"
  from assms(2) obtain touched' where pos: "task_position task = pos_of ?addr" and s': "s' = (touched', Some ?addr)"
    and run: "constructCollectIxForPosition ctx task (updated = Some ?addr) (ce_positionOwner ce)
        (ce_positionAuthority ce) (atas n) touched = Inr (touched', new)"
    by (auto simp: collect_emit_def s bindE_eq_Inr split: if_splits)
  have sup: "atas_supported atas n touched ixs"
    and upd: "\<And>addr. updated = Some addr \<Longrightarrow> pos_liquidity (pos_of addr) \<noteq> 0 \<Longrightarrow> \<exists>u \<in> set ixs. updates addr u"
    using assms(1) by (auto simp: collect_supported_def s)
  from construct_good [of ctx task _ _ _ atas n, OF run sup] obtain prep ix where
    g: "new = prep @ [ix]" "atas_supported atas n touched' (ixs @ prep)"
      "collects (ce_positionAuthority ce) (atas n) task ix" "task_mints task \<subseteq> touched'"
      "pos_liquidity (task_position task) \<noteq> 0 \<longrightarrow> updated = Some ?addr \<or> (\<exists>u \<in> set prep. updates ?addr u)"
    by blast
  have here: "pos_liquidity (task_position task) \<noteq> 0 \<Longrightarrow> \<exists>u \<in> set (ixs @ prep). updates ?addr u"
    using g(5) upd pos by fastforce
  show "collect_supported pos_of atas n s' (ixs @ new)"
    using g(1,2) here pos by (auto simp: collect_supported_def s' atas_supported_def)
  show "task_done (ce_positionAuthority ce) atas n ixs task new"
    unfolding task_done_def using g supported_mint [OF g(2)] here by blast
qed

interpretation collecting: packing "collect_emit ctx ce pos_of atas" "({}, None)" "collect_supported pos_of atas"
    "task_done (ce_positionAuthority ce) atas" for ctx ce pos_of atas
proof
  show "collect_supported pos_of atas n ({}, None) []" for n
    by (simp add: collect_supported_def atas_supported_def)
qed (fact collect_emit_good)+

definition collect_atas :: "tx_env \<Rightarrow> pubkey \<Rightarrow> resolved_atas \<Rightarrow> nat \<Rightarrow> resolved_atas" where
  "collect_atas env receiver base n =
     base(te_NATIVE_MINT env \<mapsto> te_createWrappedNativeAccount env n receiver 0 None None)"

definition task_tx :: "tx_env \<Rightarrow> CollectionTask packed \<Rightarrow> Instruction list" where
  "task_tx env tx = map (\<lambda>(task, new). te_compressIx env False new) tx"

definition task_checked :: "tx_env \<Rightarrow> CollectionTask packed \<Rightarrow> Instruction list \<Rightarrow> bool" where
  "task_checked env tx new \<longleftrightarrow> checkMergedTransactionSizeIsValid env [task_tx env tx, new]"

definition collecting_state ::
    "'c sdk_ctx \<Rightarrow> collect_env \<Rightarrow> (string \<Rightarrow> PositionData) \<Rightarrow> resolved_atas \<Rightarrow> collect_state \<Rightarrow> nat \<Rightarrow>
     CollectionTask packed list \<Rightarrow> CollectionTask packed \<Rightarrow> string set \<times> string option \<Rightarrow> bool" where
  "collecting_state ctx ce pos_of base st n past cur s \<longleftrightarrow>
     (let env = cx_env ctx; atas = collect_atas env (ce_receiver ce) base in
      packs (collect_emit ctx ce pos_of atas) ({}, None) (task_checked env) n past cur s \<and>
      cs_txBuilders st = map (task_tx env) past \<and> cs_lastUpdatedPosition st = snd s \<and>
      ((cs_pendingTxBuilder st = Some (task_tx env cur) \<and> cs_touchedMints st = Some (fst s) \<and>
          cs_drawn st = Suc n \<and> cs_resolvedAtas st = atas n) \<or>
       (cs_pendingTxBuilder st = None \<and> cs_touchedMints st = None \<and> cs_drawn st = n \<and> cur = [] \<and> s = ({}, None) \<and>
          (\<forall>x. (cs_resolvedAtas st)(te_NATIVE_MINT env \<mapsto> x) = base(te_NATIVE_MINT env \<mapsto> x)))))"

lemma collect_open_state:
  assumes "collecting_state ctx ce pos_of base st n past cur s"
  shows "collecting_state ctx ce pos_of base (collect_open (cx_env ctx) (ce_receiver ce) st) n past cur s \<and>
    cs_pendingTxBuilder (collect_open (cx_env ctx) (ce_receiver ce) st) = Some (task_tx (cx_env ctx) cur) \<and>
    cs_touchedMints (collect_open (cx_env ctx) (ce_receiver ce) st) = Some (fst s) \<and>
    cs_lastUpdatedPosition (collect_open (cx_env ctx) (ce_receiver ce) st) = snd s \<and>
    cs_resolvedAtas (collect_open (cx_env ctx) (ce_receiver ce) st) = collect_atas (cx_env ctx) (ce_receiver ce) base n"
  using assms by (auto simp: collecting_state_def collect_open_def Let_def collect_atas_def task_tx_def)

lemma collect_loop_packs:
  assumes "collect_loop ctx ce tasks st = Inr st'" "collecting_state ctx ce pos_of base st n past cur s"
    and "\<forall>task \<in> set tasks. task_position task = pos_of (task_positionAddr task)"
  shows "\<exists>n' past' cur' s'. collecting_state ctx ce pos_of base st' n' past' cur' s' \<and>
    (tasks \<noteq> [] \<longrightarrow> cs_pendingTxBuilder st' \<noteq> None) \<and>
    map fst (concat past' @ cur') = map fst (concat past @ cur) @ tasks"
  using assms
proof (induction "2 * length tasks + (if cs_reattempt st then 0 else 1)" arbitrary: tasks st n past cur s rule: less_induct)
  case less
  show ?case
  proof (cases tasks)
    case Nil
    then show ?thesis
      using less.prems(1,2) by (intro exI [of _ n] exI [of _ past] exI [of _ cur] exI [of _ s]) simp
  next
    case (Cons task rest)
    let ?env = "cx_env ctx" and ?addr = "task_positionAddr task"
    let ?st = "collect_open ?env (ce_receiver ce) st" and ?atas = "collect_atas ?env (ce_receiver ce) base"
    note op = collect_open_state [OF less.prems(2)]
    obtain touched new where run: "constructCollectIxForPosition ctx task (snd s = Some ?addr) (ce_positionOwner ce)
        (ce_positionAuthority ce) (?atas n) (fst s) = Inr (touched, new)"
      using less.prems(1) op by (auto simp: Cons Let_def bindE_eq_Inr)
    have packs: "packs (collect_emit ctx ce pos_of ?atas) ({}, None) (task_checked ?env) n past cur s"
      and bs: "cs_txBuilders ?st = map (task_tx ?env) past" and dr: "cs_drawn ?st = Suc n"
      using op by (auto simp: collecting_state_def Let_def)
    show ?thesis
    proof (cases "task_checked ?env cur new")
      case True
      define st1 where "st1 = ?st\<lparr>cs_pendingTxBuilder := Some (task_tx ?env (cur @ [(task, new)])), cs_touchedMints := Some touched,
        cs_lastUpdatedPosition := Some ?addr, cs_reattempt := False\<rparr>"
      have loop: "collect_loop ctx ce rest st1 = Inr st'"
        using less.prems(1) op run True by (simp add: st1_def Cons Let_def task_checked_def task_tx_def)
      have emit: "collect_emit ctx ce pos_of ?atas n s task = Inr ((touched, Some ?addr), new)"
        using run less.prems(3) by (simp add: Cons collect_emit_def case_prod_beta)
      have st: "collecting_state ctx ce pos_of base st1 n past (cur @ [(task, new)]) (touched, Some ?addr)"
        using packs.add [OF packs emit True] op bs dr by (simp add: st1_def collecting_state_def Let_def)
      have "2 * length rest + (if cs_reattempt st1 then 0 else 1) < 2 * length tasks + (if cs_reattempt st then 0 else 1)"
        by (simp add: Cons)
      from less.hyps [OF this loop st] less.prems(3) obtain n' past' cur' s' where
        ih: "collecting_state ctx ce pos_of base st' n' past' cur' s'" "rest \<noteq> [] \<longrightarrow> cs_pendingTxBuilder st' \<noteq> None"
          "map fst (concat past' @ cur') = map fst (concat past @ cur @ [(task, new)]) @ rest"
        by (auto simp: Cons)
      have "cs_pendingTxBuilder st' \<noteq> None" using ih(2) loop by (cases rest) (auto simp: st1_def)
      then show ?thesis
        using ih by (intro exI [of _ n'] exI [of _ past'] exI [of _ cur'] exI [of _ s']) (simp add: Cons)
    next
      case False
      define st1 where "st1 = ?st\<lparr>cs_txBuilders := cs_txBuilders ?st @ [task_tx ?env cur], cs_pendingTxBuilder := None,
        cs_touchedMints := None, cs_lastUpdatedPosition := None, cs_reattempt := True\<rparr>"
      have again: "\<not> cs_reattempt st" "collect_loop ctx ce tasks st1 = Inr st'"
        using less.prems(1) op run False by (auto simp: st1_def Cons Let_def task_checked_def split: if_splits)
      have st: "collecting_state ctx ce pos_of base st1 (Suc n) (past @ [cur]) [] ({}, None)"
        using packs.close [OF packs] op bs dr by (simp add: st1_def collecting_state_def Let_def collect_atas_def)
      have "2 * length tasks + (if cs_reattempt st1 then 0 else 1) < 2 * length tasks + (if cs_reattempt st then 0 else 1)"
        using again by (simp add: st1_def)
      from less.hyps [OF this again(2) st less.prems(3)] show ?thesis by simp
    qed
  qed
qed

lemma tasks_know_position:
  assumes "mapE (position_tasks pools) positions = Inr tasks" "distinct (map fst positions)" "task \<in> set (concat tasks)"
  shows "task_position task = the (map_of positions (task_positionAddr task))"
proof -
  from assms(3) obtain ts where ts: "ts \<in> set tasks" "task \<in> set ts" by auto
  from assms(1) have "ts \<in> (\<lambda>x. projr (position_tasks pools x)) ` set positions"
    "\<forall>x \<in> set positions. \<exists>y. position_tasks pools x = Inr y"
    using ts(1) by (auto simp: mapE_ok)
  then obtain addr pos where x: "(addr, pos) \<in> set positions" "position_tasks pools (addr, pos) = Inr ts"
    by force
  then have "task_positionAddr task = addr" "task_position task = pos"
    using ts(2) by (auto simp: position_tasks_def split: option.splits if_splits)
  then show ?thesis using x(1) assms(2) by simp
qed

lemma collected_good:
  assumes "packs (collect_emit ctx ce pos_of (collect_atas (cx_env ctx) (ce_receiver ce) base)) ({}, None) (task_checked (cx_env ctx)) n past cur s"
  shows "\<forall>i < length (if P then past else past @ [cur]).
    each_good (task_done (ce_positionAuthority ce) (collect_atas (cx_env ctx) (ce_receiver ce) base)) (task_checked (cx_env ctx)) i
      ((if P then past else past @ [cur]) ! i)"
proof (intro allI impI)
  fix i assume i: "i < length (if P then past else past @ [cur])"
  then have "(if P then past else past @ [cur]) ! i = (past @ [cur]) ! i" by (auto simp: nth_append split: if_splits)
  then show "each_good (task_done (ce_positionAuthority ce) (collect_atas (cx_env ctx) (ce_receiver ce) base)) (task_checked (cx_env ctx)) i
      ((if P then past else past @ [cur]) ! i)"
    using collecting.packed_transactions_good [OF assms, of i] i by (auto split: if_splits)
qed

text \<open>
  C17: Collecting from many positions is complete and self-contained: the call ends; when it does not throw, the
  tasks of the transactions it returns, read one after the other, are the fee task of every position followed by
  a task for each initialized reward of its pool, in order and each once; and within its
  transaction each task is done by an instruction that sends the tokens from the pool's
  vaults to the resolved accounts, after the accounts were set up and, if the position has
  liquidity, its fees and rewards were updated.
\<close>

theorem collect_all_complete:
  assumes "collectAllForPositionsTxns ctx params = Inr builders"
    and "distinct (map fst (cap_positions params))"
  shows "\<exists>txs base tasks. builders = map (task_tx (cx_env ctx)) txs \<and>
    mapE (position_tasks (cx_getPools ctx (map (\<lambda>(_, pos). pos_whirlpool pos) (cap_positions params))))
      (cap_positions params) = Inr tasks \<and>
    map fst (concat txs) = concat tasks \<and> (txs \<noteq> [] \<longrightarrow> collect_resolved ctx params = Inr base) \<and>
    (\<forall>i < length txs. each_good
       (task_done (case cap_positionAuthority params of Some k \<Rightarrow> k | None \<Rightarrow> wallet_key ctx)
         (collect_atas (cx_env ctx) (case cap_receiver params of Some k \<Rightarrow> k | None \<Rightarrow> wallet_key ctx) base))
       (task_checked (cx_env ctx)) i (txs ! i))"
proof (cases "cap_positions params = []")
  case True
  then have "builders = []" using assms(1) by (simp add: collectAllForPositionsTxns_def Let_def)
  then show ?thesis using True by (intro exI [of _ "[]"]) simp
next
  case False
  let ?key = "\<lambda>k. case k of Some k \<Rightarrow> k | None \<Rightarrow> wallet_key ctx" and ?env = "cx_env ctx"
  let ?pools = "cx_getPools ctx (map (\<lambda>(_, pos). pos_whirlpool pos) (cap_positions params))"
  let ?ce = "\<lparr>ce_receiver = ?key (cap_receiver params), ce_positionOwner = ?key (cap_positionOwner params),
    ce_positionAuthority = ?key (cap_positionAuthority params)\<rparr>"
  let ?start = "\<lambda>base. \<lparr>cs_txBuilders = [], cs_pendingTxBuilder = None, cs_touchedMints = None, cs_lastUpdatedPosition = None,
    cs_reattempt = False, cs_resolvedAtas = base, cs_drawn = 0\<rparr>"
  from assms(1) False obtain base tasks st where base: "collect_resolved ctx params = Inr base" and tasks: "mapE (position_tasks ?pools) (cap_positions params) = Inr tasks"
    and loop: "collect_loop ctx ?ce (concat tasks) (?start base) = Inr st"
    and builders: "builders = (case cs_pendingTxBuilder st of Some p \<Rightarrow> cs_txBuilders st @ [p] | None \<Rightarrow> cs_txBuilders st)"
    by (auto simp: collectAllForPositionsTxns_def Let_def bindE_eq_Inr)
  define pos_of where "pos_of = (\<lambda>addr. the (map_of (cap_positions params) addr))"
  have "task_position task = pos_of (task_positionAddr task)" if "task \<in> set (concat tasks)" for task
    using tasks_know_position [OF tasks assms(2) that] by (simp add: pos_of_def)
  moreover have "collecting_state ctx ?ce pos_of base (?start base) 0 [] [] ({}, None)"
    by (simp add: collecting_state_def packs.start Let_def)
  ultimately obtain n past cur s where
    fin: "collecting_state ctx ?ce pos_of base st n past cur s" "map fst (concat past @ cur) = concat tasks"
      "concat tasks \<noteq> [] \<longrightarrow> cs_pendingTxBuilder st \<noteq> None"
    using collect_loop_packs [OF loop] by (metis append_Nil concat.simps(1) list.simps(8) append.simps(1))
  let ?txs = "if cs_pendingTxBuilder st = None then past else past @ [cur]"
  have "packs (collect_emit ctx ?ce pos_of (collect_atas ?env (ce_receiver ?ce) base)) ({}, None) (task_checked ?env) n past cur s"
    using fin(1) by (simp add: collecting_state_def Let_def)
  then have "\<forall>i < length ?txs. each_good (task_done (ce_positionAuthority ?ce) (collect_atas ?env (ce_receiver ?ce) base))
      (task_checked ?env) i (?txs ! i)"
    by (rule collected_good)
  moreover have "builders = map (task_tx ?env) ?txs"
    using fin(1) by (auto simp: builders collecting_state_def Let_def split: option.splits)
  moreover have "map fst (concat ?txs) = concat tasks"
    using fin by (auto simp: collecting_state_def Let_def)
  ultimately show ?thesis using tasks base
    by (intro exI [of _ ?txs] exI [of _ base] exI [of _ tasks]) simp
qed

subsection \<open>An example\<close>

text \<open>One pool \<open>P\<close> without rewards, and a position \<open>p\<close> in it.\<close>

definition no_reward :: WhirlpoolRewardInfoData where
  "no_reward = \<lparr>wri_mint = PublicKey_default, wri_vault = PublicKey_default, wri_authority = PublicKey_default,
     wri_emissionsPerSecondX64 = 0, wri_growthGlobalX64 = 0\<rparr>"

definition idle_pool :: WhirlpoolData where
  "idle_pool = \<lparr>wp_whirlpoolsConfig = ''config'', wp_whirlpoolBump = [255], wp_feeRate = 3000, wp_protocolFeeRate = 300,
     wp_liquidity = 100, wp_sqrtPrice = 2 ^ 64, wp_tickCurrentIndex = 0, wp_protocolFeeOwedA = 0, wp_protocolFeeOwedB = 0,
     wp_tokenMintA = ''A'', wp_tokenVaultA = ''vA'', wp_feeGrowthGlobalA = 0, wp_tokenMintB = ''B'', wp_tokenVaultB = ''vB'',
     wp_feeGrowthGlobalB = 0, wp_rewardLastUpdatedTimestamp = 0, wp_rewardInfos = [no_reward, no_reward, no_reward],
     wp_tickSpacing = 64\<rparr>"

definition example_position :: PositionData where
  "example_position = \<lparr>pos_whirlpool = ''P'', pos_positionMint = ''M'', pos_liquidity = 0, pos_tickLowerIndex = 0,
     pos_tickUpperIndex = 64, pos_feeGrowthCheckpointA = 0, pos_feeOwedA = 1, pos_feeGrowthCheckpointB = 0, pos_feeOwedB = 0,
     pos_rewardInfos = []\<rparr>"

definition example_ctx :: "WhirlpoolData \<Rightarrow> PositionData \<Rightarrow> TransferFee sdk_ctx" where
  "example_ctx pool position =
     \<lparr>cx_env = tx_env_ref 10, cx_mu = math_util_ref, cx_spl = spl_token_ref,
      cx_getPool = (\<lambda>addr. Some pool), cx_getPosition = (\<lambda>addr. Some position),
      cx_getTickArrays = map (\<lambda>addr. None),
      cx_getMintInfos = (\<lambda>mints mint. example_mint mint ''token''), cx_epoch = 0,
      cx_getMintInfo = (\<lambda>mint. Some (example_mint mint ''token'')),
      cx_getTokenInfo = (\<lambda>addr. Some \<lparr>tka_address = addr, tka_owner = ''me'', tka_amount = 0\<rparr>),
      cx_getConfig = (\<lambda>addr. None), cx_getFeeTier = (\<lambda>addr. None), cx_now = 0\<rparr>"

definition example_collect :: CollectAllPositionParams where
  "example_collect = \<lparr>cap_receiver = None, cap_positionOwner = None, cap_positionAuthority = None, cap_payer = None,
     cap_positions = [(''p'', example_position)]\<rparr>"

lemma no_reward_idle [simp]: "\<not> isRewardInitialized no_reward" "add_reward_mint ''SOL'' no_reward st = st"
  by (cases st; simp add: isRewardInitialized_def no_reward_def add_reward_mint_def PublicKey_default_def numeral_eq_Suc)+

lemma idle_pool_sel [simp]:
  "wp_tokenMintA idle_pool = ''A''" "wp_tokenMintB idle_pool = ''B''" "wp_tokenVaultA idle_pool = ''vA''"
  "wp_tokenVaultB idle_pool = ''vB''" "wp_rewardInfos idle_pool = [no_reward, no_reward, no_reward]"
  "wp_tickSpacing idle_pool = 64"
  by (simp_all add: idle_pool_def)

lemma example_position_sel [simp]:
  "pos_whirlpool example_position = ''P''" "pos_positionMint example_position = ''M''" "pos_liquidity example_position = 0"
  by (simp_all add: example_position_def)

lemma example_ctx_sel [simp]:
  "cx_env (example_ctx pool position) = tx_env_ref 10" "cx_spl (example_ctx pool position) = spl_token_ref"
  "cx_getPool (example_ctx pool position) addr = Some pool" "cx_epoch (example_ctx pool position) = 0"
  "cx_getMintInfos (example_ctx pool position) mints mint = example_mint mint ''token''"
  by (simp_all add: example_ctx_def)

lemma tx_env_ref_sel [simp]:
  "te_wallet (tx_env_ref l) = ''me''" "te_NATIVE_MINT (tx_env_ref l) = ''SOL''"
  "te_getAssociatedTokenAddress (tx_env_ref l) mint owner program = Inr (mint @ owner)"
  "te_resolveOrCreateATAs (tx_env_ref l) owner reqs payer idem = Inr (map (\<lambda>(mint, wrap). ata_ref owner mint) reqs)"
  "te_createWrappedNativeAccount (tx_env_ref l) n owner amount payer dest = ata_ref owner ''SOL''"
  by (simp_all add: tx_env_ref_def)

lemma example_collect_sel:
  "cap_receiver example_collect = None" "cap_positionAuthority example_collect = None"
  "cap_positions example_collect = [(''p'', example_position)]"
  by (simp_all add: example_collect_def)

lemma example_mints: "wtm_mintMap (getTokenMintsFromWhirlpools ''SOL'' [Some idle_pool] AllMints) = [''A'', ''B'']"
  by (simp add: getTokenMintsFromWhirlpools_def add_pool_mint_def set_add_def)

lemma example_resolved:
  "collect_resolved (example_ctx idle_pool example_position) example_collect =
     Inr [''A'' \<mapsto> ata_ref ''me'' ''A'', ''B'' \<mapsto> ata_ref ''me'' ''B'']"
  by (simp add: collect_resolved_def example_collect_def cx_getPools_def set_spread_def
      example_mints convertListToMap_def array_get_def)
     (auto simp: fun_eq_iff)

lemma example_extension_context:
  "cx_extensionContext (example_ctx idle_pool example_position) idle_pool = Inr \<lparr>tec_currentEpoch = 0,
     tec_tokenMintWithProgramA = example_mint ''A'' ''token'', tec_tokenMintWithProgramB = example_mint ''B'' ''token'',
     tec_rewardTokenMintsWithProgram = [None, None, None]\<rparr>"
  by (simp add: cx_extensionContext_def buildTokenExtensionContext_def nth_Cons')

lemma example_tasks:
  "position_tasks [(''P'', Some idle_pool)] (''p'', example_position) = Inr [FeeCollectionTask ''p'' example_position idle_pool]"
  by (simp add: position_tasks_def)

definition example_ixs :: "Instruction list" where
  "example_ixs = [Instruction.truncate (ata_ref ''me'' ''A''), Instruction.truncate (ata_ref ''me'' ''B''),
     collectFeesIx (te_program (tx_env_ref 10))
       \<lparr>cf_whirlpool = ''P'', cf_position = ''p'', cf_positionTokenAccount = ''Mme'',
        cf_tokenOwnerAccountA = rta_address (ata_ref ''me'' ''A''), cf_tokenOwnerAccountB = rta_address (ata_ref ''me'' ''B''),
        cf_tokenVaultA = ''vA'', cf_tokenVaultB = ''vB'', cf_positionAuthority = ''me''\<rparr>]"

lemma example_constructed:
  "constructCollectIxForPosition (example_ctx idle_pool example_position) (FeeCollectionTask ''p'' example_position idle_pool)
     False ''me'' ''me'' [''A'' \<mapsto> ata_ref ''me'' ''A'', ''B'' \<mapsto> ata_ref ''me'' ''B'', ''SOL'' \<mapsto> ata_ref ''me'' ''SOL''] {} =
   Inr ({''B'', ''A''}, example_ixs)"
  by (simp add: constructCollectIxForPosition_def example_extension_context fee_ixs_def touch_mint_def collect_fees_ix_def
      isV2IxRequiredPool_def spl_token_ref_def example_mint_def Let_def example_ixs_def)

lemma example_fits: "checkMergedTransactionSizeIsValid (tx_env_ref 10) [[], example_ixs]"
  by (simp add: checkMergedTransactionSizeIsValid_def tx_env_ref_def)
    (simp add: compress_ref_def example_ixs_def ata_ref_def collectFeesIx_def Let_def Instruction.defs)

lemma example_collected:
  "\<exists>builder. collectAllForPositionsTxns (example_ctx idle_pool example_position) example_collect = Inr [builder]"
  by (simp add: collectAllForPositionsTxns_def example_resolved Let_def)
    (simp add: example_collect_def cx_getPools_def set_spread_def example_tasks Let_def collect_open_def
      example_constructed example_fits)

theorem collect_all_complete_witness:
  "\<exists>txs base. length txs = 1 \<and> map fst (concat txs) = [FeeCollectionTask ''p'' example_position idle_pool] \<and>
    collect_resolved (example_ctx idle_pool example_position) example_collect = Inr base \<and>
    (\<forall>i < length txs. each_good (task_done ''me'' (collect_atas (tx_env_ref 10) ''me'' base)) (task_checked (tx_env_ref 10)) i (txs ! i))"
proof -
  obtain builder where run: "collectAllForPositionsTxns (example_ctx idle_pool example_position) example_collect = Inr [builder]"
    using example_collected by blast
  have "distinct (map fst (cap_positions example_collect))" by (simp add: example_collect_def)
  from collect_all_complete [OF run this] obtain txs base tasks where
    c: "[builder] = map (task_tx (tx_env_ref 10)) txs"
      "mapE (position_tasks [(''P'', Some idle_pool)]) [(''p'', example_position)] = Inr tasks"
      "map fst (concat txs) = concat tasks" "txs \<noteq> [] \<longrightarrow> collect_resolved (example_ctx idle_pool example_position) example_collect = Inr base"
      "\<forall>i < length txs. each_good (task_done ''me'' (collect_atas (tx_env_ref 10) ''me'' base)) (task_checked (tx_env_ref 10)) i (txs ! i)"
    by (simp add: example_collect_sel cx_getPools_def set_spread_def del: mapE.simps) (elim exE conjE, rule that)
  have "length txs = 1" using arg_cong [OF c(1), of length] by simp
  moreover have "concat tasks = [FeeCollectionTask ''p'' example_position idle_pool]"
    using c(2) by (simp add: example_tasks) auto
  moreover have "txs \<noteq> []" using calculation(1) by auto
  ultimately show ?thesis using c(3-5) by (intro exI [of _ txs] exI [of _ base] conjI) simp_all
qed

end
