(* ===== verification/Position_Impl.thy ===== *)
theory Position_Impl
  imports Collect_All
begin

text \<open>
  A position as the client sees it (\<^verbatim>\<open>sdk/src/impl/position-impl.ts\<close>,
  \<^verbatim>\<open>sdk/src/utils/builder/position-builder-util.ts\<close>): its cached accounts, and the transactions that
  add or remove liquidity, collect fees and collect rewards. A transaction is the list of the
  instructions added to its builder; options of a fetch are left out. The lemmas say which
  accounts a liquidity instruction moves tokens between, and which rewards are collected.
\<close>

record PositionImpl =
  pi_address :: pubkey
  pi_data :: PositionData
  pi_whirlpoolData :: WhirlpoolData
  pi_lowerTickArrayData :: TickArrayData
  pi_upperTickArrayData :: TickArrayData

definition pi_getLowerTickData :: "PositionImpl \<Rightarrow> TickData res" where
  "pi_getLowerTickData this' =
     getTickFromArray (pi_lowerTickArrayData this') (pos_tickLowerIndex (pi_data this'))
       (wp_tickSpacing (pi_whirlpoolData this'))"

definition pi_getUpperTickData :: "PositionImpl \<Rightarrow> TickData res" where
  "pi_getUpperTickData this' =
     getTickFromArray (pi_upperTickArrayData this') (pos_tickUpperIndex (pi_data this'))
       (wp_tickSpacing (pi_whirlpoolData this'))"

subsection \<open>Tick arrays of a position\<close>

definition position_tick_arrays :: "'c sdk_ctx \<Rightarrow> PositionData \<Rightarrow> int \<Rightarrow> (pubkey \<times> pubkey) res" where
  "position_tick_arrays ctx position tickSpacing =
     (let arr = (\<lambda>tick. getTickArrayFromTickIndex (pg_findProgramAddress (cx_program ctx)) tick tickSpacing
                   (pos_whirlpool position) (pg_programId (cx_program ctx)) 0) in
      bindE (arr (pos_tickLowerIndex position)) (\<lambda>lowerPda.
      bindE (arr (pos_tickUpperIndex position)) (\<lambda>upperPda.
      Inr (publicKey lowerPda, publicKey upperPda))))"

definition getTickArrayDataForPosition :: "'c sdk_ctx \<Rightarrow> PositionData \<Rightarrow> WhirlpoolData \<Rightarrow> TickArrayData option list res" where
  "getTickArrayDataForPosition ctx position whirlpool =
     bindE (position_tick_arrays ctx position (wp_tickSpacing whirlpool)) (\<lambda>(lowerTickArrayKey, upperTickArrayKey).
     Inr (cx_getTickArrays ctx [lowerTickArrayKey, upperTickArrayKey]))"

text \<open>An element of a fetched list: \<^verbatim>\<open>undefined\<close> and \<^verbatim>\<open>null\<close> are alike.\<close>

definition fetched_nth :: "'a option list \<Rightarrow> nat \<Rightarrow> 'a option" where
  "fetched_nth xs i = (case array_get xs i of Some r \<Rightarrow> r | None \<Rightarrow> None)"

definition pi_refresh :: "'c sdk_ctx \<Rightarrow> PositionImpl \<Rightarrow> PositionImpl res" where
  "pi_refresh ctx this' =
     (let this' = (case cx_getPosition ctx (pi_address this') of
            Some positionAccount \<Rightarrow> this'\<lparr>pi_data := positionAccount\<rparr> | None \<Rightarrow> this');
          this' = (case cx_getPool ctx (pos_whirlpool (pi_data this')) of
            Some whirlpoolAccount \<Rightarrow> this'\<lparr>pi_whirlpoolData := whirlpoolAccount\<rparr> | None \<Rightarrow> this') in
      bindE (getTickArrayDataForPosition ctx (pi_data this') (pi_whirlpoolData this')) (\<lambda>arrays.
      let this' = (case fetched_nth arrays 0 of
            Some lowerTickArray \<Rightarrow> this'\<lparr>pi_lowerTickArrayData := lowerTickArray\<rparr> | None \<Rightarrow> this');
          this' = (case fetched_nth arrays 1 of
            Some upperTickArray \<Rightarrow> this'\<lparr>pi_upperTickArrayData := upperTickArray\<rparr> | None \<Rightarrow> this') in
      Inr this'))"

definition pi_refreshData :: "'c sdk_ctx \<Rightarrow> PositionImpl \<Rightarrow> (PositionImpl \<times> PositionData) res" where
  "pi_refreshData ctx this' = bindE (pi_refresh ctx this') (\<lambda>this'. Inr (this', pi_data this'))"

definition pi_updateFeesAndRewards :: "'c sdk_ctx \<Rightarrow> PositionImpl \<Rightarrow> Instruction res" where
  "pi_updateFeesAndRewards ctx this' =
     (case cx_getPool ctx (pos_whirlpool (pi_data this')) of
        None \<Rightarrow> Inl PlainError
      | Some whirlpool \<Rightarrow>
          bindE (position_tick_arrays ctx (pi_data this') (wp_tickSpacing whirlpool)) (\<lambda>(tickArrayLower, tickArrayUpper).
          Inr (updateFeesAndRewardsIx (cx_program ctx)
            \<lparr>ufar_whirlpool = pos_whirlpool (pi_data this'), ufar_position = pi_address this',
             ufar_tickArrayLower = tickArrayLower, ufar_tickArrayUpper = tickArrayUpper\<rparr>)))"

subsection \<open>Liquidity\<close>

text \<open>The token accounts of a wallet for the mints of a pool, and the instructions that set them up.\<close>

definition liquidity_accounts ::
    "'c sdk_ctx \<Rightarrow> TokenExtensionContext \<Rightarrow> WhirlpoolData \<Rightarrow> bool \<Rightarrow> pubkey \<Rightarrow> pubkey \<Rightarrow> int option \<Rightarrow> int option \<Rightarrow>
     (Instruction list \<times> pubkey \<times> pubkey) res" where
  "liquidity_accounts ctx ext whirlpool resolveATA sourceWalletKey ataPayerKey wrapA wrapB =
     (let env = cx_env ctx in
      if resolveATA then
        bindE (te_resolveOrCreateATAs env sourceWalletKey
                 [(wp_tokenMintA whirlpool, wrapA), (wp_tokenMintB whirlpool, wrapB)] (Some ataPayerKey) False)
          (\<lambda>atas. case atas of
             ataA # ataB # _ \<Rightarrow>
               Inr ([Instruction.truncate ataA, Instruction.truncate ataB], rta_address ataA, rta_address ataB)
           | _ \<Rightarrow> Inl TypeError)
      else
        bindE (te_getAssociatedTokenAddress env (wp_tokenMintA whirlpool) sourceWalletKey
                 (mi_tokenProgram (tec_tokenMintWithProgramA ext))) (\<lambda>tokenOwnerAccountA.
        bindE (te_getAssociatedTokenAddress env (wp_tokenMintB whirlpool) sourceWalletKey
                 (mi_tokenProgram (tec_tokenMintWithProgramB ext))) (\<lambda>tokenOwnerAccountB.
        Inr ([], tokenOwnerAccountA, tokenOwnerAccountB))))"

definition or_wallet :: "'c sdk_ctx \<Rightarrow> pubkey option \<Rightarrow> pubkey" where
  "or_wallet ctx key = (case key of Some k \<Rightarrow> k | None \<Rightarrow> wallet_key ctx)"

definition pi_increaseLiquidity ::
    "'c sdk_ctx \<Rightarrow> PositionImpl \<Rightarrow> IncreaseLiquidityInput \<Rightarrow> bool \<Rightarrow> pubkey option \<Rightarrow> pubkey option \<Rightarrow> pubkey option \<Rightarrow>
     Instruction list res" where
  "pi_increaseLiquidity ctx this' liquidityInput resolveATA sourceWallet positionWallet ataPayer =
     (let data = pi_data this'; positionWalletKey = or_wallet ctx positionWallet in
      case cx_getPool ctx (pos_whirlpool data) of
        None \<Rightarrow> Inl PlainError
      | Some whirlpool \<Rightarrow>
          bindE (cx_extensionContext ctx whirlpool) (\<lambda>tokenExtensionCtx.
          bindE (liquidity_accounts ctx tokenExtensionCtx whirlpool resolveATA (or_wallet ctx sourceWallet)
                   (or_wallet ctx ataPayer) (Some (ili_tokenMaxA liquidityInput)) (Some (ili_tokenMaxB liquidityInput)))
            (\<lambda>(txBuilder, tokenOwnerAccountA, tokenOwnerAccountB).
          bindE (te_getAssociatedTokenAddress (cx_env ctx) (pos_positionMint data) positionWalletKey
                   (TOKEN_PROGRAM_ID (cx_spl ctx))) (\<lambda>positionTokenAccount.
          bindE (position_tick_arrays ctx data (wp_tickSpacing whirlpool)) (\<lambda>(tickArrayLower, tickArrayUpper).
          bindE (increase_liquidity_ix ctx tokenExtensionCtx whirlpool
            \<lparr>il_input = liquidityInput, il_whirlpool = pos_whirlpool data, il_position = pi_address this',
             il_positionTokenAccount = positionTokenAccount, il_tokenOwnerAccountA = tokenOwnerAccountA,
             il_tokenOwnerAccountB = tokenOwnerAccountB, il_tokenVaultA = wp_tokenVaultA whirlpool,
             il_tokenVaultB = wp_tokenVaultB whirlpool, il_tickArrayLower = tickArrayLower,
             il_tickArrayUpper = tickArrayUpper, il_positionAuthority = positionWalletKey\<rparr>) (\<lambda>increaseIx.
          Inr (txBuilder @ [increaseIx])))))))"

definition pi_decreaseLiquidity ::
    "'c sdk_ctx \<Rightarrow> PositionImpl \<Rightarrow> DecreaseLiquidityInput \<Rightarrow> bool \<Rightarrow> pubkey option \<Rightarrow> pubkey option \<Rightarrow> pubkey option \<Rightarrow>
     Instruction list res" where
  "pi_decreaseLiquidity ctx this' liquidityInput resolveATA sourceWallet positionWallet ataPayer =
     (let data = pi_data this'; positionWalletKey = or_wallet ctx positionWallet in
      case cx_getPool ctx (pos_whirlpool data) of
        None \<Rightarrow> Inl PlainError
      | Some whirlpool \<Rightarrow>
          bindE (cx_extensionContext ctx whirlpool) (\<lambda>tokenExtensionCtx.
          bindE (liquidity_accounts ctx tokenExtensionCtx whirlpool resolveATA (or_wallet ctx sourceWallet)
                   (or_wallet ctx ataPayer) None None)
            (\<lambda>(txBuilder, tokenOwnerAccountA, tokenOwnerAccountB).
          bindE (te_getAssociatedTokenAddress (cx_env ctx) (pos_positionMint data) positionWalletKey
                   (TOKEN_PROGRAM_ID (cx_spl ctx))) (\<lambda>positionTokenAccount.
          bindE (position_tick_arrays ctx data (wp_tickSpacing whirlpool)) (\<lambda>(tickArrayLower, tickArrayUpper).
          bindE (decrease_liquidity_ix ctx tokenExtensionCtx whirlpool
            \<lparr>dl_input = liquidityInput, dl_whirlpool = pos_whirlpool data, dl_position = pi_address this',
             dl_positionTokenAccount = positionTokenAccount, dl_tokenOwnerAccountA = tokenOwnerAccountA,
             dl_tokenOwnerAccountB = tokenOwnerAccountB, dl_tokenVaultA = wp_tokenVaultA whirlpool,
             dl_tokenVaultB = wp_tokenVaultB whirlpool, dl_tickArrayLower = tickArrayLower,
             dl_tickArrayUpper = tickArrayUpper, dl_positionAuthority = positionWalletKey\<rparr>) (\<lambda>decreaseIx.
          Inr (txBuilder @ [decreaseIx])))))))"

subsection \<open>Fees\<close>

text \<open>
  Where fees and rewards go: the accounts the caller names for some mints, or accounts resolved
  for the mints of the pool, with the instructions that set these up.
\<close>

definition fee_accounts ::
    "'c sdk_ctx \<Rightarrow> WhirlpoolData \<Rightarrow> (string \<rightharpoonup> pubkey) option \<Rightarrow> pubkey \<Rightarrow> pubkey \<Rightarrow>
     (Instruction list \<times> (string \<rightharpoonup> pubkey)) res" where
  "fee_accounts ctx whirlpool ownerTokenAccountMap destinationWalletKey ataPayerKey =
     (case ownerTokenAccountMap of
        Some ataMap \<Rightarrow> Inr ([], ataMap)
      | None \<Rightarrow>
          let env = cx_env ctx;
              affliatedMints = getTokenMintsFromWhirlpools (te_NATIVE_MINT env) [Some whirlpool] PoolOnly in
          bindE (resolveAtaForMints env (wtm_mintMap affliatedMints) (Some destinationWalletKey) (Some ataPayerKey))
            (\<lambda>resolved.
          if wtm_hasNativeMint affliatedMints then
            let wSOL = te_createWrappedNativeAccount env 0 destinationWalletKey 0 (Some ataPayerKey)
                  (Some destinationWalletKey) in
            Inr (ras_resolveAtaIxs resolved @ [Instruction.truncate wSOL],
                 (ras_ataTokenAddresses resolved)(te_NATIVE_MINT env \<mapsto> rta_address wSOL))
          else Inr (ras_resolveAtaIxs resolved, ras_ataTokenAddresses resolved)))"

definition pi_collectFees ::
    "'c sdk_ctx \<Rightarrow> PositionImpl \<Rightarrow> bool \<Rightarrow> (string \<rightharpoonup> pubkey) option \<Rightarrow> pubkey option \<Rightarrow> pubkey option \<Rightarrow>
     pubkey option \<Rightarrow> Instruction list res" where
  "pi_collectFees ctx this' updateFeesAndRewards ownerTokenAccountMap destinationWallet positionWallet ataPayer =
     (let data = pi_data this'; positionWalletKey = or_wallet ctx positionWallet in
      case cx_getPool ctx (pos_whirlpool data) of
        None \<Rightarrow> Inl PlainError
      | Some whirlpool \<Rightarrow>
          bindE (cx_extensionContext ctx whirlpool) (\<lambda>tokenExtensionCtx.
          bindE (fee_accounts ctx whirlpool ownerTokenAccountMap (or_wallet ctx destinationWallet) (or_wallet ctx ataPayer))
            (\<lambda>(txBuilder, ataMap).
          case (ataMap (wp_tokenMintA whirlpool), ataMap (wp_tokenMintB whirlpool)) of
            (Some tokenOwnerAccountA, Some tokenOwnerAccountB) \<Rightarrow>
              bindE (te_getAssociatedTokenAddress (cx_env ctx) (pos_positionMint data) positionWalletKey
                       (TOKEN_PROGRAM_ID (cx_spl ctx))) (\<lambda>positionTokenAccount.
              bindE (if updateFeesAndRewards \<and> pos_liquidity data \<noteq> 0
                     then bindE (pi_updateFeesAndRewards ctx this') (\<lambda>updateIx. Inr (txBuilder @ [updateIx]))
                     else Inr txBuilder) (\<lambda>txBuilder.
              bindE (collect_fees_ix ctx tokenExtensionCtx (wp_tokenMintA whirlpool) (wp_tokenMintB whirlpool)
                \<lparr>cf_whirlpool = pos_whirlpool data, cf_position = pi_address this',
                 cf_positionTokenAccount = positionTokenAccount, cf_tokenOwnerAccountA = tokenOwnerAccountA,
                 cf_tokenOwnerAccountB = tokenOwnerAccountB, cf_tokenVaultA = wp_tokenVaultA whirlpool,
                 cf_tokenVaultB = wp_tokenVaultB whirlpool, cf_positionAuthority = positionWalletKey\<rparr>) (\<lambda>ix.
              Inr (txBuilder @ [ix]))))
          | _ \<Rightarrow> Inl InvariantError)))"

subsection \<open>Rewards\<close>

definition reward_accounts ::
    "'c sdk_ctx \<Rightarrow> WhirlpoolData \<Rightarrow> (string \<rightharpoonup> pubkey) option \<Rightarrow> pubkey \<Rightarrow> pubkey \<Rightarrow> resolved_atas res" where
  "reward_accounts ctx whirlpool ownerTokenAccountMap destinationWalletKey ataPayerKey =
     (case ownerTokenAccountMap of
        Some ataMap \<Rightarrow>
          Inr (\<lambda>mint. map_option (\<lambda>address. \<lparr>in_instructions = [], in_cleanupInstructions = [], in_signers = [],
            rta_address = address\<rparr>) (ataMap mint))
      | None \<Rightarrow>
          let env = cx_env ctx;
              rewardMints = wtm_mintMap (getTokenMintsFromWhirlpools (te_NATIVE_MINT env) [Some whirlpool] RewardOnly) in
          bindE (te_resolveOrCreateATAs env destinationWalletKey (map (\<lambda>tokenMint. (tokenMint, None)) rewardMints)
                   (Some ataPayerKey) True) (\<lambda>resolved.
          Inr (map_of (convertListToMap resolved (map Some rewardMints)))))"

text \<open>The callback that collects the reward with a number among the initialized rewards.\<close>

definition reward_callback ::
    "'c sdk_ctx \<Rightarrow> TokenExtensionContext \<Rightarrow> PositionImpl \<Rightarrow> pubkey \<Rightarrow> pubkey \<Rightarrow> nat \<times> WhirlpoolRewardInfoData \<Rightarrow>
     generator" where
  "reward_callback ctx ext this' positionTokenAccount positionWalletKey = (\<lambda>(index, info).
     with_accounts [wri_mint info] (\<lambda>accounts.
       bindE (collect_reward_ix ctx ext index (\<lambda>mint. wri_mint info)
         \<lparr>clr_whirlpool = pos_whirlpool (pi_data this'), clr_position = pi_address this',
          clr_positionTokenAccount = positionTokenAccount, clr_rewardIndex = int index,
          clr_rewardOwnerAccount = hd accounts, clr_rewardVault = wri_vault info,
          clr_positionAuthority = positionWalletKey\<rparr>) (\<lambda>ix.
       Inr [ix])))"

text \<open>The loop ends at the first reward that is not asked for.\<close>

definition requested_rewards ::
    "pubkey list option \<Rightarrow> WhirlpoolData \<Rightarrow> (nat \<times> WhirlpoolRewardInfoData) list" where
  "requested_rewards rewardsToCollect whirlpool =
     takeWhile (\<lambda>(index, info). case rewardsToCollect of None \<Rightarrow> True | Some mints \<Rightarrow> wri_mint info \<in> set mints)
       (enumerate 0 (filter isRewardInitialized (wp_rewardInfos whirlpool)))"

definition pi_collectRewards ::
    "'c sdk_ctx \<Rightarrow> PositionImpl \<Rightarrow> pubkey list option \<Rightarrow> bool \<Rightarrow> (string \<rightharpoonup> pubkey) option \<Rightarrow> pubkey option \<Rightarrow>
     pubkey option \<Rightarrow> pubkey option \<Rightarrow> Instruction list list res" where
  "pi_collectRewards ctx this' rewardsToCollect updateFeesAndRewards ownerTokenAccountMap destinationWallet
     positionWallet ataPayer =
     (let env = cx_env ctx; data = pi_data this'; positionWalletKey = or_wallet ctx positionWallet;
          destinationWalletKey = or_wallet ctx destinationWallet; ataPayerKey = or_wallet ctx ataPayer in
      case cx_getPool ctx (pos_whirlpool data) of
        None \<Rightarrow> Inl PlainError
      | Some whirlpool \<Rightarrow>
          bindE (cx_extensionContext ctx whirlpool) (\<lambda>tokenExtensionCtx.
          bindE (reward_accounts ctx whirlpool ownerTokenAccountMap destinationWalletKey ataPayerKey) (\<lambda>resolvedAtas.
          let builder = new_tx_factory resolvedAtas destinationWalletKey ataPayerKey in
          bindE (te_getAssociatedTokenAddress env (pos_positionMint data) positionWalletKey
                   (TOKEN_PROGRAM_ID (cx_spl ctx))) (\<lambda>positionTokenAccount.
          bindE (if updateFeesAndRewards \<and> pos_liquidity data \<noteq> 0
                 then mf_addInstructions env
                   (Yield (bindE (pi_updateFeesAndRewards ctx this') (\<lambda>updateIx. Inr [updateIx]))) builder
                 else Inr builder) (\<lambda>builder.
          bindE (foldE (\<lambda>reward. mf_addInstructions env
                   (reward_callback ctx tokenExtensionCtx this' positionTokenAccount positionWalletKey reward))
                   (requested_rewards rewardsToCollect whirlpool) builder) (\<lambda>builder.
          Inr (mf_build builder)))))))"

subsection \<open>Liquidity moves between the wallet and the vaults\<close>

text \<open>The tick array that holds a tick: the aligned one whose span contains it.\<close>

definition tick_array_of :: "'c sdk_ctx \<Rightarrow> pubkey \<Rightarrow> int \<Rightarrow> int \<Rightarrow> pubkey \<Rightarrow> bool" where
  "tick_array_of ctx pool tickSpacing tick key \<longleftrightarrow>
     (\<exists>s. key = publicKey (getTickArray (pg_findProgramAddress (cx_program ctx)) (pg_programId (cx_program ctx)) pool s) \<and>
        TICK_ARRAY_SIZE * tickSpacing dvd s \<and> s \<le> tick \<and> tick < s + TICK_ARRAY_SIZE * tickSpacing)"

lemma tick_array_of_index:
  assumes "getTickArrayFromTickIndex (pg_findProgramAddress (cx_program ctx)) tick ts pool (pg_programId (cx_program ctx)) 0 = Inr pda"
    and "0 < ts"
  shows "tick_array_of ctx pool ts tick (publicKey pda)"
  using assms(1) array_start_bounds [OF assms(2), of tick]
  by (auto simp: getTickArrayFromTickIndex_def bindE_eq_Inr getStartTickIndex_eq [OF assms(2)] Let_def tick_array_of_def
      mult.commute split: if_splits)

lemma position_tick_arrays_hold:
  assumes "position_tick_arrays ctx position ts = Inr (l, u)" "0 < ts"
  shows "tick_array_of ctx (pos_whirlpool position) ts (pos_tickLowerIndex position) l"
    "tick_array_of ctx (pos_whirlpool position) ts (pos_tickUpperIndex position) u"
  using assms(1) tick_array_of_index [OF _ assms(2)]
  by (auto simp: position_tick_arrays_def Let_def bindE_eq_Inr)

text \<open>
  The accounts of a wallet: either resolved, and then set up before they are used, or computed from
  the mint, the wallet and the token program of the mint.
\<close>

lemma liquidity_accounts_cases:
  assumes "liquidity_accounts ctx ext whirlpool resolveATA source payer wrapA wrapB = Inr (setup', a, b)"
  obtains (resolved) ataA ataB rest where "resolveATA"
      "te_resolveOrCreateATAs (cx_env ctx) source [(wp_tokenMintA whirlpool, wrapA), (wp_tokenMintB whirlpool, wrapB)]
         (Some payer) False = Inr (ataA # ataB # rest)"
      "setup' = [Instruction.truncate ataA, Instruction.truncate ataB]" "a = rta_address ataA" "b = rta_address ataB"
    | (computed) "\<not> resolveATA" "setup' = []"
      "te_getAssociatedTokenAddress (cx_env ctx) (wp_tokenMintA whirlpool) source (mi_tokenProgram (tec_tokenMintWithProgramA ext)) = Inr a"
      "te_getAssociatedTokenAddress (cx_env ctx) (wp_tokenMintB whirlpool) source (mi_tokenProgram (tec_tokenMintWithProgramB ext)) = Inr b"
proof (cases resolveATA)
  case True
  with assms obtain atas where atas: "te_resolveOrCreateATAs (cx_env ctx) source
      [(wp_tokenMintA whirlpool, wrapA), (wp_tokenMintB whirlpool, wrapB)] (Some payer) False = Inr atas"
    "(case atas of ataA # ataB # _ \<Rightarrow>
        Inr ([Instruction.truncate ataA, Instruction.truncate ataB], rta_address ataA, rta_address ataB)
      | _ \<Rightarrow> Inl TypeError) = Inr (setup', a, b)"
    by (auto simp: liquidity_accounts_def Let_def bindE_eq_Inr)
  obtain ataA ataB rest where "atas = ataA # ataB # rest"
    using atas(2) by (cases atas; cases "tl atas") auto
  with atas True show ?thesis by (intro resolved [of ataA ataB rest]) simp_all
next
  case False
  with assms show ?thesis by (intro computed) (auto simp: liquidity_accounts_def Let_def bindE_eq_Inr)
qed

text \<open>
  C29: Adding or removing liquidity moves tokens between the wallet and the vaults of the position's own
  pool: the transaction ends with one instruction, of either version, that carries the
  amounts of the caller, is signed by the wallet of the position, names the pool and its two
  vaults, and names the two tick arrays that hold the position's ticks; the token accounts are
  those of the source wallet for the mints of the pool, and when they are to be resolved they are set up
  earlier in the transaction, wrapping at most the maximum of an increase.
\<close>

theorem liquidity_transactions:
  assumes "cx_getPool ctx (pos_whirlpool (pi_data this')) = Some whirlpool" "0 < wp_tickSpacing whirlpool"
    and "(result, name, amounts, wrapA, wrapB) \<in>
      {(pi_increaseLiquidity ctx this' inc resolveATA source wallet payer, ''increaseLiquidity'',
        [ili_liquidityAmount inc, ili_tokenMaxA inc, ili_tokenMaxB inc], Some (ili_tokenMaxA inc), Some (ili_tokenMaxB inc)),
       (pi_decreaseLiquidity ctx this' dec resolveATA source wallet payer, ''decreaseLiquidity'',
        [dli_liquidityAmount dec, dli_tokenMinA dec, dli_tokenMinB dec], None, None)}"
    and "result = Inr tx"
  shows "\<exists>setup' ix positionTokenAccount a b lower upper. tx = setup' @ [ix] \<and>
    liquidity_ix name amounts [pos_whirlpool (pi_data this'), pi_address this', or_wallet ctx wallet, positionTokenAccount, a, b,
      wp_tokenVaultA whirlpool, wp_tokenVaultB whirlpool, lower, upper] ix \<and>
    tick_array_of ctx (pos_whirlpool (pi_data this')) (wp_tickSpacing whirlpool) (pos_tickLowerIndex (pi_data this')) lower \<and>
    tick_array_of ctx (pos_whirlpool (pi_data this')) (wp_tickSpacing whirlpool) (pos_tickUpperIndex (pi_data this')) upper \<and>
    (if resolveATA
     then \<exists>ataA ataB rest. te_resolveOrCreateATAs (cx_env ctx) (or_wallet ctx source)
         [(wp_tokenMintA whirlpool, wrapA), (wp_tokenMintB whirlpool, wrapB)] (Some (or_wallet ctx payer)) False =
           Inr (ataA # ataB # rest) \<and>
         setup' = [Instruction.truncate ataA, Instruction.truncate ataB] \<and> a = rta_address ataA \<and> b = rta_address ataB
     else setup' = [] \<and>
       (\<exists>programA. te_getAssociatedTokenAddress (cx_env ctx) (wp_tokenMintA whirlpool) (or_wallet ctx source) programA = Inr a) \<and>
       (\<exists>programB. te_getAssociatedTokenAddress (cx_env ctx) (wp_tokenMintB whirlpool) (or_wallet ctx source) programB = Inr b))"
proof -
  let ?pool = "pos_whirlpool (pi_data this')" and ?ts = "wp_tickSpacing whirlpool"
  obtain ext setup' a b pta lower upper ix where
    acc: "liquidity_accounts ctx ext whirlpool resolveATA (or_wallet ctx source) (or_wallet ctx payer) wrapA wrapB = Inr (setup', a, b)"
    and arr: "position_tick_arrays ctx (pi_data this') ?ts = Inr (lower, upper)" and tx: "tx = setup' @ [ix]"
    and ix: "liquidity_ix name amounts [?pool, pi_address this', or_wallet ctx wallet, pta, a, b,
      wp_tokenVaultA whirlpool, wp_tokenVaultB whirlpool, lower, upper] ix"
  proof -
    from assms(3) consider (inc) "result = pi_increaseLiquidity ctx this' inc resolveATA source wallet payer"
        "name = ''increaseLiquidity''" "amounts = [ili_liquidityAmount inc, ili_tokenMaxA inc, ili_tokenMaxB inc]"
        "wrapA = Some (ili_tokenMaxA inc)" "wrapB = Some (ili_tokenMaxB inc)"
      | (dec) "result = pi_decreaseLiquidity ctx this' dec resolveATA source wallet payer"
        "name = ''decreaseLiquidity''" "amounts = [dli_liquidityAmount dec, dli_tokenMinA dec, dli_tokenMinB dec]"
        "wrapA = None" "wrapB = None"
      by auto
    then show thesis
    proof cases
      case inc
      with assms(1,4) show thesis
        by (auto simp: pi_increaseLiquidity_def Let_def bindE_eq_Inr
            intro!: that dest!: increase_liquidity_ix_reads)
    next
      case dec
      with assms(1,4) show thesis
        by (auto simp: pi_decreaseLiquidity_def Let_def bindE_eq_Inr
            intro!: that dest!: decrease_liquidity_ix_reads)
    qed
  qed
  have "tick_array_of ctx ?pool ?ts (pos_tickLowerIndex (pi_data this')) lower"
    "tick_array_of ctx ?pool ?ts (pos_tickUpperIndex (pi_data this')) upper"
    using position_tick_arrays_hold [OF arr assms(2)] by auto
  then show ?thesis
    using tx ix
    by (rule_tac liquidity_accounts_cases [OF acc])
      (intro exI [of _ setup'] exI [of _ ix] exI [of _ pta] exI [of _ a] exI [of _ b] exI [of _ lower] exI [of _ upper], auto)+
qed

subsection \<open>Which rewards are collected\<close>

text \<open>The instruction that collects a reward into an account, in either version.\<close>

definition collects_reward ::
    "pubkey \<Rightarrow> pubkey \<Rightarrow> pubkey \<Rightarrow> nat \<Rightarrow> pubkey \<Rightarrow> pubkey \<Rightarrow> Instruction \<Rightarrow> bool" where
  "collects_reward pool position authority index vault account ix \<longleftrightarrow>
     ix_called ix \<in> {Some ''collectReward'', Some ''collectRewardV2''} \<and> ix_first_arg ix = Some (V_int (int index)) \<and>
     map (ix_account ix) [''whirlpool'', ''position'', ''positionAuthority'', ''rewardVault'', ''rewardOwnerAccount''] =
       map Some [pool, position, authority, vault, account]"

lemma reward_callback_served:
  assumes "gen_served atas n ixs (reward_callback ctx ext this' pta authority (index, info)) new"
  shows "\<exists>prep ix. new = prep @ [ix] \<and> atas n (wri_mint info) \<noteq> None \<and>
    account_ix (atas n) (wri_mint info) \<in> set (ixs @ prep) \<and>
    collects_reward (pos_whirlpool (pi_data this')) (pi_address this') authority index (wri_vault info)
      (rta_address (the (atas n (wri_mint info)))) ix"
proof -
  from assms obtain prep own ata where *: "new = prep @ own" "atas n (wri_mint info) = Some ata"
      "account_ix (atas n) (wri_mint info) \<in> set (ixs @ prep)"
      "built (atas n) (reward_callback ctx ext this' pta authority (index, info)) = Inr own"
    by (auto simp: gen_served_def reward_callback_def)
  from *(2,4) obtain ix where "own = [ix]" "collect_reward_ix ctx ext index (\<lambda>mint. wri_mint info)
      \<lparr>clr_whirlpool = pos_whirlpool (pi_data this'), clr_position = pi_address this', clr_positionTokenAccount = pta,
       clr_rewardIndex = int index, clr_rewardOwnerAccount = rta_address ata, clr_rewardVault = wri_vault info,
       clr_positionAuthority = authority\<rparr> = Inr ix"
    by (auto simp: reward_callback_def bindE_eq_Inr)
  then show ?thesis
    using * collect_reward_ix_reads [of ctx ext index "\<lambda>mint. wri_mint info"]
    by (intro exI [of _ prep] exI [of _ ix]) (simp add: collects_reward_def)
qed

text \<open>The callbacks of a call, and the transactions they are packed into.\<close>

definition update_callbacks :: "'c sdk_ctx \<Rightarrow> PositionImpl \<Rightarrow> bool \<Rightarrow> generator list" where
  "update_callbacks ctx this' updateFeesAndRewards =
     (if updateFeesAndRewards \<and> pos_liquidity (pi_data this') \<noteq> 0
      then [Yield (bindE (pi_updateFeesAndRewards ctx this') (\<lambda>updateIx. Inr [updateIx]))] else [])"

lemma foldE_map: "foldE (\<lambda>x. f (g x)) xs s = foldE f (map g xs) s"
  by (induction xs arbitrary: s) (simp_all add: bindE_def split: sum.split)

lemma foldE_append: "foldE f (xs @ ys) s = bindE (foldE f xs s) (foldE f ys)"
  by (induction xs arbitrary: s) (simp_all add: bindE_def split: sum.split)

lemma collect_rewards_callbacks:
  assumes "pi_collectRewards ctx this' rewardsToCollect upd owners dest wallet payer = Inr builders"
    and "cx_getPool ctx (pos_whirlpool (pi_data this')) = Some whirlpool"
  obtains ext base pta fac where
    "reward_accounts ctx whirlpool owners (or_wallet ctx dest) (or_wallet ctx payer) = Inr base"
    "foldE (mf_addInstructions (cx_env ctx)) (update_callbacks ctx this' upd @
       map (reward_callback ctx ext this' pta (or_wallet ctx wallet)) (requested_rewards rewardsToCollect whirlpool))
       (new_tx_factory base (or_wallet ctx dest) (or_wallet ctx payer)) = Inr fac"
    "builders = mf_build fac"
proof -
  from assms obtain ext base pta fac1 fac where
    base: "reward_accounts ctx whirlpool owners (or_wallet ctx dest) (or_wallet ctx payer) = Inr base"
    and upd: "(if upd \<and> pos_liquidity (pi_data this') \<noteq> 0
        then mf_addInstructions (cx_env ctx)
          (Yield (bindE (pi_updateFeesAndRewards ctx this') (\<lambda>updateIx. Inr [updateIx])))
          (new_tx_factory base (or_wallet ctx dest) (or_wallet ctx payer))
        else Inr (new_tx_factory base (or_wallet ctx dest) (or_wallet ctx payer))) = Inr fac1"
    and rewards: "foldE (\<lambda>reward. mf_addInstructions (cx_env ctx)
        (reward_callback ctx ext this' pta (or_wallet ctx wallet) reward))
        (requested_rewards rewardsToCollect whirlpool) fac1 = Inr fac"
    and builders: "builders = mf_build fac"
    unfolding pi_collectRewards_def Let_def by (auto simp only: bindE_eq_Inr option.case sum.inject)
  have "foldE (mf_addInstructions (cx_env ctx)) (update_callbacks ctx this' upd)
      (new_tx_factory base (or_wallet ctx dest) (or_wallet ctx payer)) = Inr fac1"
    using upd by (auto simp: update_callbacks_def split: if_splits)
  with rewards show thesis
    by (intro that [OF base _ builders, of ext pta]) (simp add: foldE_append foldE_map)
qed

definition pool_rewards :: "WhirlpoolData \<Rightarrow> WhirlpoolRewardInfoData list" where
  "pool_rewards whirlpool = filter isRewardInitialized (wp_rewardInfos whirlpool)"

text \<open>
  C30: When every initialized reward is asked for, \<open>pi_collectRewards\<close> collects all of them: for every
  initialized reward of the pool one of the transactions has an instruction that collects it, with its
  number, from its vault to the account of its mint, after that account was set up in the same
  transaction; there is one callback per reward, besides the update of the position, and
  every transaction passed the size check.
\<close>

theorem collect_rewards_complete:
  assumes "pi_collectRewards ctx this' rewardsToCollect upd owners dest wallet payer = Inr builders"
    and "cx_getPool ctx (pos_whirlpool (pi_data this')) = Some whirlpool"
    and "\<forall>mints. rewardsToCollect = Some mints \<longrightarrow> wri_mint ` set (pool_rewards whirlpool) \<subseteq> set mints"
  shows "\<exists>base txs. reward_accounts ctx whirlpool owners (or_wallet ctx dest) (or_wallet ctx payer) = Inr base \<and>
    builders = map (tx_of (cx_env ctx)) txs \<and>
    length (concat txs) = length (update_callbacks ctx this' upd) + length (pool_rewards whirlpool) \<and>
    (\<forall>index < length (pool_rewards whirlpool). \<exists>i < length txs. \<exists>k < length (txs ! i). \<exists>prep ix.
       let mint = wri_mint (pool_rewards whirlpool ! index);
           atas = factory_atas (cx_env ctx) (or_wallet ctx dest) (or_wallet ctx payer) base i in
       snd (txs ! i ! k) = prep @ [ix] \<and> account_ix atas mint \<in> set (emitted (take k (txs ! i)) @ prep) \<and>
       tx_checked (cx_env ctx) (take k (txs ! i)) (prep @ [ix]) \<and>
       collects_reward (pos_whirlpool (pi_data this')) (pi_address this') (or_wallet ctx wallet) index
         (wri_vault (pool_rewards whirlpool ! index)) (rta_address (the (atas mint))) ix)"
proof -
  let ?rewards = "pool_rewards whirlpool" and ?env = "cx_env ctx"
  let ?atas = "factory_atas ?env (or_wallet ctx dest) (or_wallet ctx payer)"
  obtain ext base pta fac where
    base: "reward_accounts ctx whirlpool owners (or_wallet ctx dest) (or_wallet ctx payer) = Inr base"
    and run: "foldE (mf_addInstructions ?env) (update_callbacks ctx this' upd @
       map (reward_callback ctx ext this' pta (or_wallet ctx wallet)) (requested_rewards rewardsToCollect whirlpool))
       (new_tx_factory base (or_wallet ctx dest) (or_wallet ctx payer)) = Inr fac"
    and builders: "builders = mf_build fac" by (rule collect_rewards_callbacks [OF assms(1,2)])
  have all: "requested_rewards rewardsToCollect whirlpool = enumerate 0 ?rewards"
    using assms(3)
    by (auto simp: requested_rewards_def pool_rewards_def [symmetric] takeWhile_eq_all_conv in_set_enumerate_eq
        image_subset_iff split: option.splits)
  let ?gen = "\<lambda>index. reward_callback ctx ext this' pta (or_wallet ctx wallet) (index, ?rewards ! index)"
  from factory_packs [OF run] obtain txs where txs: "mf_build fac = map (tx_of ?env) txs"
    "map fst (concat txs) = update_callbacks ctx this' upd @ map (reward_callback ctx ext this' pta (or_wallet ctx wallet)) (enumerate 0 ?rewards)"
    "\<forall>i < length txs. each_good (gen_served (?atas base)) (tx_checked ?env) i (txs ! i)"
    unfolding all by - (elim exE conjE, rule that)
  have "\<exists>i < length txs. \<exists>k < length (txs ! i). \<exists>prep ix.
      snd (txs ! i ! k) = prep @ [ix] \<and>
      account_ix (?atas base i) (wri_mint (?rewards ! index)) \<in> set (emitted (take k (txs ! i)) @ prep) \<and>
      tx_checked ?env (take k (txs ! i)) (prep @ [ix]) \<and>
      collects_reward (pos_whirlpool (pi_data this')) (pi_address this') (or_wallet ctx wallet) index
        (wri_vault (?rewards ! index)) (rta_address (the (?atas base i (wri_mint (?rewards ! index))))) ix"
    if "index < length ?rewards" for index
  proof -
    have "(index, ?rewards ! index) \<in> set (enumerate 0 ?rewards)" using that by (simp add: in_set_enumerate_eq)
    then have "?gen index \<in> set (map fst (concat txs))" unfolding txs(2) by auto
    then obtain i k where ik: "i < length txs" "k < length (txs ! i)" "fst (txs ! i ! k) = ?gen index"
      by (auto simp: in_set_conv_nth)
    have served: "gen_served (?atas base) i (emitted (take k (txs ! i))) (?gen index) (snd (txs ! i ! k))"
      and checked: "tx_checked ?env (take k (txs ! i)) (snd (txs ! i ! k))"
      unfolding ik(3) [symmetric] using txs(3) ik(1,2) by (auto simp: each_good_def)
    from reward_callback_served [OF served] checked ik(1,2) show ?thesis
      by (elim exE conjE) (intro exI [of _ i] conjI exI [of _ k] exI, assumption+, simp_all)
  qed
  moreover have "length (concat txs) = length (update_callbacks ctx this' upd) + length ?rewards"
    using arg_cong [OF txs(2), of length] by simp
  ultimately show ?thesis
    using base builders txs(1) unfolding Let_def
    by (intro exI [of _ base] exI [of _ txs] conjI allI impI) simp_all
qed

text \<open>
  A reward that is not asked for hides the rewards after it: when the first initialized reward of the
  pool is not among the requested mints, then, whichever other rewards are requested, a call
  that succeeds collects nothing; it builds the update of the position, or no transaction.
\<close>

theorem unrequested_reward_hides_others:
  assumes "pi_collectRewards ctx this' (Some mints) upd owners dest wallet payer = Inr builders"
    and "cx_getPool ctx (pos_whirlpool (pi_data this')) = Some whirlpool"
    and "pool_rewards whirlpool = info # others" "wri_mint info \<notin> set mints"
  shows "if upd \<and> pos_liquidity (pi_data this') \<noteq> 0
    then \<exists>u. pi_updateFeesAndRewards ctx this' = Inr u \<and> builders = [[te_compressIx (cx_env ctx) False [u]]]
    else builders = []"
proof -
  have "requested_rewards (Some mints) whirlpool = []"
    using assms(3,4) by (simp add: requested_rewards_def pool_rewards_def)
  then obtain base fac where
    run: "foldE (mf_addInstructions (cx_env ctx)) (update_callbacks ctx this' upd)
       (new_tx_factory base (or_wallet ctx dest) (or_wallet ctx payer)) = Inr fac" and b: "builders = mf_build fac"
    by (rule_tac collect_rewards_callbacks [OF assms(1,2)]) simp
  from run show ?thesis
    unfolding b update_callbacks_def
    by (auto simp: mf_addInstructions_def numeral_2_eq_2 Let_def open_pending_def new_tx_factory_def mf_build_def
        bindE_eq_Inr split: if_splits)
qed

subsection \<open>Examples\<close>

text \<open>The position of the earlier example, and pools with one and with two rewards.\<close>

definition example_impl :: "WhirlpoolData \<Rightarrow> PositionImpl" where
  "example_impl pool = \<lparr>pi_address = ''p'', pi_data = example_position, pi_whirlpoolData = pool,
     pi_lowerTickArrayData = \<lparr>ta_whirlpool = ''P'', ta_startTickIndex = 0, ta_ticks = []\<rparr>,
     pi_upperTickArrayData = \<lparr>ta_whirlpool = ''P'', ta_startTickIndex = 0, ta_ticks = []\<rparr>\<rparr>"

definition example_reward :: "string \<Rightarrow> WhirlpoolRewardInfoData" where
  "example_reward mint = no_reward\<lparr>wri_mint := mint, wri_vault := ''v'' @ mint\<rparr>"

definition reward_pool :: "string list \<Rightarrow> WhirlpoolData" where
  "reward_pool mints = idle_pool\<lparr>wp_rewardInfos := map example_reward mints @ replicate (3 - length mints) no_reward\<rparr>"

lemma example_impl_sel [simp]:
  "pi_address (example_impl pool) = ''p''" "pi_data (example_impl pool) = example_position"
  by (simp_all add: example_impl_def)

lemma example_reward_sel [simp]:
  "wri_mint (example_reward mint) = mint" "wri_vault (example_reward mint) = ''v'' @ mint"
  by (simp_all add: example_reward_def)

lemma reward_pool_sel [simp]:
  "wp_tokenMintA (reward_pool mints) = ''A''" "wp_tokenMintB (reward_pool mints) = ''B''"
  "wp_rewardInfos (reward_pool mints) = map example_reward mints @ replicate (3 - length mints) no_reward"
  by (simp_all add: reward_pool_def)

lemma example_ticks [simp]: "pos_tickLowerIndex example_position = 0" "pos_tickUpperIndex example_position = 64"
  by (simp_all add: example_position_def)

lemma example_arrays: "\<exists>l u. position_tick_arrays (example_ctx pool example_position) example_position 64 = Inr (l, u)"
  by (simp add: position_tick_arrays_def getTickArrayFromTickIndex_def getStartTickIndex_in_bounds checkTickInBounds_def
      MIN_TICK_INDEX_def MAX_TICK_INDEX_def Let_def)

theorem liquidity_transactions_witness:
  "\<exists>tx setup' ix pta a b lower upper.
     pi_increaseLiquidity (example_ctx idle_pool example_position) (example_impl idle_pool)
       \<lparr>ili_tokenMaxA = 2, ili_tokenMaxB = 3, ili_liquidityAmount = 1\<rparr> True None None None = Inr tx \<and> tx = setup' @ [ix] \<and>
     liquidity_ix ''increaseLiquidity'' [1, 2, 3] [''P'', ''p'', ''me'', pta, a, b, ''vA'', ''vB'', lower, upper] ix"
proof -
  let ?ctx = "example_ctx idle_pool example_position" and ?inc = "\<lparr>ili_tokenMaxA = 2, ili_tokenMaxB = 3, ili_liquidityAmount = 1\<rparr>"
  obtain l u where arr: "position_tick_arrays ?ctx example_position 64 = Inr (l, u)" using example_arrays by blast
  have "\<exists>tx. pi_increaseLiquidity ?ctx (example_impl idle_pool) ?inc True None None None = Inr tx"
    by (simp add: pi_increaseLiquidity_def Let_def example_extension_context liquidity_accounts_def arr
        increase_liquidity_ix_def isV2IxRequiredPool_def example_mint_def spl_token_ref_def or_wallet_def)
  then obtain tx where tx: "pi_increaseLiquidity ?ctx (example_impl idle_pool) ?inc True None None None = Inr tx" ..
  have "cx_getPool ?ctx (pos_whirlpool (pi_data (example_impl idle_pool))) = Some idle_pool" "0 < wp_tickSpacing idle_pool"
    by simp_all
  from liquidity_transactions [OF this insertI1 tx]
  show ?thesis
    using tx by (elim exE conjE) (intro exI conjI, assumption, assumption, simp add: or_wallet_def)
qed

lemma example_rewards:
  "isRewardInitialized (example_reward ''R'')" "isRewardInitialized (example_reward ''S'')"
  by (simp_all add: isRewardInitialized_def example_reward_def PublicKey_default_def numeral_eq_Suc)

lemma reward_extension_context:
  "cx_extensionContext (example_ctx (reward_pool [''R'']) example_position) (reward_pool [''R'']) = Inr \<lparr>tec_currentEpoch = 0,
     tec_tokenMintWithProgramA = example_mint ''A'' ''token'', tec_tokenMintWithProgramB = example_mint ''B'' ''token'',
     tec_rewardTokenMintsWithProgram = [Some (example_mint ''R'' ''token''), None, None]\<rparr>"
  "\<exists>ext. cx_extensionContext (example_ctx (reward_pool [''R'', ''S'']) example_position) (reward_pool [''R'', ''S'']) = Inr ext"
  by (simp_all add: cx_extensionContext_def buildTokenExtensionContext_def example_rewards numeral_eq_Suc)

lemma pool_rewards_example:
  "pool_rewards (reward_pool [''R'']) = [example_reward ''R'']"
  "pool_rewards (reward_pool [''R'', ''S'']) = [example_reward ''R'', example_reward ''S'']"
  by (simp_all add: pool_rewards_def example_rewards numeral_eq_Suc)

lemma requested_example:
  "requested_rewards None (reward_pool [''R'']) = [(0, example_reward ''R'')]"
  "requested_rewards (Some [''S'']) (reward_pool [''R'', ''S'']) = []"
  by (simp_all add: requested_rewards_def example_rewards numeral_eq_Suc)

text \<open>One small callback on a new factory.\<close>

lemma example_callback_packed:
  assumes "m \<noteq> ''SOL''" "atas m = Some ata" "in_instructions ata = []" "in_cleanupInstructions ata = []"
    and "length (in_instructions ix) = 1" "in_cleanupInstructions ix = []"
    and "\<And>atas'. atas' m = Some ata \<Longrightarrow> run_generator atas' gen ({}, []) = Inr ({m}, [Instruction.truncate ata, ix])"
  shows "\<exists>fac. mf_addInstructions (tx_env_ref 10) gen (new_tx_factory atas owner payer) = Inr fac"
  using assms
  by (simp add: mf_addInstructions_def numeral_2_eq_2 open_pending_def new_tx_factory_def Let_def
      checkMergedTransactionSizeIsValid_def)
    (simp add: tx_env_ref_def compress_ref_def Instruction.defs)

definition example_collect_ix :: "pubkey \<Rightarrow> Instruction" where
  "example_collect_ix account = collectRewardIx (te_program (tx_env_ref 10))
     \<lparr>clr_whirlpool = ''P'', clr_position = ''p'', clr_positionTokenAccount = ''Mme'', clr_rewardIndex = 0,
      clr_rewardOwnerAccount = account, clr_rewardVault = ''vR'', clr_positionAuthority = ''me''\<rparr>"

lemma example_reward_run:
  assumes "atas ''R'' = Some ata"
  shows "run_generator atas (reward_callback (example_ctx (reward_pool [''R'']) example_position)
      \<lparr>tec_currentEpoch = 0, tec_tokenMintWithProgramA = example_mint ''A'' ''token'',
       tec_tokenMintWithProgramB = example_mint ''B'' ''token'',
       tec_rewardTokenMintsWithProgram = [Some (example_mint ''R'' ''token''), None, None]\<rparr>
      (example_impl (reward_pool [''R''])) ''Mme'' ''me'' (0, example_reward ''R'')) ({}, []) =
    Inr ({''R''}, [Instruction.truncate ata, example_collect_ix (rta_address ata)])"
  using assms
  by (simp add: reward_callback_def collect_reward_ix_def isV2IxRequiredReward_def example_mint_def spl_token_ref_def
      example_collect_ix_def)

lemma example_reward_accounts:
  "reward_accounts (example_ctx pool position) (reward_pool [''R'']) (Some [''R'' \<mapsto> ''x'']) owner payer = Inr base \<Longrightarrow>
   \<exists>ata. base ''R'' = Some ata \<and> in_instructions ata = [] \<and> in_cleanupInstructions ata = [] \<and> rta_address ata = ''x''"
  by (auto simp: reward_accounts_def)

lemma example_collect_rewards:
  "\<exists>builders. pi_collectRewards (example_ctx (reward_pool [''R'']) example_position) (example_impl (reward_pool [''R''])) None
     False (Some [''R'' \<mapsto> ''x'']) None None None = Inr builders"
proof -
  let ?ctx = "example_ctx (reward_pool [''R'']) example_position"
  obtain base where base: "reward_accounts ?ctx (reward_pool [''R'']) (Some [''R'' \<mapsto> ''x'']) ''me'' ''me'' = Inr base"
    by (simp add: reward_accounts_def)
  from example_reward_accounts [OF this] obtain ata where
    ata: "base ''R'' = Some ata" "in_instructions ata = []" "in_cleanupInstructions ata = []" by blast
  have "\<exists>fac. mf_addInstructions (tx_env_ref 10) (reward_callback ?ctx
      \<lparr>tec_currentEpoch = 0, tec_tokenMintWithProgramA = example_mint ''A'' ''token'',
       tec_tokenMintWithProgramB = example_mint ''B'' ''token'',
       tec_rewardTokenMintsWithProgram = [Some (example_mint ''R'' ''token''), None, None]\<rparr>
      (example_impl (reward_pool [''R''])) ''Mme'' ''me'' (0, example_reward ''R''))
      (new_tx_factory base ''me'' ''me'') = Inr fac"
    by (rule example_callback_packed [where m = "''R''" and ata = ata and ix = "example_collect_ix (rta_address ata)"])
      (simp_all add: ata example_reward_run example_collect_ix_def collectRewardIx_def call_ix_def Let_def)
  then show ?thesis
    by (auto simp: pi_collectRewards_def reward_extension_context or_wallet_def base requested_example Let_def)
qed

theorem collect_rewards_complete_witness:
  "\<exists>builders base txs. pi_collectRewards (example_ctx (reward_pool [''R'']) example_position)
      (example_impl (reward_pool [''R''])) None False (Some [''R'' \<mapsto> ''x'']) None None None = Inr builders \<and>
    builders = map (tx_of (tx_env_ref 10)) txs \<and> length (concat txs) = 1 \<and>
    (\<exists>i < length txs. \<exists>k < length (txs ! i). \<exists>ix. last (snd (txs ! i ! k)) = ix \<and>
       collects_reward ''P'' ''p'' ''me'' 0 ''vR'' (rta_address (the (factory_atas (tx_env_ref 10) ''me'' ''me'' base i ''R''))) ix)"
proof -
  let ?ctx = "example_ctx (reward_pool [''R'']) example_position" and ?impl = "example_impl (reward_pool [''R''])"
  obtain builders where run: "pi_collectRewards ?ctx ?impl None False (Some [''R'' \<mapsto> ''x'']) None None None = Inr builders"
    using example_collect_rewards by blast
  have "cx_getPool ?ctx (pos_whirlpool (pi_data ?impl)) = Some (reward_pool [''R''])" by simp
  from collect_rewards_complete [OF run this] obtain base txs where
    c: "builders = map (tx_of (tx_env_ref 10)) txs" "length (concat txs) = 1"
    "\<forall>index < 1. \<exists>i < length txs. \<exists>k < length (txs ! i). \<exists>prep ix.
       snd (txs ! i ! k) = prep @ [ix] \<and> collects_reward ''P'' ''p'' ''me'' index
         (wri_vault ([example_reward ''R''] ! index))
         (rta_address (the (factory_atas (tx_env_ref 10) ''me'' ''me'' base i (wri_mint ([example_reward ''R''] ! index))))) ix"
    by (simp add: pool_rewards_example update_callbacks_def or_wallet_def Let_def) (elim exE conjE, rule that, auto)
  from c(3) [rule_format, of 0] obtain i k prep ix where "i < length txs" "k < length (txs ! i)"
      "snd (txs ! i ! k) = prep @ [ix]"
      "collects_reward ''P'' ''p'' ''me'' 0 ''vR'' (rta_address (the (factory_atas (tx_env_ref 10) ''me'' ''me'' base i ''R''))) ix"
    by auto
  with run c(1,2) show ?thesis
    by (intro exI [of _ builders] exI [of _ base] exI [of _ txs] conjI exI [of _ i] exI [of _ k] exI [of _ ix]) simp_all
qed

theorem unrequested_reward_hides_others_witness:
  "\<exists>builders. pi_collectRewards (example_ctx (reward_pool [''R'', ''S'']) example_position) (example_impl (reward_pool [''R'', ''S'']))
     (Some [''S'']) False (Some [''S'' \<mapsto> ''x'']) None None None = Inr builders \<and> builders = [] \<and>
     isRewardInitialized (wp_rewardInfos (reward_pool [''R'', ''S'']) ! 1) \<and>
     wri_mint (wp_rewardInfos (reward_pool [''R'', ''S'']) ! 1) = ''S''"
proof -
  let ?ctx = "example_ctx (reward_pool [''R'', ''S'']) example_position" and ?impl = "example_impl (reward_pool [''R'', ''S''])"
  obtain ext where ext: "cx_extensionContext ?ctx (reward_pool [''R'', ''S'']) = Inr ext"
    using reward_extension_context(2) by blast
  then obtain builders where run: "pi_collectRewards ?ctx ?impl (Some [''S'']) False (Some [''S'' \<mapsto> ''x'']) None None None = Inr builders"
    by (simp add: pi_collectRewards_def or_wallet_def reward_accounts_def requested_example Let_def)
  have "cx_getPool ?ctx (pos_whirlpool (pi_data ?impl)) = Some (reward_pool [''R'', ''S''])" by simp
  from unrequested_reward_hides_others [OF run this pool_rewards_example(2)] run show ?thesis
    by (simp add: example_rewards)
qed

end
