(* ===== verification/Swap_Async.thy ===== *)
theory Swap_Async
  imports Collect_All
begin

text \<open>
  The transaction of a swap (\<^verbatim>\<open>sdk/src/instructions/composites/swap-async.ts\<close>): token accounts for
  both mints, then the swap. The lemmas say which accounts and amounts it names, and how
  much of the native token is wrapped.
\<close>

record SwapAsyncParams =
  sap_swapInput :: SwapInput
  sap_whirlpool :: "pubkey \<times> WhirlpoolData"
  sap_wallet :: pubkey

text \<open>The address of an array that a quote does not have cannot be read.\<close>

definition tick_array_addresses :: "'a SwapInput_scheme \<Rightarrow> pubkey list res" where
  "tick_array_addresses quote =
     mapE (\<lambda>a. case a of Some k \<Rightarrow> Inr k | None \<Rightarrow> Inl TypeError)
       [si_tickArray0 quote, si_tickArray1 quote, si_tickArray2 quote]"

definition swap_ix :: "'c sdk_ctx \<Rightarrow> TokenExtensionContext \<Rightarrow> SwapParams \<Rightarrow> Instruction res" where
  "swap_ix ctx ext p =
     (if \<not> isV2IxRequiredPool (cx_spl ctx) ext then Inr (swapIx (cx_program ctx) p)
      else
        let aToB = si_aToB (sp_input p) in
        bindE (getExtraAccountMetasForTransferHookForPool (cx_spl ctx) ext
                 (if aToB then sp_tokenOwnerAccountA p else sp_tokenVaultA p)
                 (if aToB then sp_tokenVaultA p else sp_tokenOwnerAccountA p)
                 (if aToB then sp_tokenAuthority p else sp_whirlpool p)
                 (if aToB then sp_tokenVaultB p else sp_tokenOwnerAccountB p)
                 (if aToB then sp_tokenOwnerAccountB p else sp_tokenVaultB p)
                 (if aToB then sp_whirlpool p else sp_tokenAuthority p)) (\<lambda>(hookA, hookB).
        Inr (swapV2Ix (cx_program ctx)
          \<lparr>swap2_input = sp_input p, swap2_whirlpool = sp_whirlpool p,
           swap2_tokenMintA = mi_address (tec_tokenMintWithProgramA ext),
           swap2_tokenMintB = mi_address (tec_tokenMintWithProgramB ext),
           swap2_tokenOwnerAccountA = sp_tokenOwnerAccountA p, swap2_tokenOwnerAccountB = sp_tokenOwnerAccountB p,
           swap2_tokenVaultA = sp_tokenVaultA p, swap2_tokenVaultB = sp_tokenVaultB p,
           swap2_tokenTransferHookAccountsA = hookA, swap2_tokenTransferHookAccountsB = hookB,
           swap2_tokenProgramA = mi_tokenProgram (tec_tokenMintWithProgramA ext),
           swap2_tokenProgramB = mi_tokenProgram (tec_tokenMintWithProgramB ext),
           swap2_oracle = sp_oracle p, swap2_tokenAuthority = sp_tokenAuthority p\<rparr>)))"

definition swapAsync :: "'c sdk_ctx \<Rightarrow> SwapAsyncParams \<Rightarrow> Instruction list res" where
  "swapAsync ctx params =
     (let swapInput = sap_swapInput params; wallet = sap_wallet params; env = cx_env ctx;
          aToB = si_aToB swapInput; amount = si_amount swapInput; data = snd (sap_whirlpool params) in
      bindE (tick_array_addresses swapInput) (\<lambda>tickArrayAddresses.
      case getUninitializedArraysString (cx_getTickArrays ctx) tickArrayAddresses of
        Some uninitializedArrays \<Rightarrow> Inl PlainError
      | None \<Rightarrow>
          bindE (te_resolveOrCreateATAs env wallet
                   [(wp_tokenMintA data, Some (if aToB then amount else 0)),
                    (wp_tokenMintB data, Some (if \<not> aToB then amount else 0))] None True) (\<lambda>atas.
          case atas of
            resolvedAtaA # resolvedAtaB # _ \<Rightarrow>
              let ataAKey = rta_address resolvedAtaA; ataBKey = rta_address resolvedAtaB;
                  inputTokenAccount = (if aToB then ataAKey else ataBKey);
                  outputTokenAccount = (if aToB then ataBKey else ataAKey) in
              bindE (cx_extensionContext ctx data) (\<lambda>tokenExtensionCtx.
              bindE (swap_ix ctx tokenExtensionCtx
                (getSwapParamsFromQuote (pg_findProgramAddress (cx_program ctx)) (pg_programId (cx_program ctx)) swapInput
                   (sap_whirlpool params) inputTokenAccount outputTokenAccount wallet)) (\<lambda>ix.
              Inr [Instruction.truncate resolvedAtaA, Instruction.truncate resolvedAtaB, ix]))
          | _ \<Rightarrow> Inl TypeError)))"

subsection \<open>What the transaction says\<close>

text \<open>The arguments and accounts of a swap, in either version.\<close>

definition swaps :: "SwapInput \<Rightarrow> pubkey list \<Rightarrow> Instruction \<Rightarrow> bool" where
  "swaps quote accounts ix \<longleftrightarrow>
     ix_called ix \<in> {Some ''swap'', Some ''swapV2''} \<and>
     take 5 (ix_args ix) = [V_int (si_amount quote), V_int (si_otherAmountThreshold quote), V_int (si_sqrtPriceLimit quote),
       V_bool (si_amountSpecifiedIsInput quote), V_bool (si_aToB quote)] \<and>
     map (ix_account ix) [''whirlpool'', ''tokenAuthority'', ''tokenOwnerAccountA'', ''tokenOwnerAccountB'', ''tokenVaultA'',
       ''tokenVaultB''] = map Some accounts \<and>
     map (ix_account ix) [''tickArray0'', ''tickArray1'', ''tickArray2''] =
       [si_tickArray0 quote, si_tickArray1 quote, si_tickArray2 quote]"

lemma swap_ix_reads:
  assumes "swap_ix ctx ext p = Inr ins"
  shows "swaps (sp_input p) [sp_whirlpool p, sp_tokenAuthority p, sp_tokenOwnerAccountA p, sp_tokenOwnerAccountB p,
    sp_tokenVaultA p, sp_tokenVaultB p] ins"
  using assms
  by (auto simp: swap_ix_def bindE_eq_Inr swapIx_def swapV2Ix_def ix_read Let_def case_prod_beta swaps_def ix_args_def
      split: if_splits)

lemma initialized_arrays:
  assumes "getUninitializedArraysString getArrays addrs = None"
  shows "None \<notin> set (getArrays addrs)"
proof
  assume "None \<in> set (getArrays addrs)"
  then obtain i where "i < length (getArrays addrs)" "getArrays addrs ! i = None" by (metis in_set_conv_nth)
  then have "(i, None) \<in> set (enumerate 0 (getArrays addrs))" by (simp add: in_set_enumerate_eq)
  then have "i \<in> set (getUninitializedArrays (getArrays addrs))" by (force simp: getUninitializedArrays_def)
  then show False using assms by (auto simp: getUninitializedArraysString_def Let_def split: if_splits)
qed

text \<open>
  C31: A swap transaction sets up the token accounts of the wallet for both mints of the pool and then makes
  one swap, in the version the mints need, with the amounts, the limit and the direction of the
  quote, between these accounts and the vaults of the pool, on the tick arrays of the quote, all
  of which are initialized. Of the input token it wraps \<open>si_amount\<close>, and nothing of the output
  token: for an exact-output quote this is the number of output tokens, whatever maximum the
  quote sets for the input.
\<close>

theorem swap_async_transaction:
  assumes "swapAsync ctx \<lparr>sap_swapInput = quote, sap_whirlpool = (pool, data), sap_wallet = wallet\<rparr> = Inr tx"
  shows "\<exists>ataA ataB rest ix arrays.
    te_resolveOrCreateATAs (cx_env ctx) wallet
      [(wp_tokenMintA data, Some (if si_aToB quote then si_amount quote else 0)),
       (wp_tokenMintB data, Some (if si_aToB quote then 0 else si_amount quote))] None True = Inr (ataA # ataB # rest) \<and>
    tx = [Instruction.truncate ataA, Instruction.truncate ataB, ix] \<and>
    swaps quote [pool, wallet, rta_address ataA, rta_address ataB, wp_tokenVaultA data, wp_tokenVaultB data] ix \<and>
    map Some arrays = [si_tickArray0 quote, si_tickArray1 quote, si_tickArray2 quote] \<and>
    None \<notin> set (cx_getTickArrays ctx arrays)"
proof -
  let ?fpa = "pg_findProgramAddress (cx_program ctx)" and ?id = "pg_programId (cx_program ctx)"
  let ?amounts = "[(wp_tokenMintA data, Some (if si_aToB quote then si_amount quote else 0)),
    (wp_tokenMintB data, Some (if si_aToB quote then 0 else si_amount quote))]"
  from assms obtain arrays atas where arrays: "tick_array_addresses quote = Inr arrays"
      "getUninitializedArraysString (cx_getTickArrays ctx) arrays = None"
    and atas: "te_resolveOrCreateATAs (cx_env ctx) wallet ?amounts None True = Inr atas"
    by (auto simp: swapAsync_def Let_def bindE_eq_Inr if_not_P split: option.splits if_splits)
  from arrays(1) have "map Some arrays = [si_tickArray0 quote, si_tickArray1 quote, si_tickArray2 quote]"
    by (auto simp: tick_array_addresses_def bindE_eq_Inr split: option.splits)
  moreover obtain ataA ataB rest where "atas = ataA # ataB # rest"
    using assms arrays atas by (cases atas; cases "tl atas") (auto simp: swapAsync_def Let_def split: if_splits)
  moreover from this assms arrays atas obtain ext ix where "tx = [Instruction.truncate ataA, Instruction.truncate ataB, ix]"
    "swap_ix ctx ext (getSwapParamsFromQuote ?fpa ?id quote (pool, data)
       (if si_aToB quote then rta_address ataA else rta_address ataB)
       (if si_aToB quote then rta_address ataB else rta_address ataA) wallet) = Inr ix"
    by (cases "si_aToB quote") (auto simp: swapAsync_def Let_def bindE_eq_Inr)
  moreover from this(2) have "swaps quote [pool, wallet, rta_address ataA, rta_address ataB, wp_tokenVaultA data, wp_tokenVaultB data] ix"
    by (auto dest: swap_ix_reads simp: getSwapParamsFromQuote_def getSwapParamsFromQuoteKeys_def Let_def SwapInput.defs
        swaps_def split: if_splits)
  ultimately show ?thesis
    using atas initialized_arrays [OF arrays(2)]
    by (intro exI [of _ ataA] exI [of _ ataB] exI [of _ rest] exI [of _ ix] exI [of _ arrays]) simp
qed

subsection \<open>An example\<close>

definition swap_ctx :: "TransferFee sdk_ctx" where
  "swap_ctx = (example_ctx idle_pool example_position)
     \<lparr>cx_getTickArrays := map (\<lambda>a. Some \<lparr>ta_whirlpool = ''P'', ta_startTickIndex = 0, ta_ticks = []\<rparr>)\<rparr>"

definition exact_out_quote :: SwapInput where
  "exact_out_quote = \<lparr>si_amount = 5, si_otherAmountThreshold = 1000, si_sqrtPriceLimit = 1, si_amountSpecifiedIsInput = False,
     si_aToB = True, si_tickArray0 = Some ''t'', si_tickArray1 = Some ''t'', si_tickArray2 = Some ''t''\<rparr>"

lemma swap_ctx_sel [simp]:
  "cx_env swap_ctx = tx_env_ref 10" "cx_spl swap_ctx = spl_token_ref"
  "cx_getTickArrays swap_ctx = map (\<lambda>a. Some \<lparr>ta_whirlpool = ''P'', ta_startTickIndex = 0, ta_ticks = []\<rparr>)"
  "cx_extensionContext swap_ctx idle_pool = cx_extensionContext (example_ctx idle_pool example_position) idle_pool"
  by (simp_all add: swap_ctx_def cx_extensionContext_def)

lemma example_swap: "\<exists>tx. swapAsync swap_ctx \<lparr>sap_swapInput = exact_out_quote, sap_whirlpool = (''P'', idle_pool), sap_wallet = ''me''\<rparr> = Inr tx"
  by (simp add: swapAsync_def exact_out_quote_def tick_array_addresses_def getUninitializedArraysString_def
      getUninitializedArrays_def example_extension_context swap_ix_def isV2IxRequiredPool_def example_mint_def spl_token_ref_def
      Let_def)

theorem swap_async_transaction_witness:
  "\<exists>tx ataA ataB rest ix.
    swapAsync swap_ctx \<lparr>sap_swapInput = exact_out_quote, sap_whirlpool = (''P'', idle_pool), sap_wallet = ''me''\<rparr> = Inr tx \<and>
    te_resolveOrCreateATAs (tx_env_ref 10) ''me'' [(''A'', Some 5), (''B'', Some 0)] None True = Inr (ataA # ataB # rest) \<and>
    tx = [Instruction.truncate ataA, Instruction.truncate ataB, ix] \<and>
    swaps exact_out_quote [''P'', ''me'', rta_address ataA, rta_address ataB, ''vA'', ''vB''] ix"
proof -
  obtain tx where tx: "swapAsync swap_ctx \<lparr>sap_swapInput = exact_out_quote, sap_whirlpool = (''P'', idle_pool), sap_wallet = ''me''\<rparr> = Inr tx"
    using example_swap by blast
  have q: "si_aToB exact_out_quote" "si_amount exact_out_quote = 5" by (simp_all add: exact_out_quote_def)
  from swap_async_transaction [OF tx] obtain ataA ataB rest ix where
    "te_resolveOrCreateATAs (tx_env_ref 10) ''me'' [(''A'', Some 5), (''B'', Some 0)] None True = Inr (ataA # ataB # rest)"
    "tx = [Instruction.truncate ataA, Instruction.truncate ataB, ix]"
    "swaps exact_out_quote [''P'', ''me'', rta_address ataA, rta_address ataB, ''vA'', ''vB''] ix"
    by (simp add: q del: tx_env_ref_sel) (elim exE conjE, rule that)
  with tx show ?thesis by (intro exI conjI)
qed

end
