(* ===== verification/Whirlpool_Impl.thy ===== *)
theory Whirlpool_Impl
  imports Liquidity_Quotes Collect_Quotes Position_Impl Swap_Async
begin

text \<open>
  A pool as the client sees it (\<^verbatim>\<open>sdk/src/impl/whirlpool-impl.ts\<close>, \<^verbatim>\<open>sdk/src/impl/util.ts\<close>): its cached
  accounts, and the transactions that open and close positions, initialize tick arrays and
  swap. A method that changes the object returns it. The lemmas say what opening a position does,
  what closing one collects, and which of the rewards closing gets wrong.
\<close>

record TokenInfo = mint_info +
  ti_mint :: pubkey

record WhirlpoolRewardInfo = WhirlpoolRewardInfoData +
  wr_initialized :: bool
  wr_vaultAmount :: int

record WhirlpoolImpl =
  wi_address :: pubkey
  wi_tokenAInfo :: TokenInfo
  wi_tokenBInfo :: TokenInfo
  wi_tokenVaultAInfo :: token_account
  wi_tokenVaultBInfo :: token_account
  wi_rewardInfos :: "WhirlpoolRewardInfo list"
  wi_data :: WhirlpoolData

subsection \<open>Fetching\<close>

definition get_mint_or_throw :: "'c sdk_ctx \<Rightarrow> pubkey \<Rightarrow> TokenInfo res" where
  "get_mint_or_throw ctx mint =
     (case cx_getMintInfo ctx mint of
        None \<Rightarrow> Inl PlainError
      | Some info \<Rightarrow> Inr (mint_info.extend info (TokenInfo.fields mint)))"

definition getTokenMintInfos :: "'c sdk_ctx \<Rightarrow> WhirlpoolData \<Rightarrow> (TokenInfo \<times> TokenInfo) res" where
  "getTokenMintInfos ctx data =
     bindE (get_mint_or_throw ctx (wp_tokenMintA data)) (\<lambda>infoA.
     bindE (get_mint_or_throw ctx (wp_tokenMintB data)) (\<lambda>infoB.
     Inr (infoA, infoB)))"

definition get_account_or_throw :: "'c sdk_ctx \<Rightarrow> pubkey \<Rightarrow> token_account res" where
  "get_account_or_throw ctx vault =
     (case cx_getTokenInfo ctx vault of None \<Rightarrow> Inl PlainError | Some info \<Rightarrow> Inr info)"

definition getRewardInfo :: "'c sdk_ctx \<Rightarrow> WhirlpoolRewardInfoData \<Rightarrow> WhirlpoolRewardInfo res" where
  "getRewardInfo ctx data =
     (if isRewardInitialized data then
        bindE (get_account_or_throw ctx (wri_vault data)) (\<lambda>vaultInfo.
        Inr (WhirlpoolRewardInfoData.extend data (WhirlpoolRewardInfo.fields True (tka_amount vaultInfo))))
      else Inr (WhirlpoolRewardInfoData.extend data (WhirlpoolRewardInfo.fields False 0)))"

definition getRewardInfos :: "'c sdk_ctx \<Rightarrow> WhirlpoolData \<Rightarrow> WhirlpoolRewardInfo list res" where
  "getRewardInfos ctx data = mapE (getRewardInfo ctx) (wp_rewardInfos data)"

definition getTokenVaultAccountInfos :: "'c sdk_ctx \<Rightarrow> WhirlpoolData \<Rightarrow> (token_account \<times> token_account) res" where
  "getTokenVaultAccountInfos ctx data =
     bindE (get_account_or_throw ctx (wp_tokenVaultA data)) (\<lambda>vaultInfoA.
     bindE (get_account_or_throw ctx (wp_tokenVaultB data)) (\<lambda>vaultInfoB.
     Inr (vaultInfoA, vaultInfoB)))"

definition wi_refresh :: "'c sdk_ctx \<Rightarrow> WhirlpoolImpl \<Rightarrow> WhirlpoolImpl res" where
  "wi_refresh ctx this' =
     (case cx_getPool ctx (wi_address this') of
        None \<Rightarrow> Inr this'
      | Some account \<Rightarrow>
          bindE (getRewardInfos ctx account) (\<lambda>rewardInfos.
          bindE (getTokenVaultAccountInfos ctx account) (\<lambda>(tokenVaultAInfo, tokenVaultBInfo).
          Inr (this'\<lparr>wi_data := account, wi_tokenVaultAInfo := tokenVaultAInfo, wi_tokenVaultBInfo := tokenVaultBInfo,
                 wi_rewardInfos := rewardInfos\<rparr>))))"

definition wi_refreshData :: "'c sdk_ctx \<Rightarrow> WhirlpoolImpl \<Rightarrow> (WhirlpoolImpl \<times> WhirlpoolData) res" where
  "wi_refreshData ctx this' = bindE (wi_refresh ctx this') (\<lambda>this'. Inr (this', wi_data this'))"

subsection \<open>Tick arrays and swaps\<close>

definition wi_initTickArrayForTicks ::
    "'c sdk_ctx \<Rightarrow> WhirlpoolImpl \<Rightarrow> int list \<Rightarrow> pubkey option \<Rightarrow> Instruction list option res" where
  "wi_initTickArrayForTicks ctx this' ticks funder =
     (let program = cx_program ctx in
      bindE (getUninitializedArraysPDAs (pg_findProgramAddress program) (cx_getTickArrays ctx) ticks (pg_programId program)
               (wi_address this') (wp_tickSpacing (wi_data this'))) (\<lambda>initTickArrayStartPdas.
      Inr (if length initTickArrayStartPdas = 0 then None
           else Some (map (\<lambda>(startIndex, pda). initTickArrayIx program
             \<lparr>ita_whirlpool = wi_address this', ita_tickArrayPda = pda, ita_startTick = startIndex,
              ita_funder = or_wallet ctx funder\<rparr>) initTickArrayStartPdas))))"

definition wi_swap :: "'c sdk_ctx \<Rightarrow> WhirlpoolImpl \<Rightarrow> SwapInput \<Rightarrow> pubkey option \<Rightarrow> Instruction list res" where
  "wi_swap ctx this' quote sourceWallet =
     swapAsync ctx \<lparr>sap_swapInput = quote, sap_whirlpool = (wi_address this', wi_data this'),
       sap_wallet = or_wallet ctx sourceWallet\<rparr>"

definition wi_swapWithDevFees ::
    "'c sdk_ctx \<Rightarrow> WhirlpoolImpl \<Rightarrow> DevFeeSwapInput \<Rightarrow> pubkey \<Rightarrow> pubkey option \<Rightarrow> pubkey option \<Rightarrow> Instruction list res" where
  "wi_swapWithDevFees ctx this' quote devFeeWallet wallet payer =
     (let env = cx_env ctx; sourceWalletKey = or_wallet ctx wallet in
      bindE (if dfi_devFeeAmount quote \<noteq> 0 then
               let inputToken = (if si_aToB quote = si_amountSpecifiedIsInput quote then wi_tokenAInfo this'
                     else wi_tokenBInfo this') in
               bindE (te_createSendTokensToWallet env sourceWalletKey devFeeWallet (ti_mint inputToken) (mi_decimals inputToken)
                        (dfi_devFeeAmount quote) (or_wallet ctx payer)) (\<lambda>ix. Inr [ix])
             else Inr []) (\<lambda>txBuilder.
      bindE (swapAsync ctx \<lparr>sap_swapInput = SwapInput.truncate quote, sap_whirlpool = (wi_address this', wi_data this'),
               sap_wallet = sourceWalletKey\<rparr>) (\<lambda>swapTxBuilder.
      Inr (txBuilder @ [te_compressIx env True swapTxBuilder]))))"

subsection \<open>Opening a position\<close>

text \<open>The transaction, with the key pairs that sign it besides the wallet.\<close>

record opened_position =
  opn_positionMint :: pubkey
  opn_tx :: "Instruction list"
  opn_signers :: "Keypair list"

definition position_ix :: "bool \<Rightarrow> program_env \<Rightarrow> OpenPositionParams \<Rightarrow> PDA \<Rightarrow> Instruction" where
  "position_ix withMetadata program params metadataPda =
     (if withMetadata then openPositionWithMetadataIx program params metadataPda else openPositionIx program params)"

text \<open>\<open>mintKeypair\<close> is what \<^verbatim>\<open>Keypair.generate()\<close> returns; it signs when the caller names no mint.\<close>

definition position_mint :: "Keypair \<Rightarrow> pubkey option \<Rightarrow> pubkey \<times> Keypair list" where
  "position_mint mintKeypair positionMint =
     (case positionMint of Some k \<Rightarrow> (k, []) | None \<Rightarrow> (keypair_publicKey mintKeypair, [mintKeypair]))"

definition wi_getOpenPositionWithOptMetadataTx ::
    "'c sdk_ctx \<Rightarrow> Keypair \<Rightarrow> WhirlpoolImpl \<Rightarrow> int \<Rightarrow> int \<Rightarrow> IncreaseLiquidityInput \<Rightarrow> pubkey \<Rightarrow> pubkey \<Rightarrow> bool \<Rightarrow>
     pubkey option \<Rightarrow> opened_position res" where
  "wi_getOpenPositionWithOptMetadataTx ctx mintKeypair this' tickLower tickUpper liquidityInput wallet funder
     withMetadata positionMint =
     (let env = cx_env ctx; program = cx_program ctx; fpa = pg_findProgramAddress program; id = pg_programId program;
          address = wi_address this' in
      if \<not> checkTickInBounds tickLower then Inl InvariantError
      else if \<not> checkTickInBounds tickUpper then Inl InvariantError
      else if \<not> ili_liquidityAmount liquidityInput > 0 then Inl InvariantError
      else case cx_getPool ctx address of
        None \<Rightarrow> Inl PlainError
      | Some whirlpool \<Rightarrow>
          bindE (cx_extensionContext ctx whirlpool) (\<lambda>tokenExtensionCtx.
          if \<not> isTickInitializable tickLower (wp_tickSpacing whirlpool) then Inl InvariantError
          else if \<not> isTickInitializable tickUpper (wp_tickSpacing whirlpool) then Inl InvariantError
          else
            let (positionMintPubkey, signers) = position_mint mintKeypair positionMint;
                positionPda = getPosition fpa id positionMintPubkey;
                metadataPda = getPositionMetadata fpa positionMintPubkey in
            bindE (te_getAssociatedTokenAddress env positionMintPubkey wallet (TOKEN_PROGRAM_ID (cx_spl ctx)))
              (\<lambda>positionTokenAccountAddress.
            let params = \<lparr>opp_whirlpool = address, opp_owner = wallet, opp_positionPda = positionPda,
                  opp_positionMintAddress = positionMintPubkey, opp_positionTokenAccount = positionTokenAccountAddress,
                  opp_tickLowerIndex = tickLower, opp_tickUpperIndex = tickUpper, opp_funder = funder\<rparr>;
                positionIx = position_ix withMetadata program params metadataPda in
            bindE (liquidity_accounts ctx tokenExtensionCtx whirlpool True wallet funder
                     (Some (ili_tokenMaxA liquidityInput)) (Some (ili_tokenMaxB liquidityInput)))
              (\<lambda>(ataIxs, tokenOwnerAccountA, tokenOwnerAccountB).
            bindE (getTickArrayFromTickIndex fpa tickLower (wp_tickSpacing (wi_data this')) address id 0) (\<lambda>tickArrayLowerPda.
            bindE (getTickArrayFromTickIndex fpa tickUpper (wp_tickSpacing (wi_data this')) address id 0) (\<lambda>tickArrayUpperPda.
            bindE (increase_liquidity_ix ctx tokenExtensionCtx whirlpool
              \<lparr>il_input = liquidityInput, il_whirlpool = address, il_position = publicKey positionPda,
               il_positionTokenAccount = positionTokenAccountAddress, il_tokenOwnerAccountA = tokenOwnerAccountA,
               il_tokenOwnerAccountB = tokenOwnerAccountB, il_tokenVaultA = wp_tokenVaultA whirlpool,
               il_tokenVaultB = wp_tokenVaultB whirlpool, il_tickArrayLower = publicKey tickArrayLowerPda,
               il_tickArrayUpper = publicKey tickArrayUpperPda, il_positionAuthority = wallet\<rparr>) (\<lambda>liquidityIx.
            Inr \<lparr>opn_positionMint = positionMintPubkey, opn_tx = [positionIx] @ ataIxs @ [liquidityIx],
                 opn_signers = signers\<rparr>)))))))"

definition wi_openPosition ::
    "'c sdk_ctx \<Rightarrow> Keypair \<Rightarrow> bool \<Rightarrow> WhirlpoolImpl \<Rightarrow> int \<Rightarrow> int \<Rightarrow> IncreaseLiquidityInput \<Rightarrow> pubkey option \<Rightarrow> pubkey option \<Rightarrow>
     pubkey option \<Rightarrow> (WhirlpoolImpl \<times> opened_position) res" where
  "wi_openPosition ctx mintKeypair withMetadata this' tickLower tickUpper liquidityInput wallet funder positionMint =
     bindE (wi_refresh ctx this') (\<lambda>this'.
     bindE (wi_getOpenPositionWithOptMetadataTx ctx mintKeypair this' tickLower tickUpper liquidityInput
              (or_wallet ctx wallet) (or_wallet ctx funder) withMetadata positionMint) (\<lambda>opened.
     Inr (this', opened)))"

subsection \<open>Closing a position\<close>

text \<open>What closing works with: the position, its quotes and the addresses all callbacks share.\<close>

record closing =
  cl_position :: PositionData
  cl_positionAddress :: pubkey
  cl_positionTokenAccount :: pubkey
  cl_positionWallet :: pubkey
  cl_ext :: TokenExtensionContext
  cl_tickArrayLower :: pubkey
  cl_tickArrayUpper :: pubkey

definition decrease_quote_of ::
    "'c sdk_ctx \<Rightarrow> 'd decimal_ops \<Rightarrow> WhirlpoolData \<Rightarrow> PositionData \<Rightarrow> TokenExtensionContext \<Rightarrow> percentage \<Rightarrow> bool \<Rightarrow> DecreaseLiquidityQuote res" where
  "decrease_quote_of ctx dec whirlpool positionData tokenExtensionCtx slippageTolerance usePriceSlippage =
     (let params = \<lparr>lp_liquidity = pos_liquidity positionData, lp_tickCurrentIndex = wp_tickCurrentIndex whirlpool,
            lp_sqrtPrice = wp_sqrtPrice whirlpool, lp_tickLowerIndex = pos_tickLowerIndex positionData,
            lp_tickUpperIndex = pos_tickUpperIndex positionData,
            lp_tokenExtensionCtx = TokenExtensionContextForPool.truncate tokenExtensionCtx,
            lp_slippageTolerance = slippageTolerance\<rparr> in
      if usePriceSlippage
      then decreaseLiquidityQuoteByLiquidityWithParamsUsingPriceSlippage (cx_mu ctx) dec (cx_spl ctx) params
      else decreaseLiquidityQuoteByLiquidityWithParams (cx_mu ctx) (cx_spl ctx) params)"

definition close_decrease ::
    "'c sdk_ctx \<Rightarrow> 'd decimal_ops \<Rightarrow> WhirlpoolData \<Rightarrow> closing \<Rightarrow> percentage \<Rightarrow> bool \<Rightarrow> generator" where
  "close_decrease ctx dec whirlpool cl slippageTolerance usePriceSlippage =
     with_accounts [wp_tokenMintA whirlpool, wp_tokenMintB whirlpool] (\<lambda>accounts.
       bindE (decrease_quote_of ctx dec whirlpool (cl_position cl) (cl_ext cl) slippageTolerance usePriceSlippage) (\<lambda>quote.
       bindE (decrease_liquidity_ix ctx (cl_ext cl) whirlpool
         \<lparr>dl_input = \<lparr>dli_tokenMinA = dlq_tokenMinA quote, dli_tokenMinB = dlq_tokenMinB quote,
            dli_liquidityAmount = dlq_liquidityAmount quote\<rparr>,
          dl_whirlpool = pos_whirlpool (cl_position cl), dl_position = cl_positionAddress cl,
          dl_positionTokenAccount = cl_positionTokenAccount cl, dl_tokenOwnerAccountA = accounts ! 0,
          dl_tokenOwnerAccountB = accounts ! 1, dl_tokenVaultA = wp_tokenVaultA whirlpool,
          dl_tokenVaultB = wp_tokenVaultB whirlpool, dl_tickArrayLower = cl_tickArrayLower cl,
          dl_tickArrayUpper = cl_tickArrayUpper cl, dl_positionAuthority = cl_positionWallet cl\<rparr>) (\<lambda>ix.
       Inr [ix])))"

definition close_fees :: "'c sdk_ctx \<Rightarrow> WhirlpoolData \<Rightarrow> closing \<Rightarrow> generator" where
  "close_fees ctx whirlpool cl =
     with_accounts [wp_tokenMintA whirlpool, wp_tokenMintB whirlpool] (\<lambda>accounts.
       bindE (collect_fees_ix ctx (cl_ext cl) (mi_address (tec_tokenMintWithProgramA (cl_ext cl)))
                (mi_address (tec_tokenMintWithProgramB (cl_ext cl)))
         \<lparr>CollectFeesParams.cf_whirlpool = pos_whirlpool (cl_position cl), CollectFeesParams.cf_position = cl_positionAddress cl,
          cf_positionTokenAccount = cl_positionTokenAccount cl, cf_tokenOwnerAccountA = accounts ! 0,
          cf_tokenOwnerAccountB = accounts ! 1, cf_tokenVaultA = wp_tokenVaultA whirlpool,
          cf_tokenVaultB = wp_tokenVaultB whirlpool, cf_positionAuthority = cl_positionWallet cl\<rparr>) (\<lambda>ix.
       Inr [ix]))"

text \<open>\<open>rewardIndex\<close> is the number in the list of the rewards that owe something.\<close>

definition close_reward :: "'c sdk_ctx \<Rightarrow> WhirlpoolData \<Rightarrow> closing \<Rightarrow> nat \<times> pubkey \<Rightarrow> generator" where
  "close_reward ctx whirlpool cl = (\<lambda>(rewardIndex, mint).
     with_accounts [mint] (\<lambda>accounts.
       case array_get (wp_rewardInfos whirlpool) rewardIndex of
         None \<Rightarrow> Inl TypeError
       | Some info \<Rightarrow>
           bindE (collect_reward_ix ctx (cl_ext cl) rewardIndex mi_address
             \<lparr>clr_whirlpool = pos_whirlpool (cl_position cl), clr_position = cl_positionAddress cl,
              clr_positionTokenAccount = cl_positionTokenAccount cl, clr_rewardIndex = int rewardIndex,
              clr_rewardOwnerAccount = hd accounts, clr_rewardVault = wri_vault info,
              clr_positionAuthority = cl_positionWallet cl\<rparr>) (\<lambda>ix.
           Inr [ix])))"

definition close_account :: "'c sdk_ctx \<Rightarrow> closing \<Rightarrow> pubkey \<Rightarrow> generator" where
  "close_account ctx cl destinationWallet =
     Yield (Inr [closePositionIx (cx_program ctx)
       \<lparr>cp_receiver = destinationWallet, cp_position = cl_positionAddress cl,
        cp_positionMint = pos_positionMint (cl_position cl), cp_positionTokenAccount = cl_positionTokenAccount cl,
        cp_positionAuthority = cl_positionWallet cl\<rparr>])"

definition owes :: "CollectRewardsQuote \<Rightarrow> nat \<Rightarrow> bool" where
  "owes quote i \<longleftrightarrow>
     (\<exists>amount. array_get (crq_rewardOwed quote) i = Some (Some amount) \<and> amount > 0) \<or>
     (\<exists>amount. array_get (crq_deductedFromRewardOwed quote) i = Some (Some amount) \<and> amount > 0)"

definition rewards_to_collect :: "WhirlpoolData \<Rightarrow> CollectRewardsQuote \<Rightarrow> pubkey list" where
  "rewards_to_collect whirlpool quote =
     [wri_mint info. (i, info) \<leftarrow> enumerate 0 (wp_rewardInfos whirlpool), owes quote i]"

definition close_callbacks ::
    "'c sdk_ctx \<Rightarrow> 'd decimal_ops \<Rightarrow> WhirlpoolData \<Rightarrow> closing \<Rightarrow> percentage \<Rightarrow> bool \<Rightarrow> pubkey \<Rightarrow> bool \<Rightarrow> pubkey list \<Rightarrow>
     generator list" where
  "close_callbacks ctx dec whirlpool cl slippageTolerance usePriceSlippage destinationWallet shouldCollectFees rewardsToCollect =
     (if pos_liquidity (cl_position cl) > 0
      then [close_decrease ctx dec whirlpool cl slippageTolerance usePriceSlippage] else []) @
     (if shouldCollectFees then [close_fees ctx whirlpool cl] else []) @
     map (close_reward ctx whirlpool cl) (enumerate 0 rewardsToCollect) @
     [close_account ctx cl destinationWallet]"

definition close_mint_types :: "bool \<Rightarrow> bool \<Rightarrow> TokenMintTypes" where
  "close_mint_types poolTokens shouldCollectRewards =
     (if poolTokens \<and> \<not> shouldCollectRewards then PoolOnly
      else if \<not> poolTokens \<and> shouldCollectRewards then RewardOnly
      else AllMints)"

text \<open>The position with its tick arrays, and the quotes of what it is owed.\<close>

definition close_quotes ::
    "'c sdk_ctx \<Rightarrow> WhirlpoolData \<Rightarrow> TokenExtensionContext \<Rightarrow> PositionImpl \<Rightarrow> (CollectFeesQuote \<times> CollectRewardsQuote) res" where
  "close_quotes ctx whirlpool ext position =
     bindE (pi_getLowerTickData position) (\<lambda>tickLower.
     bindE (pi_getUpperTickData position) (\<lambda>tickUpper.
     bindE (collectFeesQuote (cx_mu ctx) (cx_spl ctx)
       \<lparr>CollectFeesQuoteParam.cf_whirlpool = whirlpool, CollectFeesQuoteParam.cf_position = pi_data position,
        cf_tickLower = tickLower, cf_tickUpper = tickUpper,
        cf_tokenExtensionCtx = TokenExtensionContextForPool.truncate ext\<rparr>) (\<lambda>feesQuote.
     bindE (collectRewardsQuote (cx_mu ctx) (cx_spl ctx) (cx_now ctx)
       \<lparr>cr_whirlpool = whirlpool, cr_position = pi_data position, cr_tickLower = tickLower, cr_tickUpper = tickUpper,
        cr_currentEpoch = tec_currentEpoch ext, cr_rewardTokenMintsWithProgram = tec_rewardTokenMintsWithProgram ext,
        cr_timeStampInSeconds = None\<rparr>) (\<lambda>rewardsQuote.
     Inr (feesQuote, rewardsQuote)))))"

definition close_atas ::
    "'c sdk_ctx \<Rightarrow> WhirlpoolData \<Rightarrow> TokenMintTypes \<Rightarrow> pubkey \<Rightarrow> pubkey \<Rightarrow> resolved_atas res" where
  "close_atas ctx whirlpool mintType destinationWallet payerKey =
     (let env = cx_env ctx;
          allMints = wtm_mintMap (getTokenMintsFromWhirlpools (te_NATIVE_MINT env) [Some whirlpool] mintType) in
      bindE (te_resolveOrCreateATAs env destinationWallet (map (\<lambda>tokenMint. (tokenMint, None)) allMints)
               (Some payerKey) True) (\<lambda>resolved.
      Inr (map_of (convertListToMap resolved (map Some allMints)))))"

definition wi_getClosePositionIx ::
    "'c sdk_ctx \<Rightarrow> 'd decimal_ops \<Rightarrow> WhirlpoolImpl \<Rightarrow> pubkey \<Rightarrow> percentage \<Rightarrow> pubkey \<Rightarrow> pubkey \<Rightarrow> pubkey \<Rightarrow> bool \<Rightarrow>
     Instruction list list res" where
  "wi_getClosePositionIx ctx dec this' positionAddress slippageTolerance destinationWallet positionWallet payerKey
     usePriceSlippage =
     (let env = cx_env ctx; whirlpool = wi_data this' in
      case cx_getPosition ctx positionAddress of
        None \<Rightarrow> Inl PlainError
      | Some positionData \<Rightarrow>
          if pos_whirlpool positionData \<noteq> wi_address this' then Inl InvariantError
          else
            bindE (te_getAssociatedTokenAddress env (pos_positionMint positionData) positionWallet
                     (TOKEN_PROGRAM_ID (cx_spl ctx))) (\<lambda>positionTokenAccount.
            bindE (position_tick_arrays ctx positionData (wp_tickSpacing whirlpool)) (\<lambda>(tickArrayLower, tickArrayUpper).
            bindE (getTickArrayDataForPosition ctx positionData whirlpool) (\<lambda>arrays.
            case (fetched_nth arrays 0, fetched_nth arrays 1) of
              (Some tickArrayLowerData, Some tickArrayUpperData) \<Rightarrow>
                bindE (cx_extensionContext ctx whirlpool) (\<lambda>tokenExtensionCtx.
                bindE (close_quotes ctx whirlpool tokenExtensionCtx
                  \<lparr>pi_address = positionAddress, pi_data = positionData, pi_whirlpoolData = whirlpool,
                   pi_lowerTickArrayData = tickArrayLowerData, pi_upperTickArrayData = tickArrayUpperData\<rparr>)
                  (\<lambda>(feesQuote, rewardsQuote).
                if length (wp_rewardInfos whirlpool) \<noteq> length (crq_rewardOwed rewardsQuote) then Inl InvariantError
                else
                  let shouldCollectFees = (cfq_feeOwedA feesQuote > 0 \<or> cfq_feeOwedB feesQuote > 0);
                      rewardsToCollect = rewards_to_collect whirlpool rewardsQuote;
                      mintType = close_mint_types (pos_liquidity positionData > 0 \<or> shouldCollectFees)
                        (length rewardsToCollect > 0);
                      cl = \<lparr>cl_position = positionData, cl_positionAddress = positionAddress,
                        cl_positionTokenAccount = positionTokenAccount, cl_positionWallet = positionWallet,
                        cl_ext = tokenExtensionCtx, cl_tickArrayLower = tickArrayLower, cl_tickArrayUpper = tickArrayUpper\<rparr> in
                  bindE (close_atas ctx whirlpool mintType destinationWallet payerKey) (\<lambda>resolvedAtas.
                  bindE (foldE (mf_addInstructions env)
                    (close_callbacks ctx dec whirlpool cl slippageTolerance usePriceSlippage destinationWallet
                       shouldCollectFees rewardsToCollect)
                    (new_tx_factory resolvedAtas destinationWallet payerKey)) (\<lambda>builder.
                  Inr (mf_build builder)))))
            | _ \<Rightarrow> Inl InvariantError))))"

definition wi_closePosition ::
    "'c sdk_ctx \<Rightarrow> 'd decimal_ops \<Rightarrow> WhirlpoolImpl \<Rightarrow> pubkey \<Rightarrow> percentage \<Rightarrow> pubkey option \<Rightarrow> pubkey option \<Rightarrow>
     pubkey option \<Rightarrow> bool \<Rightarrow> (WhirlpoolImpl \<times> Instruction list list) res" where
  "wi_closePosition ctx dec this' positionAddress slippageTolerance destinationWallet positionWallet payer
     usePriceSlippage =
     bindE (wi_refresh ctx this') (\<lambda>this'.
     bindE (wi_getClosePositionIx ctx dec this' positionAddress slippageTolerance (or_wallet ctx destinationWallet)
              (or_wallet ctx positionWallet) (or_wallet ctx payer) usePriceSlippage) (\<lambda>builders.
     Inr (this', builders)))"

subsection \<open>What becomes of one callback\<close>

text \<open>
  Somewhere in the transactions stands an instruction with a property, the last one of a callback, after
  the accounts of some mints were set up in its transaction.
\<close>

definition served_in ::
    "(nat \<Rightarrow> resolved_atas) \<Rightarrow> generator packed list \<Rightarrow> string set \<Rightarrow> (resolved_atas \<Rightarrow> Instruction \<Rightarrow> bool) \<Rightarrow> bool" where
  "served_in atas txs mints P \<longleftrightarrow>
     (\<exists>i < length txs. \<exists>k < length (txs ! i). \<exists>prep ix. snd (txs ! i ! k) = prep @ [ix] \<and>
        (\<forall>m \<in> mints. atas i m \<noteq> None \<and> account_ix (atas i) m \<in> set (emitted (take k (txs ! i)) @ prep)) \<and>
        P (atas i) ix)"

lemma served_inI:
  assumes "\<forall>i < length txs. each_good (gen_served atas) ok i (txs ! i)" "gen \<in> set (map fst (concat txs))"
    and "\<And>n own. built (atas n) gen = Inr own \<Longrightarrow>
      mints \<subseteq> set (requests (atas n) gen) \<and> (\<exists>ix. own = [ix] \<and> P (atas n) ix)"
  shows "served_in atas txs mints P"
proof -
  from assms(2) obtain i k where ik: "i < length txs" "k < length (txs ! i)" "fst (txs ! i ! k) = gen"
    by (auto simp: in_set_conv_nth)
  then have "gen_served atas i (emitted (take k (txs ! i))) gen (snd (txs ! i ! k))"
    using assms(1) by (auto simp: each_good_def)
  then obtain prep own where *: "snd (txs ! i ! k) = prep @ own" "built (atas i) gen = Inr own"
    "\<forall>m \<in> set (requests (atas i) gen). atas i m \<noteq> None \<and> account_ix (atas i) m \<in> set (emitted (take k (txs ! i)) @ prep)"
    by (auto simp: gen_served_def)
  from assms(3) [OF *(2)] obtain ix where "own = [ix]" "P (atas i) ix" "mints \<subseteq> set (requests (atas i) gen)" by blast
  with * ik(1,2) show ?thesis unfolding served_in_def by blast
qed

lemma served_in_mono:
  "served_in atas txs mints P \<Longrightarrow> (\<And>atas ix. P atas ix \<Longrightarrow> Q atas ix) \<Longrightarrow> served_in atas txs mints Q"
  unfolding served_in_def by blast

definition sizes_checked :: "tx_env \<Rightarrow> generator packed list \<Rightarrow> bool" where
  "sizes_checked env txs \<longleftrightarrow>
     (\<forall>tx \<in> set txs. \<forall>k < length tx. tx_checked env (take k tx) (snd (tx ! k)))"

lemma good_sizes:
  "\<forall>i < length txs. each_good (gen_served atas) (tx_checked env) i (txs ! i) \<Longrightarrow> sizes_checked env txs"
  by (auto simp: sizes_checked_def each_good_def in_set_conv_nth)

subsection \<open>What opening does\<close>

lemma open_ix_reads:
  assumes "ix = position_ix withMetadata program p metadataPda"
  shows "ix_called ix = Some (if withMetadata then ''openPositionWithMetadata'' else ''openPosition'')"
    "drop 1 (ix_args ix) = [V_int (opp_tickLowerIndex p), V_int (opp_tickUpperIndex p)]"
    "map (ix_account ix) [''funder'', ''owner'', ''position'', ''positionMint'', ''positionTokenAccount'', ''whirlpool''] =
     map Some [opp_funder p, opp_owner p, publicKey (opp_positionPda p), opp_positionMintAddress p,
       opp_positionTokenAccount p, opp_whirlpool p]"
  using assms
  by (simp_all add: position_ix_def openPositionWithMetadataIx_def openPositionIx_def openPositionAccounts_def ix_read ix_args_def Let_def)

text \<open>The transaction of a position that is opened: its instructions and the accounts they name.\<close>

definition opening_tx ::
    "'c sdk_ctx \<Rightarrow> bool \<Rightarrow> pubkey \<Rightarrow> WhirlpoolData \<Rightarrow> int \<Rightarrow> int \<Rightarrow> IncreaseLiquidityInput \<Rightarrow> pubkey \<Rightarrow> pubkey \<Rightarrow> pubkey \<Rightarrow>
     Instruction list \<Rightarrow> pubkey \<times> pubkey \<times> pubkey \<Rightarrow> bool" where
  "opening_tx ctx withMetadata pool whirlpool tickLower tickUpper liquidityInput wallet funder mint tx = (\<lambda>(tokenAccount, lower, upper).
     let position = publicKey (getPosition (pg_findProgramAddress (cx_program ctx)) (pg_programId (cx_program ctx)) mint) in
     \<exists>open_ix ataA ataB rest ix.
       te_resolveOrCreateATAs (cx_env ctx) wallet [(wp_tokenMintA whirlpool, Some (ili_tokenMaxA liquidityInput)),
         (wp_tokenMintB whirlpool, Some (ili_tokenMaxB liquidityInput))] (Some funder) False = Inr (ataA # ataB # rest) \<and>
       tx = [open_ix, Instruction.truncate ataA, Instruction.truncate ataB, ix] \<and>
       ix_called open_ix = Some (if withMetadata then ''openPositionWithMetadata'' else ''openPosition'') \<and>
       drop 1 (ix_args open_ix) = [V_int tickLower, V_int tickUpper] \<and>
       map (ix_account open_ix) [''funder'', ''owner'', ''position'', ''positionMint'', ''positionTokenAccount'', ''whirlpool''] =
         map Some [funder, wallet, position, mint, tokenAccount, pool] \<and>
       liquidity_ix ''increaseLiquidity''
         [ili_liquidityAmount liquidityInput, ili_tokenMaxA liquidityInput, ili_tokenMaxB liquidityInput]
         [pool, position, wallet, tokenAccount, rta_address ataA, rta_address ataB, wp_tokenVaultA whirlpool,
          wp_tokenVaultB whirlpool, lower, upper] ix)"

lemma open_position_cases:
  fixes ctx this' mintKeypair mint
  defines "fpa \<equiv> pg_findProgramAddress (cx_program ctx)" and "prog \<equiv> pg_programId (cx_program ctx)"
    and "pool \<equiv> wi_address this'" and "mint' \<equiv> fst (position_mint mintKeypair mint)"
  assumes "wi_getOpenPositionWithOptMetadataTx ctx mintKeypair this' tickLower tickUpper inc wallet funder withMetadata mint = Inr opened"
    and "cx_getPool ctx (wi_address this') = Some whirlpool"
  obtains ext pta setup' a b lowerPda upperPda ix where
    "checkTickInBounds tickLower" "checkTickInBounds tickUpper" "0 < ili_liquidityAmount inc"
    "isTickInitializable tickLower (wp_tickSpacing whirlpool)" "isTickInitializable tickUpper (wp_tickSpacing whirlpool)"
    and "liquidity_accounts ctx ext whirlpool True wallet funder (Some (ili_tokenMaxA inc)) (Some (ili_tokenMaxB inc)) =
        Inr (setup', a, b)"
    and "getTickArrayFromTickIndex fpa tickLower (wp_tickSpacing (wi_data this')) pool prog 0 = Inr lowerPda"
      "getTickArrayFromTickIndex fpa tickUpper (wp_tickSpacing (wi_data this')) pool prog 0 = Inr upperPda"
    and "increase_liquidity_ix ctx ext whirlpool
        \<lparr>il_input = inc, il_whirlpool = pool, il_position = publicKey (getPosition fpa prog mint'),
         il_positionTokenAccount = pta, il_tokenOwnerAccountA = a, il_tokenOwnerAccountB = b,
         il_tokenVaultA = wp_tokenVaultA whirlpool, il_tokenVaultB = wp_tokenVaultB whirlpool,
         il_tickArrayLower = publicKey lowerPda, il_tickArrayUpper = publicKey upperPda, il_positionAuthority = wallet\<rparr> = Inr ix"
    and "opened = \<lparr>opn_positionMint = mint', opn_tx = [position_ix withMetadata (cx_program ctx)
           \<lparr>opp_whirlpool = pool, opp_owner = wallet, opp_positionPda = getPosition fpa prog mint',
            opp_positionMintAddress = mint', opp_positionTokenAccount = pta, opp_tickLowerIndex = tickLower,
            opp_tickUpperIndex = tickUpper, opp_funder = funder\<rparr> (getPositionMetadata fpa mint')] @ setup' @ [ix],
        opn_signers = snd (position_mint mintKeypair mint)\<rparr>"
proof -
  have valid: "checkTickInBounds tickLower" "checkTickInBounds tickUpper" "0 < ili_liquidityAmount inc"
    using assms(5) by (simp_all add: wi_getOpenPositionWithOptMetadataTx_def Let_def split: if_splits)
  show ?thesis
    using assms(5,6) valid unfolding wi_getOpenPositionWithOptMetadataTx_def Let_def fpa_def prog_def pool_def mint'_def
    by (auto simp: bindE_eq_Inr case_prod_beta split: if_splits intro!: that [unfolded fpa_def prog_def pool_def mint'_def])
qed

text \<open>
  C27: A position is opened on a valid range and filled in one transaction: when the call succeeds, both
  ticks are in bounds and fit the spacing of the pool and the liquidity is positive; the first instruction
  opens the position of the mint for the wallet on these ticks, and the last one puts the
  liquidity of the caller into the same position, through the tick arrays that hold the two ticks,
  from the wallet's token accounts for the mints of the pool, set up in between; the key pair of the mint signs exactly when
  the caller named no mint, and then the mint is its key.
\<close>

theorem open_position_transaction:
  assumes "wi_getOpenPositionWithOptMetadataTx ctx mintKeypair this' tickLower tickUpper inc wallet funder withMetadata mint = Inr opened"
    and "cx_getPool ctx (wi_address this') = Some whirlpool" "0 < wp_tickSpacing (wi_data this')"
  shows "checkTickInBounds tickLower \<and> checkTickInBounds tickUpper \<and> isTickInitializable tickLower (wp_tickSpacing whirlpool) \<and>
    isTickInitializable tickUpper (wp_tickSpacing whirlpool) \<and> 0 < ili_liquidityAmount inc \<and>
    (\<exists>tokenAccount lower upper.
      opening_tx ctx withMetadata (wi_address this') whirlpool tickLower tickUpper inc wallet funder (opn_positionMint opened)
        (opn_tx opened) (tokenAccount, lower, upper) \<and>
      tick_array_of ctx (wi_address this') (wp_tickSpacing (wi_data this')) tickLower lower \<and>
      tick_array_of ctx (wi_address this') (wp_tickSpacing (wi_data this')) tickUpper upper) \<and>
    (case mint of
       None \<Rightarrow> opn_signers opened = [mintKeypair] \<and> opn_positionMint opened = keypair_publicKey mintKeypair
     | Some m \<Rightarrow> opn_signers opened = [] \<and> opn_positionMint opened = m)"
proof -
  let ?env = "cx_env ctx" and ?fpa = "pg_findProgramAddress (cx_program ctx)" and ?id = "pg_programId (cx_program ctx)"
  let ?pool = "wi_address this'" and ?mint = "fst (position_mint mintKeypair mint)"
  obtain ext pta setup' a b lowerPda upperPda ix where
    init: "checkTickInBounds tickLower" "checkTickInBounds tickUpper" "0 < ili_liquidityAmount inc"
      "isTickInitializable tickLower (wp_tickSpacing whirlpool)" "isTickInitializable tickUpper (wp_tickSpacing whirlpool)"
    and acc: "liquidity_accounts ctx ext whirlpool True wallet funder (Some (ili_tokenMaxA inc)) (Some (ili_tokenMaxB inc)) =
        Inr (setup', a, b)"
    and arr: "getTickArrayFromTickIndex ?fpa tickLower (wp_tickSpacing (wi_data this')) ?pool ?id 0 = Inr lowerPda"
      "getTickArrayFromTickIndex ?fpa tickUpper (wp_tickSpacing (wi_data this')) ?pool ?id 0 = Inr upperPda"
    and inc: "increase_liquidity_ix ctx ext whirlpool
        \<lparr>il_input = inc, il_whirlpool = ?pool, il_position = publicKey (getPosition ?fpa ?id ?mint),
         il_positionTokenAccount = pta, il_tokenOwnerAccountA = a, il_tokenOwnerAccountB = b,
         il_tokenVaultA = wp_tokenVaultA whirlpool, il_tokenVaultB = wp_tokenVaultB whirlpool,
         il_tickArrayLower = publicKey lowerPda, il_tickArrayUpper = publicKey upperPda, il_positionAuthority = wallet\<rparr> = Inr ix"
    and opened: "opened = \<lparr>opn_positionMint = ?mint, opn_tx = [position_ix withMetadata (cx_program ctx)
           \<lparr>opp_whirlpool = ?pool, opp_owner = wallet, opp_positionPda = getPosition ?fpa ?id ?mint,
            opp_positionMintAddress = ?mint, opp_positionTokenAccount = pta, opp_tickLowerIndex = tickLower,
            opp_tickUpperIndex = tickUpper, opp_funder = funder\<rparr> (getPositionMetadata ?fpa ?mint)] @ setup' @ [ix],
        opn_signers = snd (position_mint mintKeypair mint)\<rparr>"
    by (rule open_position_cases [OF assms(1,2)]) blast+
  let ?open = "position_ix withMetadata (cx_program ctx)
     \<lparr>opp_whirlpool = ?pool, opp_owner = wallet, opp_positionPda = getPosition ?fpa ?id ?mint,
      opp_positionMintAddress = ?mint, opp_positionTokenAccount = pta, opp_tickLowerIndex = tickLower,
      opp_tickUpperIndex = tickUpper, opp_funder = funder\<rparr> (getPositionMetadata ?fpa ?mint)"
  obtain ataA ataB rest where atas: "te_resolveOrCreateATAs ?env wallet [(wp_tokenMintA whirlpool, Some (ili_tokenMaxA inc)),
      (wp_tokenMintB whirlpool, Some (ili_tokenMaxB inc))] (Some funder) False = Inr (ataA # ataB # rest)"
    "setup' = [Instruction.truncate ataA, Instruction.truncate ataB]" "a = rta_address ataA" "b = rta_address ataB"
    by (rule liquidity_accounts_cases [OF acc]) blast+
  have reads: "ix_called ?open = Some (if withMetadata then ''openPositionWithMetadata'' else ''openPosition'')"
    "drop 1 (ix_args ?open) = [V_int tickLower, V_int tickUpper]"
    "map (ix_account ?open) [''funder'', ''owner'', ''position'', ''positionMint'', ''positionTokenAccount'', ''whirlpool''] =
        map Some [funder, wallet, publicKey (getPosition ?fpa ?id ?mint), ?mint, pta, ?pool]"
    using open_ix_reads [OF refl] by simp_all
  have liquidity: "liquidity_ix ''increaseLiquidity'' [ili_liquidityAmount inc, ili_tokenMaxA inc, ili_tokenMaxB inc]
        [?pool, publicKey (getPosition ?fpa ?id ?mint), wallet, pta, rta_address ataA, rta_address ataB,
         wp_tokenVaultA whirlpool, wp_tokenVaultB whirlpool, publicKey lowerPda, publicKey upperPda] ix"
    using increase_liquidity_ix_reads [OF inc] by (simp add: atas)
  have mint: "opn_positionMint opened = ?mint" "opn_signers opened = snd (position_mint mintKeypair mint)"
    and tx: "opn_tx opened = [?open, Instruction.truncate ataA, Instruction.truncate ataB, ix]"
    by (simp_all add: opened atas)
  have "opening_tx ctx withMetadata ?pool whirlpool tickLower tickUpper inc wallet funder ?mint (opn_tx opened)
      (pta, publicKey lowerPda, publicKey upperPda)"
    unfolding opening_tx_def Let_def prod.case
    by (intro exI conjI) (fact atas(1), fact tx, fact reads(1), fact reads(2), fact reads(3), fact liquidity)
  then have "\<exists>tokenAccount lower upper.
      opening_tx ctx withMetadata ?pool whirlpool tickLower tickUpper inc wallet funder ?mint (opn_tx opened)
        (tokenAccount, lower, upper) \<and>
      tick_array_of ctx ?pool (wp_tickSpacing (wi_data this')) tickLower lower \<and>
      tick_array_of ctx ?pool (wp_tickSpacing (wi_data this')) tickUpper upper"
    using tick_array_of_index [OF arr(1) assms(3)] tick_array_of_index [OF arr(2) assms(3)] by blast
  with init show ?thesis
    unfolding mint by (simp add: position_mint_def split: option.split)
qed

subsection \<open>What closing collects\<close>

lemma close_decrease_built:
  assumes "built atas (close_decrease ctx dec whirlpool cl slip ups) = Inr own"
  shows "{wp_tokenMintA whirlpool, wp_tokenMintB whirlpool} \<subseteq> set (requests atas (close_decrease ctx dec whirlpool cl slip ups)) \<and>
    (\<exists>ix. own = [ix] \<and> (\<exists>q. decrease_quote_of ctx dec whirlpool (cl_position cl) (cl_ext cl) slip ups = Inr q \<and>
       liquidity_ix ''decreaseLiquidity'' [dlq_liquidityAmount q, dlq_tokenMinA q, dlq_tokenMinB q]
         [pos_whirlpool (cl_position cl), cl_positionAddress cl, cl_positionWallet cl, cl_positionTokenAccount cl,
          rta_address (the (atas (wp_tokenMintA whirlpool))), rta_address (the (atas (wp_tokenMintB whirlpool))),
          wp_tokenVaultA whirlpool, wp_tokenVaultB whirlpool, cl_tickArrayLower cl, cl_tickArrayUpper cl] ix))"
  using assms
  by (auto simp: close_decrease_def bindE_eq_Inr split: option.splits dest!: decrease_liquidity_ix_reads)

definition collects_fees :: "pubkey list \<Rightarrow> Instruction \<Rightarrow> bool" where
  "collects_fees accounts ix \<longleftrightarrow>
     ix_called ix \<in> {Some ''collectFees'', Some ''collectFeesV2''} \<and>
     map (ix_account ix) [''whirlpool'', ''position'', ''positionAuthority'', ''tokenOwnerAccountA'', ''tokenOwnerAccountB'',
       ''tokenVaultA'', ''tokenVaultB''] = map Some accounts"

lemma collect_fees_ix_collects:
  "collect_fees_ix ctx ext mintA mintB p = Inr ins \<Longrightarrow>
   collects_fees [CollectFeesParams.cf_whirlpool p, CollectFeesParams.cf_position p, cf_positionAuthority p, cf_tokenOwnerAccountA p,
     cf_tokenOwnerAccountB p, cf_tokenVaultA p, cf_tokenVaultB p] ins"
  using collect_fees_ix_reads [of ctx ext mintA mintB p ins] by (simp add: collects_fees_def)

lemma collect_reward_ix_collects:
  "collect_reward_ix ctx ext index mint p = Inr ins \<Longrightarrow> clr_rewardIndex p = int i \<Longrightarrow>
   collects_reward (clr_whirlpool p) (clr_position p) (clr_positionAuthority p) i (clr_rewardVault p) (clr_rewardOwnerAccount p) ins"
  using collect_reward_ix_reads [of ctx ext index mint p ins] by (simp add: collects_reward_def)

lemma close_fees_built:
  assumes "built atas (close_fees ctx whirlpool cl) = Inr own"
  shows "{wp_tokenMintA whirlpool, wp_tokenMintB whirlpool} \<subseteq> set (requests atas (close_fees ctx whirlpool cl)) \<and>
    (\<exists>ix. own = [ix] \<and>
       collects_fees [pos_whirlpool (cl_position cl), cl_positionAddress cl, cl_positionWallet cl,
          rta_address (the (atas (wp_tokenMintA whirlpool))), rta_address (the (atas (wp_tokenMintB whirlpool))),
          wp_tokenVaultA whirlpool, wp_tokenVaultB whirlpool] ix)"
  using assms
  by (auto simp: close_fees_def bindE_eq_Inr split: option.splits dest!: collect_fees_ix_collects)

lemma close_reward_built:
  assumes "built atas (close_reward ctx whirlpool cl (index, mint)) = Inr own"
  shows "{mint} \<subseteq> set (requests atas (close_reward ctx whirlpool cl (index, mint))) \<and>
    (\<exists>ix. own = [ix] \<and> index < length (wp_rewardInfos whirlpool) \<and>
       collects_reward (pos_whirlpool (cl_position cl)) (cl_positionAddress cl) (cl_positionWallet cl) index
         (wri_vault (wp_rewardInfos whirlpool ! index)) (rta_address (the (atas mint))) ix)"
  using assms
  by (auto simp: close_reward_def bindE_eq_Inr array_get_def split: option.splits if_splits
      dest!: collect_reward_ix_collects)

lemma close_account_built:
  "built atas (close_account ctx cl dest) = Inr own \<Longrightarrow>
   \<exists>ix. own = [ix] \<and> ix_called ix = Some ''closePosition'' \<and>
     map (ix_account ix) [''positionAuthority'', ''receiver'', ''position'', ''positionMint'', ''positionTokenAccount''] =
     map Some [cl_positionWallet cl, dest, cl_positionAddress cl, pos_positionMint (cl_position cl), cl_positionTokenAccount cl]"
  by (auto simp: close_account_def closePositionIx_def ix_read Let_def)

text \<open>The position that is closed, and the quotes of what it is owed.\<close>

definition quoted_for_close ::
    "'c sdk_ctx \<Rightarrow> WhirlpoolImpl \<Rightarrow> pubkey \<Rightarrow> PositionData \<Rightarrow> CollectFeesQuote \<Rightarrow> CollectRewardsQuote \<Rightarrow> bool" where
  "quoted_for_close ctx this' address position feesQuote rewardsQuote \<longleftrightarrow>
     cx_getPosition ctx address = Some position \<and>
     (\<exists>arrays lowerArray upperArray ext. getTickArrayDataForPosition ctx position (wi_data this') = Inr arrays \<and>
        fetched_nth arrays 0 = Some lowerArray \<and> fetched_nth arrays 1 = Some upperArray \<and>
        cx_extensionContext ctx (wi_data this') = Inr ext \<and>
        close_quotes ctx (wi_data this') ext
          \<lparr>pi_address = address, pi_data = position, pi_whirlpoolData = wi_data this', pi_lowerTickArrayData = lowerArray,
           pi_upperTickArrayData = upperArray\<rparr> = Inr (feesQuote, rewardsQuote))"

lemma close_position_packs:
  assumes "wi_getClosePositionIx ctx dec this' address slip dest wallet payer ups = Inr builders"
    and "quoted_for_close ctx this' address position fq rq"
  obtains cl base txs where
    "cl_position cl = position" "cl_positionAddress cl = address" "cl_positionWallet cl = wallet"
    "pos_whirlpool position = wi_address this'" "cx_extensionContext ctx (wi_data this') = Inr (cl_ext cl)"
    "position_tick_arrays ctx position (wp_tickSpacing (wi_data this')) = Inr (cl_tickArrayLower cl, cl_tickArrayUpper cl)"
    "builders = map (tx_of (cx_env ctx)) txs"
    "map fst (concat txs) = close_callbacks ctx dec (wi_data this') cl slip ups dest
       (cfq_feeOwedA fq > 0 \<or> cfq_feeOwedB fq > 0) (rewards_to_collect (wi_data this') rq)"
    "\<forall>i < length txs. each_good (gen_served (factory_atas (cx_env ctx) dest payer base)) (tx_checked (cx_env ctx)) i (txs ! i)"
proof -
  from assms(2) obtain arrays la ua ext where q: "cx_getPosition ctx address = Some position"
      "getTickArrayDataForPosition ctx position (wi_data this') = Inr arrays" "fetched_nth arrays 0 = Some la"
      "fetched_nth arrays 1 = Some ua" "cx_extensionContext ctx (wi_data this') = Inr ext"
      "close_quotes ctx (wi_data this') ext
        \<lparr>pi_address = address, pi_data = position, pi_whirlpoolData = wi_data this', pi_lowerTickArrayData = la,
         pi_upperTickArrayData = ua\<rparr> = Inr (fq, rq)"
    unfolding quoted_for_close_def by blast
  let ?fees = "cfq_feeOwedA fq > 0 \<or> cfq_feeOwedB fq > 0" and ?rewards = "rewards_to_collect (wi_data this') rq"
  obtain pta lower upper base fac where r: "pos_whirlpool position = wi_address this'"
      "position_tick_arrays ctx position (wp_tickSpacing (wi_data this')) = Inr (lower, upper)"
    and run: "foldE (mf_addInstructions (cx_env ctx)) (close_callbacks ctx dec (wi_data this')
        \<lparr>cl_position = position, cl_positionAddress = address, cl_positionTokenAccount = pta, cl_positionWallet = wallet,
         cl_ext = ext, cl_tickArrayLower = lower, cl_tickArrayUpper = upper\<rparr> slip ups dest ?fees ?rewards)
        (new_tx_factory base dest payer) = Inr fac" "builders = mf_build fac"
    using assms(1) unfolding wi_getClosePositionIx_def Let_def
    by (auto simp: q q(4) [simplified] bindE_eq_Inr split: if_splits)
  from factory_packs [OF run(1)] obtain txs where "mf_build fac = map (tx_of (cx_env ctx)) txs"
    "map fst (concat txs) = close_callbacks ctx dec (wi_data this')
        \<lparr>cl_position = position, cl_positionAddress = address, cl_positionTokenAccount = pta, cl_positionWallet = wallet,
         cl_ext = ext, cl_tickArrayLower = lower, cl_tickArrayUpper = upper\<rparr> slip ups dest ?fees ?rewards"
    "\<forall>i < length txs. each_good (gen_served (factory_atas (cx_env ctx) dest payer base)) (tx_checked (cx_env ctx)) i (txs ! i)"
    by - (elim exE conjE, rule that)
  with r run(2) q(5) show thesis by (intro that [of _ txs base]) simp_all
qed

text \<open>The rewards that owe something, by their numbers.\<close>

definition owing :: "WhirlpoolData \<Rightarrow> CollectRewardsQuote \<Rightarrow> nat list" where
  "owing whirlpool quote = filter (owes quote) [0..<length (wp_rewardInfos whirlpool)]"

lemma rewards_to_collect_owing:
  "rewards_to_collect whirlpool quote = map (\<lambda>i. wri_mint (wp_rewardInfos whirlpool ! i)) (owing whirlpool quote)"
proof -
  have "enumerate 0 xs = map (\<lambda>i. (i, xs ! i)) [0..<length xs]" for xs :: "WhirlpoolRewardInfoData list"
    by (rule nth_equalityI) (simp_all add: nth_enumerate_eq)
  moreover have "concat (map (\<lambda>i. if P i then [f i] else []) xs) = map f (filter P xs)" for P and f :: "nat \<Rightarrow> pubkey" and xs
    by (induction xs) simp_all
  ultimately show ?thesis by (simp add: rewards_to_collect_def owing_def o_def)
qed

lemma prefix_filter:
  assumes "\<forall>i j. P j \<longrightarrow> i < j \<longrightarrow> P i" "filter P [0..<n] = ks" "i < n" "P i"
  shows "(i, i) \<in> set (enumerate 0 ks)"
proof -
  have "\<exists>m. filter P [0..<n] = [0..<m] \<and> (\<forall>i < n. P i \<longrightarrow> i < m)"
  proof (induction n)
    case (Suc n)
    then obtain m where m: "filter P [0..<n] = [0..<m]" "\<forall>i < n. P i \<longrightarrow> i < m" by blast
    show ?case
    proof (cases "P n")
      case True
      then have "filter P [0..<Suc n] = [0..<Suc n]" using assms(1) by (simp add: filter_id_conv)
      then show ?thesis by blast
    next
      case False
      then show ?thesis using m by (intro exI [of _ m]) (auto simp: less_Suc_eq)
    qed
  qed (auto intro: exI [of _ 0])
  then obtain m where "ks = [0..<m]" "i < m" using assms(2-4) by auto
  then show ?thesis by (simp add: in_set_enumerate_eq)
qed

lemma decrease_quote_all:
  assumes "decrease_quote_of ctx dec whirlpool position ext slip ups = Inr q"
  shows "dlq_liquidityAmount q = pos_liquidity position"
  using assms
  by (auto simp: decrease_quote_of_def decreaseLiquidityQuoteByLiquidityWithParams_def Let_def
      decreaseLiquidityQuoteByLiquidityWithParamsUsingPriceSlippage_def zero_decrease_quote_def decrease_quote_def
      bindE_eq_Inr case_prod_beta split: if_splits)

text \<open>Every reward that owes something, by its place among them.\<close>

lemma close_rewards_served:
  assumes "map fst (concat txs) = close_callbacks ctx dec whirlpool cl slip ups dest fees (rewards_to_collect whirlpool rq)"
    and "\<forall>i < length txs. each_good (gen_served atas) ok i (txs ! i)" "(index, i) \<in> set (enumerate 0 (owing whirlpool rq))"
  shows "served_in atas txs {wri_mint (wp_rewardInfos whirlpool ! i)} (\<lambda>atas ix. index < length (wp_rewardInfos whirlpool) \<and>
    collects_reward (pos_whirlpool (cl_position cl)) (cl_positionAddress cl) (cl_positionWallet cl) index
      (wri_vault (wp_rewardInfos whirlpool ! index)) (rta_address (the (atas (wri_mint (wp_rewardInfos whirlpool ! i))))) ix)"
proof -
  have "(index, wri_mint (wp_rewardInfos whirlpool ! i)) \<in> set (enumerate 0 (rewards_to_collect whirlpool rq))"
    using assms(3) by (auto simp: rewards_to_collect_owing in_set_enumerate_eq)
  then have "close_reward ctx whirlpool cl (index, wri_mint (wp_rewardInfos whirlpool ! i)) \<in> set (map fst (concat txs))"
    unfolding assms(1) close_callbacks_def by auto
  from served_inI [OF assms(2) this close_reward_built] show ?thesis .
qed

lemma close_decrease_served:
  assumes "map fst (concat txs) = close_callbacks ctx dec whirlpool cl slip ups dest fees rewards"
    and "\<forall>i < length txs. each_good (gen_served atas) ok i (txs ! i)" "pos_liquidity (cl_position cl) > 0"
    and "position_tick_arrays ctx (cl_position cl) (wp_tickSpacing whirlpool) = Inr (cl_tickArrayLower cl, cl_tickArrayUpper cl)"
    and "0 < wp_tickSpacing whirlpool"
  shows "served_in atas txs {wp_tokenMintA whirlpool, wp_tokenMintB whirlpool} (\<lambda>atas ix. \<exists>q positionTokenAccount lower upper.
       decrease_quote_of ctx dec whirlpool (cl_position cl) (cl_ext cl) slip ups = Inr q \<and>
       liquidity_ix ''decreaseLiquidity'' [pos_liquidity (cl_position cl), dlq_tokenMinA q, dlq_tokenMinB q]
         [pos_whirlpool (cl_position cl), cl_positionAddress cl, cl_positionWallet cl, positionTokenAccount,
          rta_address (the (atas (wp_tokenMintA whirlpool))), rta_address (the (atas (wp_tokenMintB whirlpool))),
          wp_tokenVaultA whirlpool, wp_tokenVaultB whirlpool, lower, upper] ix \<and>
       tick_array_of ctx (pos_whirlpool (cl_position cl)) (wp_tickSpacing whirlpool) (pos_tickLowerIndex (cl_position cl)) lower \<and>
       tick_array_of ctx (pos_whirlpool (cl_position cl)) (wp_tickSpacing whirlpool) (pos_tickUpperIndex (cl_position cl)) upper)"
proof (rule served_in_mono)
  show "served_in atas txs {wp_tokenMintA whirlpool, wp_tokenMintB whirlpool} (\<lambda>atas ix. \<exists>q.
      decrease_quote_of ctx dec whirlpool (cl_position cl) (cl_ext cl) slip ups = Inr q \<and>
      liquidity_ix ''decreaseLiquidity'' [dlq_liquidityAmount q, dlq_tokenMinA q, dlq_tokenMinB q]
         [pos_whirlpool (cl_position cl), cl_positionAddress cl, cl_positionWallet cl, cl_positionTokenAccount cl,
          rta_address (the (atas (wp_tokenMintA whirlpool))), rta_address (the (atas (wp_tokenMintB whirlpool))),
          wp_tokenVaultA whirlpool, wp_tokenVaultB whirlpool, cl_tickArrayLower cl, cl_tickArrayUpper cl] ix)"
    by (rule served_inI [OF assms(2) _ close_decrease_built]) (simp add: assms(1,3) close_callbacks_def)
qed (use position_tick_arrays_hold [OF assms(4,5)] in \<open>metis decrease_quote_all\<close>)

lemma last_served:
  assumes "\<forall>i < length txs. each_good (gen_served atas) ok i (txs ! i)" "map fst (concat txs) = gens @ [Yield (Inr own)]"
  shows "\<exists>prep. snd (last (concat txs)) = prep @ own"
proof -
  have ne: "concat txs \<noteq> []" using assms(2) by (metis append_is_Nil_conv list.distinct(1) list.map_disc_iff)
  then have "last (concat txs) \<in> set (concat txs)" by (rule last_in_set)
  then obtain i k where ik: "i < length txs" "k < length (txs ! i)" "txs ! i ! k = last (concat txs)"
    by (auto simp: in_set_conv_nth)
  have "fst (last (concat txs)) = Yield (Inr own)" using arg_cong [OF assms(2), of last] ne by (simp add: last_map)
  then have "gen_served atas i (emitted (take k (txs ! i))) (Yield (Inr own)) (snd (last (concat txs)))"
    using assms(1) [unfolded each_good_def, rule_format, OF ik(1,2)] by (simp add: ik(3))
  then show ?thesis by (auto simp: gen_served_def)
qed

text \<open>
  C28: Closing a position empties it first: when the call succeeds and the rewards that owe something come
  before those that do not, the transactions it builds, each of checked size, withdraw
  all the liquidity of the position, if it has any, with the minima of the quote; collect its fees, if the
  quote owes any; collect every reward that the quote owes, with its own number, from its own
  vault, to the account of its own mint; all of this to accounts set up earlier in the same transaction;
  and the last instruction of all closes the position.
\<close>

theorem close_position_complete:
  assumes "wi_getClosePositionIx ctx dec this' address slip dest wallet payer ups = Inr builders"
    and "quoted_for_close ctx this' address position fq rq"
    and "\<forall>i j. owes rq j \<longrightarrow> i < j \<longrightarrow> owes rq i" and "0 < wp_tickSpacing (wi_data this')"
  shows "\<exists>txs atas. let pool = wi_address this'; data = wi_data this'; mintA = wp_tokenMintA data; mintB = wp_tokenMintB data in
    builders = map (tx_of (cx_env ctx)) txs \<and> sizes_checked (cx_env ctx) txs \<and>
    (pos_liquidity position > 0 \<longrightarrow> served_in atas txs {mintA, mintB} (\<lambda>atas ix. \<exists>ext q positionTokenAccount lower upper.
       cx_extensionContext ctx data = Inr ext \<and> decrease_quote_of ctx dec data position ext slip ups = Inr q \<and>
       liquidity_ix ''decreaseLiquidity'' [pos_liquidity position, dlq_tokenMinA q, dlq_tokenMinB q]
         [pool, address, wallet, positionTokenAccount, rta_address (the (atas mintA)), rta_address (the (atas mintB)),
          wp_tokenVaultA data, wp_tokenVaultB data, lower, upper] ix \<and>
       tick_array_of ctx pool (wp_tickSpacing data) (pos_tickLowerIndex position) lower \<and>
       tick_array_of ctx pool (wp_tickSpacing data) (pos_tickUpperIndex position) upper)) \<and>
    (cfq_feeOwedA fq > 0 \<or> cfq_feeOwedB fq > 0 \<longrightarrow> served_in atas txs {mintA, mintB} (\<lambda>atas.
       collects_fees [pool, address, wallet, rta_address (the (atas mintA)), rta_address (the (atas mintB)),
         wp_tokenVaultA data, wp_tokenVaultB data])) \<and>
    (\<forall>i < length (wp_rewardInfos data). owes rq i \<longrightarrow>
       (let info = wp_rewardInfos data ! i in served_in atas txs {wri_mint info} (\<lambda>atas.
          collects_reward pool address wallet i (wri_vault info) (rta_address (the (atas (wri_mint info))))))) \<and>
    (\<exists>prep ix. snd (last (concat txs)) = prep @ [ix] \<and> ix_called ix = Some ''closePosition'' \<and>
       map (ix_account ix) [''positionAuthority'', ''receiver'', ''position'', ''positionMint''] =
       map Some [wallet, dest, address, pos_positionMint position])"
proof -
  let ?data = "wi_data this'" and ?env = "cx_env ctx"
  obtain cl base txs where cl: "cl_position cl = position" "cl_positionAddress cl = address" "cl_positionWallet cl = wallet"
    "pos_whirlpool position = wi_address this'" "cx_extensionContext ctx ?data = Inr (cl_ext cl)"
    "position_tick_arrays ctx position (wp_tickSpacing ?data) = Inr (cl_tickArrayLower cl, cl_tickArrayUpper cl)"
    and builders: "builders = map (tx_of ?env) txs"
    and gens: "map fst (concat txs) = close_callbacks ctx dec ?data cl slip ups dest
       (cfq_feeOwedA fq > 0 \<or> cfq_feeOwedB fq > 0) (rewards_to_collect ?data rq)"
    and good: "\<forall>i < length txs. each_good (gen_served (factory_atas ?env dest payer base)) (tx_checked ?env) i (txs ! i)"
    by (rule close_position_packs [OF assms(1,2)])
  let ?atas = "factory_atas ?env dest payer base"
  have decrease: "served_in ?atas txs {wp_tokenMintA ?data, wp_tokenMintB ?data} (\<lambda>atas ix. \<exists>ext q positionTokenAccount lower upper.
       cx_extensionContext ctx ?data = Inr ext \<and> decrease_quote_of ctx dec ?data position ext slip ups = Inr q \<and>
       liquidity_ix ''decreaseLiquidity'' [pos_liquidity position, dlq_tokenMinA q, dlq_tokenMinB q]
         [wi_address this', address, wallet, positionTokenAccount, rta_address (the (atas (wp_tokenMintA ?data))),
          rta_address (the (atas (wp_tokenMintB ?data))), wp_tokenVaultA ?data, wp_tokenVaultB ?data, lower, upper] ix \<and>
       tick_array_of ctx (wi_address this') (wp_tickSpacing ?data) (pos_tickLowerIndex position) lower \<and>
       tick_array_of ctx (wi_address this') (wp_tickSpacing ?data) (pos_tickUpperIndex position) upper)"
    if "pos_liquidity position > 0"
    using close_decrease_served [OF gens good] cl(6) that assms(4) by (simp add: cl)
  have fees: "served_in ?atas txs {wp_tokenMintA ?data, wp_tokenMintB ?data} (\<lambda>atas. collects_fees
      [wi_address this', address, wallet, rta_address (the (atas (wp_tokenMintA ?data))),
       rta_address (the (atas (wp_tokenMintB ?data))), wp_tokenVaultA ?data, wp_tokenVaultB ?data])"
    if "cfq_feeOwedA fq > 0 \<or> cfq_feeOwedB fq > 0"
    using served_inI [OF good _ close_fees_built [where ctx = ctx and whirlpool = ?data and cl = cl]] that by (simp add: gens close_callbacks_def cl)
  have rewards: "served_in ?atas txs {wri_mint (wp_rewardInfos ?data ! i)} (\<lambda>atas. collects_reward (wi_address this') address wallet i
      (wri_vault (wp_rewardInfos ?data ! i)) (rta_address (the (atas (wri_mint (wp_rewardInfos ?data ! i))))))"
    if "i < length (wp_rewardInfos ?data)" "owes rq i" for i
    using close_rewards_served [OF gens good prefix_filter [OF assms(3) owing_def [symmetric] that]] that by (simp add: cl)
  have "map fst (concat txs) = butlast (close_callbacks ctx dec ?data cl slip ups dest
       (cfq_feeOwedA fq > 0 \<or> cfq_feeOwedB fq > 0) (rewards_to_collect ?data rq)) @ [close_account ctx cl dest]"
    unfolding gens by (simp add: close_callbacks_def butlast_append)
  from last_served [OF good this [unfolded close_account_def]] close_account_built [where ctx = ctx and cl = cl and dest = dest]
  have "\<exists>prep ix. snd (last (concat txs)) = prep @ [ix] \<and> ix_called ix = Some ''closePosition'' \<and>
       map (ix_account ix) [''positionAuthority'', ''receiver'', ''position'', ''positionMint''] =
       map Some [wallet, dest, address, pos_positionMint position]"
    by (fastforce simp: cl close_account_def)
  then show ?thesis
    using builders good_sizes [OF good] decrease fees rewards
    by (intro exI [of _ txs] exI [of _ ?atas]) (simp add: Let_def)
qed

text \<open>
  Closing a position collects the wrong reward when an earlier one owes nothing: the rewards that owe
  something are numbered among themselves, so when the first reward of the pool owes nothing
  and the second one does, a call that succeeds builds an instruction that collects reward 0,
  from the vault of reward 0, into the account of the mint of reward 1, and unless the third
  reward owes something too, no callback with the number 1 is there at all.
\<close>

theorem close_position_wrong_reward:
  assumes "wi_getClosePositionIx ctx dec this' address slip dest wallet payer ups = Inr builders"
    and "quoted_for_close ctx this' address position fq rq"
    and "wp_rewardInfos (wi_data this') = [info0, info1, info2]" "\<not> owes rq 0" "owes rq 1"
  shows "\<exists>txs atas. builders = map (tx_of (cx_env ctx)) txs \<and>
    served_in atas txs {wri_mint info1} (\<lambda>atas.
      collects_reward (wi_address this') address wallet 0 (wri_vault info0) (rta_address (the (atas (wri_mint info1))))) \<and>
    (\<not> owes rq 2 \<longrightarrow> length (concat txs) =
       (if pos_liquidity position > 0 then 1 else 0) + (if cfq_feeOwedA fq > 0 \<or> cfq_feeOwedB fq > 0 then 1 else 0) + 2)"
proof -
  let ?data = "wi_data this'"
  obtain cl base txs where cl: "cl_position cl = position" "cl_positionAddress cl = address" "cl_positionWallet cl = wallet"
    "pos_whirlpool position = wi_address this'"
    and builders: "builders = map (tx_of (cx_env ctx)) txs"
    and gens: "map fst (concat txs) = close_callbacks ctx dec ?data cl slip ups dest
       (cfq_feeOwedA fq > 0 \<or> cfq_feeOwedB fq > 0) (rewards_to_collect ?data rq)"
    and good: "\<forall>i < length txs. each_good (gen_served (factory_atas (cx_env ctx) dest payer base)) (tx_checked (cx_env ctx)) i (txs ! i)"
    by (rule close_position_packs [OF assms(1,2)])
  have owing: "owing ?data rq = 1 # (if owes rq 2 then [2] else [])"
    using assms(3-5) by (simp add: owing_def numeral_3_eq_3 numeral_2_eq_2)
  have "served_in (factory_atas (cx_env ctx) dest payer base) txs {wri_mint info1} (\<lambda>atas.
      collects_reward (wi_address this') address wallet 0 (wri_vault info0) (rta_address (the (atas (wri_mint info1)))))"
    using close_rewards_served [OF gens good, of 0 1] by (simp add: owing assms(3) cl)
  moreover have "length (concat txs) =
       (if pos_liquidity position > 0 then 1 else 0) + (if cfq_feeOwedA fq > 0 \<or> cfq_feeOwedB fq > 0 then 1 else 0) + 2"
    if "\<not> owes rq 2"
    using arg_cong [OF gens, of length] that by (simp add: close_callbacks_def rewards_to_collect_owing owing cl del: length_concat)
  ultimately show ?thesis using builders by (intro exI conjI impI) assumption+
qed

text \<open>
  Fees that a transfer fee takes away whole are left behind: when the quote nets to nothing for both tokens, no
  instruction collects the fees, however much is owed before the transfer fee, so the position that is
  closed still owes them. Rewards are collected in that case.
\<close>

lemma close_leaves_deducted_fees:
  assumes "wi_getClosePositionIx ctx dec this' address slip dest wallet payer ups = Inr builders"
    and "quoted_for_close ctx this' address position fq rq"
    and "cfq_feeOwedA fq = 0" "cfq_feeOwedB fq = 0"
  shows "\<exists>txs. builders = map (tx_of (cx_env ctx)) txs \<and>
    length (concat txs) = (if pos_liquidity position > 0 then 1 else 0) + length (owing (wi_data this') rq) + 1"
proof -
  obtain cl base txs where cl: "cl_position cl = position" "builders = map (tx_of (cx_env ctx)) txs"
    and gens: "map fst (concat txs) = close_callbacks ctx dec (wi_data this') cl slip ups dest
       (cfq_feeOwedA fq > 0 \<or> cfq_feeOwedB fq > 0) (rewards_to_collect (wi_data this') rq)"
    by (rule close_position_packs [OF assms(1,2)])
  have "length (concat txs) = (if pos_liquidity position > 0 then 1 else 0) + length (owing (wi_data this') rq) + 1"
    using arg_cong [OF gens, of length] assms(3,4)
    by (simp add: close_callbacks_def rewards_to_collect_owing cl del: length_concat)
  then show ?thesis using cl(2) by blast
qed

subsection \<open>Examples\<close>

text \<open>A pool with two rewards, and a position without liquidity that is owed some of them.\<close>

definition owed_position :: "int \<Rightarrow> int \<Rightarrow> PositionData" where
  "owed_position a b = example_position\<lparr>pos_feeOwedA := 0, pos_rewardInfos :=
     map (\<lambda>n. \<lparr>pri_growthInsideCheckpoint = 0, pri_amountOwed = n\<rparr>) [a, b, 0]\<rparr>"

definition close_ctx :: "int \<Rightarrow> int \<Rightarrow> TransferFee sdk_ctx" where
  "close_ctx a b = (example_ctx (reward_pool [''R'', ''S'']) (owed_position a b))
     \<lparr>cx_getTickArrays := map (\<lambda>addr. Some \<lparr>ta_whirlpool = ''P'', ta_startTickIndex = 0, ta_ticks = [empty_tick, empty_tick]\<rparr>)\<rparr>"

definition close_pool :: WhirlpoolImpl where
  "close_pool = \<lparr>wi_address = ''P'',
     wi_tokenAInfo = mint_info.extend (example_mint ''A'' ''token'') (TokenInfo.fields ''A''),
     wi_tokenBInfo = mint_info.extend (example_mint ''B'' ''token'') (TokenInfo.fields ''B''),
     wi_tokenVaultAInfo = \<lparr>tka_address = ''vA'', tka_owner = ''P'', tka_amount = 0\<rparr>,
     wi_tokenVaultBInfo = \<lparr>tka_address = ''vB'', tka_owner = ''P'', tka_amount = 0\<rparr>, wi_rewardInfos = [],
     wi_data = reward_pool [''R'', ''S'']\<rparr>"

text \<open>Adding a callback to a factory whose open transaction has room for it.\<close>

definition total_ixs :: "Instruction list \<Rightarrow> nat" where
  "total_ixs ixs = length (concat (map in_instructions ixs)) + length (concat (map in_cleanupInstructions ixs))"

lemma room_ref:
  assumes "mf_pendingTxBuilder (open_pending (tx_env_ref l) fac) = Some p"
    and "mf_touchedMints (open_pending (tx_env_ref l) fac) = Some t"
    and "run_generator (mf_resolvedAtas (open_pending (tx_env_ref l) fac)) gen (t, []) = Inr (t', new)"
    and "total_ixs p + total_ixs new \<le> l"
  shows "mf_addInstructions (tx_env_ref l) gen fac =
    Inr ((open_pending (tx_env_ref l) fac)\<lparr>mf_pendingTxBuilder := Some (p @ [compress_ref False new]), mf_touchedMints := Some t'\<rparr>)"
proof -
  have rev: "length (concat (rev xs)) = length (concat xs)" for xs :: "tx_ix list list" by (simp add: length_concat rev_map [symmetric])
  have "checkMergedTransactionSizeIsValid (tx_env_ref l) [p, new]"
    using assms(4) by (simp add: checkMergedTransactionSizeIsValid_def tx_env_ref_def compress_ref_def total_ixs_def rev Let_def)
  moreover have "te_compressIx (tx_env_ref l) = compress_ref" by (simp add: tx_env_ref_def)
  ultimately show ?thesis using assms(1-3) by (simp add: mf_addInstructions_def numeral_2_eq_2 Let_def)
qed

lemma reward_pool_more [simp]:
  "wp_tickSpacing (reward_pool mints) = 64" "wp_tickCurrentIndex (reward_pool mints) = 0" "wp_liquidity (reward_pool mints) = 100"
  "wp_feeGrowthGlobalA (reward_pool mints) = 0" "wp_feeGrowthGlobalB (reward_pool mints) = 0"
  "wp_rewardLastUpdatedTimestamp (reward_pool mints) = 0"
  "wri_emissionsPerSecondX64 (example_reward mint) = 0" "wri_growthGlobalX64 (example_reward mint) = 0"
  by (simp_all add: reward_pool_def idle_pool_def example_reward_def no_reward_def)

lemma owed_position_sel [simp]:
  "pos_whirlpool (owed_position a b) = ''P''" "pos_positionMint (owed_position a b) = ''M''" "pos_liquidity (owed_position a b) = 0"
  "pos_tickLowerIndex (owed_position a b) = 0" "pos_tickUpperIndex (owed_position a b) = 64"
  "pos_feeOwedA (owed_position a b) = 0" "pos_feeOwedB (owed_position a b) = 0"
  "pos_feeGrowthCheckpointA (owed_position a b) = 0" "pos_feeGrowthCheckpointB (owed_position a b) = 0"
  "pos_rewardInfos (owed_position a b) = map (\<lambda>n. \<lparr>pri_growthInsideCheckpoint = 0, pri_amountOwed = n\<rparr>) [a, b, 0]"
  by (simp_all add: owed_position_def example_position_def)

lemma close_ctx_sel [simp]:
  "cx_env (close_ctx a b) = tx_env_ref 10" "cx_spl (close_ctx a b) = spl_token_ref" "cx_mu (close_ctx a b) = math_util_ref"
  "cx_getPosition (close_ctx a b) addr = Some (owed_position a b)" "cx_now (close_ctx a b) = 0"
  "cx_getTickArrays (close_ctx a b) =
     map (\<lambda>addr. Some \<lparr>ta_whirlpool = ''P'', ta_startTickIndex = 0, ta_ticks = [empty_tick, empty_tick]\<rparr>)"
  by (simp_all add: close_ctx_def example_ctx_def)

lemma close_pool_sel [simp]: "wi_address close_pool = ''P''" "wi_data close_pool = reward_pool [''R'', ''S'']"
  by (simp_all add: close_pool_def)

definition close_ext :: TokenExtensionContext where
  "close_ext = \<lparr>tec_currentEpoch = 0, tec_tokenMintWithProgramA = example_mint ''A'' ''token'',
     tec_tokenMintWithProgramB = example_mint ''B'' ''token'',
     tec_rewardTokenMintsWithProgram = [Some (example_mint ''R'' ''token''), Some (example_mint ''S'' ''token''), None]\<rparr>"

lemma close_ext: "cx_extensionContext (close_ctx a b) (reward_pool [''R'', ''S'']) = Inr close_ext"
  by (simp add: cx_extensionContext_def buildTokenExtensionContext_def example_rewards close_ctx_def example_ctx_def close_ext_def
      numeral_eq_Suc)

definition close_array :: TickArrayData where
  "close_array = \<lparr>ta_whirlpool = ''P'', ta_startTickIndex = 0, ta_ticks = [empty_tick, empty_tick]\<rparr>"

lemma close_arrays:
  "\<exists>l u. position_tick_arrays (close_ctx a b) (owed_position a b) 64 = Inr (l, u)"
  "getTickArrayDataForPosition (close_ctx a b) (owed_position a b) (reward_pool [''R'', ''S'']) = Inr [Some close_array, Some close_array]"
  by (simp_all add: position_tick_arrays_def getTickArrayFromTickIndex_def getStartTickIndex_in_bounds checkTickInBounds_def
      MIN_TICK_INDEX_def MAX_TICK_INDEX_def Let_def getTickArrayDataForPosition_def close_array_def)

definition close_rewards_quote :: "int \<Rightarrow> int \<Rightarrow> CollectRewardsQuote" where
  "close_rewards_quote a b = \<lparr>crq_rewardOwed = [Some a, Some b, None], crq_deductedFromRewardOwed = [Some 0, Some 0, None]\<rparr>"

definition no_fees_quote :: CollectFeesQuote where
  "no_fees_quote = \<lparr>cfq_feeOwedA = 0, cfq_feeOwedB = 0, cfq_deductedFromFeeOwedA = 0, cfq_deductedFromFeeOwedB = 0\<rparr>"

lemma subUnderflow_zero [simp]: "subUnderflowU128 math_util_ref 0 0 = Inr 0"
  using sub_u128 [OF math_util_ref_ok, of 0 0] by simp

lemma token_no_fee [simp]:
  "calculateTransferFeeExcludedAmount spl_token_ref n (example_mint m ''token'') epoch = \<lparr>tfe_amount = n, tfe_fee = 0\<rparr>"
  by (simp add: calculateTransferFeeExcludedAmount_def example_mint_def spl_token_ref_def)

lemma close_fees_quote:
  "collectFeesQuote math_util_ref spl_token_ref
     \<lparr>CollectFeesQuoteParam.cf_whirlpool = reward_pool mints, CollectFeesQuoteParam.cf_position = owed_position a b,
      cf_tickLower = empty_tick, cf_tickUpper = empty_tick,
      cf_tokenExtensionCtx = TokenExtensionContextForPool.truncate close_ext\<rparr> = Inr no_fees_quote"
  by (simp add: collectFeesQuote_def Let_def fee_below_def fee_above_def fee_inside_def fee_delta_def empty_tick_def
      close_ext_def TokenExtensionContextForPool.defs bn_simps no_fees_quote_def)

lemma close_rewards_quote:
  assumes "0 \<le> a" "0 \<le> b"
  shows "collectRewardsQuote math_util_ref spl_token_ref 0
     \<lparr>cr_whirlpool = reward_pool [''R'', ''S''], cr_position = owed_position a b, cr_tickLower = empty_tick,
      cr_tickUpper = empty_tick, cr_currentEpoch = tec_currentEpoch close_ext,
      cr_rewardTokenMintsWithProgram = tec_rewardTokenMintsWithProgram close_ext, cr_timeStampInSeconds = None\<rparr> =
    Inr (close_rewards_quote a b)"
  using assms
  by (simp add: collectRewardsQuote_def NUM_REWARDS_def numeral_3_eq_3 get_or_throw_def reward_amount_def Let_def example_rewards
      fee_inside_def mulDiv_def empty_tick_def close_ext_def bn_simps close_rewards_quote_def)

lemma close_quoted:
  assumes "0 \<le> a" "0 \<le> b"
  shows "close_quotes (close_ctx a b) (reward_pool [''R'', ''S'']) close_ext
      \<lparr>pi_address = ''p'', pi_data = owed_position a b, pi_whirlpoolData = reward_pool [''R'', ''S''],
       pi_lowerTickArrayData = close_array, pi_upperTickArrayData = close_array\<rparr> =
    Inr (no_fees_quote, close_rewards_quote a b)"
proof -
  have "getTickFromArray close_array 0 64 = Inr empty_tick" "getTickFromArray close_array 64 64 = Inr empty_tick"
    by (simp_all add: getTickFromArray_def close_array_def tickIndexToInnerIndex_def)
  then show ?thesis
    by (simp add: close_quotes_def pi_getLowerTickData_def pi_getUpperTickData_def close_fees_quote close_rewards_quote assms)
qed

lemma close_quoted_for:
  assumes "0 \<le> a" "0 \<le> b"
  shows "quoted_for_close (close_ctx a b) close_pool ''p'' (owed_position a b) no_fees_quote (close_rewards_quote a b)"
  unfolding quoted_for_close_def
  by (intro conjI exI [of _ "[Some close_array, Some close_array]"] exI [of _ close_array] exI [of _ close_ext])
    (simp_all add: close_arrays close_ext close_quoted assms fetched_nth_def array_get_def)

lemma owes_example: "owes (close_rewards_quote a b) i \<longleftrightarrow> i = 0 \<and> a > 0 \<or> i = 1 \<and> b > 0"
  by (auto simp: owes_def close_rewards_quote_def array_get_def nth_Cons' split: if_splits)

text \<open>The callbacks of the example: one reward, and the closing.\<close>

lemma close_reward_run:
  assumes "cl_ext cl = close_ext" "atas mint = Some ata"
  shows "\<exists>ix. run_generator atas (close_reward (close_ctx a b) (reward_pool [''R'', ''S'']) cl (0, mint)) ({}, []) =
      Inr ({mint}, [Instruction.truncate ata, ix]) \<and> total_ixs [ix] = 1"
  using assms
  by (simp add: close_reward_def array_get_def collect_reward_ix_def isV2IxRequiredReward_def close_ext_def example_mint_def
      spl_token_ref_def collectRewardIx_def total_ixs_def Let_def nth_append)

lemma close_account_run:
  "\<exists>ix. run_generator atas (close_account ctx cl dest) (t, []) = Inr (t, [ix]) \<and> total_ixs [ix] = 1"
  by (simp add: close_account_def closePositionIx_def total_ixs_def Let_def)

lemma close_atas_example:
  assumes "mint \<in> {''R'', ''S''}"
  shows "\<exists>base. close_atas (close_ctx a b) (reward_pool [''R'', ''S'']) RewardOnly owner payer = Inr base \<and>
    base mint = Some (ata_ref owner mint)"
  using assms
  by (auto simp: close_atas_def getTokenMintsFromWhirlpools_def add_reward_mint_def example_rewards set_add_def numeral_eq_Suc
      convertListToMap_def array_get_def)

lemma close_example:
  assumes "rewards_to_collect (reward_pool [''R'', ''S'']) (close_rewards_quote a b) = [mint]" "mint \<in> {''R'', ''S''}"
    and "0 \<le> a" "0 \<le> b"
  shows "\<exists>builders. wi_getClosePositionIx (close_ctx a b) dec close_pool ''p'' slip ''me'' ''me'' ''me'' False = Inr builders"
proof -
  obtain l u where lu: "position_tick_arrays (close_ctx a b) (owed_position a b) 64 = Inr (l, u)" using close_arrays by blast
  obtain base where base: "close_atas (close_ctx a b) (reward_pool [''R'', ''S'']) RewardOnly ''me'' ''me'' = Inr base"
    "base mint = Some (ata_ref ''me'' mint)" using close_atas_example [OF assms(2)] by blast
  let ?cl = "\<lparr>cl_position = owed_position a b, cl_positionAddress = ''p'', cl_positionTokenAccount = ''Mme'',
    cl_positionWallet = ''me'', cl_ext = close_ext, cl_tickArrayLower = l, cl_tickArrayUpper = u\<rparr>"
  let ?new = "new_tx_factory base ''me'' ''me''" and ?env = "tx_env_ref 10"
  have op: "mf_pendingTxBuilder (open_pending ?env ?new) = Some []" "mf_touchedMints (open_pending ?env ?new) = Some {}"
    "mf_resolvedAtas (open_pending ?env ?new) mint = Some (ata_ref ''me'' mint)"
    using assms(2) base(2) by (auto simp: open_pending_def new_tx_factory_def)
  obtain ix where ix: "run_generator (mf_resolvedAtas (open_pending ?env ?new)) (close_reward (close_ctx a b)
      (reward_pool [''R'', ''S'']) ?cl (0, mint)) ({}, []) = Inr ({mint}, [Instruction.truncate (ata_ref ''me'' mint), ix])"
    "total_ixs [ix] = 1"
    using close_reward_run [of ?cl "mf_resolvedAtas (open_pending ?env ?new)" mint "ata_ref ''me'' mint" a b] op(3) by auto
  have two: "total_ixs [Instruction.truncate (ata_ref ''me'' mint), ix] = 2"
    using ix(2) by (simp add: total_ixs_def ata_ref_def Instruction.defs)
  obtain fac p where fac: "mf_addInstructions ?env (close_reward (close_ctx a b) (reward_pool [''R'', ''S'']) ?cl (0, mint)) ?new = Inr fac"
    "mf_pendingTxBuilder fac = Some p" "mf_touchedMints fac = Some {mint}" "total_ixs p = 2"
    using room_ref [OF op(1,2) ix(1)] two by (auto simp: total_ixs_def compress_ref_def Let_def)
  then have fac': "open_pending ?env fac = fac" by (simp add: open_pending_def)
  obtain ix2 where ix2: "run_generator (mf_resolvedAtas (open_pending ?env fac)) (close_account (close_ctx a b) ?cl ''me'')
      ({mint}, []) = Inr ({mint}, [ix2])" "total_ixs [ix2] = 1"
    using close_account_run by blast
  have "\<exists>fac2. mf_addInstructions ?env (close_account (close_ctx a b) ?cl ''me'') fac = Inr fac2"
    using room_ref [OF _ _ ix2(1)] fac fac' ix2(2) by simp
  then show ?thesis
    using fac(1) assms base(1)
    by (auto simp: wi_getClosePositionIx_def lu close_arrays close_ext close_quoted fetched_nth_def array_get_def Let_def
        close_callbacks_def close_mint_types_def no_fees_quote_def close_rewards_quote_def [of a b])
qed

lemma close_example_owing:
  "owing (reward_pool [''R'', ''S'']) (close_rewards_quote 7 0) = [0]" "owing (reward_pool [''R'', ''S'']) (close_rewards_quote 0 7) = [1]"
  by (simp_all add: owing_def owes_example numeral_eq_Suc)

lemma close_example_rewards:
  "rewards_to_collect (reward_pool [''R'', ''S'']) (close_rewards_quote 7 0) = [''R'']"
  "rewards_to_collect (reward_pool [''R'', ''S'']) (close_rewards_quote 0 7) = [''S'']"
  by (simp_all add: rewards_to_collect_owing close_example_owing nth_append)

theorem close_position_complete_witness:
  "\<exists>builders txs atas. wi_getClosePositionIx (close_ctx 7 0) decimal_ref close_pool ''p''
      \<lparr>numerator = 1, denominator = 100\<rparr> ''me'' ''me'' ''me'' False = Inr builders \<and>
    builders = map (tx_of (tx_env_ref 10)) txs \<and>
    served_in atas txs {''R''} (\<lambda>atas. collects_reward ''P'' ''p'' ''me'' 0 ''vR'' (rta_address (the (atas ''R''))))"
proof -
  obtain builders where run: "wi_getClosePositionIx (close_ctx 7 0) decimal_ref close_pool ''p''
      \<lparr>numerator = 1, denominator = 100\<rparr> ''me'' ''me'' ''me'' False = Inr builders"
    using close_example [OF close_example_rewards(1)] by auto
  have q: "quoted_for_close (close_ctx 7 0) close_pool ''p'' (owed_position 7 0) no_fees_quote (close_rewards_quote 7 0)"
    by (rule close_quoted_for) simp_all
  have prefix: "\<forall>i j. owes (close_rewards_quote 7 0) j \<longrightarrow> i < j \<longrightarrow> owes (close_rewards_quote 7 0) i" by (simp add: owes_example)
  have "0 < wp_tickSpacing (wi_data close_pool)" by simp
  note complete = close_position_complete [OF run q prefix this, unfolded Let_def]
  have "\<exists>txs atas. builders = map (tx_of (tx_env_ref 10)) txs \<and>
    (\<forall>i < length (wp_rewardInfos (wi_data close_pool)). owes (close_rewards_quote 7 0) i \<longrightarrow>
       served_in atas txs {wri_mint (wp_rewardInfos (wi_data close_pool) ! i)} (\<lambda>atas.
          collects_reward ''P'' ''p'' ''me'' i (wri_vault (wp_rewardInfos (wi_data close_pool) ! i))
            (rta_address (the (atas (wri_mint (wp_rewardInfos (wi_data close_pool) ! i)))))))"
    by (rule exE [OF complete], erule exE, elim conjE) (intro exI conjI, simp, simp only: close_pool_sel close_ctx_sel)
  then obtain txs atas where "builders = map (tx_of (tx_env_ref 10)) txs"
    and all: "\<forall>i < length (wp_rewardInfos (wi_data close_pool)). owes (close_rewards_quote 7 0) i \<longrightarrow>
       served_in atas txs {wri_mint (wp_rewardInfos (wi_data close_pool) ! i)} (\<lambda>atas.
          collects_reward ''P'' ''p'' ''me'' i (wri_vault (wp_rewardInfos (wi_data close_pool) ! i))
            (rta_address (the (atas (wri_mint (wp_rewardInfos (wi_data close_pool) ! i))))))"
    by - (elim exE conjE, rule that)
  moreover have "served_in atas txs {''R''} (\<lambda>atas. collects_reward ''P'' ''p'' ''me'' 0 ''vR'' (rta_address (the (atas ''R''))))"
    using all [rule_format, of 0] by (simp add: owes_example nth_append)
  ultimately show ?thesis using run by (intro exI conjI)
qed

theorem close_position_wrong_reward_witness:
  "\<exists>builders txs atas. wi_getClosePositionIx (close_ctx 0 7) decimal_ref close_pool ''p''
      \<lparr>numerator = 1, denominator = 100\<rparr> ''me'' ''me'' ''me'' False = Inr builders \<and>
    builders = map (tx_of (tx_env_ref 10)) txs \<and> length (concat txs) = 2 \<and>
    served_in atas txs {''S''} (\<lambda>atas. collects_reward ''P'' ''p'' ''me'' 0 ''vR'' (rta_address (the (atas ''S''))))"
proof -
  obtain builders where run: "wi_getClosePositionIx (close_ctx 0 7) decimal_ref close_pool ''p''
      \<lparr>numerator = 1, denominator = 100\<rparr> ''me'' ''me'' ''me'' False = Inr builders"
    using close_example [OF close_example_rewards(2)] by auto
  have q: "quoted_for_close (close_ctx 0 7) close_pool ''p'' (owed_position 0 7) no_fees_quote (close_rewards_quote 0 7)"
    by (rule close_quoted_for) simp_all
  have infos: "wp_rewardInfos (wi_data close_pool) = [example_reward ''R'', example_reward ''S'', no_reward]" by simp
  have o: "\<not> owes (close_rewards_quote 0 7) 0" "owes (close_rewards_quote 0 7) 1" "\<not> owes (close_rewards_quote 0 7) 2"
    by (simp_all add: owes_example)
  from close_position_wrong_reward [OF run q infos o(1,2)] obtain txs atas where
    "builders = map (tx_of (tx_env_ref 10)) txs" "length (concat txs) = Suc (Suc 0)"
    "served_in atas txs {''S''} (\<lambda>atas. collects_reward ''P'' ''p'' ''me'' 0 ''vR'' (rta_address (the (atas ''S''))))"
    by (simp add: o no_fees_quote_def del: length_concat) (elim exE conjE, rule that)
  with run show ?thesis unfolding numeral_2_eq_2 by (intro exI conjI)
qed

theorem open_position_transaction_witness:
  "\<exists>opened tokenAccount lower upper.
     wi_getOpenPositionWithOptMetadataTx (example_ctx idle_pool example_position) (Keypair ''K'') (close_pool\<lparr>wi_data := idle_pool\<rparr>)
       0 64 \<lparr>ili_tokenMaxA = 2, ili_tokenMaxB = 3, ili_liquidityAmount = 1\<rparr> ''me'' ''me'' False None = Inr opened \<and>
     opn_signers opened = [Keypair ''K''] \<and>
     opening_tx (example_ctx idle_pool example_position) False ''P'' idle_pool 0 64
       \<lparr>ili_tokenMaxA = 2, ili_tokenMaxB = 3, ili_liquidityAmount = 1\<rparr> ''me'' ''me'' ''K'' (opn_tx opened) (tokenAccount, lower, upper)"
proof -
  let ?ctx = "example_ctx idle_pool example_position" and ?pool = "close_pool\<lparr>wi_data := idle_pool\<rparr>"
  let ?inc = "\<lparr>ili_tokenMaxA = 2, ili_tokenMaxB = 3, ili_liquidityAmount = 1\<rparr>"
  have "\<exists>opened. wi_getOpenPositionWithOptMetadataTx ?ctx (Keypair ''K'') ?pool 0 64 ?inc ''me'' ''me'' False None = Inr opened"
    by (simp add: wi_getOpenPositionWithOptMetadataTx_def Let_def example_extension_context liquidity_accounts_def
        increase_liquidity_ix_def isV2IxRequiredPool_def example_mint_def spl_token_ref_def position_mint_def
        getTickArrayFromTickIndex_def getStartTickIndex_in_bounds checkTickInBounds_def MIN_TICK_INDEX_def MAX_TICK_INDEX_def
        isTickInitializable_iff)
  then obtain opened where run: "wi_getOpenPositionWithOptMetadataTx ?ctx (Keypair ''K'') ?pool 0 64 ?inc ''me'' ''me'' False None =
    Inr opened" ..
  have pool: "cx_getPool ?ctx (wi_address ?pool) = Some idle_pool" "0 < wp_tickSpacing (wi_data ?pool)" by simp_all
  from open_position_transaction [OF run pool] run show ?thesis
    by (elim conjE exE) (intro exI conjI, assumption, simp, simp)
qed

end
