(* ===== verification/Swap_Route.thy ===== *)
theory Swap_Route
  imports Router Swap_Async
begin

text \<open>
  The transaction of a route (\<^verbatim>\<open>sdk/src/instructions/composites/swap-with-route.ts\<close>), the selection of
  a route whose transaction fits (\<^verbatim>\<open>router/public/router-utils.ts\<close>) and the two methods of
  the router that use them (\<^verbatim>\<open>router/router-impl.ts\<close>). The instruction map of the code, an object from mints
  to token accounts, is a map; \<open>token_account\<close> also stands for \<^verbatim>\<open>AtaAccountInfo\<close>, of which only
  address and owner are read. The theorem says what every sub-route of a route becomes, and that
  the wrapped native tokens are what the sub-routes that start with them spend.
\<close>

record SwapFromRouteParams =
  sfr_route :: TradeRoute
  sfr_slippage :: percentage
  sfr_wallet :: pubkey
  sfr_resolvedAtaAccounts :: "token_account list option"

subsection \<open>Slippage\<close>

definition set_threshold :: "int \<Rightarrow> TradeHop \<Rightarrow> TradeHop" where
  "set_threshold t hop = hop\<lparr>th_quote := (th_quote hop)\<lparr>si_otherAmountThreshold := t\<rparr>\<rparr>"

definition adjustQuoteForSlippage :: "SubTradeRoute \<Rightarrow> percentage \<Rightarrow> SubTradeRoute res" where
  "adjustQuoteForSlippage quote slippage =
     (case str_hopQuotes quote of
        [hop] \<Rightarrow>
          let q = th_quote hop in
          bindE (calculateSwapAmountsFromQuote (si_amount q) (se_estimatedAmountIn q) (se_estimatedAmountOut q) slippage
                   (si_amountSpecifiedIsInput q)) (\<lambda>(amount, otherAmountThreshold).
          Inr (quote\<lparr>str_hopQuotes := [hop\<lparr>th_quote :=
            q\<lparr>si_amount := amount, si_otherAmountThreshold := otherAmountThreshold\<rparr>\<rparr>]\<rparr>))
      | [swapQuoteOne, swapQuoteTwo] \<Rightarrow>
          if si_amountSpecifiedIsInput (th_quote swapQuoteOne) then
            bindE (pu_adjustForSlippage (se_estimatedAmountOut (th_quote swapQuoteTwo)) slippage False) (\<lambda>t.
            Inr (quote\<lparr>str_hopQuotes := [swapQuoteOne, set_threshold t swapQuoteTwo]\<rparr>))
          else
            bindE (pu_adjustForSlippage (se_estimatedAmountIn (th_quote swapQuoteOne)) slippage True) (\<lambda>t.
            Inr (quote\<lparr>str_hopQuotes := [set_threshold t swapQuoteOne, swapQuoteTwo]\<rparr>))
      | _ \<Rightarrow> Inr quote)"

subsection \<open>What a route needs\<close>

record route_needs =
  rn_requiredAtas :: "string list"
  rn_requiredIntermediateAtas :: "string list"
  rn_requiredTickArrays :: "pubkey option list"
  rn_hasNativeMint :: bool
  rn_nativeMintAmount :: int

definition no_needs :: route_needs where
  "no_needs = \<lparr>rn_requiredAtas = [], rn_requiredIntermediateAtas = [], rn_requiredTickArrays = [], rn_hasNativeMint = False,
     rn_nativeMintAmount = 0\<rparr>"

definition addOrNative :: "pubkey \<Rightarrow> string \<times> int \<Rightarrow> route_needs \<Rightarrow> route_needs" where
  "addOrNative native = (\<lambda>(mint, amount) needs.
     if mint = native then needs\<lparr>rn_hasNativeMint := True, rn_nativeMintAmount := rn_nativeMintAmount needs + amount\<rparr>
     else needs\<lparr>rn_requiredAtas := set_add mint (rn_requiredAtas needs)\<rparr>)"

definition quote_arrays :: "NormalSwapQuote \<Rightarrow> pubkey option list" where
  "quote_arrays q = [si_tickArray0 q, si_tickArray1 q, si_tickArray2 q]"

definition fragment_needs :: "pubkey \<Rightarrow> percentage \<Rightarrow> SubTradeRoute \<Rightarrow> route_needs \<Rightarrow> route_needs res" where
  "fragment_needs native slippage routeFragment needs =
     bindE (adjustQuoteForSlippage routeFragment slippage) (\<lambda>slippageAdjustedRoute.
     case str_hopQuotes slippageAdjustedRoute of
       [hop] \<Rightarrow>
         let quote = th_quote hop;
             inputAmount = (if si_amountSpecifiedIsInput quote then si_amount quote else si_otherAmountThreshold quote) in
         Inr (fold (addOrNative native)
           [(th_mintA hop, if si_aToB quote then inputAmount else 0), (th_mintB hop, if \<not> si_aToB quote then inputAmount else 0)]
           (needs\<lparr>rn_requiredTickArrays := rn_requiredTickArrays needs @ quote_arrays quote\<rparr>))
     | [one, two] \<Rightarrow>
         let quoteOne = th_quote one; quoteTwo = th_quote two;
             twoHopQuote = twoHopSwapQuoteFromSwapQuotes quoteOne quoteTwo;
             inputAmount = (if si_amountSpecifiedIsInput quoteOne then se_estimatedAmountIn quoteOne
               else si_otherAmountThreshold quoteOne);
             needs = needs\<lparr>rn_requiredTickArrays := rn_requiredTickArrays needs @
               [thq_tickArrayOne0 twoHopQuote, thq_tickArrayOne1 twoHopQuote, thq_tickArrayOne2 twoHopQuote,
                thq_tickArrayTwo0 twoHopQuote, thq_tickArrayTwo1 twoHopQuote, thq_tickArrayTwo2 twoHopQuote]\<rparr>;
             needs = fold (addOrNative native)
               [(th_mintA one, if si_aToB quoteOne then inputAmount else 0),
                (th_mintB one, if \<not> si_aToB quoteOne then inputAmount else 0), (th_mintA two, 0), (th_mintB two, 0)] needs in
         Inr (needs\<lparr>rn_requiredIntermediateAtas :=
           set_add (if si_aToB quoteOne then th_mintB one else th_mintA one) (rn_requiredIntermediateAtas needs)\<rparr>)
     | _ \<Rightarrow> Inr needs)"

subsection \<open>The token accounts\<close>

definition EMPTY_ATA :: "pubkey \<Rightarrow> ResolvedTokenAddressInstruction" where
  "EMPTY_ATA address = \<lparr>in_instructions = [], in_cleanupInstructions = [], in_signers = [], rta_address = address\<rparr>"

definition non_native_ata ::
    "pubkey \<Rightarrow> pubkey \<Rightarrow> string list \<Rightarrow> string \<Rightarrow> pubkey \<Rightarrow> token_account option \<Rightarrow> ResolvedTokenAddressInstruction res" where
  "non_native_ata ownerAddress payer intermediateTokenMints tokenMint ataAddress tokenAccount =
     (case tokenAccount of
        Some account \<Rightarrow> if tka_owner account \<noteq> ownerAddress then Inl PlainError else Inr (EMPTY_ATA ataAddress)
      | None \<Rightarrow>
          Inr \<lparr>in_instructions = [Package_ix ''createAssociatedTokenAccount'' [payer, ataAddress, ownerAddress, tokenMint]],
               in_cleanupInstructions = (if tokenMint \<in> set intermediateTokenMints
                 then [Package_ix ''closeAccount'' [ataAddress, ownerAddress, ownerAddress]] else []),
               in_signers = [], rta_address = ataAddress\<rparr>)"

text \<open>The mints are distinct; the fetch gives one account for every address, or fewer when addresses repeat.\<close>

definition cachedResolveOrCreateNonNativeATAs ::
    "'c sdk_ctx \<Rightarrow> pubkey \<Rightarrow> string list \<Rightarrow> string list \<Rightarrow> (pubkey list \<Rightarrow> token_account option list) \<Rightarrow>
     (string \<times> ResolvedTokenAddressInstruction) list res" where
  "cachedResolveOrCreateNonNativeATAs ctx ownerAddress tokenMints intermediateTokenMints getTokenAccounts =
     bindE (mapE (\<lambda>tm. te_getAssociatedTokenAddress (cx_env ctx) tm ownerAddress (TOKEN_PROGRAM_ID (cx_spl ctx))) tokenMints)
       (\<lambda>tokenAtas.
     mapE (\<lambda>(tokenAccount, tokenMint, ataAddress).
         bindE (non_native_ata ownerAddress ownerAddress intermediateTokenMints tokenMint ataAddress tokenAccount)
           (\<lambda>resolvedInstruction. Inr (tokenMint, resolvedInstruction)))
       (zip (getTokenAccounts tokenAtas) (zip tokenMints tokenAtas)))"

definition route_token_accounts ::
    "'c sdk_ctx \<Rightarrow> token_account list option \<Rightarrow> pubkey list \<Rightarrow> token_account option list" where
  "route_token_accounts ctx resolvedAtaAccounts keys =
     (case resolvedAtaAccounts of
        Some accounts \<Rightarrow> map (\<lambda>key. List.find (\<lambda>ata. tka_address ata = key) accounts) keys
      | None \<Rightarrow> map (cx_getTokenInfo ctx) (set_spread keys))"

subsection \<open>The instructions\<close>

definition two_hop_input :: "NormalTwoHopSwapQuote \<Rightarrow> TwoHopSwapInput" where
  "two_hop_input q =
     \<lparr>thsi_amount = thq_amount q, thsi_otherAmountThreshold = thq_otherAmountThreshold q,
      thsi_amountSpecifiedIsInput = thq_amountSpecifiedIsInput q, thsi_aToBOne = thq_aToBOne q, thsi_aToBTwo = thq_aToBTwo q,
      thsi_sqrtPriceLimitOne = thq_sqrtPriceLimitOne q, thsi_sqrtPriceLimitTwo = thq_sqrtPriceLimitTwo q,
      thsi_tickArrayOne0 = thq_tickArrayOne0 q, thsi_tickArrayOne1 = thq_tickArrayOne1 q, thsi_tickArrayOne2 = thq_tickArrayOne2 q,
      thsi_tickArrayTwo0 = thq_tickArrayTwo0 q, thsi_tickArrayTwo1 = thq_tickArrayTwo1 q, thsi_tickArrayTwo2 = thq_tickArrayTwo2 q\<rparr>"

definition address_of :: "resolved_atas \<Rightarrow> string \<Rightarrow> pubkey res" where
  "address_of atas mint = (case atas mint of None \<Rightarrow> Inl TypeError | Some ata \<Rightarrow> Inr (rta_address ata))"

text \<open>The instruction of a sub-route whose slippage is adjusted; none unless it has one or two hops.\<close>

definition fragment_ix :: "'c sdk_ctx \<Rightarrow> pubkey \<Rightarrow> resolved_atas \<Rightarrow> SubTradeRoute \<Rightarrow> Instruction list res" where
  "fragment_ix ctx wallet atas routeFragment =
     (let program = cx_program ctx;
          oracle = (\<lambda>wp. publicKey (getOracle (pg_findProgramAddress program) (pg_programId program) wp)) in
      case str_hopQuotes routeFragment of
        [hop] \<Rightarrow>
          bindE (address_of atas (th_mintA hop)) (\<lambda>accA.
          bindE (address_of atas (th_mintB hop)) (\<lambda>accB.
          Inr [swapIx program
            \<lparr>sp_input = SwapInput.truncate (th_quote hop), sp_whirlpool = th_whirlpool hop, sp_tokenOwnerAccountA = accA,
             sp_tokenOwnerAccountB = accB, sp_tokenVaultA = th_vaultA hop, sp_tokenVaultB = th_vaultB hop,
             sp_oracle = oracle (th_whirlpool hop), sp_tokenAuthority = wallet\<rparr>]))
      | [one, two] \<Rightarrow>
          bindE (address_of atas (th_mintA one)) (\<lambda>tokenOwnerAccountOneA.
          bindE (address_of atas (th_mintB one)) (\<lambda>tokenOwnerAccountOneB.
          bindE (address_of atas (th_mintA two)) (\<lambda>tokenOwnerAccountTwoA.
          bindE (address_of atas (th_mintB two)) (\<lambda>tokenOwnerAccountTwoB.
          Inr [twoHopSwapIx program
            \<lparr>ths_input = two_hop_input (twoHopSwapQuoteFromSwapQuotes (th_quote one) (th_quote two)),
             ths_whirlpoolOne = th_whirlpool one, ths_whirlpoolTwo = th_whirlpool two,
             ths_tokenOwnerAccountOneA = tokenOwnerAccountOneA, ths_tokenOwnerAccountOneB = tokenOwnerAccountOneB,
             ths_tokenOwnerAccountTwoA = tokenOwnerAccountTwoA, ths_tokenOwnerAccountTwoB = tokenOwnerAccountTwoB,
             ths_tokenVaultOneA = th_vaultA one, ths_tokenVaultOneB = th_vaultB one,
             ths_tokenVaultTwoA = th_vaultA two, ths_tokenVaultTwoB = th_vaultB two,
             ths_oracleOne = oracle (th_whirlpool one), ths_oracleTwo = oracle (th_whirlpool two),
             ths_tokenAuthority = wallet\<rparr>]))))
      | _ \<Rightarrow> Inr [])"

text \<open>An array that a quote does not have cannot be fetched.\<close>

definition given_addresses :: "pubkey option list \<Rightarrow> pubkey list res" where
  "given_addresses = mapE (\<lambda>a. case a of Some k \<Rightarrow> Inr k | None \<Rightarrow> Inl TypeError)"

definition getSwapFromRoute :: "'c sdk_ctx \<Rightarrow> SwapFromRouteParams \<Rightarrow> Instruction list \<Rightarrow> Instruction list res" where
  "getSwapFromRoute ctx params txBuilder =
     (let env = cx_env ctx; native = te_NATIVE_MINT env; subRoutes = trr_subRoutes (sfr_route params);
          slippage = sfr_slippage params; wallet = sfr_wallet params in
      bindE (foldE (fragment_needs native slippage) subRoutes no_needs) (\<lambda>needs.
      bindE (given_addresses (rn_requiredTickArrays needs)) (\<lambda>requiredTickArrays.
      case getUninitializedArraysString (cx_getTickArrays ctx) requiredTickArrays of
        Some uninitializedArrays \<Rightarrow> Inl PlainError
      | None \<Rightarrow>
          bindE (cachedResolveOrCreateNonNativeATAs ctx wallet (filter (\<lambda>m. m \<noteq> native) (rn_requiredAtas needs))
                   (rn_requiredIntermediateAtas needs) (route_token_accounts ctx (sfr_resolvedAtaAccounts params)))
            (\<lambda>ataInstructions.
          let ataIxes = map (\<lambda>ata. Instruction.truncate (snd ata)) ataInstructions;
              solIx = te_createWrappedNativeAccount env 0 wallet (rn_nativeMintAmount needs) None None;
              (txBuilder, ataInstructionMap) =
                (if rn_hasNativeMint needs
                 then (txBuilder @ [Instruction.truncate solIx], (map_of ataInstructions)(native \<mapsto> solIx))
                 else (txBuilder, map_of ataInstructions)) in
          bindE (mapE (\<lambda>quote. adjustQuoteForSlippage quote slippage) subRoutes) (\<lambda>slippageAdjustedQuotes.
          bindE (mapE (fragment_ix ctx wallet ataInstructionMap) slippageAdjustedQuotes) (\<lambda>swapIxs.
          Inr (txBuilder @ ataIxes @ concat swapIxs)))))))"

definition wr_swap :: "'c sdk_ctx \<Rightarrow> TradeRoute \<Rightarrow> percentage \<Rightarrow> token_account list option \<Rightarrow> Instruction list res" where
  "wr_swap ctx trade slippage resolvedAtas =
     getSwapFromRoute ctx \<lparr>sfr_route = trade, sfr_slippage = slippage, sfr_wallet = wallet_key ctx,
       sfr_resolvedAtaAccounts = resolvedAtas\<rparr> []"

subsection \<open>Selecting a route\<close>

text \<open>The \<^verbatim>\<open>maxSupportedTransactionVersion\<close> is \<^verbatim>\<open>"legacy"\<close> or a number; the callback adds instructions to the transaction.\<close>

datatype tx_version = Legacy | Version int

record RouteSelectOptions =
  rso_maxSupportedTransactionVersion :: tx_version
  rso_maxTransactionSize :: int
  rso_availableAtaAccounts :: "token_account list option"
  rso_onRouteEvaluation :: "(TradeRoute \<Rightarrow> Instruction list \<Rightarrow> Instruction list) option"

definition getDefaultSelectOptions :: "int \<Rightarrow> RouteSelectOptions" where
  "getDefaultSelectOptions TX_SIZE_LIMIT =
     \<lparr>rso_maxSupportedTransactionVersion = Version 0, rso_maxTransactionSize = TX_SIZE_LIMIT,
      rso_availableAtaAccounts = None, rso_onRouteEvaluation = None\<rparr>"

definition MEASURE_ROUTE_MAX :: nat where "MEASURE_ROUTE_MAX = 100"
definition MAX_LOOKUP_TABLE_FETCH_SIZE :: nat where "MAX_LOOKUP_TABLE_FETCH_SIZE = 50"

definition getTouchedTickArraysFromRoute :: "TradeRoute \<Rightarrow> pubkey list res" where
  "getTouchedTickArraysFromRoute route =
     foldE (\<lambda>hop taAddresses.
        case (si_tickArray0 (th_quote hop), si_tickArray1 (th_quote hop), si_tickArray2 (th_quote hop)) of
          (Some t0, Some t1, Some t2) \<Rightarrow> Inr (set_add t2 (set_add t1 (set_add t0 taAddresses)))
        | _ \<Rightarrow> Inl TypeError)
       (concat (map str_hopQuotes (trr_subRoutes route))) []"

text \<open>
  \<open>legacy_size\<close> and \<open>v0_size\<close> measure a transaction, \<open>None\<close> when the size is \<^verbatim>\<open>undefined\<close> or
  measuring it throws; \<open>lookup\<close> is the fetcher of lookup tables, when there is one.
\<close>

definition measured_tx :: "'c sdk_ctx \<Rightarrow> RouteSelectOptions \<Rightarrow> TradeRoute \<Rightarrow> Instruction list res" where
  "measured_tx ctx opts route =
     bindE (getSwapFromRoute ctx
       \<lparr>sfr_route = route, sfr_slippage = \<lparr>numerator = 0, denominator = 100\<rparr>, sfr_wallet = wallet_key ctx,
        sfr_resolvedAtaAccounts = rso_availableAtaAccounts opts\<rparr> []) (\<lambda>tx.
     Inr (case rso_onRouteEvaluation opts of None \<Rightarrow> tx | Some onRouteEvaluation \<Rightarrow> onRouteEvaluation route tx))"

fun select_route ::
    "'c sdk_ctx \<Rightarrow> (Instruction list \<Rightarrow> int option) \<Rightarrow> (Instruction list \<Rightarrow> 'l \<Rightarrow> int option) \<Rightarrow> (pubkey list \<Rightarrow> 'l) option \<Rightarrow>
     RouteSelectOptions \<Rightarrow> TradeRoute list \<Rightarrow> (TradeRoute \<times> 'l option) option res" where
  "select_route ctx legacy_size v0_size lookup opts [] = Inr None"
| "select_route ctx legacy_size v0_size lookup opts (route # routes) =
     (let fits = (\<lambda>bytes. case bytes of None \<Rightarrow> False | Some n \<Rightarrow> n \<le> rso_maxTransactionSize opts);
          continue_loop = select_route ctx legacy_size v0_size lookup opts routes in
      bindE (measured_tx ctx opts route) (\<lambda>tx.
      if fits (legacy_size tx) then Inr (Some (route, None))
      else if rso_maxSupportedTransactionVersion opts = Legacy then continue_loop
      else case lookup of
          None \<Rightarrow> continue_loop
        | Some tables \<Rightarrow>
            bindE (getTouchedTickArraysFromRoute route) (\<lambda>addressesToLookup.
            if length addressesToLookup > MAX_LOOKUP_TABLE_FETCH_SIZE then continue_loop
            else
              let lookupTableAccounts = tables addressesToLookup in
              if fits (v0_size tx lookupTableAccounts) then Inr (Some (route, Some lookupTableAccounts))
              else continue_loop)))"

text \<open>The pages in which the lookup tables of the first routes are loaded.\<close>

fun pages :: "nat \<Rightarrow> 'a list \<Rightarrow> 'a list list" where
  "pages n xs = (if xs = [] \<or> n = 0 then [] else take n xs # pages n (drop n xs))"

declare pages.simps [simp del]

definition loadLookupTablesForRoutes :: "TradeRoute list \<Rightarrow> pubkey list list res" where
  "loadLookupTablesForRoutes routes =
     bindE (foldE (\<lambda>route altTicks.
        bindE (getTouchedTickArraysFromRoute route) (\<lambda>tas. Inr (set_add_all tas altTicks)))
       (take MEASURE_ROUTE_MAX routes) []) (\<lambda>altTickArray. Inr (pages 45 altTickArray))"

definition selectFirstExecutableRoute ::
    "'c sdk_ctx \<Rightarrow> bool \<Rightarrow> (Instruction list \<Rightarrow> int option) \<Rightarrow> (Instruction list \<Rightarrow> 'l \<Rightarrow> int option) \<Rightarrow>
     (pubkey list \<Rightarrow> 'l) option \<Rightarrow> RouteSelectOptions \<Rightarrow> TradeRoute list \<Rightarrow> (TradeRoute \<times> 'l option) option res" where
  "selectFirstExecutableRoute ctx walletConnected legacy_size v0_size lookup opts orderedRoutes =
     (if length orderedRoutes = 0 then Inr None
      else if \<not> walletConnected then Inr (Some (hd orderedRoutes, None))
      else
        bindE (if rso_maxSupportedTransactionVersion opts \<noteq> Legacy \<and> lookup \<noteq> None
               then loadLookupTablesForRoutes orderedRoutes else Inr []) (\<lambda>_.
        select_route ctx legacy_size v0_size lookup opts (take MEASURE_ROUTE_MAX orderedRoutes)))"

definition findBestRoute ::
    "'c sdk_ctx \<Rightarrow> fetcher_pools \<Rightarrow> AdjacencyListPoolGraph \<Rightarrow> bool \<Rightarrow> (Instruction list \<Rightarrow> int option) \<Rightarrow>
     (Instruction list \<Rightarrow> 'l \<Rightarrow> int option) \<Rightarrow> (pubkey list \<Rightarrow> 'l) option \<Rightarrow> RouteSelectOptions \<Rightarrow> Trade \<Rightarrow>
     PartialRoutingOptions option \<Rightarrow> (TradeRoute \<times> 'l option) option res" where
  "findBestRoute ctx fetcher poolGraph walletConnected legacy_size v0_size lookup selectOpts trade routingOpts =
     bindE (findAllRoutes (cx_mu ctx) (cx_spl ctx) (pg_findProgramAddress (cx_program ctx)) fetcher
              (pg_programId (cx_program ctx)) poolGraph trade routingOpts) (\<lambda>allRoutes.
     selectFirstExecutableRoute ctx walletConnected legacy_size v0_size lookup selectOpts allRoutes)"

subsection \<open>What a route becomes\<close>

text \<open>
  The two ends of a sub-route: the amount the trade fixed, and the other amount moved by the
  slippage. \<open>fragment_spends\<close> is what a sub-route may take of its input token.
\<close>

definition fragment_exact_in :: "SubTradeRoute \<Rightarrow> bool" where
  "fragment_exact_in fr \<longleftrightarrow> si_amountSpecifiedIsInput (th_quote (hd (str_hopQuotes fr)))"

definition fragment_amount :: "SubTradeRoute \<Rightarrow> int" where
  "fragment_amount fr =
     si_amount (th_quote (if fragment_exact_in fr then hd (str_hopQuotes fr) else last (str_hopQuotes fr)))"

definition fragment_threshold :: "percentage \<Rightarrow> SubTradeRoute \<Rightarrow> int res" where
  "fragment_threshold slippage fr =
     (if fragment_exact_in fr then adjustForSlippage (se_estimatedAmountOut (th_quote (last (str_hopQuotes fr)))) slippage False
      else adjustForSlippage (se_estimatedAmountIn (th_quote (hd (str_hopQuotes fr)))) slippage True)"

definition fragment_spends :: "SubTradeRoute \<Rightarrow> int \<Rightarrow> int" where
  "fragment_spends fr threshold =
     (if \<not> fragment_exact_in fr then threshold
      else if length (str_hopQuotes fr) = 1 then fragment_amount fr
      else se_estimatedAmountIn (th_quote (hd (str_hopQuotes fr))))"

definition hop_in :: "TradeHop \<Rightarrow> pubkey" where
  "hop_in hop = (if si_aToB (th_quote hop) then th_mintA hop else th_mintB hop)"

definition native_spent :: "pubkey \<Rightarrow> percentage \<Rightarrow> SubTradeRoute \<Rightarrow> int" where
  "native_spent native slippage fr =
     (case fragment_threshold slippage fr of
        Inl e \<Rightarrow> 0
      | Inr t \<Rightarrow> if hop_in (hd (str_hopQuotes fr)) = native then fragment_spends fr t else 0)"

definition fragment_arrays :: "SubTradeRoute \<Rightarrow> pubkey option list" where
  "fragment_arrays fr = concat (map (\<lambda>hop. quote_arrays (th_quote hop)) (str_hopQuotes fr))"

definition fragment_mints :: "SubTradeRoute \<Rightarrow> string set" where
  "fragment_mints fr = (\<Union>hop \<in> set (str_hopQuotes fr). {th_mintA hop, th_mintB hop})"

text \<open>The instruction of a sub-route, read back: amounts, directions, and the accounts hop by hop.\<close>

definition swaps_fragment :: "pubkey \<Rightarrow> resolved_atas \<Rightarrow> percentage \<Rightarrow> SubTradeRoute \<Rightarrow> Instruction \<Rightarrow> bool" where
  "swaps_fragment wallet atas slippage fr ix \<longleftrightarrow>
     (let hops = str_hopQuotes fr; one_hop = (length hops = 1); owner = (\<lambda>mint. rta_address (the (atas mint))) in
      ix_called ix = Some (if one_hop then ''swap'' else ''twoHopSwap'') \<and>
      (\<exists>t. fragment_threshold slippage fr = Inr t \<and> take 2 (ix_args ix) = [V_int (fragment_amount fr), V_int t]) \<and>
      (if one_hop then drop 3 (ix_args ix) else take 3 (drop 2 (ix_args ix))) =
        V_bool (fragment_exact_in fr) # map (\<lambda>hop. V_bool (si_aToB (th_quote hop))) hops \<and>
      map (ix_account ix)
        (if one_hop then [''whirlpool'', ''tokenOwnerAccountA'', ''tokenOwnerAccountB'', ''tokenVaultA'', ''tokenVaultB'']
         else [''whirlpoolOne'', ''tokenOwnerAccountOneA'', ''tokenOwnerAccountOneB'', ''tokenVaultOneA'', ''tokenVaultOneB'',
           ''whirlpoolTwo'', ''tokenOwnerAccountTwoA'', ''tokenOwnerAccountTwoB'', ''tokenVaultTwoA'', ''tokenVaultTwoB'']) =
        map Some (concat (map (\<lambda>hop. [th_whirlpool hop, owner (th_mintA hop), owner (th_mintB hop), th_vaultA hop,
          th_vaultB hop]) hops)) \<and>
      ix_account ix ''tokenAuthority'' = Some wallet)"

lemma pu_adjust: "pu_adjustForSlippage = adjustForSlippage"
  by (intro ext) (simp add: pu_adjustForSlippage_def adjustForSlippage_def)

lemmas fragment_defs = fragment_threshold_def fragment_amount_def fragment_exact_in_def fragment_spends_def
  fragment_arrays_def fragment_mints_def hop_in_def

lemma one_or_two: "length xs \<in> {1, 2} \<Longrightarrow> (\<exists>x. xs = [x]) \<or> (\<exists>x y. xs = [x, y])"
  by (auto simp: length_Suc_conv numeral_2_eq_2)

text \<open>Adjusting sets the threshold of the last hop, or of the first when the output is fixed.\<close>

lemma adjust_one:
  assumes "str_hopQuotes fr = [hop]"
  shows "adjustQuoteForSlippage fr slippage =
    bindE (fragment_threshold slippage fr) (\<lambda>t. Inr (fr\<lparr>str_hopQuotes := [set_threshold t hop]\<rparr>))"
  using assms by (cases "th_quote hop")
    (simp add: adjustQuoteForSlippage_def calculateSwapAmountsFromQuote_def fragment_defs set_threshold_def Let_def bindE_assoc)

lemma adjust_two:
  assumes "str_hopQuotes fr = [one, two]"
  shows "adjustQuoteForSlippage fr slippage =
    bindE (fragment_threshold slippage fr) (\<lambda>t. Inr (fr\<lparr>str_hopQuotes :=
      (if fragment_exact_in fr then [one, set_threshold t two] else [set_threshold t one, two])\<rparr>))"
  using assms by (simp add: adjustQuoteForSlippage_def fragment_defs pu_adjust)

lemma set_threshold_sel [simp]:
  "th_mintA (set_threshold t hop) = th_mintA hop" "th_mintB (set_threshold t hop) = th_mintB hop"
  "th_vaultA (set_threshold t hop) = th_vaultA hop" "th_vaultB (set_threshold t hop) = th_vaultB hop"
  "th_whirlpool (set_threshold t hop) = th_whirlpool hop"
  "th_quote (set_threshold t hop) = (th_quote hop)\<lparr>si_otherAmountThreshold := t\<rparr>"
  by (simp_all add: set_threshold_def)

lemma quote_arrays_threshold [simp]: "quote_arrays (q\<lparr>si_otherAmountThreshold := t\<rparr>) = quote_arrays q"
  by (simp add: quote_arrays_def)

lemma addOrNative_sel [simp]:
  "rn_requiredTickArrays (addOrNative native ma needs) = rn_requiredTickArrays needs"
  "rn_nativeMintAmount (addOrNative native ma needs) =
     rn_nativeMintAmount needs + (if fst ma = native then snd ma else 0)"
  by (auto simp: addOrNative_def split: prod.split)

lemma fragment_needs_facts:
  assumes "fragment_needs native slippage fr needs = Inr needs'" "length (str_hopQuotes fr) \<in> {1, 2}"
  shows "rn_requiredTickArrays needs' = rn_requiredTickArrays needs @ fragment_arrays fr"
    and "rn_nativeMintAmount needs' = rn_nativeMintAmount needs + native_spent native slippage fr"
proof -
  have "rn_requiredTickArrays needs' = rn_requiredTickArrays needs @ fragment_arrays fr \<and>
    rn_nativeMintAmount needs' = rn_nativeMintAmount needs + native_spent native slippage fr"
    using one_or_two [OF assms(2)]
  proof (elim disjE exE)
    fix hop assume hop: "str_hopQuotes fr = [hop]"
    with assms(1) obtain t where t: "fragment_threshold slippage fr = Inr t"
      by (auto simp: fragment_needs_def adjust_one bindE_eq_Inr)
    with assms(1) hop show ?thesis
      by (simp add: fragment_needs_def adjust_one Let_def native_spent_def t)
        (auto simp: fragment_defs hop quote_arrays_def)
  next
    fix one two assume hops: "str_hopQuotes fr = [one, two]"
    with assms(1) obtain t where t: "fragment_threshold slippage fr = Inr t"
      by (auto simp: fragment_needs_def adjust_two bindE_eq_Inr)
    with assms(1) hops show ?thesis
      by (cases "fragment_exact_in fr"; simp add: fragment_needs_def adjust_two Let_def native_spent_def t)
        (auto simp: fragment_defs hops quote_arrays_def twoHopSwapQuoteFromSwapQuotes_def)
  qed
  then show "rn_requiredTickArrays needs' = rn_requiredTickArrays needs @ fragment_arrays fr"
    "rn_nativeMintAmount needs' = rn_nativeMintAmount needs + native_spent native slippage fr" by simp_all
qed

lemma route_needs_facts:
  assumes "foldE (fragment_needs native slippage) frs needs = Inr needs'" "\<forall>fr \<in> set frs. length (str_hopQuotes fr) \<in> {1, 2}"
  shows "rn_requiredTickArrays needs' = rn_requiredTickArrays needs @ concat (map fragment_arrays frs) \<and>
    rn_nativeMintAmount needs' = rn_nativeMintAmount needs + sum_list (map (native_spent native slippage) frs)"
  using assms
proof (induction frs arbitrary: needs)
  case (Cons fr frs)
  then obtain mid where "fragment_needs native slippage fr needs = Inr mid" "foldE (fragment_needs native slippage) frs mid = Inr needs'"
    by (auto simp: bindE_eq_Inr)
  with Cons.IH [of mid] fragment_needs_facts [of native slippage fr needs mid] Cons.prems show ?case by simp
qed simp

lemma address_of_Inr [simp]: "address_of atas mint = Inr a \<longleftrightarrow> (\<exists>ata. atas mint = Some ata \<and> a = rta_address ata)"
  by (auto simp: address_of_def split: option.split)

lemma fragment_ix_reads:
  assumes "adjustQuoteForSlippage fr slippage = Inr adjusted" "fragment_ix ctx wallet atas adjusted = Inr ixs"
    and "length (str_hopQuotes fr) \<in> {1, 2}"
  shows "\<exists>ix. ixs = [ix] \<and> swaps_fragment wallet atas slippage fr ix \<and> (\<forall>mint \<in> fragment_mints fr. atas mint \<noteq> None)"
  using one_or_two [OF assms(3)]
proof (elim disjE exE)
  fix hop assume hop: "str_hopQuotes fr = [hop]"
  with assms(1) obtain t where t: "fragment_threshold slippage fr = Inr t"
    and adjusted: "adjusted = fr\<lparr>str_hopQuotes := [set_threshold t hop]\<rparr>" by (auto simp: adjust_one bindE_eq_Inr)
  with assms(2) obtain a b where ab: "atas (th_mintA hop) = Some a" "atas (th_mintB hop) = Some b"
    by (auto simp: fragment_ix_def Let_def bindE_eq_Inr)
  with assms(2) adjusted show ?thesis
    by (auto simp: fragment_ix_def Let_def bindE_eq_Inr swaps_fragment_def t hop swapIx_def ix_read ix_args_def SwapInput.defs
        fragment_amount_def fragment_exact_in_def fragment_mints_def)
next
  fix one two assume hops: "str_hopQuotes fr = [one, two]"
  with assms(1) obtain t where t: "fragment_threshold slippage fr = Inr t"
    and adjusted: "adjusted = fr\<lparr>str_hopQuotes :=
      (if fragment_exact_in fr then [one, set_threshold t two] else [set_threshold t one, two])\<rparr>"
    by (auto simp: adjust_two bindE_eq_Inr)
  from assms(2) adjusted obtain a b c d where ab: "atas (th_mintA one) = Some a" "atas (th_mintB one) = Some b"
      "atas (th_mintA two) = Some c" "atas (th_mintB two) = Some d"
    by (auto simp: fragment_ix_def Let_def bindE_eq_Inr split: if_splits)
  with assms(2) adjusted show ?thesis
    by (cases "fragment_exact_in fr")
      (auto simp: fragment_ix_def Let_def bindE_eq_Inr swaps_fragment_def t hops twoHopSwapIx_def ix_read ix_args_def
        two_hop_input_def twoHopSwapQuoteFromSwapQuotes_def fragment_amount_def fragment_exact_in_def fragment_mints_def numeral_eq_Suc)
qed

lemma fragments_read:
  assumes "mapE (\<lambda>fr. adjustQuoteForSlippage fr slippage) frs = Inr adjusted"
    and "mapE (fragment_ix ctx wallet atas) adjusted = Inr ixss" "\<forall>fr \<in> set frs. length (str_hopQuotes fr) \<in> {1, 2}"
  shows "list_all2 (swaps_fragment wallet atas slippage) frs (concat ixss) \<and>
    (\<forall>fr \<in> set frs. \<forall>mint \<in> fragment_mints fr. atas mint \<noteq> None)"
  using assms
proof (induction frs arbitrary: adjusted ixss)
  case (Cons fr frs)
  then obtain adj adjs ixs ixss' where "adjusted = adj # adjs" "ixss = ixs # ixss'"
    "adjustQuoteForSlippage fr slippage = Inr adj" "mapE (\<lambda>fr. adjustQuoteForSlippage fr slippage) frs = Inr adjs"
    "fragment_ix ctx wallet atas adj = Inr ixs" "mapE (fragment_ix ctx wallet atas) adjs = Inr ixss'"
    by (auto simp: bindE_eq_Inr)
  with Cons.IH [of adjs ixss'] fragment_ix_reads [of fr slippage adj ctx wallet atas ixs] Cons.prems(3) show ?case
    by auto
qed simp

lemma given_addresses_Inr: "given_addresses xs = Inr ys \<Longrightarrow> map Some ys = xs"
  by (induction xs arbitrary: ys) (auto simp: given_addresses_def bindE_eq_Inr split: option.splits)

lemma list_all2_keys: "list_all2 (\<lambda>x y. fst y \<in> A) xs ys \<Longrightarrow> fst ` set ys \<subseteq> A"
  by (induction rule: list_all2_induct) auto

lemma resolved_keys:
  assumes "cachedResolveOrCreateNonNativeATAs ctx owner mints intermediates getTokenAccounts = Inr atas"
  shows "fst ` set atas \<subseteq> set mints"
proof -
  from assms obtain tokenAtas where "mapE (\<lambda>(tokenAccount, tokenMint, ataAddress).
         bindE (non_native_ata owner owner intermediates tokenMint ataAddress tokenAccount)
           (\<lambda>resolvedInstruction. Inr (tokenMint, resolvedInstruction)))
       (zip (getTokenAccounts tokenAtas) (zip mints tokenAtas)) = Inr atas"
    by (auto simp: cachedResolveOrCreateNonNativeATAs_def bindE_eq_Inr)
  then show ?thesis
    by (rule list_all2_keys [OF mapE_list_all2]) (auto simp: bindE_eq_Inr dest: set_zip_leftD [OF set_zip_rightD])
qed

text \<open>
  C26: A route becomes one transaction: when every sub-route has one or two hops and the call succeeds, the
  transaction sets up token accounts and then makes one swap or two-hop swap per sub-route, in
  order, with the amount the trade fixed, the other estimate moved by the slippage in favour of the
  caller's protection, the directions of the hops, and the accounts and vaults of every
  hop. Every mint of a hop has an account whose instruction is in the first part; the account of
  the native mint wraps the sum of what the sub-routes that start with it spend; and all tick arrays of the
  quotes are initialized.
\<close>

theorem route_transaction:
  assumes "getSwapFromRoute ctx params [] = Inr tx"
    and "\<forall>fr \<in> set (trr_subRoutes (sfr_route params)). length (str_hopQuotes fr) \<in> {1, 2}"
  shows "\<exists>prep swapIxs atas arrays. tx = prep @ swapIxs \<and>
    list_all2 (swaps_fragment (sfr_wallet params) atas (sfr_slippage params)) (trr_subRoutes (sfr_route params)) swapIxs \<and>
    (\<forall>fr \<in> set (trr_subRoutes (sfr_route params)). \<forall>mint \<in> fragment_mints fr.
       \<exists>ata. atas mint = Some ata \<and> Instruction.truncate ata \<in> set prep) \<and>
    (\<forall>ata. atas (te_NATIVE_MINT (cx_env ctx)) = Some ata \<longrightarrow>
       ata = te_createWrappedNativeAccount (cx_env ctx) 0 (sfr_wallet params)
         (sum_list (map (native_spent (te_NATIVE_MINT (cx_env ctx)) (sfr_slippage params)) (trr_subRoutes (sfr_route params))))
         None None) \<and>
    map Some arrays = concat (map fragment_arrays (trr_subRoutes (sfr_route params))) \<and>
    None \<notin> set (cx_getTickArrays ctx arrays)"
proof -
  let ?env = "cx_env ctx" and ?frs = "trr_subRoutes (sfr_route params)" and ?slip = "sfr_slippage params"
  let ?native = "te_NATIVE_MINT ?env" and ?wallet = "sfr_wallet params"
  from assms(1) obtain needs arrays atas adjusted ixss where
    needs: "foldE (fragment_needs ?native ?slip) ?frs no_needs = Inr needs"
    and arrays: "given_addresses (rn_requiredTickArrays needs) = Inr arrays" "getUninitializedArraysString (cx_getTickArrays ctx) arrays = None"
    and atas: "cachedResolveOrCreateNonNativeATAs ctx ?wallet (filter (\<lambda>m. m \<noteq> ?native) (rn_requiredAtas needs))
      (rn_requiredIntermediateAtas needs) (route_token_accounts ctx (sfr_resolvedAtaAccounts params)) = Inr atas"
    by (auto simp: getSwapFromRoute_def Let_def bindE_eq_Inr split: option.splits)
  let ?sol = "te_createWrappedNativeAccount ?env 0 ?wallet (rn_nativeMintAmount needs) None None"
  let ?atas = "if rn_hasNativeMint needs then (map_of atas)(?native \<mapsto> ?sol) else map_of atas"
  let ?prep = "(if rn_hasNativeMint needs then [Instruction.truncate ?sol] else []) @ map (\<lambda>ata. Instruction.truncate (snd ata)) atas"
  from assms(1) needs arrays atas obtain adjusted ixss where
    adjusted: "mapE (\<lambda>fr. adjustQuoteForSlippage fr ?slip) ?frs = Inr adjusted"
    and ixss: "mapE (fragment_ix ctx ?wallet ?atas) adjusted = Inr ixss" and tx: "tx = ?prep @ concat ixss"
    by (cases "rn_hasNativeMint needs") (auto simp: getSwapFromRoute_def Let_def bindE_eq_Inr)
  have facts: "rn_requiredTickArrays needs = concat (map fragment_arrays ?frs)"
    "rn_nativeMintAmount needs = sum_list (map (native_spent ?native ?slip) ?frs)"
    using route_needs_facts [OF needs assms(2)] by (simp_all add: no_needs_def)
  have "?native \<notin> fst ` set atas" using resolved_keys [OF atas] by auto
  then have native: "ata = te_createWrappedNativeAccount ?env 0 ?wallet (sum_list (map (native_spent ?native ?slip) ?frs)) None None"
    if "?atas ?native = Some ata" for ata
    using that facts(2) by (auto simp: map_of_eq_None_iff [THEN iffD2] split: if_splits)
  have prep: "Instruction.truncate ata \<in> set ?prep" if "?atas mint = Some ata" for mint ata
    using that by (auto split: if_splits dest!: map_of_SomeD intro!: image_eqI [where x = "(mint, ata)"])
  from fragments_read [OF adjusted ixss assms(2)]
  have read: "list_all2 (swaps_fragment ?wallet ?atas ?slip) ?frs (concat ixss)"
    "\<forall>fr \<in> set ?frs. \<forall>mint \<in> fragment_mints fr. \<exists>ata. ?atas mint = Some ata \<and> Instruction.truncate ata \<in> set ?prep"
    using prep by blast+
  show ?thesis
    by (intro exI conjI allI impI, rule tx, rule read(1), rule read(2), erule native,
        rule given_addresses_Inr [OF arrays(1), unfolded facts(1)], rule initialized_arrays [OF arrays(2)])
qed

subsection \<open>Example\<close>

text \<open>Five native tokens for token A through one pool.\<close>

definition native_hop :: TradeHop where
  "native_hop = \<lparr>th_amountIn = 5, th_amountOut = 4, th_whirlpool = ''P'', th_inputMint = ''SOL'', th_outputMint = ''A'',
     th_mintA = ''SOL'', th_mintB = ''A'', th_vaultA = ''vS'', th_vaultB = ''vA'',
     th_quote = \<lparr>si_amount = 5, si_otherAmountThreshold = 4, si_sqrtPriceLimit = 0, si_amountSpecifiedIsInput = True,
       si_aToB = True, si_tickArray0 = Some ''t'', si_tickArray1 = Some ''t'', si_tickArray2 = Some ''t'',
       se_estimatedAmountIn = 5, se_estimatedAmountOut = 4, se_estimatedEndTickIndex = 0, se_estimatedEndSqrtPrice = 0,
       se_estimatedFeeAmount = 0, se_deductingFromEstimatedAmountIn = 0, se_deductedFromEstimatedAmountOut = 0\<rparr>,
     th_snapshot = \<lparr>ths_aToB = True, ths_sqrtPrice = 0, ths_feeRate = \<lparr>numerator = 0, denominator = 1\<rparr>\<rparr>\<rparr>"

definition native_route :: SwapFromRouteParams where
  "native_route = \<lparr>sfr_route = \<lparr>trr_subRoutes = [\<lparr>str_path = \<lparr>path_startTokenMint = ''SOL'', path_endTokenMint = ''A'', path_edges = []\<rparr>,
       str_splitPercent = 100, str_amountIn = 5, str_amountOut = 4, str_hopQuotes = [native_hop]\<rparr>],
       trr_totalAmountIn = 5, trr_totalAmountOut = 4\<rparr>,
     sfr_slippage = \<lparr>numerator = 1, denominator = 1\<rparr>, sfr_wallet = ''me'', sfr_resolvedAtaAccounts = None\<rparr>"

lemma native_route_sel [simp]:
  "sfr_slippage native_route = \<lparr>numerator = 1, denominator = 1\<rparr>" "sfr_wallet native_route = ''me''"
  "sfr_resolvedAtaAccounts native_route = None"
  by (simp_all add: native_route_def)

lemma native_threshold:
  "str_hopQuotes fr = [native_hop] \<Longrightarrow> fragment_threshold \<lparr>numerator = 1, denominator = 1\<rparr> fr = Inr 2"
  by (simp add: fragment_threshold_def fragment_exact_in_def native_hop_def adjustForSlippage_eq)

lemma native_route_run: "\<exists>tx. getSwapFromRoute swap_ctx native_route [] = Inr tx"
proof -
  have "\<exists>fr. trr_subRoutes (sfr_route native_route) = [fr] \<and> str_hopQuotes fr = [native_hop]"
    by (simp add: native_route_def)
  then obtain fr where fr: "trr_subRoutes (sfr_route native_route) = [fr]" "str_hopQuotes fr = [native_hop]" by blast
  have hop: "th_mintA native_hop = ''SOL''" "th_mintB native_hop = ''A''" "si_aToB (th_quote native_hop)"
    "si_amountSpecifiedIsInput (th_quote native_hop)" "quote_arrays (th_quote native_hop) = [Some ''t'', Some ''t'', Some ''t'']"
    by (simp_all add: native_hop_def quote_arrays_def)
  show ?thesis
    by (simp add: getSwapFromRoute_def Let_def fr fragment_needs_def adjust_one native_threshold hop no_needs_def addOrNative_def
        set_add_def given_addresses_def getUninitializedArraysString_def getUninitializedArrays_def
        cachedResolveOrCreateNonNativeATAs_def route_token_accounts_def set_spread_def swap_ctx_def example_ctx_def tx_env_ref_def
        non_native_ata_def fragment_ix_def address_of_def)
qed

theorem route_transaction_witness:
  "\<exists>tx prep ix atas fr. getSwapFromRoute swap_ctx native_route [] = Inr tx \<and> tx = prep @ [ix] \<and>
     trr_subRoutes (sfr_route native_route) = [fr] \<and> fragment_amount fr = 5 \<and>
     swaps_fragment ''me'' atas \<lparr>numerator = 1, denominator = 1\<rparr> fr ix \<and>
     atas ''SOL'' = Some (te_createWrappedNativeAccount (tx_env_ref 10) 0 ''me'' 5 None None)"
proof -
  obtain tx where run: "getSwapFromRoute swap_ctx native_route [] = Inr tx" using native_route_run by blast
  have "\<exists>fr. trr_subRoutes (sfr_route native_route) = [fr] \<and> str_hopQuotes fr = [native_hop]"
    by (simp add: native_route_def)
  then obtain fr where fr: "trr_subRoutes (sfr_route native_route) = [fr]" "str_hopQuotes fr = [native_hop]" by blast
  have spent: "native_spent ''SOL'' \<lparr>numerator = 1, denominator = 1\<rparr> fr = 5" "fragment_amount fr = 5"
    by (simp_all add: native_spent_def native_threshold fr fragment_spends_def fragment_exact_in_def fragment_amount_def hop_in_def)
      (simp_all add: native_hop_def)
  have hops: "\<forall>fr \<in> set (trr_subRoutes (sfr_route native_route)). length (str_hopQuotes fr) \<in> {1, 2}" by (simp add: fr)
  have mint: "''SOL'' \<in> fragment_mints fr" by (simp add: fragment_mints_def fr native_hop_def)
  from route_transaction [OF run hops] spent mint run show ?thesis
    by (auto simp: fr list_all2_Cons1) blast
qed

end
