(* ===== verification/Protocol_Fees.thy ===== *)
theory Protocol_Fees
  imports Collect_All
begin

text \<open>
  Collecting the protocol fees of many pools in one transaction
  (\<^verbatim>\<open>sdk/src/instructions/composites/collect-protocol-fees.ts\<close>). An account that Anchor is not given
  throws. The theorem: every pool is collected once, by its own authority, into accounts
  the transaction sets up, and the transaction fits into a packet.
\<close>

definition collect_protocol_fees_ix ::
    "'c sdk_ctx \<Rightarrow> TokenExtensionContext \<Rightarrow> CollectProtocolFeesParams \<Rightarrow> Instruction res" where
  "collect_protocol_fees_ix ctx ext p =
     (if \<not> isV2IxRequiredPool (cx_spl ctx) ext then Inr (collectProtocolFeesIx (cx_program ctx) p)
      else
        bindE (vault_to_owner ctx ext (cpf_whirlpool p) (cpf_tokenVaultA p) (cpf_tokenOwnerAccountA p)
                 (cpf_tokenVaultB p) (cpf_tokenOwnerAccountB p)) (\<lambda>(hookA, hookB).
        Inr (collectProtocolFeesV2Ix (cx_program ctx)
          \<lparr>cpf2_whirlpoolsConfig = cpf_whirlpoolsConfig p, cpf2_whirlpool = cpf_whirlpool p,
           cpf2_collectProtocolFeesAuthority = cpf_collectProtocolFeesAuthority p,
           cpf2_tokenMintA = mi_address (tec_tokenMintWithProgramA ext),
           cpf2_tokenMintB = mi_address (tec_tokenMintWithProgramB ext),
           cpf2_tokenVaultA = cpf_tokenVaultA p, cpf2_tokenVaultB = cpf_tokenVaultB p,
           cpf2_tokenOwnerAccountA = cpf_tokenOwnerAccountA p, cpf2_tokenOwnerAccountB = cpf_tokenOwnerAccountB p,
           cpf2_tokenTransferHookAccountsA = hookA, cpf2_tokenTransferHookAccountsB = hookB,
           cpf2_tokenProgramA = mi_tokenProgram (tec_tokenMintWithProgramA ext),
           cpf2_tokenProgramB = mi_tokenProgram (tec_tokenMintWithProgramB ext)\<rparr>)))"

text \<open>One turn of the loop over the pools: the builder, the map of accounts and the instructions so far.\<close>

definition protocol_fees_of_pool ::
    "'c sdk_ctx \<Rightarrow> pubkey \<Rightarrow> Instruction list \<times> (string \<rightharpoonup> pubkey) \<times> Instruction list \<Rightarrow>
     (Instruction list \<times> (string \<rightharpoonup> pubkey) \<times> Instruction list) res" where
  "protocol_fees_of_pool ctx addr = (\<lambda>(txBuilder, ataTokenAddresses, instructions).
     let env = cx_env ctx; native = te_NATIVE_MINT env; receiverKey = wallet_key ctx in
     case cx_getPool ctx addr of
       None \<Rightarrow> Inl PlainError
     | Some pool \<Rightarrow>
         case cx_getConfig ctx (wp_whirlpoolsConfig pool) of
           None \<Rightarrow> Inl PlainError
         | Some poolConfig \<Rightarrow>
             if wc_collectProtocolFeesAuthority poolConfig \<noteq> wallet_key ctx then Inl PlainError
             else
               let poolHandlesNativeMint = (wp_tokenMintA pool = native \<or> wp_tokenMintB pool = native);
                   txBuilderHasNativeMint = (ataTokenAddresses native \<noteq> None);
                   (txBuilder, ataTokenAddresses) =
                     (if poolHandlesNativeMint \<and> \<not> txBuilderHasNativeMint
                      then addNativeMintHandlingIx env 0 txBuilder ataTokenAddresses receiverKey
                      else (txBuilder, ataTokenAddresses)) in
               bindE (cx_extensionContext ctx pool) (\<lambda>tokenExtensionCtx.
               case (ataTokenAddresses (wp_tokenMintA pool), ataTokenAddresses (wp_tokenMintB pool)) of
                 (Some accountA, Some accountB) \<Rightarrow>
                   bindE (collect_protocol_fees_ix ctx tokenExtensionCtx
                     \<lparr>cpf_whirlpoolsConfig = wp_whirlpoolsConfig pool, cpf_whirlpool = addr,
                      cpf_tokenVaultA = wp_tokenVaultA pool, cpf_tokenVaultB = wp_tokenVaultB pool,
                      cpf_tokenOwnerAccountA = accountA, cpf_tokenOwnerAccountB = accountB,
                      cpf_collectProtocolFeesAuthority = wc_collectProtocolFeesAuthority poolConfig\<rparr>) (\<lambda>ix.
                   Inr (txBuilder, ataTokenAddresses, instructions @ [ix]))
               | _ \<Rightarrow> Inl PlainError))"

definition protocol_fee_accounts :: "'c sdk_ctx \<Rightarrow> pubkey list \<Rightarrow> ResolvedATAInstructionSet res" where
  "protocol_fee_accounts ctx poolAddresses =
     (let env = cx_env ctx;
          whirlpoolDatas = map snd (cx_getPools ctx poolAddresses);
          mints = wtm_mintMap (getTokenMintsFromWhirlpools (te_NATIVE_MINT env) whirlpoolDatas PoolOnly) in
      resolveAtaForMints env mints (Some (wallet_key ctx)) (Some (wallet_key ctx)))"

definition collectProtocolFees :: "'c sdk_ctx \<Rightarrow> pubkey list \<Rightarrow> Instruction list res" where
  "collectProtocolFees ctx poolAddresses =
     bindE (protocol_fee_accounts ctx poolAddresses) (\<lambda>resolved.
     bindE (foldE (protocol_fees_of_pool ctx) poolAddresses (ras_resolveAtaIxs resolved, ras_ataTokenAddresses resolved, []))
       (\<lambda>(txBuilder, ataTokenAddresses, instructions).
     let txBuilder = txBuilder @ instructions in
     case te_txnSize (cx_env ctx) txBuilder of
       None \<Rightarrow> Inl PlainError
     | Some txSize \<Rightarrow> if txSize > te_PACKET_DATA_SIZE (cx_env ctx) then Inl PlainError else Inr txBuilder))"

subsection \<open>What is collected\<close>

text \<open>The instruction of one pool: its authority is the wallet, and the tokens go to these accounts.\<close>

definition collects_protocol_fees :: "'c sdk_ctx \<Rightarrow> (string \<rightharpoonup> pubkey) \<Rightarrow> pubkey \<Rightarrow> Instruction \<Rightarrow> bool" where
  "collects_protocol_fees ctx atas addr ix \<longleftrightarrow>
     (\<exists>pool config accountA accountB. cx_getPool ctx addr = Some pool \<and>
        cx_getConfig ctx (wp_whirlpoolsConfig pool) = Some config \<and>
        wc_collectProtocolFeesAuthority config = wallet_key ctx \<and>
        atas (wp_tokenMintA pool) = Some accountA \<and> atas (wp_tokenMintB pool) = Some accountB \<and>
        ix_called ix \<in> {Some ''collectProtocolFees'', Some ''collectProtocolFeesV2''} \<and>
        map (ix_account ix) [''whirlpoolsConfig'', ''whirlpool'', ''collectProtocolFeesAuthority'', ''tokenVaultA'', ''tokenVaultB'',
          ''tokenDestinationA'', ''tokenDestinationB''] =
        map Some [wp_whirlpoolsConfig pool, addr, wallet_key ctx, wp_tokenVaultA pool, wp_tokenVaultB pool,
          accountA, accountB])"

lemma collect_protocol_fees_ix_reads:
  assumes "collect_protocol_fees_ix ctx ext p = Inr ix"
  shows "ix_called ix \<in> {Some ''collectProtocolFees'', Some ''collectProtocolFeesV2''}"
    and "map (ix_account ix) [''whirlpoolsConfig'', ''whirlpool'', ''collectProtocolFeesAuthority'', ''tokenVaultA'', ''tokenVaultB'',
        ''tokenDestinationA'', ''tokenDestinationB''] =
      map (\<lambda>f. Some (f p)) [cpf_whirlpoolsConfig, cpf_whirlpool, cpf_collectProtocolFeesAuthority, cpf_tokenVaultA,
        cpf_tokenVaultB, cpf_tokenOwnerAccountA, cpf_tokenOwnerAccountB]"
  using assms
  by (auto simp: collect_protocol_fees_ix_def bindE_eq_Inr collectProtocolFeesIx_def collectProtocolFeesV2Ix_def ix_read
      Let_def case_prod_beta split: if_splits)

text \<open>Setting up the native account: at most once, in front, and only when it was missing.\<close>

definition native_added ::
    "'c sdk_ctx \<Rightarrow> Instruction list \<times> (string \<rightharpoonup> pubkey) \<Rightarrow> Instruction list \<times> (string \<rightharpoonup> pubkey) \<Rightarrow> bool" where
  "native_added ctx before later \<longleftrightarrow>
     later = before \<or>
     snd before (te_NATIVE_MINT (cx_env ctx)) = None \<and>
     later = addNativeMintHandlingIx (cx_env ctx) 0 (fst before) (snd before) (wallet_key ctx)"

lemma native_added_mono: "native_added ctx before later \<Longrightarrow> snd before m = Some a \<Longrightarrow> snd later m = Some a"
  by (auto simp: native_added_def addNativeMintHandlingIx_def Let_def)

lemma native_added_trans:
  "native_added ctx s0 s1 \<Longrightarrow> native_added ctx s1 s2 \<Longrightarrow> native_added ctx s0 s2"
  by (auto simp: native_added_def addNativeMintHandlingIx_def Let_def)

lemma pool_fees_step:
  assumes "protocol_fees_of_pool ctx addr (tb, atas, ixs) = Inr (tb', atas', ixs')"
  shows "native_added ctx (tb, atas) (tb', atas') \<and> (\<exists>ix. ixs' = ixs @ [ix] \<and> collects_protocol_fees ctx atas' addr ix)"
proof -
  obtain pool config where pool: "cx_getPool ctx addr = Some pool" "cx_getConfig ctx (wp_whirlpoolsConfig pool) = Some config"
      "wc_collectProtocolFeesAuthority config = wallet_key ctx"
    using assms by (auto simp: protocol_fees_of_pool_def Let_def split: option.splits if_splits)
  let ?native = "te_NATIVE_MINT (cx_env ctx)"
  define st where "st = (if (wp_tokenMintA pool = ?native \<or> wp_tokenMintB pool = ?native) \<and> atas ?native = None
    then addNativeMintHandlingIx (cx_env ctx) 0 tb atas (wallet_key ctx) else (tb, atas))"
  have added: "native_added ctx (tb, atas) st" by (auto simp: native_added_def st_def)
  obtain tb1 atas1 where st: "st = (tb1, atas1)" by (cases st)
  have run: "bindE (cx_extensionContext ctx pool) (\<lambda>ext.
      case (atas1 (wp_tokenMintA pool), atas1 (wp_tokenMintB pool)) of
        (Some accountA, Some accountB) \<Rightarrow>
          bindE (collect_protocol_fees_ix ctx ext
            \<lparr>cpf_whirlpoolsConfig = wp_whirlpoolsConfig pool, cpf_whirlpool = addr,
             cpf_tokenVaultA = wp_tokenVaultA pool, cpf_tokenVaultB = wp_tokenVaultB pool,
             cpf_tokenOwnerAccountA = accountA, cpf_tokenOwnerAccountB = accountB,
             cpf_collectProtocolFeesAuthority = wc_collectProtocolFeesAuthority config\<rparr>) (\<lambda>ix.
          Inr (tb1, atas1, ixs @ [ix]))
      | _ \<Rightarrow> Inl PlainError) = Inr (tb', atas', ixs')"
    using assms pool st by (simp add: protocol_fees_of_pool_def Let_def st_def)
  then obtain accountA accountB where acc: "atas1 (wp_tokenMintA pool) = Some accountA" "atas1 (wp_tokenMintB pool) = Some accountB"
    by (cases "atas1 (wp_tokenMintA pool)"; cases "atas1 (wp_tokenMintB pool)") (auto simp: bindE_eq_Inr)
  with run obtain ix ext where
    ix: "collect_protocol_fees_ix ctx ext
      \<lparr>cpf_whirlpoolsConfig = wp_whirlpoolsConfig pool, cpf_whirlpool = addr,
       cpf_tokenVaultA = wp_tokenVaultA pool, cpf_tokenVaultB = wp_tokenVaultB pool,
       cpf_tokenOwnerAccountA = accountA, cpf_tokenOwnerAccountB = accountB,
       cpf_collectProtocolFeesAuthority = wc_collectProtocolFeesAuthority config\<rparr> = Inr ix"
    and result: "(tb', atas') = (tb1, atas1)" "ixs' = ixs @ [ix]"
    by (auto simp: bindE_eq_Inr)
  with pool acc collect_protocol_fees_ix_reads [OF ix] have "collects_protocol_fees ctx atas' addr ix"
    by (auto simp: collects_protocol_fees_def)
  with added result st show ?thesis by auto
qed

lemma collects_mono:
  "collects_protocol_fees ctx atas addr ix \<Longrightarrow> (\<And>m a. atas m = Some a \<Longrightarrow> atas' m = Some a) \<Longrightarrow>
   collects_protocol_fees ctx atas' addr ix"
  unfolding collects_protocol_fees_def by blast

lemma pool_fees_loop:
  assumes "foldE (protocol_fees_of_pool ctx) addrs (tb, atas, ixs) = Inr (tb', atas', ixs')"
  shows "native_added ctx (tb, atas) (tb', atas') \<and>
    (\<exists>new. ixs' = ixs @ new \<and> list_all2 (collects_protocol_fees ctx atas') addrs new)"
  using assms
proof (induction addrs arbitrary: tb atas ixs)
  case Nil
  then show ?case by (simp add: native_added_def)
next
  case (Cons addr addrs)
  then obtain tb1 atas1 ixs1 where step: "protocol_fees_of_pool ctx addr (tb, atas, ixs) = Inr (tb1, atas1, ixs1)"
    and rest: "foldE (protocol_fees_of_pool ctx) addrs (tb1, atas1, ixs1) = Inr (tb', atas', ixs')"
    by (auto simp: bindE_eq_Inr)
  from pool_fees_step [OF step] obtain ix where ix: "native_added ctx (tb, atas) (tb1, atas1)" "ixs1 = ixs @ [ix]"
    "collects_protocol_fees ctx atas1 addr ix" by blast
  from Cons.IH [OF rest] obtain new where new: "native_added ctx (tb1, atas1) (tb', atas')" "ixs' = ixs1 @ new"
    "list_all2 (collects_protocol_fees ctx atas') addrs new" by blast
  have "collects_protocol_fees ctx atas' addr ix"
    using native_added_mono [OF new(1)] by (intro collects_mono [OF ix(3)]) simp
  with ix new native_added_trans [OF ix(1) new(1)] show ?case by auto
qed

text \<open>
  C33: Protocol fees are collected completely and only by their authority: when the call succeeds, the
  transaction consists of the accounts of all mints of the pools, of the native account in front of
  them when a pool needs it, and of one instruction for every pool, in order, which takes both tokens from the
  vaults of the pool into these accounts; the wallet is the authority the configuration of every
  pool names, and the transaction fits into a packet.
\<close>

theorem protocol_fees_collected:
  assumes "collectProtocolFees ctx addrs = Inr tx"
  shows "\<exists>resolved prep atas ixs bytes. protocol_fee_accounts ctx addrs = Inr resolved \<and> tx = prep @ ixs \<and>
    native_added ctx (ras_resolveAtaIxs resolved, ras_ataTokenAddresses resolved) (prep, atas) \<and>
    list_all2 (collects_protocol_fees ctx atas) addrs ixs \<and>
    te_txnSize (cx_env ctx) tx = Some bytes \<and> bytes \<le> te_PACKET_DATA_SIZE (cx_env ctx)"
proof -
  from assms obtain resolved prep atas ixs where resolved: "protocol_fee_accounts ctx addrs = Inr resolved"
    and loop: "foldE (protocol_fees_of_pool ctx) addrs (ras_resolveAtaIxs resolved, ras_ataTokenAddresses resolved, []) =
      Inr (prep, atas, ixs)"
    and "\<exists>bytes. te_txnSize (cx_env ctx) tx = Some bytes \<and> bytes \<le> te_PACKET_DATA_SIZE (cx_env ctx)" "tx = prep @ ixs"
    by (auto simp: collectProtocolFees_def bindE_eq_Inr Let_def split: option.splits if_splits)
  with pool_fees_loop [OF loop] show ?thesis by auto
qed

subsection \<open>Example\<close>

definition fees_ctx :: "TransferFee sdk_ctx" where
  "fees_ctx = (example_ctx idle_pool example_position)
     \<lparr>cx_getConfig := (\<lambda>addr. Some \<lparr>wc_feeAuthority = ''f'', wc_collectProtocolFeesAuthority = ''me'',
        wc_rewardEmissionsSuperAuthority = ''r'', wc_defaultFeeRate = 0, wc_defaultProtocolFeeRate = 0\<rparr>)\<rparr>"

lemma fees_ctx_sel [simp]:
  "cx_env fees_ctx = tx_env_ref 10" "cx_getPool fees_ctx addr = Some idle_pool" "cx_spl fees_ctx = spl_token_ref"
  "cx_extensionContext fees_ctx idle_pool = cx_extensionContext (example_ctx idle_pool example_position) idle_pool"
  by (simp_all add: fees_ctx_def cx_extensionContext_def)

lemma fees_example:
  "protocol_fee_accounts fees_ctx [''P''] = Inr \<lparr>ras_ataTokenAddresses = map_of [(''A'', ''Ame''), (''B'', ''Bme'')],
     ras_resolveAtaIxs = [Instruction.truncate (ata_ref ''me'' ''A''), Instruction.truncate (ata_ref ''me'' ''B'')]\<rparr>"
  by (simp add: protocol_fee_accounts_def Let_def cx_getPools_def set_spread_def getTokenMintsFromWhirlpools_def add_pool_mint_def
      set_add_def resolveAtaForMints_def ata_ref_def convertListToMap_def array_get_def Instruction.defs)

lemma fees_example_run: "\<exists>tx. collectProtocolFees fees_ctx [''P''] = Inr tx"
proof -
  have txn: "te_txnSize (tx_env_ref 10) ixs = (if length (concat (map in_instructions ixs)) \<le> 10 then Some 0 else None)"
    "te_PACKET_DATA_SIZE (tx_env_ref 10) = 1232" for ixs
    by (simp_all add: tx_env_ref_def)
  have config: "cx_getConfig fees_ctx addr = Some \<lparr>wc_feeAuthority = ''f'', wc_collectProtocolFeesAuthority = ''me'',
        wc_rewardEmissionsSuperAuthority = ''r'', wc_defaultFeeRate = 0, wc_defaultProtocolFeeRate = 0\<rparr>" for addr
    by (simp add: fees_ctx_def)
  show ?thesis
    by (simp add: collectProtocolFees_def fees_example protocol_fees_of_pool_def config Let_def example_extension_context
        collect_protocol_fees_ix_def isV2IxRequiredPool_def example_mint_def spl_token_ref_def txn collectProtocolFeesIx_def
        ata_ref_def Instruction.defs)
qed

theorem protocol_fees_collected_witness:
  "\<exists>tx prep ix atas. collectProtocolFees fees_ctx [''P''] = Inr tx \<and> tx = prep @ [ix] \<and>
     collects_protocol_fees fees_ctx atas ''P'' ix"
proof -
  obtain tx where run: "collectProtocolFees fees_ctx [''P''] = Inr tx" using fees_example_run by blast
  from protocol_fees_collected [OF run] run show ?thesis by (auto simp: list_all2_Cons1)
qed

end
