(* ===== verification/Client_Impl.thy ===== *)
theory Client_Impl
  imports Whirlpool_Impl Swap_Route Protocol_Fees
begin

text \<open>
  The client (\<^verbatim>\<open>sdk/src/impl/whirlpool-client-impl.ts\<close>): it fetches pools and positions as objects, creates pools and
  forwards to the transactions of several positions or pools. Fetching into the cache, which the
  code does before it reads account by account, has no effect in the model unless it throws. The
  theorems: an object the client returns belongs to the address it was asked for, and a
  new pool is initialized at the price of its tick, with the tick array of this tick.
\<close>

definition wlc_getRouter :: "'c sdk_ctx \<Rightarrow> pubkey list \<Rightarrow> AdjacencyListPoolGraph" where
  "wlc_getRouter ctx poolAddresses = buildPoolGraphWithFetch (cx_getPools ctx) poolAddresses"

subsection \<open>Pools\<close>

definition new_WhirlpoolImpl :: "'c sdk_ctx \<Rightarrow> pubkey \<Rightarrow> WhirlpoolData \<Rightarrow> WhirlpoolImpl res" where
  "new_WhirlpoolImpl ctx addr account =
     bindE (getTokenMintInfos ctx account) (\<lambda>tokenInfos.
     bindE (getTokenVaultAccountInfos ctx account) (\<lambda>vaultInfos.
     bindE (getRewardInfos ctx account) (\<lambda>rewardInfos.
     Inr \<lparr>wi_address = addr, wi_tokenAInfo = fst tokenInfos, wi_tokenBInfo = snd tokenInfos,
          wi_tokenVaultAInfo = fst vaultInfos, wi_tokenVaultBInfo = snd vaultInfos, wi_rewardInfos = rewardInfos,
          wi_data = account\<rparr>)))"

definition wlc_getPool :: "'c sdk_ctx \<Rightarrow> pubkey \<Rightarrow> WhirlpoolImpl res" where
  "wlc_getPool ctx addr =
     (case cx_getPool ctx addr of None \<Rightarrow> Inl PlainError | Some account \<Rightarrow> new_WhirlpoolImpl ctx addr account)"

definition fetched_accounts :: "('k \<times> 'a option) list \<Rightarrow> 'a list" where
  "fetched_accounts entries = concat (map (\<lambda>(k, account). case account of None \<Rightarrow> [] | Some a \<Rightarrow> [a]) entries)"

definition wlc_getPools :: "'c sdk_ctx \<Rightarrow> pubkey list \<Rightarrow> WhirlpoolImpl list res" where
  "wlc_getPools ctx addrs =
     (let accounts = fetched_accounts (cx_getPools ctx addrs) in
      if length accounts \<noteq> length addrs then Inl PlainError
      else mapE (\<lambda>(account, addr). new_WhirlpoolImpl ctx addr account) (zip accounts addrs))"

subsection \<open>Positions\<close>

definition wlc_getPosition :: "'c sdk_ctx \<Rightarrow> pubkey \<Rightarrow> PositionImpl res" where
  "wlc_getPosition ctx addr =
     (case cx_getPosition ctx addr of
        None \<Rightarrow> Inl PlainError
      | Some account \<Rightarrow>
          case cx_getPool ctx (pos_whirlpool account) of
            None \<Rightarrow> Inl PlainError
          | Some whirlAccount \<Rightarrow>
              bindE (getTickArrayDataForPosition ctx account whirlAccount) (\<lambda>arrays.
              case (fetched_nth arrays 0, fetched_nth arrays 1) of
                (Some lowerTickArray, Some upperTickArray) \<Rightarrow>
                  Inr \<lparr>pi_address = addr, pi_data = account, pi_whirlpoolData = whirlAccount,
                       pi_lowerTickArrayData = lowerTickArray, pi_upperTickArrayData = upperTickArray\<rparr>
              | _ \<Rightarrow> Inl PlainError))"

text \<open>The tick arrays that are fetched first; deriving their addresses may throw.\<close>

definition prefetch_position :: "'c sdk_ctx \<Rightarrow> PositionData option \<Rightarrow> pubkey list res" where
  "prefetch_position ctx position =
     (case position of
        None \<Rightarrow> Inr []
      | Some pos \<Rightarrow>
          case cx_getPool ctx (pos_whirlpool pos) of
            None \<Rightarrow> Inr []
          | Some pool \<Rightarrow>
              bindE (position_tick_arrays ctx pos (wp_tickSpacing pool)) (\<lambda>(lowerTickArray, upperTickArray).
              Inr [lowerTickArray, upperTickArray]))"

definition wlc_getPositions :: "'c sdk_ctx \<Rightarrow> pubkey list \<Rightarrow> (string \<rightharpoonup> PositionImpl option) res" where
  "wlc_getPositions ctx addrs =
     bindE (mapE (prefetch_position ctx) (map snd (cx_getPositions ctx addrs))) (\<lambda>tickArrayAddresses.
     Inr (fromEntries (map (\<lambda>pos.
       (pos, case wlc_getPosition ctx pos of Inr position \<Rightarrow> Some position | Inl _ \<Rightarrow> None)) addrs)))"

subsection \<open>Creating a pool\<close>

record created_pool =
  crp_poolKey :: pubkey
  crp_tx :: "Instruction list"

definition init_pool_ix ::
    "'c sdk_ctx \<Rightarrow> TokenExtensionContext \<Rightarrow> pubkey \<Rightarrow> pubkey \<Rightarrow> InitPoolParams \<Rightarrow> Instruction" where
  "init_pool_ix ctx ext tokenBadgeA tokenBadgeB p =
     (if \<not> isV2IxRequiredPool (cx_spl ctx) ext then initializePoolIx (cx_program ctx) p
      else initializePoolV2Ix (cx_program ctx)
        \<lparr>inp2_initSqrtPrice = inp_initSqrtPrice p, inp2_whirlpoolsConfig = inp_whirlpoolsConfig p,
         inp2_whirlpoolPda = inp_whirlpoolPda p, inp2_tokenMintA = inp_tokenMintA p, inp2_tokenMintB = inp_tokenMintB p,
         inp2_tokenBadgeA = tokenBadgeA, inp2_tokenBadgeB = tokenBadgeB,
         inp2_tokenProgramA = mi_tokenProgram (tec_tokenMintWithProgramA ext),
         inp2_tokenProgramB = mi_tokenProgram (tec_tokenMintWithProgramB ext),
         inp2_tokenVaultAKeypair = inp_tokenVaultAKeypair p, inp2_tokenVaultBKeypair = inp_tokenVaultBKeypair p,
         inp2_feeTierKey = inp_feeTierKey p, inp2_tickSpacing = inp_tickSpacing p, inp2_funder = inp_funder p\<rparr>)"

text \<open>\<open>vaultA\<close> and \<open>vaultB\<close> are the key pairs that are drawn; \<open>toBuffer\<close> gives the bytes of a key.\<close>

definition wlc_createPool ::
    "'c sdk_ctx \<Rightarrow> (pubkey \<Rightarrow> int list) \<Rightarrow> Keypair \<Rightarrow> Keypair \<Rightarrow> pubkey \<Rightarrow> pubkey \<Rightarrow> pubkey \<Rightarrow> int \<Rightarrow> int \<Rightarrow> pubkey \<Rightarrow> created_pool res" where
  "wlc_createPool ctx toBuffer vaultA vaultB whirlpoolsConfig tokenMintA tokenMintB tickSpacing initialTick funder =
     (let program = cx_program ctx; fpa = pg_findProgramAddress program; id = pg_programId program in
      if \<not> checkTickInBounds initialTick then Inl InvariantError
      else if \<not> isTickInitializable initialTick tickSpacing then Inl InvariantError
      else if fst (orderMints toBuffer tokenMintA tokenMintB) \<noteq> tokenMintA then Inl InvariantError
      else
        let mintInfos = cx_getMintInfos ctx [tokenMintA, tokenMintB];
            tokenExtensionCtx = (NO_TOKEN_EXTENSION_CONTEXT (cx_spl ctx))
              \<lparr>tec_tokenMintWithProgramA := mintInfos tokenMintA, tec_tokenMintWithProgramB := mintInfos tokenMintB\<rparr> in
        bindE (getFeeTier fpa id whirlpoolsConfig tickSpacing) (\<lambda>feeTierPda.
        let feeTierKey = publicKey feeTierPda; initSqrtPrice = tickIndexToSqrtPriceX64 initialTick in
        bindE (getWhirlpool fpa id whirlpoolsConfig tokenMintA tokenMintB tickSpacing) (\<lambda>whirlpoolPda.
        if cx_getFeeTier ctx feeTierKey = None then Inl InvariantError
        else
          let initPoolIx = init_pool_ix ctx tokenExtensionCtx
                (publicKey (getTokenBadge fpa id whirlpoolsConfig tokenMintA))
                (publicKey (getTokenBadge fpa id whirlpoolsConfig tokenMintB))
                \<lparr>inp_initSqrtPrice = initSqrtPrice, inp_whirlpoolsConfig = whirlpoolsConfig, inp_whirlpoolPda = whirlpoolPda,
                 inp_tokenMintA = tokenMintA, inp_tokenMintB = tokenMintB, inp_tokenVaultAKeypair = vaultA,
                 inp_tokenVaultBKeypair = vaultB, inp_feeTierKey = feeTierKey, inp_tickSpacing = tickSpacing,
                 inp_funder = funder\<rparr> in
          bindE (getStartTickIndex initialTick tickSpacing 0) (\<lambda>initialTickArrayStartTick.
          let initialTickArrayPda = getTickArray fpa id (publicKey whirlpoolPda) initialTickArrayStartTick in
          Inr \<lparr>crp_poolKey = publicKey whirlpoolPda,
               crp_tx = [initPoolIx, initTickArrayIx program
                 \<lparr>ita_whirlpool = publicKey whirlpoolPda, ita_tickArrayPda = initialTickArrayPda,
                  ita_startTick = initialTickArrayStartTick, ita_funder = funder\<rparr>]\<rparr>))))"

subsection \<open>Many positions and pools\<close>

definition wlc_collectFeesAndRewardsForPositions :: "'c sdk_ctx \<Rightarrow> pubkey list \<Rightarrow> Instruction list list res" where
  "wlc_collectFeesAndRewardsForPositions ctx addrs =
     (let walletKey = wallet_key ctx in
      collectAllForPositionAddressesTxns ctx
        \<lparr>cap_receiver = Some walletKey, cap_positionOwner = Some walletKey, cap_positionAuthority = Some walletKey,
         cap_payer = Some walletKey, cap_positionAddrs = addrs\<rparr>)"

definition wlc_collectProtocolFeesForPools :: "'c sdk_ctx \<Rightarrow> pubkey list \<Rightarrow> Instruction list res" where
  "wlc_collectProtocolFeesForPools ctx addrs = collectProtocolFees ctx addrs"

subsection \<open>What the client returns\<close>

lemma set_spread_length: "length (set_spread xs) \<le> length xs" "length (set_spread xs) = length xs \<longleftrightarrow> distinct xs"
  unfolding set_spread_def length_rev
  using length_remdups_leq [of "rev xs"] length_remdups_eq [of "rev xs"] by simp_all

lemma set_spread_distinct: "distinct xs \<Longrightarrow> set_spread xs = xs"
  by (simp add: set_spread_def distinct_remdups_id)

lemma fetched_accounts_length: "length (fetched_accounts entries) \<le> length entries"
  by (induction entries) (auto simp: fetched_accounts_def split: option.split)

lemma fetched_accounts_full:
  "length (fetched_accounts entries) = length entries \<longleftrightarrow> None \<notin> snd ` set entries"
proof (induction entries)
  case (Cons e entries)
  then show ?case
    using fetched_accounts_length [of entries] by (cases e; cases "snd e") (auto simp: fetched_accounts_def)
qed (simp add: fetched_accounts_def)

lemma fetched_accounts_found:
  "None \<notin> set (map f addrs) \<Longrightarrow> fetched_accounts (map (\<lambda>a. (a, f a)) addrs) = map (\<lambda>a. the (f a)) addrs"
proof (induction addrs)
  case (Cons a addrs)
  then show ?case by (cases "f a") (auto simp: fetched_accounts_def)
qed (simp add: fetched_accounts_def)

text \<open>
  Asking for several pools is asking for each of them: when the addresses are distinct and every pool
  exists, \<open>wlc_getPools\<close> gives, in order, what \<open>wlc_getPool\<close> gives for each address, so that the
  filtered accounts meet their own addresses again; otherwise, also for a repeated address, it throws.
\<close>

theorem client_pools_matched:
  "wlc_getPools ctx addrs =
     (if distinct addrs \<and> None \<notin> cx_getPool ctx ` set addrs then mapE (wlc_getPool ctx) addrs else Inl PlainError)"
proof (cases "distinct addrs \<and> None \<notin> cx_getPool ctx ` set addrs")
  case True
  then have accounts: "fetched_accounts (cx_getPools ctx addrs) = map (\<lambda>a. the (cx_getPool ctx a)) addrs"
    by (simp add: cx_getPools_def set_spread_distinct fetched_accounts_found)
  have zip: "mapE (\<lambda>(account, addr). new_WhirlpoolImpl ctx addr account) (zip (map (\<lambda>a. the (cx_getPool ctx a)) as) as) =
      mapE (wlc_getPool ctx) as" if "None \<notin> cx_getPool ctx ` set as" for as
    using that by (induction as) (auto simp: wlc_getPool_def split: option.split)
  with True show ?thesis by (simp add: wlc_getPools_def accounts)
next
  case False
  have "length (fetched_accounts (cx_getPools ctx addrs)) \<noteq> length addrs"
  proof
    assume "length (fetched_accounts (cx_getPools ctx addrs)) = length addrs"
    then have "length (set_spread addrs) = length addrs"
      "length (fetched_accounts (cx_getPools ctx addrs)) = length (cx_getPools ctx addrs)"
      using fetched_accounts_length [of "cx_getPools ctx addrs"] set_spread_length(1) [of addrs] by (simp_all add: cx_getPools_def)
    with False show False
      unfolding fetched_accounts_full by (auto simp: cx_getPools_def set_spread_length image_image)
  qed
  with False show ?thesis by (auto simp: wlc_getPools_def)
qed

lemma init_pool_ix_reads:
  "ix_called (init_pool_ix ctx ext badgeA badgeB p) \<in> {Some ''initializePool'', Some ''initializePoolV2''}"
  "\<exists>pre. ix_args (init_pool_ix ctx ext badgeA badgeB p) = pre @ [V_int (inp_tickSpacing p), V_int (inp_initSqrtPrice p)]"
  "map (ix_account (init_pool_ix ctx ext badgeA badgeB p)) [''whirlpoolsConfig'', ''tokenMintA'', ''tokenMintB'', ''funder'',
      ''whirlpool'', ''tokenVaultA'', ''tokenVaultB'', ''feeTier''] =
    map Some [inp_whirlpoolsConfig p, inp_tokenMintA p, inp_tokenMintB p, inp_funder p, publicKey (inp_whirlpoolPda p),
      keypair_publicKey (inp_tokenVaultAKeypair p), keypair_publicKey (inp_tokenVaultBKeypair p), inp_feeTierKey p]"
  "in_signers (init_pool_ix ctx ext badgeA badgeB p) = [inp_tokenVaultAKeypair p, inp_tokenVaultBKeypair p]"
  by (simp_all add: init_pool_ix_def initializePoolIx_def initializePoolV2Ix_def ix_read ix_args_def Let_def)

text \<open>
  C32: A pool is created at the price of its tick, together with the tick array of this tick: when the call
  succeeds, the tick is in bounds and fits the spacing, the mints are in canonical order and the
  fee tier exists; the first instruction initializes the pool, signed by both vaults, at a price whose
  tick is the initial tick; the second initializes, for the same pool, the tick array that holds it.
\<close>

theorem create_pool_transaction:
  assumes "wlc_createPool ctx toBuffer vaultA vaultB config mintA mintB ts tick funder = Inr created" "0 < ts"
  shows "checkTickInBounds tick \<and> isTickInitializable tick ts \<and> (compareMints toBuffer mintA mintB < 0 \<or> mintA = mintB) \<and>
    (\<exists>feeTier init_ix array_ix price start pre array.
      getFeeTier (pg_findProgramAddress (cx_program ctx)) (pg_programId (cx_program ctx)) config ts = Inr feeTier \<and>
      cx_getFeeTier ctx (publicKey feeTier) \<noteq> None \<and> crp_tx created = [init_ix, array_ix] \<and>
      ix_called init_ix \<in> {Some ''initializePool'', Some ''initializePoolV2''} \<and>
      ix_args init_ix = pre @ [V_int ts, V_int price] \<and> sqrtPriceX64ToTickIndex price = Inr tick \<and>
      map (ix_account init_ix) [''whirlpoolsConfig'', ''tokenMintA'', ''tokenMintB'', ''funder'', ''whirlpool'', ''tokenVaultA'',
        ''tokenVaultB'', ''feeTier''] =
      map Some [config, mintA, mintB, funder, crp_poolKey created, keypair_publicKey vaultA, keypair_publicKey vaultB,
        publicKey feeTier] \<and>
      in_signers init_ix = [vaultA, vaultB] \<and>
      ix_called array_ix = Some ''initializeTickArray'' \<and> ix_args array_ix = [V_int start] \<and>
      map (ix_account array_ix) [''whirlpool'', ''funder'', ''tickArray''] = map Some [crp_poolKey created, funder, array] \<and>
      start \<le> tick \<and> tick < start + ts * TICK_ARRAY_SIZE \<and> tick_array_of ctx (crp_poolKey created) ts tick array)"
proof -
  let ?fpa = "pg_findProgramAddress (cx_program ctx)" and ?id = "pg_programId (cx_program ctx)"
  from assms(1) have valid: "checkTickInBounds tick" "isTickInitializable tick ts" "fst (orderMints toBuffer mintA mintB) = mintA"
    by (auto simp: wlc_createPool_def Let_def split: if_splits)
  with assms(1) obtain feeTier pda start ext where fee: "getFeeTier ?fpa ?id config ts = Inr feeTier"
      "cx_getFeeTier ctx (publicKey feeTier) \<noteq> None"
    and start: "getStartTickIndex tick ts 0 = Inr start"
    and created: "created = \<lparr>crp_poolKey = publicKey pda, crp_tx = [init_pool_ix ctx ext
        (publicKey (getTokenBadge ?fpa ?id config mintA)) (publicKey (getTokenBadge ?fpa ?id config mintB))
        \<lparr>inp_initSqrtPrice = tickIndexToSqrtPriceX64 tick, inp_whirlpoolsConfig = config, inp_whirlpoolPda = pda,
         inp_tokenMintA = mintA, inp_tokenMintB = mintB, inp_tokenVaultAKeypair = vaultA, inp_tokenVaultBKeypair = vaultB,
         inp_feeTierKey = publicKey feeTier, inp_tickSpacing = ts, inp_funder = funder\<rparr>,
        initTickArrayIx (cx_program ctx) \<lparr>ita_whirlpool = publicKey pda,
          ita_tickArrayPda = getTickArray ?fpa ?id (publicKey pda) start, ita_startTick = start, ita_funder = funder\<rparr>]\<rparr>"
    by (auto simp: wlc_createPool_def Let_def bindE_eq_Inr split: if_splits)
  let ?p = "\<lparr>inp_initSqrtPrice = tickIndexToSqrtPriceX64 tick, inp_whirlpoolsConfig = config, inp_whirlpoolPda = pda,
         inp_tokenMintA = mintA, inp_tokenMintB = mintB, inp_tokenVaultAKeypair = vaultA, inp_tokenVaultBKeypair = vaultB,
         inp_feeTierKey = publicKey feeTier, inp_tickSpacing = ts, inp_funder = funder\<rparr>"
  have order: "compareMints toBuffer mintA mintB < 0 \<or> mintA = mintB"
    using valid(3) by (auto simp: orderMints_def split: if_splits)
  have bounds: "start \<le> tick" "tick < start + ts * TICK_ARRAY_SIZE" "TICK_ARRAY_SIZE * ts dvd start"
    using start array_start_bounds [OF assms(2), of tick]
    by (auto simp: getStartTickIndex_eq [OF assms(2)] Let_def mult.commute split: if_splits)
  then have array: "tick_array_of ctx (publicKey pda) ts tick (publicKey (getTickArray ?fpa ?id (publicKey pda) start))"
    by (auto simp: tick_array_of_def mult.commute)
  obtain pre where "ix_args (init_pool_ix ctx ext (publicKey (getTokenBadge ?fpa ?id config mintA))
      (publicKey (getTokenBadge ?fpa ?id config mintB)) ?p) = pre @ [V_int ts, V_int (tickIndexToSqrtPriceX64 tick)]"
    using init_pool_ix_reads(2) [of ctx ext _ _ ?p] by auto
  with valid order fee bounds array sqrtPriceX64ToTickIndex_of_tick [OF valid(1)] init_pool_ix_reads(1,3,4) [of ctx ext _ _ ?p]
  show ?thesis
    by (auto simp: created initTickArrayIx_def ix_read ix_args_def Let_def)
qed

text \<open>Looking up many positions answers for every address, with \<^verbatim>\<open>null\<close> where one cannot be loaded.\<close>

lemma client_positions:
  assumes "wlc_getPositions ctx addrs = Inr found"
  shows "dom found = set addrs"
    and "a \<in> set addrs \<Longrightarrow> found a = Some (case wlc_getPosition ctx a of Inr position \<Rightarrow> Some position | Inl e \<Rightarrow> None)"
  using assms by (auto simp: wlc_getPositions_def bindE_eq_Inr fromEntries_def map_of_rev_fun dom_def split: if_splits)

subsection \<open>Example\<close>

definition create_ctx :: "TransferFee sdk_ctx" where
  "create_ctx = (example_ctx idle_pool example_position)
     \<lparr>cx_getFeeTier := (\<lambda>addr. Some \<lparr>ft_whirlpoolsConfig = ''config'', ft_tickSpacing = 64, ft_defaultFeeRate = 3000\<rparr>)\<rparr>"

theorem create_pool_transaction_witness:
  "\<exists>created init_ix array_ix pre price.
     wlc_createPool create_ctx (\<lambda>k. map of_char k) (Keypair ''K'') (Keypair ''L'') ''config'' ''A'' ''B'' 64 128 ''me'' = Inr created \<and>
     crp_tx created = [init_ix, array_ix] \<and> ix_args init_ix = pre @ [V_int 64, V_int price] \<and>
     sqrtPriceX64ToTickIndex price = Inr 128"
proof -
  have "\<exists>created. wlc_createPool create_ctx (\<lambda>k. map of_char k) (Keypair ''K'') (Keypair ''L'') ''config'' ''A'' ''B'' 64 128 ''me'' =
      Inr created"
    by (simp add: wlc_createPool_def Let_def checkTickInBounds_def MIN_TICK_INDEX_def MAX_TICK_INDEX_def isTickInitializable_iff
        orderMints_def compareMints_def of_char_def getFeeTier_def getWhirlpool_def le_bytes_2_def create_ctx_def
        getStartTickIndex_in_bounds)
  then obtain created where run: "wlc_createPool create_ctx (\<lambda>k. map of_char k) (Keypair ''K'') (Keypair ''L'') ''config'' ''A'' ''B''
      64 128 ''me'' = Inr created" ..
  have "(0 :: int) < 64" by simp
  from create_pool_transaction [OF run this] run show ?thesis
    by (elim exE conjE) (intro exI conjI, assumption+)
qed

end
