(* ===== verification/Network.thy ===== *)
theory Network
  imports Idl "HOL-Library.Word"
begin

text \<open>
  Accounts as the SDK reads them from the network: their layouts and the error codes in the interface description
  (\<^verbatim>\<open>sdk/src/artifacts/whirlpool.ts\<close>), their sizes (\<^verbatim>\<open>types/public/anchor-types.ts\<close>), the parsers
  (\<^verbatim>\<open>network/public/parsing.ts\<close>), the search for the pools of a configuration
  (\<^verbatim>\<open>fetcher/fetcher-utils.ts\<close>) and what the fetcher itself caches (\<^verbatim>\<open>fetcher/fetcher-impl.ts\<close>). Anchor's coder is the record
  \<open>coder\<close>; the account cache belongs to another package, so that a fetch of accounts is a parameter of the operations
  that fetch. The theorems: the sizes are those of the program, no account is read as
  one of another kind, and a cached epoch is the current one.
\<close>

type_synonym bytes = "8 word list"

subsection \<open>Layouts\<close>

definition idl_account_WhirlpoolsConfigExtension :: "(string \<times> idl_type) list" where
  "idl_account_WhirlpoolsConfigExtension =
     [(''whirlpoolsConfig'', IdlPublicKey), (''configExtensionAuthority'', IdlPublicKey),
      (''tokenBadgeAuthority'', IdlPublicKey)]"

definition idl_account_WhirlpoolsConfig :: "(string \<times> idl_type) list" where
  "idl_account_WhirlpoolsConfig =
     [(''feeAuthority'', IdlPublicKey), (''collectProtocolFeesAuthority'', IdlPublicKey),
      (''rewardEmissionsSuperAuthority'', IdlPublicKey), (''defaultProtocolFeeRate'', IdlU16)]"

definition idl_account_FeeTier :: "(string \<times> idl_type) list" where
  "idl_account_FeeTier =
     [(''whirlpoolsConfig'', IdlPublicKey), (''tickSpacing'', IdlU16), (''defaultFeeRate'', IdlU16)]"

definition idl_account_PositionBundle :: "(string \<times> idl_type) list" where
  "idl_account_PositionBundle =
     [(''positionBundleMint'', IdlPublicKey), (''positionBitmap'', IdlArray (IdlU8) 32)]"

definition idl_account_Position :: "(string \<times> idl_type) list" where
  "idl_account_Position =
     [(''whirlpool'', IdlPublicKey), (''positionMint'', IdlPublicKey), (''liquidity'', IdlU128),
      (''tickLowerIndex'', IdlI32), (''tickUpperIndex'', IdlI32), (''feeGrowthCheckpointA'', IdlU128),
      (''feeOwedA'', IdlU64), (''feeGrowthCheckpointB'', IdlU128), (''feeOwedB'', IdlU64),
      (''rewardInfos'', IdlArray (IdlDefined ''PositionRewardInfo'') 3)]"

definition idl_account_TickArray :: "(string \<times> idl_type) list" where
  "idl_account_TickArray =
     [(''startTickIndex'', IdlI32), (''ticks'', IdlArray (IdlDefined ''Tick'') 88),
      (''whirlpool'', IdlPublicKey)]"

definition idl_account_TokenBadge :: "(string \<times> idl_type) list" where
  "idl_account_TokenBadge =
     [(''whirlpoolsConfig'', IdlPublicKey), (''tokenMint'', IdlPublicKey)]"

definition idl_account_Whirlpool :: "(string \<times> idl_type) list" where
  "idl_account_Whirlpool =
     [(''whirlpoolsConfig'', IdlPublicKey), (''whirlpoolBump'', IdlArray (IdlU8) 1),
      (''tickSpacing'', IdlU16), (''tickSpacingSeed'', IdlArray (IdlU8) 2), (''feeRate'', IdlU16),
      (''protocolFeeRate'', IdlU16), (''liquidity'', IdlU128), (''sqrtPrice'', IdlU128),
      (''tickCurrentIndex'', IdlI32), (''protocolFeeOwedA'', IdlU64), (''protocolFeeOwedB'', IdlU64),
      (''tokenMintA'', IdlPublicKey), (''tokenVaultA'', IdlPublicKey), (''feeGrowthGlobalA'', IdlU128),
      (''tokenMintB'', IdlPublicKey), (''tokenVaultB'', IdlPublicKey), (''feeGrowthGlobalB'', IdlU128),
      (''rewardLastUpdatedTimestamp'', IdlU64),
      (''rewardInfos'', IdlArray (IdlDefined ''WhirlpoolRewardInfo'') 3)]"

datatype AccountName =
    WhirlpoolsConfig | Position | TickArray | Whirlpool | FeeTier | PositionBundle | WhirlpoolsConfigExtension | TokenBadge

instantiation AccountName :: enum
begin

definition enum_AccountName :: "AccountName list" where
  "enum_AccountName =
     [WhirlpoolsConfig, Position, TickArray, Whirlpool, FeeTier, PositionBundle, WhirlpoolsConfigExtension, TokenBadge]"

definition enum_all_AccountName :: "(AccountName \<Rightarrow> bool) \<Rightarrow> bool" where
  "enum_all_AccountName P = list_all P (enum_class.enum :: AccountName list)"

definition enum_ex_AccountName :: "(AccountName \<Rightarrow> bool) \<Rightarrow> bool" where
  "enum_ex_AccountName P = list_ex P (enum_class.enum :: AccountName list)"

instance
proof
  show univ: "(UNIV :: AccountName set) = set enum_class.enum"
    by (auto simp: enum_AccountName_def intro: AccountName.exhaust)
  show "distinct (enum_class.enum :: AccountName list)" by (simp add: enum_AccountName_def)
  show "enum_class.enum_all P \<longleftrightarrow> Ball UNIV P" for P :: "AccountName \<Rightarrow> bool"
    by (simp add: enum_all_AccountName_def univ list_all_iff)
  show "enum_class.enum_ex P \<longleftrightarrow> Bex UNIV P" for P :: "AccountName \<Rightarrow> bool"
    by (simp add: enum_ex_AccountName_def univ list_ex_iff)
qed

end

text \<open>The layouts by name, as \<^verbatim>\<open>whirlpool.json\<close> has them.\<close>

fun account_layout :: "AccountName \<Rightarrow> (string \<times> idl_type) list" where
  "account_layout WhirlpoolsConfig = idl_account_WhirlpoolsConfig"
| "account_layout Position = idl_account_Position"
| "account_layout TickArray = idl_account_TickArray"
| "account_layout Whirlpool = idl_account_Whirlpool"
| "account_layout FeeTier = idl_account_FeeTier"
| "account_layout PositionBundle = idl_account_PositionBundle"
| "account_layout WhirlpoolsConfigExtension = idl_account_WhirlpoolsConfigExtension"
| "account_layout TokenBadge = idl_account_TokenBadge"

fun RESERVED_BYTES :: "AccountName \<Rightarrow> nat" where
  "RESERVED_BYTES WhirlpoolsConfig = 2"
| "RESERVED_BYTES Position = 0"
| "RESERVED_BYTES TickArray = 0"
| "RESERVED_BYTES Whirlpool = 0"
| "RESERVED_BYTES FeeTier = 0"
| "RESERVED_BYTES PositionBundle = 64"
| "RESERVED_BYTES WhirlpoolsConfigExtension = 512"
| "RESERVED_BYTES TokenBadge = 128"

text \<open>
  Anchor's coder: the size of a layout, the first eight bytes of an account, and the filter for accounts that begin
  with some bytes.
\<close>

datatype program_filter = DataSize nat | Memcmp nat bytes

record coder =
  cd_size :: "(string \<times> idl_type) list \<Rightarrow> nat"
  cd_discriminator :: "AccountName \<Rightarrow> bytes"
  cd_memcmp :: "AccountName \<Rightarrow> bytes \<Rightarrow> program_filter"

definition getAccountSize :: "coder \<Rightarrow> AccountName \<Rightarrow> nat" where
  "getAccountSize cd accountName = cd_size cd (account_layout accountName) + RESERVED_BYTES accountName"

definition WHIRLPOOL_ACCOUNT_SIZE :: "coder \<Rightarrow> nat" where
  "WHIRLPOOL_ACCOUNT_SIZE cd = getAccountSize cd Whirlpool"

text \<open>The fields the TypeScript types of the accounts declare.\<close>

fun declared_fields :: "AccountName \<Rightarrow> string set" where
  "declared_fields WhirlpoolsConfig = {''feeAuthority'', ''collectProtocolFeesAuthority'', ''rewardEmissionsSuperAuthority'',
     ''defaultFeeRate'', ''defaultProtocolFeeRate''}"
| "declared_fields Position = {''whirlpool'', ''positionMint'', ''liquidity'', ''tickLowerIndex'', ''tickUpperIndex'',
     ''feeGrowthCheckpointA'', ''feeOwedA'', ''feeGrowthCheckpointB'', ''feeOwedB'', ''rewardInfos''}"
| "declared_fields TickArray = {''whirlpool'', ''startTickIndex'', ''ticks''}"
| "declared_fields Whirlpool = {''whirlpoolsConfig'', ''whirlpoolBump'', ''feeRate'', ''protocolFeeRate'', ''liquidity'',
     ''sqrtPrice'', ''tickCurrentIndex'', ''protocolFeeOwedA'', ''protocolFeeOwedB'', ''tokenMintA'', ''tokenVaultA'',
     ''feeGrowthGlobalA'', ''tokenMintB'', ''tokenVaultB'', ''feeGrowthGlobalB'', ''rewardLastUpdatedTimestamp'',
     ''rewardInfos'', ''tickSpacing''}"
| "declared_fields FeeTier = {''whirlpoolsConfig'', ''tickSpacing'', ''defaultFeeRate''}"
| "declared_fields PositionBundle = {''positionBundleMint'', ''positionBitmap''}"
| "declared_fields WhirlpoolsConfigExtension = {''whirlpoolsConfig'', ''configExtensionAuthority'', ''tokenBadgeAuthority''}"
| "declared_fields TokenBadge = {''whirlpoolsConfig'', ''tokenMint''}"

subsection \<open>Error codes\<close>

text \<open>The codes, names and texts of the errors of the program, in two halves.\<close>

definition idl_errors_first :: "(int \<times> string \<times> string) list" where
  "idl_errors_first =
     [(6000, ''InvalidEnum'', ''Enum value could not be converted''),
      (6001, ''InvalidStartTick'', ''Invalid start tick index provided.''),
      (6002, ''TickArrayExistInPool'', ''Tick-array already exists in this whirlpool''),
      (6003, ''TickArrayIndexOutofBounds'', ''Attempt to search for a tick-array failed''),
      (6004, ''InvalidTickSpacing'', ''Tick-spacing is not supported''),
      (6005, ''ClosePositionNotEmpty'', ''Position is not empty It cannot be closed''),
      (6006, ''DivideByZero'', ''Unable to divide by zero''),
      (6007, ''NumberCastError'', ''Unable to cast number into BigInt''),
      (6008, ''NumberDownCastError'', ''Unable to down cast number''),
      (6009, ''TickNotFound'', ''Tick not found within tick array''),
      (6010, ''InvalidTickIndex'', ''Provided tick index is either out of bounds or uninitializable''),
      (6011, ''SqrtPriceOutOfBounds'', ''Provided sqrt price out of bounds''),
      (6012, ''LiquidityZero'', ''Liquidity amount must be greater than zero''),
      (6013, ''LiquidityTooHigh'', ''Liquidity amount must be less than i64::MAX''),
      (6014, ''LiquidityOverflow'', ''Liquidity overflow''),
      (6015, ''LiquidityUnderflow'', ''Liquidity underflow''),
      (6016, ''LiquidityNetError'', ''Tick liquidity net underflowed or overflowed''),
      (6017, ''TokenMaxExceeded'', ''Exceeded token max''),
      (6018, ''TokenMinSubceeded'', ''Did not meet token min''),
      (6019, ''MissingOrInvalidDelegate'', ''Position token account has a missing or invalid delegate''),
      (6020, ''InvalidPositionTokenAmount'', ''Position token amount must be 1''),
      (6021, ''InvalidTimestampConversion'', ''Timestamp should be convertible from i64 to u64''),
      (6022, ''InvalidTimestamp'', ''Timestamp should be greater than the last updated timestamp''),
      (6023, ''InvalidTickArraySequence'', ''Invalid tick array sequence provided for instruction.''),
      (6024, ''InvalidTokenMintOrder'', ''Token Mint in wrong order''),
      (6025, ''RewardNotInitialized'', ''Reward not initialized''),
      (6026, ''InvalidRewardIndex'', ''Invalid reward index'')]"

definition idl_errors_second :: "(int \<times> string \<times> string) list" where
  "idl_errors_second =
     [(6027, ''RewardVaultAmountInsufficient'', ''Reward vault requires amount to support emissions for at least one day''),
      (6028, ''FeeRateMaxExceeded'', ''Exceeded max fee rate''),
      (6029, ''ProtocolFeeRateMaxExceeded'', ''Exceeded max protocol fee rate''),
      (6030, ''MultiplicationShiftRightOverflow'', ''Multiplication with shift right overflow''),
      (6031, ''MulDivOverflow'', ''Muldiv overflow''),
      (6032, ''MulDivInvalidInput'', ''Invalid div_u256 input''),
      (6033, ''MultiplicationOverflow'', ''Multiplication overflow''),
      (6034, ''InvalidSqrtPriceLimitDirection'', ''Provided SqrtPriceLimit not in the same direction as the swap.''),
      (6035, ''ZeroTradableAmount'', ''There are no tradable amount to swap.''),
      (6036, ''AmountOutBelowMinimum'', ''Amount out below minimum threshold''),
      (6037, ''AmountInAboveMaximum'', ''Amount in above maximum threshold''),
      (6038, ''TickArraySequenceInvalidIndex'', ''Invalid index for tick array sequence''),
      (6039, ''AmountCalcOverflow'', ''Amount calculated overflows''),
      (6040, ''AmountRemainingOverflow'', ''Amount remaining overflows''),
      (6041, ''InvalidIntermediaryMint'', ''Invalid intermediary mint''),
      (6042, ''DuplicateTwoHopPool'', ''Duplicate two hop pool''),
      (6043, ''InvalidBundleIndex'', ''Bundle index is out of bounds''),
      (6044, ''BundledPositionAlreadyOpened'', ''Position has already been opened''),
      (6045, ''BundledPositionAlreadyClosed'', ''Position has already been closed''),
      (6046, ''PositionBundleNotDeletable'', ''Unable to delete PositionBundle with open positions''),
      (6047, ''UnsupportedTokenMint'', ''Token mint has unsupported attributes''),
      (6048, ''RemainingAccountsInvalidSlice'', ''Invalid remaining accounts''),
      (6049, ''RemainingAccountsInsufficient'', ''Insufficient remaining accounts''),
      (6050, ''NoExtraAccountsForTransferHook'', ''Unable to call transfer hook without extra accounts''),
      (6051, ''IntermediateTokenAmountMismatch'', ''Output and input amount mismatch''),
      (6052, ''TransferFeeCalculationError'', ''Transfer fee calculation failed''),
      (6053, ''RemainingAccountsDuplicatedAccountsType'', ''Same accounts type is provided more than once'')]"

definition IDL_errors :: "(int \<times> string \<times> string) list" where
  "IDL_errors = idl_errors_first @ idl_errors_second"

lemma IDL_errors_codes: "map fst IDL_errors = [6000..6053]"
  by (simp add: IDL_errors_def idl_errors_first_def idl_errors_second_def upto_rec_numeral)

subsection \<open>Parsing\<close>

definition parseAnchorAccount :: "coder \<Rightarrow> (bytes \<Rightarrow> 'a res) \<Rightarrow> AccountName \<Rightarrow> bytes \<Rightarrow> 'a option" where
  "parseAnchorAccount cd decode accountName data =
     (if take 8 data \<noteq> cd_discriminator cd accountName then None
      else case decode data of Inr account \<Rightarrow> Some account | Inl e \<Rightarrow> None)"

definition parse_account :: "coder \<Rightarrow> (bytes \<Rightarrow> 'a res) \<Rightarrow> AccountName \<Rightarrow> bytes option \<Rightarrow> 'a option" where
  "parse_account cd decode accountName accountData =
     (case accountData of None \<Rightarrow> None | Some data \<Rightarrow> parseAnchorAccount cd decode accountName data)"

record WhirlpoolsConfigExtensionData =
  wce_whirlpoolsConfig :: pubkey
  wce_configExtensionAuthority :: pubkey
  wce_tokenBadgeAuthority :: pubkey

record TokenBadgeData =
  tbd_whirlpoolsConfig :: pubkey
  tbd_tokenMint :: pubkey

text \<open>What \<^verbatim>\<open>WhirlpoolCoder.decode\<close> gives for each name, cast to the type of the account.\<close>

record decoders =
  dc_whirlpoolsConfig :: "bytes \<Rightarrow> WhirlpoolsConfigData res"
  dc_position :: "bytes \<Rightarrow> PositionData res"
  dc_tickArray :: "bytes \<Rightarrow> TickArrayData res"
  dc_whirlpool :: "bytes \<Rightarrow> WhirlpoolData res"
  dc_feeTier :: "bytes \<Rightarrow> FeeTierData res"
  dc_positionBundle :: "bytes \<Rightarrow> PositionBundleData res"
  dc_whirlpoolsConfigExtension :: "bytes \<Rightarrow> WhirlpoolsConfigExtensionData res"
  dc_tokenBadge :: "bytes \<Rightarrow> TokenBadgeData res"

definition ParsableWhirlpoolsConfig_parse :: "coder \<Rightarrow> decoders \<Rightarrow> bytes option \<Rightarrow> WhirlpoolsConfigData option" where
  "ParsableWhirlpoolsConfig_parse cd dc = parse_account cd (dc_whirlpoolsConfig dc) WhirlpoolsConfig"

definition ParsableWhirlpool_parse :: "coder \<Rightarrow> decoders \<Rightarrow> bytes option \<Rightarrow> WhirlpoolData option" where
  "ParsableWhirlpool_parse cd dc = parse_account cd (dc_whirlpool dc) Whirlpool"

definition ParsablePosition_parse :: "coder \<Rightarrow> decoders \<Rightarrow> bytes option \<Rightarrow> PositionData option" where
  "ParsablePosition_parse cd dc = parse_account cd (dc_position dc) Position"

definition ParsableTickArray_parse :: "coder \<Rightarrow> decoders \<Rightarrow> bytes option \<Rightarrow> TickArrayData option" where
  "ParsableTickArray_parse cd dc = parse_account cd (dc_tickArray dc) TickArray"

definition ParsableFeeTier_parse :: "coder \<Rightarrow> decoders \<Rightarrow> bytes option \<Rightarrow> FeeTierData option" where
  "ParsableFeeTier_parse cd dc = parse_account cd (dc_feeTier dc) FeeTier"

definition ParsablePositionBundle_parse :: "coder \<Rightarrow> decoders \<Rightarrow> bytes option \<Rightarrow> PositionBundleData option" where
  "ParsablePositionBundle_parse cd dc = parse_account cd (dc_positionBundle dc) PositionBundle"

definition ParsableWhirlpoolsConfigExtension_parse :: "coder \<Rightarrow> decoders \<Rightarrow> bytes option \<Rightarrow> WhirlpoolsConfigExtensionData option" where
  "ParsableWhirlpoolsConfigExtension_parse cd dc = parse_account cd (dc_whirlpoolsConfigExtension dc) WhirlpoolsConfigExtension"

definition ParsableTokenBadge_parse :: "coder \<Rightarrow> decoders \<Rightarrow> bytes option \<Rightarrow> TokenBadgeData option" where
  "ParsableTokenBadge_parse cd dc = parse_account cd (dc_tokenBadge dc) TokenBadge"

text \<open>The pools of a configuration: the filters, and the accounts the connection finds with them.\<close>

definition whirlpool_filters :: "coder \<Rightarrow> bytes \<Rightarrow> program_filter list" where
  "whirlpool_filters cd configId = [DataSize (getAccountSize cd Whirlpool), cd_memcmp cd Whirlpool configId]"

definition getAllWhirlpoolAccountsForConfig ::
    "coder \<Rightarrow> decoders \<Rightarrow> (pubkey \<Rightarrow> program_filter list \<Rightarrow> (pubkey \<times> bytes) list) \<Rightarrow> pubkey \<Rightarrow> bytes \<Rightarrow>
     (string \<rightharpoonup> WhirlpoolData) res" where
  "getAllWhirlpoolAccountsForConfig cd dc getProgramAccounts programId configId =
     bindE (mapE (\<lambda>(key, account).
         case ParsableWhirlpool_parse cd dc (Some account) of
           None \<Rightarrow> Inl InvariantError
         | Some parsedAccount \<Rightarrow> Inr (key, parsedAccount))
       (getProgramAccounts programId (whirlpool_filters cd configId))) (\<lambda>parsedAccounts.
     Inr (map_of (rev parsedAccounts)))"

subsection \<open>What the fetcher caches\<close>

record EpochInfo =
  ei_epoch :: int
  ei_slotIndex :: int
  ei_slotsInEpoch :: int

record WhirlpoolAccountFetcher =
  waf_accountRentExempt :: "int option"
  waf_epochInfo :: "EpochInfo option"
  waf_epochInfoNextFetchTime :: int

definition new_WhirlpoolAccountFetcher :: WhirlpoolAccountFetcher where
  "new_WhirlpoolAccountFetcher = \<lparr>waf_accountRentExempt = None, waf_epochInfo = None, waf_epochInfoNextFetchTime = 0\<rparr>"

text \<open>\<open>reply\<close> is what the connection answers; zero counts as not cached.\<close>

definition getAccountRentExempt :: "int \<Rightarrow> bool \<Rightarrow> WhirlpoolAccountFetcher \<Rightarrow> WhirlpoolAccountFetcher \<times> int" where
  "getAccountRentExempt reply refresh this' =
     (case waf_accountRentExempt this' of
        Some cached \<Rightarrow> if cached = 0 \<or> refresh then (this'\<lparr>waf_accountRentExempt := Some reply\<rparr>, reply) else (this', cached)
      | None \<Rightarrow> (this'\<lparr>waf_accountRentExempt := Some reply\<rparr>, reply))"

text \<open>\<open>now\<close> is the time of the call and \<open>later\<close> the time at which the answer has arrived, in milliseconds.\<close>

definition getEpoch :: "EpochInfo \<Rightarrow> int \<Rightarrow> int \<Rightarrow> bool \<Rightarrow> WhirlpoolAccountFetcher \<Rightarrow> WhirlpoolAccountFetcher \<times> int" where
  "getEpoch reply now later refresh this' =
     (case waf_epochInfo this' of
        Some epochInfo \<Rightarrow>
          if now \<ge> waf_epochInfoNextFetchTime this' \<or> refresh
          then (this'\<lparr>waf_epochInfo := Some reply,
                  waf_epochInfoNextFetchTime := later + max (ei_slotsInEpoch reply - ei_slotIndex reply) 0 * 320\<rparr>, ei_epoch reply)
          else (this', ei_epoch epochInfo)
      | None \<Rightarrow> (this'\<lparr>waf_epochInfo := Some reply,
           waf_epochInfoNextFetchTime := later + max (ei_slotsInEpoch reply - ei_slotIndex reply) 0 * 320\<rparr>, ei_epoch reply))"

lemmas account_layouts_defs =
  idl_account_WhirlpoolsConfigExtension_def idl_account_WhirlpoolsConfig_def idl_account_FeeTier_def
  idl_account_PositionBundle_def idl_account_Position_def idl_account_TickArray_def idl_account_TokenBadge_def
  idl_account_Whirlpool_def

subsection \<open>Sizes\<close>

text \<open>
  What the coder promises: the size of a layout is eight bytes and the Borsh sizes of its fields. \<open>borsh_bytes d\<close>
  follows defined types \<open>d\<close> levels deep, two being enough for the layouts here.
\<close>

fun borsh_bytes :: "nat \<Rightarrow> idl_type \<Rightarrow> nat option" where
  "borsh_bytes d IdlU8 = Some 1"
| "borsh_bytes d IdlU16 = Some 2"
| "borsh_bytes d IdlI32 = Some 4"
| "borsh_bytes d IdlU64 = Some 8"
| "borsh_bytes d IdlU128 = Some 16"
| "borsh_bytes d IdlI128 = Some 16"
| "borsh_bytes d IdlBool = Some 1"
| "borsh_bytes d IdlPublicKey = Some 32"
| "borsh_bytes d (IdlArray t n) = map_option (\<lambda>k. n * k) (borsh_bytes d t)"
| "borsh_bytes (Suc d) (IdlDefined name) =
     (case map_of IDL_types name of
        Some (IdlStruct fs) \<Rightarrow>
          fold (\<lambda>(f, t) total. case (borsh_bytes d t, total) of (Some a, Some b) \<Rightarrow> Some (b + a) | _ \<Rightarrow> None) fs (Some 0)
      | _ \<Rightarrow> None)"
| "borsh_bytes d t = None"

definition layout_bytes :: "(string \<times> idl_type) list \<Rightarrow> nat option" where
  "layout_bytes fs =
     fold (\<lambda>(f, t) total. case (borsh_bytes 2 t, total) of (Some a, Some b) \<Rightarrow> Some (b + a) | _ \<Rightarrow> None) fs (Some 8)"

definition coder_sizes :: "coder \<Rightarrow> bool" where
  "coder_sizes cd \<longleftrightarrow> (\<forall>fs n. layout_bytes fs = Some n \<longrightarrow> cd_size cd fs = n)"

text \<open>The sizes the program on the chain gives its accounts (the \<^verbatim>\<open>LEN\<close> constants of \<^verbatim>\<open>programs/whirlpool/src/state\<close>).\<close>

fun program_size :: "AccountName \<Rightarrow> nat" where
  "program_size WhirlpoolsConfig = 108"
| "program_size Position = 216"
| "program_size TickArray = 9988"
| "program_size Whirlpool = 653"
| "program_size FeeTier = 44"
| "program_size PositionBundle = 136"
| "program_size WhirlpoolsConfigExtension = 616"
| "program_size TokenBadge = 200"

lemma layout_bytes_account: "layout_bytes (account_layout a) = Some (program_size a - RESERVED_BYTES a)"
  by (induction a; code_simp)

lemma reserved_le_program_size: "RESERVED_BYTES a \<le> program_size a"
  by (cases a) simp_all

lemma getAccountSize_program:
  assumes "coder_sizes cd"
  shows "getAccountSize cd a = program_size a"
  using assms layout_bytes_account [of a] reserved_le_program_size [of a]
  by (simp add: getAccountSize_def coder_sizes_def)

text \<open>The kinds have different sizes, so that a filter by the size already finds one kind only.\<close>

lemma program_size_inj: "inj program_size"
proof -
  have "distinct (map program_size (enum_class.enum :: AccountName list))" by (simp add: enum_AccountName_def)
  then show ?thesis by (simp only: distinct_map UNIV_enum)
qed

lemma getAccountSize_inj: "coder_sizes cd \<Longrightarrow> inj (getAccountSize cd)"
  using program_size_inj by (simp add: getAccountSize_program inj_def)

lemma declared_fields_layout:
  "declared_fields a - set (map fst (account_layout a)) = (if a = WhirlpoolsConfig then {''defaultFeeRate''} else {})"
  "set (map fst (account_layout a)) - declared_fields a = (if a = Whirlpool then {''tickSpacingSeed''} else {})"
  by (induction a; auto simp: account_layouts_defs)+

subsection \<open>One kind of account\<close>

definition distinct_discriminators :: "coder \<Rightarrow> bool" where
  "distinct_discriminators cd \<longleftrightarrow> inj (cd_discriminator cd)"

lemma parse_account_Some:
  "parse_account cd decode a d = Some x \<Longrightarrow> \<exists>data. d = Some data \<and> take 8 data = cd_discriminator cd a"
  by (auto simp: parse_account_def parseAnchorAccount_def split: option.splits if_splits)

lemma parse_account_one_kind:
  assumes "distinct_discriminators cd" "parse_account cd f a d = Some x" "parse_account cd g b d = Some y"
  shows "a = b"
  using parse_account_Some [OF assms(2)] parse_account_Some [OF assms(3)] assms(1)
  by (auto simp: distinct_discriminators_def inj_def)

text \<open>A search for pools that returns has read every account the connection found as a pool, and nothing else.\<close>

lemma list_all2_in_right: "list_all2 P xs ys \<Longrightarrow> y \<in> set ys \<Longrightarrow> \<exists>x \<in> set xs. P x y"
  by (induction rule: list_all2_induct) auto

lemma pool_search:
  assumes "getAllWhirlpoolAccountsForConfig cd dc getProgramAccounts programId configId = Inr pools"
  defines "found \<equiv> getProgramAccounts programId (whirlpool_filters cd configId)"
  shows "dom pools = fst ` set found"
    and "\<And>key pool. pools key = Some pool \<Longrightarrow> \<exists>data. (key, data) \<in> set found \<and> take 8 data = cd_discriminator cd Whirlpool \<and>
           ParsableWhirlpool_parse cd dc (Some data) = Some pool"
proof -
  let ?f = "\<lambda>(key, account). case ParsableWhirlpool_parse cd dc (Some account) of None \<Rightarrow> Inl InvariantError
         | Some parsedAccount \<Rightarrow> Inr (key, parsedAccount)"
  obtain ps where ps: "mapE ?f found = Inr ps" and pools: "pools = map_of (rev ps)"
    using assms by (auto simp: getAllWhirlpoolAccountsForConfig_def bindE_eq_Inr)
  have all2: "list_all2 (\<lambda>x y. ?f x = Inr y) found ps" by (rule mapE_list_all2 [OF ps])
  have keys: "map fst ps = map fst found"
    using all2 by (induction rule: list_all2_induct) (auto split: option.splits)
  then show "dom pools = fst ` set found" unfolding pools dom_map_of_conv_image_fst by (metis list.set_map set_rev)
  fix key pool
  assume "pools key = Some pool"
  then have "(key, pool) \<in> set ps" unfolding pools by (metis map_of_SomeD set_rev)
  then obtain x where x: "x \<in> set found" "?f x = Inr (key, pool)" using list_all2_in_right [OF all2] by blast
  obtain data where d: "x = (key, data)" "ParsableWhirlpool_parse cd dc (Some data) = Some pool"
    using x(2) by (cases x) (auto split: option.splits)
  moreover have "take 8 data = cd_discriminator cd Whirlpool"
    using parse_account_Some [of cd "dc_whirlpool dc" Whirlpool "Some data" pool] d(2) by (simp add: ParsableWhirlpool_parse_def)
  ultimately show "\<exists>data. (key, data) \<in> set found \<and> take 8 data = cd_discriminator cd Whirlpool \<and>
      ParsableWhirlpool_parse cd dc (Some data) = Some pool" using x(1) by blast
qed

subsection \<open>The epoch over time\<close>

text \<open>
  The chain: what it would answer at time \<open>t\<close> (in milliseconds). The law is the one the code relies on: slots last at
  least 400 milliseconds, so that an epoch with \<open>r\<close> slots left lasts longer than \<open>(r - 1) * 400\<close> milliseconds.
\<close>

definition slots_left :: "EpochInfo \<Rightarrow> int" where
  "slots_left e = ei_slotsInEpoch e - ei_slotIndex e"

definition chain_law :: "(int \<Rightarrow> EpochInfo) \<Rightarrow> bool" where
  "chain_law info \<longleftrightarrow> (\<forall>t. 0 < slots_left (info t)) \<and>
     (\<forall>t u. t \<le> u \<longrightarrow> u < t + (slots_left (info t) - 1) * 400 \<longrightarrow> ei_epoch (info u) = ei_epoch (info t))"

text \<open>
  The fetcher in use: a call of \<open>getEpoch\<close> at time \<open>now\<close>, whose question, when it asks, the connection answers with what holds at
  some time \<open>asked\<close> and whose answer arrives at \<open>later\<close>, in time: within 80 milliseconds for each slot left of the epoch, less
  the 400 milliseconds of the slot under way. The calls follow each other.
\<close>

definition in_time :: "(int \<Rightarrow> EpochInfo) \<Rightarrow> int \<Rightarrow> int \<Rightarrow> bool" where
  "in_time info asked later \<longleftrightarrow> later - asked \<le> 80 * slots_left (info asked) - 400"

inductive epoch_run :: "(int \<Rightarrow> EpochInfo) \<Rightarrow> int \<Rightarrow> WhirlpoolAccountFetcher \<Rightarrow> bool" for info where
  epoch_start: "epoch_run info t new_WhirlpoolAccountFetcher"
| epoch_wait: "epoch_run info t st \<Longrightarrow> t \<le> u \<Longrightarrow> epoch_run info u st"
| epoch_rent: "epoch_run info t st \<Longrightarrow> epoch_run info t (fst (getAccountRentExempt reply refresh st))"
| epoch_call: "epoch_run info now st \<Longrightarrow> now \<le> asked \<Longrightarrow> asked \<le> later \<Longrightarrow>
     (waf_epochInfo st = None \<or> now \<ge> waf_epochInfoNextFetchTime st \<or> refresh \<Longrightarrow> in_time info asked later) \<Longrightarrow>
     epoch_run info later (fst (getEpoch (info asked) now later refresh st))"

definition epoch_cached_at :: "(int \<Rightarrow> EpochInfo) \<Rightarrow> int \<Rightarrow> WhirlpoolAccountFetcher \<Rightarrow> int \<Rightarrow> int \<Rightarrow> bool" where
  "epoch_cached_at info t st asked later \<longleftrightarrow> in_time info asked later \<and> asked \<le> later \<and> later \<le> t \<and> waf_epochInfo st = Some (info asked) \<and>
     waf_epochInfoNextFetchTime st = later + max (slots_left (info asked)) 0 * 320"

lemma getAccountRentExempt_epoch [simp]:
  "waf_epochInfo (fst (getAccountRentExempt reply refresh st)) = waf_epochInfo st"
  "waf_epochInfoNextFetchTime (fst (getAccountRentExempt reply refresh st)) = waf_epochInfoNextFetchTime st"
  by (auto simp: getAccountRentExempt_def split: option.splits)

lemma getEpoch_cases:
  "getEpoch reply now later refresh st =
     (if waf_epochInfo st = None \<or> now \<ge> waf_epochInfoNextFetchTime st \<or> refresh
      then (st\<lparr>waf_epochInfo := Some reply, waf_epochInfoNextFetchTime := later + max (slots_left reply) 0 * 320\<rparr>, ei_epoch reply)
      else (st, ei_epoch (the (waf_epochInfo st))))"
  by (simp add: getEpoch_def slots_left_def split: option.splits)

lemma epoch_run_cached:
  assumes "epoch_run info t st"
  shows "waf_epochInfo st = None \<or> (\<exists>asked later. epoch_cached_at info t st asked later)"
  using assms
proof (induction rule: epoch_run.induct)
  case (epoch_start t)
  show ?case by (simp add: new_WhirlpoolAccountFetcher_def)
next
  case (epoch_wait t st u)
  then show ?case unfolding epoch_cached_at_def using order_trans [of _ t u] by blast
next
  case (epoch_rent t st reply refresh)
  then show ?case by (simp add: epoch_cached_at_def)
next
  case (epoch_call now st asked later refresh)
  show ?case
  proof (cases "waf_epochInfo st = None \<or> now \<ge> waf_epochInfoNextFetchTime st \<or> refresh")
    case True
    then have "epoch_cached_at info later (fst (getEpoch (info asked) now later refresh st)) asked later"
      using epoch_call.hyps by (auto simp: getEpoch_cases epoch_cached_at_def)
    then show ?thesis by blast
  next
    case False
    then have same: "fst (getEpoch (info asked) now later refresh st) = st" unfolding getEpoch_cases by (simp only: if_not_P [OF False] if_False fst_conv)
    have "now \<le> later" using epoch_call.hyps by simp
    then show ?thesis using epoch_call.IH unfolding same epoch_cached_at_def using order_trans [of _ now later] by blast
  qed
qed

lemma epoch_cached_current:
  assumes "chain_law info" and "epoch_cached_at info t st asked later" and "u < waf_epochInfoNextFetchTime st" and "t \<le> u"
  shows "ei_epoch (info u) = ei_epoch (info asked)"
proof -
  have "0 < slots_left (info asked)" using assms(1) by (simp add: chain_law_def)
  then have "u < asked + (slots_left (info asked) - 1) * 400" using assms by (auto simp: epoch_cached_at_def in_time_def)
  then show ?thesis using assms by (auto simp: chain_law_def epoch_cached_at_def)
qed

section \<open>Properties\<close>

text \<open>
  C39: when the coder sizes a layout as Borsh does, every account has the size the program gives it, so that the search
  for the pools of a configuration filters by the true size; and the TypeScript types declare the fields of the layouts,
  but that the configuration is declared with a \<^verbatim>\<open>defaultFeeRate\<close> which its account does not have and the pool without its
  \<^verbatim>\<open>tickSpacingSeed\<close>.
\<close>

theorem account_sizes_and_fields:
  assumes "coder_sizes cd"
  shows "getAccountSize cd a = program_size a \<and>
    DataSize 653 \<in> set (whirlpool_filters cd configId) \<and>
    declared_fields a - set (map fst (account_layout a)) = (if a = WhirlpoolsConfig then {''defaultFeeRate''} else {}) \<and>
    set (map fst (account_layout a)) - declared_fields a = (if a = Whirlpool then {''tickSpacingSeed''} else {})"
  using getAccountSize_program [OF assms, of a] getAccountSize_program [OF assms, of Whirlpool] declared_fields_layout [of a]
  by (simp only: whirlpool_filters_def program_size.simps list.set_intros simp_thms)

definition coder_ref :: coder where
  "coder_ref =
     \<lparr>cd_size = (\<lambda>fs. case layout_bytes fs of Some n \<Rightarrow> n | None \<Rightarrow> 0),
      cd_discriminator = (\<lambda>a. case a of
          WhirlpoolsConfig \<Rightarrow> [157, 20, 49, 224, 217, 87, 193, 254] | Position \<Rightarrow> [170, 188, 143, 228, 122, 64, 247, 208]
        | TickArray \<Rightarrow> [69, 97, 189, 190, 110, 7, 66, 187] | Whirlpool \<Rightarrow> [63, 149, 209, 12, 225, 128, 99, 9]
        | FeeTier \<Rightarrow> [56, 75, 159, 76, 142, 68, 190, 105] | PositionBundle \<Rightarrow> [129, 169, 175, 65, 185, 95, 32, 100]
        | WhirlpoolsConfigExtension \<Rightarrow> [2, 99, 215, 163, 240, 26, 153, 58] | TokenBadge \<Rightarrow> [116, 219, 204, 229, 249, 116, 255, 150]),
      cd_memcmp = (\<lambda>a bs. Memcmp 0 bs)\<rparr>"

lemma coder_ref_ok: "coder_sizes coder_ref" "distinct_discriminators coder_ref"
  by (auto simp: coder_sizes_def coder_ref_def distinct_discriminators_def inj_def split: AccountName.splits)

theorem account_sizes_and_fields_witness:
  "getAccountSize coder_ref TickArray = 9988 \<and> WHIRLPOOL_ACCOUNT_SIZE coder_ref = 653 \<and>
   declared_fields WhirlpoolsConfig - set (map fst (account_layout WhirlpoolsConfig)) = {''defaultFeeRate''}"
  using account_sizes_and_fields [OF coder_ref_ok(1), of TickArray] account_sizes_and_fields [OF coder_ref_ok(1), of Whirlpool]
    account_sizes_and_fields [OF coder_ref_ok(1), of WhirlpoolsConfig]
  by (simp only: WHIRLPOOL_ACCOUNT_SIZE_def program_size.simps if_True simp_thms)

text \<open>
  C35: an epoch the fetcher has cached is never given out after the epoch is over, as long as slots last at least 400
  milliseconds and no answer it kept was slower than 80 milliseconds for each slot that was left of the epoch,
  less the 400 milliseconds of the slot under way: whatever calls came before, a call of \<open>getEpoch\<close> that does not
  ask the network returns the epoch of that moment.
\<close>

theorem cached_epoch_current:
  assumes "chain_law info" and "epoch_run info now st"
    and "waf_epochInfo st \<noteq> None" and "now < waf_epochInfoNextFetchTime st"
  shows "getEpoch reply now later False st = (st, ei_epoch (info now))"
proof -
  obtain asked arrived where c: "epoch_cached_at info now st asked arrived"
    using epoch_run_cached [OF assms(2)] assms(3) by blast
  have "getEpoch reply now later False st = (st, ei_epoch (info asked))"
    using assms(3,4) c by (auto simp: getEpoch_cases epoch_cached_at_def)
  then show ?thesis using epoch_cached_current [OF assms(1) c assms(4)] by simp
qed

text \<open>A chain with 1000 slots of 400 milliseconds in an epoch, asked at 0 and read again at 319999.\<close>

definition chain_ref :: "int \<Rightarrow> EpochInfo" where
  "chain_ref t = \<lparr>ei_epoch = t div 400000, ei_slotIndex = t mod 400000 div 400, ei_slotsInEpoch = 1000\<rparr>"

lemma chain_ref_ok: "chain_law chain_ref"
proof -
  have left: "0 < slots_left (chain_ref t)" for t
    using pos_mod_bound [of 400000 t] by (simp add: slots_left_def chain_ref_def)
  moreover have "u div 400000 = t div 400000"
    if "t \<le> u" "u < t + (slots_left (chain_ref t) - 1) * 400" for t u
  proof -
    define q m k where "q = t div 400000" and "m = t mod 400000" and "k = m div 400"
    have "t = 400000 * q + m" "m < 400 * k + 400" "400000 * q \<le> t" by (simp_all add: q_def m_def k_def)
    moreover have "u < t + (999 - k) * 400" using that(2) by (simp add: slots_left_def chain_ref_def m_def k_def)
    ultimately have "400000 * q \<le> u" "u < 400000 * (q + 1)" using that(1) by simp_all
    then show ?thesis unfolding q_def [symmetric] by simp
  qed
  ultimately show ?thesis by (simp add: chain_law_def chain_ref_def)
qed

lemma chain_ref_run:
  "epoch_run chain_ref 319999 (fst (getEpoch (chain_ref 0) 0 0 False new_WhirlpoolAccountFetcher))"
proof -
  have "epoch_run chain_ref 0 (fst (getEpoch (chain_ref 0) 0 0 False new_WhirlpoolAccountFetcher))"
    by (rule epoch_run.epoch_call [OF epoch_start]) (simp_all add: in_time_def slots_left_def chain_ref_def)
  then show ?thesis by (rule epoch_wait) simp
qed

theorem cached_epoch_current_witness:
  "snd (getEpoch (chain_ref 500000) 319999 400001 False
     (fst (getEpoch (chain_ref 0) 0 0 False new_WhirlpoolAccountFetcher))) = 0"
proof -
  let ?st = "fst (getEpoch (chain_ref 0) 0 0 False new_WhirlpoolAccountFetcher)"
  have "waf_epochInfo ?st \<noteq> None" "319999 < waf_epochInfoNextFetchTime ?st"
    by (simp_all add: getEpoch_def new_WhirlpoolAccountFetcher_def chain_ref_def)
  then show ?thesis
    using cached_epoch_current [OF chain_ref_ok chain_ref_run] by (simp add: chain_ref_def)
qed

end
