(* ===== verification/Context.thy ===== *)
theory Context
  imports Ix_Core
begin

text \<open>
  The context every call carries (\<^verbatim>\<open>sdk/src/context.ts\<close>, with \<^verbatim>\<open>contextOptionsToBuilderOptions\<close> of
  \<^verbatim>\<open>utils/txn-utils.ts\<close>), the check that a wallet is connected (\<^verbatim>\<open>utils/wallet-utils.ts\<close>) and the addresses of
  \<^verbatim>\<open>types/public/constants.ts\<close>. Connections, wallets and fetchers are opaque; a partial object of options is a map, and
  the defaults of the builder package are parameters. The lemmas: what the merged options are, and that the ways to construct a context agree.
\<close>

definition ORCA_WHIRLPOOL_PROGRAM_ID :: pubkey where
  "ORCA_WHIRLPOOL_PROGRAM_ID = ''whirLbMiicVdio4qvUfM5KAg6Ct8VwpYzGff3uctyCc''"

definition ORCA_WHIRLPOOLS_CONFIG :: pubkey where
  "ORCA_WHIRLPOOLS_CONFIG = ''2LecshUwdy9xi7meFgHtFJQNSKk4KdTrcpvaB56dP2NQ''"

definition ORCA_WHIRLPOOLS_CONFIG_EXTENSION :: pubkey where
  "ORCA_WHIRLPOOLS_CONFIG_EXTENSION = ''777H5H3Tp9U11uRVRzFwM8BinfiakbaLT8vQpeuhvEiH''"

subsection \<open>Options\<close>

record AccountResolverOptions =
  aro_createWrappedSolAccountMethod :: string
  aro_allowPDAOwnerAddress :: bool

definition DEFAULT_ACCOUNT_RESOLVER_OPTS :: AccountResolverOptions where
  "DEFAULT_ACCOUNT_RESOLVER_OPTS = \<lparr>aro_createWrappedSolAccountMethod = ''keypair'', aro_allowPDAOwnerAddress = False\<rparr>"

record 'v WhirlpoolContextOpts =
  wco_userDefaultBuildOptions :: "(string \<rightharpoonup> 'v) option"
  wco_userDefaultSendOptions :: "(string \<rightharpoonup> 'v) option"
  wco_userDefaultConfirmCommitment :: "string option"
  wco_accountResolverOptions :: "AccountResolverOptions option"

definition no_opts :: "'v WhirlpoolContextOpts" where
  "no_opts = \<lparr>wco_userDefaultBuildOptions = None, wco_userDefaultSendOptions = None, wco_userDefaultConfirmCommitment = None,
     wco_accountResolverOptions = None\<rparr>"

text \<open>The options of a transaction builder; the builder package has defaults of this type.\<close>

record 'v TransactionBuilderOptions =
  tbo_defaultBuildOption :: "string \<rightharpoonup> 'v"
  tbo_defaultSendOption :: "string \<rightharpoonup> 'v"
  tbo_defaultConfirmationCommitment :: string

definition spread :: "(string \<rightharpoonup> 'v) \<Rightarrow> (string \<rightharpoonup> 'v) option \<Rightarrow> (string \<rightharpoonup> 'v)" where
  "spread base given = (case given of None \<Rightarrow> base | Some m \<Rightarrow> base ++ m)"

definition contextOptionsToBuilderOptions ::
    "'v TransactionBuilderOptions \<Rightarrow> 'v WhirlpoolContextOpts \<Rightarrow> 'v TransactionBuilderOptions" where
  "contextOptionsToBuilderOptions defaults opts =
     \<lparr>tbo_defaultBuildOption = spread (tbo_defaultBuildOption defaults) (wco_userDefaultBuildOptions opts),
      tbo_defaultSendOption = spread (tbo_defaultSendOption defaults) (wco_userDefaultSendOptions opts),
      tbo_defaultConfirmationCommitment =
        (case wco_userDefaultConfirmCommitment opts of
           None \<Rightarrow> tbo_defaultConfirmationCommitment defaults
         | Some c \<Rightarrow> c)\<rparr>"

subsection \<open>The context\<close>

text \<open>Anchor's provider and program hold what they are constructed with; a program is constructed from the interface description.\<close>

record ('c, 'w) AnchorProvider =
  ap_connection :: 'c
  ap_wallet :: 'w
  ap_commitment :: string
  ap_preflightCommitment :: string

record ('c, 'w) Program =
  pg_programId :: pubkey
  pg_provider :: "('c, 'w) AnchorProvider"

record ('c, 'w, 'f, 'l, 'v) WhirlpoolContext =
  wc_connection :: 'c
  wc_wallet :: 'w
  wc_program :: "('c, 'w) Program"
  wc_provider :: "('c, 'w) AnchorProvider"
  wc_fetcher :: 'f
  wc_lookupTableFetcher :: "'l option"
  wc_opts :: "'v WhirlpoolContextOpts"
  wc_txBuilderOpts :: "'v TransactionBuilderOptions"
  wc_accountResolverOpts :: AccountResolverOptions

definition new_WhirlpoolContext ::
    "'v TransactionBuilderOptions \<Rightarrow> ('c, 'w) AnchorProvider \<Rightarrow> 'w \<Rightarrow> ('c, 'w) Program \<Rightarrow> 'f \<Rightarrow> 'l option \<Rightarrow> 'v WhirlpoolContextOpts \<Rightarrow>
     ('c, 'w, 'f, 'l, 'v) WhirlpoolContext" where
  "new_WhirlpoolContext defaults provider wallet program fetcher lookupTableFetcher opts =
     \<lparr>wc_connection = ap_connection provider, wc_wallet = wallet, wc_program = program, wc_provider = provider,
      wc_fetcher = fetcher, wc_lookupTableFetcher = lookupTableFetcher, wc_opts = opts,
      wc_txBuilderOpts = contextOptionsToBuilderOptions defaults opts,
      wc_accountResolverOpts =
        (case wco_accountResolverOptions opts of None \<Rightarrow> DEFAULT_ACCOUNT_RESOLVER_OPTS | Some o' \<Rightarrow> o')\<rparr>"

text \<open>\<open>buildFetcher\<close> is \<^verbatim>\<open>buildDefaultAccountFetcher\<close>, for the parameters that are left out.\<close>

definition context_from ::
    "'v TransactionBuilderOptions \<Rightarrow> ('c \<Rightarrow> 'f) \<Rightarrow> 'c \<Rightarrow> 'w \<Rightarrow> pubkey \<Rightarrow> 'f option \<Rightarrow> 'l option \<Rightarrow> 'v WhirlpoolContextOpts option \<Rightarrow>
     ('c, 'w, 'f, 'l, 'v) WhirlpoolContext" where
  "context_from defaults buildFetcher connection wallet programId fetcher lookupTableFetcher opts =
     (let fetcher = case_option (buildFetcher connection) id fetcher;
          opts = case_option no_opts id opts;
          commitment = (case wco_userDefaultConfirmCommitment opts of
              None \<Rightarrow> ''confirmed'' | Some c \<Rightarrow> if c = [] then ''confirmed'' else c);
          anchorProvider = \<lparr>ap_connection = connection, ap_wallet = wallet, ap_commitment = commitment,
            ap_preflightCommitment = commitment\<rparr>;
          program = \<lparr>pg_programId = programId, pg_provider = anchorProvider\<rparr> in
      new_WhirlpoolContext defaults anchorProvider (ap_wallet anchorProvider) program fetcher lookupTableFetcher opts)"

definition context_fromWorkspace ::
    "'v TransactionBuilderOptions \<Rightarrow> ('c \<Rightarrow> 'f) \<Rightarrow> ('c, 'w) AnchorProvider \<Rightarrow> ('c, 'w) Program \<Rightarrow> 'f option \<Rightarrow> 'l option \<Rightarrow>
     'v WhirlpoolContextOpts option \<Rightarrow> ('c, 'w, 'f, 'l, 'v) WhirlpoolContext" where
  "context_fromWorkspace defaults buildFetcher provider program fetcher lookupTableFetcher opts =
     new_WhirlpoolContext defaults provider (ap_wallet provider) program
       (case_option (buildFetcher (ap_connection provider)) id fetcher) lookupTableFetcher (case_option no_opts id opts)"

definition context_withProvider ::
    "'v TransactionBuilderOptions \<Rightarrow> ('c \<Rightarrow> 'f) \<Rightarrow> ('c, 'w) AnchorProvider \<Rightarrow> pubkey \<Rightarrow> 'f option \<Rightarrow> 'l option \<Rightarrow>
     'v WhirlpoolContextOpts option \<Rightarrow> ('c, 'w, 'f, 'l, 'v) WhirlpoolContext" where
  "context_withProvider defaults buildFetcher provider programId fetcher lookupTableFetcher opts =
     (let program = \<lparr>pg_programId = programId, pg_provider = provider\<rparr> in
      new_WhirlpoolContext defaults provider (ap_wallet provider) program
        (case_option (buildFetcher (ap_connection provider)) id fetcher) lookupTableFetcher (case_option no_opts id opts))"

text \<open>\<open>defaultKey\<close> is \<^verbatim>\<open>PublicKey.default\<close>; a wallet is given by its key.\<close>

definition isWalletConnected :: "pubkey \<Rightarrow> pubkey option \<Rightarrow> bool" where
  "isWalletConnected defaultKey wallet = (case wallet of None \<Rightarrow> False | Some key \<Rightarrow> key \<noteq> defaultKey)"

subsection \<open>Lemmas\<close>

text \<open>A key the user gave has the value the user gave, every other key its default.\<close>

lemma builder_option:
  "tbo_defaultBuildOption (contextOptionsToBuilderOptions defaults opts) k =
     (case Option.bind (wco_userDefaultBuildOptions opts) (\<lambda>m. m k) of
        Some v \<Rightarrow> Some v | None \<Rightarrow> tbo_defaultBuildOption defaults k)"
  "tbo_defaultSendOption (contextOptionsToBuilderOptions defaults opts) k =
     (case Option.bind (wco_userDefaultSendOptions opts) (\<lambda>m. m k) of
        Some v \<Rightarrow> Some v | None \<Rightarrow> tbo_defaultSendOption defaults k)"
  by (auto simp: contextOptionsToBuilderOptions_def spread_def map_add_def split: option.splits)

lemma context_without_options:
  "wc_txBuilderOpts (context_withProvider defaults bf p i f l None) = defaults"
  "wc_accountResolverOpts (context_withProvider defaults bf p i f l None) = DEFAULT_ACCOUNT_RESOLVER_OPTS"
  by (simp_all add: context_withProvider_def new_WhirlpoolContext_def contextOptionsToBuilderOptions_def spread_def no_opts_def)

text \<open>The three ways to construct a context agree: each holds the connection and the wallet of its provider.\<close>

lemma context_constructors:
  "context_from defaults bf c w i f l opts =
     context_withProvider defaults bf (wc_provider (context_from defaults bf c w i f l opts)) i f l opts"
  "context_withProvider defaults bf p i f l opts = context_fromWorkspace defaults bf p \<lparr>pg_programId = i, pg_provider = p\<rparr> f l opts"
  "wc_connection (context_from defaults bf c w i f l opts) = c" "wc_wallet (context_from defaults bf c w i f l opts) = w"
  by (simp_all add: context_from_def context_withProvider_def context_fromWorkspace_def new_WhirlpoolContext_def Let_def
      split: option.split)

end
